(* ===== verification/H3_Prelude.thy ===== *)
theory H3_Prelude
  imports Complex_Main "HOL-Library.AList" "HOL-Library.Multiset"
begin

text \<open>
  What every component of the MiniMax H3 development shares: Python exceptions as
  values, the result type and its sequencing, the list and association-list lemmas
  the component proofs use, and the theorem collections that carry them.
\<close>

section \<open>Exceptions as values\<close>

text \<open>
  A Python function that may raise returns a value of the sum type: \<open>Inl e\<close> for the
  exception, \<open>Inr x\<close> for the returned value. The argument of \<open>ValueError\<close> and
  \<open>RuntimeError\<close> is the constant part of the message the source formats (the
  interpolated values are left out).
\<close>

datatype py_error =
    ValueError string
  | TypeError string
  | KeyError string
  | AttributeError string
  | RuntimeError string
  | IndexError
  | ZeroDivisionError
  | OverflowError
  | FileNotFoundError string
  | NotImplementedError string
  | OSError string

type_synonym 'a res = "py_error + 'a"

named_theorems res_simps \<open>equations for the sequencing of raising computations\<close>

fun rbind :: "'a res \<Rightarrow> ('a \<Rightarrow> 'b res) \<Rightarrow> 'b res" where
  "rbind (Inl e) f = Inl e"
| "rbind (Inr x) f = f x"

text \<open>\<open>raise_if c e m\<close> is \<^verbatim>\<open>if c: raise e\<close> followed by \<open>m\<close>.\<close>

definition raise_if :: "bool \<Rightarrow> py_error \<Rightarrow> 'a res \<Rightarrow> 'a res" where
  "raise_if c e m = (if c then Inl e else m)"

text \<open>A \<^verbatim>\<open>for\<close> loop that builds a list and stops at the first exception.\<close>

fun rmap :: "('a \<Rightarrow> 'b res) \<Rightarrow> 'a list \<Rightarrow> 'b list res" where
  "rmap f [] = Inr []"
| "rmap f (x # xs) = rbind (f x) (\<lambda>y. rbind (rmap f xs) (\<lambda>ys. Inr (y # ys)))"

text \<open>A \<^verbatim>\<open>for\<close> loop over a state that stops at the first exception.\<close>

fun rfold :: "('a \<Rightarrow> 's \<Rightarrow> 's res) \<Rightarrow> 'a list \<Rightarrow> 's \<Rightarrow> 's res" where
  "rfold f [] s = Inr s"
| "rfold f (x # xs) s = rbind (f x s) (rfold f xs)"

lemma rbind_Inr_iff [res_simps]: "rbind m f = Inr y \<longleftrightarrow> (\<exists>x. m = Inr x \<and> f x = Inr y)"
  by (cases m) auto

lemma rbind_Inl_iff [res_simps]:
  "rbind m f = Inl e \<longleftrightarrow> m = Inl e \<or> (\<exists>x. m = Inr x \<and> f x = Inl e)"
  by (cases m) auto

lemma not_isl_Inr: "\<not> isl m \<Longrightarrow> (\<And>y. m = Inr y \<Longrightarrow> thesis) \<Longrightarrow> thesis"
  by (cases m) auto

lemma rbind_assoc: "rbind (rbind m f) g = rbind m (\<lambda>x. rbind (f x) g)"
  by (cases m) auto

lemma rbind_cong [fundef_cong]:
  "m = m' \<Longrightarrow> (\<And>x. m' = Inr x \<Longrightarrow> f x = f' x) \<Longrightarrow> rbind m f = rbind m' f'"
  by (cases m') auto

lemma raise_if_Inr_iff [res_simps]: "raise_if c e m = Inr x \<longleftrightarrow> \<not> c \<and> m = Inr x"
  by (simp add: raise_if_def)

lemma raise_if_Inl_iff [res_simps]:
  "raise_if c e m = Inl e' \<longleftrightarrow> (c \<and> e' = e) \<or> (\<not> c \<and> m = Inl e')"
  by (auto simp: raise_if_def)

lemma raise_if_simps [simp]: "raise_if True e m = Inl e" "raise_if False e m = m"
  by (simp_all add: raise_if_def)

lemma rmap_Inr_length: "rmap f xs = Inr ys \<Longrightarrow> length ys = length xs"
  by (induction xs arbitrary: ys) (auto simp: res_simps)

lemma rmap_Inr_nth: "rmap f xs = Inr ys \<Longrightarrow> i < length xs \<Longrightarrow> f (xs ! i) = Inr (ys ! i)"
  by (induction xs arbitrary: ys i) (auto simp: res_simps nth_Cons split: nat.splits)

lemma rmap_Inr_iff:
  "rmap f xs = Inr ys \<longleftrightarrow> list_all2 (\<lambda>x y. f x = Inr y) xs ys"
  by (induction xs arbitrary: ys) (auto simp: res_simps list_all2_Cons1)

lemma rmap_total: "(\<And>x. x \<in> set xs \<Longrightarrow> f x = Inr (g x)) \<Longrightarrow> rmap f xs = Inr (map g xs)"
  by (induction xs) auto

lemma rfold_append: "rfold f (xs @ ys) s = rbind (rfold f xs s) (rfold f ys)"
proof (induction xs arbitrary: s)
  case (Cons x xs)
  show ?case by (cases "f x s") (simp_all add: Cons.IH)
qed simp

lemma rfold_invariant:
  assumes "rfold f xs s = Inr t" and "P s"
    and "\<And>x s t. x \<in> set xs \<Longrightarrow> P s \<Longrightarrow> f x s = Inr t \<Longrightarrow> P t"
  shows "P t"
  using assms by (induction xs arbitrary: s) (auto simp: res_simps)

section \<open>Integer ranges and ceilings\<close>

text \<open>\<^verbatim>\<open>torch.arange(a, b)\<close>, \<^verbatim>\<open>range(a, b)\<close> and a slice \<^verbatim>\<open>a:b\<close> read as positions.\<close>

lemma upto_append: "a \<le> b \<Longrightarrow> b \<le> c \<Longrightarrow> [a..<b] @ [b..<c] = [a..<c]"
  by (metis le_iff_add upt_add_eq_append)

text \<open>The least multiple of \<open>m\<close> that is at least \<open>n\<close>, as Python writes it with \<^verbatim>\<open>//\<close>.\<close>

definition ceil_mult :: "nat \<Rightarrow> nat \<Rightarrow> nat" where
  "ceil_mult m n = (n + m - 1) div m * m"

lemma ceil_mult_dvd [simp]: "m dvd ceil_mult m n"
  by (simp add: ceil_mult_def)

lemma ceil_mult_ge: "0 < m \<Longrightarrow> n \<le> ceil_mult m n"
proof -
  assume m: "0 < m"
  have "n + m - 1 = (n + m - 1) div m * m + (n + m - 1) mod m"
    by simp
  moreover have "(n + m - 1) mod m < m" using m by simp
  ultimately show ?thesis unfolding ceil_mult_def by linarith
qed

lemma ceil_mult_less: "0 < m \<Longrightarrow> ceil_mult m n < n + m"
proof -
  assume m: "0 < m"
  have "(n + m - 1) div m * m \<le> n + m - 1" by (rule div_times_less_eq_dividend)
  then show ?thesis using m unfolding ceil_mult_def by linarith
qed

lemma ceil_mult_least: "0 < m \<Longrightarrow> m dvd k \<Longrightarrow> n \<le> k \<Longrightarrow> ceil_mult m n \<le> k"
proof -
  assume m: "0 < m" and d: "m dvd k" and n: "n \<le> k"
  then obtain q where q: "k = q * m" by (auto simp: dvd_def mult.commute)
  have "(n + m - 1) div m \<le> q"
  proof -
    have "n + m - 1 < (q + 1) * m" using n q m by (simp add: algebra_simps)
    then have "(n + m - 1) div m < q + 1" by (simp add: less_mult_imp_div_less)
    then show ?thesis by simp
  qed
  then show ?thesis using q by (simp add: ceil_mult_def)
qed

end
