(* ===== verification/Py_Float.thy ===== *)
theory Py_Float
  imports H3_Prelude
begin

text \<open>
  Python floats: IEEE binary64 with round-to-nearest-even, computed exactly over the
  rationals. A finite float is \<open>Fin x\<close> for its rational value; the two zeros are one
  value (nothing the modelled code does tells them apart). Every operation computes the
  exact result and rounds it once with \<open>fl\<close>, which is what the IEEE operations of
  Python's \<^verbatim>\<open>+ - * /\<close>, \<^verbatim>\<open>float(int)\<close> and \<^verbatim>\<open>math.sqrt\<close> are specified to do.
\<close>

section \<open>Definitions\<close>

datatype pyfloat = Fin rat | PInf | MInf | NaN

abbreviation p2 :: "int \<Rightarrow> rat" where
  "p2 e \<equiv> 2 powi e"

text \<open>The number of binary digits of a positive integer.\<close>

function blen :: "int \<Rightarrow> int" where
  "blen n = (if n \<le> 0 then 0 else blen (n div 2) + 1)"
  by pat_completeness auto
termination
  by (relation "measure nat") auto

declare blen.simps [simp del]

text \<open>The \<open>e\<close> with \<open>2 ^ e \<le> x < 2 ^ (e + 1)\<close>, for a positive \<open>x\<close>.\<close>

definition expo :: "rat \<Rightarrow> int" where
  "expo x = (if 1 \<le> x then blen \<lfloor>x\<rfloor> - 1 else - blen (\<lceil>1 / x\<rceil> - 1))"

text \<open>Rounding to the nearest integer, ties to even: the rule of Python's \<^verbatim>\<open>round\<close> too.\<close>

definition round_even :: "rat \<Rightarrow> int" where
  "round_even x =
     (let f = \<lfloor>x\<rfloor>; r = x - of_int f in
      if r < 1 / 2 then f else if 1 / 2 < r then f + 1 else if even f then f else f + 1)"

text \<open>The exponent of the last place of \<open>x\<close>: 53 significant bits, no bit below \<open>2 ^ -1074\<close>.\<close>

definition uexp :: "rat \<Rightarrow> int" where
  "uexp x = max (expo \<bar>x\<bar> - 52) (- 1074)"

definition fl_fin :: "rat \<Rightarrow> rat" where
  "fl_fin x =
     (if x = 0 then 0 else of_int (round_even (x / p2 (uexp x))) * p2 (uexp x))"

text \<open>Rounding overflows when the rounded value reaches \<open>2 ^ 1024\<close>.\<close>

definition fl :: "rat \<Rightarrow> pyfloat" where
  "fl x = (let y = fl_fin x in
     if y \<noteq> 0 \<and> 1023 < expo \<bar>y\<bar> then (if 0 < x then PInf else MInf) else Fin y)"

definition is_finite :: "pyfloat \<Rightarrow> bool" where
  "is_finite x = (case x of Fin _ \<Rightarrow> True | _ \<Rightarrow> False)"

fun fneg :: "pyfloat \<Rightarrow> pyfloat" where
  "fneg (Fin a) = Fin (- a)"
| "fneg PInf = MInf"
| "fneg MInf = PInf"
| "fneg NaN = NaN"

fun fadd :: "pyfloat \<Rightarrow> pyfloat \<Rightarrow> pyfloat" where
  "fadd (Fin a) (Fin b) = fl (a + b)"
| "fadd NaN _ = NaN"
| "fadd _ NaN = NaN"
| "fadd PInf MInf = NaN"
| "fadd MInf PInf = NaN"
| "fadd PInf _ = PInf"
| "fadd _ PInf = PInf"
| "fadd MInf _ = MInf"
| "fadd _ MInf = MInf"

definition fsub :: "pyfloat \<Rightarrow> pyfloat \<Rightarrow> pyfloat" where
  "fsub x y = fadd x (fneg y)"

text \<open>The sign of a float: 0 for zero and for NaN.\<close>

fun fsgn :: "pyfloat \<Rightarrow> int" where
  "fsgn (Fin a) = (if 0 < a then 1 else if a < 0 then - 1 else 0)"
| "fsgn PInf = 1"
| "fsgn MInf = - 1"
| "fsgn NaN = 0"

definition inf_of_sgn :: "int \<Rightarrow> pyfloat" where
  "inf_of_sgn s = (if 0 < s then PInf else if s < 0 then MInf else NaN)"

fun fmul :: "pyfloat \<Rightarrow> pyfloat \<Rightarrow> pyfloat" where
  "fmul (Fin a) (Fin b) = fl (a * b)"
| "fmul NaN _ = NaN"
| "fmul _ NaN = NaN"
| "fmul x y = inf_of_sgn (fsgn x * fsgn y)"

text \<open>\<^verbatim>\<open>x / y\<close>: division by zero raises, also where IEEE gives an infinity.\<close>

fun fdiv :: "pyfloat \<Rightarrow> pyfloat \<Rightarrow> pyfloat res" where
  "fdiv (Fin a) (Fin b) = raise_if (b = 0) ZeroDivisionError (Inr (fl (a / b)))"
| "fdiv NaN (Fin b) = raise_if (b = 0) ZeroDivisionError (Inr NaN)"
| "fdiv x (Fin b) = raise_if (b = 0) ZeroDivisionError (Inr (inf_of_sgn (fsgn x * fsgn (Fin b))))"
| "fdiv (Fin a) NaN = Inr NaN"
| "fdiv (Fin a) _ = Inr (Fin 0)"
| "fdiv _ _ = Inr NaN"

fun flt :: "pyfloat \<Rightarrow> pyfloat \<Rightarrow> bool" where
  "flt (Fin a) (Fin b) = (a < b)"
| "flt NaN _ = False"
| "flt _ NaN = False"
| "flt PInf _ = False"
| "flt _ MInf = False"
| "flt _ _ = True"

fun feq :: "pyfloat \<Rightarrow> pyfloat \<Rightarrow> bool" where
  "feq NaN _ = False"
| "feq x y = (x = y)"

definition fle :: "pyfloat \<Rightarrow> pyfloat \<Rightarrow> bool" where
  "fle x y = (flt x y \<or> feq x y)"

text \<open>\<^verbatim>\<open>float(n)\<close> of a Python integer.\<close>

definition float_of_int :: "int \<Rightarrow> pyfloat res" where
  "float_of_int n = (case fl (of_int n) of Fin y \<Rightarrow> Inr (Fin y) | _ \<Rightarrow> Inl OverflowError)"

text \<open>\<^verbatim>\<open>a / b\<close> of two Python integers: one correctly rounded division.\<close>

definition int_truediv :: "int \<Rightarrow> int \<Rightarrow> pyfloat res" where
  "int_truediv a b = raise_if (b = 0) ZeroDivisionError
     (case fl (of_int a / of_int b) of Fin y \<Rightarrow> Inr (Fin y) | _ \<Rightarrow> Inl OverflowError)"

text \<open>\<^verbatim>\<open>round(x)\<close> and \<^verbatim>\<open>int(round(x))\<close>: an integer, or the exception for a non-finite float.\<close>

fun py_round :: "pyfloat \<Rightarrow> int res" where
  "py_round (Fin a) = Inr (round_even a)"
| "py_round NaN = Inl (ValueError ''cannot convert float NaN to integer'')"
| "py_round _ = Inl OverflowError"

text \<open>The integer square root, two bits at a time, and \<^verbatim>\<open>math.sqrt\<close> correctly rounded.\<close>

function isqrt :: "int \<Rightarrow> int" where
  "isqrt n = (if n \<le> 0 then 0 else
     (let r = 2 * isqrt (n div 4) in if (r + 1) * (r + 1) \<le> n then r + 1 else r))"
  by pat_completeness auto
termination
  by (relation "measure nat") auto

declare isqrt.simps [simp del]

definition sqrt_fin :: "rat \<Rightarrow> rat" where
  "sqrt_fin x =
     (let e = expo x div 2 - 52; q = x / 4 powi e; m = isqrt \<lfloor>q\<rfloor>
      in of_int (if (of_int m + 1 / 2) * (of_int m + 1 / 2) < q then m + 1 else m) * p2 e)"

fun fsqrt :: "pyfloat \<Rightarrow> pyfloat res" where
  "fsqrt (Fin a) = raise_if (a < 0) (ValueError ''math domain error'')
     (Inr (Fin (if a = 0 then 0 else sqrt_fin a)))"
| "fsqrt PInf = Inr PInf"
| "fsqrt MInf = Inl (ValueError ''math domain error'')"
| "fsqrt NaN = Inr NaN"

section \<open>The nearest integer\<close>

lemma round_even_of_int [simp]: "round_even (of_int n) = n"
  by (simp add: round_even_def)

lemma round_even_numeral [simp]: "round_even (numeral k) = numeral k"
  using round_even_of_int[of "numeral k"] by simp

lemma round_even_0_1 [simp]: "round_even 0 = 0" "round_even 1 = 1"
  using round_even_of_int[of 0] round_even_of_int[of 1] by simp_all

lemma round_even_error: "\<bar>of_int (round_even x) - x\<bar> \<le> 1 / 2"
proof -
  define r where "r = x - of_int \<lfloor>x\<rfloor>"
  have r: "0 \<le> r" "r < 1" by (simp_all add: r_def) linarith
  have "of_int (round_even x) - x = (if r < 1 / 2 \<or> r = 1 / 2 \<and> even \<lfloor>x\<rfloor> then - r else 1 - r)"
    unfolding round_even_def Let_def r_def[symmetric] by (auto simp: r_def)
  then show ?thesis using r by (auto simp: abs_if)
qed

lemma round_even_cases: "round_even x = \<lfloor>x\<rfloor> \<or> round_even x = \<lfloor>x\<rfloor> + 1"
  by (simp add: round_even_def Let_def)

lemma round_even_mono: assumes "x \<le> y" shows "round_even x \<le> round_even y"
proof (cases "\<lfloor>x\<rfloor> = \<lfloor>y\<rfloor>")
  case True
  with assms show ?thesis by (simp add: round_even_def Let_def)
next
  case False
  with assms have "\<lfloor>x\<rfloor> + 1 \<le> \<lfloor>y\<rfloor>" using floor_mono[OF assms] by simp
  then show ?thesis using round_even_cases[of x] round_even_cases[of y] by linarith
qed

lemma round_even_minus: "round_even (- x) = - round_even x"
proof (cases "x = of_int \<lfloor>x\<rfloor>")
  case True
  then show ?thesis by (metis of_int_minus round_even_of_int)
next
  case False
  then have f: "\<lfloor>- x\<rfloor> = - \<lfloor>x\<rfloor> - 1"
    by (simp add: floor_minus ceiling_altdef)
  show ?thesis unfolding round_even_def Let_def f by auto
qed

lemma round_even_le_int: "x \<le> of_int n \<Longrightarrow> round_even x \<le> n"
  using round_even_mono[of x "of_int n"] by simp

lemma round_even_ge_int: "of_int n \<le> x \<Longrightarrow> n \<le> round_even x"
  using round_even_mono[of "of_int n" x] by simp

section \<open>The binary exponent\<close>

lemma blen_bounds:
  assumes "0 < n"
  shows "1 \<le> blen n \<and> 2 ^ nat (blen n - 1) \<le> n \<and> n < 2 ^ nat (blen n)"
  using assms
proof (induction n rule: blen.induct)
  case (1 n)
  show ?case
  proof (cases "n = 1")
    case True
    then show ?thesis by (simp add: blen.simps)
  next
    case False
    define k where "k = n div 2"
    have k: "0 < k" "2 * k \<le> n" "n < 2 * k + 2" using False "1.prems" by (auto simp: k_def)
    have IH: "1 \<le> blen k" "2 ^ nat (blen k - 1) \<le> k" "k < 2 ^ nat (blen k)"
      using "1.IH" "1.prems" k(1) by (auto simp: k_def)
    have b: "blen n = blen k + 1" using "1.prems" by (simp add: blen.simps[of n] k_def)
    have "nat (blen k) = Suc (nat (blen k - 1))" using IH(1) by simp
    then have p: "(2 :: int) ^ nat (blen k) = 2 * 2 ^ nat (blen k - 1)" by simp
    have q: "(2 :: int) ^ nat (blen k + 1) = 2 * 2 ^ nat (blen k)"
      using IH(1) by (simp add: nat_add_distrib)
    show ?thesis unfolding b using IH k p q by simp
  qed
qed

lemma blen_ge_1: "0 < n \<Longrightarrow> 1 \<le> blen n"
  using blen_bounds[of n] by simp

lemma blen_floor_bounds:
  assumes "1 \<le> (x :: rat)"
  shows "p2 (blen \<lfloor>x\<rfloor> - 1) \<le> x" and "x < p2 (blen \<lfloor>x\<rfloor>)"
proof -
  have f: "0 < \<lfloor>x\<rfloor>" using assms by simp
  then have b: "1 \<le> blen \<lfloor>x\<rfloor>" by (rule blen_ge_1)
  have lo: "2 ^ nat (blen \<lfloor>x\<rfloor> - 1) \<le> \<lfloor>x\<rfloor>" and hi: "\<lfloor>x\<rfloor> < 2 ^ nat (blen \<lfloor>x\<rfloor>)"
    using blen_bounds[OF f] by auto
  have "(2 :: rat) ^ nat (blen \<lfloor>x\<rfloor> - 1) = of_int (2 ^ nat (blen \<lfloor>x\<rfloor> - 1))" by simp
  also have "\<dots> \<le> of_int \<lfloor>x\<rfloor>" using lo by (simp only: of_int_le_iff)
  also have "\<dots> \<le> x" by simp
  finally show "p2 (blen \<lfloor>x\<rfloor> - 1) \<le> x" using b by (simp add: power_int_def)
  have "\<lfloor>x\<rfloor> + 1 \<le> 2 ^ nat (blen \<lfloor>x\<rfloor>)" using hi by simp
  then have "x < of_int (2 ^ nat (blen \<lfloor>x\<rfloor>))" by linarith
  then show "x < p2 (blen \<lfloor>x\<rfloor>)" using b by (simp add: power_int_def)
qed

lemma blen_ceiling_bounds:
  assumes "1 < (y :: rat)"
  shows "p2 (blen (\<lceil>y\<rceil> - 1) - 1) < y" and "y \<le> p2 (blen (\<lceil>y\<rceil> - 1))"
proof -
  have f: "0 < \<lceil>y\<rceil> - 1" using assms by simp
  then have b: "1 \<le> blen (\<lceil>y\<rceil> - 1)" by (rule blen_ge_1)
  have lo: "2 ^ nat (blen (\<lceil>y\<rceil> - 1) - 1) \<le> \<lceil>y\<rceil> - 1"
    and hi: "\<lceil>y\<rceil> - 1 < 2 ^ nat (blen (\<lceil>y\<rceil> - 1))"
    using blen_bounds[OF f] by auto
  have "(2 :: rat) ^ nat (blen (\<lceil>y\<rceil> - 1) - 1) = of_int (2 ^ nat (blen (\<lceil>y\<rceil> - 1) - 1))" by simp
  also have "\<dots> \<le> of_int (\<lceil>y\<rceil> - 1)" using lo by (simp only: of_int_le_iff)
  also have "\<dots> < y" by linarith
  finally show "p2 (blen (\<lceil>y\<rceil> - 1) - 1) < y" using b by (simp add: power_int_def)
  have "\<lceil>y\<rceil> \<le> 2 ^ nat (blen (\<lceil>y\<rceil> - 1))" using hi by simp
  then have "y \<le> of_int (2 ^ nat (blen (\<lceil>y\<rceil> - 1)))" by linarith
  then show "y \<le> p2 (blen (\<lceil>y\<rceil> - 1))" using b by (simp add: power_int_def)
qed

lemma expo_bounds:
  assumes "0 < x"
  shows "p2 (expo x) \<le> x" and "x < p2 (expo x + 1)"
proof -
  have "p2 (expo x) \<le> x \<and> x < p2 (expo x + 1)"
  proof (cases "1 \<le> x")
    case True
    then show ?thesis using blen_floor_bounds[OF True] by (simp add: expo_def)
  next
    case False
    then have y: "1 < 1 / x" using assms by simp
    let ?b = "blen (\<lceil>1 / x\<rceil> - 1)"
    have "p2 (?b - 1) < 1 / x" and "1 / x \<le> p2 ?b"
      using blen_ceiling_bounds[OF y] by simp_all
    then have "x < 1 / p2 (?b - 1)" and "1 / p2 ?b \<le> x"
      using assms by (simp_all add: field_simps)
    then show ?thesis using False
      by (simp add: expo_def power_int_minus divide_inverse flip: power_int_minus)
  qed
  then show "p2 (expo x) \<le> x" and "x < p2 (expo x + 1)" by simp_all
qed

lemma powi_2_pos [simp]: "0 < p2 e"
  by (rule zero_less_power_int) simp

lemma powi_2_less_iff [simp]: "p2 a < p2 b \<longleftrightarrow> a < b"
  by (meson linorder_not_less one_less_numeral_iff order_le_less power_int_increasing
      power_int_strict_increasing semiring_norm(76) order_less_imp_le order_less_asym)

lemma powi_2_le_iff [simp]: "p2 a \<le> p2 b \<longleftrightarrow> a \<le> b"
  by (meson linorder_not_less powi_2_less_iff)

lemma powi_2_add: "p2 (a + b) = p2 a * p2 b"
  by (simp add: power_int_add)

lemma powi_2_diff: "p2 (a - b) = p2 a / p2 b"
  by (simp add: power_int_diff)

lemma powi_2_int: "0 \<le> a \<Longrightarrow> p2 a = of_int (2 ^ nat a)"
  by (simp add: power_int_def)

lemma expo_unique:
  assumes "p2 e \<le> x" and "x < p2 (e + 1)"
  shows "expo x = e"
proof -
  have x: "0 < x" using assms(1) powi_2_pos[of e] by linarith
  have "p2 e < p2 (expo x + 1)" and "p2 (expo x) < p2 (e + 1)"
    using assms expo_bounds[OF x] by linarith+
  then show ?thesis by simp
qed

lemma expo_mono: assumes "0 < x" and "x \<le> y" shows "expo x \<le> expo y"
proof -
  have "p2 (expo x) < p2 (expo y + 1)"
    using expo_bounds[OF assms(1)] expo_bounds[of y] assms by linarith
  then show ?thesis by simp
qed

section \<open>Rounding to 53 bits\<close>

lemma uexp_mono: "0 < x \<Longrightarrow> x \<le> y \<Longrightarrow> uexp x \<le> uexp y"
  using expo_mono[of x y] by (simp add: uexp_def)

lemma fl_fin_0 [simp]: "fl_fin 0 = 0"
  by (simp add: fl_fin_def)

lemma fl_fin_minus: "fl_fin (- x) = - fl_fin x"
  by (simp add: fl_fin_def uexp_def round_even_minus)

lemma fl_fin_nonneg: assumes "0 \<le> x" shows "0 \<le> fl_fin x"
proof -
  have "0 \<le> round_even (x / p2 (uexp x))"
    using assms by (intro round_even_ge_int) simp
  then show ?thesis by (simp add: fl_fin_def)
qed

text \<open>
  A value whose last place is at least that of \<open>y\<close> is a bound that rounding respects.
\<close>

lemma fl_fin_le_grid:
  assumes "0 < x" and "x \<le> of_int n * p2 e" and "uexp x \<le> e"
  shows "fl_fin x \<le> of_int n * p2 e"
proof -
  let ?u = "uexp x"
  have g: "of_int n * p2 e = of_int (n * 2 ^ nat (e - ?u)) * p2 ?u"
    using assms(3) powi_2_int[of "e - ?u"] powi_2_add[of "e - ?u" ?u] by simp
  have "x / p2 ?u \<le> of_int (n * 2 ^ nat (e - ?u))"
    using assms(2) unfolding g by (simp add: field_simps)
  then have "round_even (x / p2 ?u) \<le> n * 2 ^ nat (e - ?u)" by (rule round_even_le_int)
  then show ?thesis using assms(1) unfolding g fl_fin_def
    by (simp del: of_int_mult of_int_power)
qed

lemma fl_fin_ge_grid:
  assumes "0 < x" and "of_int n * p2 e \<le> x" and "uexp x \<le> e"
  shows "of_int n * p2 e \<le> fl_fin x"
proof -
  let ?u = "uexp x"
  have g: "of_int n * p2 e = of_int (n * 2 ^ nat (e - ?u)) * p2 ?u"
    using assms(3) powi_2_int[of "e - ?u"] powi_2_add[of "e - ?u" ?u] by simp
  have "of_int (n * 2 ^ nat (e - ?u)) \<le> x / p2 ?u"
    using assms(2) unfolding g by (simp add: field_simps)
  then have "n * 2 ^ nat (e - ?u) \<le> round_even (x / p2 ?u)" by (rule round_even_ge_int)
  then show ?thesis using assms(1) unfolding g fl_fin_def
    by (simp del: of_int_mult of_int_power)
qed

lemma fl_fin_mono_pos:
  assumes "0 < x" and "x \<le> y"
  shows "fl_fin x \<le> fl_fin y"
proof (cases "uexp x = uexp y")
  case True
  have "round_even (x / p2 (uexp x)) \<le> round_even (y / p2 (uexp x))"
    using assms by (intro round_even_mono) (simp add: divide_right_mono)
  then show ?thesis using assms True by (simp add: fl_fin_def)
next
  case False
  then have u: "uexp x < uexp y" using uexp_mono[OF assms] by simp
  then have uy: "uexp y = expo y - 52" and ex: "expo x < expo y"
    using assms by (auto simp: uexp_def max_def split: if_splits)
  have y: "0 < y" using assms by simp
  have "x \<le> of_int 1 * p2 (expo y)"
    using expo_bounds(2)[OF assms(1)] powi_2_le_iff[of "expo x + 1" "expo y"] ex by linarith
  then have "fl_fin x \<le> of_int 1 * p2 (expo y)"
    using u uy by (intro fl_fin_le_grid[OF assms(1)]) auto
  also have "\<dots> \<le> fl_fin y"
    using expo_bounds(1)[OF y] uy by (intro fl_fin_ge_grid[OF y]) auto
  finally show ?thesis .
qed

lemma fl_fin_mono: assumes "x \<le> y" shows "fl_fin x \<le> fl_fin y"
proof -
  consider "0 < x" | "x \<le> 0" "0 \<le> y" | "y < 0" using assms by linarith
  then show ?thesis
  proof cases
    case 1
    then show ?thesis using assms by (rule fl_fin_mono_pos)
  next
    case 2
    then have "fl_fin x \<le> 0" using fl_fin_nonneg[of "- x"] by (simp add: fl_fin_minus)
    also have "0 \<le> fl_fin y" using 2 by (simp add: fl_fin_nonneg)
    finally show ?thesis .
  next
    case 3
    then have "fl_fin (- y) \<le> fl_fin (- x)" using assms by (intro fl_fin_mono_pos) auto
    then show ?thesis by (simp add: fl_fin_minus)
  qed
qed

text \<open>A value with at most 53 significant bits rounds to itself.\<close>

lemma expo_abs_less:
  assumes "0 < \<bar>m\<bar>" and "\<bar>m\<bar> < 2 ^ 53"
  shows "expo \<bar>of_int m * p2 e\<bar> < e + 53"
proof -
  have "(of_int \<bar>m\<bar> :: rat) < of_int (2 ^ 53)" using assms(2) by (simp only: of_int_less_iff)
  then have b: "of_int \<bar>m\<bar> < (2 ^ 53 :: rat)" by simp
  have pos: "0 < \<bar>of_int m * p2 e\<bar>" using assms(1) by (auto simp: zero_less_mult_iff)
  have "\<bar>of_int m * p2 e\<bar> = of_int \<bar>m\<bar> * p2 e" by (simp add: abs_mult)
  also have "\<dots> < 2 ^ 53 * p2 e" using b by (intro mult_strict_right_mono) auto
  also have "\<dots> = p2 (e + 53)" by (simp add: powi_2_add)
  finally have "p2 (expo \<bar>of_int m * p2 e\<bar>) < p2 (e + 53)"
    using expo_bounds(1)[OF pos] by linarith
  then show ?thesis by simp
qed

lemma fl_fin_exact:
  assumes "\<bar>m\<bar> < 2 ^ 53" and "- 1074 \<le> e"
  shows "fl_fin (of_int m * p2 e) = of_int m * p2 e"
proof (cases "m = 0")
  case False
  let ?x = "of_int m * p2 e"
  let ?u = "uexp ?x"
  have ne: "?x \<noteq> 0" using False by (simp add: power_int_not_zero)
  have u: "?u \<le> e" using expo_abs_less[of m e] False assms by (simp add: uexp_def)
  have "?x / p2 ?u = of_int m * p2 (e - ?u)" by (simp add: powi_2_diff)
  also have "\<dots> = of_int (m * 2 ^ nat (e - ?u))" using u by (simp add: power_int_def)
  finally have q: "?x / p2 ?u = of_int (m * 2 ^ nat (e - ?u))" .
  have "fl_fin ?x = of_int (round_even (?x / p2 ?u)) * p2 ?u"
    unfolding fl_fin_def using ne by (simp only: if_False)
  also have "\<dots> = (?x / p2 ?u) * p2 ?u" unfolding q round_even_of_int ..
  also have "\<dots> = ?x" by (simp add: power_int_not_zero)
  finally show ?thesis .
qed simp

lemma fl_fin_of_int: "\<bar>n\<bar> < 2 ^ 53 \<Longrightarrow> fl_fin (of_int n) = of_int n"
  using fl_fin_exact[of n 0] by simp

text \<open>In the normal range one rounding changes a value by at most \<open>2 ^ -53\<close> of itself.\<close>

definition eps :: rat where
  "eps = 1 / 2 ^ 53"

lemma fl_fin_error:
  assumes "p2 (- 1022) \<le> \<bar>x\<bar>"
  shows "\<bar>fl_fin x - x\<bar> \<le> eps * \<bar>x\<bar>"
proof -
  have x: "0 < \<bar>x\<bar>" using assms powi_2_pos[of "- 1022"] by linarith
  have "p2 (- 1022) < p2 (expo \<bar>x\<bar> + 1)" using assms expo_bounds(2)[OF x] by linarith
  then have "- 1022 < expo \<bar>x\<bar> + 1" by (simp only: powi_2_less_iff)
  then have u: "uexp x = expo \<bar>x\<bar> - 52" by (simp add: uexp_def)
  let ?p = "p2 (uexp x)"
  have "\<bar>fl_fin x - x\<bar> = \<bar>of_int (round_even (x / ?p)) - x / ?p\<bar> * ?p"
  proof -
    have "fl_fin x - x = (of_int (round_even (x / ?p)) - x / ?p) * ?p"
      using x by (simp add: fl_fin_def left_diff_distrib power_int_not_zero)
    then show ?thesis by (simp add: abs_mult)
  qed
  also have "\<dots> \<le> 1 / 2 * ?p"
    by (intro mult_right_mono round_even_error) (simp add: less_imp_le)
  also have "\<dots> = eps * p2 (expo \<bar>x\<bar>)"
    unfolding u powi_2_diff eps_def by simp
  also have "\<dots> \<le> eps * \<bar>x\<bar>"
    using expo_bounds(1)[OF x] by (intro mult_left_mono) (auto simp: eps_def)
  finally show ?thesis .
qed

lemma fl_fin_le_factor: "p2 (- 1022) \<le> x \<Longrightarrow> fl_fin x \<le> (1 + eps) * x"
  using fl_fin_error[of x] powi_2_pos[of "- 1022"] by (simp add: algebra_simps abs_le_iff)

lemma fl_fin_ge_factor: "p2 (- 1022) \<le> x \<Longrightarrow> (1 - eps) * x \<le> fl_fin x"
  using fl_fin_error[of x] powi_2_pos[of "- 1022"] by (simp add: algebra_simps abs_le_iff)

section \<open>Rounding into the float type\<close>

lemma fl_Fin: "\<bar>fl_fin x\<bar> < p2 1024 \<Longrightarrow> fl x = Fin (fl_fin x)"
proof -
  assume a: "\<bar>fl_fin x\<bar> < p2 1024"
  show ?thesis
  proof (cases "fl_fin x = 0")
    case False
    then have "p2 (expo \<bar>fl_fin x\<bar>) < p2 1024"
      using expo_bounds(1)[of "\<bar>fl_fin x\<bar>"] a by linarith
    then have "expo \<bar>fl_fin x\<bar> < 1024" by (simp only: powi_2_less_iff)
    then show ?thesis by (simp add: fl_def Let_def)
  qed (simp add: fl_def)
qed

lemma fl_eq_FinD: "fl x = Fin y \<Longrightarrow> y = fl_fin x"
  by (auto simp: fl_def Let_def split: if_splits)

lemma fl_not_NaN [simp]: "fl x \<noteq> NaN"
  by (simp add: fl_def Let_def)

lemma fl_fin_le_p2:
  assumes "0 \<le> x" and "x \<le> p2 e" and "- 1022 \<le> e"
  shows "fl_fin x \<le> p2 e"
proof -
  have "fl_fin x \<le> fl_fin (of_int 1 * p2 e)" using assms by (intro fl_fin_mono) simp
  also have "\<dots> = of_int 1 * p2 e" using assms by (intro fl_fin_exact) auto
  finally show ?thesis by simp
qed

lemma fl_finite_range:
  assumes "0 \<le> x" and "x \<le> p2 1000"
  shows "fl x = Fin (fl_fin x)"
proof (rule fl_Fin)
  have "fl_fin x \<le> p2 1000" using assms by (intro fl_fin_le_p2) auto
  also have "p2 1000 < p2 1024" by (simp only: powi_2_less_iff)
  finally show "\<bar>fl_fin x\<bar> < p2 1024" using assms(1) fl_fin_nonneg[of x] by simp
qed

lemma fl_of_int: assumes "\<bar>n\<bar> < 2 ^ 53" shows "fl (of_int n) = Fin (of_int n)"
proof -
  have "\<bar>of_int n :: rat\<bar> < of_int (2 ^ 53)" using assms by linarith
  then have "\<bar>of_int n :: rat\<bar> < p2 53" by (simp add: power_int_def)
  also have "p2 53 < p2 1024" by (simp only: powi_2_less_iff)
  finally have "\<bar>fl_fin (of_int n)\<bar> < p2 1024" using assms by (simp only: fl_fin_of_int)
  then show ?thesis using assms by (simp only: fl_Fin fl_fin_of_int)
qed

lemma float_of_int_small: "\<bar>n\<bar> < 2 ^ 53 \<Longrightarrow> float_of_int n = Inr (Fin (of_int n))"
  by (simp add: float_of_int_def fl_of_int)

text \<open>Rounding keeps a value between two small integers.\<close>

lemma fl_between:
  assumes "of_int a \<le> x" and "x \<le> of_int b" and "\<bar>a\<bar> < 2 ^ 53" and "\<bar>b\<bar> < 2 ^ 53"
  shows "fl x = Fin (fl_fin x)" and "of_int a \<le> fl_fin x" and "fl_fin x \<le> of_int b"
proof -
  show lo: "of_int a \<le> fl_fin x" using fl_fin_mono[OF assms(1)] assms(3) by (simp only: fl_fin_of_int)
  show hi: "fl_fin x \<le> of_int b" using fl_fin_mono[OF assms(2)] assms(4) by (simp only: fl_fin_of_int)
  have "\<bar>fl_fin x\<bar> < of_int (2 ^ 53)" using lo hi assms(3,4) by linarith
  then have "\<bar>fl_fin x\<bar> < p2 53" by (simp add: power_int_def)
  also have "p2 53 < p2 1024" by (simp only: powi_2_less_iff)
  finally show "fl x = Fin (fl_fin x)" by (rule fl_Fin)
qed

lemma py_round_fl_between:
  assumes "of_int a \<le> x" and "x \<le> of_int b" and "\<bar>a\<bar> < 2 ^ 53" and "\<bar>b\<bar> < 2 ^ 53"
  shows "py_round (fl x) = Inr (round_even (fl_fin x))"
    and "a \<le> round_even (fl_fin x)" and "round_even (fl_fin x) \<le> b"
  using fl_between[OF assms] by (simp_all add: round_even_le_int round_even_ge_int)

lemma fle_Fin [simp]: "fle (Fin a) (Fin b) \<longleftrightarrow> a \<le> b"
  by (auto simp: fle_def)

section \<open>Square roots\<close>

lemma isqrt_bounds:
  assumes "0 \<le> n"
  shows "0 \<le> isqrt n \<and> isqrt n * isqrt n \<le> n \<and> n < (isqrt n + 1) * (isqrt n + 1)"
  using assms
proof (induction n rule: isqrt.induct)
  case (1 n)
  show ?case
  proof (cases "n = 0")
    case True
    then show ?thesis by (simp add: isqrt.simps)
  next
    case False
    define r where "r = isqrt (n div 4)"
    have r: "0 \<le> r" "r * r \<le> n div 4" "n div 4 < (r + 1) * (r + 1)"
      using "1.IH" "1.prems" False by (simp_all add: r_def)
    have lo: "(2 * r) * (2 * r) \<le> n" using r(2) by simp
    have hi: "n < (2 * r + 2) * (2 * r + 2)" using r(3) by (simp add: algebra_simps)
    show ?thesis using False "1.prems" r(1) lo hi
      by (simp add: isqrt.simps[of n] Let_def algebra_simps flip: r_def)
  qed
qed

lemma isqrt_floor_bounds:
  assumes "0 \<le> (q :: rat)"
  defines "m \<equiv> (of_int (isqrt \<lfloor>q\<rfloor>) :: rat)"
  shows "0 \<le> m" and "m * m \<le> q" and "q < (m + 1) * (m + 1)"
proof -
  let ?n = "\<lfloor>q\<rfloor>"
  have n: "0 \<le> ?n" "of_int ?n \<le> q" "q < of_int ?n + 1" using assms(1) by simp_all linarith
  note b = isqrt_bounds[OF n(1)]
  show "0 \<le> m" using b by (simp add: m_def)
  have "m * m \<le> of_int ?n"
    using b unfolding m_def of_int_mult[symmetric] of_int_le_iff by simp
  then show "m * m \<le> q" using n by linarith
  have "?n + 1 \<le> (isqrt ?n + 1) * (isqrt ?n + 1)" using b by linarith
  then have "(of_int (?n + 1) :: rat) \<le> of_int ((isqrt ?n + 1) * (isqrt ?n + 1))"
    by (simp only: of_int_le_iff)
  then have "of_int ?n + 1 \<le> (m + 1) * (m + 1)"
    by (simp only: m_def of_int_mult of_int_add of_int_1)
  then show "q < (m + 1) * (m + 1)" using n by linarith
qed

text \<open>The mantissa \<open>sqrt_fin\<close> picks is the nearest integer to the root of \<open>q\<close>.\<close>

definition sqrt_mant :: "rat \<Rightarrow> rat" where
  "sqrt_mant q = (let m = isqrt \<lfloor>q\<rfloor>
     in of_int (if (of_int m + 1 / 2) * (of_int m + 1 / 2) < q then m + 1 else m))"

lemma sqrt_mant_bounds:
  assumes "2 ^ 104 \<le> q"
  defines "M \<equiv> sqrt_mant q"
  shows "2 ^ 52 \<le> M" and "(M - 1 / 2) * (M - 1 / 2) \<le> q" and "q \<le> (M + 1 / 2) * (M + 1 / 2)"
proof -
  define m where "m = (of_int (isqrt \<lfloor>q\<rfloor>) :: rat)"
  have q0: "0 \<le> q" using assms(1) by (rule order_trans[rotated]) simp
  have m0: "0 \<le> m" and m: "m * m \<le> q" "q < (m + 1) * (m + 1)"
    using isqrt_floor_bounds[OF q0] by (simp_all add: m_def)
  have M: "M = (if (m + 1 / 2) * (m + 1 / 2) < q then m + 1 else m)"
    by (simp add: M_def sqrt_mant_def Let_def m_def)
  have "2 ^ 52 < m + 1"
  proof (rule ccontr)
    assume "\<not> 2 ^ 52 < m + 1"
    then have "(m + 1) * (m + 1) \<le> 2 ^ 52 * 2 ^ 52" using m0 by (intro mult_mono) auto
    then show False using m(2) assms(1) by simp
  qed
  then have "of_int (2 ^ 52) < (of_int (isqrt \<lfloor>q\<rfloor> + 1) :: rat)" by (simp add: m_def)
  then have "2 ^ 52 < isqrt \<lfloor>q\<rfloor> + 1" by (simp only: of_int_less_iff)
  then have "(2 ^ 52 :: int) \<le> isqrt \<lfloor>q\<rfloor>" by simp
  then have "of_int (2 ^ 52) \<le> (of_int (isqrt \<lfloor>q\<rfloor>) :: rat)"
    by (simp only: of_int_le_iff)
  then have mlo: "2 ^ 52 \<le> m" by (simp add: m_def)
  show "2 ^ 52 \<le> M" using mlo M by auto
  have "(m - 1 / 2) * (m - 1 / 2) \<le> m * m" using mlo by (intro mult_mono) auto
  then show "(M - 1 / 2) * (M - 1 / 2) \<le> q" 
    using M m(1) by (auto simp: add.commute split: if_splits)
  have "(m + 1) * (m + 1) \<le> (m + 1 + 1 / 2) * (m + 1 + 1 / 2)" using m0 by (intro mult_mono) auto
  then show "q \<le> (M + 1 / 2) * (M + 1 / 2)" using M m(2) by (auto split: if_splits)
qed

lemma sqrt_fin_bounds:
  assumes "0 < x"
  defines "s \<equiv> sqrt_fin x"
  shows "0 < s" and "((1 - eps) * s) * ((1 - eps) * s) \<le> x"
    and "x \<le> ((1 + eps) * s) * ((1 + eps) * s)"
proof -
  define e where "e = expo x div 2 - 52"
  define q where "q = x / p2 (2 * e)"
  define M where "M = sqrt_mant q"
  have four: "(4 :: rat) powi e = p2 (2 * e)"
    by (simp add: power_int_mult)
  have s: "s = M * p2 e"
    by (simp add: s_def sqrt_fin_def sqrt_mant_def Let_def M_def q_def four flip: e_def)
  have "p2 (2 * e + 104) \<le> p2 (expo x)" unfolding e_def by simp
  then have "p2 (2 * e) * 2 ^ 104 \<le> x"
    using expo_bounds(1)[OF assms(1)] powi_2_add[of "2 * e" 104] by simp
  then have q: "2 ^ 104 \<le> q" by (simp add: q_def field_simps)
  note M = sqrt_mant_bounds[OF q, folded M_def]
  have "p2 (2 * e) = p2 e * p2 e" unfolding mult_2 by (rule powi_2_add)
  then have x: "x = q * (p2 e * p2 e)" by (simp add: q_def power_int_not_zero)
  have M0: "0 < M" using M(1) by (rule less_le_trans[rotated]) simp
  show "0 < s" using M0 by (simp add: s)
  have lo: "0 \<le> (1 - eps) * M" using M0 by (simp add: eps_def)
  have "(1 - eps) * M \<le> M - 1 / 2" using M(1) by (simp add: eps_def algebra_simps)
  then have "((1 - eps) * M) * ((1 - eps) * M) \<le> (M - 1 / 2) * (M - 1 / 2)"
    using lo by (intro mult_mono) auto
  then have "((1 - eps) * M) * ((1 - eps) * M) * (p2 e * p2 e) \<le> q * (p2 e * p2 e)"
    using M(2) by (intro mult_right_mono) auto
  then show "((1 - eps) * s) * ((1 - eps) * s) \<le> x" unfolding s x by (simp add: mult_ac)
  have "M + 1 / 2 \<le> (1 + eps) * M" using M(1) by (simp add: eps_def algebra_simps)
  then have "(M + 1 / 2) * (M + 1 / 2) \<le> ((1 + eps) * M) * ((1 + eps) * M)"
    using M0 by (intro mult_mono) auto
  then have "q * (p2 e * p2 e) \<le> ((1 + eps) * M) * ((1 + eps) * M) * (p2 e * p2 e)"
    using M(3) by (intro mult_right_mono) auto
  then show "x \<le> ((1 + eps) * s) * ((1 + eps) * s)" unfolding s x by (simp add: mult_ac)
qed

end
