(* ===== verification/Py_Value.thy ===== *)
theory Py_Value
  imports Py_Float
begin

text \<open>
  The dynamically typed values requests, plans and probe results are made of: JSON-like
  Python values, dictionaries with string keys in insertion order, and the built-in
  conversions and string operations the modelled code applies to them. Strings are
  ASCII (\<open>char list\<close>).
\<close>

section \<open>Values and dictionaries\<close>

datatype pyval =
    PNone
  | PBool bool
  | PInt int
  | PFloat pyfloat
  | PStr string
  | PList "pyval list"
  | PDict "(string \<times> pyval) list"

type_synonym pydict = "(string \<times> pyval) list"

text \<open>\<^verbatim>\<open>d.get(k)\<close>, \<^verbatim>\<open>d.get(k, v)\<close>, \<^verbatim>\<open>d[k]\<close>, \<^verbatim>\<open>k in d\<close>, \<^verbatim>\<open>d[k] = v\<close>, \<^verbatim>\<open>d.update(e)\<close>,
  \<^verbatim>\<open>d.pop(k, None)\<close>.\<close>

definition dget :: "('k \<times> pyval) list \<Rightarrow> 'k \<Rightarrow> pyval" where
  "dget d k = (case map_of d k of None \<Rightarrow> PNone | Some v \<Rightarrow> v)"

definition dget_or :: "('k \<times> 'v) list \<Rightarrow> 'k \<Rightarrow> 'v \<Rightarrow> 'v" where
  "dget_or d k v = (case map_of d k of None \<Rightarrow> v | Some w \<Rightarrow> w)"

definition dindex :: "(string \<times> 'v) list \<Rightarrow> string \<Rightarrow> 'v res" where
  "dindex d k = (case map_of d k of None \<Rightarrow> Inl (KeyError k) | Some v \<Rightarrow> Inr v)"

definition dhas :: "('k \<times> 'v) list \<Rightarrow> 'k \<Rightarrow> bool" where
  "dhas d k = (map_of d k \<noteq> None)"

definition dset :: "'k \<Rightarrow> 'v \<Rightarrow> ('k \<times> 'v) list \<Rightarrow> ('k \<times> 'v) list" where
  "dset k v d = AList.update k v d"

definition dupdate :: "('k \<times> 'v) list \<Rightarrow> ('k \<times> 'v) list \<Rightarrow> ('k \<times> 'v) list" where
  "dupdate d e = fold (\<lambda>(k, v) d. dset k v d) e d"

definition dpop :: "'k \<Rightarrow> ('k \<times> 'v) list \<Rightarrow> ('k \<times> 'v) list" where
  "dpop k d = AList.delete k d"

named_theorems dict_simps \<open>lookups after dictionary updates\<close>

lemma map_of_dset [dict_simps]: "map_of (dset k v d) = (map_of d)(k \<mapsto> v)"
  by (simp add: dset_def update_conv')

lemma map_of_dupdate [dict_simps]: "map_of (dupdate d e) = map_of d ++ map_of (rev e)"
proof (induction e arbitrary: d)
  case Nil
  then show ?case by (simp add: dupdate_def)
next
  case (Cons p e)
  obtain k v where p: "p = (k, v)" by (cases p)
  have "dupdate d (p # e) = dupdate (dset k v d) e" by (simp add: dupdate_def p)
  then have "map_of (dupdate d (p # e)) = (map_of d)(k \<mapsto> v) ++ map_of (rev e)"
    by (simp add: Cons.IH map_of_dset fun_upd_def)
  also have "\<dots> = map_of d ++ map_of (rev (p # e))" by (simp add: p)
  finally show ?case .
qed

lemma map_of_dpop [dict_simps]: "map_of (dpop k d) = (map_of d)(k := None)"
  by (simp add: dpop_def delete_conv')

section \<open>Type tests and conversions\<close>

text \<open>\<^verbatim>\<open>isinstance(v, int) and not isinstance(v, bool)\<close> and its relatives.\<close>

fun is_int :: "pyval \<Rightarrow> bool" where
  "is_int (PInt _) = True"
| "is_int _ = False"

fun is_number :: "pyval \<Rightarrow> bool" where
  "is_number (PInt _) = True"
| "is_number (PFloat _) = True"
| "is_number _ = False"

fun is_mapping :: "pyval \<Rightarrow> bool" where
  "is_mapping (PDict _) = True"
| "is_mapping _ = False"

text \<open>The exact numeric value of an \<^verbatim>\<open>int\<close>, \<^verbatim>\<open>bool\<close> or \<^verbatim>\<open>float\<close>; Python compares numbers of
  different types by it.\<close>

fun pnum :: "pyval \<Rightarrow> pyfloat option" where
  "pnum (PInt n) = Some (Fin (of_int n))"
| "pnum (PBool b) = Some (Fin (if b then 1 else 0))"
| "pnum (PFloat x) = Some x"
| "pnum _ = None"

text \<open>\<^verbatim>\<open>v == n\<close> for an integer constant \<open>n\<close>, and \<^verbatim>\<open>v == s\<close> for a string constant \<open>s\<close>.\<close>

definition eq_int :: "pyval \<Rightarrow> int \<Rightarrow> bool" where
  "eq_int v n = (case pnum v of None \<Rightarrow> False | Some x \<Rightarrow> feq x (Fin (of_int n)))"

definition eq_str :: "pyval \<Rightarrow> string \<Rightarrow> bool" where
  "eq_str v s = (v = PStr s)"

text \<open>Truth value of a value: \<^verbatim>\<open>bool(v)\<close>.\<close>

fun truthy :: "pyval \<Rightarrow> bool" where
  "truthy PNone = False"
| "truthy (PBool b) = b"
| "truthy (PInt n) = (n \<noteq> 0)"
| "truthy (PFloat x) = (x \<noteq> Fin 0)"
| "truthy (PStr s) = (s \<noteq> [])"
| "truthy (PList l) = (l \<noteq> [])"
| "truthy (PDict d) = (d \<noteq> [])"

lemma eq_int_PInt [simp]: "eq_int (PInt m) n \<longleftrightarrow> m = n"
  by (simp add: eq_int_def)

lemma eq_int_PNone [simp]: "\<not> eq_int PNone n"
  by (simp add: eq_int_def)

section \<open>Strings\<close>

definition is_digit :: "char \<Rightarrow> bool" where
  "is_digit c = (c \<in> set ''0123456789'')"

definition digit_val :: "char \<Rightarrow> int" where
  "digit_val c = of_char c - 48"

definition is_space :: "char \<Rightarrow> bool" where
  "is_space c = (of_char c \<in> ({9, 10, 11, 12, 13, 28, 29, 30, 31, 32} :: nat set))"

definition strip :: "string \<Rightarrow> string" where
  "strip s = rev (dropWhile is_space (rev (dropWhile is_space s)))"

definition lower_char :: "char \<Rightarrow> char" where
  "lower_char c =
     (let n = of_char c :: nat in if 65 \<le> n \<and> n \<le> 90 then char_of (n + 32) else c)"

definition lower :: "string \<Rightarrow> string" where
  "lower s = map lower_char s"

text \<open>\<^verbatim>\<open>s.split(c)\<close> at every occurrence of a one-character separator.\<close>

fun split_on :: "char \<Rightarrow> string \<Rightarrow> string list" where
  "split_on c [] = [[]]"
| "split_on c (x # xs) =
     (if x = c then [] # split_on c xs
      else (case split_on c xs of [] \<Rightarrow> [[x]] | w # ws \<Rightarrow> (x # w) # ws))"

text \<open>
  \<^verbatim>\<open>int(s)\<close>: surrounding white space, an optional sign, then decimal digits with single
  underscores between them.
\<close>

fun digits_body :: "string \<Rightarrow> int \<Rightarrow> int option" where
  "digits_body [] acc = Some acc"
| "digits_body (c # cs) acc =
     (if is_digit c then digits_body cs (10 * acc + digit_val c)
      else if c = CHR ''_'' then
        (case cs of d # ds \<Rightarrow> if is_digit d then digits_body ds (10 * acc + digit_val d) else None
         | [] \<Rightarrow> None)
      else None)"

definition parse_nat :: "string \<Rightarrow> int option" where
  "parse_nat s = (case s of [] \<Rightarrow> None | c # _ \<Rightarrow> if is_digit c then digits_body s 0 else None)"

definition parse_int :: "string \<Rightarrow> int option" where
  "parse_int s = (case strip s of
      [] \<Rightarrow> None
    | c # cs \<Rightarrow> if c = CHR ''-'' then map_option uminus (parse_nat cs)
        else if c = CHR ''+'' then parse_nat cs
        else parse_nat (c # cs))"

text \<open>
  \<^verbatim>\<open>float(s)\<close>: white space, a sign, then \<^verbatim>\<open>inf\<close>, \<^verbatim>\<open>infinity\<close>, \<^verbatim>\<open>nan\<close> in any case or a decimal
  numeral with an optional fraction and exponent, rounded once.
\<close>

fun take_digits :: "string \<Rightarrow> int \<Rightarrow> nat \<Rightarrow> int \<times> nat \<times> string" where
  "take_digits [] acc n = (acc, n, [])"
| "take_digits (c # cs) acc n =
     (if is_digit c then take_digits cs (10 * acc + digit_val c) (Suc n)
      else if c = CHR ''_'' \<and> 0 < n \<and> cs \<noteq> [] \<and> is_digit (hd cs) then take_digits cs acc n
      else (acc, n, c # cs))"

definition parse_exponent :: "string \<Rightarrow> int option" where
  "parse_exponent s = (case s of
      [] \<Rightarrow> Some 0
    | c # cs \<Rightarrow> if c = CHR ''e'' \<or> c = CHR ''E'' then
        (let neg = (cs \<noteq> [] \<and> hd cs = CHR ''-'');
             body = (if cs \<noteq> [] \<and> (hd cs = CHR ''-'' \<or> hd cs = CHR ''+'') then tl cs else cs)
         in case take_digits body 0 0 of (x, k, r) \<Rightarrow>
              if 0 < k \<and> r = [] then Some (if neg then - x else x) else None)
      else None)"

definition parse_decimal :: "string \<Rightarrow> rat option" where
  "parse_decimal s = (case take_digits s 0 0 of (a, n, r) \<Rightarrow>
     (case (if r \<noteq> [] \<and> hd r = CHR ''.'' then take_digits (tl r) a 0 else (a, 0, r)) of (b, m, r') \<Rightarrow>
        if n + m = 0 then None
        else map_option (\<lambda>e. of_int b * 10 powi (e - int m)) (parse_exponent r')))"

definition parse_float :: "string \<Rightarrow> pyfloat option" where
  "parse_float s0 =
     (let s = strip s0; neg = (s \<noteq> [] \<and> hd s = CHR ''-'');
          t = (if s \<noteq> [] \<and> (hd s = CHR ''-'' \<or> hd s = CHR ''+'') then tl s else s)
      in if lower t = ''inf'' \<or> lower t = ''infinity'' then Some (if neg then MInf else PInf)
         else if lower t = ''nan'' then Some NaN
         else map_option (\<lambda>x. fl (if neg then - x else x)) (parse_decimal t))"

text \<open>Decimal printing: \<^verbatim>\<open>str(n)\<close>.\<close>

function show_nat10 :: "int \<Rightarrow> string" where
  "show_nat10 n = (if n < 10 then [char_of (48 + nat n)]
     else show_nat10 (n div 10) @ [char_of (48 + nat (n mod 10))])"
  by pat_completeness auto
termination
  by (relation "measure nat") auto

declare show_nat10.simps [simp del]

definition show_int :: "int \<Rightarrow> string" where
  "show_int n = (if n < 0 then CHR ''-'' # show_nat10 (- n) else show_nat10 n)"

lemma split_on_nonempty: "split_on c s \<noteq> []"
  by (induction s) (auto split: list.splits)

lemma split_on_no_sep: "c \<notin> set s \<Longrightarrow> split_on c s = [s]"
  by (induction s) auto

lemma split_on_append: "c \<notin> set s \<Longrightarrow> split_on c (s @ c # t) = s # split_on c t"
  by (induction s) auto

lemma char_of_digit: "0 \<le> d \<Longrightarrow> d < 10 \<Longrightarrow>
    is_digit (char_of (48 + nat d)) \<and> digit_val (char_of (48 + nat d)) = d"
proof -
  assume "0 \<le> d" and "d < 10"
  then have "d = 0 \<or> d = 1 \<or> d = 2 \<or> d = 3 \<or> d = 4 \<or> d = 5 \<or> d = 6 \<or> d = 7 \<or> d = 8 \<or> d = 9"
    by presburger
  then show ?thesis by (elim disjE) (simp only:, code_simp)+
qed

section \<open>Built-in conversions\<close>

text \<open>\<^verbatim>\<open>float(v)\<close> and \<^verbatim>\<open>int(v)\<close>; \<^verbatim>\<open>int\<close> of a float truncates towards zero.\<close>

fun py_float :: "pyval \<Rightarrow> pyfloat res" where
  "py_float (PInt n) = float_of_int n"
| "py_float (PBool b) = Inr (Fin (if b then 1 else 0))"
| "py_float (PFloat x) = Inr x"
| "py_float (PStr s) = (case parse_float s of
      None \<Rightarrow> Inl (ValueError ''could not convert string to float'') | Some x \<Rightarrow> Inr x)"
| "py_float _ = Inl (TypeError ''float() argument must be a string or a real number'')"

definition rat_trunc :: "rat \<Rightarrow> int" where
  "rat_trunc a = (if 0 \<le> a then \<lfloor>a\<rfloor> else \<lceil>a\<rceil>)"

fun py_int :: "pyval \<Rightarrow> int res" where
  "py_int (PInt n) = Inr n"
| "py_int (PBool b) = Inr (if b then 1 else 0)"
| "py_int (PFloat (Fin a)) = Inr (rat_trunc a)"
| "py_int (PFloat NaN) = Inl (ValueError ''cannot convert float NaN to integer'')"
| "py_int (PFloat _) = Inl OverflowError"
| "py_int (PStr s) = (case parse_int s of
      None \<Rightarrow> Inl (ValueError ''invalid literal for int()'') | Some n \<Rightarrow> Inr n)"
| "py_int _ = Inl (TypeError ''int() argument must be a string or a real number'')"

text \<open>
  \<^verbatim>\<open>str(v)\<close>. The text of a float, a list or a dictionary is not spelled out: such a text is
  never a task, role, type or key name, which is all the modelled code compares it with.
\<close>

fun py_str :: "pyval \<Rightarrow> string" where
  "py_str PNone = ''None''"
| "py_str (PBool b) = (if b then ''True'' else ''False'')"
| "py_str (PInt n) = show_int n"
| "py_str (PStr s) = s"
| "py_str _ = ''<repr>''"

text \<open>\<^verbatim>\<open>try: ... except (TypeError, ValueError): raise ValueError(msg)\<close>, and the same with
  \<^verbatim>\<open>KeyError\<close> among the caught exceptions.\<close>

fun is_type_or_value_error :: "py_error \<Rightarrow> bool" where
  "is_type_or_value_error (TypeError _) = True"
| "is_type_or_value_error (ValueError _) = True"
| "is_type_or_value_error _ = False"

fun is_key_error :: "py_error \<Rightarrow> bool" where
  "is_key_error (KeyError _) = True"
| "is_key_error _ = False"

definition catch_tv :: "'a res \<Rightarrow> py_error \<Rightarrow> 'a res" where
  "catch_tv m e = (case m of Inl x \<Rightarrow> (if is_type_or_value_error x then Inl e else Inl x) | Inr y \<Rightarrow> Inr y)"

definition catch_ktv :: "'a res \<Rightarrow> py_error \<Rightarrow> 'a res" where
  "catch_ktv m e = (case m of
      Inl x \<Rightarrow> (if is_type_or_value_error x \<or> is_key_error x then Inl e else Inl x)
    | Inr y \<Rightarrow> Inr y)"

lemma catch_tv_Inr [res_simps]: "catch_tv m e = Inr y \<longleftrightarrow> m = Inr y"
  by (auto simp: catch_tv_def split: sum.splits)

lemma catch_ktv_Inr [res_simps]: "catch_ktv m e = Inr y \<longleftrightarrow> m = Inr y"
  by (auto simp: catch_ktv_def split: sum.splits)

lemma dindex_Inr [res_simps]: "dindex d k = Inr v \<longleftrightarrow> map_of d k = Some v"
  by (simp add: dindex_def split: option.splits)

end
