(* ===== verification/Task_Profiles.thy ===== *)
theory Task_Profiles
  imports Py_Value
begin

text \<open>
  \<^verbatim>\<open>minimax_h3/task_profiles.py\<close> and the constants of \<^verbatim>\<open>minimax_h3/constants.py\<close>: the
  table that drives request validation and plan resolution, its lookups, and the
  consistency check the module runs on it at import time.
\<close>

section \<open>Constants\<close>

definition MINIMAX_H3_SUPPORTED_FPS :: int where
  "MINIMAX_H3_SUPPORTED_FPS = 24"

definition MINIMAX_H3_MIN_DURATION_SECONDS :: pyfloat where
  "MINIMAX_H3_MIN_DURATION_SECONDS = Fin 4"

definition MINIMAX_H3_MAX_DURATION_SECONDS :: pyfloat where
  "MINIMAX_H3_MAX_DURATION_SECONDS = Fin 15"

definition MINIMAX_H3_DEFAULT_BRANCHES :: "pydict list" where
  "MINIMAX_H3_DEFAULT_BRANCHES = [[(''name'', PStr ''cond_1'')]]"

definition MINIMAX_H3_TASK_PARTITIONS :: "(string \<times> string) list" where
  "MINIMAX_H3_TASK_PARTITIONS =
     [(''t2va'', ''fl2va''), (''fl2va'', ''fl2va''), (''ref2va'', ''ref2va'')]"

definition canonical_minimax_h3_task :: "'a \<Rightarrow> 'a" where
  "canonical_minimax_h3_task task = task"

definition partition_for_task :: "pyval \<Rightarrow> string res" where
  "partition_for_task task = (case task of
      PStr s \<Rightarrow> raise_if (strip s = []) (ValueError ''MiniMax H3 task must be a non-empty string'')
        (case map_of MINIMAX_H3_TASK_PARTITIONS (lower (strip s)) of
           None \<Rightarrow> Inl (ValueError ''unsupported MiniMax H3 task'')
         | Some p \<Rightarrow> Inr p)
    | _ \<Rightarrow> Inl (ValueError ''MiniMax H3 task must be a non-empty string''))"

definition MINIMAX_H3_FINITE_ASPECT_RATIOS :: "string list" where
  "MINIMAX_H3_FINITE_ASPECT_RATIOS =
     [''21:9'', ''16:9'', ''4:3'', ''1:1'', ''3:4'', ''9:16'']"

definition MINIMAX_H3_FL2VA_KEYFRAME_SIGNATURES :: "int list list" where
  "MINIMAX_H3_FL2VA_KEYFRAME_SIGNATURES = [[0], [-1], [0, -1]]"

definition MINIMAX_H3_CANONICAL_MATERIAL_CHAINS :: "string list" where
  "MINIMAX_H3_CANONICAL_MATERIAL_CHAINS =
     [''image.target_canvas'', ''image.reference_preserve'', ''video.reference_preserve'',
      ''video_audio.reference_preserve'', ''audio'']"

section \<open>The task table\<close>

record condition_rule =
  cr_role :: string
  cr_condition_type :: string
  cr_material_chain :: string
  cr_requires_frame_index :: bool
  cr_visual_tokenizer_encode :: bool
  cr_audio_tokenizer_encode :: bool

record task_profile =
  tp_task :: string
  tp_conditions_required :: bool
  tp_condition_rules :: "condition_rule list"
  tp_branches :: "pydict list"
  tp_default_flow_shift :: pyfloat
  tp_default_audio_flow_shift :: pyfloat
  tp_required_components :: "string list"
  tp_aspect_ratio_forced_auto :: bool
  tp_geometry_source :: string
  tp_duration_from_audio_reference :: bool
  tp_video_reference_supported :: bool
  tp_min_condition_count :: "int option"
  tp_max_condition_count :: "int option"
  tp_auto_aspect_ratio :: "string option"
  tp_auto_geometry_source :: "string option"

fun rule_for_in :: "condition_rule list \<Rightarrow> string \<Rightarrow> string \<Rightarrow> condition_rule res" where
  "rule_for_in [] role condition_type = Inl (ValueError ''task does not allow condition'')"
| "rule_for_in (rule # rules) role condition_type =
     (if cr_role rule = role \<and> cr_condition_type rule = condition_type then Inr rule
      else rule_for_in rules role condition_type)"

definition rule_for :: "task_profile \<Rightarrow> string \<Rightarrow> string \<Rightarrow> condition_rule res" where
  "rule_for p role condition_type = rule_for_in (tp_condition_rules p) role condition_type"

definition BASE_COMPONENTS :: "string list" where
  "BASE_COMPONENTS =
     [''processor'', ''text_encoder'', ''tokenizer'', ''transformer'', ''video_vae'', ''audio_vae'']"

definition profile_t2va :: task_profile where
  "profile_t2va = \<lparr>
     tp_task = ''t2va'', tp_conditions_required = False, tp_condition_rules = [],
     tp_branches = MINIMAX_H3_DEFAULT_BRANCHES,
     tp_default_flow_shift = Fin 12, tp_default_audio_flow_shift = Fin 3,
     tp_required_components = BASE_COMPONENTS, tp_aspect_ratio_forced_auto = False,
     tp_geometry_source = ''explicit_target'', tp_duration_from_audio_reference = False,
     tp_video_reference_supported = True,
     tp_min_condition_count = None, tp_max_condition_count = None,
     tp_auto_aspect_ratio = Some ''16:9'', tp_auto_geometry_source = Some ''policy_default''\<rparr>"

definition keyframe_image_rule :: condition_rule where
  "keyframe_image_rule = \<lparr>
     cr_role = ''keyframe'', cr_condition_type = ''image'',
     cr_material_chain = ''image.target_canvas'', cr_requires_frame_index = True,
     cr_visual_tokenizer_encode = True, cr_audio_tokenizer_encode = False\<rparr>"

definition profile_fl2va :: task_profile where
  "profile_fl2va = \<lparr>
     tp_task = ''fl2va'', tp_conditions_required = True,
     tp_condition_rules = [keyframe_image_rule],
     tp_branches = MINIMAX_H3_DEFAULT_BRANCHES,
     tp_default_flow_shift = Fin 12, tp_default_audio_flow_shift = Fin 3,
     tp_required_components = BASE_COMPONENTS, tp_aspect_ratio_forced_auto = False,
     tp_geometry_source = ''explicit_target'', tp_duration_from_audio_reference = False,
     tp_video_reference_supported = True,
     tp_min_condition_count = Some 1, tp_max_condition_count = Some 2,
     tp_auto_aspect_ratio = None, tp_auto_geometry_source = Some ''first_keyframe''\<rparr>"

definition profile_ref2va :: task_profile where
  "profile_ref2va = \<lparr>
     tp_task = ''ref2va'', tp_conditions_required = True,
     tp_condition_rules =
       [keyframe_image_rule,
        \<lparr>cr_role = ''reference'', cr_condition_type = ''image'',
         cr_material_chain = ''image.reference_preserve'', cr_requires_frame_index = False,
         cr_visual_tokenizer_encode = True, cr_audio_tokenizer_encode = False\<rparr>,
        \<lparr>cr_role = ''reference'', cr_condition_type = ''video'',
         cr_material_chain = ''video.reference_preserve'', cr_requires_frame_index = False,
         cr_visual_tokenizer_encode = True, cr_audio_tokenizer_encode = True\<rparr>,
        \<lparr>cr_role = ''reference'', cr_condition_type = ''video_audio'',
         cr_material_chain = ''video_audio.reference_preserve'', cr_requires_frame_index = False,
         cr_visual_tokenizer_encode = True, cr_audio_tokenizer_encode = True\<rparr>,
        \<lparr>cr_role = ''reference'', cr_condition_type = ''audio'',
         cr_material_chain = ''audio'', cr_requires_frame_index = False,
         cr_visual_tokenizer_encode = False, cr_audio_tokenizer_encode = True\<rparr>],
     tp_branches = MINIMAX_H3_DEFAULT_BRANCHES,
     tp_default_flow_shift = Fin 12, tp_default_audio_flow_shift = Fin 3,
     tp_required_components = BASE_COMPONENTS, tp_aspect_ratio_forced_auto = False,
     tp_geometry_source = ''explicit_target'', tp_duration_from_audio_reference = True,
     tp_video_reference_supported = True,
     tp_min_condition_count = None, tp_max_condition_count = None,
     tp_auto_aspect_ratio = Some ''16:9'', tp_auto_geometry_source = Some ''policy_default''\<rparr>"

definition MINIMAX_H3_TASK_PROFILES :: "(string \<times> task_profile) list" where
  "MINIMAX_H3_TASK_PROFILES =
     [(''t2va'', profile_t2va), (''fl2va'', profile_fl2va), (''ref2va'', profile_ref2va)]"

definition minimax_h3_task_profile :: "string \<Rightarrow> task_profile res" where
  "minimax_h3_task_profile task =
     (case map_of MINIMAX_H3_TASK_PROFILES task of
        None \<Rightarrow> Inl (ValueError ''unknown minimax_h3 task'')
      | Some p \<Rightarrow> Inr p)"

section \<open>The import-time check\<close>

definition nonpos_opt :: "int option \<Rightarrow> bool" where
  "nonpos_opt c = (case c of None \<Rightarrow> False | Some n \<Rightarrow> n \<le> 0)"

definition validate_profile :: "string \<times> task_profile \<Rightarrow> unit res" where
  "validate_profile entry = (case entry of (task, p) \<Rightarrow>
     raise_if (tp_task p \<noteq> task) (ValueError ''profile key/task mismatch'')
     (raise_if (\<not> distinct (map (\<lambda>r. (cr_role r, cr_condition_type r)) (tp_condition_rules p)))
        (ValueError ''condition rules must be unique'')
     (raise_if (nonpos_opt (tp_min_condition_count p))
        (ValueError ''min_condition_count must be positive'')
     (raise_if (nonpos_opt (tp_max_condition_count p))
        (ValueError ''max_condition_count must be positive'')
     (raise_if (case (tp_min_condition_count p, tp_max_condition_count p) of
                  (Some a, Some b) \<Rightarrow> a > b | _ \<Rightarrow> False)
        (ValueError ''min_condition_count exceeds max_condition_count'')
     (raise_if (\<exists>r \<in> set (tp_condition_rules p).
                  cr_material_chain r \<notin> set MINIMAX_H3_CANONICAL_MATERIAL_CHAINS)
        (ValueError ''unknown material chain'')
        (Inr ())))))))"

definition validate_profiles :: "(string \<times> task_profile) list \<Rightarrow> unit res" where
  "validate_profiles ps = rfold (\<lambda>e _. validate_profile e) ps ()"

section \<open>Lemmas\<close>

lemmas profile_defs = profile_t2va_def profile_fl2va_def profile_ref2va_def keyframe_image_rule_def

lemma task_profile_cases:
  assumes "minimax_h3_task_profile t = Inr p"
  obtains "t = ''t2va''" "p = profile_t2va" | "t = ''fl2va''" "p = profile_fl2va"
    | "t = ''ref2va''" "p = profile_ref2va"
  using assms
  by (auto simp: minimax_h3_task_profile_def MINIMAX_H3_TASK_PROFILES_def split: if_splits)

lemma task_profile_eqs [simp]:
  "minimax_h3_task_profile ''t2va'' = Inr profile_t2va"
  "minimax_h3_task_profile ''fl2va'' = Inr profile_fl2va"
  "minimax_h3_task_profile ''ref2va'' = Inr profile_ref2va"
  by (simp_all add: minimax_h3_task_profile_def MINIMAX_H3_TASK_PROFILES_def)

lemma task_profile_task: "minimax_h3_task_profile t = Inr p \<Longrightarrow> tp_task p = t"
  by (erule task_profile_cases) (simp_all add: profile_defs)

text \<open>\<open>rule_for\<close> finds exactly the rules of the table, and for a table with unique keys the
  rule with the wanted key.\<close>

lemma rule_for_in_sound:
  "rule_for_in rs role ct = Inr r \<Longrightarrow> r \<in> set rs \<and> cr_role r = role \<and> cr_condition_type r = ct"
  by (induction rs) (auto split: if_splits)

lemma rule_for_in_complete:
  "distinct (map (\<lambda>r. (cr_role r, cr_condition_type r)) rs) \<Longrightarrow> r \<in> set rs \<Longrightarrow>
   rule_for_in rs (cr_role r) (cr_condition_type r) = Inr r"
  by (induction rs) (auto simp: rev_image_eqI)

lemma rule_for_in_error:
  "rule_for_in rs role ct = Inl e \<longleftrightarrow>
     (\<forall>r \<in> set rs. \<not> (cr_role r = role \<and> cr_condition_type r = ct)) \<and>
     e = ValueError ''task does not allow condition''"
  by (induction rs) auto

lemma validate_profiles_table: "validate_profiles MINIMAX_H3_TASK_PROFILES = Inr ()"
  by (simp add: validate_profiles_def MINIMAX_H3_TASK_PROFILES_def validate_profile_def
      profile_defs nonpos_opt_def MINIMAX_H3_CANONICAL_MATERIAL_CHAINS_def)

lemma rfold_unit_each:
  "rfold (\<lambda>e _. f e) ps () = Inr () \<longleftrightarrow> (\<forall>e \<in> set ps. f e = Inr ())"
proof (induction ps)
  case (Cons p ps)
  then show ?case by (cases "f p") auto
qed simp

end
