(* ===== verification/Time_Request.thy ===== *)
theory Time_Request
  imports H3_Prelude
begin

text \<open>
  \<^verbatim>\<open>minimax_h3/time_request.py\<close>: the frame-count grid \<open>17 n + 5\<close>, its video latent
  length \<open>5 n + 2\<close> and the way back. Python integers are \<open>int\<close>; \<open>div\<close> and \<open>mod\<close> round
  towards minus infinity as Python's \<^verbatim>\<open>//\<close> and \<^verbatim>\<open>%\<close> do.
\<close>

definition minimax_h3_align_frame_count :: "int \<Rightarrow> int" where
  "minimax_h3_align_frame_count frame_count =
     (if frame_count \<le> 0 then 1 else frame_count + (5 - frame_count) mod 17)"

definition minimax_h3_video_latent_t :: "int \<Rightarrow> int" where
  "minimax_h3_video_latent_t frame_count =
     (if frame_count \<le> 5 then 2 else ((frame_count - 5) div 17) * 5 + 2)"

definition minimax_h3_frame_count_from_video_latent_t :: "int \<Rightarrow> int res" where
  "minimax_h3_frame_count_from_video_latent_t out_t =
     (if out_t = 1 then Inr 1
      else raise_if (out_t < 2 \<or> (out_t - 2) mod 5 \<noteq> 0)
        (ValueError ''MiniMax H3 video latent T must be 1 or match 5n+2'')
        (Inr (17 * ((out_t - 2) div 5) + 5)))"

lemma align_frame_count_mod: "0 < n \<Longrightarrow> minimax_h3_align_frame_count n mod 17 = 5"
  by (simp add: minimax_h3_align_frame_count_def mod_add_right_eq)

lemma align_frame_count_ge: "n \<le> minimax_h3_align_frame_count n"
  by (simp add: minimax_h3_align_frame_count_def)

lemma align_frame_count_pos: "0 < minimax_h3_align_frame_count n"
  using align_frame_count_ge[of n] by (auto simp: minimax_h3_align_frame_count_def)

lemma align_frame_count_less: "0 < n \<Longrightarrow> minimax_h3_align_frame_count n < n + 17"
  by (simp add: minimax_h3_align_frame_count_def)

lemma align_frame_count_least:
  assumes "0 < n" and "n \<le> m" and "m mod 17 = 5"
  shows "minimax_h3_align_frame_count n \<le> m"
proof -
  let ?a = "minimax_h3_align_frame_count n"
  have "(?a - m) mod 17 = 0"
    using align_frame_count_mod[OF assms(1)] assms(3) by (simp add: mod_diff_eq[symmetric])
  then have "17 dvd ?a - m" by presburger
  moreover have "?a - m < 17" using align_frame_count_less[OF assms(1)] assms(2) by simp
  ultimately show ?thesis by (meson diff_gt_0_iff_gt not_less zdvd_not_zless)
qed

lemma align_frame_count_mono:
  assumes "0 < m" and "m \<le> n"
  shows "minimax_h3_align_frame_count m \<le> minimax_h3_align_frame_count n"
  using assms align_frame_count_ge[of n] align_frame_count_mod[of n]
  by (intro align_frame_count_least) auto

lemma video_latent_t_grid:
  assumes "0 \<le> k"
  shows "minimax_h3_video_latent_t (17 * k + 5) = 5 * k + 2"
  using assms by (auto simp: minimax_h3_video_latent_t_def)

lemma frame_count_from_grid:
  assumes "0 \<le> k"
  shows "minimax_h3_frame_count_from_video_latent_t (5 * k + 2) = Inr (17 * k + 5)"
  using assms by (auto simp: minimax_h3_frame_count_from_video_latent_t_def)

lemma align_frame_count_grid:
  assumes "0 < n"
  obtains k where "0 \<le> k" and "minimax_h3_align_frame_count n = 17 * k + 5"
proof -
  let ?a = "minimax_h3_align_frame_count n"
  have "?a = 17 * (?a div 17) + 5"
    using align_frame_count_mod[OF assms] by (metis mult_div_mod_eq)
  moreover have "0 \<le> ?a div 17" using align_frame_count_pos[of n] by simp
  ultimately show ?thesis using that by blast
qed

end
