(* ===== verification/Request_Validation.thy ===== *)
theory Request_Validation
  imports Task_Profiles Time_Request
begin

text \<open>
  \<^verbatim>\<open>minimax_h3/request_validation.py\<close>: the fail-fast validation of a
  \<^verbatim>\<open>minimax_h3.request/v1\<close> request into its normalized canonical dictionary. Every
  \<^verbatim>\<open>raise ValueError\<close> is a branch; the message keeps the field path. The logging call for
  an unverified short edge is left out.
\<close>

section \<open>Field readers\<close>

definition MINIMAX_H3_REQUEST_SCHEMA :: string where
  "MINIMAX_H3_REQUEST_SCHEMA = ''minimax_h3.request/v1''"

definition MINIMAX_H3_MAX_SIGNED_SEED :: int where
  "MINIMAX_H3_MAX_SIGNED_SEED = 2 ^ 63 - 1"

definition ALLOWED_CONDITION_KEYS :: "string list" where
  "ALLOWED_CONDITION_KEYS = [''type'', ''uri'', ''role'', ''frame_index'', ''start_time_seconds'']"

definition require_str :: "pyval \<Rightarrow> string \<Rightarrow> string res" where
  "require_str v path = (case v of
      PStr s \<Rightarrow> raise_if (s = []) (ValueError (path @ '' must be a non-empty string'')) (Inr s)
    | _ \<Rightarrow> Inl (ValueError (path @ '' must be a non-empty string'')))"

definition require_int :: "pyval \<Rightarrow> string \<Rightarrow> int res" where
  "require_int v path = (case v of
      PInt n \<Rightarrow> Inr n
    | _ \<Rightarrow> Inl (ValueError (path @ '' must be an integer'')))"

text \<open>\<^verbatim>\<open>float(value)\<close> of a value that is an \<^verbatim>\<open>int\<close> or a \<^verbatim>\<open>float\<close>.\<close>

fun float_of_number :: "pyval \<Rightarrow> pyfloat res" where
  "float_of_number (PInt n) = float_of_int n"
| "float_of_number (PFloat x) = Inr x"
| "float_of_number _ = Inl (TypeError ''float() argument'')"

definition optional_positive_finite_float :: "pyval \<Rightarrow> string \<Rightarrow> pyfloat option res" where
  "optional_positive_finite_float v path =
     (if v = PNone then Inr None
      else raise_if (\<not> is_number v) (ValueError (path @ '' must be a number''))
        (rbind (float_of_number v) (\<lambda>x.
         raise_if (\<not> is_finite x \<or> fle x (Fin 0))
           (ValueError (path @ '' must be a positive finite number'')) (Inr (Some x)))))"

definition optional_nonnegative_finite_float :: "pyval \<Rightarrow> string \<Rightarrow> pyfloat option res" where
  "optional_nonnegative_finite_float v path =
     (if v = PNone then Inr None
      else raise_if (\<not> is_number v) (ValueError (path @ '' must be a number''))
        (rbind (float_of_number v) (\<lambda>x.
         raise_if (\<not> is_finite x \<or> flt x (Fin 0))
           (ValueError (path @ '' must be a non-negative finite number'')) (Inr (Some x)))))"

section \<open>The target\<close>

definition validate_duration :: "pyval \<Rightarrow> pyfloat res" where
  "validate_duration duration =
     raise_if (\<not> is_number duration) (ValueError ''target.duration_seconds must be a number'')
     (raise_if (case pnum duration of None \<Rightarrow> False | Some x \<Rightarrow> fle x (Fin 0))
        (ValueError ''target.duration_seconds must be positive'')
     (rbind (float_of_number duration) (\<lambda>d.
      raise_if (\<not> (fle MINIMAX_H3_MIN_DURATION_SECONDS d \<and> fle d MINIMAX_H3_MAX_DURATION_SECONDS))
        (ValueError ''target.duration_seconds must be in [4, 15]'') (Inr d))))"

definition validate_target :: "pyval \<Rightarrow> task_profile \<Rightarrow> pydict res" where
  "validate_target target p = (case target of
      PDict t \<Rightarrow>
        rbind (require_int (dget t ''short_edge'') ''target.short_edge'') (\<lambda>short_edge.
        raise_if (short_edge \<le> 0) (ValueError ''target.short_edge must be positive'')
        (rbind (require_str (dget t ''aspect_ratio'') ''target.aspect_ratio'') (\<lambda>aspect_ratio.
        raise_if (tp_aspect_ratio_forced_auto p \<and> aspect_ratio \<noteq> ''auto'')
          (ValueError ''target.aspect_ratio must be auto'')
        (let has_duration = dget t ''duration_seconds'' \<noteq> PNone in
        raise_if ((tp_task p = ''t2va'' \<or> tp_task p = ''ref2va'') \<and> aspect_ratio \<noteq> ''auto'' \<and>
                  aspect_ratio \<notin> set MINIMAX_H3_FINITE_ASPECT_RATIOS)
          (ValueError ''target.aspect_ratio must be auto or one of the finite ratios'')
        (raise_if (\<not> has_duration \<and> \<not> tp_duration_from_audio_reference p)
          (ValueError ''target.duration_seconds is required'')
        (let out = [(''short_edge'', PInt short_edge), (''aspect_ratio'', PStr aspect_ratio)] in
         if has_duration
         then rbind (validate_duration (dget t ''duration_seconds'')) (\<lambda>d.
                Inr (out @ [(''duration_seconds'', PFloat d)]))
         else Inr out))))))
    | _ \<Rightarrow> Inl (ValueError ''target is required and must be an object''))"

section \<open>The conditions\<close>

text \<open>\<open>seen\<close> is the dictionary \<^verbatim>\<open>seen_frame_indices\<close> from resolved frame to condition index.\<close>

definition resolve_frame_index :: "int \<Rightarrow> int \<Rightarrow> string \<Rightarrow> int res" where
  "resolve_frame_index frame_index aligned cpath =
     (if frame_index = -1 then Inr (aligned - 1)
      else if 0 \<le> frame_index \<and> frame_index < aligned then Inr frame_index
      else Inl (ValueError (cpath @ ''.frame_index must be -1 or in range'')))"

definition condition_path :: "nat \<Rightarrow> string" where
  "condition_path index = ''conditions['' @ show_int (int index) @ '']''"

text \<open>The frame index a keyframe rule requires, and the updated \<open>seen\<close>; \<open>None\<close> for the rules
  that take no frame index.\<close>

definition condition_frame_index ::
  "condition_rule \<Rightarrow> int option \<Rightarrow> nat \<Rightarrow> pydict \<Rightarrow> (int \<times> nat) list \<Rightarrow> (int option \<times> (int \<times> nat) list) res" where
  "condition_frame_index rule aligned index c seen =
     (let cpath = condition_path index in
      if cr_requires_frame_index rule then
        rbind (require_int (dget c ''frame_index'') (cpath @ ''.frame_index'')) (\<lambda>frame_index.
        case aligned of
          None \<Rightarrow> Inl (ValueError (cpath @ ''.frame_index requires a resolved target duration''))
        | Some a \<Rightarrow>
            rbind (resolve_frame_index frame_index a cpath) (\<lambda>resolved.
            raise_if (dhas seen resolved) (ValueError (cpath @ ''.frame_index already bound''))
              (Inr (Some frame_index, dset resolved index seen))))
      else raise_if (dget c ''frame_index'' \<noteq> PNone)
             (ValueError (cpath @ ''.frame_index is not allowed for role'')) (Inr (None, seen)))"

definition condition_start_time :: "nat \<Rightarrow> pydict \<Rightarrow> string \<Rightarrow> pyfloat option res" where
  "condition_start_time index c cond_type =
     (let cpath = condition_path index in
      rbind (optional_nonnegative_finite_float (dget c ''start_time_seconds'')
               (cpath @ ''.start_time_seconds'')) (\<lambda>start.
      raise_if (start \<noteq> None \<and> cond_type \<noteq> ''video'' \<and> cond_type \<noteq> ''video_audio'')
        (ValueError (cpath @ ''.start_time_seconds is only allowed for video'')) (Inr start)))"

definition opt_entry :: "string \<Rightarrow> pyval option \<Rightarrow> pydict" where
  "opt_entry k v = (case v of None \<Rightarrow> [] | Some x \<Rightarrow> [(k, x)])"

definition condition_entry :: "string \<Rightarrow> string \<Rightarrow> string \<Rightarrow> int option \<Rightarrow> pyfloat option \<Rightarrow> pydict" where
  "condition_entry cond_type uri role frame start =
     [(''type'', PStr cond_type), (''uri'', PStr uri), (''role'', PStr role)]
     @ opt_entry ''frame_index'' (map_option PInt frame)
     @ opt_entry ''start_time_seconds'' (map_option PFloat start)"

definition condition_rule_for :: "task_profile \<Rightarrow> nat \<Rightarrow> string \<Rightarrow> string \<Rightarrow> condition_rule res" where
  "condition_rule_for p index role cond_type = (case rule_for p role cond_type of
      Inl _ \<Rightarrow> Inl (ValueError (condition_path index @ '': task does not allow condition''))
    | Inr rule \<Rightarrow> Inr rule)"

definition validate_condition ::
  "task_profile \<Rightarrow> int option \<Rightarrow> nat \<Rightarrow> pyval \<Rightarrow> (int \<times> nat) list \<Rightarrow> (pydict \<times> (int \<times> nat) list) res" where
  "validate_condition p aligned index cond seen =
     (let cpath = condition_path index in
      case cond of
        PDict c \<Rightarrow>
          raise_if (\<exists>k \<in> set (map fst c). k \<notin> set ALLOWED_CONDITION_KEYS)
            (ValueError (cpath @ '' has unknown fields''))
          (rbind (require_str (dget c ''role'') (cpath @ ''.role'')) (\<lambda>role.
          raise_if (role \<noteq> ''keyframe'' \<and> role \<noteq> ''reference'')
            (ValueError (cpath @ ''.role must be keyframe or reference''))
          (rbind (require_str (dget c ''type'') (cpath @ ''.type'')) (\<lambda>cond_type.
          rbind (condition_rule_for p index role cond_type) (\<lambda>rule.
          rbind (require_str (dget c ''uri'') (cpath @ ''.uri'')) (\<lambda>uri.
          rbind (condition_frame_index rule aligned index c seen) (\<lambda>(frame, seen').
          rbind (condition_start_time index c cond_type) (\<lambda>start.
          Inr (condition_entry cond_type uri role frame start, seen')))))))))
      | _ \<Rightarrow> Inl (ValueError (cpath @ '' must be an object'')))"

text \<open>The \<^verbatim>\<open>for index, cond in enumerate(conditions)\<close> loop.\<close>

definition validate_conditions_step ::
  "task_profile \<Rightarrow> int option \<Rightarrow> nat \<times> pyval \<Rightarrow> pydict list \<times> (int \<times> nat) list
   \<Rightarrow> (pydict list \<times> (int \<times> nat) list) res" where
  "validate_conditions_step p aligned ic st = (case ic of (index, cond) \<Rightarrow> case st of (normalized, seen) \<Rightarrow>
     rbind (validate_condition p aligned index cond seen) (\<lambda>(entry, seen').
     Inr (normalized @ [entry], seen')))"

definition validate_conditions ::
  "pyval \<Rightarrow> task_profile \<Rightarrow> int option \<Rightarrow> pydict list res" where
  "validate_conditions conditions p frame_count =
     rbind (case conditions of PNone \<Rightarrow> Inr [] | PList l \<Rightarrow> Inr l
            | _ \<Rightarrow> Inl (ValueError ''conditions must be a list'')) (\<lambda>conds.
     if \<not> tp_conditions_required p
     then raise_if (0 < length conds) (ValueError ''conditions must be empty for task'') (Inr [])
     else raise_if (length conds = 0) (ValueError ''conditions requires at least one entry'')
       (raise_if (case tp_min_condition_count p of None \<Rightarrow> False | Some n \<Rightarrow> int (length conds) < n)
          (ValueError ''conditions requires at least min entries'')
       (raise_if (case tp_max_condition_count p of None \<Rightarrow> False | Some n \<Rightarrow> int (length conds) > n)
          (ValueError ''conditions allows at most max entries'')
       (let aligned = map_option minimax_h3_align_frame_count frame_count in
        rbind (rfold (validate_conditions_step p aligned) (enumerate 0 conds) ([], [])) (\<lambda>(normalized, seen).
        Inr normalized)))))"

text \<open>Python compares the tuple of \<^verbatim>\<open>condition.get("frame_index")\<close> values with each signature.\<close>

definition matches_signature :: "pyval list \<Rightarrow> bool" where
  "matches_signature vs =
     (\<exists>sig \<in> set MINIMAX_H3_FL2VA_KEYFRAME_SIGNATURES. list_all2 eq_int vs sig)"

definition validate_keyframe_conditions :: "pydict list \<Rightarrow> string \<Rightarrow> unit res" where
  "validate_keyframe_conditions conditions task =
     (let keyframes = filter (\<lambda>c. eq_str (dget c ''role'') ''keyframe'') conditions in
      raise_if (\<not> matches_signature (map (\<lambda>c. dget c ''frame_index'') keyframes))
        (ValueError ''conditions must include one or two ordered image/keyframe entries'')
      (raise_if (task = ''ref2va'' \<and> \<not> (\<exists>c \<in> set conditions. eq_str (dget c ''role'') ''reference''))
        (ValueError ''ref2va keyframes require at least one reference condition'')
        (Inr ())))"

section \<open>The canonical request\<close>

definition validate_seed :: "pyval \<Rightarrow> int option res" where
  "validate_seed seed =
     (if seed = PNone then Inr None
      else rbind (require_int seed ''seed'') (\<lambda>n.
        raise_if (n < 0) (ValueError ''seed must be non-negative'')
        (raise_if (n > MINIMAX_H3_MAX_SIGNED_SEED)
           (ValueError ''seed must not exceed the signed int64 maximum'') (Inr (Some n)))))"

definition requested_frame_count :: "pydict \<Rightarrow> int option res" where
  "requested_frame_count target = (case dget target ''duration_seconds'' of
      PFloat d \<Rightarrow> rbind (py_round (fmul d (Fin (of_int MINIMAX_H3_SUPPORTED_FPS)))) (\<lambda>n. Inr (Some n))
    | _ \<Rightarrow> Inr None)"

definition is_duration_source :: "pydict \<Rightarrow> bool" where
  "is_duration_source c = (eq_str (dget c ''type'') ''audio'' \<or> eq_str (dget c ''type'') ''video''
     \<or> eq_str (dget c ''type'') ''video_audio'')"

definition check_duration_sources :: "pydict \<Rightarrow> pydict list \<Rightarrow> unit res" where
  "check_duration_sources target conds =
     (if dget target ''duration_seconds'' = PNone then
        (let sources = filter is_duration_source conds in
         raise_if (sources = []) (ValueError ''target.duration_seconds is required, or exactly one audio reference'')
         (raise_if (1 < length sources)
            (ValueError ''target.duration_seconds is required when multiple audio-bearing references are provided'')
            (Inr ())))
      else Inr ())"

definition check_video_supported :: "task_profile \<Rightarrow> pydict list \<Rightarrow> unit res" where
  "check_video_supported p conds =
     raise_if (\<not> tp_video_reference_supported p \<and>
        (\<exists>c \<in> set conds. eq_str (dget c ''type'') ''video'' \<or> eq_str (dget c ''type'') ''video_audio''))
       (ValueError ''video references are not supported in v1'') (Inr ())"

definition canonical_dict ::
  "string \<Rightarrow> string \<Rightarrow> pydict list \<Rightarrow> pydict \<Rightarrow> pyfloat option \<Rightarrow> pyfloat option \<Rightarrow> int option \<Rightarrow> pydict" where
  "canonical_dict task_name prompt_text conds target fs afs sd =
     [(''schema'', PStr MINIMAX_H3_REQUEST_SCHEMA), (''task'', PStr task_name),
      (''prompt'', PStr prompt_text), (''conditions'', PList (map PDict conds)),
      (''target'', PDict target)]
     @ opt_entry ''flow_shift'' (map_option PFloat fs)
     @ opt_entry ''audio_flow_shift'' (map_option PFloat afs)
     @ opt_entry ''seed'' (map_option PInt sd)"

definition minimax_h3_validate_canonical_request ::
  "pyval \<Rightarrow> pyval \<Rightarrow> pyval \<Rightarrow> pyval \<Rightarrow> pyval \<Rightarrow> pyval \<Rightarrow> pyval \<Rightarrow> pydict res" where
  "minimax_h3_validate_canonical_request task prompt conditions target flow_shift audio_flow_shift seed =
     rbind (require_str task ''task'') (\<lambda>task0.
     let task_name = canonical_minimax_h3_task task0 in
     rbind (minimax_h3_task_profile task_name) (\<lambda>p.
     rbind (require_str prompt ''prompt'') (\<lambda>prompt_text.
     rbind (validate_target target p) (\<lambda>normalized_target.
     rbind (requested_frame_count normalized_target) (\<lambda>frame_count.
     rbind (validate_conditions conditions p frame_count) (\<lambda>conds.
     rbind (if tp_task p = ''fl2va'' \<or>
               (tp_task p = ''ref2va'' \<and> (\<exists>c \<in> set conds. eq_str (dget c ''role'') ''keyframe''))
            then validate_keyframe_conditions conds (tp_task p) else Inr ()) (\<lambda>_.
     rbind (check_video_supported p conds) (\<lambda>_.
     rbind (check_duration_sources normalized_target conds) (\<lambda>_.
     rbind (optional_positive_finite_float flow_shift ''flow_shift'') (\<lambda>fs.
     rbind (optional_positive_finite_float audio_flow_shift ''audio_flow_shift'') (\<lambda>afs.
     rbind (validate_seed seed) (\<lambda>sd.
     Inr (canonical_dict task_name prompt_text conds normalized_target fs afs sd)))))))))))))"

section \<open>Lemmas\<close>

lemma require_str_Inr [res_simps]: "require_str v path = Inr s \<longleftrightarrow> v = PStr s \<and> s \<noteq> []"
  by (cases v) (auto simp: require_str_def res_simps)

lemma require_int_Inr [res_simps]: "require_int v path = Inr n \<longleftrightarrow> v = PInt n"
  by (cases v) (auto simp: require_int_def)

lemma condition_rule_for_Inr [res_simps]:
  "condition_rule_for p i role ct = Inr rule \<longleftrightarrow> rule_for p role ct = Inr rule"
  by (simp add: condition_rule_for_def split: sum.splits)

text \<open>The readers of optional numbers accept their own output.\<close>

lemma optional_nonnegative_PFloat:
  "optional_nonnegative_finite_float v path = Inr (Some x) \<Longrightarrow>
     optional_nonnegative_finite_float (PFloat x) path' = Inr (Some x)"
  by (auto simp: optional_nonnegative_finite_float_def res_simps split: if_splits)

lemma optional_nonnegative_None:
  "optional_nonnegative_finite_float v path = Inr None \<longleftrightarrow> v = PNone"
  by (auto simp: optional_nonnegative_finite_float_def res_simps split: if_splits)

lemma optional_positive_PFloat:
  "optional_positive_finite_float v path = Inr (Some x) \<Longrightarrow>
     optional_positive_finite_float (PFloat x) path' = Inr (Some x)"
  by (auto simp: optional_positive_finite_float_def res_simps split: if_splits)

lemma optional_positive_None:
  "optional_positive_finite_float v path = Inr None \<longleftrightarrow> v = PNone"
  by (auto simp: optional_positive_finite_float_def res_simps split: if_splits)

text \<open>Reading back the fields of a normalized condition.\<close>

lemma dget_Cons: "dget ((k', v) # d) k = (if k = k' then v else dget d k)"
  by (simp add: dget_def)

lemma dget_Nil [simp]: "dget [] k = PNone"
  by (simp add: dget_def)

lemma dget_append: "dget (d @ e) k = (if dhas d k then dget d k else dget e k)"
  by (simp add: dget_def dhas_def map_add_def split: option.splits)

lemma opt_entry_simps [simp]:
  "opt_entry k None = []" "opt_entry k (Some v) = [(k, v)]"
  by (simp_all add: opt_entry_def)

lemma dget_opt_entry [simp]:
  "dget (opt_entry k v) k' = (if k = k' then (case v of None \<Rightarrow> PNone | Some x \<Rightarrow> x) else PNone)"
  by (cases v) (auto simp: dget_Cons)

lemma condition_entry_fields [simp]:
  "dget (condition_entry ct uri role frame start) ''type'' = PStr ct"
  "dget (condition_entry ct uri role frame start) ''uri'' = PStr uri"
  "dget (condition_entry ct uri role frame start) ''role'' = PStr role"
  "dget (condition_entry ct uri role frame start) ''frame_index'' =
     (case frame of None \<Rightarrow> PNone | Some n \<Rightarrow> PInt n)"
  "dget (condition_entry ct uri role frame start) ''start_time_seconds'' =
     (case start of None \<Rightarrow> PNone | Some x \<Rightarrow> PFloat x)"
  by (cases frame; cases start; simp add: condition_entry_def dget_Cons)+

lemma condition_entry_keys: "set (map fst (condition_entry ct uri role frame start)) \<subseteq> set ALLOWED_CONDITION_KEYS"
  by (cases frame; cases start; simp add: condition_entry_def ALLOWED_CONDITION_KEYS_def)

lemma resolve_frame_index_path:
  "resolve_frame_index fi a cp = Inr r \<Longrightarrow> resolve_frame_index fi a cp' = Inr r"
  by (auto simp: resolve_frame_index_def split: if_splits)

lemma resolve_frame_index_range:
  "resolve_frame_index fi a cp = Inr r \<Longrightarrow> 0 < a \<Longrightarrow> 0 \<le> r \<and> r < a"
  by (auto simp: resolve_frame_index_def split: if_splits)

lemma condition_frame_index_cases:
  "condition_frame_index rule aligned i c seen = Inr (frame, seen') \<longleftrightarrow>
    (if cr_requires_frame_index rule
     then (\<exists>fi a r. dget c ''frame_index'' = PInt fi \<and> frame = Some fi \<and> aligned = Some a \<and>
             resolve_frame_index fi a (condition_path i) = Inr r \<and> \<not> dhas seen r \<and> seen' = dset r i seen)
     else dget c ''frame_index'' = PNone \<and> frame = None \<and> seen' = seen)"
  by (auto simp: condition_frame_index_def res_simps Let_def split: option.splits)

lemma condition_frame_index_entry:
  "condition_frame_index rule aligned i c seen = Inr (frame, seen') \<Longrightarrow>
   condition_frame_index rule aligned i (condition_entry ct uri role frame start) seen = Inr (frame, seen')"
  by (auto simp: condition_frame_index_cases split: if_splits)

lemma condition_start_time_entry:
  "condition_start_time i c ct = Inr start \<Longrightarrow>
   condition_start_time i (condition_entry ct uri role frame start) ct = Inr start"
  by (cases start) (auto simp: condition_start_time_def res_simps Let_def optional_nonnegative_None
      intro: optional_nonnegative_PFloat)

lemma validate_condition_Inr:
  "validate_condition p aligned i cond seen = Inr (entry, seen') \<longleftrightarrow>
    (\<exists>c role ct uri rule frame start. cond = PDict c \<and> set (map fst c) \<subseteq> set ALLOWED_CONDITION_KEYS \<and>
       dget c ''role'' = PStr role \<and> dget c ''type'' = PStr ct \<and> dget c ''uri'' = PStr uri \<and>
       role \<noteq> [] \<and> ct \<noteq> [] \<and> uri \<noteq> [] \<and> (role = ''keyframe'' \<or> role = ''reference'') \<and>
       rule_for p role ct = Inr rule \<and>
       condition_frame_index rule aligned i c seen = Inr (frame, seen') \<and>
       condition_start_time i c ct = Inr start \<and>
       entry = condition_entry ct uri role frame start)"
  by (cases cond) (auto simp: validate_condition_def Let_def res_simps)

lemma validate_condition_idem:
  assumes "validate_condition p aligned i cond seen = Inr (entry, seen')"
  shows "validate_condition p aligned i (PDict entry) seen = Inr (entry, seen')"
proof -
  obtain c role ct uri rule frame start where *:
    "role \<noteq> []" "ct \<noteq> []" "uri \<noteq> []" "role = ''keyframe'' \<or> role = ''reference''"
    "rule_for p role ct = Inr rule" "condition_frame_index rule aligned i c seen = Inr (frame, seen')"
    "condition_start_time i c ct = Inr start" "entry = condition_entry ct uri role frame start"
    using assms unfolding validate_condition_Inr by blast
  show ?thesis unfolding validate_condition_Inr
    by (rule exI[of _ entry], rule exI[of _ role], rule exI[of _ ct], rule exI[of _ uri],
        rule exI[of _ rule], rule exI[of _ frame], rule exI[of _ start])
      (use * condition_entry_keys in \<open>auto intro: condition_frame_index_entry condition_start_time_entry\<close>)
qed

lemma validate_conditions_step_pair:
  "validate_conditions_step p aligned (i, c) (acc, seen) =
     rbind (validate_condition p aligned i c seen) (\<lambda>(entry, seen'). Inr (acc @ [entry], seen'))"
  by (simp add: validate_conditions_step_def)

text \<open>The loop over the conditions: one normalized entry per condition, in order.\<close>

lemma validate_loop_map:
  assumes "rfold (validate_conditions_step p aligned) (enumerate n conds) (acc, seen) = Inr (nrm, seen')"
  obtains es where "nrm = acc @ es" "length es = length conds"
    "rfold (validate_conditions_step p aligned) (enumerate n (map PDict es)) (acc, seen) = Inr (nrm, seen')"
    "\<And>j. j < length conds \<Longrightarrow>
       \<exists>s s'. validate_condition p aligned (n + j) (conds ! j) s = Inr (es ! j, s')"
  using assms
proof (induction conds arbitrary: n acc seen thesis)
  case Nil
  then show ?case by (auto simp: res_simps)
next
  case (Cons c cs)
  from Cons.prems(2) obtain e s1 where e: "validate_condition p aligned n c seen = Inr (e, s1)"
    and rest: "rfold (validate_conditions_step p aligned) (enumerate (Suc n) cs) (acc @ [e], s1) = Inr (nrm, seen')"
    by (auto simp: validate_conditions_step_pair res_simps)
  obtain es where es: "nrm = (acc @ [e]) @ es" "length es = length cs"
    "rfold (validate_conditions_step p aligned) (enumerate (Suc n) (map PDict es)) (acc @ [e], s1) = Inr (nrm, seen')"
    "\<And>j. j < length cs \<Longrightarrow> \<exists>s s'. validate_condition p aligned (Suc n + j) (cs ! j) s = Inr (es ! j, s')"
    using Cons.IH[OF _ rest] by metis
  show ?case
  proof (rule Cons.prems(1)[of "e # es"])
    show "rfold (validate_conditions_step p aligned) (enumerate n (map PDict (e # es))) (acc, seen) = Inr (nrm, seen')"
      using validate_condition_idem[OF e] es(3) by (simp add: validate_conditions_step_pair)
    show "\<exists>s s'. validate_condition p aligned (n + j) ((c # cs) ! j) s = Inr ((e # es) ! j, s')"
      if "j < length (c # cs)" for j
      using e es(4)[of "j - 1"] that by (cases j) auto
  qed (use es in auto)
qed

lemma validate_conditions_idem:
  assumes "validate_conditions conditions p fc = Inr conds"
  shows "validate_conditions (PList (map PDict conds)) p fc = Inr conds"
proof (cases "tp_conditions_required p")
  case False
  with assms show ?thesis by (auto simp: validate_conditions_def res_simps split: pyval.splits)
next
  case True
  let ?al = "map_option minimax_h3_align_frame_count fc"
  from assms True obtain cs seen where
    f: "rfold (validate_conditions_step p ?al) (enumerate 0 cs) ([], []) = Inr (conds, seen)"
    and l: "cs \<noteq> []" "\<not> (case tp_min_condition_count p of None \<Rightarrow> False | Some n \<Rightarrow> int (length cs) < n)"
      "\<not> (case tp_max_condition_count p of None \<Rightarrow> False | Some n \<Rightarrow> int (length cs) > n)"
    by (auto simp: validate_conditions_def res_simps Let_def)
  obtain es where "conds = es" "length es = length cs"
    "rfold (validate_conditions_step p ?al) (enumerate 0 (map PDict es)) ([], []) = Inr (conds, seen)"
    using validate_loop_map[OF f] by (metis append_Nil)
  then show ?thesis using True l
    by (auto simp: validate_conditions_def Let_def res_simps split: option.splits)
qed

lemma validate_conditions_entries:
  assumes "validate_conditions conditions p fc = Inr conds" and "tp_conditions_required p"
  obtains cs where "conditions = PList cs" "length conds = length cs" "cs \<noteq> []"
    "\<And>j. j < length cs \<Longrightarrow>
       \<exists>s s'. validate_condition p (map_option minimax_h3_align_frame_count fc) j (cs ! j) s = Inr (conds ! j, s')"
proof -
  let ?al = "map_option minimax_h3_align_frame_count fc"
  from assms obtain cs seen where c: "conditions = PList cs" "cs \<noteq> []" and
    f: "rfold (validate_conditions_step p ?al) (enumerate 0 cs) ([], []) = Inr (conds, seen)"
    by (auto simp: validate_conditions_def res_simps Let_def split: pyval.splits)
  obtain es where "conds = es" "length es = length cs"
    "\<And>j. j < length cs \<Longrightarrow> \<exists>s s'. validate_condition p ?al (0 + j) (cs ! j) s = Inr (es ! j, s')"
    using validate_loop_map[OF f] by (metis append_Nil)
  then show ?thesis using that c by simp
qed

lemma validate_duration_range:
  assumes "validate_duration v = Inr d"
  obtains x where "d = Fin x" "4 \<le> x" "x \<le> 15"
proof -
  from assms have "fle (Fin 4) d" "fle d (Fin 15)"
    by (auto simp: validate_duration_def res_simps MINIMAX_H3_MIN_DURATION_SECONDS_def
        MINIMAX_H3_MAX_DURATION_SECONDS_def)
  then show ?thesis using that by (cases d) (auto simp: fle_def)
qed

lemma validate_duration_PFloat:
  assumes "validate_duration v = Inr d"
  shows "validate_duration (PFloat d) = Inr d"
proof -
  obtain x where "d = Fin x" "4 \<le> x" "x \<le> 15" using validate_duration_range[OF assms] .
  then show ?thesis
    by (simp add: validate_duration_def MINIMAX_H3_MIN_DURATION_SECONDS_def
        MINIMAX_H3_MAX_DURATION_SECONDS_def)
qed

text \<open>The shape of an accepted target.\<close>

definition target_entry :: "int \<Rightarrow> string \<Rightarrow> pyfloat option \<Rightarrow> pydict" where
  "target_entry short_edge aspect_ratio duration =
     [(''short_edge'', PInt short_edge), (''aspect_ratio'', PStr aspect_ratio)]
     @ opt_entry ''duration_seconds'' (map_option PFloat duration)"

lemma target_entry_fields [simp]:
  "dget (target_entry se ar du) ''short_edge'' = PInt se"
  "dget (target_entry se ar du) ''aspect_ratio'' = PStr ar"
  "dget (target_entry se ar du) ''duration_seconds'' = (case du of None \<Rightarrow> PNone | Some d \<Rightarrow> PFloat d)"
  by (cases du; simp add: target_entry_def dget_Cons)+

definition target_ok :: "task_profile \<Rightarrow> int \<Rightarrow> string \<Rightarrow> pyfloat option \<Rightarrow> bool" where
  "target_ok p se ar du \<longleftrightarrow> 0 < se \<and> ar \<noteq> [] \<and> (tp_aspect_ratio_forced_auto p \<longrightarrow> ar = ''auto'') \<and>
     ((tp_task p = ''t2va'' \<or> tp_task p = ''ref2va'') \<longrightarrow> ar = ''auto'' \<or> ar \<in> set MINIMAX_H3_FINITE_ASPECT_RATIOS) \<and>
     (case du of None \<Rightarrow> tp_duration_from_audio_reference p
      | Some d \<Rightarrow> validate_duration (PFloat d) = Inr d)"

lemma validate_target_Inr:
  assumes "validate_target target p = Inr t"
  obtains se ar du where "t = target_entry se ar du" "target_ok p se ar du"
proof -
  obtain d where d: "target = PDict d"
    using assms by (cases target) (auto simp: validate_target_def)
  show ?thesis
  proof (cases "dget d ''duration_seconds'' = PNone")
    case True
    with assms d obtain se ar where "t = target_entry se ar None" "target_ok p se ar None"
      by (auto simp: validate_target_def res_simps Let_def target_entry_def target_ok_def)
    then show ?thesis by (rule that)
  next
    case False
    with assms d obtain se ar du where "t = target_entry se ar (Some du)" "target_ok p se ar (Some du)"
      by (auto simp: validate_target_def res_simps Let_def target_entry_def target_ok_def
          dest: validate_duration_PFloat)
    then show ?thesis by (rule that)
  qed
qed

lemma validate_target_entry:
  "target_ok p se ar du \<Longrightarrow> validate_target (PDict (target_entry se ar du)) p = Inr (target_entry se ar du)"
  by (cases du)
    (auto simp: validate_target_def target_ok_def require_int_def require_str_def Let_def,
     simp_all add: target_entry_def)

lemma validate_target_idem:
  assumes "validate_target target p = Inr t"
  shows "validate_target (PDict t) p = Inr t"
  using assms by (auto elim!: validate_target_Inr intro: validate_target_entry)

lemma validate_seed_idem: "validate_seed v = Inr (Some n) \<Longrightarrow> validate_seed (PInt n) = Inr (Some n)"
  by (auto simp: validate_seed_def res_simps require_int_def split: if_splits)

lemma validate_seed_None: "validate_seed v = Inr None \<longleftrightarrow> v = PNone"
  by (auto simp: validate_seed_def res_simps)

lemma validate_seed_Some:
  "validate_seed v = Inr (Some n) \<longleftrightarrow> v = PInt n \<and> 0 \<le> n \<and> n < 2 ^ 63"
  by (auto simp: validate_seed_def res_simps MINIMAX_H3_MAX_SIGNED_SEED_def)

text \<open>The fields of the canonical dictionary.\<close>

lemma canonical_dict_fields [simp]:
  "dget (canonical_dict t pr cs tg fs afs sd) ''task'' = PStr t"
  "dget (canonical_dict t pr cs tg fs afs sd) ''prompt'' = PStr pr"
  "dget (canonical_dict t pr cs tg fs afs sd) ''conditions'' = PList (map PDict cs)"
  "dget (canonical_dict t pr cs tg fs afs sd) ''target'' = PDict tg"
  "dget (canonical_dict t pr cs tg fs afs sd) ''flow_shift'' = (case fs of None \<Rightarrow> PNone | Some x \<Rightarrow> PFloat x)"
  "dget (canonical_dict t pr cs tg fs afs sd) ''audio_flow_shift'' = (case afs of None \<Rightarrow> PNone | Some x \<Rightarrow> PFloat x)"
  "dget (canonical_dict t pr cs tg fs afs sd) ''seed'' = (case sd of None \<Rightarrow> PNone | Some n \<Rightarrow> PInt n)"
  by (cases fs; cases afs; cases sd; simp add: canonical_dict_def dget_Cons)+

text \<open>Everything an accepted request satisfies.\<close>

definition request_ok ::
  "string \<Rightarrow> task_profile \<Rightarrow> string \<Rightarrow> pydict list \<Rightarrow> pydict \<Rightarrow> int option \<Rightarrow> pyfloat option \<Rightarrow> pyfloat option \<Rightarrow> int option \<Rightarrow> bool" where
  "request_ok t p pr cs tg fc fs afs sd \<longleftrightarrow>
     t \<noteq> [] \<and> pr \<noteq> [] \<and> minimax_h3_task_profile t = Inr p \<and> validate_target (PDict tg) p = Inr tg \<and>
     requested_frame_count tg = Inr fc \<and> validate_conditions (PList (map PDict cs)) p fc = Inr cs \<and>
     (if tp_task p = ''fl2va'' \<or> (tp_task p = ''ref2va'' \<and> (\<exists>c \<in> set cs. eq_str (dget c ''role'') ''keyframe''))
      then validate_keyframe_conditions cs (tp_task p) else Inr ()) = Inr () \<and>
     check_video_supported p cs = Inr () \<and> check_duration_sources tg cs = Inr () \<and>
     (\<forall>x. fs = Some x \<longrightarrow> (\<forall>path. optional_positive_finite_float (PFloat x) path = Inr (Some x))) \<and>
     (\<forall>x. afs = Some x \<longrightarrow> (\<forall>path. optional_positive_finite_float (PFloat x) path = Inr (Some x))) \<and>
     (\<forall>n. sd = Some n \<longrightarrow> 0 \<le> n \<and> n < 2 ^ 63)"

lemma validate_request_Inr:
  assumes "minimax_h3_validate_canonical_request task prompt conditions target flow audio seed = Inr canonical"
  obtains t p pr cs tg fc fs afs sd where "canonical = canonical_dict t pr cs tg fs afs sd"
    "request_ok t p pr cs tg fc fs afs sd" "task = PStr t" "prompt = PStr pr"
    "validate_conditions conditions p fc = Inr cs" "validate_target target p = Inr tg"
    "validate_seed seed = Inr sd"
proof -
  from assms obtain t p pr cs tg fc fs afs sd where *:
    "task = PStr t" "t \<noteq> []" "minimax_h3_task_profile t = Inr p" "prompt = PStr pr" "pr \<noteq> []"
    "validate_target target p = Inr tg" "requested_frame_count tg = Inr fc"
    "validate_conditions conditions p fc = Inr cs"
    "(if tp_task p = ''fl2va'' \<or> (tp_task p = ''ref2va'' \<and> (\<exists>c \<in> set cs. eq_str (dget c ''role'') ''keyframe''))
      then validate_keyframe_conditions cs (tp_task p) else Inr ()) = Inr ()"
    "check_video_supported p cs = Inr ()" "check_duration_sources tg cs = Inr ()"
    "optional_positive_finite_float flow ''flow_shift'' = Inr fs"
    "optional_positive_finite_float audio ''audio_flow_shift'' = Inr afs"
    "validate_seed seed = Inr sd" "canonical = canonical_dict t pr cs tg fs afs sd"
    unfolding minimax_h3_validate_canonical_request_def Let_def canonical_minimax_h3_task_def
    by (clarsimp simp: rbind_Inr_iff require_str_Inr split del: if_split)
  have "request_ok t p pr cs tg fc fs afs sd"
    unfolding request_ok_def
    using * validate_target_idem[OF *(6)] validate_conditions_idem[OF *(8)] validate_seed_Some
    by (auto dest: optional_positive_PFloat)
  then show ?thesis using that * by blast
qed

lemma validate_request_ok:
  assumes "request_ok t p pr cs tg fc fs afs sd"
  shows "minimax_h3_validate_canonical_request (PStr t) (PStr pr) (PList (map PDict cs)) (PDict tg)
     (case fs of None \<Rightarrow> PNone | Some x \<Rightarrow> PFloat x) (case afs of None \<Rightarrow> PNone | Some x \<Rightarrow> PFloat x)
     (case sd of None \<Rightarrow> PNone | Some n \<Rightarrow> PInt n) = Inr (canonical_dict t pr cs tg fs afs sd)"
proof -
  have sd: "validate_seed (case sd of None \<Rightarrow> PNone | Some n \<Rightarrow> PInt n) = Inr sd"
    using assms by (cases sd) (auto simp: request_ok_def validate_seed_None validate_seed_Some)
  have opt: "optional_positive_finite_float (case o' of None \<Rightarrow> PNone | Some x \<Rightarrow> PFloat x) path = Inr o'"
    if "\<forall>x. o' = Some x \<longrightarrow> (\<forall>path. optional_positive_finite_float (PFloat x) path = Inr (Some x))" for o' path
    using that by (cases o') (auto simp: optional_positive_None)
  show ?thesis using assms sd
    by (simp add: request_ok_def minimax_h3_validate_canonical_request_def require_str_def
        canonical_minimax_h3_task_def opt del: if_split)
qed

lemma requested_frame_count_range:
  assumes "target_ok p se ar (Some d)"
  obtains n where "requested_frame_count (target_entry se ar (Some d)) = Inr (Some n)" "96 \<le> n" "n \<le> 360"
proof -
  obtain x where x: "d = Fin x" "4 \<le> x" "x \<le> 15"
    using assms validate_duration_range[of "PFloat d" d] unfolding target_ok_def by auto
  have b: "of_int 96 \<le> x * 24" "x * 24 \<le> of_int 360" using x by simp_all
  show ?thesis using that[of "round_even (fl_fin (x * 24))"] py_round_fl_between[OF b]
    by (simp add: requested_frame_count_def x(1) MINIMAX_H3_SUPPORTED_FPS_def)
qed

end
