(* ===== verification/Resolved_Plan.thy ===== *)
theory Resolved_Plan
  imports Request_Validation
begin

text \<open>
  \<^verbatim>\<open>minimax_h3/resolved_plan.py\<close>: the adaptive spatial resolver \<^verbatim>\<open>adapt_shape_v1\<close>, the
  temporal shape, and the data-only execution plan of a canonical request with its
  per-request cache. The arithmetic is binary64 as in the source.
\<close>

section \<open>Constants and plan data\<close>

definition MINIMAX_H3_BASE_SHORT_EDGE :: int where
  "MINIMAX_H3_BASE_SHORT_EDGE = 768"

definition MINIMAX_H3_MAX_PIXELS :: int where
  "MINIMAX_H3_MAX_PIXELS = MINIMAX_H3_BASE_SHORT_EDGE * 1344"

definition MINIMAX_H3_CANVAS_MULTIPLE :: int where
  "MINIMAX_H3_CANVAS_MULTIPLE = 32"

definition MINIMAX_H3_MIN_ASPECT_RATIO :: pyfloat where
  "MINIMAX_H3_MIN_ASPECT_RATIO = Fin (1 / 4)"

definition MINIMAX_H3_MAX_ASPECT_RATIO :: pyfloat where
  "MINIMAX_H3_MAX_ASPECT_RATIO = Fin 4"

definition MINIMAX_H3_SHAPE_POLICY_VERSION :: string where
  "MINIMAX_H3_SHAPE_POLICY_VERSION = ''adapt_shape_v1''"

record material_item =
  mi_condition_index :: nat
  mi_role :: string
  mi_condition_type :: string
  mi_uri :: string
  mi_material_chain :: string
  mi_frame_index :: pyval
  mi_resolved_frame_index :: "int option"
  mi_start_time_seconds :: pyfloat

text \<open>The \<^verbatim>\<open>encoders\<close> dictionary: the prompt and condition indices Qwen sees, and the indices the
  visual and audio tokenizers encode.\<close>

record plan_encoders =
  pe_qwen_prompt :: pyval
  pe_qwen_indices :: "nat list"
  pe_visual :: "nat list"
  pe_audio :: "nat list"

text \<open>The \<^verbatim>\<open>condition_mask\<close> dictionary: empty, or the request-ordered keyframe indices.\<close>

record resolved_plan =
  rp_task :: string
  rp_prompt :: string
  rp_seed :: pyval
  rp_materials :: "material_item list"
  rp_encoders :: plan_encoders
  rp_branches :: "pydict list"
  rp_default_flow_shift :: pyfloat
  rp_default_audio_flow_shift :: pyfloat
  rp_flow_shift :: "pyfloat option"
  rp_audio_flow_shift :: "pyfloat option"
  rp_shape :: pydict
  rp_condition_mask :: "(int list \<times> int list) option"

section \<open>The spatial resolver\<close>

definition parse_aspect_ratio :: "string \<Rightarrow> (int \<times> int) res" where
  "parse_aspect_ratio value = (case split_on (CHR '':'') value of
      [a, b] \<Rightarrow> (case (parse_int a, parse_int b) of
          (Some w, Some h) \<Rightarrow> raise_if (w \<le> 0 \<or> h \<le> 0)
             (ValueError ''target.aspect_ratio components must be positive'') (Inr (w, h))
        | _ \<Rightarrow> Inl (ValueError ''target.aspect_ratio must be integer W:H''))
    | _ \<Rightarrow> Inl (ValueError ''target.aspect_ratio must be W:H or auto''))"

definition nearest_multiple :: "pyfloat \<Rightarrow> int \<Rightarrow> int res" where
  "nearest_multiple value multiple =
     rbind (fdiv value (Fin (of_int multiple))) (\<lambda>q.
     rbind (py_round q) (\<lambda>n. Inr (max multiple (n * multiple))))"

definition validate_base_short_edge :: "pyval \<Rightarrow> int res" where
  "validate_base_short_edge value =
     rbind (catch_tv (py_int value) (ValueError ''target.short_edge must be an integer'')) (\<lambda>short_edge.
     raise_if (\<not> eq_int value short_edge \<or> short_edge \<le> 0)
       (ValueError ''target.short_edge must be a positive integer'') (Inr short_edge))"

text \<open>The nominal size before rounding, and its size mode.\<close>

definition nominal_size :: "int \<Rightarrow> pyfloat \<Rightarrow> (pyfloat \<times> pyfloat) res" where
  "nominal_size base_short_edge ratio =
     rbind (float_of_int base_short_edge) (\<lambda>base.
     if fle (Fin 1) ratio then Inr (fmul base ratio, base)
     else rbind (fdiv base ratio) (\<lambda>h. Inr (base, h)))"

definition clamp_area :: "pyfloat \<Rightarrow> pyfloat \<Rightarrow> (string \<times> pyfloat \<times> pyfloat) res" where
  "clamp_area nominal_width nominal_height =
     (let nominal_area = fmul nominal_width nominal_height;
          max_pixels = Fin (of_int MINIMAX_H3_MAX_PIXELS) in
      if flt max_pixels nominal_area then
        rbind (fdiv max_pixels nominal_area) (\<lambda>q.
        rbind (fsqrt q) (\<lambda>scale.
        Inr (''area'', fmul nominal_width scale, fmul nominal_height scale)))
      else Inr (''short_edge'', nominal_width, nominal_height))"

definition shape_positive_finite :: "pyfloat \<Rightarrow> bool" where
  "shape_positive_finite x = (is_finite x \<and> \<not> fle x (Fin 0))"

definition spatial_shape_dict :: "int \<Rightarrow> string \<Rightarrow> int \<Rightarrow> int \<Rightarrow> pydict" where
  "spatial_shape_dict base_short_edge size_mode width height =
     [(''geometry'', PStr ''resolved_v2''),
      (''shape_policy_version'', PStr MINIMAX_H3_SHAPE_POLICY_VERSION),
      (''base_short_edge'', PInt base_short_edge),
      (''effective_short_edge'', PInt (min width height)),
      (''size_mode'', PStr size_mode),
      (''max_pixels'', PInt MINIMAX_H3_MAX_PIXELS),
      (''multiple'', PInt MINIMAX_H3_CANVAS_MULTIPLE),
      (''rounding'', PStr ''nearest''),
      (''width'', PInt width),
      (''height'', PInt height)]"

definition minimax_h3_resolve_spatial_shape :: "pyval \<Rightarrow> pyval \<Rightarrow> pyval \<Rightarrow> pydict res" where
  "minimax_h3_resolve_spatial_shape width height base =
     rbind (validate_base_short_edge base) (\<lambda>base_short_edge.
     rbind (catch_tv (rbind (py_float width) (\<lambda>w. rbind (py_float height) (\<lambda>h. Inr (w, h))))
              (ValueError ''shape width and height must be positive finite numbers'')) (\<lambda>(w, h).
     raise_if (\<not> shape_positive_finite w \<or> \<not> shape_positive_finite h)
       (ValueError ''shape width and height must be positive finite numbers'')
     (rbind (fdiv w h) (\<lambda>ratio.
     raise_if (\<not> shape_positive_finite ratio) (ValueError ''shape ratio must be a positive finite number'')
     (raise_if (\<not> (fle MINIMAX_H3_MIN_ASPECT_RATIO ratio \<and> fle ratio MINIMAX_H3_MAX_ASPECT_RATIO))
       (ValueError ''adapt_shape_v1 ratio must be within the inclusive range 1:4 to 4:1'')
     (rbind (nominal_size base_short_edge ratio) (\<lambda>(nw, nh).
      rbind (clamp_area nw nh) (\<lambda>(size_mode, nw', nh').
      rbind (nearest_multiple nw' MINIMAX_H3_CANVAS_MULTIPLE) (\<lambda>rw.
      rbind (nearest_multiple nh' MINIMAX_H3_CANVAS_MULTIPLE) (\<lambda>rh.
      Inr (spatial_shape_dict base_short_edge size_mode rw rh)))))))))))"

section \<open>Temporal shape\<close>

definition minimax_h3_audio_latent_t :: "pyfloat \<Rightarrow> int res" where
  "minimax_h3_audio_latent_t duration_seconds = py_round (fmul duration_seconds (Fin 40))"

text \<open>\<^verbatim>\<open>align(int(round(d * 24)))\<close> with the latent lengths of the aligned duration.\<close>

definition temporal_fields :: "pyfloat \<Rightarrow> (int \<times> pyfloat \<times> int \<times> int) res" where
  "temporal_fields duration =
     rbind (py_round (fmul duration (Fin (of_int MINIMAX_H3_SUPPORTED_FPS)))) (\<lambda>n.
     let frame_count = minimax_h3_align_frame_count n in
     rbind (int_truediv frame_count MINIMAX_H3_SUPPORTED_FPS) (\<lambda>duration_seconds.
     rbind (minimax_h3_audio_latent_t duration_seconds) (\<lambda>alt.
     Inr (frame_count, duration_seconds, minimax_h3_video_latent_t frame_count, alt))))"

definition or_str :: "string option \<Rightarrow> pyval \<Rightarrow> pyval" where
  "or_str src d = (case src of Some s \<Rightarrow> if s \<noteq> [] then PStr s else d | None \<Rightarrow> d)"

definition resolve_spatial :: "pydict \<Rightarrow> pydict \<Rightarrow> string option \<Rightarrow> string option \<Rightarrow> pydict res" where
  "resolve_spatial shape target auto_aspect_ratio auto_geometry_source =
     rbind (dindex target ''aspect_ratio'') (\<lambda>ar0.
     rbind (validate_base_short_edge (dget target ''short_edge'')) (\<lambda>base_short_edge.
     let aspect_ratio = py_str ar0;
         explicit = (\<lambda>shape ar. rbind (parse_aspect_ratio ar) (\<lambda>(w, h).
           rbind (minimax_h3_resolve_spatial_shape (PInt w) (PInt h) (PInt base_short_edge)) (\<lambda>e.
           Inr (dupdate shape e))))
     in if aspect_ratio = ''auto'' then
          (case auto_aspect_ratio of
             None \<Rightarrow> rbind (dindex shape ''geometry_source'') (\<lambda>gs.
               Inr (dset ''size_mode'' (PStr ''deferred'')
                   (dset ''base_short_edge'' (PInt base_short_edge)
                   (dset ''shape_policy_version'' (PStr MINIMAX_H3_SHAPE_POLICY_VERSION)
                   (dset ''geometry_source'' (or_str auto_geometry_source gs)
                   (dset ''geometry'' (PStr ''deferred'') shape))))))
           | Some ar \<Rightarrow> explicit (dset ''geometry_source''
                (or_str auto_geometry_source (PStr ''policy_default'')) shape) ar)
        else explicit shape aspect_ratio))"

definition resolve_shape :: "pyval \<Rightarrow> task_profile \<Rightarrow> pydict res" where
  "resolve_shape target p = (case target of
      PDict t \<Rightarrow>
        (case map_of t ''duration_seconds'' of
           None \<Rightarrow> resolve_spatial
             [(''fps'', PInt MINIMAX_H3_SUPPORTED_FPS), (''temporal'', PStr ''deferred_from_audio_reference''),
              (''geometry_source'', PStr (tp_geometry_source p))]
             t (tp_auto_aspect_ratio p) (tp_auto_geometry_source p)
         | Some d \<Rightarrow>
             rbind (py_float d) (\<lambda>duration.
             rbind (temporal_fields duration) (\<lambda>(frame_count, _, vt, alt).
             resolve_spatial
               [(''fps'', PInt MINIMAX_H3_SUPPORTED_FPS), (''frame_count'', PInt frame_count),
                (''video_latent_t'', PInt vt), (''audio_latent_t'', PInt alt),
                (''geometry_source'', PStr (tp_geometry_source p))]
               t (tp_auto_aspect_ratio p) (tp_auto_geometry_source p))))
    | _ \<Rightarrow> Inl (TypeError ''argument is not iterable''))"

section \<open>The plan\<close>

text \<open>Iterating \<^verbatim>\<open>canonical["conditions"]\<close>, whatever its type.\<close>

fun py_iter :: "pyval \<Rightarrow> pyval list res" where
  "py_iter (PList l) = Inr l"
| "py_iter (PStr s) = Inr (map (\<lambda>c. PStr [c]) s)"
| "py_iter (PDict d) = Inr (map (\<lambda>(k, _). PStr k) d)"
| "py_iter _ = Inl (TypeError ''object is not iterable'')"

text \<open>\<^verbatim>\<open>cond["k"]\<close> on a value that is expected to be a dictionary.\<close>

fun py_index :: "pyval \<Rightarrow> string \<Rightarrow> pyval res" where
  "py_index (PDict d) k = dindex d k"
| "py_index _ k = Inl (TypeError ''object is not subscriptable by str'')"

fun py_get :: "pyval \<Rightarrow> string \<Rightarrow> pyval res" where
  "py_get (PDict d) k = Inr (dget d k)"
| "py_get _ k = Inl (AttributeError ''get'')"

definition keyframe_conditions_of :: "pyval \<Rightarrow> pydict list" where
  "keyframe_conditions_of conditions = (case conditions of
      PList l \<Rightarrow> [c. PDict c \<leftarrow> l, eq_str (dget c ''role'') ''keyframe'']
    | _ \<Rightarrow> [])"

definition keyframe_signature_ok :: "pydict list \<Rightarrow> bool" where
  "keyframe_signature_ok ks =
     (ks \<noteq> [] \<and>
      (\<forall>c \<in> set ks. eq_str (dget c ''type'') ''image'' \<and> eq_str (dget c ''role'') ''keyframe'') \<and>
      matches_signature (map (\<lambda>c. dget c ''frame_index'') ks))"

text \<open>The state of the loop over the conditions.\<close>

record plan_loop =
  pl_materials :: "material_item list"
  pl_visual :: "nat list"
  pl_audio :: "nat list"
  pl_semantic :: "int list"
  pl_pixel :: "int list"
  pl_seen :: "(int \<times> nat) list"

definition plan_loop_init :: plan_loop where
  "plan_loop_init = \<lparr>pl_materials = [], pl_visual = [], pl_audio = [], pl_semantic = [],
     pl_pixel = [], pl_seen = []\<rparr>"

definition resolve_keyframe_index ::
  "pydict \<Rightarrow> condition_rule \<Rightarrow> nat \<Rightarrow> pyval \<Rightarrow> plan_loop \<Rightarrow> (int option \<times> plan_loop) res" where
  "resolve_keyframe_index shape rule index frame_index st =
     (if cr_requires_frame_index rule then
        raise_if (frame_index = PNone) (ValueError (condition_path index @ ''.frame_index is required''))
        (rbind (py_int frame_index) (\<lambda>semantic.
         rbind (dindex shape ''frame_count'') (\<lambda>fc.
         rbind (py_int fc) (\<lambda>frame_count.
         rbind (resolve_frame_index semantic frame_count (condition_path index)) (\<lambda>resolved.
         raise_if (dhas (pl_seen st) resolved)
           (ValueError (condition_path index @ ''.frame_index already bound''))
           (Inr (Some resolved, st\<lparr>pl_seen := dset resolved index (pl_seen st),
              pl_semantic := pl_semantic st @ [semantic], pl_pixel := pl_pixel st @ [resolved]\<rparr>)))))))
      else Inr (None, st))"

definition resolve_plan_step ::
  "task_profile \<Rightarrow> pydict \<Rightarrow> nat \<times> pyval \<Rightarrow> plan_loop \<Rightarrow> plan_loop res" where
  "resolve_plan_step p shape ic st = (case ic of (index, cond) \<Rightarrow>
     rbind (py_index cond ''role'') (\<lambda>role.
     rbind (py_index cond ''type'') (\<lambda>ctype.
     rbind (rule_for p (py_str role) (py_str ctype)) (\<lambda>rule.
     rbind (py_get cond ''frame_index'') (\<lambda>frame_index.
     rbind (resolve_keyframe_index shape rule index frame_index st) (\<lambda>(resolved, st').
     rbind (py_index cond ''uri'') (\<lambda>uri.
     rbind (case cond of PDict c \<Rightarrow> py_float (dget_or c ''start_time_seconds'' (PFloat (Fin 0)))
            | _ \<Rightarrow> Inl (AttributeError ''get'')) (\<lambda>start.
     Inr (st'\<lparr>pl_materials := pl_materials st' @
              [\<lparr>mi_condition_index = index, mi_role = py_str role, mi_condition_type = py_str ctype,
                mi_uri = py_str uri, mi_material_chain = cr_material_chain rule,
                mi_frame_index = frame_index, mi_resolved_frame_index = resolved,
                mi_start_time_seconds = start\<rparr>],
            pl_visual := pl_visual st' @ (if cr_visual_tokenizer_encode rule then [index] else []),
            pl_audio := pl_audio st' @ (if cr_audio_tokenizer_encode rule then [index] else [])\<rparr>)))))))))"

definition qwen_step :: "task_profile \<Rightarrow> nat \<times> pyval \<Rightarrow> nat list \<Rightarrow> nat list res" where
  "qwen_step p ic acc = (case ic of (index, cond) \<Rightarrow>
     if tp_task p \<noteq> ''ref2va'' then Inr (acc @ [index])
     else rbind (py_index cond ''role'') (\<lambda>role.
       Inr (acc @ (if eq_str role ''reference'' then [index] else []))))"

definition opt_float :: "pyval \<Rightarrow> pyfloat option res" where
  "opt_float v = (if v = PNone then Inr None else rbind (py_float v) (\<lambda>x. Inr (Some x)))"

definition PLAN_ALLOWED_KEYS :: "string list" where
  "PLAN_ALLOWED_KEYS = [''schema'', ''task'', ''prompt'', ''conditions'', ''target'', ''seed'',
     ''flow_shift'', ''audio_flow_shift'']"

definition PLAN_REQUIRED_KEYS :: "string list" where
  "PLAN_REQUIRED_KEYS = [''schema'', ''task'', ''prompt'', ''conditions'', ''target'']"

definition minimax_h3_resolve_plan :: "pyval \<Rightarrow> resolved_plan res" where
  "minimax_h3_resolve_plan canonical = (case canonical of
      PDict c \<Rightarrow>
        raise_if (\<exists>k \<in> set (map fst c). k \<notin> set PLAN_ALLOWED_KEYS)
          (ValueError ''canonical request has unknown fields'')
        (raise_if (\<exists>k \<in> set PLAN_REQUIRED_KEYS. \<not> dhas c k) (ValueError ''canonical request missing key'')
        (rbind (minimax_h3_task_profile (py_str (dget c ''task''))) (\<lambda>p.
         let keyframes = keyframe_conditions_of (dget c ''conditions'') in
         raise_if ((tp_task p = ''fl2va'' \<or> keyframes \<noteq> []) \<and> \<not> keyframe_signature_ok keyframes)
           (ValueError ''ResolvedPlan requires one or two ordered image/keyframe conditions'')
         (rbind (resolve_shape (dget c ''target'') p) (\<lambda>shape.
          rbind (py_iter (dget c ''conditions'')) (\<lambda>conds.
          rbind (rfold (resolve_plan_step p shape) (enumerate 0 conds) plan_loop_init) (\<lambda>st.
          rbind (rfold (qwen_step p) (enumerate 0 conds) []) (\<lambda>qwen.
          rbind (opt_float (dget c ''flow_shift'')) (\<lambda>fs.
          rbind (opt_float (dget c ''audio_flow_shift'')) (\<lambda>afs.
          Inr \<lparr>rp_task = tp_task p, rp_prompt = py_str (dget c ''prompt''), rp_seed = dget c ''seed'',
               rp_materials = pl_materials st,
               rp_encoders = \<lparr>pe_qwen_prompt = dget c ''prompt'', pe_qwen_indices = qwen,
                 pe_visual = pl_visual st, pe_audio = pl_audio st\<rparr>,
               rp_branches = tp_branches p,
               rp_default_flow_shift = tp_default_flow_shift p,
               rp_default_audio_flow_shift = tp_default_audio_flow_shift p,
               rp_flow_shift = fs, rp_audio_flow_shift = afs, rp_shape = shape,
               rp_condition_mask = (if pl_pixel st \<noteq> [] then Some (pl_semantic st, pl_pixel st) else None)\<rparr>))))))))))
    | _ \<Rightarrow> Inl (ValueError ''canonical request must be a mapping''))"

section \<open>The per-request cache\<close>

text \<open>What \<^verbatim>\<open>batch.extra\<close> may hold: a resolved plan object, or a plain value.\<close>

datatype extra_val = EPlan resolved_plan | EVal pyval

text \<open>\<^verbatim>\<open>batch.extra\<close> itself: absent or not a mapping, a read-only mapping, or a dictionary.\<close>

datatype batch_extra =
    NoExtra
  | FrozenExtra "(string \<times> extra_val) list"
  | DictExtra "(string \<times> extra_val) list"

definition MINIMAX_H3_CANONICAL_REQUEST_EXTRA_KEY :: string where
  "MINIMAX_H3_CANONICAL_REQUEST_EXTRA_KEY = ''minimax_h3_canonical_request''"

definition MINIMAX_H3_RESOLVED_PLAN_EXTRA_KEY :: string where
  "MINIMAX_H3_RESOLVED_PLAN_EXTRA_KEY = ''minimax_h3_resolved_plan''"

text \<open>\<^verbatim>\<open>extra.get(key)\<close>: \<open>EVal PNone\<close> when the key is missing.\<close>

definition extra_get :: "(string \<times> extra_val) list \<Rightarrow> string \<Rightarrow> extra_val" where
  "extra_get d k = dget_or d k (EVal PNone)"

definition resolve_extra_canonical :: "extra_val \<Rightarrow> resolved_plan res" where
  "resolve_extra_canonical v = (case v of
      EVal c \<Rightarrow> minimax_h3_resolve_plan c
    | EPlan _ \<Rightarrow> Inl (ValueError ''canonical request must be a mapping''))"

definition plan_from_mapping :: "(string \<times> extra_val) list \<Rightarrow> resolved_plan option res" where
  "plan_from_mapping d = (case extra_get d MINIMAX_H3_RESOLVED_PLAN_EXTRA_KEY of
      EPlan plan \<Rightarrow> Inr (Some plan)
    | EVal v \<Rightarrow> raise_if (v \<noteq> PNone) (ValueError ''cached plan must be a MiniMaxH3ResolvedPlan'')
        (if extra_get d MINIMAX_H3_CANONICAL_REQUEST_EXTRA_KEY = EVal PNone then Inr None
         else rbind (resolve_extra_canonical (extra_get d MINIMAX_H3_CANONICAL_REQUEST_EXTRA_KEY))
                (\<lambda>plan. Inr (Some plan))))"

text \<open>The plan, and \<^verbatim>\<open>batch.extra\<close> after the call: only a dictionary is written to.\<close>

definition minimax_h3_plan_from_batch :: "batch_extra \<Rightarrow> (resolved_plan option \<times> batch_extra) res" where
  "minimax_h3_plan_from_batch extra = (case extra of
      NoExtra \<Rightarrow> Inr (None, NoExtra)
    | FrozenExtra d \<Rightarrow> rbind (plan_from_mapping d) (\<lambda>r. Inr (r, FrozenExtra d))
    | DictExtra d \<Rightarrow> rbind (plan_from_mapping d) (\<lambda>r. Inr (r,
        case (r, extra_get d MINIMAX_H3_RESOLVED_PLAN_EXTRA_KEY) of
          (Some plan, EVal _) \<Rightarrow> DictExtra (dset MINIMAX_H3_RESOLVED_PLAN_EXTRA_KEY (EPlan plan) d)
        | _ \<Rightarrow> DictExtra d)))"

section \<open>Bounds of the resolved canvas\<close>

lemma nearest_multiple_bounds:
  assumes "0 \<le> x" and "x \<le> of_int m * p2 (- 10)" and "0 \<le> m" and "m \<le> 2 ^ 52"
    and "round_even (of_int m * p2 (- 15)) \<le> k" and "1 \<le> k" and "k < 2 ^ 50"
  obtains n where "nearest_multiple (Fin x) 32 = Inr n" "32 dvd n" "32 \<le> n" "n \<le> 32 * k"
proof -
  have p15: "p2 (- 15) = p2 (- 10) / 32" using powi_2_diff[of "- 10" 5] by simp
  have le: "x / 32 \<le> of_int m * p2 (- 15)" using assms(2) unfolding p15 by (simp only: divide_right_mono times_divide_eq_right) 
  have "x / 32 \<le> of_int (2 ^ 52)"
  proof -
    have "(of_int m :: rat) * p2 (- 15) \<le> of_int m * 1"
      using assms(3) powi_2_le_iff[of "- 15" 0] by (intro mult_left_mono) auto
    moreover have "(of_int m :: rat) \<le> of_int (2 ^ 52)" using assms(4) by (simp only: of_int_le_iff)
    ultimately show ?thesis using le by linarith
  qed
  then have b: "of_int 0 \<le> x / 32" "x / 32 \<le> of_int (2 ^ 52)" using assms(1) by simp_all
  let ?r = "round_even (fl_fin (x / 32))"
  have r: "fl (x / 32) = Fin (fl_fin (x / 32))" "0 \<le> ?r"
    using fl_between[OF b] py_round_fl_between[OF b] by simp_all
  have "fl_fin (x / 32) \<le> fl_fin (of_int m * p2 (- 15))" by (rule fl_fin_mono[OF le])
  also have "\<dots> = of_int m * p2 (- 15)" using assms(3,4) by (intro fl_fin_exact) auto
  finally have "?r \<le> round_even (of_int m * p2 (- 15))" by (rule round_even_mono)
  then have rk: "?r \<le> k" using assms(5) by simp
  have "nearest_multiple (Fin x) 32 = Inr (max 32 (?r * 32))"
    using r(1) by (simp add: nearest_multiple_def)
  then show ?thesis using that[of "max 32 (?r * 32)"] rk assms(6) r(2)
    by (auto simp: max_def dvd_def mult.commute intro: exI[of _ 1])
qed

lemma sq_mono: "0 \<le> a \<Longrightarrow> a \<le> b \<Longrightarrow> a * a \<le> b * (b::rat)"
  by (intro mult_mono) auto

text \<open>One dimension \<open>X\<close> of the clamped size, the other being \<open>Y\<close>, with \<open>X \<le> k * Y\<close>.\<close>

definition clamp_factor :: "rat \<Rightarrow> rat \<Rightarrow> rat" where
  "clamp_factor X Y = sqrt_fin (fl_fin (of_int MINIMAX_H3_MAX_PIXELS / fl_fin (X * Y)))"

lemma max_pixels_eq: "MINIMAX_H3_MAX_PIXELS = 1032192"
  by (simp add: MINIMAX_H3_MAX_PIXELS_def MINIMAX_H3_BASE_SHORT_EDGE_def)

lemma p2_le_1: "p2 (- 1022) \<le> 1" "p2 (- 1022) \<le> p2 (- 200)" "p2 (- 1022) \<le> p2 (- 300)"
  by simp_all

lemma area_bounds:
  assumes "1 \<le> X" and "1 \<le> Y" and "X \<le> 2 ^ 52" and "Y \<le> 2 ^ 52"
  shows "fl (X * Y) = Fin (fl_fin (X * Y))" and "(1 - eps) * (X * Y) \<le> fl_fin (X * Y)"
    and "1 \<le> fl_fin (X * Y)" and "fl_fin (X * Y) \<le> p2 104"
proof -
  have lo: "1 \<le> X * Y" using mult_mono[of 1 X 1 Y] assms by simp
  have "X * Y \<le> 2 ^ 52 * 2 ^ 52" using assms by (intro mult_mono) auto
  then have hi: "X * Y \<le> p2 104" by (simp add: power_int_def)
  have "p2 104 \<le> p2 1000" by (simp only: powi_2_le_iff)
  then show "fl (X * Y) = Fin (fl_fin (X * Y))" using lo hi by (intro fl_finite_range) auto
  have "p2 (- 1022) \<le> X * Y" using lo p2_le_1(1) by linarith
  then show "(1 - eps) * (X * Y) \<le> fl_fin (X * Y)" by (rule fl_fin_ge_factor)
  show "1 \<le> fl_fin (X * Y)" using fl_fin_mono[OF lo] fl_fin_of_int[of 1] by simp
  show "fl_fin (X * Y) \<le> p2 104" using lo hi by (intro fl_fin_le_p2) auto
qed

lemma clamp_factor_bounds:
  assumes "1 \<le> X" and "1 \<le> Y" and "X \<le> 2 ^ 52" and "Y \<le> 2 ^ 52"
  defines "q \<equiv> of_int MINIMAX_H3_MAX_PIXELS / fl_fin (X * Y)"
  shows "fl q = Fin (fl_fin q)" and "0 < fl_fin q" and "0 < clamp_factor X Y"
    and "p2 (- 110) \<le> clamp_factor X Y" and "clamp_factor X Y \<le> p2 25"
    and "((1 - eps) * clamp_factor X Y) * ((1 - eps) * clamp_factor X Y) \<le> (1 + eps) * q"
proof -
  note A = area_bounds[OF assms(1-4)]
  let ?A = "fl_fin (X * Y)"
  have "p2 (- 104) = 1 / p2 104" by (simp only: power_int_minus inverse_eq_divide)
  also have "\<dots> \<le> 1 / ?A" using A(3,4) by (intro divide_left_mono) auto
  also have "\<dots> \<le> q" using A(3) by (simp add: q_def max_pixels_eq divide_right_mono)
  finally have qlo: "p2 (- 104) \<le> q" .
  have qhi: "q \<le> p2 20" using A(3) by (simp add: q_def max_pixels_eq power_int_def field_simps)
  have pos: "0 < q" using qlo powi_2_pos[of "- 104"] by linarith
  have "p2 20 \<le> p2 1000" by (simp only: powi_2_le_iff)
  then show "fl q = Fin (fl_fin q)" using pos qhi by (intro fl_finite_range) auto
  have "p2 (- 104) = fl_fin (of_int 1 * p2 (- 104))" using fl_fin_exact[of 1 "- 104"] by simp
  also have "\<dots> \<le> fl_fin q" using qlo by (intro fl_fin_mono) simp
  finally have flo: "p2 (- 104) \<le> fl_fin q" .
  show fpos: "0 < fl_fin q" using flo powi_2_pos[of "- 104"] by linarith
  have fhi: "fl_fin q \<le> p2 20" using pos qhi by (intro fl_fin_le_p2) auto
  note s = sqrt_fin_bounds[OF fpos]
  let ?s = "clamp_factor X Y"
  have cf: "?s = sqrt_fin (fl_fin q)" by (simp add: clamp_factor_def q_def)
  show s0: "0 < ?s" using s(1) cf by simp
  have "p2 (- 1022) \<le> q" using qlo powi_2_le_iff[of "- 1022" "- 104"] by linarith
  then show "((1 - eps) * ?s) * ((1 - eps) * ?s) \<le> (1 + eps) * q"
    using s(2) fl_fin_le_factor[of q] unfolding cf by linarith
  show "?s \<le> p2 25"
  proof (rule ccontr)
    assume "\<not> ?s \<le> p2 25"
    then have "p2 24 \<le> (1 - eps) * ?s" by (simp add: eps_def power_int_def)
    then have "p2 24 * p2 24 \<le> ((1 - eps) * ?s) * ((1 - eps) * ?s)"
      by (intro mult_mono) auto
    then show False using s(2) fhi unfolding cf by (simp add: power_int_def)
  qed
  show "p2 (- 110) \<le> ?s"
  proof (rule ccontr)
    assume "\<not> p2 (- 110) \<le> ?s"
    then have lt: "?s < p2 (- 110)" by (simp only: not_le)
    have "(1 + eps) * ?s \<le> 2 * ?s" using s0 by (intro mult_right_mono) (auto simp: eps_def)
    then have "(1 + eps) * ?s \<le> 2 * p2 (- 110)" using lt by linarith
    moreover have "0 \<le> (1 + eps) * ?s" using s0 by (simp add: eps_def)
    ultimately have "((1 + eps) * ?s) * ((1 + eps) * ?s) \<le> (2 * p2 (- 110)) * (2 * p2 (- 110))"
      by (intro sq_mono)
    also have "\<dots> < p2 (- 104)" by (simp add: power_int_def power_divide)
    finally show False using s(3) flo unfolding cf by linarith
  qed
qed

text \<open>Squares compared through the accumulated rounding error.\<close>

lemma clamped_square_bound:
  assumes "1 \<le> X" and "1 \<le> Y" and "X \<le> 2 ^ 52" and "Y \<le> 2 ^ 52" and "X \<le> k * Y"
  defines "Z \<equiv> fl_fin (X * clamp_factor X Y)"
  shows "fl (X * clamp_factor X Y) = Fin Z" and "0 \<le> Z"
    and "(1 - eps) ^ 3 * (Z * Z) \<le> (1 + eps) ^ 3 * (k * of_int MINIMAX_H3_MAX_PIXELS)"
proof -
  note A = area_bounds[OF assms(1-4)]
  note S = clamp_factor_bounds[OF assms(1-4)]
  let ?s = "clamp_factor X Y" and ?A = "fl_fin (X * Y)" and ?M = "of_int MINIMAX_H3_MAX_PIXELS :: rat"
  have e: "0 < 1 - eps" "0 < 1 + eps" by (simp_all add: eps_def)
  have "p2 (- 110) \<le> X * ?s" using mult_mono[of 1 X "p2 (- 110)" ?s] assms(1) S(4) by simp
  moreover have "p2 (- 1022) \<le> p2 (- 110)" by (simp only: powi_2_le_iff)
  ultimately have lo: "p2 (- 1022) \<le> X * ?s" by linarith
  have "X * ?s \<le> p2 52 * p2 25"
    using assms(1,3) S(3,5) by (intro mult_mono) (auto simp: powi_2_int)
  also have "\<dots> = p2 77" using powi_2_add[of 52 25] by simp
  also have "\<dots> \<le> p2 1000" by (simp only: powi_2_le_iff)
  finally have hi: "X * ?s \<le> p2 1000" .
  have pos: "0 \<le> X * ?s" using assms(1) S(3) by simp
  show "fl (X * ?s) = Fin Z" unfolding Z_def using pos hi by (rule fl_finite_range)
  show Z0: "0 \<le> Z" unfolding Z_def using pos by (rule fl_fin_nonneg)
  have "Z \<le> (1 + eps) * (X * ?s)" unfolding Z_def by (rule fl_fin_le_factor[OF lo])
  then have "Z * Z \<le> ((1 + eps) * (X * ?s)) * ((1 + eps) * (X * ?s))" using Z0 by (rule sq_mono[rotated])
  then have "(1 - eps) ^ 3 * (Z * Z) \<le> (1 - eps) ^ 3 * (((1 + eps) * (X * ?s)) * ((1 + eps) * (X * ?s)))"
    using e by (intro mult_left_mono) auto
  also have "\<dots> = ((1 - eps) * (1 + eps)\<^sup>2 * X\<^sup>2) * (((1 - eps) * ?s) * ((1 - eps) * ?s))"
    by (simp add: power2_eq_square power3_eq_cube mult_ac)
  also have "\<dots> \<le> ((1 - eps) * (1 + eps)\<^sup>2 * X\<^sup>2) * ((1 + eps) * (?M / ?A))"
    using S(6) e by (intro mult_left_mono) auto
  also have "\<dots> = (1 + eps) ^ 3 * X * ?M * (((1 - eps) * X) / ?A)"
    by (simp add: power2_eq_square power3_eq_cube mult_ac)
  also have "\<dots> \<le> (1 + eps) ^ 3 * X * ?M * (1 / Y)"
  proof (intro mult_left_mono)
    show "((1 - eps) * X) / ?A \<le> 1 / Y" using A(2,3) assms(2) by (simp add: field_simps)
  qed (use e assms(1) in \<open>auto simp: max_pixels_eq\<close>)
  also have "\<dots> = (1 + eps) ^ 3 * ((X / Y) * ?M)" by simp
  also have "\<dots> \<le> (1 + eps) ^ 3 * (k * ?M)"
    using assms(2,5) e by (intro mult_left_mono mult_right_mono) (auto simp: field_simps max_pixels_eq)
  finally show "(1 - eps) ^ 3 * (Z * Z) \<le> (1 + eps) ^ 3 * (k * ?M)" .
qed

lemma unclamped_square_bound:
  assumes "1 \<le> X" and "1 \<le> Y" and "X \<le> 2 ^ 52" and "Y \<le> 2 ^ 52" and "X \<le> k * Y"
    and "fl_fin (X * Y) \<le> of_int MINIMAX_H3_MAX_PIXELS"
  shows "(1 - eps) ^ 3 * (X * X) \<le> (1 + eps) ^ 3 * (k * of_int MINIMAX_H3_MAX_PIXELS)"
proof -
  let ?M = "of_int MINIMAX_H3_MAX_PIXELS :: rat"
  have k: "0 \<le> k" using assms(1,2,5) mult_nonpos_nonneg[of k Y] by linarith
  have "(1 - eps) * (X * X) \<le> (1 - eps) * (X * (k * Y))"
    using assms(1,5) by (intro mult_left_mono) (auto simp: eps_def)
  also have "\<dots> = k * ((1 - eps) * (X * Y))" by simp
  also have "\<dots> \<le> k * ?M" using area_bounds(2)[OF assms(1-4)] assms(6) k by (intro mult_left_mono) auto
  finally have m: "(1 - eps) * (X * X) \<le> k * ?M" .
  have "(1 - eps) ^ 3 * (X * X) = (1 - eps)\<^sup>2 * ((1 - eps) * (X * X))"
    by (simp add: power2_eq_square power3_eq_cube)
  also have "\<dots> \<le> 1 * (k * ?M)"
  proof (rule mult_mono[OF _ m])
    show "(1 - eps)\<^sup>2 \<le> 1" by (simp add: eps_def power2_eq_square)
  qed (use assms(1) in \<open>auto simp: eps_def\<close>)
  also have "\<dots> \<le> (1 + eps) ^ 3 * (k * ?M)" using k
    by (intro mult_right_mono) (auto simp: eps_def max_pixels_eq power3_eq_cube)
  finally show ?thesis .
qed

lemma square_bound_long:
  assumes "0 \<le> Z" and "(1 - eps) ^ 3 * (Z * Z) \<le> (1 + eps) ^ 3 * (4 * of_int MINIMAX_H3_MAX_PIXELS)"
  obtains n where "nearest_multiple (Fin Z) 32 = Inr n" "32 dvd n" "32 \<le> n" "n \<le> 2016"
proof -
  have "Z \<le> 65023 / 32"
  proof (rule ccontr)
    assume "\<not> Z \<le> 65023 / 32"
    then have "(65023 / 32) * (65023 / 32) \<le> Z * Z" by (intro sq_mono) auto
    then have "(1 - eps) ^ 3 * ((65023 / 32) * (65023 / 32)) \<le> (1 - eps) ^ 3 * (Z * Z)"
      by (intro mult_left_mono) (auto simp: eps_def)
    then show False using assms(2) by (simp add: eps_def max_pixels_eq power3_eq_cube)
  qed
  then have "Z \<le> of_int 2080736 * p2 (- 10)" by (simp add: power_int_def power_divide)
  moreover have "of_int (round_even (65023 / 1024)) \<le> (65023 / 1024 + 1 / 2 :: rat)"
    using round_even_error[of "65023 / 1024"] by linarith
  then have "of_int (round_even (65023 / 1024)) < (of_int 64 :: rat)" by linarith
  then have "round_even (of_int 2080736 * p2 (- 15)) \<le> 63"
    by (simp add: power_int_def power_divide)
  ultimately show ?thesis using that assms(1) by (elim nearest_multiple_bounds[rotated]) auto
qed

lemma square_bound_short:
  assumes "0 \<le> Z" and "(1 - eps) ^ 3 * (Z * Z) \<le> (1 + eps) ^ 3 * (1 * of_int MINIMAX_H3_MAX_PIXELS)"
  obtains n where "nearest_multiple (Fin Z) 32 = Inr n" "32 dvd n" "32 \<le> n" "n \<le> 1024"
proof -
  have "Z \<le> 1024"
  proof (rule ccontr)
    assume "\<not> Z \<le> 1024"
    then have "1024 * 1024 \<le> Z * Z" by (intro sq_mono) auto
    then have "(1 - eps) ^ 3 * (1024 * 1024) \<le> (1 - eps) ^ 3 * (Z * Z)"
      by (intro mult_left_mono) (auto simp: eps_def)
    then show False using assms(2) by (simp add: eps_def max_pixels_eq power3_eq_cube)
  qed
  then have "Z \<le> of_int 1048576 * p2 (- 10)" by (simp add: power_int_def power_divide)
  moreover have "round_even (of_int 1048576 * p2 (- 15)) \<le> 32"
    by (simp add: power_int_def power_divide)
  ultimately show ?thesis using that assms(1) by (elim nearest_multiple_bounds[rotated]) auto
qed

text \<open>The longer side \<open>X\<close> is at most four times the shorter side \<open>Y\<close>: rounding the clamped
  size gives sides on the 32 grid within 2016 and 1024.\<close>

lemma clamp_area_rounded:
  assumes XY: "1 \<le> Y" "Y \<le> X" "X \<le> 4 * Y" "Y \<le> 2 ^ 50"
  obtains mode nx ny where
    "clamp_area (Fin X) (Fin Y) = Inr (mode, Fin nx, Fin ny)"
    "clamp_area (Fin Y) (Fin X) = Inr (mode, Fin ny, Fin nx)"
    "\<exists>n. nearest_multiple (Fin nx) 32 = Inr n \<and> 32 dvd n \<and> 32 \<le> n \<and> n \<le> 2016"
    "\<exists>n. nearest_multiple (Fin ny) 32 = Inr n \<and> 32 dvd n \<and> 32 \<le> n \<and> n \<le> 1024"
proof -
  have d: "1 \<le> X" "1 \<le> Y" "X \<le> 2 ^ 52" "Y \<le> 2 ^ 52" "X \<le> 4 * Y" "Y \<le> 1 * X"
    using XY by simp_all
  note A = area_bounds[OF d(1-4)]
  have com: "Y * X = X * Y" and cf: "clamp_factor Y X = clamp_factor X Y"
    by (simp_all add: clamp_factor_def mult.commute)
  show thesis
  proof (cases "of_int MINIMAX_H3_MAX_PIXELS < fl_fin (X * Y)")
    case True
    note S = clamp_factor_bounds[OF d(1-4)]
    note bx = clamped_square_bound[OF d(1-5)]
    note by' = clamped_square_bound[OF d(2,1,4,3,6)]
    have s: "fsqrt (Fin (fl_fin (of_int MINIMAX_H3_MAX_PIXELS / fl_fin (X * Y))))
             = Inr (Fin (clamp_factor X Y))"
      using S(2) by (simp add: clamp_factor_def)
    have q: "fdiv (Fin (of_int MINIMAX_H3_MAX_PIXELS)) (Fin (fl_fin (X * Y)))
             = Inr (Fin (fl_fin (of_int MINIMAX_H3_MAX_PIXELS / fl_fin (X * Y))))"
      using S(1) A(3) by simp
    show thesis
    proof (rule that)
      show "clamp_area (Fin X) (Fin Y) = Inr (''area'', Fin (fl_fin (X * clamp_factor X Y)),
              Fin (fl_fin (Y * clamp_factor Y X)))"
        using True bx(1) by'(1) by (simp add: clamp_area_def Let_def A(1) q s cf del: fdiv.simps fsqrt.simps)
      show "clamp_area (Fin Y) (Fin X) = Inr (''area'', Fin (fl_fin (Y * clamp_factor Y X)),
              Fin (fl_fin (X * clamp_factor X Y)))"
        using True bx(1) by'(1) by (simp add: clamp_area_def Let_def com A(1) q s cf del: fdiv.simps fsqrt.simps)
    qed (metis square_bound_long[OF bx(2,3)], metis square_bound_short[OF by'(2,3)])
  next
    case False
    then have le: "fl_fin (X * Y) \<le> of_int MINIMAX_H3_MAX_PIXELS" by simp
    note bx = unclamped_square_bound[OF d(1-5) le]
    note by' = unclamped_square_bound[OF d(2,1,4,3,6) le[folded com]]
    have "0 \<le> X" "0 \<le> Y" using d by simp_all
    show thesis
      by (rule that[of "''short_edge''" X Y])
        (use False in \<open>simp_all add: clamp_area_def Let_def com A(1)\<close>,
          metis square_bound_long[OF \<open>0 \<le> X\<close> bx], metis square_bound_short[OF \<open>0 \<le> Y\<close> by'])
  qed
qed

lemma nominal_between:
  assumes "1 \<le> b" and "b \<le> 2 ^ 50" and "1 \<le> r" and "r \<le> 4"
  shows "fl (of_int b * r) = Fin (fl_fin (of_int b * r))"
    and "of_int b \<le> fl_fin (of_int b * r)" and "fl_fin (of_int b * r) \<le> 4 * of_int b"
proof -
  have "of_int b * 1 \<le> of_int b * r" "of_int b * r \<le> of_int b * 4"
    using assms by (intro mult_left_mono; simp)+
  then have *: "of_int b \<le> of_int b * r" "of_int b * r \<le> of_int (4 * b)" by simp_all
  have "0 \<le> b" "4 * b \<le> 2 ^ 52" using assms(1,2) by simp_all
  then show "fl (of_int b * r) = Fin (fl_fin (of_int b * r))"
    and "of_int b \<le> fl_fin (of_int b * r)" and "fl_fin (of_int b * r) \<le> 4 * of_int b"
    using fl_between[OF *] by simp_all
qed

text \<open>A base short edge of at most \<open>2 ^ 50\<close> and a ratio within the accepted range always resolve.\<close>

definition canvas_side_ok :: "int \<Rightarrow> int \<Rightarrow> bool" where
  "canvas_side_ok limit n = (32 dvd n \<and> 32 \<le> n \<and> n \<le> limit)"

lemma spatial_dims:
  assumes b: "1 \<le> b" "b \<le> 2 ^ 50" and r: "1 / 4 \<le> r" "r \<le> 4"
  obtains mode nw nh w h where
    "rbind (nominal_size b (Fin r)) (\<lambda>(nw, nh). clamp_area nw nh) = Inr (mode, Fin nw, Fin nh)"
    "nearest_multiple (Fin nw) 32 = Inr w" "nearest_multiple (Fin nh) 32 = Inr h"
    "canvas_side_ok 2016 w" "canvas_side_ok 2016 h" "canvas_side_ok 1024 (min w h)"
proof -
  have "(of_int b :: rat) \<le> of_int (2 ^ 50)" using b by (simp only: of_int_le_iff)
  then have bb: "1 \<le> (of_int b :: rat)" "(of_int b :: rat) \<le> 2 ^ 50" using b by simp_all
  show thesis
  proof (cases "1 \<le> r")
  case True
  note n = nominal_between[OF b True r(2)]
  have "nominal_size b (Fin r) = Inr (Fin (fl_fin (of_int b * r)), Fin (of_int b))"
    using b True n(1) by (simp add: nominal_size_def float_of_int_small)
  moreover obtain mode nx ny where
    "clamp_area (Fin (fl_fin (of_int b * r))) (Fin (of_int b)) = Inr (mode, Fin nx, Fin ny)"
    "\<exists>n. nearest_multiple (Fin nx) 32 = Inr n \<and> 32 dvd n \<and> 32 \<le> n \<and> n \<le> 2016"
    "\<exists>n. nearest_multiple (Fin ny) 32 = Inr n \<and> 32 dvd n \<and> 32 \<le> n \<and> n \<le> 1024"
    by (rule clamp_area_rounded[OF bb(1) n(2,3) bb(2)])
  ultimately show ?thesis using that by (fastforce simp: canvas_side_ok_def min_def)
next
  case False
  note n = nominal_between[OF b, of "1 / r"]
  have inv: "1 \<le> 1 / r" "1 / r \<le> 4" "r \<noteq> 0" using False r by (auto simp: field_simps)
  then have "nominal_size b (Fin r) = Inr (Fin (of_int b), Fin (fl_fin (of_int b * (1 / r))))"
    using b False n(1) by (simp add: nominal_size_def float_of_int_small)
  moreover obtain mode nx ny where
    "clamp_area (Fin (of_int b)) (Fin (fl_fin (of_int b * (1 / r)))) = Inr (mode, Fin ny, Fin nx)"
    "\<exists>n. nearest_multiple (Fin nx) 32 = Inr n \<and> 32 dvd n \<and> 32 \<le> n \<and> n \<le> 2016"
    "\<exists>n. nearest_multiple (Fin ny) 32 = Inr n \<and> 32 dvd n \<and> 32 \<le> n \<and> n \<le> 1024"
    by (rule clamp_area_rounded[OF bb(1) n(2)[OF inv(1,2)] n(3)[OF inv(1,2)] bb(2)])
  ultimately show ?thesis using that by (fastforce simp: canvas_side_ok_def min_def)
  qed
qed

definition canvas_ok :: "int \<Rightarrow> int \<Rightarrow> bool" where
  "canvas_ok w h = (canvas_side_ok 2016 w \<and> canvas_side_ok 2016 h \<and> canvas_side_ok 1024 (min w h))"

lemma spatial_rounding:
  assumes "1 \<le> b" "b \<le> 2 ^ 50" "1 / 4 \<le> r" "r \<le> 4"
  obtains mode w h where "canvas_ok w h"
    "rbind (nominal_size b (Fin r)) (\<lambda>(nw, nh).
      rbind (clamp_area nw nh) (\<lambda>(size_mode, nw', nh').
      rbind (nearest_multiple nw' MINIMAX_H3_CANVAS_MULTIPLE) (\<lambda>rw.
      rbind (nearest_multiple nh' MINIMAX_H3_CANVAS_MULTIPLE) (\<lambda>rh.
      Inr (spatial_shape_dict b size_mode rw rh))))) = Inr (spatial_shape_dict b mode w h)"
proof -
  obtain mode nw nh w h where
    "rbind (nominal_size b (Fin r)) (\<lambda>(nw, nh). clamp_area nw nh) = Inr (mode, Fin nw, Fin nh)"
    and n: "nearest_multiple (Fin nw) 32 = Inr w" "nearest_multiple (Fin nh) 32 = Inr h"
    and ok: "canvas_side_ok 2016 w" "canvas_side_ok 2016 h" "canvas_side_ok 1024 (min w h)"
    by (rule spatial_dims[OF assms])
  then obtain a c where "nominal_size b (Fin r) = Inr (a, c)" "clamp_area a c = Inr (mode, Fin nw, Fin nh)"
    by (auto simp: rbind_Inr_iff)
  then show ?thesis using that[of w h mode] n ok
    by (simp add: canvas_ok_def MINIMAX_H3_CANVAS_MULTIPLE_def)
qed

lemma validate_base_short_edge_pos: "validate_base_short_edge v = Inr b \<Longrightarrow> 0 < b"
  by (auto simp: validate_base_short_edge_def res_simps)

lemma validate_base_short_edge_PInt: "0 < b \<Longrightarrow> validate_base_short_edge (PInt b) = Inr b"
  by (simp add: validate_base_short_edge_def catch_tv_def)

lemma ratio_bounds_Fin:
  assumes "fle MINIMAX_H3_MIN_ASPECT_RATIO x" and "fle x MINIMAX_H3_MAX_ASPECT_RATIO"
  obtains r where "x = Fin r" "1 / 4 \<le> r" "r \<le> 4"
  using assms by (cases x) (auto simp: MINIMAX_H3_MIN_ASPECT_RATIO_def MINIMAX_H3_MAX_ASPECT_RATIO_def fle_def)

lemma resolve_spatial_shape_Inr:
  assumes "minimax_h3_resolve_spatial_shape vw vh vb = Inr d"
    and "validate_base_short_edge vb = Inr b" and "b \<le> 2 ^ 50"
  shows "\<exists>mode w h. d = spatial_shape_dict b mode w h \<and> canvas_ok w h"
proof -
  have "1 \<le> b" using validate_base_short_edge_pos[OF assms(2)] by simp
  note R = spatial_rounding[OF this assms(3)]
  show ?thesis using assms(1) unfolding minimax_h3_resolve_spatial_shape_def
    by (auto simp: res_simps assms(2) split del: if_split elim!: ratio_bounds_Fin)
      (use R in \<open>fastforce\<close>)
qed

text \<open>Positive integer sides within the ratio range and exactly representable resolve.\<close>

lemma resolve_spatial_shape_total:
  assumes "1 \<le> b" "b \<le> 2 ^ 50" and w: "1 \<le> w" "w < 2 ^ 53" and h: "1 \<le> h" "h < 2 ^ 53"
    and ratio: "h \<le> 4 * w" "w \<le> 4 * h"
  obtains mode W H where "canvas_ok W H"
    "minimax_h3_resolve_spatial_shape (PInt w) (PInt h) (PInt b) = Inr (spatial_shape_dict b mode W H)"
proof -
  let ?q = "of_int w / of_int h :: rat"
  let ?r = "fl_fin ?q"
  have "of_int h \<le> (of_int (4 * w) :: rat)" "of_int w \<le> (of_int (4 * h) :: rat)"
    using ratio by (simp_all only: of_int_le_iff)
  then have q: "1 / 4 \<le> ?q" "?q \<le> 4" using h by (simp_all add: field_simps)
  have "fl_fin (1 / 4) = 1 / 4" using fl_fin_exact[of 1 "- 2"] by (simp add: power_int_def power2_eq_square)
  moreover have "fl_fin 4 = 4" using fl_fin_of_int[of 4] by simp
  ultimately have r: "1 / 4 \<le> ?r" "?r \<le> 4" using fl_fin_mono[OF q(1)] fl_fin_mono[OF q(2)] by simp_all
  have "4 \<le> p2 1000" using powi_2_le_iff[of 2 1000] by simp
  then have fin: "fl ?q = Fin ?r" using q w h by (intro fl_finite_range) auto
  obtain mode W H where R: "canvas_ok W H"
    "rbind (nominal_size b (Fin ?r)) (\<lambda>(nw, nh).
      rbind (clamp_area nw nh) (\<lambda>(size_mode, nw', nh').
      rbind (nearest_multiple nw' MINIMAX_H3_CANVAS_MULTIPLE) (\<lambda>rw.
      rbind (nearest_multiple nh' MINIMAX_H3_CANVAS_MULTIPLE) (\<lambda>rh.
      Inr (spatial_shape_dict b size_mode rw rh))))) = Inr (spatial_shape_dict b mode W H)"
    by (rule spatial_rounding[OF assms(1,2) r])
  have "minimax_h3_resolve_spatial_shape (PInt w) (PInt h) (PInt b) = Inr (spatial_shape_dict b mode W H)"
    unfolding minimax_h3_resolve_spatial_shape_def R(2)[symmetric]
    using assms w h r fin
    by (simp add: validate_base_short_edge_PInt float_of_int_small catch_tv_def shape_positive_finite_def is_finite_def
        MINIMAX_H3_MIN_ASPECT_RATIO_def MINIMAX_H3_MAX_ASPECT_RATIO_def)
  then show ?thesis using that R(1) by blast
qed

lemma eq_str_PStr: "eq_str (PStr a) b \<longleftrightarrow> a = b"
  by (simp add: eq_str_def)

section \<open>From a validated request to its plan\<close>

definition material_matches :: "material_item \<Rightarrow> pydict \<Rightarrow> bool" where
  "material_matches m c = (PStr (mi_role m) = dget c ''role'' \<and> PStr (mi_condition_type m) = dget c ''type'' \<and>
     PStr (mi_uri m) = dget c ''uri'' \<and> mi_frame_index m = dget c ''frame_index'')"

lemma material_matches_role: "material_matches m c \<Longrightarrow> \<exists>r. map_of c ''role'' = Some r"
  by (auto simp: material_matches_def dget_def split: option.splits)

text \<open>The loop state: the pixel indices are the bound frames, and they are distinct and within
  the clip.\<close>

definition plan_loop_inv :: "int option \<Rightarrow> plan_loop \<Rightarrow> bool" where
  "plan_loop_inv aligned st \<longleftrightarrow> pl_pixel st = map fst (pl_seen st) \<and> distinct (pl_pixel st) \<and>
     (\<forall>x \<in> set (pl_pixel st). \<exists>a. aligned = Some a \<and> 0 \<le> x \<and> x < a) \<and>
     length (pl_semantic st) = length (pl_pixel st)"

lemma map_fst_dset_new: "\<not> dhas d k \<Longrightarrow> map fst (dset k v d) = map fst d @ [k]"
  by (induction d) (auto simp: dset_def dhas_def split: if_splits)

lemma not_dhas_iff: "\<not> dhas d k \<longleftrightarrow> k \<notin> set (map fst d)"
  by (auto simp: dhas_def map_of_eq_None_iff)

lemma condition_entry_lookups [simp]:
  "map_of (condition_entry ct uri role frame start) ''type'' = Some (PStr ct)"
  "map_of (condition_entry ct uri role frame start) ''uri'' = Some (PStr uri)"
  "map_of (condition_entry ct uri role frame start) ''role'' = Some (PStr role)"
  by (simp_all add: condition_entry_def)

lemma condition_entry_start:
  "py_float (dget_or (condition_entry ct uri role frame start) ''start_time_seconds'' (PFloat (Fin 0)))
   = Inr (case start of None \<Rightarrow> Fin 0 | Some x \<Rightarrow> x)"
  by (cases frame; cases start; simp add: condition_entry_def dget_or_def)

lemma plan_step_entry:
  assumes rule: "rule_for p role ct = Inr rule"
    and fi: "condition_frame_index rule aligned i c (pl_seen st) = Inr (frame, seen')"
    and fc: "\<And>a. aligned = Some a \<Longrightarrow> map_of shape ''frame_count'' = Some (PInt a) \<and> 0 < a"
    and inv: "plan_loop_inv aligned st"
  obtains st' m where
    "resolve_plan_step p shape (i, PDict (condition_entry ct uri role frame start)) st = Inr st'"
    "pl_seen st' = seen'" "plan_loop_inv aligned st'" "pl_materials st' = pl_materials st @ [m]"
    "material_matches m (condition_entry ct uri role frame start)" "mi_condition_index m = i"
proof (cases "cr_requires_frame_index rule")
  case True
  then obtain f a r where *: "frame = Some f" "aligned = Some a"
    "resolve_frame_index f a (condition_path i) = Inr r" "\<not> dhas (pl_seen st) r" "seen' = dset r i (pl_seen st)"
    using fi by (auto simp: condition_frame_index_cases)
  note r = resolve_frame_index_range[OF *(3)] and a = fc[OF *(2)]
  show ?thesis
    apply (rule that)
         apply (simp add: resolve_plan_step_def rule condition_entry_start resolve_keyframe_index_def True * a
           dindex_def)
        apply (use * r a inv in \<open>auto simp: plan_loop_inv_def map_fst_dset_new not_dhas_iff material_matches_def\<close>)
    done
next
  case False
  then have "frame = None" "seen' = pl_seen st" using fi by (auto simp: condition_frame_index_cases)
  then show ?thesis
    apply (intro that)
         apply (simp add: resolve_plan_step_def rule condition_entry_start resolve_keyframe_index_def
           False dindex_def)
        apply (use inv in \<open>auto simp: plan_loop_inv_def material_matches_def\<close>)
    done
qed

text \<open>The plan loop follows the validation loop step by step.\<close>

lemma plan_loop_simulates:
  assumes "rfold (validate_conditions_step p aligned) (enumerate n conds) (acc, pl_seen st) = Inr (acc @ es, seen')"
    and "length es = length conds"
    and "\<And>a. aligned = Some a \<Longrightarrow> map_of shape ''frame_count'' = Some (PInt a) \<and> 0 < a"
    and "plan_loop_inv aligned st"
  obtains st' ms where "rfold (resolve_plan_step p shape) (enumerate n (map PDict es)) st = Inr st'"
    "plan_loop_inv aligned st'" "pl_materials st' = pl_materials st @ ms"
    "list_all2 material_matches ms es" "map mi_condition_index ms = [n..<n + length es]"
  using assms
proof (induction conds arbitrary: n acc st es thesis)
  case Nil
  then show ?case by (auto simp: res_simps)
next
  case (Cons c cs)
  from Cons.prems(2) obtain e s1 where e: "validate_condition p aligned n c (pl_seen st) = Inr (e, s1)"
    and rest: "rfold (validate_conditions_step p aligned) (enumerate (Suc n) cs) (acc @ [e], s1) = Inr (acc @ es, seen')"
    by (auto simp: validate_conditions_step_pair res_simps)
  from validate_loop_map[OF rest] obtain es' where es: "es = e # es'" "length es' = length cs"
    by (metis append.assoc append_Cons append_Nil same_append_eq)
  obtain role ct uri rule frame start c' where v: "rule_for p role ct = Inr rule"
    "condition_frame_index rule aligned n c' (pl_seen st) = Inr (frame, s1)"
    "e = condition_entry ct uri role frame start"
    using e unfolding validate_condition_Inr by blast
  obtain st1 m where st1: "resolve_plan_step p shape (n, PDict e) st = Inr st1" "pl_seen st1 = s1"
    "plan_loop_inv aligned st1" "pl_materials st1 = pl_materials st @ [m]" "material_matches m e"
    "mi_condition_index m = n"
    using plan_step_entry[OF v(1,2) Cons.prems(4,5)] v(3) by metis
  have rest': "rfold (validate_conditions_step p aligned) (enumerate (Suc n) cs) (acc @ [e], pl_seen st1)
      = Inr ((acc @ [e]) @ es', seen')"
    using rest es(1) st1(2) by simp
  obtain st' ms where "rfold (resolve_plan_step p shape) (enumerate (Suc n) (map PDict es')) st1 = Inr st'"
    "plan_loop_inv aligned st'" "pl_materials st' = pl_materials st1 @ ms"
    "list_all2 material_matches ms es'" "map mi_condition_index ms = [Suc n..<Suc n + length es']"
    using Cons.IH[OF _ rest' es(2) Cons.prems(4) st1(3)] by metis
  then show ?case using st1 es
    by (intro Cons.prems(1)[of st' "m # ms"]) (auto simp: upt_conv_Cons simp del: upt_Suc)
qed

lemma qwen_fold_total:
  "\<forall>c \<in> set cs. \<exists>r. map_of c ''role'' = Some r \<Longrightarrow>
   \<exists>q. rfold (qwen_step p) (enumerate n (map PDict cs)) acc = Inr q"
proof (induction cs arbitrary: n acc)
  case (Cons c cs)
  then have "\<exists>acc'. qwen_step p (n, PDict c) acc = Inr acc'"
    by (auto simp: qwen_step_def dindex_def split del: if_split intro: exI[of _ "acc @ _"] split: if_split)
  with Cons show ?case by auto
qed simp

definition explicit_ratio_ok :: "string \<Rightarrow> bool" where
  "explicit_ratio_ok ar = (case parse_aspect_ratio ar of
      Inr (w, h) \<Rightarrow> w < 2 ^ 53 \<and> h < 2 ^ 53 \<and> h \<le> 4 * w \<and> w \<le> 4 * h | Inl _ \<Rightarrow> False)"

lemma parse_aspect_ratio_pos: "parse_aspect_ratio ar = Inr (w, h) \<Longrightarrow> 1 \<le> w \<and> 1 \<le> h"
  by (auto simp: parse_aspect_ratio_def res_simps split: list.splits option.splits)

lemma finite_ratios_ok: "ar \<in> set MINIMAX_H3_FINITE_ASPECT_RATIOS \<Longrightarrow> explicit_ratio_ok ar"
proof -
  have "list_all explicit_ratio_ok MINIMAX_H3_FINITE_ASPECT_RATIOS" by code_simp
  then show "ar \<in> set MINIMAX_H3_FINITE_ASPECT_RATIOS \<Longrightarrow> explicit_ratio_ok ar" by (simp add: list_all_iff)
qed

lemma explicit_ratio_resolves:
  assumes "explicit_ratio_ok ar" and "1 \<le> b" and "b \<le> 2 ^ 50"
  obtains w h mode W H where "parse_aspect_ratio ar = Inr (w, h)" "canvas_ok W H"
    "minimax_h3_resolve_spatial_shape (PInt w) (PInt h) (PInt b) = Inr (spatial_shape_dict b mode W H)"
proof -
  from assms(1) obtain w h where p: "parse_aspect_ratio ar = Inr (w, h)"
    and b: "w < 2 ^ 53" "h < 2 ^ 53" "h \<le> 4 * w" "w \<le> 4 * h"
    by (auto simp: explicit_ratio_ok_def split: sum.splits)
  show ?thesis using resolve_spatial_shape_total[OF assms(2,3) _ b(1) _ b(2) b(3,4)]
      parse_aspect_ratio_pos[OF p] that[OF p] by metis
qed

text \<open>Which ratio the target resolves to without waiting for a keyframe image.\<close>

definition target_ratio :: "task_profile \<Rightarrow> string \<Rightarrow> string option" where
  "target_ratio p ar = (if ar = ''auto'' then tp_auto_aspect_ratio p else Some ar)"

lemma resolve_spatial_explicit:
  assumes "target_ratio p ar = Some r" and "explicit_ratio_ok r" and "1 \<le> b" and "b \<le> 2 ^ 50"
  obtains shape' mode W H where "canvas_ok W H"
    "resolve_spatial shape (target_entry b ar du) (tp_auto_aspect_ratio p) (tp_auto_geometry_source p)
     = Inr (dupdate shape' (spatial_shape_dict b mode W H))"
    "\<And>k. k \<noteq> ''geometry_source'' \<Longrightarrow> map_of shape' k = map_of shape k"
proof -
  obtain w h mode W H where R: "parse_aspect_ratio r = Inr (w, h)" "canvas_ok W H"
    "minimax_h3_resolve_spatial_shape (PInt w) (PInt h) (PInt b) = Inr (spatial_shape_dict b mode W H)"
    by (rule explicit_ratio_resolves[OF assms(2-4)])
  have l: "map_of (target_entry b ar du) ''aspect_ratio'' = Some (PStr ar)" by (simp add: target_entry_def)
  show ?thesis
  proof (cases "ar = ''auto''")
    case True
    then show ?thesis using assms(1,3) R l
      by (intro that[OF R(2), of "dset ''geometry_source''
          (or_str (tp_auto_geometry_source p) (PStr ''policy_default'')) shape" mode])
        (auto simp: resolve_spatial_def dindex_def validate_base_short_edge_PInt target_ratio_def dict_simps)
  next
    case False
    then show ?thesis using assms(1,3) R l
      by (intro that[OF R(2), of shape mode])
        (auto simp: resolve_spatial_def dindex_def validate_base_short_edge_PInt target_ratio_def)
  qed
qed

lemma temporal_fields_range:
  assumes "target_ok p se ar (Some d)"
  obtains n ds vt alt where "requested_frame_count (target_entry se ar (Some d)) = Inr (Some n)"
    "96 \<le> n" "n \<le> 360"
    "temporal_fields d = Inr (minimax_h3_align_frame_count n, ds, vt, alt)"
    "vt = minimax_h3_video_latent_t (minimax_h3_align_frame_count n)" "160 \<le> alt" "alt \<le> 640"
proof -
  obtain n where n: "requested_frame_count (target_entry se ar (Some d)) = Inr (Some n)" "96 \<le> n" "n \<le> 360"
    using requested_frame_count_range[OF assms] .
  then have r: "py_round (fmul d (Fin (of_int MINIMAX_H3_SUPPORTED_FPS))) = Inr n"
    by (auto simp: requested_frame_count_def res_simps)
  let ?a = "minimax_h3_align_frame_count n"
  have a: "96 \<le> ?a" "?a \<le> 377" using n align_frame_count_ge[of n] align_frame_count_less[of n] by auto
  let ?q = "of_int ?a / 24 :: rat"
  have q: "of_int 4 \<le> ?q" "?q \<le> of_int 16" using a by simp_all
  note Q = fl_between[OF q]
  have m: "of_int 160 \<le> fl_fin ?q * 40" "fl_fin ?q * 40 \<le> of_int 640" using Q by simp_all
  have "int_truediv ?a MINIMAX_H3_SUPPORTED_FPS = Inr (Fin (fl_fin ?q))"
    using Q(1) by (simp add: int_truediv_def MINIMAX_H3_SUPPORTED_FPS_def)
  moreover obtain alt where "minimax_h3_audio_latent_t (Fin (fl_fin ?q)) = Inr alt" "160 \<le> alt" "alt \<le> 640"
    using py_round_fl_between[OF m] by (auto simp: minimax_h3_audio_latent_t_def)
  ultimately show ?thesis using that[OF n] r by (simp add: temporal_fields_def Let_def)
qed

definition ratio_known :: "string \<Rightarrow> bool" where
  "ratio_known ar = (ar = ''auto'' \<or> explicit_ratio_ok ar)"

lemma target_ratio_ok:
  assumes "minimax_h3_task_profile t = Inr p" and "ratio_known ar" and "target_ratio p ar = Some r"
  shows "explicit_ratio_ok r"
proof -
  have "explicit_ratio_ok ''16:9''" by (rule finite_ratios_ok) (simp add: MINIMAX_H3_FINITE_ASPECT_RATIOS_def)
  then show ?thesis using assms
    by (auto simp: ratio_known_def target_ratio_def profile_defs split: if_splits elim!: task_profile_cases)
qed

lemma resolve_spatial_total:
  assumes p: "minimax_h3_task_profile t = Inr p" and ar: "ratio_known ar" and b: "1 \<le> b" "b \<le> 2 ^ 50"
    and gs: "map_of shape ''geometry_source'' = Some g"
  obtains out where
    "resolve_spatial shape (target_entry b ar du) (tp_auto_aspect_ratio p) (tp_auto_geometry_source p) = Inr out"
    "map_of out ''frame_count'' = map_of shape ''frame_count''"
    "target_ratio p ar \<noteq> None \<Longrightarrow>
       \<exists>W H. canvas_ok W H \<and> map_of out ''width'' = Some (PInt W) \<and> map_of out ''height'' = Some (PInt H)"
proof (cases "target_ratio p ar")
  case None
  then have a: "ar = ''auto''" "tp_auto_aspect_ratio p = None" by (auto simp: target_ratio_def split: if_splits)
  have l: "map_of (target_entry b ar du) ''aspect_ratio'' = Some (PStr ar)" by (simp add: target_entry_def)
  have v: "validate_base_short_edge (PInt b) = Inr b" using b by (simp add: validate_base_short_edge_PInt)
  show ?thesis
    apply (rule that)
      apply (simp add: resolve_spatial_def dindex_def v a l[unfolded a] gs)
     apply (use None in \<open>simp_all add: dict_simps\<close>)
    done
next
  case (Some r)
  obtain shape' mode W H where R: "canvas_ok W H"
    "resolve_spatial shape (target_entry b ar du) (tp_auto_aspect_ratio p) (tp_auto_geometry_source p)
     = Inr (dupdate shape' (spatial_shape_dict b mode W H))"
    "\<And>k. k \<noteq> ''geometry_source'' \<Longrightarrow> map_of shape' k = map_of shape k"
    using resolve_spatial_explicit[OF Some target_ratio_ok[OF p ar Some] b] by metis
  show ?thesis using R
    by (intro that[OF R(2)]) (auto simp: dict_simps spatial_shape_dict_def)
qed

lemma resolve_shape_total:
  assumes p: "minimax_h3_task_profile t = Inr p" and ok: "target_ok p se ar du"
    and ar: "ratio_known ar" and se: "se \<le> 2 ^ 50"
  obtains shape where "resolve_shape (PDict (target_entry se ar du)) p = Inr shape"
    "\<And>n. requested_frame_count (target_entry se ar du) = Inr (Some n) \<Longrightarrow>
       map_of shape ''frame_count'' = Some (PInt (minimax_h3_align_frame_count n))"
    "target_ratio p ar \<noteq> None \<Longrightarrow>
       \<exists>W H. canvas_ok W H \<and> map_of shape ''width'' = Some (PInt W) \<and> map_of shape ''height'' = Some (PInt H)"
proof (cases du)
  case None
  have se1: "1 \<le> se" using ok by (simp add: target_ok_def)
  let ?sh = "[(''fps'', PInt MINIMAX_H3_SUPPORTED_FPS), (''temporal'', PStr ''deferred_from_audio_reference''),
              (''geometry_source'', PStr (tp_geometry_source p))]"
  have g: "map_of ?sh ''geometry_source'' = Some (PStr (tp_geometry_source p))" by simp
  obtain out where out:
    "resolve_spatial ?sh
       (target_entry se ar du) (tp_auto_aspect_ratio p) (tp_auto_geometry_source p) = Inr out"
    "target_ratio p ar \<noteq> None \<Longrightarrow>
       \<exists>W H. canvas_ok W H \<and> map_of out ''width'' = Some (PInt W) \<and> map_of out ''height'' = Some (PInt H)"
    using resolve_spatial_total[OF p ar se1 se g] by metis
  have "map_of (target_entry se ar du) ''duration_seconds'' = None" by (simp add: target_entry_def None)
  then show ?thesis using out None
    by (intro that[of out]) (auto simp: resolve_shape_def requested_frame_count_def)
next
  case (Some d)
  have se1: "1 \<le> se" using ok by (simp add: target_ok_def)
  obtain n ds vt alt where T: "requested_frame_count (target_entry se ar (Some d)) = Inr (Some n)"
    "temporal_fields d = Inr (minimax_h3_align_frame_count n, ds, vt, alt)"
    using temporal_fields_range[OF ok[unfolded Some]] by metis
  let ?sh = "[(''fps'', PInt MINIMAX_H3_SUPPORTED_FPS),
                (''frame_count'', PInt (minimax_h3_align_frame_count n)),
                (''video_latent_t'', PInt vt), (''audio_latent_t'', PInt alt),
                (''geometry_source'', PStr (tp_geometry_source p))]"
  have g: "map_of ?sh ''geometry_source'' = Some (PStr (tp_geometry_source p))"
    and f: "map_of ?sh ''frame_count'' = Some (PInt (minimax_h3_align_frame_count n))" by simp_all
  obtain out where out:
    "resolve_spatial ?sh
       (target_entry se ar du) (tp_auto_aspect_ratio p) (tp_auto_geometry_source p) = Inr out"
    "map_of out ''frame_count'' = Some (PInt (minimax_h3_align_frame_count n))"
    "target_ratio p ar \<noteq> None \<Longrightarrow>
       \<exists>W H. canvas_ok W H \<and> map_of out ''width'' = Some (PInt W) \<and> map_of out ''height'' = Some (PInt H)"
    using resolve_spatial_total[OF p ar se1 se g] f by metis
  have "map_of (target_entry se ar du) ''duration_seconds'' = Some (PFloat d)"
    by (simp add: target_entry_def Some)
  then show ?thesis using out T Some by (intro that[of out]) (auto simp: resolve_shape_def)
qed

text \<open>The keyframe check of the plan accepts what validation accepted.\<close>

lemma keyframe_conditions_of_map:
  "keyframe_conditions_of (PList (map PDict cs)) = filter (\<lambda>c. eq_str (dget c ''role'') ''keyframe'') cs"
  by (induction cs) (auto simp: keyframe_conditions_of_def)

lemma keyframe_rule_image:
  assumes "minimax_h3_task_profile t = Inr p" and "rule_for p ''keyframe'' ct = Inr rule"
  shows "ct = ''image''"
  using assms by (auto simp: rule_for_def profile_defs split: if_splits elim!: task_profile_cases)

lemma validated_keyframes_ok:
  assumes p: "minimax_h3_task_profile t = Inr p"
    and loop: "\<And>c. c \<in> set cs \<Longrightarrow> \<exists>cond i s s' al. validate_condition p al i cond s = Inr (c, s')"
    and sig: "validate_keyframe_conditions cs task = Inr ()"
  shows "keyframe_signature_ok (keyframe_conditions_of (PList (map PDict cs)))"
proof -
  let ?ks = "filter (\<lambda>c. eq_str (dget c ''role'') ''keyframe'') cs"
  have m: "matches_signature (map (\<lambda>c. dget c ''frame_index'') ?ks)"
    using sig by (auto simp: validate_keyframe_conditions_def Let_def res_simps)
  then have "?ks \<noteq> []"
    by (auto simp: matches_signature_def MINIMAX_H3_FL2VA_KEYFRAME_SIGNATURES_def)
  moreover have "eq_str (dget c ''type'') ''image''" if "c \<in> set ?ks" for c
  proof -
    have "c \<in> set cs" using that by simp
    then obtain ct uri role frame start rule where c: "c = condition_entry ct uri role frame start"
      "rule_for p role ct = Inr rule"
      using loop unfolding validate_condition_Inr by blast
    then show ?thesis using that keyframe_rule_image[OF p] by (auto simp: eq_str_PStr)
  qed
  ultimately show ?thesis using m by (auto simp: keyframe_signature_ok_def keyframe_conditions_of_map)
qed

lemma canonical_dict_keys:
  "set (map fst (canonical_dict t pr cs tg fs afs sd)) \<subseteq> set PLAN_ALLOWED_KEYS"
  "set PLAN_REQUIRED_KEYS \<subseteq> set (map fst (canonical_dict t pr cs tg fs afs sd))"
  by (cases fs; cases afs; cases sd;
      simp add: canonical_dict_def PLAN_ALLOWED_KEYS_def PLAN_REQUIRED_KEYS_def)+

lemma validate_conditions_not_required:
  "validate_conditions v p fc = Inr cs \<Longrightarrow> \<not> tp_conditions_required p \<Longrightarrow> cs = []"
  by (auto simp: validate_conditions_def res_simps)

lemma validate_conditions_loop:
  assumes "validate_conditions (PList (map PDict cs)) p fc = Inr cs" and "tp_conditions_required p"
  obtains seen where "rfold (validate_conditions_step p (map_option minimax_h3_align_frame_count fc))
     (enumerate 0 (map PDict cs)) ([], []) = Inr (cs, seen)"
  using assms by (auto simp: validate_conditions_def res_simps Let_def)

lemma opt_float_case: "opt_float (case v of None \<Rightarrow> PNone | Some x \<Rightarrow> PFloat x) = Inr v"
  by (cases v) (simp_all add: opt_float_def)

lemma request_plan_loop:
  assumes ok: "request_ok t p pr cs tg fc fs afs sd"
    and fcs: "\<And>n. fc = Some n \<Longrightarrow>
          map_of shape ''frame_count'' = Some (PInt (minimax_h3_align_frame_count n))"
  obtains st where "rfold (resolve_plan_step p shape) (enumerate 0 (map PDict cs)) plan_loop_init = Inr st"
    "plan_loop_inv (map_option minimax_h3_align_frame_count fc) st"
    "list_all2 material_matches (pl_materials st) cs" "map mi_condition_index (pl_materials st) = [0..<length cs]"
proof -
  let ?al = "map_option minimax_h3_align_frame_count fc"
  have init: "plan_loop_inv ?al plan_loop_init" "pl_seen plan_loop_init = []" "pl_materials plan_loop_init = []"
    by (simp_all add: plan_loop_inv_def plan_loop_init_def)
  have al: "map_of shape ''frame_count'' = Some (PInt a) \<and> 0 < a" if "?al = Some a" for a
    using that fcs align_frame_count_pos by auto
  have v: "validate_conditions (PList (map PDict cs)) p fc = Inr cs" using ok by (simp add: request_ok_def)
  show ?thesis
  proof (cases "tp_conditions_required p")
    case False
    then have "cs = []" using validate_conditions_not_required[OF v] by simp
    then show ?thesis using that[of plan_loop_init] init by simp
  next
    case True
    obtain seen where "rfold (validate_conditions_step p ?al) (enumerate 0 (map PDict cs))
        ([], pl_seen plan_loop_init) = Inr ([] @ cs, seen)"
      using validate_conditions_loop[OF v True] init by auto
    from plan_loop_simulates[OF this _ al init(1)] show ?thesis using that init by auto
  qed
qed

lemma request_keyframes_ok:
  assumes ok: "request_ok t p pr cs tg fc fs afs sd"
    and k: "tp_task p = ''fl2va'' \<or> keyframe_conditions_of (PList (map PDict cs)) \<noteq> []"
  shows "keyframe_signature_ok (keyframe_conditions_of (PList (map PDict cs)))"
proof -
  note [simp] = keyframe_conditions_of_map
  have p: "minimax_h3_task_profile t = Inr p" and v: "validate_conditions (PList (map PDict cs)) p fc = Inr cs"
    using ok by (simp_all add: request_ok_def)
  have "tp_task p \<noteq> ''t2va''"
  proof
    assume "tp_task p = ''t2va''"
    then have "p = profile_t2va" using p by (auto simp: profile_defs elim!: task_profile_cases)
    then have "cs = []" using validate_conditions_not_required[OF v] by (simp add: profile_defs)
    then show False using k \<open>tp_task p = ''t2va''\<close> by (simp add: keyframe_conditions_of_def)
  qed
  then have t: "tp_task p = ''fl2va'' \<or> tp_task p = ''ref2va''" and req: "tp_conditions_required p"
    using p by (auto simp: profile_defs elim!: task_profile_cases)
  have "validate_keyframe_conditions cs (tp_task p) = Inr ()"
    using ok t k by (auto simp: request_ok_def filter_empty_conv split: if_splits)
  moreover have "\<exists>cond i s s' al. validate_condition p al i cond s = Inr (c, s')" if "c \<in> set cs" for c
    using validate_conditions_entries[OF v req] that by (metis in_set_conv_nth)
  ultimately show ?thesis using validated_keyframes_ok[OF p] by blast
qed

lemma request_plan:
  assumes ok: "request_ok t p pr cs tg fc fs afs sd" and tg: "tg = target_entry se ar du"
    and tok: "target_ok p se ar du" and ar: "ratio_known ar" and se: "se \<le> 2 ^ 50"
  obtains plan where "minimax_h3_resolve_plan (PDict (canonical_dict t pr cs tg fs afs sd)) = Inr plan"
    "resolve_shape (PDict tg) p = Inr (rp_shape plan)" "rp_task plan = t" "rp_prompt plan = pr"
    "list_all2 material_matches (rp_materials plan) cs"
    "map mi_condition_index (rp_materials plan) = [0..<length cs]"
    "rp_flow_shift plan = fs" "rp_audio_flow_shift plan = afs"
    "\<And>sem pix. rp_condition_mask plan = Some (sem, pix) \<Longrightarrow> distinct pix \<and> length sem = length pix \<and>
       (\<forall>x \<in> set pix. \<exists>n. fc = Some n \<and> 0 \<le> x \<and> x < minimax_h3_align_frame_count n)"
proof -
  let ?c = "canonical_dict t pr cs tg fs afs sd"
  have p: "minimax_h3_task_profile t = Inr p" and fc: "requested_frame_count tg = Inr fc"
    using ok by (simp_all add: request_ok_def)
  obtain shape where S: "resolve_shape (PDict tg) p = Inr shape"
    "\<And>n. fc = Some n \<Longrightarrow> map_of shape ''frame_count'' = Some (PInt (minimax_h3_align_frame_count n))"
    using resolve_shape_total[OF p tok ar se] fc unfolding tg by (metis sum.inject(2))
  obtain st where L: "rfold (resolve_plan_step p shape) (enumerate 0 (map PDict cs)) plan_loop_init = Inr st"
    "plan_loop_inv (map_option minimax_h3_align_frame_count fc) st"
    "list_all2 material_matches (pl_materials st) cs" "map mi_condition_index (pl_materials st) = [0..<length cs]"
    by (rule request_plan_loop[OF ok S(2)])
  have "\<forall>c \<in> set cs. \<exists>r. map_of c ''role'' = Some r"
    using L(3) material_matches_role by (metis in_set_conv_nth list_all2_conv_all_nth)
  then obtain q where q: "rfold (qwen_step p) (enumerate 0 (map PDict cs)) [] = Inr q"
    using qwen_fold_total by blast
  have keys: "\<not> (\<exists>k \<in> set (map fst ?c). k \<notin> set PLAN_ALLOWED_KEYS)" "\<not> (\<exists>k \<in> set PLAN_REQUIRED_KEYS. \<not> dhas ?c k)"
    using canonical_dict_keys[of t pr cs tg fs afs sd] by (auto simp only: not_dhas_iff)
  have kf: "\<not> ((tp_task p = ''fl2va'' \<or> keyframe_conditions_of (PList (map PDict cs)) \<noteq> []) \<and>
       \<not> keyframe_signature_ok (keyframe_conditions_of (PList (map PDict cs))))"
    using request_keyframes_ok[OF ok] by blast
  show ?thesis
    apply (rule that)
            apply (simp only: minimax_h3_resolve_plan_def pyval.case keys raise_if_simps canonical_dict_fields
              py_str.simps p rbind.simps Let_def kf S(1) py_iter.simps L(1) q opt_float_case)
           apply (use S L in \<open>auto simp: plan_loop_inv_def task_profile_task[OF p] split: if_splits\<close>)
    done
qed

text \<open>The cache: a second call returns the same plan and leaves \<^verbatim>\<open>batch.extra\<close> as it is.\<close>

lemma plan_from_mapping_cached:
  "plan_from_mapping (dset MINIMAX_H3_RESOLVED_PLAN_EXTRA_KEY (EPlan plan) d) = Inr (Some plan)"
  by (simp add: plan_from_mapping_def extra_get_def dget_or_def dict_simps)

lemma plan_from_batch_idem:
  assumes "minimax_h3_plan_from_batch e = Inr (r, e')"
  shows "minimax_h3_plan_from_batch e' = Inr (r, e')"
proof (cases e)
  case (DictExtra d)
  then show ?thesis using assms
    by (auto simp: minimax_h3_plan_from_batch_def res_simps plan_from_mapping_cached extra_get_def
        dget_or_def dict_simps split: option.splits extra_val.splits)
qed (use assms in \<open>auto simp: minimax_h3_plan_from_batch_def res_simps\<close>)

end
