(* ===== verification/Tensor.thy ===== *)
theory Tensor
  imports H3_Prelude
begin

text \<open>
  Dense row-major tensors as PyTorch has them: a shape and the flat list of elements.
  \<open>reshape\<close> keeps the elements, \<open>permute\<close> (and a pure index-renaming \<^verbatim>\<open>einsum\<close>) moves the
  element at multi-index \<open>is\<close> to the multi-index read through the permutation.
\<close>

section \<open>Row-major indexing\<close>

record 'a tensor =
  t_shape :: "nat list"
  t_data :: "'a list"

definition numel :: "nat list \<Rightarrow> nat" where
  "numel shape = prod_list shape"

definition tensor_ok :: "'a tensor \<Rightarrow> bool" where
  "tensor_ok t = (length (t_data t) = numel (t_shape t))"

fun ravel :: "nat list \<Rightarrow> nat list \<Rightarrow> nat" where
  "ravel (d # ds) (i # is) = i * numel ds + ravel ds is"
| "ravel _ _ = 0"

fun unravel :: "nat list \<Rightarrow> nat \<Rightarrow> nat list" where
  "unravel [] k = []"
| "unravel (d # ds) k = (k div numel ds) # unravel ds (k mod numel ds)"

text \<open>A multi-index within its shape.\<close>

definition in_shape :: "nat list \<Rightarrow> nat list \<Rightarrow> bool" where
  "in_shape shape is = list_all2 (<) is shape"

lemma numel_simps [simp]: "numel [] = 1" "numel (d # ds) = d * numel ds"
  by (simp_all add: numel_def)

lemma in_shape_simps [simp]:
  "in_shape [] is \<longleftrightarrow> is = []" "in_shape (d # ds) is \<longleftrightarrow> (\<exists>j js. is = j # js \<and> j < d \<and> in_shape ds js)"
  by (auto simp: in_shape_def list_all2_Cons2)

lemma in_shape_length: "in_shape shape is \<Longrightarrow> length is = length shape"
  by (simp add: in_shape_def list_all2_lengthD)

lemma ravel_less: "in_shape shape is \<Longrightarrow> ravel shape is < numel shape"
proof (induction shape arbitrary: "is")
  case (Cons d ds)
  then obtain j js where js: "is = j # js" "j < d" "in_shape ds js" by auto
  then have "ravel ds js < numel ds" using Cons.IH by blast
  then have "j * numel ds + ravel ds js < (j + 1) * numel ds" by simp
  also have "\<dots> \<le> d * numel ds" using js(2) by (intro mult_right_mono) auto
  finally show ?case using js by simp
qed simp

lemma unravel_ravel: "in_shape shape is \<Longrightarrow> unravel shape (ravel shape is) = is"
proof (induction shape arbitrary: "is")
  case (Cons d ds)
  then obtain j js where js: "is = j # js" "in_shape ds js" by auto
  then have "ravel ds js < numel ds" using ravel_less by blast
  then show ?case using js Cons.IH by simp
qed simp

lemma unravel_in_shape: "k < numel shape \<Longrightarrow> in_shape shape (unravel shape k)"
proof (induction shape arbitrary: k)
  case (Cons d ds)
  then have "0 < numel ds" by (auto intro: gr0I)
  then show ?case using Cons by (auto simp: less_mult_imp_div_less)
qed simp

lemma ravel_unravel: "k < numel shape \<Longrightarrow> ravel shape (unravel shape k) = k"
proof (induction shape arbitrary: k)
  case (Cons d ds)
  then have "0 < numel ds" by (auto intro: gr0I)
  then show ?case using Cons by simp
qed simp

section \<open>Permuting axes\<close>

definition gather :: "nat list \<Rightarrow> 'a list \<Rightarrow> 'a list" where
  "gather p xs = map ((!) xs) p"

fun pos_in :: "nat \<Rightarrow> nat list \<Rightarrow> nat" where
  "pos_in a [] = 0"
| "pos_in a (x # xs) = (if x = a then 0 else Suc (pos_in a xs))"

definition inv_perm :: "nat list \<Rightarrow> nat list" where
  "inv_perm p = map (\<lambda>a. pos_in a p) [0..<length p]"

definition is_perm :: "nat list \<Rightarrow> bool" where
  "is_perm p = (distinct p \<and> set p = {0..<length p})"

text \<open>\<^verbatim>\<open>t.permute(p)\<close>: axis \<open>d\<close> of the result is axis \<open>p ! d\<close> of \<open>t\<close>.\<close>

definition permute :: "nat list \<Rightarrow> 'a tensor \<Rightarrow> 'a tensor" where
  "permute p t = (let shape' = gather p (t_shape t) in
     \<lparr>t_shape = shape',
      t_data = map (\<lambda>k. t_data t ! ravel (t_shape t) (gather (inv_perm p) (unravel shape' k)))
                 [0..<length (t_data t)]\<rparr>)"

text \<open>\<^verbatim>\<open>t.reshape(shape)\<close>: the element counts must agree.\<close>

definition reshape :: "nat list \<Rightarrow> 'a tensor \<Rightarrow> 'a tensor res" where
  "reshape shape t = raise_if (numel shape \<noteq> length (t_data t)) (RuntimeError ''shape is invalid for input'')
     (Inr (t\<lparr>t_shape := shape\<rparr>))"

lemma pos_in_nth: "distinct p \<Longrightarrow> i < length p \<Longrightarrow> pos_in (p ! i) p = i"
  by (induction p arbitrary: i) (auto simp: nth_Cons split: nat.splits)

lemma nth_pos_in: "a \<in> set p \<Longrightarrow> p ! pos_in a p = a \<and> pos_in a p < length p"
  by (induction p) auto

lemma inv_perm_length [simp]: "length (inv_perm p) = length p"
  by (simp add: inv_perm_def)

lemma inv_perm_nth: "i < length p \<Longrightarrow> inv_perm p ! i = pos_in i p"
  by (simp add: inv_perm_def)

lemma is_perm_nth: "is_perm p \<Longrightarrow> i < length p \<Longrightarrow> p ! i < length p"
  using nth_mem[of i p] unfolding is_perm_def by simp

lemma is_perm_mem: "is_perm p \<Longrightarrow> i < length p \<Longrightarrow> i \<in> set p"
  by (simp add: is_perm_def)

lemma is_perm_inv: assumes "is_perm p" shows "is_perm (inv_perm p)"
proof -
  have inj: "inj_on (\<lambda>a. pos_in a p) {0..<length p}"
    using nth_pos_in is_perm_mem[OF assms] by (intro inj_onI) (metis atLeastLessThan_iff)
  then have d: "distinct (inv_perm p)" by (simp add: inv_perm_def distinct_map)
  have "set (inv_perm p) \<subseteq> {0..<length p}"
    using nth_pos_in is_perm_mem[OF assms] by (auto simp: inv_perm_def)
  moreover have "card (set (inv_perm p)) = card {0..<length p}" using d by (simp add: distinct_card)
  ultimately show ?thesis using d by (simp add: is_perm_def card_subset_eq)
qed

lemma inv_perm_inv: assumes "is_perm p" shows "inv_perm (inv_perm p) = p"
proof (rule nth_equalityI)
  fix i assume "i < length (inv_perm (inv_perm p))"
  then have i: "i < length p" by simp
  have pi: "p ! i < length p" using is_perm_nth[OF assms i] .
  have "inv_perm p ! (p ! i) = i"
    using pi assms i by (simp add: inv_perm_nth pos_in_nth is_perm_def)
  then have "pos_in i (inv_perm p) = p ! i"
    using pos_in_nth[of "inv_perm p" "p ! i"] is_perm_inv[OF assms] pi by (simp add: is_perm_def)
  then show "inv_perm (inv_perm p) ! i = p ! i" using i by (simp add: inv_perm_nth)
qed simp

lemma gather_inv:
  assumes "is_perm p" and "length xs = length p"
  shows "gather (inv_perm p) (gather p xs) = xs"
proof (rule nth_equalityI)
  fix i assume "i < length (gather (inv_perm p) (gather p xs))"
  then have i: "i < length p" by (simp add: gather_def)
  then show "gather (inv_perm p) (gather p xs) ! i = xs ! i"
    using nth_pos_in[OF is_perm_mem[OF assms(1) i]] by (simp add: gather_def inv_perm_nth)
qed (simp add: gather_def assms(2))

lemma gather_inv':
  "is_perm p \<Longrightarrow> length xs = length p \<Longrightarrow> gather p (gather (inv_perm p) xs) = xs"
  using gather_inv[of "inv_perm p" xs] is_perm_inv[of p] inv_perm_inv[of p] by simp

lemma numel_gather:
  assumes "is_perm p" and "length shape = length p"
  shows "numel (gather p shape) = numel shape"
proof -
  have "mset p = mset [0..<length p]"
    using assms(1) mset_set_set[of p] by (simp add: is_perm_def)
  then have "mset (map ((!) shape) p) = mset (map ((!) shape) [0..<length p])" by (metis mset_map)
  also have "map ((!) shape) [0..<length p] = shape" using assms(2) by (metis map_nth)
  finally show ?thesis unfolding numel_def gather_def by (metis prod_mset_prod_list)
qed

lemma in_shape_gather:
  "(\<And>i. i \<in> set p \<Longrightarrow> i < length shape) \<Longrightarrow> in_shape shape is \<Longrightarrow> in_shape (gather p shape) (gather p is)"
  by (auto simp: in_shape_def list_all2_conv_all_nth gather_def)

lemma permute_nth:
  "k < length (t_data t) \<Longrightarrow> t_data (permute p t) ! k =
     t_data t ! ravel (t_shape t) (gather (inv_perm p) (unravel (gather p (t_shape t)) k))"
  by (simp add: permute_def Let_def)

lemma permute_ok:
  assumes "is_perm p" and "length (t_shape t) = length p" and "tensor_ok t"
  shows "tensor_ok (permute p t)" and "length (t_shape (permute p t)) = length p"
  using assms by (simp add: tensor_ok_def permute_def Let_def numel_gather,
      simp add: permute_def Let_def gather_def)

text \<open>Permuting back gives the tensor back.\<close>

lemma permute_inverse:
  assumes p: "is_perm p" and len: "length (t_shape t) = length p" and ok: "tensor_ok (t :: 'a tensor)"
  shows "permute (inv_perm p) (permute p t) = t"
proof -
  let ?s = "t_shape t" and ?s' = "gather p (t_shape t)"
  have s'': "gather (inv_perm p) ?s' = ?s" by (rule gather_inv[OF p len])
  have n: "numel ?s' = numel ?s" by (rule numel_gather[OF p len])
  have lp: "\<And>i. i \<in> set p \<Longrightarrow> i < length ?s" using p len by (auto simp: is_perm_def)
  have "t_data (permute (inv_perm p) (permute p t)) ! k = t_data t ! k" if k: "k < length (t_data t)" for k
  proof -
    let ?is = "unravel ?s k"
    have k': "k < numel ?s" using k ok by (simp add: tensor_ok_def)
    have sh: "in_shape ?s ?is" by (rule unravel_in_shape[OF k'])
    have g: "in_shape ?s' (gather p ?is)" by (rule in_shape_gather[OF lp sh])
    let ?m = "ravel ?s' (gather p ?is)"
    have m: "?m < length (t_data t)" using ravel_less[OF g] n ok by (simp add: tensor_ok_def)
    have "t_data (permute (inv_perm p) (permute p t)) ! k = t_data (permute p t) ! ?m"
      using k by (simp add: permute_def Let_def s'' inv_perm_inv[OF p])
    also have "\<dots> = t_data t ! ravel ?s (gather (inv_perm p) (unravel ?s' ?m))"
      using m by (simp add: permute_def Let_def)
    also have "gather (inv_perm p) (unravel ?s' ?m) = ?is"
      unfolding unravel_ravel[OF g] using in_shape_length[OF sh] len by (intro gather_inv[OF p]) simp
    also have "ravel ?s ?is = k" by (rule ravel_unravel[OF k'])
    finally show ?thesis .
  qed
  then have "t_data (permute (inv_perm p) (permute p t)) = t_data t"
    by (intro nth_equalityI) (simp_all add: permute_def Let_def)
  moreover have "t_shape (permute (inv_perm p) (permute p t)) = ?s"
    by (simp add: permute_def Let_def s'')
  ultimately show ?thesis by simp
qed

lemma reshape_Inr [res_simps]:
  "reshape shape t = Inr t' \<longleftrightarrow> numel shape = length (t_data t) \<and> t' = t\<lparr>t_shape := shape\<rparr>"
  by (auto simp: reshape_def res_simps)

end
