(* ===== verification/Packed_Sequence.thy ===== *)
theory Packed_Sequence
  imports Task_Profiles Tensor
begin

text \<open>
  \<^verbatim>\<open>minimax_h3/packed_sequence.py\<close>: the packed token layout of one branch, for text-to-video and
  keyframe requests (\<^verbatim>\<open>minimax_h3_packed_sequence\<close>) and for reference requests
  (\<^verbatim>\<open>minimax_h3_packed_sequence_ref2va_blocks\<close>). Row counts and positions are natural numbers (the
  callers pass lengths of tensors and latent sizes); coordinates are binary64. The numeric kernels
  of NumPy and PyTorch whose summation order is their own (\<^verbatim>\<open>linspace\<close>, \<^verbatim>\<open>sum\<close>, \<^verbatim>\<open>cumsum\<close>) are
  the parameter \<open>nk\<close>. Python's \<^verbatim>\<open>sum\<close> adds from the left.
\<close>

section \<open>Constants and kernels\<close>

record num_kernels =
  nk_linspace :: "pyfloat \<Rightarrow> pyfloat \<Rightarrow> nat \<Rightarrow> pyfloat list"
  nk_sum :: "pyfloat list \<Rightarrow> pyfloat"
  nk_cumsum :: "pyfloat list \<Rightarrow> pyfloat list"

definition MINIMAX_H3_PACKED_SEQUENCE_ALIGNMENT :: nat where
  "MINIMAX_H3_PACKED_SEQUENCE_ALIGNMENT = 64"

definition INTERP :: pyfloat where
  "INTERP = Fin 32"

definition T_GROUP :: nat where
  "T_GROUP = 5"

definition FRAME_PER_TOKEN :: "rat list" where
  "FRAME_PER_TOKEN = [1, 4, 4, 4, 4]"

definition FRAME_RESCALE :: pyfloat where
  "FRAME_RESCALE = fl (5 / 3)"

definition PATCH_H :: nat where
  "PATCH_H = 2"

definition PATCH_W :: nat where
  "PATCH_W = 2"

definition float_of_nat :: "nat \<Rightarrow> pyfloat" where
  "float_of_nat n = fl (of_nat n)"

section \<open>Keyframe indices\<close>

definition keyframe_cond_frame_indices :: "bool \<Rightarrow> pyval list option \<Rightarrow> int list res" where
  "keyframe_cond_frame_indices include_keyframe_cond kfi =
     (if \<not> include_keyframe_cond
      then raise_if (kfi \<noteq> None)
        (ValueError ''keyframe_frame_indices must be omitted when keyframe cond is not included'') (Inr [])
      else case kfi of
        None \<Rightarrow> Inl (ValueError ''strict fl2va packed layout requires keyframe_frame_indices'')
      | Some vs \<Rightarrow>
          raise_if (\<exists>v \<in> set vs. \<not> is_int v)
            (ValueError ''strict fl2va packed layout requires integer keyframe_frame_indices'')
          (let ks = [n. PInt n \<leftarrow> vs] in
           raise_if (ks \<notin> set MINIMAX_H3_FL2VA_KEYFRAME_SIGNATURES)
             (ValueError ''strict fl2va packed layout requires keyframe_frame_indices in signatures'')
             (Inr ks)))"

definition resolve_keyframe_step ::
  "int \<Rightarrow> nat \<times> int \<Rightarrow> int list \<times> (int \<times> nat) list \<Rightarrow> (int list \<times> (int \<times> nat) list) res" where
  "resolve_keyframe_step frame_count bi st = (case (bi, st) of ((block_index, semantic), (resolved, seen)) \<Rightarrow>
     rbind (if semantic = -1 then Inr (frame_count - 1)
            else if 0 \<le> semantic \<and> semantic < frame_count then Inr semantic
            else Inl (ValueError ''keyframe frame index must be -1 or in range'')) (\<lambda>r.
     raise_if (dhas seen r) (ValueError ''keyframe frame index already bound'')
       (Inr (resolved @ [r], dset r block_index seen))))"

definition resolve_keyframe_frame_indices :: "int list \<Rightarrow> int option \<Rightarrow> int list res" where
  "resolve_keyframe_frame_indices frame_indices frame_count = (case frame_count of
      None \<Rightarrow> raise_if (frame_indices \<noteq> [])
        (ValueError ''frame_count is required when keyframe_frame_indices are provided'') (Inr [])
    | Some fc \<Rightarrow> raise_if (fc \<le> 0) (ValueError ''frame_count must be positive'')
        (rbind (rfold (resolve_keyframe_step fc) (enumerate 0 frame_indices) ([], [])) (\<lambda>(resolved, _).
         Inr resolved)))"

section \<open>Coordinate grids\<close>

definition temporal_position_span :: "num_kernels \<Rightarrow> nat \<Rightarrow> pyfloat" where
  "temporal_position_span nk temporal_length =
     nk_sum nk (map (\<lambda>k. fmul (fmul (Fin 1) FRAME_RESCALE) (Fin (FRAME_PER_TOKEN ! (k mod T_GROUP))))
       [0..<temporal_length])"

definition token_span :: "nat \<Rightarrow> pyfloat" where
  "token_span k = fmul FRAME_RESCALE (Fin (FRAME_PER_TOKEN ! (k mod T_GROUP)))"

text \<open>NumPy division: no exception for a zero divisor.\<close>

definition np_div :: "pyfloat \<Rightarrow> pyfloat \<Rightarrow> pyfloat" where
  "np_div a b = (case fdiv a b of Inr q \<Rightarrow> q | Inl _ \<Rightarrow> (if flt (Fin 0) a then PInf else if flt a (Fin 0) then MInf else NaN))"

definition np_sqrt :: "pyfloat \<Rightarrow> pyfloat" where
  "np_sqrt a = (case fsqrt a of Inr q \<Rightarrow> q | Inl _ \<Rightarrow> NaN)"

definition axis_from_sqrt_area :: "num_kernels \<Rightarrow> nat \<Rightarrow> nat \<Rightarrow> pyfloat \<Rightarrow> pyfloat list" where
  "axis_from_sqrt_area nk len patch sqrt_area =
     (let ratio = np_div (float_of_nat len) sqrt_area;
          left = np_div (fmul (fsub (Fin 1) ratio) (Fin 1)) (Fin 2);
          right = fadd left (fmul ratio (Fin 1))
      in map (\<lambda>x. fmul x INTERP) (nk_linspace nk left right (len div patch)))"

definition video_t_grid :: "num_kernels \<Rightarrow> nat \<Rightarrow> pyfloat \<Rightarrow> pyfloat list" where
  "video_t_grid nk n origin =
     map (fadd origin) (Fin 0 # nk_cumsum nk (butlast (map token_span [0..<n])))"

definition video_t_span :: "nat \<Rightarrow> pyfloat" where
  "video_t_span n = foldl fadd (Fin 0) (map token_span [0..<n])"

type_synonym row3 = "pyfloat \<times> pyfloat \<times> pyfloat"

text \<open>The flattened \<^verbatim>\<open>meshgrid(h_grid, w_grid, indexing="ij")\<close> of one latent size.\<close>

definition frame_grid :: "num_kernels \<Rightarrow> nat \<Rightarrow> nat \<Rightarrow> (pyfloat \<times> pyfloat) list" where
  "frame_grid nk lh lw = (let area = np_sqrt (float_of_nat (lh * lw)) in
     List.product (axis_from_sqrt_area nk lh PATCH_H area) (axis_from_sqrt_area nk lw PATCH_W area))"

definition w_grid_of :: "num_kernels \<Rightarrow> nat \<Rightarrow> nat \<Rightarrow> pyfloat list" where
  "w_grid_of nk lh lw = axis_from_sqrt_area nk lw PATCH_W (np_sqrt (float_of_nat (lh * lw)))"

definition still_rows :: "pyfloat \<Rightarrow> (pyfloat \<times> pyfloat) list \<Rightarrow> row3 list" where
  "still_rows t frame = map (\<lambda>(h, w). (t, h, w)) frame"

definition clip_rows :: "nat \<Rightarrow> pyfloat list \<Rightarrow> (pyfloat \<times> pyfloat) list \<Rightarrow> row3 list" where
  "clip_rows n t_grid frame = concat (map (\<lambda>t. still_rows t frame) (take n t_grid))"

text \<open>Channel-major audio rows: the first channel sits at the left end of the width axis, every
  other channel at the right end. There is at least one channel (every caller passes two).\<close>

definition audio_grid_rows :: "pyfloat \<Rightarrow> nat \<Rightarrow> nat \<Rightarrow> pyfloat \<Rightarrow> pyfloat \<Rightarrow> row3 list" where
  "audio_grid_rows origin n channels w0 w1 =
     map (\<lambda>r. (fadd origin (float_of_nat (r mod n)), Fin 0, if r < n then w0 else w1)) [0..<n * channels]"

text \<open>\<^verbatim>\<open>g[start : start + len(rows)] = rows\<close>, \<^verbatim>\<open>tags[start : stop] = v\<close> and \<^verbatim>\<open>tags[positions] = v\<close>.\<close>

definition write_rows :: "nat \<Rightarrow> 'a list \<Rightarrow> 'a list \<Rightarrow> 'a list" where
  "write_rows start rows g = take start g @ rows @ drop (start + length rows) g"

definition scatter :: "nat list \<Rightarrow> 'a \<Rightarrow> 'a list \<Rightarrow> 'a list" where
  "scatter positions v tags = fold (\<lambda>p t. t[p := v]) positions tags"

definition zero_row :: row3 where
  "zero_row = (Fin 0, Fin 0, Fin 0)"

definition text_rows :: "nat \<Rightarrow> row3 list" where
  "text_rows n = map (\<lambda>i. (float_of_nat i, Fin 0, Fin 0)) [0..<n]"

text \<open>\<^verbatim>\<open>float(w_grid[0])\<close> and \<^verbatim>\<open>float(w_grid[-1])\<close>.\<close>

definition w_ends :: "pyfloat list \<Rightarrow> (pyfloat \<times> pyfloat) res" where
  "w_ends w_grid = raise_if (w_grid = []) IndexError (Inr (hd w_grid, last w_grid))"

section \<open>The packed layout\<close>

record stream_layout =
  sl_target_shape :: "nat \<times> nat \<times> nat"
  sl_cond_image_shapes :: "(nat \<times> nat \<times> nat) list"
  sl_cond_image_roles :: "string list"
  sl_cond_event_orders :: "(string \<times> nat) list"
  sl_cond_audio_stream_lens :: "nat list"

record packed =
  pk_seq_len :: nat
  pk_img_pos :: "nat list"
  pk_audio_pos :: "nat list"
  pk_text_pos :: "nat list"
  pk_update_mask :: "bool list"
  pk_audio_update_mask :: "bool list option"
  pk_position_ids :: "row3 list"
  pk_token_tags :: "int list"
  pk_cu_seqlens :: "nat list"
  pk_stream_layout :: stream_layout
  pk_video_pos :: "nat list option"

text \<open>The keyframe rows: the first frame anchors at the origin, the last frame at the end of the
  clip.\<close>

definition keyframe_anchor :: "num_kernels \<Rightarrow> nat \<Rightarrow> pyfloat \<Rightarrow> int option \<Rightarrow> int \<Rightarrow> pyfloat res" where
  "keyframe_anchor nk latent_t origin frame_count pixel_index =
     (if pixel_index = 0 then Inr origin
      else if frame_count = Some (pixel_index + 1)
      then Inr (fsub (fadd origin (temporal_position_span nk latent_t)) FRAME_RESCALE)
      else Inl (ValueError ''packed layout only supports first/last keyframe anchors''))"

definition write_keyframes ::
  "num_kernels \<Rightarrow> nat \<Rightarrow> pyfloat \<Rightarrow> int option \<Rightarrow> nat \<Rightarrow> nat \<Rightarrow> (pyfloat \<times> pyfloat) list \<Rightarrow> int list \<Rightarrow> row3 list \<Rightarrow> row3 list res" where
  "write_keyframes nk latent_t origin frame_count start frame_rows frame resolved g =
     rfold (\<lambda>(block_index, pixel_index) g.
        rbind (keyframe_anchor nk latent_t origin frame_count pixel_index) (\<lambda>t.
        Inr (write_rows (start + block_index * frame_rows) (still_rows t frame) g)))
       (enumerate 0 resolved) g"

text \<open>\<^verbatim>\<open>torch.tensor([0, used, seq_len], dtype=torch.int32)\<close>.\<close>

definition cu_seqlens_of :: "nat \<Rightarrow> nat \<Rightarrow> nat list res" where
  "cu_seqlens_of used seq_len = raise_if (int seq_len > 2147483647 \<or> int used > 2147483647)
     (RuntimeError ''value cannot be converted to type int32 without overflow'') (Inr [0, used, seq_len])"

definition token_tags_of :: "nat \<Rightarrow> nat \<Rightarrow> nat list \<Rightarrow> nat list \<Rightarrow> int list" where
  "token_tags_of seq_len text_len audio_pos img_pos =
     scatter img_pos 0 (scatter audio_pos 2 (write_rows 0 (replicate text_len 1) (replicate seq_len (-1))))"

definition minimax_h3_packed_sequence ::
  "num_kernels \<Rightarrow> nat \<Rightarrow> nat \<Rightarrow> nat \<Rightarrow> nat \<Rightarrow> nat \<Rightarrow> nat \<Rightarrow> bool \<Rightarrow> pyval list option \<Rightarrow> int option \<Rightarrow> bool \<Rightarrow> packed res" where
  "minimax_h3_packed_sequence nk text_len latent_t latent_h latent_w audio_t audio_channel
      include_keyframe_cond keyframe_frame_indices frame_count include_video_pos =
     (let ph = latent_h div PATCH_H; pw = latent_w div PATCH_W; frame_rows = ph * pw in
      rbind (keyframe_cond_frame_indices include_keyframe_cond keyframe_frame_indices) (\<lambda>cond_frame_indices.
      rbind (resolve_keyframe_frame_indices cond_frame_indices frame_count) (\<lambda>resolved.
      let cond_rows = length cond_frame_indices * frame_rows;
          video_rows = latent_t * frame_rows;
          audio_rows = audio_t * audio_channel;
          used = text_len + cond_rows + audio_rows + video_rows;
          seq_len = ceil_mult MINIMAX_H3_PACKED_SEQUENCE_ALIGNMENT used;
          cond_stop = text_len + cond_rows;
          audio_stop = cond_stop + audio_rows;
          target_img_pos = [audio_stop..<audio_stop + video_rows];
          img_pos = (if cond_rows \<noteq> 0 then [text_len..<cond_stop] @ target_img_pos else target_img_pos);
          update_mask = replicate cond_rows False @ replicate (length img_pos - cond_rows) True;
          audio_pos = [cond_stop..<audio_stop];
          frame = frame_grid nk latent_h latent_w;
          origin = float_of_nat text_len;
          g = write_rows audio_stop (clip_rows latent_t (video_t_grid nk latent_t origin) frame)
                (write_rows 0 (text_rows text_len) (replicate seq_len zero_row))
      in rbind (write_keyframes nk latent_t origin frame_count text_len frame_rows frame resolved g) (\<lambda>g.
         rbind (w_ends (w_grid_of nk latent_h latent_w)) (\<lambda>(w0, w1).
         let g = write_rows cond_stop (audio_grid_rows origin audio_t audio_channel w0 w1) g in
         rbind (cu_seqlens_of used seq_len) (\<lambda>cu.
         Inr \<lparr>pk_seq_len = seq_len, pk_img_pos = img_pos, pk_audio_pos = audio_pos,
              pk_text_pos = [0..<text_len], pk_update_mask = update_mask, pk_audio_update_mask = None,
              pk_position_ids = g, pk_token_tags = token_tags_of seq_len text_len audio_pos img_pos,
              pk_cu_seqlens = cu,
              pk_stream_layout = \<lparr>sl_target_shape = (latent_t, ph, pw),
                sl_cond_image_shapes = map (\<lambda>_. (1, ph, pw)) resolved,
                sl_cond_image_roles = map (\<lambda>_. ''joint_cube'') resolved,
                sl_cond_event_orders = map (\<lambda>i. (''imgvid'', i)) [0..<length resolved],
                sl_cond_audio_stream_lens = []\<rparr>,
              pk_video_pos = (if include_video_pos then Some target_img_pos else None)\<rparr>))))))"

section \<open>Reference blocks\<close>

text \<open>A parsed block with its row counts.\<close>

datatype ref_item =
    RefImage nat nat nat
  | RefAudio nat nat
  | RefVideo string nat nat nat nat nat nat nat

text \<open>\<open>RefImage latent_h latent_w rows\<close>, \<open>RefAudio ref_audio_t audio_rows\<close> and
  \<open>RefVideo kind ref_audio_t latent_t latent_h latent_w frame_rows audio_rows video_rows\<close>.\<close>

definition positive_int :: "pydict \<Rightarrow> string \<Rightarrow> bool \<Rightarrow> nat res" where
  "positive_int block key allow_zero = (case dget block key of
      PInt n \<Rightarrow> raise_if (n < 0 \<or> (n = 0 \<and> \<not> allow_zero)) (ValueError (key @ '' must be positive'')) (Inr (nat n))
    | _ \<Rightarrow> Inl (ValueError (key @ '' must be an integer'')))"

definition parse_ref_block :: "nat \<Rightarrow> pyval \<Rightarrow> ref_item res" where
  "parse_ref_block audio_channel raw = (case raw of
      PDict d \<Rightarrow> (case dget_or d ''kind'' (dget d ''type'') of
          PStr kind \<Rightarrow>
            raise_if (kind = []) (ValueError ''ref_blocks.kind must be a non-empty string'')
            (if kind = ''image'' then
               rbind (positive_int d ''latent_h'' False) (\<lambda>rh.
               rbind (positive_int d ''latent_w'' False) (\<lambda>rw.
               Inr (RefImage rh rw ((rh div PATCH_H) * (rw div PATCH_W)))))
             else if kind = ''audio'' then
               rbind (positive_int d ''ref_audio_t'' True) (\<lambda>rt.
               Inr (RefAudio rt (rt * audio_channel)))
             else if kind = ''video'' \<or> kind = ''video_audio'' then
               rbind (positive_int d ''ref_audio_t'' True) (\<lambda>rt.
               rbind (positive_int d ''latent_t'' False) (\<lambda>vt.
               rbind (positive_int d ''latent_h'' False) (\<lambda>vh.
               rbind (positive_int d ''latent_w'' False) (\<lambda>vw.
               let frame_rows = (vh div PATCH_H) * (vw div PATCH_W) in
               Inr (RefVideo kind rt vt vh vw frame_rows (rt * audio_channel) (vt * frame_rows))))))
             else Inl (ValueError ''ref_blocks.kind unsupported for ref2va''))
        | _ \<Rightarrow> Inl (ValueError ''ref_blocks.kind must be a non-empty string''))
    | _ \<Rightarrow> Inl (ValueError ''ref_blocks entry must be an object''))"

definition parse_ref_blocks :: "nat \<Rightarrow> pyval \<Rightarrow> ref_item list res" where
  "parse_ref_blocks audio_channel ref_blocks = (case ref_blocks of
      PList l \<Rightarrow> rmap (parse_ref_block audio_channel) l
    | _ \<Rightarrow> Inl (ValueError ''ref_blocks must be a sequence''))"

fun item_visual_rows :: "ref_item \<Rightarrow> nat" where
  "item_visual_rows (RefImage _ _ rows) = rows"
| "item_visual_rows (RefAudio _ _) = 0"
| "item_visual_rows (RefVideo _ _ _ _ _ _ _ video_rows) = video_rows"

fun item_audio_rows :: "ref_item \<Rightarrow> nat" where
  "item_audio_rows (RefImage _ _ _) = 0"
| "item_audio_rows (RefAudio _ rows) = rows"
| "item_audio_rows (RefVideo _ _ _ _ _ _ audio_rows _) = audio_rows"

text \<open>An item with the start of its audio rows and of its visual rows: audio comes first.\<close>

type_synonym placed = "ref_item \<times> nat \<times> nat"

fun place_blocks :: "ref_item list \<Rightarrow> nat \<Rightarrow> placed list \<times> nat" where
  "place_blocks [] cursor = ([], cursor)"
| "place_blocks (item # items) cursor =
     (let visual_start = cursor + item_audio_rows item;
          (rest, stop) = place_blocks items (visual_start + item_visual_rows item)
      in ((item, cursor, visual_start) # rest, stop))"

definition audio_range :: "placed \<Rightarrow> nat list" where
  "audio_range b = (case b of (item, a, _) \<Rightarrow> [a..<a + item_audio_rows item])"

definition visual_range :: "placed \<Rightarrow> nat list" where
  "visual_range b = (case b of (item, _, v) \<Rightarrow> [v..<v + item_visual_rows item])"

text \<open>The position parts an item contributes; an item without audio (or visual) rows of its kind
  contributes none.\<close>

fun has_audio :: "ref_item \<Rightarrow> bool" where
  "has_audio (RefImage _ _ _) = False"
| "has_audio _ = True"

fun has_visual :: "ref_item \<Rightarrow> bool" where
  "has_visual (RefAudio _ _) = False"
| "has_visual _ = True"

fun is_video :: "ref_item \<Rightarrow> bool" where
  "is_video (RefVideo _ _ _ _ _ _ _ _) = True"
| "is_video _ = False"

text \<open>Writing one block's coordinates; \<open>wt\<close> is the width axis of the target.\<close>

definition py_max :: "pyfloat \<Rightarrow> pyfloat \<Rightarrow> pyfloat" where
  "py_max a b = (if flt a b then b else a)"

definition write_ref_audio :: "nat \<Rightarrow> nat \<Rightarrow> nat \<Rightarrow> pyfloat list \<Rightarrow> pyfloat \<Rightarrow> row3 list \<Rightarrow> row3 list res" where
  "write_ref_audio channels start ref_t w_grid t_cursor g =
     (if ref_t = 0 then Inr g
      else rbind (w_ends w_grid) (\<lambda>(w0, w1).
        Inr (write_rows start (audio_grid_rows t_cursor ref_t channels w0 w1) g)))"

fun write_block ::
  "num_kernels \<Rightarrow> nat \<Rightarrow> pyfloat list \<Rightarrow> placed \<Rightarrow> row3 list \<times> pyfloat \<Rightarrow> (row3 list \<times> pyfloat) res" where
  "write_block nk channels wt (RefImage rh rw rows, a, v) (g, t_cursor) =
     Inr (write_rows v (still_rows t_cursor (frame_grid nk rh rw)) g, fadd t_cursor (Fin 1))"
| "write_block nk channels wt (RefAudio ref_t rows, a, v) (g, t_cursor) =
     rbind (write_ref_audio channels a ref_t wt t_cursor g) (\<lambda>g.
     Inr (g, fadd t_cursor (float_of_nat ref_t)))"
| "write_block nk channels wt (RefVideo kind ref_t vt vh vw frame_rows audio_rows video_rows, a, v) (g, t_cursor) =
     rbind (write_ref_audio channels a ref_t (w_grid_of nk vh vw) t_cursor g) (\<lambda>g.
     Inr (write_rows v (clip_rows vt (video_t_grid nk vt t_cursor) (frame_grid nk vh vw)) g,
          fadd t_cursor (py_max (float_of_nat ref_t) (video_t_span vt))))"

text \<open>The stream layout of the blocks, in block order.\<close>

fun layout_step :: "ref_item \<Rightarrow> stream_layout \<Rightarrow> stream_layout" where
  "layout_step (RefImage rh rw rows) l =
     l\<lparr>sl_cond_event_orders := sl_cond_event_orders l @ [(''imgvid'', length (sl_cond_image_shapes l))],
       sl_cond_image_shapes := sl_cond_image_shapes l @ [(1, rh div PATCH_H, rw div PATCH_W)],
       sl_cond_image_roles := sl_cond_image_roles l @ [''dense_prefix'']\<rparr>"
| "layout_step (RefAudio ref_t rows) l =
     l\<lparr>sl_cond_event_orders := sl_cond_event_orders l @ [(''audio'', length (sl_cond_audio_stream_lens l))],
       sl_cond_audio_stream_lens := sl_cond_audio_stream_lens l @ [rows]\<rparr>"
| "layout_step (RefVideo kind ref_t vt vh vw frame_rows audio_rows video_rows) l =
     l\<lparr>sl_cond_event_orders := sl_cond_event_orders l @
         [(''audio'', length (sl_cond_audio_stream_lens l)), (''imgvid'', length (sl_cond_image_shapes l))],
       sl_cond_audio_stream_lens := sl_cond_audio_stream_lens l @ [audio_rows],
       sl_cond_image_shapes := sl_cond_image_shapes l @ [(vt, vh div PATCH_H, vw div PATCH_W)],
       sl_cond_image_roles := sl_cond_image_roles l @ [''independent_cube'']\<rparr>"

definition stream_layout_of :: "nat \<times> nat \<times> nat \<Rightarrow> ref_item list \<Rightarrow> stream_layout" where
  "stream_layout_of target_shape items = fold layout_step items
     \<lparr>sl_target_shape = target_shape, sl_cond_image_shapes = [], sl_cond_image_roles = [],
      sl_cond_event_orders = [], sl_cond_audio_stream_lens = []\<rparr>"

section \<open>The ref2va layout\<close>

definition minimax_h3_packed_sequence_ref2va_blocks ::
  "num_kernels \<Rightarrow> nat \<Rightarrow> nat \<Rightarrow> nat \<Rightarrow> nat \<Rightarrow> nat \<Rightarrow> pyval \<Rightarrow> pyval list option \<Rightarrow> int option \<Rightarrow> nat \<Rightarrow> nat option \<Rightarrow> bool \<Rightarrow> packed res" where
  "minimax_h3_packed_sequence_ref2va_blocks nk text_len latent_t latent_h latent_w audio_t ref_blocks
      keyframe_frame_indices frame_count audio_channel seq_len0 include_video_pos =
     rbind (parse_ref_blocks audio_channel ref_blocks) (\<lambda>parsed.
     let ref_visual_rows = sum_list (map item_visual_rows parsed);
         ref_audio_rows = sum_list (map item_audio_rows parsed);
         ph = latent_h div PATCH_H; pw = latent_w div PATCH_W; frame_rows = ph * pw in
     rbind (keyframe_cond_frame_indices (keyframe_frame_indices \<noteq> None) keyframe_frame_indices) (\<lambda>keyframe_indices.
     rbind (resolve_keyframe_frame_indices keyframe_indices frame_count) (\<lambda>resolved.
     let keyframe_rows = length keyframe_indices * frame_rows;
         video_rows = latent_t * frame_rows;
         audio_rows = audio_t * audio_channel;
         ref_rows = ref_visual_rows + ref_audio_rows;
         used = text_len + keyframe_rows + ref_rows + audio_rows + video_rows;
         seq_len = (case seq_len0 of None \<Rightarrow> ceil_mult MINIMAX_H3_PACKED_SEQUENCE_ALIGNMENT used
                    | Some n \<Rightarrow> n) in
     raise_if (seq_len < used) (ValueError ''seq_len < used rows'')
     (let (placed, cursor) = place_blocks parsed (text_len + keyframe_rows);
          audio_stop = cursor + audio_rows;
          wt = w_grid_of nk latent_h latent_w;
          target_frame = frame_grid nk latent_h latent_w;
          g = write_rows 0 (text_rows text_len) (replicate seq_len zero_row)
      in rbind (rfold (write_block nk audio_channel wt) placed (g, float_of_nat text_len)) (\<lambda>(g, t_cursor).
         rbind (w_ends wt) (\<lambda>(w0, w1).
         let g = write_rows audio_stop (clip_rows latent_t (video_t_grid nk latent_t t_cursor) target_frame)
                   (write_rows cursor (audio_grid_rows t_cursor audio_t audio_channel w0 w1) g) in
         rbind (write_keyframes nk latent_t t_cursor frame_count text_len frame_rows target_frame resolved g) (\<lambda>g.
         let target_img_pos = [audio_stop..<audio_stop + video_rows];
             target_audio_pos = [cursor..<audio_stop];
             ref_visual = concat (map visual_range (filter (has_visual \<circ> fst) placed));
             img_pos = [text_len..<text_len + keyframe_rows] @ ref_visual @ target_img_pos;
             audio_pos = concat (map audio_range (filter (has_audio \<circ> fst) placed)) @ target_audio_pos in
         rbind (cu_seqlens_of used seq_len) (\<lambda>cu.
         Inr \<lparr>pk_seq_len = seq_len, pk_img_pos = img_pos, pk_audio_pos = audio_pos,
              pk_text_pos = [0..<text_len],
              pk_update_mask = replicate (keyframe_rows + ref_visual_rows) False @
                 replicate (length img_pos - (keyframe_rows + ref_visual_rows)) True,
              pk_audio_update_mask = Some (replicate ref_audio_rows False @
                 replicate (length audio_pos - ref_audio_rows) True),
              pk_position_ids = g, pk_token_tags = token_tags_of seq_len text_len audio_pos img_pos,
              pk_cu_seqlens = cu, pk_stream_layout = stream_layout_of (latent_t, ph, pw) parsed,
              pk_video_pos = (if include_video_pos
                 then Some (concat (map visual_range (filter (is_video \<circ> fst) placed)) @ target_img_pos)
                 else None)\<rparr>))))))))"

end
