(* ===== verification/Packed_Layout.thy ===== *)
theory Packed_Layout
  imports Packed_Sequence
begin

text \<open>
  Lemmas on the packed layouts of \<^verbatim>\<open>Packed_Sequence\<close>: the position lists partition the used
  prefix, the tags and update masks agree with them, the stream layout counts the condition rows,
  and the reference layout without references is the plain layout.
\<close>

section \<open>Slices and scatters\<close>

lemma scatter_length [simp]: "length (scatter ps v xs) = length xs"
  by (induction ps arbitrary: xs) (auto simp: scatter_def)

lemma scatter_nth: "i < length xs \<Longrightarrow> scatter ps v xs ! i = (if i \<in> set ps then v else xs ! i)"
proof (induction ps arbitrary: xs)
  case (Cons p ps)
  have "scatter (p # ps) v xs = scatter ps v (xs[p := v])" by (simp add: scatter_def)
  then show ?case using Cons by (auto simp: nth_list_update)
qed (simp add: scatter_def)

lemma write_rows_length: "start + length rows \<le> length g \<Longrightarrow> length (write_rows start rows g) = length g"
  by (simp add: write_rows_def)

lemma write_rows_nth:
  "start + length rows \<le> length g \<Longrightarrow> i < length g \<Longrightarrow>
   write_rows start rows g ! i = (if start \<le> i \<and> i < start + length rows then rows ! (i - start) else g ! i)"
  by (auto simp: write_rows_def nth_append min_def)

lemma write_rows_commute:
  assumes "a + length xs \<le> b \<or> b + length ys \<le> a" and "a + length xs \<le> length g" and "b + length ys \<le> length g"
  shows "write_rows a xs (write_rows b ys g) = write_rows b ys (write_rows a xs g)"
  using assms by (intro nth_equalityI) (auto simp: write_rows_length write_rows_nth)

text \<open>The tag of every row, given pairwise disjoint position lists.\<close>

lemma token_tags_nth:
  assumes "i < seq_len" and "text_len \<le> seq_len"
  shows "token_tags_of seq_len text_len audio_pos img_pos ! i =
    (if i \<in> set img_pos then 0 else if i \<in> set audio_pos then 2 else if i < text_len then 1 else -1)"
  using assms by (simp add: token_tags_of_def scatter_nth write_rows_length write_rows_nth)

lemma token_tags_length: "text_len \<le> seq_len \<Longrightarrow> length (token_tags_of seq_len text_len audio_pos img_pos) = seq_len"
  by (simp add: token_tags_of_def write_rows_length)

section \<open>Position lists\<close>

text \<open>The rows of a layout: the three position lists partition the used prefix.\<close>

definition layout_partition :: "packed \<Rightarrow> nat \<Rightarrow> bool" where
  "layout_partition p used \<longleftrightarrow> pk_cu_seqlens p = [0, used, pk_seq_len p] \<and> used \<le> pk_seq_len p \<and>
     mset (pk_text_pos p @ pk_img_pos p @ pk_audio_pos p) = mset [0..<used]"

lemma layout_partition_distinct:
  assumes "layout_partition p used"
  shows "distinct (pk_text_pos p @ pk_img_pos p @ pk_audio_pos p)"
    and "set (pk_text_pos p) \<union> set (pk_img_pos p) \<union> set (pk_audio_pos p) = {0..<used}"
proof -
  have m: "mset (pk_text_pos p @ pk_img_pos p @ pk_audio_pos p) = mset [0..<used]"
    using assms by (simp add: layout_partition_def)
  show "distinct (pk_text_pos p @ pk_img_pos p @ pk_audio_pos p)"
    using m by (metis distinct_upt mset_eq_imp_distinct_iff)
  show "set (pk_text_pos p) \<union> set (pk_img_pos p) \<union> set (pk_audio_pos p) = {0..<used}"
    using mset_eq_setD[OF m] by auto
qed

lemma mset_upt_split: "a \<le> b \<Longrightarrow> b \<le> c \<Longrightarrow> mset [a..<c] = mset [a..<b] + mset [b..<c]"
  by (metis mset_append upto_append)

text \<open>Mask-selected entries of a list.\<close>

definition masked :: "'a list \<Rightarrow> bool list \<Rightarrow> 'a list" where
  "masked xs m = map fst (filter snd (zip xs m))"

lemma masked_suffix:
  assumes "length xs = n"
  shows "masked (xs @ ys) (replicate n False @ replicate (length (xs @ ys) - n) True) = ys"
proof -
  have "filter snd (zip xs (replicate (length xs) False)) = []"
    by (auto simp: filter_empty_conv set_zip)
  moreover have "filter snd (zip ys (replicate (length ys) True)) = zip ys (replicate (length ys) True)"
    by (auto simp: filter_id_conv set_zip)
  ultimately show ?thesis using assms by (simp add: masked_def)
qed

lemma masked_neg_prefix:
  assumes "length xs = n"
  shows "masked (xs @ ys) (map Not (replicate n False @ replicate (length (xs @ ys) - n) True)) = xs"
proof -
  have "filter snd (zip ys (replicate (length ys) False)) = []"
    by (auto simp: filter_empty_conv set_zip)
  moreover have "filter snd (zip xs (replicate (length xs) True)) = zip xs (replicate (length xs) True)"
    by (auto simp: filter_id_conv set_zip)
  ultimately show ?thesis using assms by (simp add: masked_def)
qed

text \<open>The blocks occupy consecutive rows, in block order, audio before video.\<close>

lemma audio_range_none: "\<not> has_audio item \<Longrightarrow> audio_range (item, a, v) = []"
  by (cases item) (auto simp: audio_range_def)

lemma visual_range_none: "\<not> has_visual item \<Longrightarrow> visual_range (item, a, v) = []"
  by (cases item) (auto simp: visual_range_def)

lemma concat_filter_none:
  "(\<And>x. x \<in> set xs \<Longrightarrow> \<not> P x \<Longrightarrow> f x = []) \<Longrightarrow> concat (map f (filter P xs)) = concat (map f xs)"
  by (induction xs) auto

lemma concat_audio: "concat (map audio_range (filter (has_audio \<circ> fst) pl)) = concat (map audio_range pl)"
  by (rule concat_filter_none) (auto simp: audio_range_none)

lemma concat_visual: "concat (map visual_range (filter (has_visual \<circ> fst) pl)) = concat (map visual_range pl)"
  by (rule concat_filter_none) (auto simp: visual_range_none)

definition placed_rows :: "ref_item list \<Rightarrow> nat \<Rightarrow> placed list \<Rightarrow> nat \<Rightarrow> bool" where
  "placed_rows items c pl stop \<longleftrightarrow>
     stop = c + sum_list (map item_visual_rows items) + sum_list (map item_audio_rows items) \<and>
     mset (concat (map visual_range pl) @ concat (map audio_range pl)) = mset [c..<stop] \<and>
     length (concat (map visual_range pl)) = sum_list (map item_visual_rows items) \<and>
     length (concat (map audio_range pl)) = sum_list (map item_audio_rows items) \<and> map fst pl = items"

lemma place_blocks_rows: "place_blocks items c = (pl, stop) \<Longrightarrow> placed_rows items c pl stop"
proof (induction items arbitrary: c pl)
  case Nil
  then show ?case by (auto simp: placed_rows_def)
next
  case (Cons item items)
  let ?v = "c + item_audio_rows item"
  let ?c = "?v + item_visual_rows item"
  obtain rest where rest: "place_blocks items ?c = (rest, stop)" and pl: "pl = (item, c, ?v) # rest"
    using Cons.prems by (cases "place_blocks items ?c") (auto simp: Let_def)
  have IH: "placed_rows items ?c rest stop" by (rule Cons.IH[OF rest])
  then have le: "?c \<le> stop" by (simp add: placed_rows_def)
  have "mset [c..<stop] = mset [c..<?v] + mset [?v..<?c] + mset [?c..<stop]"
    using le mset_upt_split[of c ?v stop] mset_upt_split[of ?v ?c stop] by simp
  moreover have "mset (concat (map visual_range pl) @ concat (map audio_range pl)) =
      mset [c..<?v] + mset [?v..<?c] + mset (concat (map visual_range rest) @ concat (map audio_range rest))"
    by (simp add: pl audio_range_def visual_range_def)
  ultimately have "mset (concat (map visual_range pl) @ concat (map audio_range pl)) = mset [c..<stop]"
    using IH by (simp only: placed_rows_def)
  then show ?case using IH by (auto simp: placed_rows_def pl audio_range_def visual_range_def)
qed

section \<open>The layouts\<close>

lemma cu_seqlens_Inr: "cu_seqlens_of u n = Inr cu \<Longrightarrow> cu = [0, u, n]"
  by (simp add: cu_seqlens_of_def res_simps)

text \<open>The layout in closed form: \<open>k\<close> keyframes resolved to \<open>rs\<close>, coordinates \<open>g\<close>.\<close>

definition plain_layout ::
  "nat \<Rightarrow> nat \<Rightarrow> nat \<Rightarrow> nat \<Rightarrow> nat \<Rightarrow> nat \<Rightarrow> bool \<Rightarrow> nat \<Rightarrow> int list \<Rightarrow> row3 list \<Rightarrow> packed" where
  "plain_layout text_len latent_t latent_h latent_w audio_t audio_channel vp k rs g =
    (let ph = latent_h div 2; pw = latent_w div 2; C = k * (ph * pw); V = latent_t * (ph * pw);
         A = audio_t * audio_channel; used = text_len + C + A + V; n = ceil_mult 64 used;
         audio = [text_len + C..<text_len + C + A];
         img = [text_len..<text_len + C] @ [text_len + C + A..<used] in
     \<lparr>pk_seq_len = n, pk_img_pos = img, pk_audio_pos = audio, pk_text_pos = [0..<text_len],
      pk_update_mask = replicate C False @ replicate (length img - C) True,
      pk_audio_update_mask = None, pk_position_ids = g,
      pk_token_tags = token_tags_of n text_len audio img, pk_cu_seqlens = [0, used, n],
      pk_stream_layout = \<lparr>sl_target_shape = (latent_t, ph, pw),
        sl_cond_image_shapes = map (\<lambda>_. (1, ph, pw)) rs,
        sl_cond_image_roles = map (\<lambda>_. ''joint_cube'') rs,
        sl_cond_event_orders = map (\<lambda>i. (''imgvid'', i)) [0..<length rs],
        sl_cond_audio_stream_lens = []\<rparr>,
      pk_video_pos = (if vp then Some [text_len + C + A..<used] else None)\<rparr>)"

lemma packed_sequence_layout:
  assumes "minimax_h3_packed_sequence nk text_len latent_t latent_h latent_w audio_t audio_channel
      include kfi frame_count vp = Inr p"
  obtains ks rs where "keyframe_cond_frame_indices include kfi = Inr ks"
    "resolve_keyframe_frame_indices ks frame_count = Inr rs"
    "p = plain_layout text_len latent_t latent_h latent_w audio_t audio_channel vp (length ks) rs (pk_position_ids p)"
proof -
  obtain ks where 1: "keyframe_cond_frame_indices include kfi = Inr ks"
    using assms unfolding minimax_h3_packed_sequence_def Let_def by (auto simp only: rbind_Inr_iff)
  obtain rs where 2: "resolve_keyframe_frame_indices ks frame_count = Inr rs"
    using assms unfolding minimax_h3_packed_sequence_def Let_def 1 rbind.simps by (auto simp only: rbind_Inr_iff)
  have "p = plain_layout text_len latent_t latent_h latent_w audio_t audio_channel vp (length ks) rs (pk_position_ids p)"
    using assms unfolding minimax_h3_packed_sequence_def Let_def 1 2 rbind.simps
      PATCH_H_def PATCH_W_def MINIMAX_H3_PACKED_SEQUENCE_ALIGNMENT_def
    by (clarsimp simp: rbind_Inr_iff plain_layout_def Let_def add.assoc dest!: cu_seqlens_Inr)
  then show ?thesis using that 1 2 by blast
qed

text \<open>The ref2va layout in closed form.\<close>

definition ref_layout ::
  "nat \<Rightarrow> nat \<Rightarrow> nat \<Rightarrow> nat \<Rightarrow> nat \<Rightarrow> nat \<Rightarrow> bool \<Rightarrow> nat \<Rightarrow> nat option \<Rightarrow> ref_item list \<Rightarrow> row3 list \<Rightarrow> packed" where
  "ref_layout text_len latent_t latent_h latent_w audio_t audio_channel vp k seq_len0 items g =
    (let ph = latent_h div 2; pw = latent_w div 2; C = k * (ph * pw); V = latent_t * (ph * pw);
         A = audio_t * audio_channel; (pl, cursor) = place_blocks items (text_len + C);
         RV = sum_list (map item_visual_rows items); RA = sum_list (map item_audio_rows items);
         used = text_len + C + (RV + RA) + A + V;
         n = (case seq_len0 of None \<Rightarrow> ceil_mult 64 used | Some n \<Rightarrow> n);
         target = [cursor + A..<cursor + A + V];
         img = [text_len..<text_len + C] @ concat (map visual_range pl) @ target;
         audio = concat (map audio_range pl) @ [cursor..<cursor + A] in
     \<lparr>pk_seq_len = n, pk_img_pos = img, pk_audio_pos = audio, pk_text_pos = [0..<text_len],
      pk_update_mask = replicate (C + RV) False @ replicate (length img - (C + RV)) True,
      pk_audio_update_mask = Some (replicate RA False @ replicate (length audio - RA) True),
      pk_position_ids = g,
      pk_token_tags = token_tags_of n text_len audio img, pk_cu_seqlens = [0, used, n],
      pk_stream_layout = stream_layout_of (latent_t, ph, pw) items,
      pk_video_pos = (if vp then Some (concat (map visual_range (filter (is_video \<circ> fst) pl)) @ target)
                      else None)\<rparr>)"

lemma ref2va_layout:
  assumes "minimax_h3_packed_sequence_ref2va_blocks nk text_len latent_t latent_h latent_w audio_t ref_blocks
      kfi frame_count audio_channel seq_len0 vp = Inr p"
  obtains ks rs items where "parse_ref_blocks audio_channel ref_blocks = Inr items"
    "keyframe_cond_frame_indices (kfi \<noteq> None) kfi = Inr ks"
    "resolve_keyframe_frame_indices ks frame_count = Inr rs"
    "p = ref_layout text_len latent_t latent_h latent_w audio_t audio_channel vp (length ks) seq_len0 items
           (pk_position_ids p)"
    "text_len + length ks * ((latent_h div 2) * (latent_w div 2)) +
       (sum_list (map item_visual_rows items) + sum_list (map item_audio_rows items)) +
       audio_t * audio_channel + latent_t * ((latent_h div 2) * (latent_w div 2)) \<le> pk_seq_len p"
proof -
  note D = assms[unfolded minimax_h3_packed_sequence_ref2va_blocks_def Let_def case_prod_unfold
      PATCH_H_def PATCH_W_def MINIMAX_H3_PACKED_SEQUENCE_ALIGNMENT_def concat_audio concat_visual]
  obtain items where 1: "parse_ref_blocks audio_channel ref_blocks = Inr items"
    using D by (auto simp only: rbind_Inr_iff)
  obtain ks where 2: "keyframe_cond_frame_indices (kfi \<noteq> None) kfi = Inr ks"
    using D unfolding 1 rbind.simps by (auto simp only: rbind_Inr_iff)
  obtain rs where 3: "resolve_keyframe_frame_indices ks frame_count = Inr rs"
    using D unfolding 1 2 rbind.simps by (auto simp only: rbind_Inr_iff)
  note E = D[unfolded 1 2 3 rbind.simps raise_if_Inr_iff]
  have "p = ref_layout text_len latent_t latent_h latent_w audio_t audio_channel vp (length ks) seq_len0 items
           (pk_position_ids p)"
    using E by (clarsimp simp: rbind_Inr_iff ref_layout_def Let_def case_prod_unfold dest!: cu_seqlens_Inr)
  moreover have "text_len + length ks * ((latent_h div 2) * (latent_w div 2)) +
       (sum_list (map item_visual_rows items) + sum_list (map item_audio_rows items)) +
       audio_t * audio_channel + latent_t * ((latent_h div 2) * (latent_w div 2)) \<le> pk_seq_len p"
    using E by (clarsimp simp: rbind_Inr_iff simp del: not_less)
  ultimately show ?thesis using that 1 2 3 by blast
qed

text \<open>What both layouts guarantee of their position lists, tags and masks.\<close>

definition layout_ok :: "packed \<Rightarrow> nat \<Rightarrow> nat list \<Rightarrow> nat list \<Rightarrow> nat list \<Rightarrow> nat list \<Rightarrow> bool" where
  "layout_ok p used cond target refs audio \<longleftrightarrow> layout_partition p used \<and>
     pk_img_pos p = cond @ target \<and>
     pk_update_mask p = replicate (length cond) False @ replicate (length target) True \<and>
     pk_audio_pos p = refs @ audio \<and>
     (case pk_audio_update_mask p of None \<Rightarrow> refs = []
      | Some m \<Rightarrow> m = replicate (length refs) False @ replicate (length audio) True) \<and>
     length (pk_token_tags p) = pk_seq_len p \<and>
     (\<forall>i < pk_seq_len p. pk_token_tags p ! i =
        (if i \<in> set (pk_text_pos p) then 1 else if i \<in> set (pk_audio_pos p) then 2
         else if i \<in> set (pk_img_pos p) then 0 else -1))"

lemma layout_ok_intro:
  assumes part: "layout_partition p used" and tpos: "pk_text_pos p = [0..<text_len]"
    and img: "pk_img_pos p = cond @ target"
    and mask: "pk_update_mask p = replicate (length cond) False @ replicate (length (pk_img_pos p) - length cond) True"
    and aud: "pk_audio_pos p = refs @ audio"
    and amask: "case pk_audio_update_mask p of None \<Rightarrow> refs = []
      | Some m \<Rightarrow> m = replicate (length refs) False @ replicate (length (pk_audio_pos p) - length refs) True"
    and tags: "pk_token_tags p = token_tags_of (pk_seq_len p) text_len (pk_audio_pos p) (pk_img_pos p)"
  shows "layout_ok p used cond target refs audio"
proof -
  note D = layout_partition_distinct[OF part]
  have le: "text_len \<le> pk_seq_len p"
  proof (rule ccontr)
    assume a: "\<not> text_len \<le> pk_seq_len p"
    then have "pk_seq_len p \<in> set (pk_text_pos p)" by (simp add: tpos)
    then have "pk_seq_len p < used" using D(2) by auto
    then show False using part by (simp add: layout_partition_def)
  qed
  have "pk_token_tags p ! i = (if i \<in> set (pk_text_pos p) then 1 else if i \<in> set (pk_audio_pos p) then 2
         else if i \<in> set (pk_img_pos p) then 0 else -1)" if "i < pk_seq_len p" for i
    unfolding tags token_tags_nth[OF that le] using D(1) by (auto simp: tpos)
  then show ?thesis
    using part img aud mask amask tags token_tags_length[OF le]
    by (auto simp: layout_ok_def split: option.splits)
qed

lemma mset_upt_chain:
  "a \<le> b \<Longrightarrow> b \<le> c \<Longrightarrow> c \<le> d \<Longrightarrow> mset [0..<d] = mset [0..<a] + mset [a..<b] + mset [b..<c] + mset [c..<d]"
  using mset_upt_split[of 0 a d] mset_upt_split[of a b d] mset_upt_split[of b c d] by simp

lemma packed_sequence_ok:
  assumes "minimax_h3_packed_sequence nk text_len latent_t latent_h latent_w audio_t audio_channel
      include kfi frame_count vp = Inr p"
  obtains used C ks where "layout_ok p used [text_len..<text_len + C]
      [used - latent_t * ((latent_h div 2) * (latent_w div 2))..<used] []
      [text_len + C..<text_len + C + audio_t * audio_channel]"
    "used = text_len + C + audio_t * audio_channel + latent_t * ((latent_h div 2) * (latent_w div 2))"
    "pk_seq_len p = ceil_mult 64 used" "keyframe_cond_frame_indices include kfi = Inr ks"
    "C = length ks * ((latent_h div 2) * (latent_w div 2))"
proof -
  obtain ks rs where ks: "keyframe_cond_frame_indices include kfi = Inr ks"
    "resolve_keyframe_frame_indices ks frame_count = Inr rs"
    and p: "p = plain_layout text_len latent_t latent_h latent_w audio_t audio_channel vp
      (length ks) rs (pk_position_ids p)"
    by (rule packed_sequence_layout[OF assms])
  define fr where "fr = (latent_h div 2) * (latent_w div 2)"
  define C where "C = length ks * fr"
  define used where "used = text_len + C + audio_t * audio_channel + latent_t * fr"
  define g where "g = pk_position_ids p"
  note q = p[folded g_def, unfolded plain_layout_def Let_def, folded fr_def, folded C_def, folded used_def]
  have n: "used \<le> pk_seq_len p" using ceil_mult_ge[of 64 used] by (simp add: q)
  have "mset [0..<used] = mset [0..<text_len] + mset [text_len..<text_len + C] +
      mset [text_len + C..<text_len + C + audio_t * audio_channel] +
      mset [text_len + C + audio_t * audio_channel..<used]"
    by (rule mset_upt_chain) (simp_all add: used_def)
  then have "layout_partition p used" using n by (simp add: layout_partition_def q)
  then have "layout_ok p used [text_len..<text_len + C] [used - latent_t * fr..<used] []
      [text_len + C..<text_len + C + audio_t * audio_channel]"
    by (rule layout_ok_intro[of _ _ text_len]) (simp_all add: q, simp_all add: used_def)
  moreover have "pk_seq_len p = ceil_mult 64 used" by (simp add: q)
  ultimately show ?thesis
    using that[of used C ks] ks(1) unfolding used_def C_def fr_def by blast
qed

text \<open>Where the rows of the blocks are: block \<open>j\<close> follows the blocks before it, its audio rows first.\<close>

definition block_start :: "nat \<Rightarrow> ref_item list \<Rightarrow> nat \<Rightarrow> nat" where
  "block_start base items j = base + sum_list (map (\<lambda>i. item_audio_rows i + item_visual_rows i) (take j items))"

definition block_audio :: "nat \<Rightarrow> ref_item list \<Rightarrow> nat \<Rightarrow> nat list" where
  "block_audio base items j = [block_start base items j..<block_start base items j + item_audio_rows (items ! j)]"

definition block_visual :: "nat \<Rightarrow> ref_item list \<Rightarrow> nat \<Rightarrow> nat list" where
  "block_visual base items j = (let v = block_start base items j + item_audio_rows (items ! j)
     in [v..<v + item_visual_rows (items ! j)])"

lemma block_start_Cons:
  "block_start base (item # items) (Suc j) = block_start (base + item_audio_rows item + item_visual_rows item) items j"
  by (simp add: block_start_def)

lemma place_blocks_positions:
  "place_blocks items base = (pl, stop) \<Longrightarrow>
     map audio_range pl = map (block_audio base items) [0..<length items] \<and>
     map visual_range pl = map (block_visual base items) [0..<length items]"
proof (induction items arbitrary: base pl)
  case (Cons item items)
  let ?c = "base + item_audio_rows item + item_visual_rows item"
  obtain rest where rest: "place_blocks items ?c = (rest, stop)"
    and pl: "pl = (item, base, base + item_audio_rows item) # rest"
    using Cons.prems by (cases "place_blocks items ?c") (auto simp: Let_def)
  have up: "[0..<length (item # items)] = 0 # map Suc [0..<length items]"
    unfolding map_Suc_upt list.size by (simp add: upt_conv_Cons del: upt_Suc)
  have "block_audio base (item # items) (Suc j) = block_audio ?c items j"
    "block_visual base (item # items) (Suc j) = block_visual ?c items j" for j
    by (simp_all add: block_audio_def block_visual_def block_start_Cons)
  moreover have "audio_range (item, base, base + item_audio_rows item) = block_audio base (item # items) 0"
    "visual_range (item, base, base + item_audio_rows item) = block_visual base (item # items) 0"
    by (simp_all add: audio_range_def visual_range_def block_audio_def block_visual_def block_start_def Let_def)
  ultimately show ?case using Cons.IH[OF rest] unfolding pl up by (simp add: comp_def del: upt_Suc)
qed simp

lemma ref2va_placed:
  assumes "minimax_h3_packed_sequence_ref2va_blocks nk text_len latent_t latent_h latent_w audio_t ref_blocks
      kfi frame_count audio_channel seq_len0 vp = Inr p"
  obtains used items ks base stop where
    "parse_ref_blocks audio_channel ref_blocks = Inr items" "keyframe_cond_frame_indices (kfi \<noteq> None) kfi = Inr ks"
    "base = text_len + length ks * ((latent_h div 2) * (latent_w div 2))"
    "stop = base + sum_list (map item_visual_rows items) + sum_list (map item_audio_rows items)"
    "used = stop + audio_t * audio_channel + latent_t * ((latent_h div 2) * (latent_w div 2))"
    "layout_ok p used ([text_len..<base] @ concat (map (block_visual base items) [0..<length items]))
       [stop + audio_t * audio_channel..<used]
       (concat (map (block_audio base items) [0..<length items])) [stop..<stop + audio_t * audio_channel]"
    "length (concat (map (block_visual base items) [0..<length items])) = sum_list (map item_visual_rows items)"
    "length (concat (map (block_audio base items) [0..<length items])) = sum_list (map item_audio_rows items)"
    "pk_stream_layout p = stream_layout_of (latent_t, latent_h div 2, latent_w div 2) items"
    "seq_len0 = None \<Longrightarrow> pk_seq_len p = ceil_mult 64 used"
proof -
  obtain ks rs items where i: "parse_ref_blocks audio_channel ref_blocks = Inr items"
    and kk: "keyframe_cond_frame_indices (kfi \<noteq> None) kfi = Inr ks"
    and "resolve_keyframe_frame_indices ks frame_count = Inr rs"
    and p: "p = ref_layout text_len latent_t latent_h latent_w audio_t audio_channel vp (length ks) seq_len0 items
           (pk_position_ids p)"
    and le: "text_len + length ks * ((latent_h div 2) * (latent_w div 2)) +
       (sum_list (map item_visual_rows items) + sum_list (map item_audio_rows items)) +
       audio_t * audio_channel + latent_t * ((latent_h div 2) * (latent_w div 2)) \<le> pk_seq_len p"
    by (rule ref2va_layout[OF assms])
  define g where "g = pk_position_ids p"
  define fr where "fr = (latent_h div 2) * (latent_w div 2)"
  define C where "C = length ks * fr"
  define RV where "RV = sum_list (map item_visual_rows items)"
  define RA where "RA = sum_list (map item_audio_rows items)"
  define A where "A = audio_t * audio_channel"
  define V where "V = latent_t * fr"
  define used where "used = text_len + C + (RV + RA) + A + V"
  obtain pl cursor where pl: "place_blocks items (text_len + C) = (pl, cursor)" by fastforce
  have R: "cursor = text_len + C + RV + RA"
    "mset (concat (map visual_range pl)) + mset (concat (map audio_range pl)) = mset [text_len + C..<cursor]"
    "length (concat (map visual_range pl)) = RV" "length (concat (map audio_range pl)) = RA"
    using place_blocks_rows[OF pl] by (simp_all add: placed_rows_def RV_def RA_def)
  note q = p[folded g_def, unfolded ref_layout_def Let_def, folded fr_def, folded C_def RV_def RA_def A_def V_def,
      unfolded pl prod.case, folded used_def]
  let ?cond = "[text_len..<text_len + C] @ concat (map visual_range pl)"
  let ?n = "case seq_len0 of None \<Rightarrow> ceil_mult 64 used | Some n \<Rightarrow> n"
  have F: "pk_seq_len p = ?n" "pk_text_pos p = [0..<text_len]" "pk_cu_seqlens p = [0, used, ?n]"
    "pk_img_pos p = ?cond @ [cursor + A..<cursor + A + V]"
    "pk_audio_pos p = concat (map audio_range pl) @ [cursor..<cursor + A]"
    "pk_update_mask p = replicate (C + RV) False @ replicate (length (pk_img_pos p) - (C + RV)) True"
    "pk_token_tags p = token_tags_of (pk_seq_len p) text_len (pk_audio_pos p) (pk_img_pos p)"
    "pk_stream_layout p = stream_layout_of (latent_t, latent_h div 2, latent_w div 2) items"
    "pk_audio_update_mask p = Some (replicate RA False @ replicate (length (pk_audio_pos p) - RA) True)"
    by (simp_all add: q)
  have stop: "cursor + A + V = used" using R(1) by (simp add: used_def)
  have "mset [0..<used] = mset [0..<text_len] + mset [text_len..<text_len + C] + mset [text_len + C..<cursor] +
      mset [cursor..<used]"
    by (rule mset_upt_chain) (simp_all add: R(1) used_def)
  also have "mset [cursor..<used] = mset [cursor..<cursor + A] + mset [cursor + A..<used]"
    by (rule mset_upt_split) (simp_all add: R(1) used_def)
  finally have m: "mset (pk_text_pos p @ pk_img_pos p @ pk_audio_pos p) = mset [0..<used]"
    unfolding R(2)[symmetric] F(2,4,5) stop by (simp add: ac_simps del: mset_upt)
  have "used \<le> pk_seq_len p"
    using le unfolding used_def C_def RV_def RA_def A_def V_def fr_def .
  then have "layout_partition p used" using m by (simp add: layout_partition_def F(1,3))
  then have "layout_ok p used ?cond [cursor + A..<cursor + A + V] (concat (map audio_range pl)) [cursor..<cursor + A]"
    by (rule layout_ok_intro[of _ _ text_len]) (simp_all add: F(2,4,5,7) R(3), simp_all add: F(4,5,6,9) R(3,4))
  moreover have "concat (map visual_range pl) = concat (map (block_visual (text_len + C) items) [0..<length items])"
    "concat (map audio_range pl) = concat (map (block_audio (text_len + C) items) [0..<length items])"
    using place_blocks_positions[OF pl] by simp_all
  ultimately have L: "layout_ok p used
      ([text_len..<text_len + C] @ concat (map (block_visual (text_len + C) items) [0..<length items]))
      [cursor + A..<used] (concat (map (block_audio (text_len + C) items) [0..<length items])) [cursor..<cursor + A]"
    and N: "length (concat (map (block_visual (text_len + C) items) [0..<length items])) = RV"
      "length (concat (map (block_audio (text_len + C) items) [0..<length items])) = RA"
    using stop R(3,4) by simp_all
  show ?thesis
    by (rule that[OF i kk _ _ _ L[unfolded A_def] N[unfolded RV_def RA_def] F(8)])
      (simp_all add: C_def fr_def R(1) RV_def RA_def stop[symmetric] A_def V_def F(1))
qed

lemma ref2va_ok:
  assumes "minimax_h3_packed_sequence_ref2va_blocks nk text_len latent_t latent_h latent_w audio_t ref_blocks
      kfi frame_count audio_channel seq_len0 vp = Inr p"
  obtains used cond items k refs audio where
    "layout_ok p used cond [used - latent_t * ((latent_h div 2) * (latent_w div 2))..<used] refs audio"
    "length refs = sum_list (map item_audio_rows items)"
    "parse_ref_blocks audio_channel ref_blocks = Inr items"
    "used = text_len + k * ((latent_h div 2) * (latent_w div 2)) +
       (sum_list (map item_visual_rows items) + sum_list (map item_audio_rows items)) +
       audio_t * audio_channel + latent_t * ((latent_h div 2) * (latent_w div 2))"
    "length cond = k * ((latent_h div 2) * (latent_w div 2)) + sum_list (map item_visual_rows items)"
    "pk_stream_layout p = stream_layout_of (latent_t, latent_h div 2, latent_w div 2) items"
    "\<exists>ks. keyframe_cond_frame_indices (kfi \<noteq> None) kfi = Inr ks \<and> k = length ks"
    "seq_len0 = None \<Longrightarrow> pk_seq_len p = ceil_mult 64 used"
proof (rule ref2va_placed[OF assms])
  fix used items ks base stop
  assume A: "parse_ref_blocks audio_channel ref_blocks = Inr items" "keyframe_cond_frame_indices (kfi \<noteq> None) kfi = Inr ks"
    "base = text_len + length ks * ((latent_h div 2) * (latent_w div 2))"
    "stop = base + sum_list (map item_visual_rows items) + sum_list (map item_audio_rows items)"
    "used = stop + audio_t * audio_channel + latent_t * ((latent_h div 2) * (latent_w div 2))"
    and L: "layout_ok p used ([text_len..<base] @ concat (map (block_visual base items) [0..<length items]))
       [stop + audio_t * audio_channel..<used]
       (concat (map (block_audio base items) [0..<length items])) [stop..<stop + audio_t * audio_channel]"
    and N: "length (concat (map (block_visual base items) [0..<length items])) = sum_list (map item_visual_rows items)"
    "length (concat (map (block_audio base items) [0..<length items])) = sum_list (map item_audio_rows items)"
    and S: "pk_stream_layout p = stream_layout_of (latent_t, latent_h div 2, latent_w div 2) items"
      "seq_len0 = None \<Longrightarrow> pk_seq_len p = ceil_mult 64 used"
  have t: "stop + audio_t * audio_channel = used - latent_t * ((latent_h div 2) * (latent_w div 2))" using A(5) by simp
  show thesis
    by (rule that[OF L[unfolded t] N(2) A(1) _ _ S(1) _ S(2)]) (use A N in \<open>auto simp: length_append\<close>)
qed

text \<open>The stream layout of the blocks: shapes and roles run in step, and the visual shapes count the
  visual rows.\<close>

definition shape_volume :: "nat \<times> nat \<times> nat \<Rightarrow> nat" where
  "shape_volume s = (case s of (a, b, c) \<Rightarrow> a * b * c)"

definition item_ok :: "ref_item \<Rightarrow> bool" where
  "item_ok item = (case item of
      RefImage rh rw rows \<Rightarrow> rows = (rh div 2) * (rw div 2)
    | RefAudio _ _ \<Rightarrow> True
    | RefVideo _ _ vt vh vw fr _ vr \<Rightarrow> fr = (vh div 2) * (vw div 2) \<and> vr = vt * fr)"

lemma parse_ref_block_ok: "parse_ref_block ch raw = Inr item \<Longrightarrow> item_ok item"
  by (auto simp: parse_ref_block_def res_simps item_ok_def PATCH_H_def PATCH_W_def Let_def
      split: pyval.splits if_splits)

lemma parse_ref_blocks_ok: "parse_ref_blocks ch raw = Inr items \<Longrightarrow> list_all item_ok items"
proof (cases raw)
  case (PList l)
  assume "parse_ref_blocks ch raw = Inr items"
  then have "list_all2 (\<lambda>x y. parse_ref_block ch x = Inr y) l items"
    by (simp add: parse_ref_blocks_def PList rmap_Inr_iff)
  then show ?thesis by (induction rule: list_all2_induct) (auto intro: parse_ref_block_ok)
qed (auto simp: parse_ref_blocks_def)

lemma layout_step_volumes:
  assumes "item_ok item"
  shows "sum_list (map shape_volume (sl_cond_image_shapes (layout_step item l))) =
      sum_list (map shape_volume (sl_cond_image_shapes l)) + item_visual_rows item"
    and "sum_list (sl_cond_audio_stream_lens (layout_step item l)) =
      sum_list (sl_cond_audio_stream_lens l) + item_audio_rows item"
    and "length (sl_cond_image_roles (layout_step item l)) + length (sl_cond_image_shapes l) =
      length (sl_cond_image_shapes (layout_step item l)) + length (sl_cond_image_roles l)"
    and "sl_target_shape (layout_step item l) = sl_target_shape l"
  using assms by (cases item; simp add: item_ok_def shape_volume_def PATCH_H_def PATCH_W_def)+

lemma layout_fold_volumes:
  assumes "list_all item_ok items"
  shows "sum_list (map shape_volume (sl_cond_image_shapes (fold layout_step items l))) =
      sum_list (map shape_volume (sl_cond_image_shapes l)) + sum_list (map item_visual_rows items)"
    and "sum_list (sl_cond_audio_stream_lens (fold layout_step items l)) =
      sum_list (sl_cond_audio_stream_lens l) + sum_list (map item_audio_rows items)"
    and "sl_target_shape (fold layout_step items l) = sl_target_shape l"
  using assms by (induction items arbitrary: l) (simp_all add: layout_step_volumes)

section \<open>Coordinates\<close>

text \<open>What the layout relies on of the numeric kernels: the lengths of their results.\<close>

definition nk_ok :: "num_kernels \<Rightarrow> bool" where
  "nk_ok nk \<longleftrightarrow> (\<forall>l r n. length (nk_linspace nk l r n) = n) \<and> (\<forall>xs. length (nk_cumsum nk xs) = length xs)"

lemma frame_grid_length: "nk_ok nk \<Longrightarrow> length (frame_grid nk lh lw) = (lh div 2) * (lw div 2)"
  by (simp add: frame_grid_def Let_def axis_from_sqrt_area_def nk_ok_def PATCH_H_def PATCH_W_def)

lemma video_t_grid_length: "nk_ok nk \<Longrightarrow> length (video_t_grid nk n origin) = max n 1"
  by (cases n) (simp_all add: video_t_grid_def nk_ok_def)

lemma clip_rows_length: "length (clip_rows n ts frame) = min n (length ts) * length frame"
  by (simp add: clip_rows_def length_concat comp_def still_rows_def sum_list_triv min.commute)

lemma clip_rows_video_length:
  "nk_ok nk \<Longrightarrow> length (clip_rows n (video_t_grid nk n origin) (frame_grid nk lh lw)) = n * ((lh div 2) * (lw div 2))"
  by (simp add: clip_rows_length video_t_grid_length frame_grid_length min_def max_def)

lemma audio_grid_rows_length [simp]: "length (audio_grid_rows t n ch w0 w1) = n * ch"
  by (simp add: audio_grid_rows_def)

lemma still_rows_length [simp]: "length (still_rows t frame) = length frame"
  by (simp add: still_rows_def)

lemma text_rows_length [simp]: "length (text_rows n) = n"
  by (simp add: text_rows_def)

text \<open>Keyframes resolve to the first or the last frame, so their anchors exist.\<close>

lemma keyframe_indices_cases:
  "keyframe_cond_frame_indices inc kfi = Inr ks \<Longrightarrow> ks = [] \<or> ks = [0] \<or> ks = [-1] \<or> ks = [0, -1]"
  by (auto simp: keyframe_cond_frame_indices_def res_simps Let_def MINIMAX_H3_FL2VA_KEYFRAME_SIGNATURES_def
      split: if_splits option.splits)

lemma resolved_ends:
  assumes "keyframe_cond_frame_indices inc kfi = Inr ks" and "resolve_keyframe_frame_indices ks fc = Inr rs"
  shows "length rs = length ks" and "\<And>r. r \<in> set rs \<Longrightarrow> r = 0 \<or> fc = Some (r + 1)"
  using keyframe_indices_cases[OF assms(1)] assms(2)
  by (auto simp: resolve_keyframe_frame_indices_def resolve_keyframe_step_def res_simps dhas_def dset_def
      split: option.splits if_splits)

lemma write_keyframes_total:
  assumes "\<And>r. r \<in> set rs \<Longrightarrow> r = 0 \<or> fc = Some (r + 1)"
    and "length frame = fr" and "start + (n + length rs) * fr \<le> length g"
  shows "\<exists>g'. rfold (\<lambda>(block_index, pixel_index) g.
        rbind (keyframe_anchor nk latent_t origin fc pixel_index) (\<lambda>t.
        Inr (write_rows (start + block_index * fr) (still_rows t frame) g))) (enumerate n rs) g = Inr g' \<and>
     length g' = length g"
  using assms
proof (induction rs arbitrary: n g)
  case (Cons r rs)
  have "\<exists>t. keyframe_anchor nk latent_t origin fc r = Inr t"
    using Cons.prems(1)[of r] by (auto simp: keyframe_anchor_def)
  then obtain t where t: "keyframe_anchor nk latent_t origin fc r = Inr t" ..
  have "start + n * fr + length (still_rows t frame) \<le> length g"
    using Cons.prems(2,3) by (simp add: algebra_simps)
  note l = write_rows_length[OF this]
  show ?case using Cons.IH[of "Suc n" "write_rows (start + n * fr) (still_rows t frame) g"] Cons.prems t l by simp
qed simp

lemma write_keyframes_commute:
  assumes "length frame = fr" and "start + (n + length rs) * fr \<le> c" and "c + length ys \<le> length g"
    and "rfold (\<lambda>(block_index, pixel_index) g.
        rbind (keyframe_anchor nk latent_t origin fc pixel_index) (\<lambda>t.
        Inr (write_rows (start + block_index * fr) (still_rows t frame) g))) (enumerate n rs) g = Inr g'"
  shows "rfold (\<lambda>(block_index, pixel_index) g.
        rbind (keyframe_anchor nk latent_t origin fc pixel_index) (\<lambda>t.
        Inr (write_rows (start + block_index * fr) (still_rows t frame) g))) (enumerate n rs) (write_rows c ys g)
     = Inr (write_rows c ys g')"
  using assms
proof (induction rs arbitrary: n g)
  case (Cons r rs)
  obtain t where t: "keyframe_anchor nk latent_t origin fc r = Inr t"
    using Cons.prems(4) by (auto simp: res_simps)
  let ?w = "write_rows (start + n * fr) (still_rows t frame)"
  have d: "start + n * fr + length (still_rows t frame) \<le> c" using Cons.prems(1,2) by (simp add: algebra_simps)
  then have "?w (write_rows c ys g) = write_rows c ys (?w g)"
    using Cons.prems(3) by (intro write_rows_commute) auto
  moreover have "length (?w g) = length g" using d Cons.prems(3) by (intro write_rows_length) simp
  ultimately show ?case using Cons.IH[of "Suc n" "?w g"] Cons.prems t by (simp add: algebra_simps)
qed simp

text \<open>Without reference blocks the ref2va layout is the plain one, with an audio mask that updates
  every audio row and a stream layout that lists no condition.\<close>

lemma ref2va_no_refs:
  assumes nk: "nk_ok nk"
  shows "minimax_h3_packed_sequence_ref2va_blocks nk text_len latent_t latent_h latent_w audio_t (PList [])
      kfi frame_count audio_channel None vp =
    rbind (minimax_h3_packed_sequence nk text_len latent_t latent_h latent_w audio_t audio_channel
      (kfi \<noteq> None) kfi frame_count vp) (\<lambda>p.
     Inr (p\<lparr>pk_audio_update_mask := Some (replicate (audio_t * audio_channel) True),
            pk_stream_layout := stream_layout_of (latent_t, latent_h div 2, latent_w div 2) []\<rparr>))"
proof -
  let ?fr = "(latent_h div 2) * (latent_w div 2)"
  note defs = minimax_h3_packed_sequence_ref2va_blocks_def minimax_h3_packed_sequence_def Let_def
    PATCH_H_def PATCH_W_def MINIMAX_H3_PACKED_SEQUENCE_ALIGNMENT_def
  have parse: "parse_ref_blocks audio_channel (PList []) = Inr []" by (simp add: parse_ref_blocks_def)
  show ?thesis
  proof (cases "keyframe_cond_frame_indices (kfi \<noteq> None) kfi")
    case (Inl e)
    then show ?thesis by (simp add: defs parse del: not_None_eq)
  next
    case (Inr ks)
    note ks = Inr
    show ?thesis
    proof (cases "resolve_keyframe_frame_indices ks frame_count")
      case (Inl e)
      then show ?thesis by (simp add: defs parse ks del: not_None_eq)
    next
      case (Inr rs)
      note rs = Inr and R = resolved_ends[OF ks Inr]
      let ?C = "length ks * ?fr" and ?A = "audio_t * audio_channel" and ?V = "latent_t * ?fr"
      let ?used = "text_len + ?C + ?A + ?V"
      let ?n = "ceil_mult 64 ?used" and ?o = "float_of_nat text_len" and ?frame = "frame_grid nk latent_h latent_w"
      let ?clip = "clip_rows latent_t (video_t_grid nk latent_t ?o) ?frame"
      let ?base = "write_rows 0 (text_rows text_len) (replicate ?n zero_row)"
      let ?g0 = "write_rows (text_len + ?C + ?A) ?clip ?base"
      have n: "?used \<le> ?n" by (rule ceil_mult_ge) simp
      then have n': "\<not> ?n < ?used" by simp
      have base: "length ?base = ?n" using n by (subst write_rows_length) auto
      have clip: "length ?clip = ?V" by (rule clip_rows_video_length[OF nk])
      have fl: "length ?frame = ?fr" by (rule frame_grid_length[OF nk])
      have g0: "length ?g0 = ?n" using n base clip by (subst write_rows_length) auto
      have fits: "text_len + (0 + length rs) * ?fr \<le> length ?g0" unfolding g0 R(1) using n by simp
      obtain g1 where g1: "write_keyframes nk latent_t ?o frame_count text_len ?fr ?frame rs ?g0 = Inr g1"
        "length g1 = ?n"
        using write_keyframes_total[OF R(2) fl fits, of nk latent_t ?o] g0
        unfolding write_keyframes_def by auto
      have com: "write_keyframes nk latent_t ?o frame_count text_len ?fr ?frame rs
          (write_rows (text_len + ?C + ?A) ?clip (write_rows (text_len + ?C) (audio_grid_rows ?o audio_t audio_channel w0 w1) ?base))
        = Inr (write_rows (text_len + ?C) (audio_grid_rows ?o audio_t audio_channel w0 w1) g1)" for w0 w1
      proof -
        have "write_rows (text_len + ?C + ?A) ?clip (write_rows (text_len + ?C) (audio_grid_rows ?o audio_t audio_channel w0 w1) ?base)
          = write_rows (text_len + ?C) (audio_grid_rows ?o audio_t audio_channel w0 w1) ?g0"
          using n base clip by (intro write_rows_commute) auto
        then show ?thesis using write_keyframes_commute[OF fl, where start = text_len and n = 0 and rs = rs
              and c = "text_len + ?C" and ys = "audio_grid_rows ?o audio_t audio_channel w0 w1" and g = ?g0
              and nk = nk and latent_t = latent_t and origin = ?o and fc = frame_count and g' = g1] g1(1) R(1) g0 n
          unfolding write_keyframes_def by simp
      qed
      show ?thesis
      proof (cases "w_ends (w_grid_of nk latent_h latent_w)")
        case (Inl e)
        then show ?thesis by (simp add: defs parse ks rs n' g1(1) del: not_None_eq)
      next
        case (Inr w)
        obtain w0 w1 where w: "w = (w0, w1)" by (cases w)
        show ?thesis
          by (cases "cu_seqlens_of ?used ?n")
            (simp_all add: defs parse ks rs n' g1(1) com Inr w del: not_None_eq)
      qed
    qed
  qed
qed

section \<open>When a layout is built\<close>

lemma w_ends_total: "nk_ok nk \<Longrightarrow> (\<exists>w. w_ends (w_grid_of nk lh lw) = Inr w) \<longleftrightarrow> 2 \<le> lw"
proof -
  assume "nk_ok nk"
  then have "length (w_grid_of nk lh lw) = lw div 2"
    by (simp add: w_grid_of_def axis_from_sqrt_area_def Let_def nk_ok_def PATCH_W_def)
  then have "w_grid_of nk lh lw = [] \<longleftrightarrow> lw < 2" by (metis div_eq_0_iff length_0_conv zero_neq_numeral)
  then show ?thesis by (auto simp: w_ends_def raise_if_def)
qed

lemma write_keyframes_returns:
  assumes "keyframe_cond_frame_indices inc kfi = Inr ks" and "resolve_keyframe_frame_indices ks fc = Inr rs"
  shows "\<exists>g'. write_keyframes nk latent_t origin fc start fr frame rs g = Inr g'"
proof -
  have "\<exists>g'. rfold (\<lambda>(block_index, pixel_index) g.
        rbind (keyframe_anchor nk latent_t origin fc pixel_index) (\<lambda>t.
        Inr (write_rows (start + block_index * fr) (still_rows t frame) g))) (enumerate n rs') g = Inr g'"
    if "\<And>r. r \<in> set rs' \<Longrightarrow> r = 0 \<or> fc = Some (r + 1)" for rs' n
    using that
  proof (induction rs' arbitrary: n g)
    case (Cons r rs')
    have "\<exists>t. keyframe_anchor nk latent_t origin fc r = Inr t"
      using Cons.prems[of r] by (auto simp: keyframe_anchor_def)
    then show ?case using Cons by (auto simp: rbind_Inr_iff)
  qed simp
  then show ?thesis using resolved_ends(2)[OF assms] unfolding write_keyframes_def by blast
qed

lemma cu_seqlens_total: "int n \<le> 2147483647 \<Longrightarrow> u \<le> n \<Longrightarrow> cu_seqlens_of u n = Inr [0, u, n]"
  by (simp add: cu_seqlens_of_def raise_if_def)

lemma packed_sequence_returns_iff:
  assumes nk: "nk_ok nk"
  shows "(\<exists>p. minimax_h3_packed_sequence nk text_len latent_t latent_h latent_w audio_t audio_channel
      include kfi frame_count vp = Inr p) \<longleftrightarrow>
    (\<exists>ks rs. keyframe_cond_frame_indices include kfi = Inr ks \<and> resolve_keyframe_frame_indices ks frame_count = Inr rs \<and>
       2 \<le> latent_w \<and> int (ceil_mult 64 (text_len + length ks * ((latent_h div 2) * (latent_w div 2)) +
         audio_t * audio_channel + latent_t * ((latent_h div 2) * (latent_w div 2)))) \<le> 2147483647)"
    (is "?L \<longleftrightarrow> ?R")
proof
  assume ?L
  then show ?R unfolding minimax_h3_packed_sequence_def Let_def PATCH_H_def PATCH_W_def
      MINIMAX_H3_PACKED_SEQUENCE_ALIGNMENT_def
    using w_ends_total[OF nk, of latent_h latent_w]
    by (fastforce simp: res_simps cu_seqlens_of_def)
next
  assume ?R
  then obtain ks rs w0 w1 where *: "keyframe_cond_frame_indices include kfi = Inr ks"
    "resolve_keyframe_frame_indices ks frame_count = Inr rs" "w_ends (w_grid_of nk latent_h latent_w) = Inr (w0, w1)"
    "int (ceil_mult 64 (text_len + length ks * ((latent_h div 2) * (latent_w div 2)) +
         audio_t * audio_channel + latent_t * ((latent_h div 2) * (latent_w div 2)))) \<le> 2147483647"
    using w_ends_total[OF nk, of latent_h latent_w] by auto
  let ?u = "text_len + length ks * ((latent_h div 2) * (latent_w div 2)) +
         audio_t * audio_channel + latent_t * ((latent_h div 2) * (latent_w div 2))"
  have "cu_seqlens_of ?u (ceil_mult 64 ?u) = Inr [0, ?u, ceil_mult 64 ?u]"
    using *(4) by (rule cu_seqlens_total) (simp add: ceil_mult_ge)
  then show ?L unfolding minimax_h3_packed_sequence_def Let_def PATCH_H_def PATCH_W_def
      MINIMAX_H3_PACKED_SEQUENCE_ALIGNMENT_def
    using write_keyframes_returns[OF *(1,2)] *(1-3) by (simp add: rbind_Inr_iff)
qed

text \<open>A block whose reference audio needs the width axis of its own video.\<close>

fun block_axis_ok :: "ref_item \<Rightarrow> bool" where
  "block_axis_ok (RefVideo kind ref_t vt vh vw fr ar vr) \<longleftrightarrow> ref_t = 0 \<or> 2 \<le> vw"
| "block_axis_ok _ \<longleftrightarrow> True"

lemma write_block_returns:
  assumes nk: "nk_ok nk" and w: "2 \<le> latent_w"
  shows "(\<exists>r. write_block nk ch (w_grid_of nk latent_h latent_w) (item, a, v) (g, t) = Inr r) \<longleftrightarrow> block_axis_ok item"
proof -
  obtain x where x: "w_ends (w_grid_of nk latent_h latent_w) = Inr x" using w_ends_total[OF nk] w by blast
  show ?thesis
  proof (cases item)
    case (RefVideo kind ref_t vt vh vw fr ar vr)
    then show ?thesis using w_ends_total[OF nk, of vh vw]
      by (cases "w_ends (w_grid_of nk vh vw)") (auto simp: write_ref_audio_def res_simps split: prod.splits)
  qed (use x in \<open>auto simp: write_ref_audio_def res_simps split: prod.splits\<close>)
qed

lemma write_blocks_return:
  assumes nk: "nk_ok nk" and w: "2 \<le> latent_w"
  shows "(\<exists>r. rfold (write_block nk ch (w_grid_of nk latent_h latent_w)) pl (g, t) = Inr r) \<longleftrightarrow>
    list_all block_axis_ok (map fst pl)"
proof (induction pl arbitrary: g t)
  case (Cons b pl)
  obtain item a v where b: "b = (item, a, v)" by (cases b)
  show ?case
  proof (cases "write_block nk ch (w_grid_of nk latent_h latent_w) b (g, t)")
    case (Inl e)
    then show ?thesis using write_block_returns[OF nk w, of ch latent_h item a v g t] b by simp
  next
    case (Inr r)
    then show ?thesis using write_block_returns[OF nk w, of ch latent_h item a v g t] b Cons.IH[of "fst r" "snd r"] by auto
  qed
qed simp

lemma place_blocks_items: "map fst (fst (place_blocks items c)) = items"
  by (induction items arbitrary: c) (simp_all add: Let_def split: prod.splits, metis fst_conv)

lemma ref2va_returns_iff:
  assumes nk: "nk_ok nk"
  shows "(\<exists>p. minimax_h3_packed_sequence_ref2va_blocks nk text_len latent_t latent_h latent_w audio_t ref_blocks
      kfi frame_count audio_channel seq_len0 vp = Inr p) \<longleftrightarrow>
    (\<exists>items ks rs used n. parse_ref_blocks audio_channel ref_blocks = Inr items \<and>
       keyframe_cond_frame_indices (kfi \<noteq> None) kfi = Inr ks \<and> resolve_keyframe_frame_indices ks frame_count = Inr rs \<and>
       used = text_len + length ks * ((latent_h div 2) * (latent_w div 2)) +
         (sum_list (map item_visual_rows items) + sum_list (map item_audio_rows items)) +
         audio_t * audio_channel + latent_t * ((latent_h div 2) * (latent_w div 2)) \<and>
       n = (case seq_len0 of None \<Rightarrow> ceil_mult 64 used | Some n \<Rightarrow> n) \<and>
       used \<le> n \<and> int n \<le> 2147483647 \<and> 2 \<le> latent_w \<and> list_all block_axis_ok items)"
    (is "?L \<longleftrightarrow> ?R")
proof -
  note defs = minimax_h3_packed_sequence_ref2va_blocks_def Let_def PATCH_H_def PATCH_W_def
      MINIMAX_H3_PACKED_SEQUENCE_ALIGNMENT_def
  show ?thesis
  proof
    assume ?L
    then obtain p where p: "minimax_h3_packed_sequence_ref2va_blocks nk text_len latent_t latent_h latent_w audio_t ref_blocks
      kfi frame_count audio_channel seq_len0 vp = Inr p" ..
    obtain items where i: "parse_ref_blocks audio_channel ref_blocks = Inr items"
      using p unfolding defs by (auto simp: rbind_Inr_iff)
    obtain ks where k: "keyframe_cond_frame_indices (kfi \<noteq> None) kfi = Inr ks"
      using p i unfolding defs by (auto simp: rbind_Inr_iff simp del: not_None_eq)
    obtain rs where r: "resolve_keyframe_frame_indices ks frame_count = Inr rs"
      using p i k unfolding defs by (auto simp: rbind_Inr_iff simp del: not_None_eq)
    let ?f = "(latent_h div 2) * (latent_w div 2)"
    let ?u = "text_len + length ks * ?f + (sum_list (map item_visual_rows items) + sum_list (map item_audio_rows items)) +
         audio_t * audio_channel + latent_t * ?f"
    let ?n = "case seq_len0 of None \<Rightarrow> ceil_mult 64 ?u | Some n \<Rightarrow> n"
    obtain pl c where pl: "place_blocks items (text_len + length ks * ?f) = (pl, c)" by (cases "place_blocks items (text_len + length ks * ?f)")
    from p have p2: "\<not> ?n < ?u" "\<exists>r. rfold (write_block nk audio_channel (w_grid_of nk latent_h latent_w)) pl
        (write_rows 0 (text_rows text_len) (replicate ?n zero_row), float_of_nat text_len) = Inr r"
      "\<exists>w. w_ends (w_grid_of nk latent_h latent_w) = Inr w" "\<exists>cu. cu_seqlens_of ?u ?n = Inr cu"
      unfolding defs by (simp_all add: i k r pl res_simps del: not_None_eq) blast+
    have w: "2 \<le> latent_w" using p2(3) w_ends_total[OF nk] by blast
    have "map fst pl = items" using place_blocks_items[of items "text_len + length ks * ?f"] pl by simp
    then have "list_all block_axis_ok items" using p2(2) write_blocks_return[OF nk w] by blast
    moreover have "int ?n \<le> 2147483647" using p2(4) by (auto simp: cu_seqlens_of_def raise_if_def split: if_splits)
    ultimately show ?R using i k r p2(1) w by (intro exI[of _ items] exI[of _ ks] exI[of _ rs] exI[of _ ?u] exI[of _ ?n]) simp
  next
    assume ?R
    then obtain items ks rs used n where *: "parse_ref_blocks audio_channel ref_blocks = Inr items"
       "keyframe_cond_frame_indices (kfi \<noteq> None) kfi = Inr ks" "resolve_keyframe_frame_indices ks frame_count = Inr rs"
       "used = text_len + length ks * ((latent_h div 2) * (latent_w div 2)) +
         (sum_list (map item_visual_rows items) + sum_list (map item_audio_rows items)) +
         audio_t * audio_channel + latent_t * ((latent_h div 2) * (latent_w div 2))"
       "n = (case seq_len0 of None \<Rightarrow> ceil_mult 64 used | Some n \<Rightarrow> n)"
       "used \<le> n" "int n \<le> 2147483647" "2 \<le> latent_w" "list_all block_axis_ok items" by blast
    obtain w0 w1 where w: "w_ends (w_grid_of nk latent_h latent_w) = Inr (w0, w1)"
      using w_ends_total[OF nk] *(8) by (metis surj_pair)
    obtain pl c where pl: "place_blocks items (text_len + length ks * ((latent_h div 2) * (latent_w div 2))) = (pl, c)"
      by (cases "place_blocks items (text_len + length ks * ((latent_h div 2) * (latent_w div 2)))")
    have "map fst pl = items" using place_blocks_items[of items "text_len + length ks * ((latent_h div 2) * (latent_w div 2))"] pl by simp
    then obtain g t where g: "rfold (write_block nk audio_channel (w_grid_of nk latent_h latent_w)) pl
        (write_rows 0 (text_rows text_len) (replicate n zero_row), float_of_nat text_len) = Inr (g, t)"
      using write_blocks_return[OF nk *(8)] *(9) by (metis surj_pair)
    have le: "\<not> n < used" using *(6) by simp
    show ?L unfolding defs
      using write_keyframes_returns[OF *(2,3)]
      by (simp add: *(1-3) w pl g[unfolded *(4,5)] le[unfolded *(4,5)] cu_seqlens_total[OF *(7,6), unfolded *(4,5)]
          rbind_Inr_iff raise_if_Inr_iff del: not_None_eq)
  qed
qed

end
