(* ===== verification/Packed_Tokens.thy ===== *)
theory Packed_Tokens
  imports Tensor
begin

text \<open>
  \<^verbatim>\<open>minimax_h3/packed_tokens.py\<close>: the conversion between the video latent
  \<^verbatim>\<open>[B, C, T, H, W]\<close> and the token rows of the transformer, and the unpacking of audio rows.
  \<^verbatim>\<open>contiguous()\<close> only changes the memory layout and is the identity here.
\<close>

section \<open>Operations\<close>

definition int_tuple :: "int list \<Rightarrow> string \<Rightarrow> nat \<Rightarrow> nat list res" where
  "int_tuple value name len =
     raise_if (length value \<noteq> len) (ValueError (name @ '' must have the required length''))
     (raise_if (\<exists>x \<in> set value. x \<le> 0) (ValueError (name @ '' values must be positive''))
       (Inr (map nat value)))"

definition check_rank :: "'a tensor \<Rightarrow> string \<Rightarrow> nat \<Rightarrow> unit res" where
  "check_rank t name rank = raise_if (length (t_shape t) \<noteq> rank)
     (ValueError (name @ '' must be of the required rank'')) (Inr ())"

text \<open>The index renamings \<^verbatim>\<open>"nctrhpwq->nthwcrpq"\<close> and \<^verbatim>\<open>"nthwcrpq->nctrhpwq"\<close>.\<close>

definition patch_axes :: "nat list" where
  "patch_axes = [0, 2, 4, 6, 1, 3, 5, 7]"

definition unpatch_axes :: "nat list" where
  "unpatch_axes = [0, 4, 1, 5, 2, 6, 3, 7]"

definition minimax_h3_patchify_video_latent :: "'a tensor \<Rightarrow> int list \<Rightarrow> 'a tensor res" where
  "minimax_h3_patchify_video_latent latent patch_size =
     rbind (check_rank latent ''video latent'' 5) (\<lambda>_.
     rbind (int_tuple patch_size ''patch_size'' 3) (\<lambda>ps.
     case (ps, t_shape latent) of
       ([pt, ph, pw], [batch, channel, full_t, full_h, full_w]) \<Rightarrow>
         raise_if (full_t mod pt \<noteq> 0 \<or> full_h mod ph \<noteq> 0 \<or> full_w mod pw \<noteq> 0)
           (ValueError ''video latent spatial/time dims must be divisible by patch_size'')
         (let t = full_t div pt; h = full_h div ph; w = full_w div pw in
          rbind (reshape [batch, channel, t, pt, h, ph, w, pw] latent) (\<lambda>packed.
          reshape [batch * t * h * w, channel * pt * ph * pw] (permute patch_axes packed)))
     | _ \<Rightarrow> Inl (ValueError ''unpacking'')))"

text \<open>\<^verbatim>\<open>reshape(-1, ...)\<close>: the first dimension is what the others leave.\<close>

definition minimax_h3_unpatchify_video_tokens :: "'a tensor \<Rightarrow> int list \<Rightarrow> int list \<Rightarrow> 'a tensor res" where
  "minimax_h3_unpatchify_video_tokens rows latent_shape patch_size =
     rbind (check_rank rows ''video token rows'' 2) (\<lambda>_.
     rbind (int_tuple latent_shape ''latent_shape'' 4) (\<lambda>ls.
     rbind (int_tuple patch_size ''patch_size'' 3) (\<lambda>ps.
     case (ls, ps, t_shape rows) of
       ([t, h, w, channel], [pt, ph, pw], [nrows, ncols]) \<Rightarrow>
         raise_if (ncols \<noteq> pt * ph * pw * channel)
           (ValueError ''video token dim != patch volume * channel'')
         (raise_if (nrows mod (t * h * w) \<noteq> 0)
           (ValueError ''video rows must be divisible by t*h*w'')
         (let n = nrows div (t * h * w) in
          rbind (reshape [n, t, h, w, channel, pt, ph, pw] rows) (\<lambda>packed.
          reshape [n, channel, t * pt, h * ph, w * pw] (permute unpatch_axes packed))))
     | _ \<Rightarrow> Inl (ValueError ''unpacking''))))"

definition minimax_h3_unpack_audio_tokens :: "'a tensor \<Rightarrow> int \<Rightarrow> int \<Rightarrow> 'a tensor res" where
  "minimax_h3_unpack_audio_tokens rows audio_t audio_channel =
     rbind (check_rank rows ''audio token rows'' 2) (\<lambda>_.
     raise_if (audio_t \<le> 0 \<or> audio_channel \<le> 0)
       (ValueError ''audio_t and audio_channel must be positive'')
     (case t_shape rows of
        [nrows, ncols] \<Rightarrow>
          raise_if (int nrows \<noteq> audio_t) (ValueError ''audio rows != audio_t'')
          (raise_if (audio_t mod audio_channel \<noteq> 0)
             (ValueError ''audio_t must be divisible by audio_channel'')
          (rbind (reshape [nat audio_channel, nat (audio_t div audio_channel), ncols] rows) (\<lambda>native.
           Inr (permute [0, 2, 1] native))))
      | _ \<Rightarrow> Inl (ValueError ''unpacking'')))"

section \<open>Lemmas\<close>

lemma patch_axes_perm: "is_perm patch_axes" "inv_perm patch_axes = unpatch_axes"
  "is_perm unpatch_axes" "inv_perm unpatch_axes = patch_axes"
  by (auto simp: is_perm_def patch_axes_def unpatch_axes_def inv_perm_def upt_conv_Cons)

lemma axes_length: "length patch_axes = 8" "length unpatch_axes = 8"
  by (simp_all add: patch_axes_def unpatch_axes_def)

lemma int_tuple_Inr: "int_tuple v name n = Inr ks \<longleftrightarrow> length v = n \<and> (\<forall>x \<in> set v. 0 < x) \<and> ks = map nat v"
  by (auto simp: int_tuple_def res_simps not_le)

lemma check_rank_Inr [res_simps]: "check_rank t name n = Inr u \<longleftrightarrow> length (t_shape t) = n"
  by (auto simp: check_rank_def res_simps)

lemma length_3_int: "length v = 3 \<longleftrightarrow> (\<exists>a b c. v = [a, b, c])"
  by (auto simp: length_Suc_conv numeral_3_eq_3)

lemma length_4_int: "length v = 4 \<longleftrightarrow> (\<exists>a b c d. v = [a, b, c, d])"
  by (auto simp: length_Suc_conv numeral_eq_Suc)

lemma length_5_nat: "length v = 5 \<longleftrightarrow> (\<exists>a b c d e. v = [a, b, c, d, e])"
  by (auto simp: length_Suc_conv numeral_eq_Suc)

lemma length_2_nat: "length v = 2 \<longleftrightarrow> (\<exists>a b. v = [a, b])"
  by (auto simp: length_Suc_conv numeral_eq_Suc)

lemma permute_patch_shape:
  "t_shape x = [b, c, t, pt, h, ph, w, pw] \<Longrightarrow> t_shape (permute patch_axes x) = [b, t, h, w, c, pt, ph, pw]"
  "t_shape x = [b, t, h, w, c, pt, ph, pw] \<Longrightarrow> t_shape (permute unpatch_axes x) = [b, c, t, pt, h, ph, w, pw]"
  by (simp_all add: permute_def Let_def gather_def patch_axes_def unpatch_axes_def numeral_eq_Suc)

lemma length_permute [simp]: "length (t_data (permute p x)) = length (t_data x)"
  by (simp add: permute_def Let_def)

lemma tensor_ok_update: "tensor_ok (x\<lparr>t_shape := s\<rparr>) \<longleftrightarrow> length (t_data x) = numel s"
  by (simp add: tensor_ok_def)

lemma update_shape_eq: "t_shape x = s \<Longrightarrow> (x\<lparr>t_shape := s'\<rparr>)\<lparr>t_shape := s\<rparr> = x"
  by (cases x) simp

text \<open>The result of a successful patchify, in terms of the permuted tensor.\<close>

lemma patchify_eq:
  assumes "tensor_ok latent" and "t_shape latent = [b, c, t * pt, h * ph, w * pw]"
    and "0 < pt" "0 < ph" "0 < pw"
  shows "minimax_h3_patchify_video_latent latent [int pt, int ph, int pw] =
    Inr ((permute patch_axes (latent\<lparr>t_shape := [b, c, t, pt, h, ph, w, pw]\<rparr>))
           \<lparr>t_shape := [b * t * h * w, c * pt * ph * pw]\<rparr>)"
  using assms
  by (simp add: minimax_h3_patchify_video_latent_def check_rank_def int_tuple_def reshape_def Let_def
      tensor_ok_def mult_ac)

lemma unpatchify_eq:
  assumes "length (t_data rows) = b * t * h * w * (c * pt * ph * pw)"
    and "t_shape rows = [b * t * h * w, c * pt * ph * pw]"
    and "0 < t" "0 < h" "0 < w" "0 < c" "0 < pt" "0 < ph" "0 < pw"
  shows "minimax_h3_unpatchify_video_tokens rows [int t, int h, int w, int c] [int pt, int ph, int pw] =
    Inr ((permute unpatch_axes (rows\<lparr>t_shape := [b, t, h, w, c, pt, ph, pw]\<rparr>))
           \<lparr>t_shape := [b, c, t * pt, h * ph, w * pw]\<rparr>)"
proof -
  have n: "b * t * h * w div (t * h * w) = b" "b * t * h * w mod (t * h * w) = 0"
    using assms(3-5) by (simp_all add: mult.assoc)
  show ?thesis using assms
    by (simp add: minimax_h3_unpatchify_video_tokens_def check_rank_def int_tuple_def reshape_def Let_def n
        mult_ac)
qed

lemma patch_unpatch_permute:
  assumes "tensor_ok x" and "t_shape x = [b, c, t, pt, h, ph, w, pw]"
  shows "permute unpatch_axes (permute patch_axes x) = x"
  using permute_inverse[OF patch_axes_perm(1) _ assms(1)] assms(2)
  by (simp add: patch_axes_perm(2) axes_length)

lemma unpatch_patch_permute:
  assumes "tensor_ok x" and "t_shape x = [b, t, h, w, c, pt, ph, pw]"
  shows "permute patch_axes (permute unpatch_axes x) = x"
  using permute_inverse[OF patch_axes_perm(3) _ assms(1)] assms(2)
  by (simp add: patch_axes_perm(4) axes_length)

text \<open>Packing and unpacking are inverse to each other.\<close>

lemma unpatchify_patchify:
  assumes ok: "tensor_ok latent" and sh: "t_shape latent = [b, c, t * pt, h * ph, w * pw]"
    and pos: "0 < t" "0 < h" "0 < w" "0 < c" "0 < pt" "0 < ph" "0 < pw"
  obtains rows where "minimax_h3_patchify_video_latent latent [int pt, int ph, int pw] = Inr rows"
    "t_shape rows = [b * t * h * w, c * pt * ph * pw]"
    "minimax_h3_unpatchify_video_tokens rows [int t, int h, int w, int c] [int pt, int ph, int pw] = Inr latent"
proof -
  let ?x = "latent\<lparr>t_shape := [b, c, t, pt, h, ph, w, pw]\<rparr>"
  let ?y = "permute patch_axes ?x"
  let ?rows = "?y\<lparr>t_shape := [b * t * h * w, c * pt * ph * pw]\<rparr>"
  have x: "tensor_ok ?x" "t_shape ?x = [b, c, t, pt, h, ph, w, pw]"
    using ok sh by (simp_all add: tensor_ok_def mult_ac)
  have ys: "t_shape ?y = [b, t, h, w, c, pt, ph, pw]" by (rule permute_patch_shape(1)[OF x(2)])
  have "minimax_h3_unpatchify_video_tokens ?rows [int t, int h, int w, int c] [int pt, int ph, int pw] =
      Inr ((permute unpatch_axes (?rows\<lparr>t_shape := [b, t, h, w, c, pt, ph, pw]\<rparr>))
           \<lparr>t_shape := [b, c, t * pt, h * ph, w * pw]\<rparr>)"
    using x pos by (intro unpatchify_eq) (simp_all add: tensor_ok_def mult_ac)
  also have "?rows\<lparr>t_shape := [b, t, h, w, c, pt, ph, pw]\<rparr> = ?y" by (rule update_shape_eq[OF ys])
  also have "permute unpatch_axes ?y = ?x" by (rule patch_unpatch_permute[OF x])
  also have "?x\<lparr>t_shape := [b, c, t * pt, h * ph, w * pw]\<rparr> = latent" by (rule update_shape_eq[OF sh])
  finally show ?thesis using that patchify_eq[OF ok sh pos(5-7)] by simp
qed

lemma patchify_unpatchify:
  assumes ok: "tensor_ok rows" and sh: "t_shape rows = [b * t * h * w, c * pt * ph * pw]"
    and pos: "0 < t" "0 < h" "0 < w" "0 < c" "0 < pt" "0 < ph" "0 < pw"
  obtains latent where
    "minimax_h3_unpatchify_video_tokens rows [int t, int h, int w, int c] [int pt, int ph, int pw] = Inr latent"
    "t_shape latent = [b, c, t * pt, h * ph, w * pw]"
    "minimax_h3_patchify_video_latent latent [int pt, int ph, int pw] = Inr rows"
proof -
  let ?x = "rows\<lparr>t_shape := [b, t, h, w, c, pt, ph, pw]\<rparr>"
  let ?y = "permute unpatch_axes ?x"
  let ?latent = "?y\<lparr>t_shape := [b, c, t * pt, h * ph, w * pw]\<rparr>"
  have len: "length (t_data rows) = b * t * h * w * (c * pt * ph * pw)"
    using ok sh by (simp add: tensor_ok_def)
  have x: "tensor_ok ?x" "t_shape ?x = [b, t, h, w, c, pt, ph, pw]"
    using len by (simp_all add: tensor_ok_def mult_ac)
  have ys: "t_shape ?y = [b, c, t, pt, h, ph, w, pw]" by (rule permute_patch_shape(2)[OF x(2)])
  have "minimax_h3_patchify_video_latent ?latent [int pt, int ph, int pw] =
      Inr ((permute patch_axes (?latent\<lparr>t_shape := [b, c, t, pt, h, ph, w, pw]\<rparr>))
           \<lparr>t_shape := [b * t * h * w, c * pt * ph * pw]\<rparr>)"
    using len pos by (intro patchify_eq) (simp_all add: tensor_ok_def mult_ac)
  also have "?latent\<lparr>t_shape := [b, c, t, pt, h, ph, w, pw]\<rparr> = ?y" by (rule update_shape_eq[OF ys])
  also have "permute patch_axes ?y = ?x" by (rule unpatch_patch_permute[OF x])
  also have "?x\<lparr>t_shape := [b * t * h * w, c * pt * ph * pw]\<rparr> = rows" by (rule update_shape_eq[OF sh])
  finally show ?thesis using that unpatchify_eq[OF len sh pos] by simp
qed

text \<open>Element \<open>(ch, d, i)\<close> of the unpacked audio latent is column \<open>d\<close> of the channel-major row
  \<open>ch * T + i\<close>.\<close>

lemma unpack_audio_element:
  assumes ok: "tensor_ok rows" and sh: "t_shape rows = [nch * T, ncols]"
    and pos: "0 < nch" "0 < T" and i: "ch < nch" "d < ncols" "i < T"
  obtains out where "minimax_h3_unpack_audio_tokens rows (int (nch * T)) (int nch) = Inr out"
    "t_shape out = [nch, ncols, T]"
    "t_data out ! ravel [nch, ncols, T] [ch, d, i] = t_data rows ! ((ch * T + i) * ncols + d)"
proof -
  let ?x = "rows\<lparr>t_shape := [nch, T, ncols]\<rparr>"
  let ?out = "permute [0, 2, 1] ?x"
  have len: "length (t_data rows) = nch * T * ncols" using ok sh by (simp add: tensor_ok_def)
  have s: "t_shape ?out = [nch, ncols, T]" by (simp add: permute_def Let_def gather_def numeral_2_eq_2)
  have "minimax_h3_unpack_audio_tokens rows (int (nch * T)) (int nch) = Inr ?out"
    using len sh pos by (simp add: minimax_h3_unpack_audio_tokens_def check_rank_def reshape_def mult_ac mult_le_0_iff)
  moreover have "t_data ?out ! ravel [nch, ncols, T] [ch, d, i] = t_data rows ! ((ch * T + i) * ncols + d)"
  proof -
    have sh': "in_shape [nch, ncols, T] [ch, d, i]" using i by simp
    have k: "ravel [nch, ncols, T] [ch, d, i] < length (t_data rows)"
      using ravel_less[OF sh'] len by (simp add: mult_ac)
    have iv: "gather (inv_perm [0, 2, 1]) [ch, d, i] = [ch, i, d]"
      and gs: "gather [0, 2, 1] [nch, T, ncols] = [nch, ncols, T]"
      by (simp_all add: inv_perm_def upt_conv_Cons gather_def numeral_2_eq_2)
    have xd: "t_data ?x = t_data rows" "t_shape ?x = [nch, T, ncols]" by simp_all
    note permute_nth[of "ravel [nch, ncols, T] [ch, d, i]" ?x "[0, 2, 1]", unfolded xd gs, OF k]
    then show ?thesis unfolding unravel_ravel[OF sh'] iv by (simp add: algebra_simps)
  qed
  ultimately show ?thesis using that s by blast
qed

end
