(* ===== verification/Presentation.thy ===== *)
theory Presentation
  imports Py_Value
begin

text \<open>
  \<^verbatim>\<open>minimax_h3/presentation.py\<close>: the token stream the text encoder reads, with its modality tags
  and the mask of video tokens. The tokenizer is a parameter: the ids of a text, and the id of a
  special token.
\<close>

section \<open>The accumulator\<close>

record tokenizer =
  tok_text :: "string \<Rightarrow> int list"
  tok_id :: "string \<Rightarrow> int"

definition VISION_START :: string where
  "VISION_START = ''<|vision_start|>''"

definition VISION_END :: string where
  "VISION_END = ''<|vision_end|>''"

definition IMAGE_PAD :: string where
  "IMAGE_PAD = ''<|image_pad|>''"

definition VIDEO_PAD :: string where
  "VIDEO_PAD = ''<|video_pad|>''"

definition vision_block_ids :: "tokenizer \<Rightarrow> string \<Rightarrow> int \<Rightarrow> int list" where
  "vision_block_ids tk pad_token cnt =
     [tok_id tk VISION_START] @ replicate (nat cnt) (tok_id tk pad_token) @ [tok_id tk VISION_END]"

record presentation =
  pr_ids :: "int list"
  pr_tags :: "int list"
  pr_video_mask :: "bool list option"

definition presentation_init :: "bool \<Rightarrow> presentation" where
  "presentation_init track = \<lparr>pr_ids = [], pr_tags = [], pr_video_mask = (if track then Some [] else None)\<rparr>"

definition pr_text :: "int list \<Rightarrow> presentation \<Rightarrow> presentation" where
  "pr_text token_ids p = p\<lparr>pr_ids := pr_ids p @ token_ids,
     pr_tags := pr_tags p @ replicate (length token_ids) 1,
     pr_video_mask := map_option (\<lambda>m. m @ replicate (length token_ids) False) (pr_video_mask p)\<rparr>"

definition pr_vision :: "int list \<Rightarrow> int option \<Rightarrow> presentation \<Rightarrow> presentation" where
  "pr_vision token_ids video_token_id p = p\<lparr>pr_ids := pr_ids p @ token_ids,
     pr_tags := pr_tags p @ replicate (length token_ids) 0,
     pr_video_mask := map_option (\<lambda>m. m @ map (\<lambda>t. video_token_id = Some t) token_ids) (pr_video_mask p)\<rparr>"

definition pr_build :: "bool \<Rightarrow> presentation \<Rightarrow> (int list \<times> int list \<times> bool list option) res" where
  "pr_build return_video_mask p =
     (if \<not> return_video_mask then Inr (pr_ids p, pr_tags p, None)
      else case pr_video_mask p of
        None \<Rightarrow> Inl (ValueError ''video mask was not tracked for this presentation'')
      | Some m \<Rightarrow> Inr (pr_ids p, pr_tags p, Some m))"

section \<open>Presentations\<close>

text \<open>\<^verbatim>\<open>f"{t:.1f}"\<close>: the exact value rounded half to even at one decimal.\<close>

definition show_1f :: "pyfloat \<Rightarrow> string" where
  "show_1f x = (case x of
      Fin a \<Rightarrow> (let n = round_even (\<bar>a\<bar> * 10) in
        (if a < 0 then ''-'' else []) @ show_int (n div 10) @ ''.'' @ show_int (n mod 10))
    | PInf \<Rightarrow> ''inf'' | MInf \<Rightarrow> ''-inf'' | NaN \<Rightarrow> ''nan'')"

definition timestamp_text :: "pyfloat \<Rightarrow> string" where
  "timestamp_text t = ''<'' @ show_1f t @ '' seconds>''"

definition timestamped_video_blocks ::
  "tokenizer \<Rightarrow> int list \<Rightarrow> pyfloat list \<Rightarrow> int option \<Rightarrow> presentation \<Rightarrow> presentation res" where
  "timestamped_video_blocks tk counts timestamps video_token_id p =
     raise_if (counts = [] \<or> length counts \<noteq> length timestamps)
       (ValueError ''video block token counts and timestamps must align'')
     (rfold (\<lambda>(cnt, timestamp) p.
        raise_if (cnt \<le> 0) (ValueError ''video block token count must be positive'')
        (Inr (pr_vision (vision_block_ids tk VIDEO_PAD cnt) video_token_id
               (pr_text (tok_text tk (timestamp_text timestamp)) p))))
       (zip counts timestamps) p)"

definition minimax_h3_text_only_ids :: "tokenizer \<Rightarrow> string \<Rightarrow> int list res" where
  "minimax_h3_text_only_ids tk prompt =
     raise_if (prompt = []) (ValueError ''prompt must be non-empty'') (Inr (tok_text tk prompt))"

definition label_text :: "string \<Rightarrow> int \<Rightarrow> string" where
  "label_text name ordinal = ''<'' @ name @ '' '' @ show_int ordinal @ ''>: ''"

definition minimax_h3_multi_image_presentation ::
  "tokenizer \<Rightarrow> string \<Rightarrow> int list \<Rightarrow> (int list \<times> int list \<times> bool list option) res" where
  "minimax_h3_multi_image_presentation tk prompt image_token_counts =
     raise_if (image_token_counts = []) (ValueError ''image_token_counts must be non-empty'')
     (rbind (rfold (\<lambda>(index, cnt) p.
          raise_if (cnt \<le> 0) (ValueError ''image_token_count must be positive'')
          (Inr (pr_vision (vision_block_ids tk IMAGE_PAD cnt) None
                 (pr_text (tok_text tk (label_text ''Picture'' (int index))) p))))
        (enumerate 1 image_token_counts) (presentation_init False)) (\<lambda>p.
      pr_build False (pr_text (tok_text tk prompt) p)))"

text \<open>The readers of counts and timestamps.\<close>

definition as_int_list :: "pyval \<Rightarrow> int list res" where
  "as_int_list v = (case v of
      PNone \<Rightarrow> Inr []
    | PInt n \<Rightarrow> Inr [n]
    | PBool b \<Rightarrow> Inr [if b then 1 else 0]
    | PList l \<Rightarrow> rmap py_int l
    | _ \<Rightarrow> Inl (ValueError ''must be an int or a sequence of ints''))"

definition as_nested_list :: "(pyval \<Rightarrow> 'a res) \<Rightarrow> pyval \<Rightarrow> 'a list list res" where
  "as_nested_list conv v = (case v of
      PNone \<Rightarrow> Inr []
    | PList [] \<Rightarrow> Inr []
    | PList (PList g # rest) \<Rightarrow> rmap (\<lambda>group. case group of
          PList items \<Rightarrow> rmap conv items
        | _ \<Rightarrow> Inl (ValueError ''must not mix nested and flat entries'')) (PList g # rest)
    | PList flat \<Rightarrow> rbind (rmap conv flat) (\<lambda>xs. Inr [xs])
    | _ \<Rightarrow> Inl (ValueError ''must be a sequence''))"

definition as_nested_int_list :: "pyval \<Rightarrow> int list list res" where
  "as_nested_int_list = as_nested_list py_int"

definition as_nested_float_list :: "pyval \<Rightarrow> pyfloat list list res" where
  "as_nested_float_list = as_nested_list py_float"

definition ref2va_step ::
  "tokenizer \<Rightarrow> int option \<Rightarrow> int list \<Rightarrow> int list list \<Rightarrow> pyfloat list list \<Rightarrow> string \<times> int
   \<Rightarrow> presentation \<times> nat \<times> nat \<Rightarrow> (presentation \<times> nat \<times> nat) res" where
  "ref2va_step tk video_token_id image_counts video_counts video_times lab st =
     (case (lab, st) of ((cond_type, ordinal), (p, image_seen, video_seen)) \<Rightarrow>
      if cond_type = ''image'' then
        raise_if (image_seen + 1 > length image_counts)
          (ValueError ''image_token_count required for an image reference'')
        (let cnt = image_counts ! image_seen in
         raise_if (cnt \<le> 0) (ValueError ''image_token_count required for an image reference'')
         (Inr (pr_vision (vision_block_ids tk IMAGE_PAD cnt) None
                 (pr_text (tok_text tk (label_text ''Picture'' ordinal)) p), image_seen + 1, video_seen)))
      else if cond_type = ''audio'' then
        Inr (pr_text (tok_text tk (label_text ''Audio'' ordinal)) p, image_seen, video_seen)
      else if cond_type = ''video'' then
        raise_if (video_seen + 1 > length video_counts)
          (ValueError ''video reference requires block token counts and timestamps'')
        (let counts = video_counts ! video_seen; timestamps = video_times ! video_seen in
         raise_if (counts = [] \<or> timestamps = [])
           (ValueError ''video reference requires block token counts and timestamps'')
         (rbind (timestamped_video_blocks tk counts timestamps video_token_id
                  (pr_text (tok_text tk (label_text ''Video'' ordinal)) p)) (\<lambda>p.
          Inr (p, image_seen, video_seen + 1))))
      else Inl (ValueError ''unsupported ref2va condition type''))"

definition minimax_h3_ref2va_video_presentation ::
  "tokenizer \<Rightarrow> string \<Rightarrow> (string \<times> int) list \<Rightarrow> pyval \<Rightarrow> pyval \<Rightarrow> pyval \<Rightarrow> bool
   \<Rightarrow> (int list \<times> int list \<times> bool list option) res" where
  "minimax_h3_ref2va_video_presentation tk prompt condition_labels image_token_count
      video_block_token_counts video_block_timestamps return_video_mask =
     raise_if (prompt = []) (ValueError ''prompt must be non-empty'')
     (let video_token_id = (if return_video_mask then Some (tok_id tk VIDEO_PAD) else None) in
      rbind (as_int_list image_token_count) (\<lambda>image_counts.
      rbind (as_nested_int_list video_block_token_counts) (\<lambda>video_counts.
      rbind (as_nested_float_list video_block_timestamps) (\<lambda>video_times.
      raise_if (length video_counts \<noteq> length video_times)
        (ValueError ''video block token counts and timestamps must align'')
      (rbind (rfold (ref2va_step tk video_token_id image_counts video_counts video_times) condition_labels
               (presentation_init return_video_mask, 0, 0)) (\<lambda>(p, image_seen, video_seen).
       raise_if (image_seen \<noteq> length image_counts) (ValueError ''unused image_token_count entries'')
       (raise_if (video_seen \<noteq> length video_counts) (ValueError ''unused video block token count entries'')
       (pr_build return_video_mask (pr_text (tok_text tk prompt) p)))))))))"

definition minimax_h3_ref2va_presentation ::
  "tokenizer \<Rightarrow> string \<Rightarrow> (string \<times> int) list \<Rightarrow> pyval \<Rightarrow> (int list \<times> int list \<times> bool list option) res" where
  "minimax_h3_ref2va_presentation tk prompt condition_labels image_token_count =
     minimax_h3_ref2va_video_presentation tk prompt condition_labels image_token_count PNone PNone False"

section \<open>The segments of a presentation\<close>

text \<open>What a presentation is made of: text ids, image blocks and video blocks.\<close>

datatype segment = TextSeg "int list" | ImageSeg int | VideoSeg int

fun seg_ids :: "tokenizer \<Rightarrow> segment \<Rightarrow> int list" where
  "seg_ids tk (TextSeg ids) = ids"
| "seg_ids tk (ImageSeg n) = vision_block_ids tk IMAGE_PAD n"
| "seg_ids tk (VideoSeg n) = vision_block_ids tk VIDEO_PAD n"

fun seg_tags :: "segment \<Rightarrow> int list" where
  "seg_tags (TextSeg ids) = replicate (length ids) 1"
| "seg_tags (ImageSeg n) = replicate (nat n + 2) 0"
| "seg_tags (VideoSeg n) = replicate (nat n + 2) 0"

fun seg_mask :: "segment \<Rightarrow> bool list" where
  "seg_mask (TextSeg ids) = replicate (length ids) False"
| "seg_mask (ImageSeg n) = replicate (nat n + 2) False"
| "seg_mask (VideoSeg n) = [False] @ replicate (nat n) True @ [False]"

fun apply_seg :: "tokenizer \<Rightarrow> int option \<Rightarrow> segment \<Rightarrow> presentation \<Rightarrow> presentation" where
  "apply_seg tk vid (TextSeg ids) p = pr_text ids p"
| "apply_seg tk vid (ImageSeg n) p = pr_vision (vision_block_ids tk IMAGE_PAD n) None p"
| "apply_seg tk vid (VideoSeg n) p = pr_vision (vision_block_ids tk VIDEO_PAD n) vid p"

definition video_segments :: "tokenizer \<Rightarrow> int list \<Rightarrow> pyfloat list \<Rightarrow> segment list" where
  "video_segments tk counts stamps =
     concat (map (\<lambda>(c, t). [TextSeg (tok_text tk (timestamp_text t)), VideoSeg c]) (zip counts stamps))"

text \<open>The segments of the conditions, consuming one count per image and one group of counts and
  timestamps per video, in request order.\<close>

fun ref_segments ::
  "tokenizer \<Rightarrow> (string \<times> int) list \<Rightarrow> int list \<Rightarrow> int list list \<Rightarrow> pyfloat list list \<Rightarrow> segment list" where
  "ref_segments tk [] ics vcs vts = []"
| "ref_segments tk ((ct, n) # labels) ics vcs vts =
     (if ct = ''image'' then TextSeg (tok_text tk (label_text ''Picture'' n)) # ImageSeg (hd ics)
         # ref_segments tk labels (tl ics) vcs vts
      else if ct = ''audio'' then TextSeg (tok_text tk (label_text ''Audio'' n))
         # ref_segments tk labels ics vcs vts
      else TextSeg (tok_text tk (label_text ''Video'' n)) # video_segments tk (hd vcs) (hd vts)
         @ ref_segments tk labels ics (tl vcs) (tl vts))"

lemma timestamped_video_blocks_segments:
  assumes "timestamped_video_blocks tk counts stamps vid p = Inr p'"
  shows "p' = fold (apply_seg tk vid) (video_segments tk counts stamps) p"
proof -
  have "rfold (\<lambda>(c, t) p. raise_if (c \<le> 0) (ValueError ''video block token count must be positive'')
        (Inr (pr_vision (vision_block_ids tk VIDEO_PAD c) vid
               (pr_text (tok_text tk (timestamp_text t)) p)))) cts p = Inr p' \<Longrightarrow>
      p' = fold (apply_seg tk vid) (concat (map (\<lambda>(c, t). [TextSeg (tok_text tk (timestamp_text t)), VideoSeg c]) cts)) p"
    for cts
    by (induction cts arbitrary: p) (auto simp: res_simps)
  then show ?thesis using assms by (auto simp: timestamped_video_blocks_def video_segments_def res_simps)
qed

lemma ref2va_step_Inr:
  assumes "ref2va_step tk vid ics vcs vts (ct, n) (p, i, v) = Inr st"
  obtains "ct = ''image''" "i < length ics"
      "st = (pr_vision (vision_block_ids tk IMAGE_PAD (ics ! i)) None
               (pr_text (tok_text tk (label_text ''Picture'' n)) p), Suc i, v)"
    | "ct = ''audio''" "st = (pr_text (tok_text tk (label_text ''Audio'' n)) p, i, v)"
    | p' where "ct = ''video''" "v < length vcs" "st = (p', i, Suc v)"
      "timestamped_video_blocks tk (vcs ! v) (vts ! v) vid (pr_text (tok_text tk (label_text ''Video'' n)) p) = Inr p'"
  using assms by (auto simp: ref2va_step_def res_simps Let_def split: if_splits)

lemma ref2va_fold_segments:
  assumes "rfold (ref2va_step tk vid ics vcs vts) labels (p, i, v) = Inr (p', i', v')"
    and "length vcs = length vts"
  shows "p' = fold (apply_seg tk vid) (ref_segments tk labels (drop i ics) (drop v vcs) (drop v vts)) p"
  using assms(1)
proof (induction labels arbitrary: p i v)
  case (Cons lab labels)
  obtain ct n where lab: "lab = (ct, n)" by (cases lab)
  obtain st where st: "ref2va_step tk vid ics vcs vts (ct, n) (p, i, v) = Inr st"
    and rest: "rfold (ref2va_step tk vid ics vcs vts) labels st = Inr (p', i', v')"
    using Cons.prems by (auto simp: res_simps lab)
  from st show ?case
  proof (cases rule: ref2va_step_Inr)
    case 1
    then show ?thesis using Cons.IH rest by (simp add: lab Cons_nth_drop_Suc[symmetric])
  next
    case 2
    then show ?thesis using Cons.IH rest by (simp add: lab)
  next
    case (3 q)
    then have "v < length vts" using assms(2) by simp
    then show ?thesis using 3 Cons.IH rest timestamped_video_blocks_segments[OF 3(4)]
      by (simp add: lab Cons_nth_drop_Suc[symmetric])
  qed
qed (auto simp: res_simps)

text \<open>The three lists grow in step.\<close>

definition video_ids_distinct :: "tokenizer \<Rightarrow> bool" where
  "video_ids_distinct tk \<longleftrightarrow> tok_id tk VIDEO_PAD \<noteq> tok_id tk VISION_START \<and> tok_id tk VIDEO_PAD \<noteq> tok_id tk VISION_END"

lemma vision_block_length: "length (vision_block_ids tk pad n) = nat n + 2"
  by (simp add: vision_block_ids_def)

lemma fold_apply_seg:
  "pr_ids (fold (apply_seg tk vid) segs p) = pr_ids p @ concat (map (seg_ids tk) segs)"
  "pr_tags (fold (apply_seg tk vid) segs p) = pr_tags p @ concat (map seg_tags segs)"
proof (induction segs arbitrary: p)
  case (Cons s segs)
  { case 1 then show ?case by (cases s) (simp_all add: Cons.IH pr_text_def pr_vision_def) }
  { case 2 then show ?case
      by (cases s) (simp_all add: Cons.IH pr_text_def pr_vision_def vision_block_length del: replicate_add) }
qed simp_all

lemma fold_apply_seg_mask:
  assumes "video_ids_distinct tk"
  shows "pr_video_mask (fold (apply_seg tk (Some (tok_id tk VIDEO_PAD))) segs p) =
     map_option (\<lambda>m. m @ concat (map seg_mask segs)) (pr_video_mask p)"
proof (induction segs arbitrary: p)
  case Nil
  then show ?case by (simp add: option.map_ident)
next
  case (Cons s segs)
  have v: "map (\<lambda>t. Some (tok_id tk VIDEO_PAD) = Some t) (vision_block_ids tk VIDEO_PAD n) = seg_mask (VideoSeg n)" for n
    using assms by (simp add: vision_block_ids_def video_ids_distinct_def)
  have i: "map (\<lambda>t. False) (vision_block_ids tk IMAGE_PAD n) = seg_mask (ImageSeg n)" for n
    by (simp add: vision_block_length map_replicate_const)
  show ?case by (cases s) (simp_all add: Cons.IH pr_text_def pr_vision_def option.map_comp comp_def v i
      del: seg_mask.simps(2,3) option.inject)
qed

lemma ref2va_presentation_segments:
  assumes "minimax_h3_ref2va_video_presentation tk prompt labels ic vc vt True = Inr (ids, tags, m)"
    and "video_ids_distinct tk"
  obtains ics vcs vts where "as_int_list ic = Inr ics" "as_nested_int_list vc = Inr vcs" "as_nested_float_list vt = Inr vts"
    "ids = concat (map (seg_ids tk) (ref_segments tk labels ics vcs vts @ [TextSeg (tok_text tk prompt)]))"
    "tags = concat (map seg_tags (ref_segments tk labels ics vcs vts @ [TextSeg (tok_text tk prompt)]))"
    "m = Some (concat (map seg_mask (ref_segments tk labels ics vcs vts @ [TextSeg (tok_text tk prompt)])))"
proof -
  obtain ics vcs vts p i v where r: "as_int_list ic = Inr ics" "as_nested_int_list vc = Inr vcs" "as_nested_float_list vt = Inr vts"
    "length vcs = length vts"
    "rfold (ref2va_step tk (Some (tok_id tk VIDEO_PAD)) ics vcs vts) labels (presentation_init True, 0, 0) = Inr (p, i, v)"
    "pr_build True (pr_text (tok_text tk prompt) p) = Inr (ids, tags, m)"
    using assms(1) by (auto simp: minimax_h3_ref2va_video_presentation_def Let_def res_simps)
  let ?segs = "ref_segments tk labels ics vcs vts"
  have p: "pr_text (tok_text tk prompt) p = fold (apply_seg tk (Some (tok_id tk VIDEO_PAD))) (?segs @ [TextSeg (tok_text tk prompt)]) (presentation_init True)"
    using ref2va_fold_segments[OF r(5,4)] by simp
  show thesis using that[OF r(1-3)] r(6) fold_apply_seg[of tk "Some (tok_id tk VIDEO_PAD)" "?segs @ [TextSeg (tok_text tk prompt)]" "presentation_init True"]
      fold_apply_seg_mask[OF assms(2), of "?segs @ [TextSeg (tok_text tk prompt)]" "presentation_init True"]
    unfolding p by (simp add: pr_build_def presentation_init_def)
qed

end
