(* ===== verification/Euler_Scheduler.thy ===== *)
theory Euler_Scheduler
  imports Py_Value
begin

text \<open>
  \<^verbatim>\<open>runtime/models/schedulers/scheduling_minimax_h3_euler_ancestral.py\<close>: the reference
  rectified-flow step. A tensor is its list of rows; its fp32 elements and their arithmetic are
  PyTorch's and enter as the parameter \<open>ops\<close>. A timestep is one fp32 value (the zero-dimensional
  tensor the pipeline passes), broadcast to every element.
\<close>

section \<open>fp32 rows\<close>

record 'f fp32_ops =
  f_of :: "pyfloat \<Rightarrow> 'f"
  f_add :: "'f \<Rightarrow> 'f \<Rightarrow> 'f"
  f_sub :: "'f \<Rightarrow> 'f \<Rightarrow> 'f"
  f_mul :: "'f \<Rightarrow> 'f \<Rightarrow> 'f"
  f_div :: "'f \<Rightarrow> 'f \<Rightarrow> 'f"
  f_isfinite :: "'f \<Rightarrow> bool"
  f_less :: "'f \<Rightarrow> 'f \<Rightarrow> bool"
  f_allclose :: "'f \<Rightarrow> 'f \<Rightarrow> bool"

type_synonym 'f rows = "'f list list"

definition rows_map :: "('f \<Rightarrow> 'f) \<Rightarrow> 'f rows \<Rightarrow> 'f rows" where
  "rows_map f xs = map (map f) xs"

definition rows_zip :: "('f \<Rightarrow> 'f \<Rightarrow> 'f) \<Rightarrow> 'f rows \<Rightarrow> 'f rows \<Rightarrow> 'f rows" where
  "rows_zip f xs ys = map2 (map2 f) xs ys"

definition same_shape :: "'f rows \<Rightarrow> 'f rows \<Rightarrow> bool" where
  "same_shape xs ys = (map length xs = map length ys)"

definition rows_finite :: "'f fp32_ops \<Rightarrow> 'f rows \<Rightarrow> bool" where
  "rows_finite ops xs = (\<forall>r \<in> set xs. \<forall>x \<in> set r. f_isfinite ops x)"

section \<open>Operations\<close>

definition require_finite_tensor :: "'f fp32_ops \<Rightarrow> 'f rows \<Rightarrow> string \<Rightarrow> unit res" where
  "require_finite_tensor ops xs name =
     raise_if (\<not> rows_finite ops xs) (ValueError (name @ '' must be finite'')) (Inr ())"

definition validate_unit_timestep :: "'f fp32_ops \<Rightarrow> 'f \<Rightarrow> string \<Rightarrow> unit res" where
  "validate_unit_timestep ops t name =
     raise_if (\<not> f_isfinite ops t) (ValueError (name @ '' must be finite''))
     (raise_if (f_less ops t (f_of ops (Fin 0)) \<or> f_less ops (f_of ops (Fin 1)) t)
        (ValueError (name @ '' must be in [0, 1]'')) (Inr ()))"

definition validate_sigma :: "pyfloat \<Rightarrow> string \<Rightarrow> pyfloat res" where
  "validate_sigma v name =
     raise_if (\<not> is_finite v) (ValueError (name @ '' must be finite''))
     (raise_if (flt v (Fin 0)) (ValueError (name @ '' must be non-negative'')) (Inr v))"

definition validate_timestep_sigma_pair :: "'f fp32_ops \<Rightarrow> 'f \<Rightarrow> pyfloat \<Rightarrow> string \<Rightarrow> pyfloat res" where
  "validate_timestep_sigma_pair ops t sigma_curr name =
     rbind (validate_unit_timestep ops t (name @ ''_timestep'')) (\<lambda>_.
     rbind (validate_sigma sigma_curr (name @ ''_sigma_curr'')) (\<lambda>sigma.
     raise_if (\<not> f_allclose ops (f_of ops sigma) (f_sub ops (f_of ops (Fin 1)) t))
       (ValueError (name @ ''_sigma_curr must equal 1 - timestep'')) (Inr sigma)))"

definition rf_v_to_x0 :: "'f fp32_ops \<Rightarrow> 'f rows \<Rightarrow> 'f rows \<Rightarrow> 'f \<Rightarrow> 'f rows" where
  "rf_v_to_x0 ops xt v t = (let sigma_t = f_sub ops (f_of ops (Fin 1)) t in
     rows_zip (f_add ops) xt (rows_map (f_mul ops sigma_t) v))"

definition minimax_h3_rf_v_to_x0 :: "'f fp32_ops \<Rightarrow> 'f rows \<Rightarrow> 'f rows \<Rightarrow> 'f \<Rightarrow> 'f rows res" where
  "minimax_h3_rf_v_to_x0 ops xt v t =
     raise_if (\<not> same_shape xt v) (ValueError ''xt and v shapes must match'')
     (rbind (require_finite_tensor ops xt ''xt'') (\<lambda>_.
      rbind (require_finite_tensor ops v ''v'') (\<lambda>_.
      rbind (validate_unit_timestep ops t ''timestep'') (\<lambda>_.
      let x0 = rf_v_to_x0 ops xt v t in
      rbind (require_finite_tensor ops x0 ''x0'') (\<lambda>_. Inr x0)))))"

definition euler_eta0_step :: "'f fp32_ops \<Rightarrow> 'f rows \<Rightarrow> 'f rows \<Rightarrow> pyfloat \<Rightarrow> pyfloat \<Rightarrow> 'f option \<Rightarrow> 'f rows" where
  "euler_eta0_step ops state denoised sigma_curr sigma_next sigma_ratio =
     (if feq sigma_curr (Fin 0) then state
      else let ratio = (case sigma_ratio of None \<Rightarrow> f_div ops (f_of ops sigma_next) (f_of ops sigma_curr)
                        | Some r \<Rightarrow> r) in
        rows_zip (f_add ops) (rows_map (f_mul ops ratio) state)
          (rows_map (f_mul ops (f_sub ops (f_of ops (Fin 1)) ratio)) denoised))"

definition minimax_h3_euler_eta0_step ::
  "'f fp32_ops \<Rightarrow> 'f rows \<Rightarrow> 'f rows \<Rightarrow> pyfloat \<Rightarrow> pyfloat \<Rightarrow> 'f rows res" where
  "minimax_h3_euler_eta0_step ops state denoised sigma_curr0 sigma_next0 =
     raise_if (\<not> same_shape state denoised) (ValueError ''state and denoised shapes must match'')
     (rbind (require_finite_tensor ops state ''state'') (\<lambda>_.
      rbind (require_finite_tensor ops denoised ''denoised'') (\<lambda>_.
      rbind (validate_sigma sigma_curr0 ''sigma_curr'') (\<lambda>sigma_curr.
      rbind (validate_sigma sigma_next0 ''sigma_next'') (\<lambda>sigma_next.
      raise_if (feq sigma_curr (Fin 0) \<and> \<not> feq sigma_next (Fin 0))
        (ValueError ''sigma_next must be 0 when sigma_curr is 0'')
      (let out = euler_eta0_step ops state denoised sigma_curr sigma_next None in
       rbind (require_finite_tensor ops out ''euler_eta0_step output'') (\<lambda>_. Inr out)))))))"

definition opt_or :: "'a option \<Rightarrow> 'a \<Rightarrow> 'a" where
  "opt_or v d = (case v of None \<Rightarrow> d | Some x \<Rightarrow> x)"

text \<open>\<^verbatim>\<open>step_denoising\<close>: the shared timestep and sigmas, each overridable per modality.\<close>

definition step_denoising ::
  "'f fp32_ops \<Rightarrow> 'f rows \<Rightarrow> 'f rows \<Rightarrow> 'f \<Rightarrow> 'f rows \<Rightarrow> 'f rows \<Rightarrow> pyfloat \<Rightarrow> pyfloat \<Rightarrow>
   'f option \<Rightarrow> 'f option \<Rightarrow> pyfloat option \<Rightarrow> pyfloat option \<Rightarrow> pyfloat option \<Rightarrow> pyfloat option
   \<Rightarrow> ('f rows \<times> 'f rows) res" where
  "step_denoising ops visual audio t pred_visual pred_audio sigma_curr sigma_next
      video_t audio_t video_curr video_next audio_curr audio_next =
     rbind (validate_timestep_sigma_pair ops (opt_or video_t t) (opt_or video_curr sigma_curr) ''video'') (\<lambda>vc.
     rbind (validate_timestep_sigma_pair ops (opt_or audio_t t) (opt_or audio_curr sigma_curr) ''audio'') (\<lambda>ac.
     rbind (minimax_h3_rf_v_to_x0 ops visual pred_visual (opt_or video_t t)) (\<lambda>dv.
     rbind (minimax_h3_rf_v_to_x0 ops audio pred_audio (opt_or audio_t t)) (\<lambda>da.
     rbind (minimax_h3_euler_eta0_step ops visual dv vc (opt_or video_next sigma_next)) (\<lambda>ov.
     rbind (minimax_h3_euler_eta0_step ops audio da ac (opt_or audio_next sigma_next)) (\<lambda>oa.
     Inr (ov, oa)))))))"

section \<open>Lemmas\<close>

lemma rows_map_length [simp]: "length (rows_map f xs) = length xs"
  by (simp add: rows_map_def)

lemma rows_zip_length [simp]: "length (rows_zip f xs ys) = min (length xs) (length ys)"
  by (simp add: rows_zip_def)

lemma same_shape_length: "same_shape xs ys \<Longrightarrow> length xs = length ys"
  by (metis length_map same_shape_def)

lemma same_shape_refl [simp]: "same_shape xs xs"
  by (simp add: same_shape_def)

lemma same_shape_rows_map [simp]:
  "same_shape (rows_map f xs) ys = same_shape xs ys" "same_shape xs (rows_map f ys) = same_shape xs ys"
  by (simp_all add: same_shape_def rows_map_def comp_def)

lemma same_shape_rows_zip: "same_shape xs ys \<Longrightarrow> same_shape (rows_zip f xs ys) xs"
proof (induction xs arbitrary: ys)
  case (Cons x xs)
  then obtain y ys' where "ys = y # ys'" "length x = length y" "same_shape xs ys'"
    by (cases ys) (auto simp: same_shape_def)
  then show ?case using Cons.IH[of ys'] by (simp add: same_shape_def rows_zip_def)
qed (simp add: same_shape_def rows_zip_def)

lemma same_shape_trans: "same_shape xs ys \<Longrightarrow> same_shape ys zs \<Longrightarrow> same_shape xs zs"
  by (simp add: same_shape_def)

lemma same_shape_sym: "same_shape xs ys \<Longrightarrow> same_shape ys xs"
  by (simp add: same_shape_def)

text \<open>A step keeps the shape.\<close>

lemma euler_step_shape:
  assumes "same_shape state v"
  shows "same_shape (euler_eta0_step ops state (rf_v_to_x0 ops state v t) c n r) state"
proof -
  have "same_shape state (rf_v_to_x0 ops state v t)"
    unfolding rf_v_to_x0_def Let_def using assms
    by (simp add: same_shape_sym[OF same_shape_rows_zip])
  then have "same_shape (rows_zip f (rows_map g state) (rows_map h (rf_v_to_x0 ops state v t))) (rows_map g state)"
    for f g h by (intro same_shape_rows_zip) simp
  then show ?thesis by (simp add: euler_eta0_step_def Let_def)
qed

end
