(* ===== verification/Denoise_Branch.thy ===== *)
theory Denoise_Branch
  imports Packed_Layout Euler_Scheduler
begin

text \<open>
  The static part of \<^verbatim>\<open>minimax_h3/denoise_loop.py\<close>: the sparse query mask, the rank-local embedding
  layout, \<^verbatim>\<open>MiniMaxH3DenoiseBranch\<close> with its row sets and persistent buffers, and the expansion of
  timesteps to packed rows. fp32 values are a linearly ordered type (\<^verbatim>\<open>torch.unique\<close> sorts them).
\<close>

section \<open>Sub-block sparsity\<close>

definition SUBBLOCK_QUERY_BLOCK_SIZE :: int where
  "SUBBLOCK_QUERY_BLOCK_SIZE = 64"

definition subblock_video_query_indices :: "nat list \<Rightarrow> nat list \<Rightarrow> bool list option \<Rightarrow> nat list res" where
  "subblock_video_query_indices video_pos text_pos token_mask = (case token_mask of
      None \<Rightarrow> Inr video_pos
    | Some m \<Rightarrow> raise_if (length m \<noteq> length text_pos)
        (ValueError ''text_video_token_mask must align with packed text rows'')
        (Inr (masked text_pos m @ video_pos)))"

text \<open>\<^verbatim>\<open>torch.bincount(blocks, minlength=n)\<close> compared with the real rows of each block; \<open>-(-a // b)\<close> is
  the rounded-up quotient.\<close>

definition subblock_sparse_query_block_mask :: "int list \<Rightarrow> int \<Rightarrow> bool list res" where
  "subblock_sparse_query_block_mask video_query_indices used_len =
     raise_if (used_len < 0) (ValueError ''used_len must be non-negative'')
     (raise_if (\<exists>x \<in> set video_query_indices. x < 0 \<or> used_len \<le> x)
        (ValueError ''video_query_indices must be first-segment-relative'')
     (raise_if (\<not> distinct video_query_indices) (ValueError ''video_query_indices must not contain duplicates'')
     (let block_size = SUBBLOCK_QUERY_BLOCK_SIZE;
          num_query_blocks = - ((- used_len) div block_size);
          blocks = map (\<lambda>x. x div block_size) video_query_indices
      in Inr (map (\<lambda>b. int (length (filter (\<lambda>x. x = b) blocks)) = min block_size (max 0 (used_len - b * block_size)))
            [0..num_query_blocks - 1]))))"

section \<open>Rank-local embedding layout\<close>

record local_layout =
  ll_text_source_start :: nat
  ll_text_source_stop :: nat
  ll_img_global_ids :: "nat list"
  ll_img_row_ids :: "nat list"
  ll_audio_global_ids :: "nat list"
  ll_audio_row_ids :: "nat list"

definition local_ids :: "nat \<Rightarrow> nat \<Rightarrow> nat list \<Rightarrow> nat list" where
  "local_ids row_start row_stop pos = filter (\<lambda>p. row_start \<le> p \<and> p < row_stop) pos"

definition build_local_embedding_layout ::
  "nat \<Rightarrow> nat list \<Rightarrow> nat list \<Rightarrow> nat list \<Rightarrow> nat \<Rightarrow> nat \<Rightarrow> local_layout res" where
  "build_local_embedding_layout seq_len text_pos img_pos audio_pos world_size rank =
     raise_if (world_size = 0) ZeroDivisionError
     (raise_if (seq_len mod world_size \<noteq> 0)
       (ValueError ''packed seq_len not divisible by the combined sequence-parallel world size'')
     (let local_seq_len = seq_len div world_size;
          row_start = rank * local_seq_len;
          row_stop = row_start + local_seq_len;
          img = local_ids row_start row_stop img_pos;
          audio = local_ids row_start row_stop audio_pos
      in Inr \<lparr>ll_text_source_start = min row_start (length text_pos),
             ll_text_source_stop = min row_stop (length text_pos),
             ll_img_global_ids = img, ll_img_row_ids = map (\<lambda>p. p - row_start) img,
             ll_audio_global_ids = audio, ll_audio_row_ids = map (\<lambda>p. p - row_start) audio\<rparr>))"

section \<open>The branch\<close>

text \<open>\<^verbatim>\<open>get_ulysses_ctx()\<close> and \<^verbatim>\<open>get_ring_ctx()\<close>: world size and rank of both groups.\<close>

record sp_ctx =
  sp_ulysses_world :: nat
  sp_ulysses_rank :: nat
  sp_ring_world :: nat
  sp_ring_rank :: nat

record 'f branch =
  br_seq_len :: nat
  br_img_pos :: "nat list"
  br_audio_pos :: "nat list"
  br_update_mask :: "bool list"
  br_audio_update_mask :: "bool list"
  br_video_target_start :: nat
  br_audio_target_start :: nat
  br_img_cond_seq_idx :: "nat list"
  br_img_target_seq_idx :: "nat list"
  br_audio_target_seq_idx :: "nat list"
  br_audio_ref_seq_idx :: "nat list"
  br_cond_row_idx :: "nat list"
  br_audio_ref_row_idx :: "nat list"
  br_n_video_timestep_rows :: int
  br_x_buffer_primed :: bool
  br_x_buffer :: "'f rows"
  br_audio_x_buffer :: "'f rows"
  br_local_row_start :: nat
  br_local_row_stop :: nat
  br_block_token_tags :: "int list"
  br_subblock_mask :: "bool list option"
  br_local_layout :: local_layout
  br_text_rows :: "'f rows"
  br_text_pos :: "nat list"
  br_cu_seqlens :: "nat list"
  br_position_ids :: "('f \<times> 'f \<times> 'f) list"
  br_rope_cache :: "'f rows option"

definition MINIMAX_H3_VIDEO_ROW_WIDTH :: nat where
  "MINIMAX_H3_VIDEO_ROW_WIDTH = 96"

definition MINIMAX_H3_AUDIO_ROW_WIDTH :: nat where
  "MINIMAX_H3_AUDIO_ROW_WIDTH = 32"

text \<open>\<^verbatim>\<open>torch.nonzero(~mask).view(-1)\<close>.\<close>

definition false_indices :: "bool list \<Rightarrow> nat list" where
  "false_indices m = filter (\<lambda>i. \<not> m ! i) [0..<length m]"

definition zero_rows :: "'f fp32_ops \<Rightarrow> nat \<Rightarrow> nat \<Rightarrow> 'f rows" where
  "zero_rows ops n width = replicate n (replicate width (f_of ops (Fin 0)))"

definition denoise_branch_init ::
  "'f fp32_ops \<Rightarrow> packed \<Rightarrow> 'f rows \<Rightarrow> int list \<Rightarrow> nat list option \<Rightarrow> sp_ctx \<Rightarrow> 'f branch res" where
  "denoise_branch_init ops packed text_embeddings token_tags video_query_indices sp =
     (let seq_len = pk_seq_len packed;
          img_pos = pk_img_pos packed; audio_pos = pk_audio_pos packed;
          update_mask = pk_update_mask packed;
          audio_update_mask = (case pk_audio_update_mask packed of
             Some m \<Rightarrow> m | None \<Rightarrow> replicate (length audio_pos) True);
          text_len = length (pk_text_pos packed);
          img_cond = masked img_pos (map Not update_mask);
          audio_target = masked audio_pos audio_update_mask;
          audio_ref = masked audio_pos (map Not audio_update_mask);
          sp_world_size = sp_ulysses_world sp * sp_ring_world sp;
          sp_rank = sp_ring_rank sp * sp_ulysses_world sp + sp_ulysses_rank sp;
          local_seq_len = seq_len div sp_world_size;
          local_row_start = sp_rank * local_seq_len;
          local_row_stop = local_row_start + local_seq_len
      in raise_if (length text_embeddings \<noteq> text_len) (ValueError ''text_embeddings rows != packed text_len'')
         (raise_if (length token_tags \<noteq> seq_len) (ValueError ''token_tags length != seq_len'')
         (rbind (case video_query_indices of None \<Rightarrow> Inr None
                 | Some v \<Rightarrow> rbind (subblock_sparse_query_block_mask (map int v) (int (pk_cu_seqlens packed ! 1)))
                     (\<lambda>m. Inr (Some m))) (\<lambda>subblock.
          raise_if (sp_world_size = 0) ZeroDivisionError
          (rbind (build_local_embedding_layout seq_len (pk_text_pos packed) img_pos audio_pos sp_world_size sp_rank)
            (\<lambda>layout.
           Inr \<lparr>br_seq_len = seq_len, br_img_pos = img_pos, br_audio_pos = audio_pos,
                br_update_mask = update_mask, br_audio_update_mask = audio_update_mask,
                br_video_target_start = length (filter Not update_mask),
                br_audio_target_start = length (filter Not audio_update_mask),
                br_img_cond_seq_idx = img_cond, br_img_target_seq_idx = masked img_pos update_mask,
                br_audio_target_seq_idx = audio_target, br_audio_ref_seq_idx = audio_ref,
                br_cond_row_idx = false_indices update_mask,
                br_audio_ref_row_idx = false_indices audio_update_mask,
                br_n_video_timestep_rows =
                  int seq_len - int (length img_cond) - int (length audio_target) - int (length audio_ref),
                br_x_buffer_primed = False,
                br_x_buffer = zero_rows ops seq_len MINIMAX_H3_VIDEO_ROW_WIDTH,
                br_audio_x_buffer = zero_rows ops seq_len MINIMAX_H3_AUDIO_ROW_WIDTH,
                br_local_row_start = local_row_start, br_local_row_stop = local_row_stop,
                br_block_token_tags = map (max 0) (take local_seq_len (drop local_row_start token_tags)),
                br_subblock_mask = subblock, br_local_layout = layout, br_text_rows = text_embeddings,
                br_text_pos = pk_text_pos packed, br_cu_seqlens = pk_cu_seqlens packed,
                br_position_ids = map (\<lambda>(t, h, w). (f_of ops t, f_of ops h, f_of ops w)) (pk_position_ids packed),
                br_rope_cache = None\<rparr>))))))"

text \<open>\<^verbatim>\<open>x.index_copy_(0, index, rows)\<close>: the index and the rows have one length, every index is a row.\<close>

definition index_copy :: "nat list \<Rightarrow> 'a list \<Rightarrow> 'a list \<Rightarrow> 'a list res" where
  "index_copy idx rows x =
     raise_if (length idx \<noteq> length rows) (RuntimeError ''index_copy_(): Number of indices should be equal to source.size(dim)'')
     (raise_if (\<exists>i \<in> set idx. length x \<le> i) IndexError
       (Inr (fold (\<lambda>(i, r) x. x[i := r]) (zip idx rows) x)))"

definition index_fill :: "nat list \<Rightarrow> 'a \<Rightarrow> 'a list \<Rightarrow> 'a list" where
  "index_fill idx v x = fold (\<lambda>i x. x[i := v]) idx x"

text \<open>The buffers a step hands to the model: everything on the first step, only the target rows
  afterwards.\<close>

definition fill_buffers :: "'f branch \<Rightarrow> 'f rows \<Rightarrow> 'f rows \<Rightarrow> 'f branch res" where
  "fill_buffers b video_rows audio_rows =
     (if \<not> br_x_buffer_primed b then
        rbind (index_copy (br_img_pos b) video_rows (br_x_buffer b)) (\<lambda>x.
        rbind (index_copy (br_audio_pos b) audio_rows (br_audio_x_buffer b)) (\<lambda>ax.
        Inr (b\<lparr>br_x_buffer := x, br_audio_x_buffer := ax, br_x_buffer_primed := True\<rparr>)))
      else
        rbind (index_copy (br_img_target_seq_idx b) (drop (br_video_target_start b) video_rows) (br_x_buffer b)) (\<lambda>x.
        rbind (index_copy (br_audio_target_seq_idx b) (drop (br_audio_target_start b) audio_rows) (br_audio_x_buffer b)) (\<lambda>ax.
        Inr (b\<lparr>br_x_buffer := x, br_audio_x_buffer := ax\<rparr>))))"

section \<open>Timesteps of the packed rows\<close>

definition MINIMAX_H3_ADALN_MODALITY_NUM :: int where
  "MINIMAX_H3_ADALN_MODALITY_NUM = 3"

text \<open>\<^verbatim>\<open>torch.unique(values, sorted=True, return_inverse=True)\<close>.\<close>

definition unique_sorted :: "'f::linorder list \<Rightarrow> 'f list \<times> nat list" where
  "unique_sorted xs = (let u = sorted_list_of_set (set xs) in
     (u, map (\<lambda>x. length (takeWhile (\<lambda>y. y \<noteq> x) u)) xs))"

type_synonym pattern_cache = "(nat list \<times> nat list) list"
type_synonym combined_cache = "(nat list \<times> int list) list"

text \<open>The candidate timesteps and, per non-empty row set, the slot of its candidate.\<close>

definition timestep_groups :: "'f branch \<Rightarrow> pyfloat \<Rightarrow> pyfloat \<Rightarrow> pyfloat \<Rightarrow> (nat list \<times> pyfloat) list" where
  "timestep_groups b t_audio imgvid_t audio_ref_t =
     filter (\<lambda>(idx, _). idx \<noteq> [])
       [(br_img_cond_seq_idx b, imgvid_t), (br_audio_target_seq_idx b, t_audio),
        (br_audio_ref_seq_idx b, audio_ref_t)]"

definition fill_inverse :: "nat list \<Rightarrow> (nat list \<times> nat) list \<Rightarrow> nat list \<Rightarrow> nat list" where
  "fill_inverse slot_to_unique groups x =
     fold (\<lambda>(idx, slot) x. index_fill idx (slot_to_unique ! slot) x) groups x"

definition expand_step_timesteps ::
  "('f::linorder) fp32_ops \<Rightarrow> 'f branch \<Rightarrow> pyfloat \<Rightarrow> pyfloat \<Rightarrow> pyfloat \<Rightarrow> pyfloat \<Rightarrow> pattern_cache \<times> combined_cache
   \<Rightarrow> ('f list \<times> nat list \<times> int list) \<times> pattern_cache \<times> combined_cache" where
  "expand_step_timesteps ops b t_video t_audio imgvid_t audio_ref_t caches =
     (let base = (if 0 < br_n_video_timestep_rows b then [t_video] else []);
          groups = timestep_groups b t_audio imgvid_t audio_ref_t;
          candidates = base @ map snd groups;
          fill_groups = map (\<lambda>(k, g). (fst g, length base + k)) (enumerate 0 groups);
          (unique, slot_to_unique) = unique_sorted (map (f_of ops) candidates);
          base_index = (if base \<noteq> [] then slot_to_unique ! 0 else 0);
          pattern = slot_to_unique;
          (inverse_cache, combined_cache) = caches;
          inverse = (case map_of inverse_cache pattern of
              Some v \<Rightarrow> v
            | None \<Rightarrow> fill_inverse slot_to_unique fill_groups (replicate (br_seq_len b) base_index));
          inverse_cache = (if dhas inverse_cache pattern then inverse_cache else dset pattern inverse inverse_cache);
          local_inverse = take (br_local_row_stop b - br_local_row_start b) (drop (br_local_row_start b) inverse);
          combined = (case map_of combined_cache pattern of
              Some v \<Rightarrow> v
            | None \<Rightarrow> map2 (\<lambda>tag i. tag + MINIMAX_H3_ADALN_MODALITY_NUM * int i) (br_block_token_tags b) local_inverse);
          combined_cache = (if dhas combined_cache pattern then combined_cache
                            else dset pattern combined combined_cache)
      in ((unique, inverse, combined), inverse_cache, combined_cache))"

definition py_fmax :: "pyfloat \<Rightarrow> pyfloat \<Rightarrow> pyfloat" where
  "py_fmax a b = (if flt a b then b else a)"

fun timestep_plan ::
  "('f::linorder) fp32_ops \<Rightarrow> 'f branch \<Rightarrow> pyfloat \<Rightarrow> pyfloat \<Rightarrow> (pyfloat \<times> pyfloat) list \<Rightarrow> pattern_cache \<times> combined_cache
   \<Rightarrow> ('f list \<times> nat list \<times> int list) list" where
  "timestep_plan ops b img_aug audio_aug [] caches = []"
| "timestep_plan ops b img_aug audio_aug ((t_video, t_audio) # ts) caches =
     (let (e, caches') = expand_step_timesteps ops b t_video t_audio (py_fmax t_video img_aug)
                           (py_fmax t_audio audio_aug) caches
      in e # timestep_plan ops b img_aug audio_aug ts caches')"

definition prepare_timestep_plan ::
  "('f::linorder) fp32_ops \<Rightarrow> 'f branch \<Rightarrow> pyfloat list \<Rightarrow> pyfloat list \<Rightarrow> pyfloat \<Rightarrow> pyfloat
   \<Rightarrow> ('f list \<times> nat list \<times> int list) list res" where
  "prepare_timestep_plan ops b video_timesteps audio_timesteps img_aug audio_aug =
     raise_if (length video_timesteps \<noteq> length audio_timesteps)
       (ValueError ''video/audio timestep plans must have equal length'')
       (Inr (timestep_plan ops b img_aug audio_aug (zip video_timesteps audio_timesteps) ([], [])))"

section \<open>The sparse mask\<close>

text \<open>A block is sparse exactly when all of its real rows are video rows.\<close>

lemma div_64: fixes x :: int
  shows "x = 64 * (x div 64) + x mod 64" "0 \<le> x mod 64" "x mod 64 < 64"
  by simp_all

lemma ceil_div_64: "- ((- u) div 64) = (u + 63) div (64::int)"
proof -
  have "u + 63 = 64 * (- ((- u) div 64)) + (63 - (- u) mod 64)"
    using div_64(1)[of "- u"] by linarith
  then have "(u + 63) div 64 = - ((- u) div 64)"
    by (rule int_div_pos_eq) (use div_64(2,3)[of "- u"] in linarith)+
  then show ?thesis by simp
qed

lemma div_64_eq_iff: "x div 64 = b \<longleftrightarrow> 64 * b \<le> x \<and> x < 64 * b + (64::int)"
proof
  assume "x div 64 = b"
  then show "64 * b \<le> x \<and> x < 64 * b + 64" using div_64[of x] by linarith
next
  assume b: "64 * b \<le> x \<and> x < 64 * b + 64"
  have "x = 64 * b + (x - 64 * b)" by simp
  then show "x div 64 = b" by (rule int_div_pos_eq) (use b in linarith)+
qed

lemma block_rows:
  assumes "distinct (vs :: int list)"
  shows "int (length (filter (\<lambda>x. x = b) (map (\<lambda>x. x div 64) vs))) = int (card (set vs \<inter> {64 * b..<64 * b + 64}))"
proof -
  have "length (filter (\<lambda>x. x = b) (map (\<lambda>x. x div 64) vs)) = length (filter (\<lambda>x. x div 64 = b) vs)"
    by (simp add: filter_map comp_def)
  also have "\<dots> = card (set (filter (\<lambda>x. x div 64 = b) vs))"
    by (rule distinct_card[symmetric]) (use assms in simp)
  also have "set (filter (\<lambda>x. x div 64 = b) vs) = set vs \<inter> {64 * b..<64 * b + 64}"
    by (auto simp: div_64_eq_iff)
  finally show ?thesis by simp
qed

lemma subblock_mask_correct:
  assumes "subblock_sparse_query_block_mask vs used = Inr m"
  shows "int (length m) = (used + 63) div 64"
    and "b < length m \<Longrightarrow> m ! b \<longleftrightarrow> (\<forall>i. 64 * int b \<le> i \<and> i < 64 * int b + 64 \<and> i < used \<longrightarrow> i \<in> set vs)"
proof -
  from assms have u: "0 \<le> used" and r: "\<forall>x \<in> set vs. 0 \<le> x \<and> x < used" and d: "distinct vs"
    and m: "m = map (\<lambda>b. int (length (filter (\<lambda>x. x = b) (map (\<lambda>x. x div 64) vs))) =
        min 64 (max 0 (used - b * 64))) [0..(used + 63) div 64 - 1]"
    by (auto simp: subblock_sparse_query_block_mask_def res_simps Let_def SUBBLOCK_QUERY_BLOCK_SIZE_def
        ceil_div_64 not_less not_le)
  show len: "int (length m) = (used + 63) div 64" using u by (simp add: m)
  assume b: "b < length m"
  let ?b = "int b"
  have "?b \<le> (used + 63) div 64 - 1" using b len by linarith
  then have bl: "64 * ?b < used" using div_64[of "used + 63"] by linarith
  let ?R = "{64 * ?b..<min (64 * ?b + 64) used}"
  have real: "min 64 (max 0 (used - ?b * 64)) = int (card ?R)" using bl by auto
  have sub: "set vs \<inter> {64 * ?b..<64 * ?b + 64} \<subseteq> ?R" using r by auto
  have "m ! b = (int (card (set vs \<inter> {64 * ?b..<64 * ?b + 64})) = int (card ?R))"
    using b unfolding m real[symmetric] block_rows[OF d, symmetric] by (simp add: nth_upto)
  also have "\<dots> \<longleftrightarrow> set vs \<inter> {64 * ?b..<64 * ?b + 64} = ?R"
    using card_subset_eq[OF _ sub] by auto
  also have "\<dots> \<longleftrightarrow> (\<forall>i. 64 * ?b \<le> i \<and> i < 64 * ?b + 64 \<and> i < used \<longrightarrow> i \<in> set vs)"
    using sub by auto
  finally show "m ! b \<longleftrightarrow> (\<forall>i. 64 * int b \<le> i \<and> i < 64 * int b + 64 \<and> i < used \<longrightarrow> i \<in> set vs)" .
qed

section \<open>Rank-local layouts\<close>

lemma local_ids_partition:
  assumes "\<And>p. p \<in> set pos \<Longrightarrow> p < n * l"
  shows "mset (concat (map (\<lambda>r. local_ids (r * l) (r * l + l) pos) [0..<n])) = mset pos"
proof -
  have "mset (concat (map (\<lambda>r. local_ids (r * l) (r * l + l) pos) [0..<k])) =
      filter_mset (\<lambda>p. p < k * l) (mset pos)" for k
  proof (induction k)
    case 0
    then show ?case by simp
  next
    case (Suc k)
    have "filter_mset (\<lambda>p. p < c + l) M =
        filter_mset (\<lambda>p. p < c) M + filter_mset (\<lambda>p. c \<le> p \<and> p < c + l) M" for M :: "nat multiset" and c
      by (induction M) auto
    from this[of "k * l" "mset pos"] show ?case using Suc by (simp add: local_ids_def add.commute)
  qed
  moreover have "filter_mset (\<lambda>p. p < n * l) (mset pos) = mset pos"
    using assms by (simp add: filter_mset_eq_conv)
  ultimately show ?thesis by simp
qed

lemma text_ranges_partition:
  "concat (map (\<lambda>r. [min (r * l) (t::nat)..<min (r * l + l) t]) [0..<n]) = [0..<min (n * l) t]"
proof (induction n)
  case (Suc n)
  have "[0..<min (n * l) t] @ [min (n * l) t..<min (n * l + l) t] = [0..<min (n * l + l) t]"
    by (rule upto_append) auto
  then show ?case using Suc by (simp add: add.commute)
qed simp

section \<open>Row copies\<close>

definition copied :: "nat list \<Rightarrow> 'a list \<Rightarrow> 'a list \<Rightarrow> 'a list" where
  "copied idx rows x = fold (\<lambda>(i, r) x. x[i := r]) (zip idx rows) x"

lemma copied_length [simp]: "length (copied idx rows x) = length x"
proof -
  have "length (fold (\<lambda>(i, r) x. x[i := r]) ps x) = length x" for ps :: "(nat \<times> 'a) list" and x :: "'a list"
    by (induction ps arbitrary: x) auto
  then show ?thesis by (simp add: copied_def)
qed

lemma index_copy_Inr:
  "index_copy idx rows x = Inr y \<longleftrightarrow> length idx = length rows \<and> (\<forall>i \<in> set idx. i < length x) \<and> y = copied idx rows x"
  by (auto simp: index_copy_def res_simps copied_def not_le)

lemma copied_Cons: "copied (i # idx) (r # rows) x = copied idx rows (x[i := r])"
  by (simp add: copied_def)

lemma copied_Nil [simp]: "copied [] rows x = x"
  by (simp add: copied_def)

lemma copied_notin: "j \<notin> set idx \<Longrightarrow> copied idx rows x ! j = x ! j"
proof (induction idx arbitrary: rows x)
  case (Cons i idx)
  then show ?case by (cases rows) (auto simp: copied_Cons, simp add: copied_def)
qed simp

lemma copied_nth:
  assumes "distinct idx" and "length idx = length rows" and "k < length idx" and "idx ! k < length x"
  shows "copied idx rows x ! (idx ! k) = rows ! k"
  using assms
proof (induction idx arbitrary: rows x k)
  case (Cons i idx)
  then obtain r rows' where rows: "rows = r # rows'" by (cases rows) auto
  show ?case
  proof (cases k)
    case 0
    then show ?thesis using Cons.prems by (simp add: rows copied_Cons copied_notin)
  next
    case (Suc k')
    then show ?thesis using Cons.prems Cons.IH[of rows' k' "x[i := r]"] by (simp add: rows copied_Cons)
  qed
qed simp

lemma copied_append:
  "length idx = length rows \<Longrightarrow> copied (idx @ idx') (rows @ rows') x = copied idx' rows' (copied idx rows x)"
  by (simp add: copied_def)

lemma copied_overwrite:
  assumes "distinct idx" and "length idx = length rows" and "length idx = length rows'"
    and "\<And>i. i \<in> set idx \<Longrightarrow> i < length x"
  shows "copied idx rows' (copied idx rows x) = copied idx rows' x"
proof (rule nth_equalityI)
  fix j assume "j < length (copied idx rows' (copied idx rows x))"
  show "copied idx rows' (copied idx rows x) ! j = copied idx rows' x ! j"
  proof (cases "j \<in> set idx")
    case True
    then obtain k where "k < length idx" "j = idx ! k" by (auto simp: in_set_conv_nth)
    then show ?thesis using assms True by (simp add: copied_nth)
  next
    case False
    then show ?thesis by (simp add: copied_notin)
  qed
qed simp

text \<open>Rewriting only the changed suffix gives what rewriting everything gives.\<close>

lemma copied_incremental:
  assumes "distinct (c @ t)" and "length c + length t = length rows" and "length rows' = length rows"
    and "take (length c) rows' = take (length c) rows" and "\<And>i. i \<in> set (c @ t) \<Longrightarrow> i < length x"
  shows "copied t (drop (length c) rows') (copied (c @ t) rows x) = copied (c @ t) rows' x"
proof -
  have r: "rows = take (length c) rows @ drop (length c) rows"
    "rows' = take (length c) rows @ drop (length c) rows'"
    using assms(4) by (metis append_take_drop_id)+
  have "copied (c @ t) rows x = copied t (drop (length c) rows) (copied c (take (length c) rows) x)"
    by (subst r(1), rule copied_append) (use assms(2) in simp)
  moreover have "copied (c @ t) rows' x = copied t (drop (length c) rows') (copied c (take (length c) rows) x)"
    by (subst r(2), rule copied_append) (use assms(2) in simp)
  ultimately show ?thesis using assms by (simp add: copied_overwrite)
qed

section \<open>Timesteps\<close>

lemma index_fill_length [simp]: "length (index_fill idx v x) = length x"
proof -
  have "length (fold (\<lambda>i x. x[i := v]) idx x) = length x" by (induction idx arbitrary: x) auto
  then show ?thesis by (simp add: index_fill_def)
qed

lemma index_fill_nth: "i < length x \<Longrightarrow> index_fill idx v x ! i = (if i \<in> set idx then v else x ! i)"
  using scatter_nth[of i x idx v] by (simp add: index_fill_def scatter_def)

lemma fill_inverse_length [simp]: "length (fill_inverse s groups x) = length x"
proof -
  have "length (fold (\<lambda>(idx, slot) x. index_fill idx (s ! slot) x) groups x) = length x"
    by (induction groups arbitrary: x) auto
  then show ?thesis by (simp add: fill_inverse_def)
qed

text \<open>With pairwise disjoint row sets the last write to a row is the only one.\<close>

lemma fill_inverse_nth:
  assumes "i < length x" and "distinct (concat (map fst groups))"
  shows "fill_inverse s groups x ! i =
    (case find (\<lambda>(idx, slot). i \<in> set idx) groups of None \<Rightarrow> x ! i | Some (idx, slot) \<Rightarrow> s ! slot)"
  using assms
proof (induction groups arbitrary: x)
  case Nil
  then show ?case by (simp add: fill_inverse_def)
next
  case (Cons g groups)
  obtain idx slot where g: "g = (idx, slot)" by (cases g)
  have step: "fill_inverse s (g # groups) x = fill_inverse s groups (index_fill idx (s ! slot) x)"
    by (simp add: fill_inverse_def g)
  have IH: "fill_inverse s groups (index_fill idx (s ! slot) x) ! i =
      (case find (\<lambda>(idx, slot). i \<in> set idx) groups of
         None \<Rightarrow> index_fill idx (s ! slot) x ! i | Some (idx, slot) \<Rightarrow> s ! slot)"
    using Cons by simp
  show ?case
  proof (cases "i \<in> set idx")
    case True
    have "find (\<lambda>(idx, slot). i \<in> set idx) groups = None"
      using True Cons.prems(2) by (force simp: find_None_iff g)
    then show ?thesis using True Cons.prems(1) by (simp add: step[unfolded g] IH g index_fill_nth split: option.splits)
  next
    case False
    then show ?thesis using Cons.prems(1) by (simp add: step[unfolded g] IH g index_fill_nth split: option.splits)
  qed
qed

lemma takeWhile_neq_nth: "x \<in> set u \<Longrightarrow> u ! length (takeWhile (\<lambda>y. y \<noteq> x) u) = x"
  by (induction u) auto

lemma unique_sorted_nth:
  assumes "unique_sorted xs = (u, iv)" and "k < length xs"
  shows "u ! (iv ! k) = xs ! k" and "length iv = length xs"
  using assms by (auto simp: unique_sorted_def Let_def takeWhile_neq_nth)

text \<open>The row sets of a branch: condition images, target audio and reference audio are disjoint, in
  range, and the remaining rows are counted.\<close>

definition timestep_sets_ok :: "'f branch \<Rightarrow> bool" where
  "timestep_sets_ok b \<longleftrightarrow>
     distinct (br_img_cond_seq_idx b @ br_audio_target_seq_idx b @ br_audio_ref_seq_idx b) \<and>
     (\<forall>i \<in> set (br_img_cond_seq_idx b @ br_audio_target_seq_idx b @ br_audio_ref_seq_idx b). i < br_seq_len b) \<and>
     br_n_video_timestep_rows b = int (br_seq_len b) - int (length (br_img_cond_seq_idx b)) -
       int (length (br_audio_target_seq_idx b)) - int (length (br_audio_ref_seq_idx b))"

definition row_timestep :: "'f branch \<Rightarrow> pyfloat \<Rightarrow> pyfloat \<Rightarrow> pyfloat \<Rightarrow> pyfloat \<Rightarrow> nat \<Rightarrow> pyfloat" where
  "row_timestep b t_video t_audio imgvid_t audio_ref_t i =
     (if i \<in> set (br_img_cond_seq_idx b) then imgvid_t
      else if i \<in> set (br_audio_target_seq_idx b) then t_audio
      else if i \<in> set (br_audio_ref_seq_idx b) then audio_ref_t else t_video)"

text \<open>The non-empty row sets do not depend on the timesteps, so a pattern determines its inverse.\<close>

definition branch_base :: "'f branch \<Rightarrow> nat" where
  "branch_base b = (if 0 < br_n_video_timestep_rows b then 1 else 0)"

definition branch_groups :: "'f branch \<Rightarrow> (nat list \<times> nat) list" where
  "branch_groups b = map (\<lambda>(k, idx). (idx, branch_base b + k))
     (enumerate 0 (filter (\<lambda>idx. idx \<noteq> [])
        [br_img_cond_seq_idx b, br_audio_target_seq_idx b, br_audio_ref_seq_idx b]))"

definition pattern_inverse :: "'f branch \<Rightarrow> nat list \<Rightarrow> nat list" where
  "pattern_inverse b pat = fill_inverse pat (branch_groups b)
     (replicate (br_seq_len b) (if branch_base b = 0 then 0 else pat ! 0))"

definition pattern_combined :: "'f branch \<Rightarrow> nat list \<Rightarrow> int list" where
  "pattern_combined b pat = map2 (\<lambda>tag i. tag + MINIMAX_H3_ADALN_MODALITY_NUM * int i) (br_block_token_tags b)
     (take (br_local_row_stop b - br_local_row_start b) (drop (br_local_row_start b) (pattern_inverse b pat)))"

definition caches_ok :: "'f branch \<Rightarrow> pattern_cache \<times> combined_cache \<Rightarrow> bool" where
  "caches_ok b c \<longleftrightarrow> (\<forall>pat v. map_of (fst c) pat = Some v \<longrightarrow> v = pattern_inverse b pat) \<and>
     (\<forall>pat v. map_of (snd c) pat = Some v \<longrightarrow> v = pattern_combined b pat)"

lemma fill_groups_static:
  "map (\<lambda>(k, g). (fst g, n + k)) (enumerate m (timestep_groups b ta ti tr)) =
   map (\<lambda>(k, idx). (idx, n + k)) (enumerate m (filter (\<lambda>idx. idx \<noteq> [])
        [br_img_cond_seq_idx b, br_audio_target_seq_idx b, br_audio_ref_seq_idx b]))"
  by (simp add: timestep_groups_def)

lemma expand_step_timesteps_eq:
  assumes "caches_ok b c"
  obtains u pat c' where
    "unique_sorted (map (f_of ops) ((if 0 < br_n_video_timestep_rows b then [t_video] else []) @
        map snd (timestep_groups b ta ti tr))) = (u, pat)"
    "expand_step_timesteps ops b t_video ta ti tr c = ((u, pattern_inverse b pat, pattern_combined b pat), c')"
    "caches_ok b c'"
proof -
  obtain ic cc where c: "c = (ic, cc)" by (cases c)
  let ?base = "if 0 < br_n_video_timestep_rows b then [t_video] else []"
  obtain u pat where u: "unique_sorted (map (f_of ops) (?base @ map snd (timestep_groups b ta ti tr))) = (u, pat)"
    by fastforce
  have lb: "length ?base = branch_base b" "(?base \<noteq> []) = (branch_base b \<noteq> 0)" by (simp_all add: branch_base_def)
  have ivq: "(case map_of ic pat of Some v \<Rightarrow> v | None \<Rightarrow>
      fill_inverse pat (map (\<lambda>(k, g). (fst g, length ?base + k)) (enumerate 0 (timestep_groups b ta ti tr)))
        (replicate (br_seq_len b) (if ?base \<noteq> [] then pat ! 0 else 0))) = pattern_inverse b pat"
    using assms unfolding lb fill_groups_static
    by (auto simp: caches_ok_def c pattern_inverse_def branch_groups_def split: option.splits)
  have comb: "(case map_of cc pat of Some v \<Rightarrow> v | None \<Rightarrow>
      map2 (\<lambda>tag i. tag + MINIMAX_H3_ADALN_MODALITY_NUM * int i) (br_block_token_tags b)
        (take (br_local_row_stop b - br_local_row_start b) (drop (br_local_row_start b) (pattern_inverse b pat))))
      = pattern_combined b pat"
    using assms by (auto simp: caches_ok_def c pattern_combined_def split: option.splits)
  let ?ic = "if dhas ic pat then ic else dset pat (pattern_inverse b pat) ic"
  let ?cc = "if dhas cc pat then cc else dset pat (pattern_combined b pat) cc"
  have "expand_step_timesteps ops b t_video ta ti tr c = ((u, pattern_inverse b pat, pattern_combined b pat), ?ic, ?cc)"
    unfolding expand_step_timesteps_def Let_def c u prod.case ivq comb by simp
  moreover have "caches_ok b (?ic, ?cc)" using assms by (auto simp: caches_ok_def c dict_simps)
  ultimately show ?thesis using that u by blast
qed

lemma timestep_sets_cover:
  assumes "timestep_sets_ok b" and "\<not> 0 < br_n_video_timestep_rows b" and "i < br_seq_len b"
  shows "i \<in> set (br_img_cond_seq_idx b @ br_audio_target_seq_idx b @ br_audio_ref_seq_idx b)"
proof -
  let ?all = "br_img_cond_seq_idx b @ br_audio_target_seq_idx b @ br_audio_ref_seq_idx b"
  have d: "distinct ?all" and sub: "set ?all \<subseteq> {0..<br_seq_len b}"
    and n: "int (length ?all) \<ge> int (br_seq_len b)"
    using assms(1,2) by (auto simp: timestep_sets_ok_def)
  have "card (set ?all) \<le> card {0..<br_seq_len b}" using sub by (intro card_mono) auto
  then have "card (set ?all) = card {0..<br_seq_len b}" using n distinct_card[OF d] by simp
  then have "set ?all = {0..<br_seq_len b}" using sub by (simp add: card_subset_eq)
  then show ?thesis using assms(3) by (metis atLeastLessThan_iff zero_le)
qed

text \<open>Every packed row reads its own timestep through the deduplicated table.\<close>

lemma pattern_inverse_timestep:
  assumes ok: "timestep_sets_ok b" and i: "i < br_seq_len b"
    and u: "unique_sorted (map (f_of ops) ((if 0 < br_n_video_timestep_rows b then [t_video] else []) @
        map snd (timestep_groups b ta ti tr))) = (u, pat)"
  shows "u ! (pattern_inverse b pat ! i) = f_of ops (row_timestep b t_video ta ti tr i)"
proof -
  let ?base = "if 0 < br_n_video_timestep_rows b then [t_video] else []"
  let ?cands = "?base @ map snd (timestep_groups b ta ti tr)"
  have U: "u ! (pat ! k) = f_of ops (?cands ! k)" if "k < length ?cands" for k
    using unique_sorted_nth(1)[OF u, of k] that by (simp add: nth_append)
  have d: "distinct (concat (map fst (branch_groups b)))"
    using ok by (auto simp: timestep_sets_ok_def branch_groups_def)
  have F: "pattern_inverse b pat ! i = (case find (\<lambda>(idx, slot). i \<in> set idx) (branch_groups b) of
      None \<Rightarrow> (if branch_base b = 0 then 0 else pat ! 0) | Some (idx, slot) \<Rightarrow> pat ! slot)"
    unfolding pattern_inverse_def using fill_inverse_nth[OF _ d, of i] i by (simp split: option.splits)
  have cov: "i \<in> set (br_img_cond_seq_idx b) \<or> i \<in> set (br_audio_target_seq_idx b) \<or> i \<in> set (br_audio_ref_seq_idx b)"
    if "\<not> 0 < br_n_video_timestep_rows b"
    using timestep_sets_cover[OF ok that i] by auto
  show ?thesis
    unfolding F using U[of 0] U[of 1] U[of 2] U[of 3] cov
    by (cases "br_img_cond_seq_idx b = []"; cases "br_audio_target_seq_idx b = []"; cases "br_audio_ref_seq_idx b = []")
      (auto simp: branch_groups_def branch_base_def timestep_groups_def row_timestep_def numeral_2_eq_2
        numeral_3_eq_3 split: if_splits)
qed

end
