(* ===== verification/Denoise_Loop.thy ===== *)
theory Denoise_Loop
  imports Denoise_Branch
begin

text \<open>
  \<^verbatim>\<open>minimax_h3_denoise_loop\<close> and its in-place row update. The transformer is a parameter, as it is in
  the source (\<^verbatim>\<open>model\<close>, \<^verbatim>\<open>model_forward\<close>); its own state is threaded. Row tensors have the shapes the
  layout gives them: an operation on tensors of different shapes raises. Device transfers, the step
  profiler and the forward context do not change any value and are left out.
\<close>

section \<open>The row update\<close>

text \<open>\<^verbatim>\<open>state\<close>, \<^verbatim>\<open>velocity\<close> and \<^verbatim>\<open>denoised_scratch\<close> are written in place: the operation returns all
  three.\<close>

definition update_target_rows ::
  "'f fp32_ops \<Rightarrow> 'f \<Rightarrow> pyfloat \<Rightarrow> 'f \<Rightarrow> 'f \<Rightarrow> 'f rows \<times> 'f rows \<times> 'f rows \<Rightarrow> 'f rows \<times> 'f rows \<times> 'f rows" where
  "update_target_rows ops sigma_t sigma_curr sigma_ratio one_minus_sigma_ratio st = (case st of
     (state, velocity, scratch) \<Rightarrow>
       let scratch = rows_map (f_mul ops sigma_t) velocity;
           scratch = rows_zip (f_add ops) state scratch
       in if feq sigma_curr (Fin 0) then (state, velocity, scratch)
          else let velocity = rows_map (f_mul ops one_minus_sigma_ratio) scratch;
                   state = rows_map (f_mul ops sigma_ratio) state;
                   state = rows_zip (f_add ops) state velocity
               in (state, velocity, scratch))"

section \<open>The loop\<close>

text \<open>What one forward call receives besides the static arguments.\<close>

record ('f, 's) forward_args =
  fa_branch :: "'f branch"
  fa_unique_timesteps :: "'f list"
  fa_inverse_indices :: "nat list"
  fa_block_combined :: "int list"
  fa_adaln_slot :: "'s option"

text \<open>The transformer: \<^verbatim>\<open>prepare_adaln_plans\<close> over the timesteps of all steps, and the forward call
  that returns the video and audio velocities; both may raise.\<close>

record ('f, 's, 'm) dit =
  dit_prepare :: "'m \<Rightarrow> 'f list list \<Rightarrow> ('s list option \<times> 'm) res"
  dit_forward :: "'m \<Rightarrow> ('f, 's) forward_args \<Rightarrow> nat \<Rightarrow> (('f rows \<times> 'f rows) \<times> 'm) res"

text \<open>\<^verbatim>\<open>None if adaln_plan_slots is None else adaln_plan_slots[step]\<close>.\<close>

definition plan_slot :: "'s list option \<Rightarrow> nat \<Rightarrow> 's option res" where
  "plan_slot slots k = (case slots of
      None \<Rightarrow> Inr None
    | Some s \<Rightarrow> if k < length s then Inr (Some (s ! k)) else Inl IndexError)"

text \<open>The fp32 step coefficients of one modality: \<^verbatim>\<open>1 - timestep\<close>, the ratio of consecutive sigmas, and
  one minus it.\<close>

definition step_sigma_t :: "'f fp32_ops \<Rightarrow> pyfloat list \<Rightarrow> nat \<Rightarrow> 'f" where
  "step_sigma_t ops sigmas k = f_sub ops (f_of ops (Fin 1)) (f_of ops (fsub (Fin 1) (sigmas ! k)))"

definition step_ratio :: "'f fp32_ops \<Rightarrow> pyfloat list \<Rightarrow> nat \<Rightarrow> 'f" where
  "step_ratio ops sigmas k = f_div ops (f_of ops (sigmas ! (k + 1))) (f_of ops (sigmas ! k))"

record ('f, 'm) loop_state =
  ls_branch :: "'f branch"
  ls_video :: "'f rows"
  ls_audio :: "'f rows"
  ls_video_scratch :: "'f rows"
  ls_audio_scratch :: "'f rows"
  ls_model :: 'm

text \<open>One modality of one step: the target suffix is a view into the rows.\<close>

definition step_rows ::
  "'f fp32_ops \<Rightarrow> pyfloat list \<Rightarrow> nat \<Rightarrow> nat \<Rightarrow> 'f rows \<Rightarrow> 'f rows \<Rightarrow> 'f rows \<Rightarrow> ('f rows \<times> 'f rows) res" where
  "step_rows ops sigmas k target_start rows velocity scratch =
     (let target = drop target_start rows in
      raise_if (\<not> same_shape target velocity)
        (RuntimeError ''The size of tensor a must match the size of tensor b'')
      (case update_target_rows ops (step_sigma_t ops sigmas k) (sigmas ! k) (step_ratio ops sigmas k)
              (f_sub ops (f_of ops (Fin 1)) (step_ratio ops sigmas k)) (target, velocity, scratch) of
         (state, _, scratch') \<Rightarrow> Inr (take target_start rows @ state, scratch')))"

definition denoise_step ::
  "'f fp32_ops \<Rightarrow> ('f, 's, 'm) dit \<Rightarrow> pyfloat list \<Rightarrow> pyfloat list \<Rightarrow>
   ('f list \<times> nat list \<times> int list) list \<Rightarrow> 's list option \<Rightarrow> nat \<Rightarrow> ('f, 'm) loop_state \<Rightarrow> ('f, 'm) loop_state res" where
  "denoise_step ops model sigmas_video sigmas_audio plan slots k st =
     rbind (plan_slot slots k) (\<lambda>slot.
     rbind (fill_buffers (ls_branch st) (ls_video st) (ls_audio st)) (\<lambda>b.
     let (unique, inverse, combined) = plan ! k;
         args = \<lparr>fa_branch = b, fa_unique_timesteps = unique, fa_inverse_indices = inverse,
                 fa_block_combined = combined, fa_adaln_slot = slot\<rparr>
     in rbind (dit_forward model (ls_model st) args k) (\<lambda>((v_video, v_audio), m).
        rbind (step_rows ops sigmas_video k (br_video_target_start b) (ls_video st) v_video (ls_video_scratch st))
          (\<lambda>(video, video_scratch).
        rbind (step_rows ops sigmas_audio k (br_audio_target_start b) (ls_audio st)
                 (drop (br_audio_target_start b) v_audio) (ls_audio_scratch st)) (\<lambda>(audio, audio_scratch).
        Inr \<lparr>ls_branch = b, ls_video = video, ls_audio = audio, ls_video_scratch = video_scratch,
             ls_audio_scratch = audio_scratch, ls_model = m\<rparr>)))))"

text \<open>The scratch tensors start uninitialised (\<^verbatim>\<open>torch.empty_like\<close>); every step overwrites them before it
  reads them, so the loop below may start them with any rows of their shape.\<close>

text \<open>The anchors: the rows given must match the layout; they are copied over the condition rows.\<close>

definition check_anchor :: "nat \<Rightarrow> 'f rows option \<Rightarrow> string \<Rightarrow> unit res" where
  "check_anchor n rows name = (case rows of
      None \<Rightarrow> raise_if (n \<noteq> 0) (ValueError (''layout has rows but '' @ name @ '' is None'')) (Inr ())
    | Some r \<Rightarrow> raise_if (length r \<noteq> n) (ValueError (name @ '' != layout rows'')) (Inr ()))"

definition pin_anchor :: "nat list \<Rightarrow> 'f rows option \<Rightarrow> 'f rows \<Rightarrow> 'f rows res" where
  "pin_anchor idx anchor rows = (case anchor of None \<Rightarrow> Inr rows | Some r \<Rightarrow> index_copy idx r rows)"

definition minimax_h3_denoise_loop ::
  "('f::linorder) fp32_ops \<Rightarrow> ('f, 's, 'm) dit \<Rightarrow> 'm \<Rightarrow> 'f branch \<Rightarrow> 'f rows \<Rightarrow> 'f rows \<Rightarrow> 'f rows option \<Rightarrow>
   'f rows option \<Rightarrow> pyfloat list \<Rightarrow> pyfloat list \<Rightarrow> pyfloat \<Rightarrow> pyfloat \<Rightarrow> ('f, 'm) loop_state res" where
  "minimax_h3_denoise_loop ops model m positive initial_video initial_audio keyframe_cond_rows audio_ref_rows
      sigmas_video sigmas_audio img_aug audio_aug =
     raise_if (length sigmas_video \<noteq> length sigmas_audio)
       (ValueError ''video/audio sigma schedules must have equal length'')
     (raise_if (length sigmas_video < 2) (ValueError ''sigma schedules need at least 2 entries'')
     (rbind (check_anchor (br_video_target_start positive) keyframe_cond_rows ''keyframe_cond_rows'') (\<lambda>_.
      raise_if (length initial_video \<noteq> length (br_img_pos positive))
        (ValueError ''initial video rows != positive layout rows'')
      (raise_if (length initial_audio \<noteq> length (br_audio_pos positive))
        (ValueError ''initial audio rows != positive layout rows'')
      (rbind (check_anchor (br_audio_target_start positive) audio_ref_rows ''audio_ref_rows'') (\<lambda>_.
       rbind (pin_anchor (br_cond_row_idx positive) keyframe_cond_rows initial_video) (\<lambda>video.
       rbind (pin_anchor (br_audio_ref_row_idx positive) audio_ref_rows initial_audio) (\<lambda>audio.
       rbind (prepare_timestep_plan ops positive (map (fsub (Fin 1)) (butlast sigmas_video))
                (map (fsub (Fin 1)) (butlast sigmas_audio)) img_aug audio_aug) (\<lambda>plan.
       rbind (dit_prepare model m (map fst plan)) (\<lambda>(slots, m').
       rfold (denoise_step ops model sigmas_video sigmas_audio plan slots) [0..<length sigmas_video - 1]
         \<lparr>ls_branch = positive, ls_video = video, ls_audio = audio,
          ls_video_scratch = drop (br_video_target_start positive) video,
          ls_audio_scratch = drop (br_audio_target_start positive) audio, ls_model = m'\<rparr>))))))))))"

end
