(* ===== verification/Denoise_Correct.thy ===== *)
theory Denoise_Correct
  imports Denoise_Loop
begin

text \<open>
  Correctness of the denoise loop against a reference without buffers and in-place updates: the
  reference rewrites the model input from scratch at every step and applies the scheduler's
  rectified-flow step to the target rows only. The contract of a packed layout is the locale
  \<open>packed_layout\<close>, interpreted on both layout builders.
\<close>


section \<open>Well-formed branches\<close>

text \<open>What the loop relies on: condition rows first, then target rows, for both modalities; all
  positions distinct and in range.\<close>

definition branch_wf :: "'f branch \<Rightarrow> bool" where
  "branch_wf b \<longleftrightarrow>
     br_img_pos b = br_img_cond_seq_idx b @ br_img_target_seq_idx b \<and>
     br_audio_pos b = br_audio_ref_seq_idx b @ br_audio_target_seq_idx b \<and>
     br_video_target_start b = length (br_img_cond_seq_idx b) \<and>
     br_audio_target_start b = length (br_audio_ref_seq_idx b) \<and>
     br_cond_row_idx b = [0..<br_video_target_start b] \<and>
     br_audio_ref_row_idx b = [0..<br_audio_target_start b] \<and>
     distinct (br_img_pos b @ br_audio_pos b) \<and>
     (\<forall>i \<in> set (br_img_pos b @ br_audio_pos b). i < br_seq_len b) \<and>
     length (br_x_buffer b) = br_seq_len b \<and> length (br_audio_x_buffer b) = br_seq_len b \<and>
     br_n_video_timestep_rows b = int (br_seq_len b) - int (length (br_img_cond_seq_idx b)) -
       int (length (br_audio_target_seq_idx b)) - int (length (br_audio_ref_seq_idx b))"

lemma branch_wf_timesteps: "branch_wf b \<Longrightarrow> timestep_sets_ok b"
  by (auto simp: branch_wf_def timestep_sets_ok_def)

lemma masked_prefix_mask:
  "masked (xs @ ys) (replicate (length xs) False @ replicate (length ys) True) = ys"
  "masked (xs @ ys) (map Not (replicate (length xs) False @ replicate (length ys) True)) = xs"
  using masked_suffix[of xs "length xs" ys] masked_neg_prefix[of xs "length xs" ys] by simp_all

lemma false_indices_prefix: "false_indices (replicate n False @ replicate m True) = [0..<n]"
proof -
  have "false_indices (replicate n False @ replicate m True) = filter (\<lambda>i. i < n) [0..<n + m]"
  proof -
    have "(replicate n False @ replicate m True) ! i = (\<not> i < n)" if "i < n + m" for i
      using that by (auto simp: nth_append)
    then show ?thesis by (auto simp: false_indices_def intro!: filter_cong)
  qed
  also have "[0..<n + m] = [0..<n] @ [n..<n + m]" using upto_append[of 0 n "n + m"] by simp
  finally show ?thesis by (simp add: filter_empty_conv filter_id_conv)
qed

lemma filter_Not_prefix: "length (filter Not (replicate n False @ replicate m True)) = n"
  by (simp add: filter_replicate)

definition effective_audio_mask :: "packed \<Rightarrow> bool list" where
  "effective_audio_mask p = (case pk_audio_update_mask p of
      Some m \<Rightarrow> m | None \<Rightarrow> replicate (length (pk_audio_pos p)) True)"

lemma effective_audio_mask_eq:
  "layout_ok p used cond target refs audio \<Longrightarrow>
   effective_audio_mask p = replicate (length refs) False @ replicate (length audio) True"
  by (auto simp: layout_ok_def effective_audio_mask_def split: option.splits)

lemma branch_init_fields:
  assumes "denoise_branch_init ops p te tags vq sp = Inr b"
  shows "br_seq_len b = pk_seq_len p" "br_img_pos b = pk_img_pos p" "br_audio_pos b = pk_audio_pos p"
    "br_video_target_start b = length (filter Not (pk_update_mask p))"
    "br_audio_target_start b = length (filter Not (effective_audio_mask p))"
    "br_img_cond_seq_idx b = masked (pk_img_pos p) (map Not (pk_update_mask p))"
    "br_img_target_seq_idx b = masked (pk_img_pos p) (pk_update_mask p)"
    "br_audio_target_seq_idx b = masked (pk_audio_pos p) (effective_audio_mask p)"
    "br_audio_ref_seq_idx b = masked (pk_audio_pos p) (map Not (effective_audio_mask p))"
    "br_cond_row_idx b = false_indices (pk_update_mask p)"
    "br_audio_ref_row_idx b = false_indices (effective_audio_mask p)"
    "br_x_buffer b = zero_rows ops (pk_seq_len p) 96" "br_audio_x_buffer b = zero_rows ops (pk_seq_len p) 32"
    "br_n_video_timestep_rows b = int (br_seq_len b) - int (length (br_img_cond_seq_idx b)) -
       int (length (br_audio_target_seq_idx b)) - int (length (br_audio_ref_seq_idx b))"
    "\<not> br_x_buffer_primed b"
  using assms unfolding denoise_branch_init_def Let_def
  by (clarsimp simp: res_simps effective_audio_mask_def MINIMAX_H3_VIDEO_ROW_WIDTH_def
      MINIMAX_H3_AUDIO_ROW_WIDTH_def)+

lemma zero_rows_length [simp]: "length (zero_rows ops n w) = n"
  by (simp add: zero_rows_def)

lemma branch_init_wf:
  assumes init: "denoise_branch_init ops p te tags vq sp = Inr b"
    and lay: "layout_ok p used cond target refs audio"
  shows "branch_wf b" and "br_img_cond_seq_idx b = cond" and "br_img_target_seq_idx b = target"
    and "br_audio_ref_seq_idx b = refs" and "br_audio_target_seq_idx b = audio"
proof -
  note B = branch_init_fields[OF init]
  have m: "pk_update_mask p = replicate (length cond) False @ replicate (length target) True"
    and img: "pk_img_pos p = cond @ target" and aud: "pk_audio_pos p = refs @ audio"
    and part: "layout_partition p used"
    using lay by (simp_all add: layout_ok_def)
  note am = effective_audio_mask_eq[OF lay]
  show c: "br_img_cond_seq_idx b = cond" "br_img_target_seq_idx b = target"
    "br_audio_ref_seq_idx b = refs" "br_audio_target_seq_idx b = audio"
    unfolding B(6-9) m am img aud by (rule masked_prefix_mask)+
  note P = layout_partition_distinct[OF part]
  have "used \<le> pk_seq_len p" using part by (simp add: layout_partition_def)
  then have "\<forall>i \<in> set (pk_img_pos p @ pk_audio_pos p). i < pk_seq_len p" using P(2)
    by (metis UnI1 UnI2 atLeastLessThan_iff less_le_trans set_append Un_iff)
  moreover have "distinct (pk_img_pos p @ pk_audio_pos p)" using P(1) by simp
  ultimately show "branch_wf b"
    unfolding branch_wf_def B(14) using B(1-5,10-13) c
    by (simp add: m am img aud false_indices_prefix filter_Not_prefix)
qed

section \<open>Buffers\<close>

text \<open>Once primed, the buffers hold exactly the current rows at their packed positions and zeros
  elsewhere, as a full rewrite would leave them.\<close>

definition buffers_hold :: "'f rows \<Rightarrow> 'f rows \<Rightarrow> 'f branch \<Rightarrow> 'f rows \<Rightarrow> 'f rows \<Rightarrow> bool" where
  "buffers_hold x0 a0 b video audio \<longleftrightarrow> br_x_buffer_primed b \<and>
     br_x_buffer b = copied (br_img_pos b) video x0 \<and> br_audio_x_buffer b = copied (br_audio_pos b) audio a0"

text \<open>The static part of a branch, which no step changes.\<close>

definition same_static :: "'f branch \<Rightarrow> 'f branch \<Rightarrow> bool" where
  "same_static b b' \<longleftrightarrow> (\<exists>x a pr. b' = b\<lparr>br_x_buffer := x, br_audio_x_buffer := a, br_x_buffer_primed := pr\<rparr>)"

lemma same_static_fields:
  assumes "same_static b b'"
  shows "br_img_pos b' = br_img_pos b" "br_audio_pos b' = br_audio_pos b"
    "br_img_cond_seq_idx b' = br_img_cond_seq_idx b" "br_img_target_seq_idx b' = br_img_target_seq_idx b"
    "br_audio_ref_seq_idx b' = br_audio_ref_seq_idx b" "br_audio_target_seq_idx b' = br_audio_target_seq_idx b"
    "br_video_target_start b' = br_video_target_start b" "br_audio_target_start b' = br_audio_target_start b"
    "br_seq_len b' = br_seq_len b" "br_n_video_timestep_rows b' = br_n_video_timestep_rows b"
    "br_cond_row_idx b' = br_cond_row_idx b" "br_audio_ref_row_idx b' = br_audio_ref_row_idx b"
  using assms by (auto simp: same_static_def)

lemma same_static_refl [simp]: "same_static b b"
  unfolding same_static_def
  by (rule exI[of _ "br_x_buffer b"], rule exI[of _ "br_audio_x_buffer b"], rule exI[of _ "br_x_buffer_primed b"]) simp

lemma same_static_trans: "same_static a b \<Longrightarrow> same_static b c \<Longrightarrow> same_static a c"
  unfolding same_static_def by (elim exE, hypsubst, simp, blast)

lemma same_static_update: "same_static b (b\<lparr>br_x_buffer := x, br_audio_x_buffer := a\<rparr>)"
  unfolding same_static_def
  by (rule exI[of _ x], rule exI[of _ a], rule exI[of _ "br_x_buffer_primed b"]) simp

text \<open>The first fill writes everything.\<close>

lemma fill_buffers_first:
  assumes "branch_wf b" and "\<not> br_x_buffer_primed b"
    and "length video = length (br_img_pos b)" and "length audio = length (br_audio_pos b)"
  obtains b' where "fill_buffers b video audio = Inr b'" "same_static b b'"
    "buffers_hold (br_x_buffer b) (br_audio_x_buffer b) b' video audio"
proof -
  have "index_copy (br_img_pos b) video (br_x_buffer b) = Inr (copied (br_img_pos b) video (br_x_buffer b))"
    "index_copy (br_audio_pos b) audio (br_audio_x_buffer b) = Inr (copied (br_audio_pos b) audio (br_audio_x_buffer b))"
    using assms by (auto simp: index_copy_Inr branch_wf_def)
  then show ?thesis using assms(2)
    by (intro that) (auto simp: fill_buffers_def same_static_def buffers_hold_def)
qed

text \<open>A later fill writes the target rows only, with the same outcome as a full rewrite.\<close>

lemma fill_buffers_next:
  assumes wf: "branch_wf b" and st: "same_static b b1" and h: "buffers_hold x0 a0 b1 video audio"
    and x0: "length x0 = br_seq_len b" "length a0 = br_seq_len b"
    and len: "length video = length (br_img_pos b)" "length audio = length (br_audio_pos b)"
    and len': "length video' = length video" "length audio' = length audio"
    and pin: "take (br_video_target_start b) video' = take (br_video_target_start b) video"
      "take (br_audio_target_start b) audio' = take (br_audio_target_start b) audio"
  obtains b2 where "fill_buffers b1 video' audio' = Inr b2" "same_static b b2" "buffers_hold x0 a0 b2 video' audio'"
proof -
  note F = same_static_fields[OF st]
  have V: "copied (br_img_target_seq_idx b) (drop (br_video_target_start b) video') (copied (br_img_pos b) video x0)
      = copied (br_img_pos b) video' x0"
    using copied_incremental[of "br_img_cond_seq_idx b" "br_img_target_seq_idx b" video video' x0]
      wf len len' pin x0 by (auto simp: branch_wf_def)
  have A: "copied (br_audio_target_seq_idx b) (drop (br_audio_target_start b) audio') (copied (br_audio_pos b) audio a0)
      = copied (br_audio_pos b) audio' a0"
    using copied_incremental[of "br_audio_ref_seq_idx b" "br_audio_target_seq_idx b" audio audio' a0]
      wf len len' pin x0 by (auto simp: branch_wf_def)
  have x1: "br_x_buffer b1 = copied (br_img_pos b) video x0" "br_audio_x_buffer b1 = copied (br_audio_pos b) audio a0"
    using h F by (simp_all add: buffers_hold_def)
  have "index_copy (br_img_target_seq_idx b1) (drop (br_video_target_start b1) video') (br_x_buffer b1) =
      Inr (copied (br_img_pos b) video' x0)"
    unfolding index_copy_Inr F x1 V using wf len len' x0 by (auto simp: branch_wf_def)
  moreover have "index_copy (br_audio_target_seq_idx b1) (drop (br_audio_target_start b1) audio') (br_audio_x_buffer b1) =
      Inr (copied (br_audio_pos b) audio' a0)"
    unfolding index_copy_Inr F x1 A using wf len len' x0 by (auto simp: branch_wf_def)
  moreover have pr: "br_x_buffer_primed b1" using h by (simp add: buffers_hold_def)
  ultimately have "fill_buffers b1 video' audio' = Inr (b1\<lparr>br_x_buffer := copied (br_img_pos b) video' x0,
      br_audio_x_buffer := copied (br_audio_pos b) audio' a0\<rparr>)"
    by (simp add: fill_buffers_def)
  then show ?thesis
    by (rule that) (use st pr F in \<open>auto simp: buffers_hold_def intro: same_static_trans same_static_update\<close>)
qed

section \<open>The in-place update is the scheduler's step\<close>

definition scheduler_rows ::
  "'f fp32_ops \<Rightarrow> pyfloat list \<Rightarrow> nat \<Rightarrow> 'f rows \<Rightarrow> 'f rows \<Rightarrow> 'f rows" where
  "scheduler_rows ops sigmas k state velocity =
     euler_eta0_step ops state (rf_v_to_x0 ops state velocity (f_of ops (fsub (Fin 1) (sigmas ! k))))
       (sigmas ! k) (sigmas ! (k + 1)) None"

lemma update_target_rows_scheduler:
  "fst (update_target_rows ops (step_sigma_t ops sigmas k) (sigmas ! k) (step_ratio ops sigmas k)
     (f_sub ops (f_of ops (Fin 1)) (step_ratio ops sigmas k)) (state, velocity, scratch)) =
   scheduler_rows ops sigmas k state velocity"
  by (simp add: update_target_rows_def scheduler_rows_def euler_eta0_step_def rf_v_to_x0_def
      step_sigma_t_def step_ratio_def Let_def)

lemma scheduler_rows_shape:
  "same_shape state v \<Longrightarrow> same_shape (scheduler_rows ops sigmas k state v) state"
  unfolding scheduler_rows_def by (rule euler_step_shape)

lemma step_rows_eq:
  assumes "length anchor = n" and "same_shape target v"
  obtains s' where "step_rows ops sigmas k n (anchor @ target) v s = Inr (anchor @ scheduler_rows ops sigmas k target v, s')"
proof -
  obtain a b c where u: "update_target_rows ops (step_sigma_t ops sigmas k) (sigmas ! k) (step_ratio ops sigmas k)
      (f_sub ops (f_of ops (Fin 1)) (step_ratio ops sigmas k)) (target, v, s) = (a, b, c)"
    by (metis prod_cases3)
  have "a = scheduler_rows ops sigmas k target v"
    using update_target_rows_scheduler[of ops sigmas k target v s] u by simp
  then have "step_rows ops sigmas k n (anchor @ target) v s = Inr (anchor @ scheduler_rows ops sigmas k target v, c)"
    using assms u by (simp add: step_rows_def res_simps)
  then show thesis by (rule that)
qed

section \<open>The reference loop\<close>

text \<open>Target rows of both modalities and the model's state; \<open>cond\<close> and \<open>refs\<close> are the pinned rows.\<close>

definition full_branch :: "'f branch \<Rightarrow> 'f rows \<Rightarrow> 'f rows \<Rightarrow> 'f branch" where
  "full_branch b video audio = b\<lparr>br_x_buffer := copied (br_img_pos b) video (br_x_buffer b),
     br_audio_x_buffer := copied (br_audio_pos b) audio (br_audio_x_buffer b), br_x_buffer_primed := True\<rparr>"

definition reference_step ::
  "'f fp32_ops \<Rightarrow> ('f, 's, 'm) dit \<Rightarrow> pyfloat list \<Rightarrow> pyfloat list \<Rightarrow>
   ('f list \<times> nat list \<times> int list) list \<Rightarrow> 's list option \<Rightarrow> 'f branch \<Rightarrow> 'f rows \<Rightarrow> 'f rows \<Rightarrow> nat
   \<Rightarrow> 'f rows \<times> 'f rows \<times> 'm \<Rightarrow> ('f rows \<times> 'f rows \<times> 'm) res" where
  "reference_step ops model sv sa plan slots b cond refs k st = (case st of (video, audio, m) \<Rightarrow>
     rbind (plan_slot slots k) (\<lambda>slot.
     rbind (dit_forward model m
           \<lparr>fa_branch = full_branch b (cond @ video) (refs @ audio), fa_unique_timesteps = fst (plan ! k),
            fa_inverse_indices = fst (snd (plan ! k)), fa_block_combined = snd (snd (plan ! k)),
            fa_adaln_slot = slot\<rparr> k) (\<lambda>((v_video, v_audio), m').
     Inr (scheduler_rows ops sv k video v_video,
         scheduler_rows ops sa k audio (drop (br_audio_target_start b) v_audio), m'))))"

text \<open>The model answers, when it does, with velocities of the target shapes.\<close>

definition shaped_model :: "('f, 's, 'm) dit \<Rightarrow> nat \<Rightarrow> 'f rows \<Rightarrow> 'f rows \<Rightarrow> bool" where
  "shaped_model model n video audio \<longleftrightarrow> (\<forall>m args k v_video v_audio m'.
     dit_forward model m args k = Inr ((v_video, v_audio), m') \<longrightarrow>
     same_shape video v_video \<and> same_shape audio (drop n v_audio))"

text \<open>The simulation relation.\<close>

definition loop_rel ::
  "'f branch \<Rightarrow> 'f rows \<Rightarrow> 'f rows \<Rightarrow> ('f, 'm) loop_state \<Rightarrow> 'f rows \<times> 'f rows \<times> 'm \<Rightarrow> bool" where
  "loop_rel b cond refs st r \<longleftrightarrow> (case r of (video, audio, m) \<Rightarrow>
     ls_video st = cond @ video \<and> ls_audio st = refs @ audio \<and> ls_model st = m \<and>
     (ls_branch st = b \<or> (\<exists>video0 audio0. ls_branch st = full_branch b (cond @ video0) (refs @ audio0) \<and>
        length video0 = length video \<and> length audio0 = length audio)))"

lemma full_branch_same: "same_static b (full_branch b video audio)"
  unfolding same_static_def full_branch_def by blast

lemma full_branch_unique:
  assumes "same_static b b'" and "buffers_hold (br_x_buffer b) (br_audio_x_buffer b) b' video audio"
  shows "b' = full_branch b video audio"
  using assms by (auto simp: same_static_def buffers_hold_def full_branch_def)

lemma full_branch_holds:
  "buffers_hold (br_x_buffer b) (br_audio_x_buffer b) (full_branch b video audio) video audio"
  by (simp add: buffers_hold_def full_branch_def)

text \<open>Whatever the buffers held before, a fill leaves the full rewrite.\<close>

lemma fill_buffers_full:
  assumes wf: "branch_wf b" and pr: "\<not> br_x_buffer_primed b" and rel: "loop_rel b cond refs st (video, audio, m)"
    and c: "length cond = br_video_target_start b" "length refs = br_audio_target_start b"
    and n: "length (cond @ video) = length (br_img_pos b)" "length (refs @ audio) = length (br_audio_pos b)"
  shows "fill_buffers (ls_branch st) (ls_video st) (ls_audio st) = Inr (full_branch b (cond @ video) (refs @ audio))"
proof -
  have st: "ls_video st = cond @ video" "ls_audio st = refs @ audio" using rel by (auto simp: loop_rel_def)
  have "ls_branch st = b \<or> (\<exists>video0 audio0. ls_branch st = full_branch b (cond @ video0) (refs @ audio0) \<and>
        length video0 = length video \<and> length audio0 = length audio)"
    using rel by (auto simp: loop_rel_def)
  then show ?thesis
  proof (elim disjE exE conjE)
    assume "ls_branch st = b"
    then show ?thesis
      using fill_buffers_first[OF wf pr n] full_branch_unique st by metis
  next
    fix video0 audio0
    assume b0: "ls_branch st = full_branch b (cond @ video0) (refs @ audio0)"
      "length video0 = length video" "length audio0 = length audio"
    obtain b2 where b2: "fill_buffers (full_branch b (cond @ video0) (refs @ audio0)) (cond @ video) (refs @ audio) = Inr b2"
      "same_static b b2" "buffers_hold (br_x_buffer b) (br_audio_x_buffer b) b2 (cond @ video) (refs @ audio)"
      by (rule fill_buffers_next[OF wf full_branch_same full_branch_holds,
            of "cond @ video0" "refs @ audio0" "cond @ video" "refs @ audio"])
        (use wf n c b0 in \<open>auto simp: branch_wf_def\<close>)
    then show ?thesis using full_branch_unique[OF b2(2,3)] st b0 by simp
  qed
qed

lemma denoise_step_simulates:
  assumes wf: "branch_wf b" and pr: "\<not> br_x_buffer_primed b" and rel: "loop_rel b cond refs st (video, audio, m)"
    and c: "length cond = br_video_target_start b" "length refs = br_audio_target_start b"
    and n: "length (cond @ video) = length (br_img_pos b)" "length (refs @ audio) = length (br_audio_pos b)"
    and sh: "shaped_model model (br_audio_target_start b) video audio"
  shows "case reference_step ops model sv sa plan slots b cond refs k (video, audio, m) of
     Inl e \<Rightarrow> denoise_step ops model sv sa plan slots k st = Inl e
   | Inr r \<Rightarrow> \<exists>st'. denoise_step ops model sv sa plan slots k st = Inr st' \<and> loop_rel b cond refs st' r"
proof -
  let ?b = "full_branch b (cond @ video) (refs @ audio)"
  obtain u i cmb where plan: "plan ! k = (u, i, cmb)" by (metis prod_cases3)
  have st: "ls_video st = cond @ video" "ls_audio st = refs @ audio" "ls_model st = m"
    using rel by (auto simp: loop_rel_def)
  note fill = fill_buffers_full[OF wf pr rel c n, unfolded st]
  show ?thesis
  proof (cases "plan_slot slots k")
    case (Inl e)
    then show ?thesis by (simp add: reference_step_def denoise_step_def)
  next
    case (Inr slot)
    let ?args = "\<lparr>fa_branch = ?b, fa_unique_timesteps = u, fa_inverse_indices = i, fa_block_combined = cmb, fa_adaln_slot = slot\<rparr>"
    show ?thesis
    proof (cases "dit_forward model m ?args k")
      case (Inl e)
      then show ?thesis using Inr by (simp add: reference_step_def denoise_step_def plan st fill)
    next
      case ans: (Inr out)
      obtain vv va m' where out: "out = ((vv, va), m')" by (metis prod.exhaust)
      note f = ans[unfolded out]
      have sv: "same_shape video vv" and sa: "same_shape audio (drop (br_audio_target_start b) va)"
        using sh f unfolding shaped_model_def by blast+
      note F = same_static_fields[OF full_branch_same[of b "cond @ video" "refs @ audio"]]
      obtain s1 where r1: "step_rows ops sv k (br_video_target_start ?b) (cond @ video) vv (ls_video_scratch st) =
          Inr (cond @ scheduler_rows ops sv k video vv, s1)"
        unfolding F using step_rows_eq[OF c(1) sv] by metis
      obtain s2 where r2: "step_rows ops sa k (br_audio_target_start ?b) (refs @ audio)
          (drop (br_audio_target_start ?b) va) (ls_audio_scratch st) =
          Inr (refs @ scheduler_rows ops sa k audio (drop (br_audio_target_start b) va), s2)"
        unfolding F using step_rows_eq[OF c(2) sa] by metis
      have "length (scheduler_rows ops sv k video vv) = length video"
        "length (scheduler_rows ops sa k audio (drop (br_audio_target_start b) va)) = length audio"
        using scheduler_rows_shape[OF sv] scheduler_rows_shape[OF sa] same_shape_length by blast+
      then show ?thesis
        by (auto simp: denoise_step_def reference_step_def Inr st fill plan f r1 r2 loop_rel_def)
    qed
  qed
qed

lemma shaped_model_cong:
  "same_shape video' video \<Longrightarrow> same_shape audio' audio \<Longrightarrow> shaped_model model n video' audio' = shaped_model model n video audio"
  by (simp add: shaped_model_def same_shape_def)

lemma reference_step_shape:
  assumes "shaped_model model (br_audio_target_start b) video audio"
    and "reference_step ops model sv sa plan slots b cond refs k (video, audio, m) = Inr (video', audio', m')"
  shows "same_shape video' video" and "same_shape audio' audio"
  using assms scheduler_rows_shape unfolding shaped_model_def
  by (fastforce simp: reference_step_def rbind_Inr_iff split: prod.splits)+

lemma denoise_fold_simulates:
  assumes wf: "branch_wf b" and pr: "\<not> br_x_buffer_primed b" and rel: "loop_rel b cond refs st (video, audio, m)"
    and c: "length cond = br_video_target_start b" "length refs = br_audio_target_start b"
    and n: "length (cond @ video) = length (br_img_pos b)" "length (refs @ audio) = length (br_audio_pos b)"
    and sh: "shaped_model model (br_audio_target_start b) video audio"
  shows "case rfold (reference_step ops model sv sa plan slots b cond refs) ks (video, audio, m) of
      Inl e \<Rightarrow> rfold (denoise_step ops model sv sa plan slots) ks st = Inl e
    | Inr r \<Rightarrow> \<exists>st'. rfold (denoise_step ops model sv sa plan slots) ks st = Inr st' \<and> loop_rel b cond refs st' r \<and>
        same_shape (fst r) video \<and> same_shape (fst (snd r)) audio"
  using rel n sh
proof (induction ks arbitrary: st video audio m)
  case (Cons k ks)
  note D = denoise_step_simulates[OF wf pr Cons.prems(1) c Cons.prems(2-4), of ops sv sa plan slots k]
  show ?case
  proof (cases "reference_step ops model sv sa plan slots b cond refs k (video, audio, m)")
    case (Inl e)
    then show ?thesis using D by simp
  next
    case (Inr r)
    obtain v1 a1 m1 where r: "r = (v1, a1, m1)" by (metis prod_cases3)
    obtain st1 where st1: "denoise_step ops model sv sa plan slots k st = Inr st1" "loop_rel b cond refs st1 (v1, a1, m1)"
      using D Inr r by auto
    note S = reference_step_shape[OF Cons.prems(4) Inr[unfolded r]]
    note L = same_shape_length[OF S(1)] same_shape_length[OF S(2)]
    have "length (cond @ v1) = length (br_img_pos b)" "length (refs @ a1) = length (br_audio_pos b)"
      using Cons.prems(2,3) L by simp_all
    moreover have "shaped_model model (br_audio_target_start b) v1 a1"
      using Cons.prems(4) by (simp add: shaped_model_cong[OF S])
    ultimately show ?thesis
      using Cons.IH[OF st1(2)] st1(1) Inr r S by (auto split: sum.splits intro: same_shape_trans)
  qed
qed auto

text \<open>Pinning the anchors leaves them as the prefix.\<close>

lemma copied_prefix:
  assumes "length r = n" and "n \<le> length rows"
  shows "copied [0..<n] r rows = r @ drop n rows"
proof (rule nth_equalityI)
  show "length (copied [0..<n] r rows) = length (r @ drop n rows)" using assms by simp
  fix i assume "i < length (copied [0..<n] r rows)"
  then show "copied [0..<n] r rows ! i = (r @ drop n rows) ! i"
    using copied_nth[of "[0..<n]" r i rows] copied_notin[of i "[0..<n]" r rows] assms
    by (cases "i < n") (auto simp: nth_append)
qed

lemma pin_anchor_prefix:
  assumes "check_anchor n anchor name = Inr u" and "n \<le> length rows"
  shows "pin_anchor [0..<n] anchor rows = Inr (concat (case anchor of None \<Rightarrow> [] | Some r \<Rightarrow> [r]) @ drop n rows)"
proof (cases anchor)
  case (Some r)
  then have r: "length r = n" using assms(1) by (simp add: check_anchor_def res_simps)
  then have "index_copy [0..<n] r rows = Inr (r @ drop n rows)"
    unfolding index_copy_Inr using copied_prefix[OF r assms(2)] assms(2) by simp
  then show ?thesis using Some by (simp add: pin_anchor_def)
next
  case None
  then have "n = 0" using assms(1) by (simp add: check_anchor_def res_simps)
  then show ?thesis using None by (simp add: pin_anchor_def)
qed

definition anchor_rows :: "'f rows option \<Rightarrow> 'f rows" where
  "anchor_rows a = (case a of None \<Rightarrow> [] | Some r \<Rightarrow> r)"

lemma check_anchor_Inr: "check_anchor n a name = Inr u \<longleftrightarrow> length (anchor_rows a) = n"
  by (auto simp: check_anchor_def anchor_rows_def res_simps split: option.splits)

lemma pin_anchor_rows:
  assumes "length (anchor_rows a) = n" and "n \<le> length rows"
  shows "pin_anchor [0..<n] a rows = Inr (anchor_rows a @ drop n rows)"
  using pin_anchor_prefix[of n a "[]" "()" rows] assms check_anchor_Inr[of n a "[]" "()"]
  by (cases a) (auto simp: anchor_rows_def)

text \<open>The reference loop: preparation, then the iteration over the target rows; what it returns are the rows with the
  anchors in front, and the state of the model.\<close>

definition reference_loop ::
  "('f::linorder) fp32_ops \<Rightarrow> ('f, 's, 'm) dit \<Rightarrow> 'm \<Rightarrow> 'f branch \<Rightarrow> 'f rows \<Rightarrow> 'f rows \<Rightarrow> pyfloat list \<Rightarrow> pyfloat list \<Rightarrow>
   ('f list \<times> nat list \<times> int list) list \<Rightarrow> 'f rows \<times> 'f rows \<Rightarrow> ('f rows \<times> 'f rows \<times> 'm) res" where
  "reference_loop ops model m b cond refs sv sa plan targets = (case targets of (video, audio) \<Rightarrow>
     rbind (dit_prepare model m (map fst plan)) (\<lambda>(slots, m').
     rbind (rfold (reference_step ops model sv sa plan slots b cond refs) [0..<length sv - 1] (video, audio, m'))
       (\<lambda>(v, a, m''). Inr (cond @ v, refs @ a, m''))))"

definition loop_result :: "('f, 'm) loop_state \<Rightarrow> 'f rows \<times> 'f rows \<times> 'm" where
  "loop_result st = (ls_video st, ls_audio st, ls_model st)"

lemma denoise_loop_refines:
  assumes wf: "branch_wf b" and pr: "\<not> br_x_buffer_primed b"
    and sig: "length sv = length sa" "2 \<le> length sv"
    and anch: "length (anchor_rows kf) = br_video_target_start b" "length (anchor_rows ar) = br_audio_target_start b"
    and n: "length iv = length (br_img_pos b)" "length ia = length (br_audio_pos b)"
    and sh: "shaped_model model (br_audio_target_start b) (drop (br_video_target_start b) iv)
               (drop (br_audio_target_start b) ia)"
    and plan: "plan = timestep_plan ops b img_aug audio_aug
        (zip (map (fsub (Fin 1)) (butlast sv)) (map (fsub (Fin 1)) (butlast sa))) ([], [])"
  shows "rbind (minimax_h3_denoise_loop ops model m b iv ia kf ar sv sa img_aug audio_aug) (\<lambda>st. Inr (loop_result st)) =
      reference_loop ops model m b (anchor_rows kf) (anchor_rows ar) sv sa plan
        (drop (br_video_target_start b) iv, drop (br_audio_target_start b) ia)"
    and "reference_loop ops model m b (anchor_rows kf) (anchor_rows ar) sv sa plan
        (drop (br_video_target_start b) iv, drop (br_audio_target_start b) ia) = Inr (video, audio, m'') \<Longrightarrow>
      \<exists>v a. video = anchor_rows kf @ v \<and> audio = anchor_rows ar @ a \<and>
       same_shape v (drop (br_video_target_start b) iv) \<and> same_shape a (drop (br_audio_target_start b) ia)"
proof -
  let ?v = "drop (br_video_target_start b) iv" and ?a = "drop (br_audio_target_start b) ia"
  have le: "br_video_target_start b \<le> length iv" "br_audio_target_start b \<le> length ia"
    and idx: "br_cond_row_idx b = [0..<br_video_target_start b]" "br_audio_ref_row_idx b = [0..<br_audio_target_start b]"
    using wf n by (auto simp: branch_wf_def)
  let ?s0 = "\<lambda>m'. \<lparr>ls_branch = b, ls_video = anchor_rows kf @ ?v, ls_audio = anchor_rows ar @ ?a,
          ls_video_scratch = ?v, ls_audio_scratch = ?a, ls_model = m'\<rparr>"
  have rel: "loop_rel b (anchor_rows kf) (anchor_rows ar) (?s0 m') (?v, ?a, m')" for m'
    by (simp add: loop_rel_def)
  have len: "length (anchor_rows kf @ ?v) = length (br_img_pos b)" "length (anchor_rows ar @ ?a) = length (br_audio_pos b)"
    using n anch le by simp_all
  have ck: "check_anchor (br_video_target_start b) kf name = Inr ()" "check_anchor (br_audio_target_start b) ar name = Inr ()"
    for name using anch check_anchor_Inr by metis+
  have L: "minimax_h3_denoise_loop ops model m b iv ia kf ar sv sa img_aug audio_aug =
      rbind (dit_prepare model m (map fst plan)) (\<lambda>(slots, m').
        rfold (denoise_step ops model sv sa plan slots) [0..<length sv - 1] (?s0 m'))"
    using sig n
    by (simp add: minimax_h3_denoise_loop_def res_simps ck anch idx
        pin_anchor_rows[OF anch(1) le(1)] pin_anchor_rows[OF anch(2) le(2)] prepare_timestep_plan_def plan)
  note S = denoise_fold_simulates[OF wf pr rel anch len sh, of ops sv sa plan _ "[0..<length sv - 1]"]
  show "rbind (minimax_h3_denoise_loop ops model m b iv ia kf ar sv sa img_aug audio_aug) (\<lambda>st. Inr (loop_result st)) =
      reference_loop ops model m b (anchor_rows kf) (anchor_rows ar) sv sa plan (?v, ?a)"
  proof (cases "dit_prepare model m (map fst plan)")
    case (Inr r)
    obtain slots m' where r: "r = (slots, m')" by fastforce
    show ?thesis using S[of slots m'] unfolding L reference_loop_def Inr r
      by (auto simp: loop_rel_def loop_result_def split: sum.splits)
  qed (simp add: L reference_loop_def)
  show "\<exists>v a. video = anchor_rows kf @ v \<and> audio = anchor_rows ar @ a \<and> same_shape v ?v \<and> same_shape a ?a"
    if result: "reference_loop ops model m b (anchor_rows kf) (anchor_rows ar) sv sa plan (?v, ?a) = Inr (video, audio, m'')"
  proof -
    obtain slots m' v a where "dit_prepare model m (map fst plan) = Inr (slots, m')"
      and f: "rfold (reference_step ops model sv sa plan slots b (anchor_rows kf) (anchor_rows ar)) [0..<length sv - 1] (?v, ?a, m') =
        Inr (v, a, m'')" "video = anchor_rows kf @ v" "audio = anchor_rows ar @ a"
      using result by (auto simp: reference_loop_def rbind_Inr_iff)
    then show ?thesis using S[of slots m'] by auto
  qed
qed

section \<open>The timestep plan\<close>

text \<open>Every row of every step reads its own timestep through the plan; the caches are invisible. The rows of the packed
  layout by kind: visual conditions, reference audio, target audio, and all others.\<close>

definition packed_timestep :: "packed \<Rightarrow> pyfloat \<Rightarrow> pyfloat \<Rightarrow> pyfloat \<Rightarrow> pyfloat \<Rightarrow> nat \<Rightarrow> pyfloat" where
  "packed_timestep p t_video t_audio img_aug audio_aug i =
     (if i \<in> set (masked (pk_img_pos p) (map Not (pk_update_mask p))) then py_fmax t_video img_aug
      else if i \<in> set (masked (pk_audio_pos p) (map Not (effective_audio_mask p))) then py_fmax t_audio audio_aug
      else if i \<in> set (pk_audio_pos p) then t_audio else t_video)"

lemma packed_timestep_eq:
  assumes "denoise_branch_init ops p te tags vq sp = Inr b" and "branch_wf b"
  shows "row_timestep b tv ta (py_fmax tv img_aug) (py_fmax ta audio_aug) i = packed_timestep p tv ta img_aug audio_aug i"
proof -
  note B = branch_init_fields[OF assms(1)]
  have "pk_audio_pos p = br_audio_ref_seq_idx b @ br_audio_target_seq_idx b" "distinct (pk_audio_pos p)"
    using assms(2) B(3) by (auto simp: branch_wf_def)
  then show ?thesis unfolding row_timestep_def packed_timestep_def B(6,9)[symmetric] by auto
qed

definition plan_entry_ok ::
  "('f::linorder) fp32_ops \<Rightarrow> packed \<Rightarrow> 'f branch \<Rightarrow> pyfloat \<Rightarrow> pyfloat \<Rightarrow> pyfloat \<times> pyfloat \<Rightarrow> 'f list \<times> nat list \<times> int list \<Rightarrow> bool" where
  "plan_entry_ok ops p b img_aug audio_aug t e \<longleftrightarrow> (case (t, e) of ((tv, ta), (unique, invs, combined)) \<Rightarrow>
     length invs = pk_seq_len p \<and>
     (\<forall>i < pk_seq_len p. unique ! (invs ! i) = f_of ops (packed_timestep p tv ta img_aug audio_aug i)) \<and>
     combined = map2 (\<lambda>tag i. tag + MINIMAX_H3_ADALN_MODALITY_NUM * int i) (br_block_token_tags b)
       (take (br_local_row_stop b - br_local_row_start b) (drop (br_local_row_start b) invs)))"

lemma pattern_inverse_length [simp]: "length (pattern_inverse b pat) = br_seq_len b"
proof -
  have "length (fill_inverse pat gs x) = length x" for gs x
    unfolding fill_inverse_def by (induction gs arbitrary: x) auto
  then show ?thesis by (simp add: pattern_inverse_def)
qed

lemma timestep_plan_ok:
  assumes init: "denoise_branch_init ops p te tags vq sp = Inr b" and wf: "branch_wf b" and "caches_ok b c"
  shows "list_all2 (plan_entry_ok ops p b img_aug audio_aug) ts (timestep_plan ops b img_aug audio_aug ts c)"
  using assms(3)
proof (induction ts arbitrary: c)
  case (Cons t ts)
  obtain tv ta where t: "t = (tv, ta)" by (cases t)
  obtain u pat c' where e:
    "unique_sorted (map (f_of ops) ((if 0 < br_n_video_timestep_rows b then [tv] else []) @
        map snd (timestep_groups b ta (py_fmax tv img_aug) (py_fmax ta audio_aug)))) = (u, pat)"
    "expand_step_timesteps ops b tv ta (py_fmax tv img_aug) (py_fmax ta audio_aug) c =
       ((u, pattern_inverse b pat, pattern_combined b pat), c')" "caches_ok b c'"
    by (rule expand_step_timesteps_eq[OF Cons.prems])
  have "plan_entry_ok ops p b img_aug audio_aug t (u, pattern_inverse b pat, pattern_combined b pat)"
    using pattern_inverse_timestep[OF branch_wf_timesteps[OF wf] _ e(1)] branch_init_fields(1)[OF init]
    by (simp add: plan_entry_ok_def t pattern_combined_def packed_timestep_eq[OF init wf])
  then show ?case using Cons.IH[OF e(3)] by (simp add: t e(2))
qed simp

section \<open>What a layout promises\<close>

locale packed_layout =
  fixes layout :: "'a \<Rightarrow> packed res"
  assumes layout_contract:
    "layout a = Inr p \<Longrightarrow> \<exists>used cond target refs audio. layout_ok p used cond target refs audio"
begin

lemma branch_of_layout:
  assumes "layout a = Inr p" and "denoise_branch_init ops p te tags vq sp = Inr b"
  shows "branch_wf b" and "\<not> br_x_buffer_primed b"
  using layout_contract[OF assms(1)] branch_init_wf(1)[OF assms(2)] branch_init_fields(15)[OF assms(2)] by blast+

lemma plan_of_layout:
  assumes "layout a = Inr p" and "denoise_branch_init ops p te tags vq sp = Inr b"
    and "prepare_timestep_plan ops b vt at0 img_aug audio_aug = Inr plan"
  shows "list_all2 (plan_entry_ok ops p b img_aug audio_aug) (zip vt at0) plan"
proof -
  have "caches_ok b ([], [])" by (simp add: caches_ok_def)
  moreover have "plan = timestep_plan ops b img_aug audio_aug (zip vt at0) ([], [])"
    using assms(3) by (simp add: prepare_timestep_plan_def res_simps)
  ultimately show ?thesis
    using timestep_plan_ok[OF assms(2) branch_of_layout(1)[OF assms(1,2)]] by simp
qed

lemma loop_of_layout:
  assumes "layout a = Inr p" and "denoise_branch_init ops p te tags vq sp = Inr b"
    and "length sv = length sa" "2 \<le> length sv"
    and "length (anchor_rows kf) = br_video_target_start b" "length (anchor_rows ar) = br_audio_target_start b"
    and "length iv = length (br_img_pos b)" "length ia = length (br_audio_pos b)"
    and "shaped_model model (br_audio_target_start b) (drop (br_video_target_start b) iv)
               (drop (br_audio_target_start b) ia)"
  shows "\<exists>plan. prepare_timestep_plan ops b (map (fsub (Fin 1)) (butlast sv)) (map (fsub (Fin 1)) (butlast sa)) img_aug audio_aug =
       Inr plan \<and>
     rbind (minimax_h3_denoise_loop ops model m b iv ia kf ar sv sa img_aug audio_aug) (\<lambda>st. Inr (loop_result st)) =
       reference_loop ops model m b (anchor_rows kf) (anchor_rows ar) sv sa plan
         (drop (br_video_target_start b) iv, drop (br_audio_target_start b) ia)"
proof -
  let ?plan = "timestep_plan ops b img_aug audio_aug
        (zip (map (fsub (Fin 1)) (butlast sv)) (map (fsub (Fin 1)) (butlast sa))) ([], [])"
  have "prepare_timestep_plan ops b (map (fsub (Fin 1)) (butlast sv)) (map (fsub (Fin 1)) (butlast sa))
      img_aug audio_aug = Inr ?plan" using assms(3) by (simp add: prepare_timestep_plan_def res_simps)
  then show ?thesis
    using denoise_loop_refines(1)[OF branch_of_layout[OF assms(1,2)] assms(3-9) refl] by blast
qed

end

interpretation h3_plain: packed_layout
  "\<lambda>(nk, text_len, latent_t, latent_h, latent_w, audio_t, audio_channel, include, kfi, frame_count, vp).
     minimax_h3_packed_sequence nk text_len latent_t latent_h latent_w audio_t audio_channel include kfi frame_count vp"
  by unfold_locales (clarsimp, blast elim: packed_sequence_ok)

interpretation h3_ref2va: packed_layout
  "\<lambda>(nk, text_len, latent_t, latent_h, latent_w, audio_t, ref_blocks, kfi, frame_count, audio_channel, seq_len, vp).
     minimax_h3_packed_sequence_ref2va_blocks nk text_len latent_t latent_h latent_w audio_t ref_blocks kfi frame_count
       audio_channel seq_len vp"
  by unfold_locales (clarsimp, blast elim: ref2va_ok)

end
