(* ===== verification/Condition_Noise.thy ===== *)
theory Condition_Noise
  imports Packed_Tokens Euler_Scheduler
begin

text \<open>
  \<^verbatim>\<open>minimax_h3/condition_noise.py\<close> and the sigma schedule of \<^verbatim>\<open>minimax_h3/time_request.py\<close>. fp32 elements
  are those of \<open>fp32_ops\<close>; PyTorch's generator is the parameter \<open>randn\<close>: the first draw of the
  given shape from a fresh CPU generator with the given seed, in row-major order.
\<close>

section \<open>The sigma schedule\<close>

text \<open>\<^verbatim>\<open>torch.unique_consecutive\<close>; \<open>linspace n\<close> is \<^verbatim>\<open>torch.linspace(1.0, 0.0, n)\<close>.\<close>

definition minimax_h3_time_shift_sigmas ::
  "'f fp32_ops \<Rightarrow> (int \<Rightarrow> 'f list) \<Rightarrow> int \<Rightarrow> pyfloat \<Rightarrow> 'f list res" where
  "minimax_h3_time_shift_sigmas ops linspace num_steps shift_scale =
     raise_if (fle shift_scale (Fin 0)) (ValueError ''MiniMax H3 shift_scale must be > 0'')
     (raise_if (num_steps \<le> 0) (ValueError ''MiniMax H3 num_steps must be > 0'')
     (let base = linspace num_steps;
          shifted = map (\<lambda>b. f_div ops (f_mul ops (f_of ops shift_scale) b)
            (f_add ops (f_of ops (Fin 1)) (f_mul ops (f_of ops (fsub shift_scale (Fin 1))) b))) base;
          shifted = remdups_adj shifted
      in if 1 < num_steps then
           raise_if (shifted = []) IndexError
           (if f_less ops (f_of ops (Fin 0)) (last shifted) then Inr (shifted @ [f_of ops (Fin 0)])
            else Inr shifted)
         else Inr shifted))"

section \<open>Noise augmentation\<close>

text \<open>\<^verbatim>\<open>Generator.manual_seed\<close> accepts the signed and unsigned 64-bit range.\<close>

definition seed_ok :: "int \<Rightarrow> bool" where
  "seed_ok seed = (- (2 ^ 63) \<le> seed \<and> seed < 2 ^ 64)"

definition manual_seed :: "int \<Rightarrow> int res" where
  "manual_seed seed = raise_if (\<not> seed_ok seed) (RuntimeError ''Overflow when unpacking long'') (Inr seed)"

text \<open>\<^verbatim>\<open>timestep * clean + (1.0 - timestep) * noise\<close>.\<close>

definition noise_mix :: "'f fp32_ops \<Rightarrow> pyfloat \<Rightarrow> 'f \<Rightarrow> 'f \<Rightarrow> 'f" where
  "noise_mix ops noise_aug clean noise =
     f_add ops (f_mul ops (f_of ops noise_aug) clean)
       (f_mul ops (f_sub ops (f_of ops (Fin 1)) (f_of ops noise_aug)) noise)"

definition noise_aug_ok :: "pyfloat \<Rightarrow> bool" where
  "noise_aug_ok a = (fle (Fin 0) a \<and> fle a (Fin 1))"

text \<open>\<^verbatim>\<open>int(value)\<close> has been applied to the entries of a shape.\<close>

definition parse_condition_shape :: "int list \<Rightarrow> (nat \<times> nat \<times> nat) res" where
  "parse_condition_shape raw = (case raw of
      [t, h, w] \<Rightarrow>
        raise_if (t \<le> 0 \<or> h \<le> 0 \<or> w \<le> 0) (ValueError ''imgvid condition shape must be positive'')
        (raise_if (h mod 2 \<noteq> 0 \<or> w mod 2 \<noteq> 0)
          (ValueError ''imgvid condition spatial dimensions must be divisible by 2'')
          (Inr (nat t, nat h, nat w)))
    | _ \<Rightarrow> Inl (ValueError ''each imgvid condition shape must be (latent_t, latent_h, latent_w)''))"

definition condition_rows :: "nat \<times> nat \<times> nat \<Rightarrow> nat" where
  "condition_rows s = (case s of (t, h, w) \<Rightarrow> t * (h div 2) * (w div 2))"

text \<open>\<^verbatim>\<open>x[:, :, :t]\<close> of a tensor of shape \<^verbatim>\<open>[1, c, full_t, h, w]\<close>.\<close>

definition take_frames :: "nat \<Rightarrow> nat \<Rightarrow> nat \<Rightarrow> nat \<Rightarrow> nat \<Rightarrow> 'f list \<Rightarrow> 'f tensor" where
  "take_frames c full_t t h w data = \<lparr>t_shape = [1, c, t, h, w],
     t_data = concat (map (\<lambda>i. take (t * (h * w)) (drop (i * (full_t * (h * w))) data)) [0..<c])\<rparr>"

text \<open>One visual condition: the rows of its clean part, given as flat fp32 data, with its noise.\<close>

definition imgvid_condition_step ::
  "'f fp32_ops \<Rightarrow> (int \<Rightarrow> nat list \<Rightarrow> 'f list) \<Rightarrow> nat \<Rightarrow> int \<Rightarrow> pyfloat \<Rightarrow> 'f list \<Rightarrow> nat \<times> nat \<times> nat
   \<Rightarrow> 'f list \<times> nat \<Rightarrow> ('f list \<times> nat) res" where
  "imgvid_condition_step ops randn full_t seed noise_aug clean shape st =
     (case (shape, st) of ((t, h, w), (out, row_offset)) \<Rightarrow>
       raise_if (full_t < t) (ValueError ''condition latent_t exceeds the noise draw length'')
       (rbind (manual_seed seed) (\<lambda>s.
        rbind (minimax_h3_patchify_video_latent
                 (take_frames 24 full_t t h w (randn s [1, 24, full_t, h, w])) [1, 2, 2]) (\<lambda>noise_rows.
        let row_count = hd (t_shape noise_rows);
            clean_part = take (row_count * 96) (drop (row_offset * 96) clean)
        in Inr (out @ map2 (noise_mix ops noise_aug) clean_part (t_data noise_rows), row_offset + row_count)))))"

definition minimax_h3_imgvid_cond_noise_aug_rows ::
  "'f fp32_ops \<Rightarrow> (int \<Rightarrow> nat list \<Rightarrow> 'f list) \<Rightarrow> 'f tensor \<Rightarrow> int list list \<Rightarrow> int \<Rightarrow> int \<Rightarrow> int \<Rightarrow> pyfloat
   \<Rightarrow> 'f tensor res" where
  "minimax_h3_imgvid_cond_noise_aug_rows ops randn clean_rows condition_shapes target_latent_t
      imgvid_cond_num_frames seed noise_aug =
     raise_if (\<not> noise_aug_ok noise_aug) (ValueError ''noise_aug must be in [0, 1]'')
     (if feq noise_aug (Fin 1) then Inr clean_rows
      else case t_shape clean_rows of
        [n, width] \<Rightarrow>
          raise_if (width \<noteq> 96) (ValueError ''clean imgvid condition rows must have shape [n, 96]'')
          (raise_if (target_latent_t \<le> 0) (ValueError ''target_latent_t must be positive'')
          (raise_if (imgvid_cond_num_frames \<le> 0)
             (ValueError ''imgvid_cond_num_frames must be positive when condition rows exist'')
          (rbind (rmap parse_condition_shape condition_shapes) (\<lambda>parsed_shapes.
           raise_if (parsed_shapes = []) (ValueError ''condition_shapes must not be empty'')
           (raise_if (n \<noteq> sum_list (map condition_rows parsed_shapes))
             (ValueError ''clean imgvid condition rows != shape-derived rows'')
           (rbind (rfold (imgvid_condition_step ops randn (nat (target_latent_t + imgvid_cond_num_frames)) seed
                     noise_aug (t_data clean_rows)) parsed_shapes ([], 0)) (\<lambda>(out, rows).
            Inr \<lparr>t_shape = [rows, 96], t_data = out\<rparr>)))))))
      | _ \<Rightarrow> Inl (ValueError ''clean imgvid condition rows must have shape [n, 96]''))"

definition MINIMAX_H3_AUDIO_COND_CHANNELS :: nat where
  "MINIMAX_H3_AUDIO_COND_CHANNELS = 2"

definition audio_condition_step ::
  "'f fp32_ops \<Rightarrow> (int \<Rightarrow> nat list \<Rightarrow> 'f list) \<Rightarrow> int \<Rightarrow> pyfloat \<Rightarrow> 'f list \<Rightarrow> int
   \<Rightarrow> 'f list \<times> nat \<Rightarrow> ('f list \<times> nat) res" where
  "audio_condition_step ops randn seed noise_aug clean audio_t st = (case st of (out, row_offset) \<Rightarrow>
     let row_count = MINIMAX_H3_AUDIO_COND_CHANNELS * nat audio_t;
         clean_part = take (row_count * 32) (drop (row_offset * 32) clean) in
     rbind (manual_seed (seed + 1)) (\<lambda>s.
     Inr (out @ map2 (noise_mix ops noise_aug) clean_part (randn s [row_count, 32]), row_offset + row_count)))"

definition minimax_h3_audio_cond_noise_aug_rows ::
  "'f fp32_ops \<Rightarrow> (int \<Rightarrow> nat list \<Rightarrow> 'f list) \<Rightarrow> 'f tensor \<Rightarrow> int list \<Rightarrow> int \<Rightarrow> pyfloat \<Rightarrow> 'f tensor res" where
  "minimax_h3_audio_cond_noise_aug_rows ops randn clean_rows condition_audio_t seed noise_aug =
     raise_if (\<not> noise_aug_ok noise_aug) (ValueError ''noise_aug must be in [0, 1]'')
     (if feq noise_aug (Fin 1) then Inr clean_rows
      else case t_shape clean_rows of
        [n, width] \<Rightarrow>
          raise_if (width \<noteq> 32) (ValueError ''clean audio condition rows must have shape [n, 32]'')
          (raise_if (condition_audio_t = []) (ValueError ''condition_audio_t must not be empty'')
          (raise_if (\<exists>v \<in> set condition_audio_t. v \<le> 0)
            (ValueError ''condition audio latent lengths must be positive'')
          (raise_if (int n \<noteq> int MINIMAX_H3_AUDIO_COND_CHANNELS * sum_list condition_audio_t)
            (ValueError ''clean audio condition rows != shape-derived rows'')
          (rbind (rfold (audio_condition_step ops randn seed noise_aug (t_data clean_rows)) condition_audio_t ([], 0))
             (\<lambda>(out, rows). Inr \<lparr>t_shape = [rows, 32], t_data = out\<rparr>)))))
      | _ \<Rightarrow> Inl (ValueError ''clean audio condition rows must have shape [n, 32]''))"

section \<open>The schedule\<close>

text \<open>A multi-step schedule is not empty, has no two equal neighbours, and ends at a sigma that is not
  positive.\<close>

lemma time_shift_sigmas_schedule:
  assumes "minimax_h3_time_shift_sigmas ops linspace n shift = Inr s" and "1 < n"
    and irr: "\<And>x. \<not> f_less ops x x"
  shows "s \<noteq> []" and "\<not> f_less ops (f_of ops (Fin 0)) (last s)" and "distinct_adj s"
proof -
  let ?r = "remdups_adj (map (\<lambda>b. f_div ops (f_mul ops (f_of ops shift) b)
            (f_add ops (f_of ops (Fin 1)) (f_mul ops (f_of ops (fsub shift (Fin 1))) b))) (linspace n))"
  have r: "?r \<noteq> []" "s = (if f_less ops (f_of ops (Fin 0)) (last ?r) then ?r @ [f_of ops (Fin 0)] else ?r)"
    using assms(1,2) by (auto simp: minimax_h3_time_shift_sigmas_def Let_def res_simps split: if_splits)
  show "s \<noteq> []" "\<not> f_less ops (f_of ops (Fin 0)) (last s)" using r irr by auto
  show "distinct_adj s" using r irr by (auto simp: distinct_adj_append_iff)
qed

section \<open>Segment-wise noise\<close>

text \<open>Both augmentations walk over the conditions, draw each one's noise from a fresh generator and mix it
  into the rows of that condition. What they share: the outcome is the clean data mixed pointwise with the
  concatenation of the conditions' noises.\<close>

locale segment_noise =
  fixes step :: "'seg \<Rightarrow> 'f list \<times> nat \<Rightarrow> ('f list \<times> nat) res"
    and rows :: "'seg \<Rightarrow> nat" and noise :: "'seg \<Rightarrow> 'f list" and ok :: "'seg \<Rightarrow> bool"
    and width :: nat and mix :: "'f \<Rightarrow> 'f \<Rightarrow> 'f" and clean :: "'f list"
  assumes step_ok: "ok s \<Longrightarrow> step s (out, off) =
      Inr (out @ map2 mix (take (rows s * width) (drop (off * width) clean)) (noise s), off + rows s)"
    and noise_ok: "ok s \<Longrightarrow> length (noise s) = rows s * width"
begin

lemma noise_total: "\<forall>s \<in> set ss. ok s \<Longrightarrow>
    length (concat (map noise ss)) = sum_list (map rows ss) * width"
  by (induction ss) (auto simp: noise_ok algebra_simps)

lemma segments_mix:
  assumes "\<forall>s \<in> set ss. ok s" and "length clean = (off + sum_list (map rows ss)) * width"
  shows "rfold step ss (out, off) =
     Inr (out @ map2 mix (drop (off * width) clean) (concat (map noise ss)), off + sum_list (map rows ss))"
  using assms
proof (induction ss arbitrary: out off)
  case (Cons s ss)
  let ?d = "drop (off * width) clean" and ?k = "rows s * width"
  have n: "length (noise s) = ?k" using Cons.prems noise_ok by simp
  have d: "length ?d = ?k + sum_list (map rows ss) * width" using Cons.prems by (simp add: algebra_simps)
  have "map2 mix ?d (noise s @ concat (map noise ss)) =
      map2 mix (take ?k ?d) (noise s) @ map2 mix (drop ?k ?d) (concat (map noise ss))"
  proof -
    have "zip (take ?k ?d @ drop ?k ?d) (noise s @ concat (map noise ss)) =
        zip (take ?k ?d) (noise s) @ zip (drop ?k ?d) (concat (map noise ss))"
      using n d by (intro zip_append) simp
    then show ?thesis by (metis append_take_drop_id map_append)
  qed
  moreover have "drop ?k ?d = drop ((off + rows s) * width) clean" by (simp add: algebra_simps)
  moreover have "length clean = (off + rows s + sum_list (map rows ss)) * width"
    using Cons.prems by (simp add: algebra_simps)
  ultimately show ?case using Cons.IH[of "off + rows s"] Cons.prems(1) by (simp add: step_ok algebra_simps)
qed simp

end

text \<open>Visual conditions.\<close>

definition imgvid_noise :: "(int \<Rightarrow> nat list \<Rightarrow> 'f list) \<Rightarrow> nat \<Rightarrow> int \<Rightarrow> nat \<times> nat \<times> nat \<Rightarrow> 'f list" where
  "imgvid_noise randn full_t seed s = (case s of (t, h, w) \<Rightarrow>
     (case minimax_h3_patchify_video_latent
        (take_frames 24 full_t t h w (randn seed [1, 24, full_t, h, w])) [1, 2, 2] of
        Inr r \<Rightarrow> t_data r | Inl _ \<Rightarrow> []))"

definition imgvid_segment_ok :: "(int \<Rightarrow> nat list \<Rightarrow> 'f list) \<Rightarrow> nat \<Rightarrow> int \<Rightarrow> nat \<times> nat \<times> nat \<Rightarrow> bool" where
  "imgvid_segment_ok randn full_t seed s = (case s of (t, h, w) \<Rightarrow> seed_ok seed \<and>
     length (randn seed [1, 24, full_t, h, w]) = numel [1, 24, full_t, h, w] \<and>
     t \<le> full_t \<and> even h \<and> even w)"

lemma take_frames_ok:
  assumes "length data = c * (full_t * (h * w))" and "t \<le> full_t"
  shows "tensor_ok (take_frames c full_t t h w data)"
proof -
  have t: "t * (h * w) \<le> full_t * (h * w)" using assms(2) by (rule mult_right_mono) simp
  have "t * (h * w) \<le> length (drop (i * (full_t * (h * w))) data)" if "i < c" for i
  proof -
    have "i * (full_t * (h * w)) + full_t * (h * w) = Suc i * (full_t * (h * w))" by simp
    also have "\<dots> \<le> c * (full_t * (h * w))" using that by (intro mult_right_mono) auto
    finally show ?thesis unfolding length_drop assms(1) using t by linarith
  qed
  then have "map (\<lambda>i. min (length data - i * (full_t * (h * w))) (t * (h * w))) [0..<c] = map (\<lambda>_. t * (h * w)) [0..<c]"
    by (auto intro!: map_cong)
  then show ?thesis
    by (simp add: take_frames_def tensor_ok_def length_concat comp_def sum_list_replicate map_replicate_const)
qed

lemma imgvid_patchify:
  assumes "imgvid_segment_ok randn full_t seed (t, h, w)"
  obtains r where "minimax_h3_patchify_video_latent
      (take_frames 24 full_t t h w (randn seed [1, 24, full_t, h, w])) [1, 2, 2] = Inr r"
    "t_shape r = [t * (h div 2) * (w div 2), 96]" "length (t_data r) = condition_rows (t, h, w) * 96"
    "imgvid_noise randn full_t seed (t, h, w) = t_data r"
proof -
  let ?l = "take_frames 24 full_t t h w (randn seed [1, 24, full_t, h, w])"
  have a: "length (randn seed [1, 24, full_t, h, w]) = 24 * (full_t * (h * w))" "t \<le> full_t"
    and ev: "h = h div 2 * 2" "w = w div 2 * 2"
    using assms by (simp_all add: imgvid_segment_ok_def)
  have "t_shape ?l = [1, 24, t * 1, h div 2 * 2, w div 2 * 2]" using ev by (simp add: take_frames_def)
  note e = patchify_eq[OF take_frames_ok[OF a] this]
  have l: "length (t_data ?l) = 24 * (t * (h * w))"
    using take_frames_ok[OF a] by (simp add: tensor_ok_def take_frames_def)
  have "24 * (t * (h * w)) = condition_rows (t, h, w) * 96"
    by (subst (1) ev(1), subst (1) ev(2)) (simp add: condition_rows_def algebra_simps)
  then have len: "length (t_data ?l) = condition_rows (t, h, w) * 96" using l by simp
  let ?r = "(permute patch_axes (?l\<lparr>t_shape := [1, 24, t, 1, h div 2, 2, w div 2, 2]\<rparr>))
      \<lparr>t_shape := [t * (h div 2) * (w div 2), 96]\<rparr>"
  have r: "minimax_h3_patchify_video_latent ?l [1, 2, 2] = Inr ?r" using e by simp
  show thesis by (rule that[OF r]) (use r len in \<open>simp_all add: imgvid_noise_def\<close>)
qed

interpretation imgvid: segment_noise
  "imgvid_condition_step ops randn full_t seed noise_aug clean" condition_rows "imgvid_noise randn full_t seed"
  "imgvid_segment_ok randn full_t seed" 96 "noise_mix ops noise_aug" clean
  for ops randn full_t seed noise_aug clean
proof
  fix s :: "nat \<times> nat \<times> nat" and out :: "'a list" and off
  assume ok: "imgvid_segment_ok randn full_t seed s"
  obtain t h w where s: "s = (t, h, w)" by (cases s)
  obtain r where r: "minimax_h3_patchify_video_latent
      (take_frames 24 full_t t h w (randn seed [1, 24, full_t, h, w])) [1, 2, 2] = Inr r"
    "t_shape r = [t * (h div 2) * (w div 2), 96]" "length (t_data r) = condition_rows (t, h, w) * 96"
    "imgvid_noise randn full_t seed (t, h, w) = t_data r"
    by (rule imgvid_patchify[OF ok[unfolded s]])
  show "imgvid_condition_step ops randn full_t seed noise_aug clean s (out, off) =
     Inr (out @ map2 (noise_mix ops noise_aug) (take (condition_rows s * 96) (drop (off * 96) clean))
       (imgvid_noise randn full_t seed s), off + condition_rows s)"
    using ok r(1,2,4) by (simp add: imgvid_condition_step_def s manual_seed_def imgvid_segment_ok_def condition_rows_def Let_def)
  show "length (imgvid_noise randn full_t seed s) = condition_rows s * 96" using r s by simp
qed

text \<open>Audio conditions.\<close>

interpretation audio: segment_noise
  "audio_condition_step ops randn seed noise_aug clean" "\<lambda>t. 2 * nat t" "\<lambda>t. randn (seed + 1) [2 * nat t, 32]"
  "\<lambda>t. seed_ok (seed + 1) \<and> length (randn (seed + 1) [2 * nat t, 32]) = 2 * nat t * 32"
  32 "noise_mix ops noise_aug" clean
  for ops randn seed noise_aug clean
  by unfold_locales (auto simp: audio_condition_step_def manual_seed_def MINIMAX_H3_AUDIO_COND_CHANNELS_def Let_def)

end
