(* ===== verification/State_Result.thy ===== *)
theory State_Result
  imports H3_Prelude
begin

text \<open>
  Computations that change a state and may raise. An exception does not undo the changes made before it, so the
  state after the computation is returned in both cases. The second part is the contract of a request-scoped
  cache: an operation that answers from a table when it can and stores what it computes.
\<close>

section \<open>Stateful computations that may raise\<close>

type_synonym ('s, 'a) act = "'s \<Rightarrow> 'a res \<times> 's"

named_theorems act_simps \<open>equations for stateful computations\<close>

definition areturn :: "'a \<Rightarrow> ('s, 'a) act" where
  "areturn x s = (Inr x, s)"

definition araise :: "py_error \<Rightarrow> ('s, 'a) act" where
  "araise e s = (Inl e, s)"

definition alift :: "'a res \<Rightarrow> ('s, 'a) act" where
  "alift r s = (r, s)"

definition aupdate :: "('s \<Rightarrow> 's) \<Rightarrow> ('s, unit) act" where
  "aupdate f s = (Inr (), f s)"

definition abind :: "('s, 'a) act \<Rightarrow> ('a \<Rightarrow> ('s, 'b) act) \<Rightarrow> ('s, 'b) act" where
  "abind m f s = (case m s of (Inl e, s') \<Rightarrow> (Inl e, s') | (Inr x, s') \<Rightarrow> f x s')"

definition araise_if :: "bool \<Rightarrow> py_error \<Rightarrow> ('s, 'a) act \<Rightarrow> ('s, 'a) act" where
  "araise_if c e m = (if c then araise e else m)"

text \<open>\<^verbatim>\<open>try: m; except Exception: h; raise\<close>.\<close>

definition on_error :: "('s, 'a) act \<Rightarrow> ('s \<Rightarrow> 's) \<Rightarrow> ('s, 'a) act" where
  "on_error m h s = (case m s of (Inl e, s') \<Rightarrow> (Inl e, h s') | (Inr x, s') \<Rightarrow> (Inr x, s'))"

text \<open>A \<^verbatim>\<open>for\<close> loop that collects results.\<close>

fun amap :: "('a \<Rightarrow> ('s, 'b) act) \<Rightarrow> 'a list \<Rightarrow> ('s, 'b list) act" where
  "amap f [] = areturn []"
| "amap f (x # xs) = abind (f x) (\<lambda>y. abind (amap f xs) (\<lambda>ys. areturn (y # ys)))"

lemma areturn_iff [act_simps]: "areturn x s = (Inr y, t) \<longleftrightarrow> y = x \<and> t = s" "areturn x s = (Inl e, t) \<longleftrightarrow> False"
  by (auto simp: areturn_def)

lemma araise_iff [act_simps]: "araise e s = (Inr y, t) \<longleftrightarrow> False" "araise e s = (Inl e', t) \<longleftrightarrow> e' = e \<and> t = s"
  by (auto simp: araise_def)

lemma alift_iff [act_simps]: "alift r s = (r', t) \<longleftrightarrow> r' = r \<and> t = s"
  by (auto simp: alift_def)

lemma aupdate_iff [act_simps]: "aupdate f s = (Inr u, t) \<longleftrightarrow> t = f s" "aupdate f s = (Inl e, t) \<longleftrightarrow> False"
  by (auto simp: aupdate_def)

lemma abind_Inr_iff [act_simps]:
  "abind m f s = (Inr y, t) \<longleftrightarrow> (\<exists>x s'. m s = (Inr x, s') \<and> f x s' = (Inr y, t))"
  by (auto simp: abind_def split: prod.splits sum.splits)

lemma abind_Inl_iff [act_simps]:
  "abind m f s = (Inl e, t) \<longleftrightarrow> m s = (Inl e, t) \<or> (\<exists>x s'. m s = (Inr x, s') \<and> f x s' = (Inl e, t))"
  by (auto simp: abind_def split: prod.splits sum.splits)

lemma araise_if_iff [act_simps]:
  "araise_if c e m s = (Inr y, t) \<longleftrightarrow> \<not> c \<and> m s = (Inr y, t)"
  "araise_if c e m s = (Inl e', t) \<longleftrightarrow> (c \<and> e' = e \<and> t = s) \<or> (\<not> c \<and> m s = (Inl e', t))"
  by (auto simp: araise_if_def act_simps)

lemma on_error_iff [act_simps]:
  "on_error m h s = (Inr y, t) \<longleftrightarrow> m s = (Inr y, t)"
  "on_error m h s = (Inl e, t) \<longleftrightarrow> (\<exists>s'. m s = (Inl e, s') \<and> t = h s')"
  by (auto simp: on_error_def split: prod.splits sum.splits)

lemma abind_simps [simp]:
  "m s = (Inr x, s') \<Longrightarrow> abind m f s = f x s'" "m s = (Inl e, s') \<Longrightarrow> abind m f s = (Inl e, s')"
  by (simp_all add: abind_def)

lemma areturn_simp [simp]: "areturn x s = (Inr x, s)" and araise_simp [simp]: "araise e s = (Inl e, s)"
  and alift_simp [simp]: "alift r s = (r, s)" and aupdate_simp [simp]: "aupdate f s = (Inr (), f s)"
  by (simp_all add: areturn_def araise_def alift_def aupdate_def)

lemma abind_alift [simp]: "abind (alift (Inr x)) f = f x" "abind (alift (Inl e)) f = araise e"
  by (simp_all add: fun_eq_iff)

lemma araise_if_simps [simp]: "araise_if True e m = araise e" "araise_if False e m = m"
  by (simp_all add: araise_if_def)

text \<open>An invariant of the state that every step of a loop keeps, whether it raises or not.\<close>

lemma abind_keeps:
  assumes "P s" and "\<And>r s'. m s = (r, s') \<Longrightarrow> P s'" and "\<And>x s' r t. m s = (Inr x, s') \<Longrightarrow> P s' \<Longrightarrow> f x s' = (r, t) \<Longrightarrow> P t"
    and "abind m f s = (r, t)"
  shows "P t"
  using assms(2-4) by (auto simp: abind_def split: prod.splits sum.splits)

lemma amap_keeps:
  assumes "\<And>x s r t. x \<in> set xs \<Longrightarrow> P s \<Longrightarrow> f x s = (r, t) \<Longrightarrow> P t" and "P s" and "amap f xs s = (r, t)"
  shows "P t"
  using assms
proof (induction xs arbitrary: s r t)
  case (Cons x xs)
  obtain q u where q: "f x s = (q, u)" by (cases "f x s")
  have u: "P u" using Cons.prems(1)[OF _ Cons.prems(2) q] by simp
  show ?case
  proof (cases q)
    case (Inl e)
    then show ?thesis using Cons.prems(3) q u by (simp add: abind_def)
  next
    case (Inr y)
    obtain q' u' where q': "amap f xs u = (q', u')" by (cases "amap f xs u")
    have "P u'" by (rule Cons.IH[OF Cons.prems(1) u q']) simp_all
    moreover have "t = u'" using Cons.prems(3) q q' Inr by (cases q') (auto simp: abind_def)
    ultimately show ?thesis by simp
  qed
qed (simp add: areturn_def)

text \<open>Where a loop raises, and how its result extends.\<close>

lemma amap_Inl:
  "amap f xs s = (Inl e, t) \<Longrightarrow> \<exists>x s'. x \<in> set xs \<and> f x s' = (Inl e, t)"
  by (induction xs arbitrary: s) (fastforce simp: act_simps simp del: areturn_simp abind_simps)+

lemma amap_Cons_Inr:
  assumes "f x s = (Inr y, s1)" and "amap f xs s1 = (q, s2)" and "amap f (x # xs) s = (r, t)"
  shows "t = s2 \<and> ((\<exists>u. r = Inr u) \<longleftrightarrow> (\<exists>u. q = Inr u))"
  using assms by (cases q) (auto simp: abind_def)

text \<open>The same as a predicate of the computation, with one rule for each way to build one.\<close>

named_theorems keeps_intros \<open>computations that keep an invariant\<close>

definition keeps_at :: "('s \<Rightarrow> bool) \<Rightarrow> ('s, 'a) act \<Rightarrow> 's \<Rightarrow> bool" where
  "keeps_at P m s \<longleftrightarrow> (P s \<longrightarrow> P (snd (m s)))"

lemma keeps_atD: "keeps_at P m s \<Longrightarrow> P s \<Longrightarrow> m s = (r, t) \<Longrightarrow> P t"
  by (simp add: keeps_at_def)

lemma keeps_basic [keeps_intros]: "keeps_at P (areturn x) s" "keeps_at P (araise e) s" "keeps_at P (alift r) s"
  by (simp_all add: keeps_at_def)

lemma keeps_aupdate [keeps_intros]: "(P s \<Longrightarrow> P (f s)) \<Longrightarrow> keeps_at P (aupdate f) s"
  by (simp add: keeps_at_def)

lemma keeps_araise_if [keeps_intros]: "(\<not> c \<Longrightarrow> keeps_at P m s) \<Longrightarrow> keeps_at P (araise_if c e m) s"
  by (simp add: keeps_at_def araise_if_def)

lemma keeps_abind [keeps_intros]:
  "keeps_at P m s \<Longrightarrow> (\<And>x s'. keeps_at P (f x) s') \<Longrightarrow> keeps_at P (abind m f) s"
  by (auto simp: keeps_at_def abind_def split: prod.splits sum.splits)

lemma keeps_on_error [keeps_intros]:
  "keeps_at P m s \<Longrightarrow> (\<And>s'. P s' \<Longrightarrow> P (h s')) \<Longrightarrow> keeps_at P (on_error m h) s"
  by (auto simp: keeps_at_def on_error_def split: prod.splits sum.splits)

lemma keeps_amap [keeps_intros]: "(\<And>x s'. keeps_at P (f x) s') \<Longrightarrow> keeps_at P (amap f xs) s"
  by (induction xs arbitrary: s) (auto intro!: keeps_intros)

section \<open>The contract of a cache\<close>

locale memoised =
  fixes lookup :: "'s \<Rightarrow> 'k \<Rightarrow> 'v option" and run :: "'k \<Rightarrow> ('s, 'v) act"
  assumes hit: "lookup s k = Some v \<Longrightarrow> run k s = (Inr v, s)"
    and store: "run k s = (Inr v, t) \<Longrightarrow> lookup t k = Some v"
begin

lemma run_again: "run k s = (Inr v, t) \<Longrightarrow> run k t = (Inr v, t)"
  by (rule hit[OF store])

lemma run_stable: "run k s = (Inr v, t) \<Longrightarrow> run k t = (Inr w, u) \<Longrightarrow> w = v \<and> u = t"
  using run_again by fastforce

end

end
