(* ===== verification/Material_Decode.thy ===== *)
theory Material_Decode
  imports Py_Value
begin

text \<open>
  The pure part of \<^verbatim>\<open>minimax_h3/material_io.py\<close> that turns a base64 or tar-member URI into bytes: the URI
  header, the percent-decoding generator, and the chunked base64 decoder. A string is a list of
  characters up to U+00FF; bytes are numbers below 256. \<^verbatim>\<open>base64.b64decode(..., altchars=b"-_",
  validate=True)\<close> is the strict standard-library decoder, which accepts both alphabets.
\<close>

section \<open>URI headers\<close>

definition MINIMAX_H3_BASE64_DECODE_CHUNK_CHARS :: nat where
  "MINIMAX_H3_BASE64_DECODE_CHUNK_CHARS = 1024 * 1024"

definition MINIMAX_H3_BASE64_HEADER_MAX_CHARS :: nat where
  "MINIMAX_H3_BASE64_HEADER_MAX_CHARS = 4 * 1024"

definition starts_with :: "string \<Rightarrow> string \<Rightarrow> bool" where
  "starts_with s p = (take (length p) s = p)"

text \<open>\<^verbatim>\<open>s.find(c)\<close> for a character, and \<^verbatim>\<open>p in s\<close> for a string.\<close>

definition find_char :: "char \<Rightarrow> string \<Rightarrow> nat option" where
  "find_char c s = (if c \<in> set s then Some (length (takeWhile (\<lambda>x. x \<noteq> c) s)) else None)"

fun contains :: "string \<Rightarrow> string \<Rightarrow> bool" where
  "contains p [] = (p = [])"
| "contains p (c # s) = (starts_with (c # s) p \<or> contains p s)"

text \<open>\<^verbatim>\<open>header.split(";", 1)[0].lower() or None\<close>.\<close>

definition media_type_of :: "string \<Rightarrow> string option" where
  "media_type_of header = (let m = lower (takeWhile (\<lambda>x. x \<noteq> CHR '';'') header) in if m = [] then None else Some m)"

text \<open>The payload is returned as the rest of the URI from \<^verbatim>\<open>payload_start\<close> on.\<close>

definition base64_uri_payload_start :: "string \<Rightarrow> (string \<times> string option) res" where
  "base64_uri_payload_start uri =
     (if starts_with uri ''data:'' then
        (case find_char (CHR '','') uri of
           None \<Rightarrow> Inl (ValueError ''data URI must contain a comma separator'')
         | Some separator \<Rightarrow>
             raise_if (MINIMAX_H3_BASE64_HEADER_MAX_CHARS < separator) (ValueError ''data URI header is too large'')
             (let header = take separator uri in
              raise_if (\<not> contains '';base64'' header) (ValueError ''data URI must use ;base64 encoding'')
                (Inr (drop (separator + 1) uri, media_type_of (drop 5 header)))))
      else if starts_with uri ''base64://'' then
        (let rest = drop (length ''base64://'') uri in
         case find_char (CHR '','') rest of
           None \<Rightarrow> Inr (rest, None)
         | Some n \<Rightarrow>
             raise_if (MINIMAX_H3_BASE64_HEADER_MAX_CHARS < n) (ValueError ''base64 URI header is too large'')
               (Inr (drop (n + 1) rest, media_type_of (take n rest))))
      else Inl (ValueError ''not a base64 material URI''))"

section \<open>The payload generator\<close>

text \<open>\<^verbatim>\<open>str.isspace\<close> on the modelled characters.\<close>

definition is_space_char :: "char \<Rightarrow> bool" where
  "is_space_char c = (is_space c \<or> of_char c \<in> ({133, 160} :: nat set))"

definition hex_val :: "char \<Rightarrow> int option" where
  "hex_val c = (let n = of_char c :: int in
     if 48 \<le> n \<and> n \<le> 57 then Some (n - 48)
     else if 97 \<le> n \<and> n \<le> 102 then Some (n - 87)
     else if 65 \<le> n \<and> n \<le> 70 then Some (n - 55) else None)"

text \<open>\<^verbatim>\<open>int(s, 16)\<close> of a two-character string: white space around the digits and a sign are accepted.\<close>

definition parse_hex2 :: "char \<Rightarrow> char \<Rightarrow> int option" where
  "parse_hex2 a b = (case (hex_val a, hex_val b) of
      (Some x, Some y) \<Rightarrow> Some (16 * x + y)
    | (None, Some y) \<Rightarrow> if a = CHR ''+'' \<or> is_space_char a then Some y
                      else if a = CHR ''-'' then Some (- y) else None
    | (Some x, None) \<Rightarrow> if is_space_char b then Some x else None
    | (None, None) \<Rightarrow> None)"

definition BASE64_ALPHABET :: "nat list" where
  "BASE64_ALPHABET = map of_char ''ABCDEFGHIJKLMNOPQRSTUVWXYZabcdefghijklmnopqrstuvwxyz0123456789+/=_-''"

text \<open>A generator is the list of values it yields and the exception that ends it, if any.\<close>

definition gen_emit :: "char \<Rightarrow> nat list \<times> py_error option \<Rightarrow> nat list \<times> py_error option" where
  "gen_emit character rest =
     (if is_space_char character then rest
      else if 127 < (of_char character :: nat) then ([], Some (ValueError ''material URI base64 payload must be ASCII''))
      else if of_char character \<notin> set BASE64_ALPHABET
        then ([], Some (ValueError ''material URI has an invalid base64 character''))
      else (of_char character # fst rest, snd rest))"

fun iter_base64_payload_bytes :: "string \<Rightarrow> nat list \<times> py_error option" where
  "iter_base64_payload_bytes [] = ([], None)"
| "iter_base64_payload_bytes (c # cs) =
     (if c = CHR ''%'' then
        (case cs of
           a # b # rest \<Rightarrow>
             (case parse_hex2 a b of
                None \<Rightarrow> ([], Some (ValueError ''material URI has an invalid percent escape''))
              | Some v \<Rightarrow> if v < 0 then ([], Some (ValueError ''chr() arg not in range(0x110000)''))
                  else gen_emit (char_of (nat v)) (iter_base64_payload_bytes rest))
         | _ \<Rightarrow> ([], Some (ValueError ''material URI has an invalid percent escape'')))
      else gen_emit c (iter_base64_payload_bytes cs))"

section \<open>Base64\<close>

definition b64_val :: "nat \<Rightarrow> nat option" where
  "b64_val c =
     (if 65 \<le> c \<and> c \<le> 90 then Some (c - 65)
      else if 97 \<le> c \<and> c \<le> 122 then Some (c - 71)
      else if 48 \<le> c \<and> c \<le> 57 then Some (c + 4)
      else if c = 43 \<or> c = 45 then Some 62
      else if c = 47 \<or> c = 95 then Some 63 else None)"

text \<open>\<^verbatim>\<open>binascii.a2b_base64(strict_mode=True)\<close>: groups of four, padding only in the last.\<close>

fun a2b_base64 :: "nat list \<Rightarrow> nat list option" where
  "a2b_base64 [] = Some []"
| "a2b_base64 (a # b # c # d # rest) = (case (b64_val a, b64_val b) of
      (Some x, Some y) \<Rightarrow>
        if rest = [] \<and> c = 61 \<and> d = 61 then Some [x * 4 + y div 16]
        else (case b64_val c of
            None \<Rightarrow> None
          | Some z \<Rightarrow>
              if rest = [] \<and> d = 61 then Some [x * 4 + y div 16, (y mod 16) * 16 + z div 4]
              else (case b64_val d of
                  None \<Rightarrow> None
                | Some w \<Rightarrow> map_option (\<lambda>r. [x * 4 + y div 16, (y mod 16) * 16 + z div 4, (z mod 4) * 64 + w] @ r)
                    (a2b_base64 rest)))
    | _ \<Rightarrow> None)"
| "a2b_base64 _ = None"

definition decode_base64_chunk :: "nat list \<Rightarrow> nat list res" where
  "decode_base64_chunk encoded = (case a2b_base64 encoded of
      None \<Rightarrow> Inl (ValueError ''material URI has an invalid base64 payload'') | Some b \<Rightarrow> Inr b)"

record b64_stream =
  bs_total :: nat
  bs_encoded_size :: nat
  bs_padding :: nat
  bs_saw_padding :: bool
  bs_chunk :: "nat list"
  bs_output :: "nat list"

definition b64_stream_init :: b64_stream where
  "b64_stream_init = \<lparr>bs_total = 0, bs_encoded_size = 0, bs_padding = 0, bs_saw_padding = False,
     bs_chunk = [], bs_output = []\<rparr>"

definition b64_flush :: "nat list \<Rightarrow> b64_stream \<Rightarrow> b64_stream res" where
  "b64_flush encoded st = rbind (decode_base64_chunk encoded) (\<lambda>d.
     Inr (st\<lparr>bs_total := bs_total st + length d, bs_output := bs_output st @ d, bs_chunk := []\<rparr>))"

definition b64_step :: "nat \<Rightarrow> b64_stream \<Rightarrow> b64_stream res" where
  "b64_step v st0 =
     (let st = st0\<lparr>bs_encoded_size := bs_encoded_size st0 + 1\<rparr> in
      rbind (if v = 61 then
               let st = st\<lparr>bs_saw_padding := True, bs_padding := bs_padding st + 1\<rparr> in
               raise_if (2 < bs_padding st) (ValueError ''material URI has invalid base64 padding'') (Inr st)
             else raise_if (bs_saw_padding st) (ValueError ''material URI has data after base64 padding'') (Inr st))
      (\<lambda>st. let st = st\<lparr>bs_chunk := bs_chunk st @ [v]\<rparr> in
        if length (bs_chunk st) = MINIMAX_H3_BASE64_DECODE_CHUNK_CHARS then b64_flush (bs_chunk st) st else Inr st))"

text \<open>\<^verbatim>\<open>b"=" * (-len(chunk) % 4)\<close>.\<close>

definition pad4 :: "nat list \<Rightarrow> nat list" where
  "pad4 xs = xs @ replicate ((4 - length xs mod 4) mod 4) 61"

definition b64_finish :: "b64_stream \<Rightarrow> nat list res" where
  "b64_finish st =
     raise_if (bs_encoded_size st = 0) (ValueError ''material URI base64 payload is empty'')
     (raise_if (bs_encoded_size st mod 4 = 1 \<or> (bs_padding st \<noteq> 0 \<and> bs_encoded_size st mod 4 \<noteq> 0))
       (ValueError ''material URI has an invalid base64 payload length'')
     (rbind (if bs_chunk st \<noteq> [] then b64_flush (pad4 (bs_chunk st)) st else Inr st) (\<lambda>st.
      let decoded_size = int (bs_encoded_size st * 3 div 4) - int (bs_padding st) in
      raise_if (decoded_size \<le> 0) (ValueError ''material URI decoded payload is empty'')
      (raise_if (int (bs_total st) \<noteq> decoded_size) (ValueError ''MiniMax H3 base64 decoded size != expected'')
        (Inr (bs_output st))))))"

text \<open>The body of \<^verbatim>\<open>_stream_base64_material\<close>: the bytes the output file holds at the end.\<close>

definition stream_base64 :: "string \<Rightarrow> nat list res" where
  "stream_base64 payload = (case iter_base64_payload_bytes payload of (values, err) \<Rightarrow>
     rbind (rfold b64_step values b64_stream_init) (\<lambda>st.
     case err of Some e \<Rightarrow> Inl e | None \<Rightarrow> b64_finish st))"

section \<open>The reference decoder\<close>

text \<open>Base64 without padding: the sextets of the body as bytes.\<close>

fun sextets_to_bytes :: "nat list \<Rightarrow> nat list" where
  "sextets_to_bytes (x # y # z # w # rest) =
     [x * 4 + y div 16, (y mod 16) * 16 + z div 4, (z mod 4) * 64 + w] @ sextets_to_bytes rest"
| "sextets_to_bytes [x, y, z] = [x * 4 + y div 16, (y mod 16) * 16 + z div 4]"
| "sextets_to_bytes [x, y] = [x * 4 + y div 16]"
| "sextets_to_bytes _ = []"

definition b64_sextet :: "nat \<Rightarrow> nat" where
  "b64_sextet c = (case b64_val c of Some x \<Rightarrow> x | None \<Rightarrow> 0)"

text \<open>A well-formed payload is a body without padding characters and at most two padding characters; a padded
  payload fills its last group.\<close>

definition b64_wellformed :: "nat list \<Rightarrow> nat \<Rightarrow> bool" where
  "b64_wellformed body pad \<longleftrightarrow> body \<noteq> [] \<and> 61 \<notin> set body \<and> pad \<le> 2 \<and>
     (length body + pad) mod 4 \<noteq> 1 \<and> (pad = 0 \<or> (length body + pad) mod 4 = 0)"

definition b64_char :: "nat \<Rightarrow> nat" where
  "b64_char x = (if x < 26 then x + 65 else if x < 52 then x + 71 else if x < 62 then x - 4
     else if x = 62 then 43 else 47)"

text \<open>The standard encoding, for the round trip.\<close>

fun bytes_to_sextets :: "nat list \<Rightarrow> nat list" where
  "bytes_to_sextets (a # b # c # rest) =
     [a div 4, (a mod 4) * 16 + b div 16, (b mod 16) * 4 + c div 64, c mod 64] @ bytes_to_sextets rest"
| "bytes_to_sextets [a, b] = [a div 4, (a mod 4) * 16 + b div 16, (b mod 16) * 4]"
| "bytes_to_sextets [a] = [a div 4, (a mod 4) * 16]"
| "bytes_to_sextets [] = []"

definition b64encode :: "nat list \<Rightarrow> nat list" where
  "b64encode bytes = pad4 (map b64_char (bytes_to_sextets bytes))"

section \<open>The strict decoder\<close>

lemma b64_val_61 [simp]: "b64_val 61 = None"
  by (simp add: b64_val_def)

definition b64_body :: "nat list \<Rightarrow> bool" where
  "b64_body xs \<longleftrightarrow> (\<forall>c \<in> set xs. b64_val c \<noteq> None)"

lemma b64_body_simps [simp]:
  "b64_body []" "b64_body (c # xs) \<longleftrightarrow> (\<exists>x. b64_val c = Some x) \<and> b64_body xs"
  "b64_body (xs @ ys) \<longleftrightarrow> b64_body xs \<and> b64_body ys"
  by (auto simp: b64_body_def)

lemma b64_body_no_pad: "b64_body xs \<Longrightarrow> 61 \<notin> set xs"
  by (force simp: b64_body_def)

lemma alphabet_body:
  assumes "\<forall>c \<in> set xs. c \<in> set BASE64_ALPHABET" and "61 \<notin> set xs"
  shows "b64_body xs"
proof -
  have "\<forall>c \<in> set BASE64_ALPHABET. c = 61 \<or> b64_val c \<noteq> None" by code_simp
  then show ?thesis using assms by (auto simp: b64_body_def)
qed

lemma mod4_Suc4 [simp]: "Suc (Suc (Suc (Suc n))) mod 4 = n mod 4"
  by presburger

lemma b64_sextet_Some: "b64_val c = Some x \<Longrightarrow> b64_sextet c = x"
  by (simp add: b64_sextet_def)

text \<open>On whole groups without padding, and in front of more input.\<close>

lemma a2b_body_append:
  assumes "b64_body xs" and "length xs mod 4 = 0"
  shows "a2b_base64 (xs @ ys) = map_option (\<lambda>r. sextets_to_bytes (map b64_sextet xs) @ r) (a2b_base64 ys)"
  using assms
proof (induction xs rule: sextets_to_bytes.induct)
  case (1 x y z w rest)
  then obtain a b c d where v: "b64_val x = Some a" "b64_val y = Some b" "b64_val z = Some c" "b64_val w = Some d"
    by auto
  then have "z \<noteq> 61" "w \<noteq> 61" by auto
  moreover have "a2b_base64 (rest @ ys) = map_option (\<lambda>r. sextets_to_bytes (map b64_sextet rest) @ r) (a2b_base64 ys)"
    using 1 by simp
  ultimately show ?case using v by (simp add: b64_sextet_Some option.map_comp comp_def)
qed (auto, cases "a2b_base64 ys", auto)

lemma a2b_body:
  "b64_body xs \<Longrightarrow> length xs mod 4 = 0 \<Longrightarrow> a2b_base64 xs = Some (sextets_to_bytes (map b64_sextet xs))"
  using a2b_body_append[of xs "[]"] by simp

text \<open>A body with the padding that completes its last group.\<close>

lemma a2b_padded:
  assumes "b64_body xs" and "length xs mod 4 \<noteq> 1"
  shows "a2b_base64 (pad4 xs) = Some (sextets_to_bytes (map b64_sextet xs))"
  using assms
proof (induction xs rule: sextets_to_bytes.induct)
  case (1 x y z w rest)
  then obtain a b c d where v: "b64_val x = Some a" "b64_val y = Some b" "b64_val z = Some c" "b64_val w = Some d"
    by auto
  then have "z \<noteq> 61" "w \<noteq> 61" by auto
  moreover have "a2b_base64 (pad4 rest) = Some (sextets_to_bytes (map b64_sextet rest))" using 1 by simp
  moreover have "pad4 (x # y # z # w # rest) = x # y # z # w # pad4 rest" by (simp add: pad4_def)
  ultimately show ?case using v by (simp add: b64_sextet_Some)
next
  case (2 x y z)
  then have "z \<noteq> 61" by auto
  then show ?case using 2 by (auto simp: pad4_def b64_sextet_def)
next
  case (3 x y)
  then show ?case by (auto simp: pad4_def b64_sextet_def numeral_2_eq_2)
qed (auto simp: pad4_def)

lemma sextets_to_bytes_length: "length (sextets_to_bytes xs) = length xs * 3 div 4"
  by (induction xs rule: sextets_to_bytes.induct) auto

lemma sextets_append:
  "length xs mod 4 = 0 \<Longrightarrow> sextets_to_bytes (xs @ ys) = sextets_to_bytes xs @ sextets_to_bytes ys"
  by (induction xs rule: sextets_to_bytes.induct) auto

section \<open>Round trip of the encoding\<close>

lemma b64_char_val: "x < 64 \<Longrightarrow> b64_val (b64_char x) = Some x"
  by (auto simp: b64_val_def b64_char_def)

lemma bytes_to_sextets_less: "\<forall>b \<in> set bs. b < 256 \<Longrightarrow> \<forall>x \<in> set (bytes_to_sextets bs). x < 64"
  by (induction bs rule: bytes_to_sextets.induct) (auto simp: less_mult_imp_div_less)

lemma div_mod_mult: "(b::nat) < n \<Longrightarrow> (a * n + b) div n = a" "b < n \<Longrightarrow> (a * n + b) mod n = b"
  by simp_all

lemma sextets_roundtrip: "\<forall>b \<in> set bs. b < 256 \<Longrightarrow> sextets_to_bytes (bytes_to_sextets bs) = bs"
proof (induction bs rule: bytes_to_sextets.induct)
  case (1 a b c rest)
  then have l: "b div 16 < 16" "c div 64 < 4" "a < 256" by auto
  then show ?case using 1 by (simp add: div_mod_mult)
next
  case (2 a b)
  then have "b div 16 < 16" by auto
  then show ?case by (simp add: div_mod_mult)
qed auto

section \<open>The stream\<close>

lemma chunk_chars: "0 < MINIMAX_H3_BASE64_DECODE_CHUNK_CHARS" "MINIMAX_H3_BASE64_DECODE_CHUNK_CHARS mod 4 = 0"
  by (simp_all add: MINIMAX_H3_BASE64_DECODE_CHUNK_CHARS_def)

text \<open>The state after a prefix: what has been flushed is decoded, the rest waits in the chunk.\<close>

definition flushed :: "nat list \<Rightarrow> nat" where
  "flushed vs = length vs div MINIMAX_H3_BASE64_DECODE_CHUNK_CHARS * MINIMAX_H3_BASE64_DECODE_CHUNK_CHARS"

definition stream_inv :: "nat list \<Rightarrow> b64_stream \<Rightarrow> bool" where
  "stream_inv vs st \<longleftrightarrow> bs_encoded_size st = length vs \<and> bs_padding st = length (filter (\<lambda>v. v = 61) vs) \<and>
     bs_saw_padding st = (61 \<in> set vs) \<and> bs_chunk st = drop (flushed vs) vs \<and>
     a2b_base64 (take (flushed vs) vs) = Some (bs_output st) \<and> bs_total st = length (bs_output st)"

text \<open>What the padding checks let through.\<close>

definition pads_ok :: "nat list \<Rightarrow> bool" where
  "pads_ok vs \<longleftrightarrow> (\<exists>body pad. vs = body @ replicate pad 61 \<and> 61 \<notin> set body \<and> pad \<le> 2)"

lemma pads_ok_snoc:
  "pads_ok (vs @ [v]) \<longleftrightarrow> pads_ok vs \<and> (if v = 61 then length (filter (\<lambda>v. v = 61) vs) < 2 else 61 \<notin> set vs)"
proof
  assume "pads_ok (vs @ [v])"
  then obtain body pad where b: "vs @ [v] = body @ replicate pad 61" "61 \<notin> set body" "pad \<le> 2"
    by (auto simp: pads_ok_def)
  show "pads_ok vs \<and> (if v = 61 then length (filter (\<lambda>v. v = 61) vs) < 2 else 61 \<notin> set vs)"
  proof (cases pad)
    case 0
    then show ?thesis using b by (auto simp: pads_ok_def intro!: exI[of _ vs] exI[of _ 0])
  next
    case (Suc k)
    then have v: "v = 61" "vs = body @ replicate k 61" using b(1) by (auto simp: replicate_append_same[symmetric])
    have "filter (\<lambda>v. v = 61) body = []" using b(2) by (auto simp: filter_empty_conv)
    then show ?thesis using v b Suc by (auto simp: pads_ok_def filter_replicate intro!: exI[of _ body] exI[of _ k])
  qed
next
  assume a: "pads_ok vs \<and> (if v = 61 then length (filter (\<lambda>v. v = 61) vs) < 2 else 61 \<notin> set vs)"
  then obtain body pad where b: "vs = body @ replicate pad 61" "61 \<notin> set body" "pad \<le> 2"
    by (auto simp: pads_ok_def)
  have f: "filter (\<lambda>v. v = 61) body = []" using b(2) by (auto simp: filter_empty_conv)
  show "pads_ok (vs @ [v])"
  proof (cases "v = 61")
    case True
    then have "vs @ [v] = body @ replicate (Suc pad) 61" "Suc pad \<le> 2"
      using a b f by (auto simp: replicate_append_same filter_replicate)
    then show ?thesis using b(2) unfolding pads_ok_def by blast
  next
    case False
    then have "vs @ [v] = (vs @ [v]) @ replicate 0 61" "61 \<notin> set (vs @ [v])" using a by auto
    then show ?thesis unfolding pads_ok_def by (metis le0)
  qed
qed

lemma flushed_snoc:
  assumes "length (drop (flushed vs) vs) + 1 \<noteq> MINIMAX_H3_BASE64_DECODE_CHUNK_CHARS"
  shows "flushed (vs @ [v]) = flushed vs"
  using assms unfolding flushed_def by (simp add: minus_div_mult_eq_mod div_Suc mod_Suc)

lemma flushed_chunk:
  assumes "length (drop (flushed vs) vs) + 1 = MINIMAX_H3_BASE64_DECODE_CHUNK_CHARS"
  shows "flushed (vs @ [v]) = length vs + 1"
proof -
  have r: "Suc (length vs mod MINIMAX_H3_BASE64_DECODE_CHUNK_CHARS) = MINIMAX_H3_BASE64_DECODE_CHUNK_CHARS"
    using assms unfolding flushed_def by (simp add: minus_div_mult_eq_mod)
  then have "Suc (length vs) mod MINIMAX_H3_BASE64_DECODE_CHUNK_CHARS = 0" by (simp add: mod_Suc)
  then show ?thesis unfolding flushed_def using div_mult_mod_eq[of "Suc (length vs)" MINIMAX_H3_BASE64_DECODE_CHUNK_CHARS]
    by simp
qed

lemma flushed_le: "flushed vs \<le> length vs" and flushed_mod4: "flushed vs mod 4 = 0"
  using chunk_chars(2) by (auto simp: flushed_def)

lemma take_flushed_snoc: "take (flushed vs) (vs @ [v]) = take (flushed vs) vs"
  "drop (flushed vs) (vs @ [v]) = drop (flushed vs) vs @ [v]"
  using flushed_le[of vs] by simp_all

text \<open>A flushed prefix that is followed by a full chunk has no padding.\<close>

lemma flushed_body:
  assumes ok: "pads_ok (vs @ [v])" and al: "\<forall>c \<in> set vs. c \<in> set BASE64_ALPHABET"
    and len: "length (drop (flushed vs) vs) + 1 = MINIMAX_H3_BASE64_DECODE_CHUNK_CHARS"
  shows "b64_body (take (flushed vs) vs)"
proof -
  obtain body pad where b: "vs @ [v] = body @ replicate pad 61" "61 \<notin> set body" "pad \<le> 2"
    using ok by (auto simp: pads_ok_def)
  have "length vs + 1 = length body + pad" using arg_cong[OF b(1), of length] by simp
  moreover have "flushed vs + MINIMAX_H3_BASE64_DECODE_CHUNK_CHARS = length vs + 1"
    using len flushed_le[of vs] by simp
  moreover have "2 < MINIMAX_H3_BASE64_DECODE_CHUNK_CHARS" by (simp add: MINIMAX_H3_BASE64_DECODE_CHUNK_CHARS_def)
  ultimately have "flushed vs \<le> length body" using b(3) by linarith
  then have "take (flushed vs) (vs @ [v]) = take (flushed vs) body" using b(1) by simp
  then have t: "take (flushed vs) vs = take (flushed vs) body" by (simp only: take_flushed_snoc)
  then have "61 \<notin> set (take (flushed vs) vs)" using b(2) in_set_takeD by metis
  then show ?thesis using al in_set_takeD alphabet_body by metis
qed

lemma b64_step_iff:
  assumes inv: "stream_inv vs st" and ok: "pads_ok vs" and al: "\<forall>c \<in> set vs. c \<in> set BASE64_ALPHABET"
  shows "b64_step v st = Inr st' \<longleftrightarrow> pads_ok (vs @ [v]) \<and> stream_inv (vs @ [v]) st'"
proof (cases "pads_ok (vs @ [v])")
  case False
  then show ?thesis using ok inv
    by (auto simp: pads_ok_snoc b64_step_def res_simps stream_inv_def split: if_splits)
next
  case True
  define st1 where "st1 = st\<lparr>bs_encoded_size := Suc (bs_encoded_size st), bs_saw_padding := bs_saw_padding st \<or> v = 61,
      bs_padding := bs_padding st + (if v = 61 then 1 else 0), bs_chunk := bs_chunk st @ [v]\<rparr>"
  have step: "b64_step v st = (if length (bs_chunk st1) = MINIMAX_H3_BASE64_DECODE_CHUNK_CHARS
      then b64_flush (bs_chunk st1) st1 else Inr st1)"
    using True inv unfolding b64_step_def Let_def st1_def by (cases st) (auto simp: pads_ok_snoc stream_inv_def)
  have I: "bs_encoded_size st = length vs" "bs_padding st = length (filter (\<lambda>v. v = 61) vs)"
    "bs_saw_padding st = (61 \<in> set vs)" "bs_chunk st = drop (flushed vs) vs"
    "a2b_base64 (take (flushed vs) vs) = Some (bs_output st)" "bs_total st = length (bs_output st)"
    using inv by (simp_all add: stream_inv_def)
  show ?thesis
  proof (cases "length (drop (flushed vs) vs) + 1 = MINIMAX_H3_BASE64_DECODE_CHUNK_CHARS")
    case False
    then have "stream_inv (vs @ [v]) st' \<longleftrightarrow> st' = st1"
      unfolding stream_inv_def flushed_snoc[OF False] take_flushed_snoc st1_def
      using I by (cases st; cases st') auto
    moreover have "b64_step v st = Inr st1" using False I(4) by (simp add: step st1_def)
    ultimately show ?thesis using True by auto
  next
    case full: True
    note body = flushed_body[OF True al full]
    note F = flushed_chunk[OF full, of v]
    have app: "a2b_base64 (vs @ [v]) = map_option (\<lambda>r. bs_output st @ r) (a2b_base64 (drop (flushed vs) vs @ [v]))"
    proof -
      have m: "length (take (flushed vs) vs) mod 4 = 0" using flushed_le flushed_mod4 by (simp add: min_absorb2)
      have e: "take (flushed vs) vs @ drop (flushed vs) vs @ [v] = vs @ [v]" by (metis append_assoc append_take_drop_id)
      show ?thesis using a2b_body_append[OF body m, of "drop (flushed vs) vs @ [v]", unfolded e]
          a2b_body[OF body m] I(5) by simp
    qed
    have "b64_step v st = b64_flush (drop (flushed vs) vs @ [v]) st1"
      using full I(4) by (simp add: step st1_def)
    moreover have "b64_flush (drop (flushed vs) vs @ [v]) st1 = Inr st' \<longleftrightarrow> stream_inv (vs @ [v]) st'"
      unfolding stream_inv_def F using app I
      by (cases st; cases st'; cases "a2b_base64 (drop (flushed vs) vs @ [v])")
        (auto simp: b64_flush_def decode_base64_chunk_def st1_def)
    ultimately show ?thesis using True by simp
  qed
qed

lemma stream_inv_init: "stream_inv [] b64_stream_init" "pads_ok []"
  by (auto simp: stream_inv_def b64_stream_init_def flushed_def pads_ok_def)

lemma stream_fold_inv:
  "\<forall>c \<in> set vs. c \<in> set BASE64_ALPHABET \<Longrightarrow> rfold b64_step vs b64_stream_init = Inr st \<Longrightarrow> pads_ok vs \<and> stream_inv vs st"
proof (induction vs arbitrary: st rule: rev_induct)
  case (snoc v vs)
  then obtain st0 where s: "rfold b64_step vs b64_stream_init = Inr st0" "b64_step v st0 = Inr st"
    by (auto simp: rfold_append res_simps)
  have "pads_ok vs \<and> stream_inv vs st0" using snoc.IH[OF _ s(1)] snoc.prems(1) by simp
  then show ?case using b64_step_iff[of vs st0 v st] s(2) snoc.prems(1) by simp
qed (use stream_inv_init in auto)

lemma stream_fold_total:
  assumes "\<forall>c \<in> set vs. c \<in> set BASE64_ALPHABET" and "pads_ok vs"
    and "\<And>k. k \<le> length vs \<Longrightarrow> k mod 4 = 0 \<Longrightarrow> a2b_base64 (take k vs) \<noteq> None"
  shows "\<exists>st. rfold b64_step vs b64_stream_init = Inr st"
  using assms
proof (induction vs rule: rev_induct)
  case (snoc v vs)
  have ok: "pads_ok vs" using snoc.prems(2) by (simp add: pads_ok_snoc)
  have "a2b_base64 (take k vs) \<noteq> None" if "k \<le> length vs" "k mod 4 = 0" for k
    using snoc.prems(3)[of k] that by simp
  then obtain st0 where s: "rfold b64_step vs b64_stream_init = Inr st0"
    using snoc.IH snoc.prems(1) ok by auto
  have al: "\<forall>c \<in> set vs. c \<in> set BASE64_ALPHABET" using snoc.prems(1) by simp
  have inv: "stream_inv vs st0" using stream_fold_inv[OF al s] by simp
  obtain out where o': "a2b_base64 (take (flushed (vs @ [v])) (vs @ [v])) = Some out"
    using snoc.prems(3)[OF flushed_le flushed_mod4] by blast
  have "stream_inv (vs @ [v]) \<lparr>bs_total = length out, bs_encoded_size = length (vs @ [v]),
      bs_padding = length (filter (\<lambda>v. v = 61) (vs @ [v])), bs_saw_padding = (61 \<in> set (vs @ [v])),
      bs_chunk = drop (flushed (vs @ [v])) (vs @ [v]), bs_output = out\<rparr>"
    using o' by (simp add: stream_inv_def)
  then have "\<exists>st. b64_step v st0 = Inr st" using b64_step_iff[OF inv ok al] snoc.prems(2) by blast
  then show ?case using s by (auto simp: rfold_append)
qed simp

text \<open>Facts about well-formed payloads.\<close>

lemma mod4_cases: obtains "(n::nat) mod 4 = 0" | "n mod 4 = 1" | "n mod 4 = 2" | "n mod 4 = 3"
  by linarith

lemma wf_mod:
  assumes "b64_wellformed body pad" shows "length body mod 4 \<noteq> 1"
    "0 < pad \<Longrightarrow> pad = (4 - length body mod 4) mod 4" "2 \<le> length body"
proof -
  have m: "(length body + pad) mod 4 = (length body mod 4 + pad) mod 4" by (simp add: mod_add_left_eq)
  have w: "(length body mod 4 + pad) mod 4 \<noteq> 1" "pad = 0 \<or> (length body mod 4 + pad) mod 4 = 0"
    "pad = 0 \<or> pad = 1 \<or> pad = 2" "0 < length body"
    using assms unfolding b64_wellformed_def m by auto
  show ne: "length body mod 4 \<noteq> 1" using w by (auto dest: dvd_imp_le)
  show "0 < pad \<Longrightarrow> pad = (4 - length body mod 4) mod 4"
    using w by (cases "length body" rule: mod4_cases) (auto dest: dvd_imp_le)
  have "length body \<noteq> 1" using ne by auto
  then show "2 \<le> length body" using w(4) by linarith
qed

lemma wf_pad4:
  assumes "b64_wellformed body pad" shows "pad4 (body @ replicate pad 61) = pad4 body"
proof (cases "pad = 0")
  case False
  then have p: "pad = (4 - length body mod 4) mod 4" "(length body + pad) mod 4 = 0"
    using wf_mod(2)[OF assms] assms by (auto simp: b64_wellformed_def)
  then show ?thesis by (simp add: pad4_def)
qed simp

lemma wf_prefix:
  assumes wf: "b64_wellformed body pad" and k: "k mod 4 = 0" "k < length body + pad"
  shows "k \<le> length body"
proof (cases "pad = 0")
  case False
  then have "(length body + pad) mod 4 = 0" "pad \<le> 2" using wf by (auto simp: b64_wellformed_def)
  then show ?thesis using k by presburger
qed (use k in simp)

lemma wf_take:
  assumes wf: "b64_wellformed body pad" and b: "b64_body body" and k: "k mod 4 = 0" "k \<le> length body + pad"
  shows "a2b_base64 (take k (body @ replicate pad 61)) \<noteq> None"
proof (cases "k \<le> length body")
  case True
  then have "b64_body (take k body)" "length (take k body) mod 4 = 0"
    using b k in_set_takeD by (fastforce simp: b64_body_def)+
  then show ?thesis using True a2b_body by simp
next
  case False
  then have "k = length body + pad" using wf_prefix[OF wf k(1)] k(2) by linarith
  moreover have "pad4 (body @ replicate pad 61) = body @ replicate pad 61"
    using k calculation by (simp add: pad4_def)
  ultimately show ?thesis
    using a2b_padded[OF b wf_mod(1)[OF wf]] wf_pad4[OF wf] by simp
qed

lemma wf_size:
  assumes "b64_wellformed body pad"
  shows "int ((length body + pad) * 3 div 4) - int pad = int (length body * 3 div 4)" "0 < length body * 3 div 4"
proof -
  show "0 < length body * 3 div 4" using wf_mod(3)[OF assms] by simp
  show "int ((length body + pad) * 3 div 4) - int pad = int (length body * 3 div 4)"
  proof (cases "pad = 0")
    case False
    then obtain q where q: "length body + pad = 4 * q" "pad \<le> 2" "0 < pad"
      using assms by (auto simp: b64_wellformed_def dvd_def mod_eq_0_iff_dvd)
    then have "pad = 1 \<and> length body = 4 * q - 1 \<or> pad = 2 \<and> length body = 4 * q - 2" by linarith
    moreover have "0 < q" using q by (cases q) auto
    ultimately show ?thesis using q(1) by auto
  qed simp
qed

lemma pad4_split: "k \<le> length vs \<Longrightarrow> k mod 4 = 0 \<Longrightarrow> pad4 vs = take k vs @ pad4 (drop k vs)"
proof -
  assume k: "k \<le> length vs" "k mod 4 = 0"
  then obtain q where "k = 4 * q" by (auto simp: dvd_def mod_eq_0_iff_dvd)
  then have "(length vs - k) mod 4 = length vs mod 4" using k(1) by (metis le_add_diff_inverse mod_mult_self4 mult.commute)
  then show ?thesis by (simp add: pad4_def)
qed

lemma b64_finish_wf:
  assumes inv: "stream_inv vs st" and vs: "vs = body @ replicate pad 61" and b: "b64_body body"
    and wf: "b64_wellformed body pad"
  shows "b64_finish st = Inr (sextets_to_bytes (map b64_sextet body))"
proof -
  let ?out = "sextets_to_bytes (map b64_sextet body)" and ?f = "flushed vs"
  have I: "bs_encoded_size st = length vs" "bs_padding st = length (filter (\<lambda>v. v = 61) vs)"
    "bs_chunk st = drop ?f vs" "a2b_base64 (take ?f vs) = Some (bs_output st)" "bs_total st = length (bs_output st)"
    using inv by (simp_all add: stream_inv_def)
  have all: "a2b_base64 (pad4 vs) = Some ?out"
    using a2b_padded[OF b wf_mod(1)[OF wf]] wf_pad4[OF wf] vs by simp
  have pad: "bs_padding st = pad" using I(2) vs b64_body_no_pad[OF b]
    by (auto simp: filter_replicate filter_empty_conv)
  have sz: "int (length vs * 3 div 4) - int pad = int (length ?out)" "0 < length ?out"
    using wf_size[OF wf] by (simp_all add: vs sextets_to_bytes_length)
  have chk: "length vs \<noteq> 0" "length vs mod 4 \<noteq> 1" "pad = 0 \<or> length vs mod 4 = 0"
    using wf by (auto simp: vs b64_wellformed_def)
  obtain st' where S: "(if bs_chunk st \<noteq> [] then b64_flush (pad4 (bs_chunk st)) st else Inr st) = Inr st'"
    "bs_output st' = ?out" "bs_total st' = length ?out" "bs_encoded_size st' = length vs" "bs_padding st' = pad"
  proof (cases "bs_chunk st = []")
    case True
    then have "?f = length vs" using I(3) flushed_le[of vs] by simp
    moreover from this have "pad4 vs = vs" using flushed_mod4[of vs] by (simp add: pad4_def)
    ultimately have "bs_output st = ?out" using all I(4) by simp
    then show ?thesis using True I pad by (intro that[of st]) simp_all
  next
    case False
    then have "?f < length vs" using I(3) by simp
    then have "?f < length body + pad" by (simp add: vs)
    then have le: "?f \<le> length body" by (rule wf_prefix[OF wf flushed_mod4])
    have tb: "b64_body (take ?f vs)" "length (take ?f vs) mod 4 = 0"
      using b le flushed_mod4 in_set_takeD by (fastforce simp: vs b64_body_def min_absorb2)+
    have "a2b_base64 (pad4 vs) = map_option (\<lambda>r. bs_output st @ r) (a2b_base64 (pad4 (bs_chunk st)))"
      using a2b_body_append[OF tb, of "pad4 (drop ?f vs)"] a2b_body[OF tb] I(3,4)
        pad4_split[OF flushed_le flushed_mod4, of vs] by simp
    then obtain d where "a2b_base64 (pad4 (bs_chunk st)) = Some d" "bs_output st @ d = ?out"
      using all by (cases "a2b_base64 (pad4 (bs_chunk st))") auto
    then show ?thesis using False I pad that
      by (auto simp: b64_flush_def decode_base64_chunk_def simp flip: length_append)
  qed
  have lt: "\<not> length vs * 3 div 4 \<le> pad" using sz by linarith
  show ?thesis using chk by (auto simp: b64_finish_def Let_def S I(1) pad lt sz(1))
qed

lemma b64_finish_Inr:
  assumes inv: "stream_inv vs st" and ok: "pads_ok vs" and fin: "b64_finish st = Inr out"
  obtains body pad where "vs = body @ replicate pad 61" "b64_wellformed body pad"
proof -
  obtain body pad where b: "vs = body @ replicate pad 61" "61 \<notin> set body" "pad \<le> 2"
    using ok by (auto simp: pads_ok_def)
  have "bs_encoded_size st = length body + pad" "bs_padding st = pad"
    using inv b by (auto simp: stream_inv_def filter_replicate filter_empty_conv)
  then have c: "length body + pad \<noteq> 0" "(length body + pad) mod 4 \<noteq> 1" "pad = 0 \<or> (length body + pad) mod 4 = 0"
    using fin by (auto simp: b64_finish_def res_simps)
  have "body \<noteq> []" using c b(3) by (auto dest: dvd_imp_le)
  then show thesis using b c by (intro that[of body pad]) (auto simp: b64_wellformed_def)
qed

text \<open>The chunked decoder accepts exactly the well-formed payloads and computes their bytes.\<close>

lemma stream_values_iff:
  assumes al: "\<forall>c \<in> set vs. c \<in> set BASE64_ALPHABET"
  shows "rbind (rfold b64_step vs b64_stream_init) b64_finish = Inr out \<longleftrightarrow>
     (\<exists>body pad. vs = body @ replicate pad 61 \<and> b64_wellformed body pad \<and>
        out = sextets_to_bytes (map b64_sextet body))"
proof
  assume "rbind (rfold b64_step vs b64_stream_init) b64_finish = Inr out"
  then obtain st where s: "rfold b64_step vs b64_stream_init = Inr st" "b64_finish st = Inr out"
    by (auto simp: res_simps)
  have i: "pads_ok vs" "stream_inv vs st" using stream_fold_inv[OF al s(1)] by simp_all
  obtain body pad where b: "vs = body @ replicate pad 61" "b64_wellformed body pad"
    by (rule b64_finish_Inr[OF i(2,1) s(2)])
  then have "b64_body body" using al by (intro alphabet_body) (auto simp: b64_wellformed_def)
  then show "\<exists>body pad. vs = body @ replicate pad 61 \<and> b64_wellformed body pad \<and>
        out = sextets_to_bytes (map b64_sextet body)"
    using b64_finish_wf[OF i(2) b(1) _ b(2)] s(2) b by auto
next
  assume "\<exists>body pad. vs = body @ replicate pad 61 \<and> b64_wellformed body pad \<and>
        out = sextets_to_bytes (map b64_sextet body)"
  then obtain body pad where b: "vs = body @ replicate pad 61" "b64_wellformed body pad"
    "out = sextets_to_bytes (map b64_sextet body)" by auto
  have body: "b64_body body" using al b by (intro alphabet_body) (auto simp: b64_wellformed_def)
  have "pads_ok vs" using b by (auto simp: pads_ok_def b64_wellformed_def)
  then obtain st where st: "rfold b64_step vs b64_stream_init = Inr st"
    using stream_fold_total[OF al] wf_take[OF b(2) body] b(1) by auto
  then show "rbind (rfold b64_step vs b64_stream_init) b64_finish = Inr out"
    using b64_finish_wf[OF _ b(1) body b(2)] stream_fold_inv[OF al st] b(3) by simp
qed

section \<open>From the URI to the bytes\<close>

lemma gen_emit_alphabet:
  "\<forall>c \<in> set (fst r). c \<in> set BASE64_ALPHABET \<Longrightarrow> \<forall>c \<in> set (fst (gen_emit ch r)). c \<in> set BASE64_ALPHABET"
  by (simp add: gen_emit_def)

lemma payload_alphabet: "\<forall>c \<in> set (fst (iter_base64_payload_bytes s)). c \<in> set BASE64_ALPHABET"
proof (induction s rule: iter_base64_payload_bytes.induct)
  case (2 c cs)
  consider (plain) "c \<noteq> CHR ''%''" | (short) "c = CHR ''%''" "length cs < 2"
    | (esc) a b rest where "c = CHR ''%''" "cs = a # b # rest"
    by (metis One_nat_def Suc_1 Suc_leI length_Suc_conv_rev linorder_not_less list.size(3) neq_Nil_conv not_less_eq zero_less_Suc length_Cons lessI)
  then show ?case
  proof cases
    case plain
    then show ?thesis using gen_emit_alphabet[OF 2(2)[OF plain]] by simp
  next
    case short
    then show ?thesis by (cases cs; cases "tl cs") auto
  next
    case esc
    show ?thesis
    proof (cases "parse_hex2 a b")
      case (Some v)
      then show ?thesis using gen_emit_alphabet[OF 2(1)[OF esc(1,2) refl Some]] esc by (cases "v < 0") auto
    qed (use esc in simp)
  qed
qed simp

text \<open>Plain base64 text is yielded as it is.\<close>

lemma alphabet_plain: "c \<in> set BASE64_ALPHABET \<Longrightarrow>
    c \<le> 127 \<and> \<not> is_space_char (char_of c) \<and> (char_of c :: char) \<noteq> CHR ''%''"
proof -
  have "\<forall>c \<in> set BASE64_ALPHABET. c \<le> 127 \<and> \<not> is_space_char (char_of c) \<and> (char_of c :: char) \<noteq> CHR ''%''"
    by code_simp
  then show "c \<in> set BASE64_ALPHABET \<Longrightarrow> ?thesis" by blast
qed

lemma iter_plain: "\<forall>c \<in> set vs. c \<in> set BASE64_ALPHABET \<Longrightarrow> iter_base64_payload_bytes (map char_of vs) = (vs, None)"
proof (induction vs)
  case (Cons v vs)
  have "of_char (char_of v :: char) = v" using alphabet_plain[of v] Cons.prems by (simp add: of_char_of)
  then show ?case using Cons alphabet_plain[of v] by (simp add: gen_emit_def)
qed simp

lemma b64encode_alphabet: "\<forall>b \<in> set bs. b < 256 \<Longrightarrow> \<forall>c \<in> set (b64encode bs). c \<in> set BASE64_ALPHABET"
proof -
  assume bs: "\<forall>b \<in> set bs. b < 256"
  have all: "\<forall>x \<in> set [0..<64]. b64_char x \<in> set BASE64_ALPHABET" by code_simp
  have "b64_char x \<in> set BASE64_ALPHABET" if "x < 64" for x using all that by simp
  moreover have "61 \<in> set BASE64_ALPHABET" by code_simp
  ultimately show "\<forall>c \<in> set (b64encode bs). c \<in> set BASE64_ALPHABET"
    using bytes_to_sextets_less[OF bs] by (auto simp: b64encode_def pad4_def)
qed

lemma bytes_to_sextets_length: "length (bytes_to_sextets bs) mod 4 \<noteq> 1" "bs \<noteq> [] \<Longrightarrow> bytes_to_sextets bs \<noteq> []"
  by (induction bs rule: bytes_to_sextets.induct) auto

lemma stream_base64_roundtrip:
  assumes bs: "\<forall>b \<in> set bs. b < 256" and ne: "bs \<noteq> []"
  shows "stream_base64 (map char_of (b64encode bs)) = Inr bs"
proof -
  let ?s = "bytes_to_sextets bs" and ?body = "map b64_char (bytes_to_sextets bs)"
  define pad where "pad = (4 - length ?s mod 4) mod 4"
  have e: "b64encode bs = ?body @ replicate pad 61" by (simp add: b64encode_def pad4_def pad_def)
  have v: "\<forall>x \<in> set ?s. b64_val (b64_char x) = Some x" using bytes_to_sextets_less[OF bs] b64_char_val by blast
  then have "61 \<notin> set ?body" by (auto simp flip: not_None_eq)
  moreover have "pad \<le> 2" "(length ?s + pad) mod 4 = 0"
    using bytes_to_sextets_length(1)[of bs] mod_add_left_eq[of "length ?s" 4 pad, symmetric]
    by (cases "length ?s" rule: mod4_cases; simp add: pad_def)+
  ultimately have wf: "b64_wellformed ?body pad" using bytes_to_sextets_length(2)[OF ne] by (auto simp: b64_wellformed_def)
  have "map b64_sextet ?body = ?s" using v by (simp add: map_idI b64_sextet_Some)
  then have "\<exists>body pad. b64encode bs = body @ replicate pad 61 \<and> b64_wellformed body pad \<and>
      bs = sextets_to_bytes (map b64_sextet body)"
    using wf e sextets_roundtrip[OF bs] by (intro exI[of _ ?body] exI[of _ pad]) simp
  then have "rbind (rfold b64_step (b64encode bs) b64_stream_init) b64_finish = Inr bs"
    by (rule iffD2[OF stream_values_iff[OF b64encode_alphabet[OF bs]]])
  then show ?thesis using iter_plain[OF b64encode_alphabet[OF bs]] by (simp add: stream_base64_def)
qed

lemma stream_base64_iff:
  "stream_base64 s = Inr out \<longleftrightarrow> (\<exists>body pad. iter_base64_payload_bytes s = (body @ replicate pad 61, None) \<and>
     b64_wellformed body pad \<and> out = sextets_to_bytes (map b64_sextet body))"
proof -
  obtain vs err where i: "iter_base64_payload_bytes s = (vs, err)" by (cases "iter_base64_payload_bytes s")
  have al: "\<forall>c \<in> set vs. c \<in> set BASE64_ALPHABET" using payload_alphabet[of s] i by simp
  show ?thesis
  proof (cases err)
    case None
    then show ?thesis using stream_values_iff[OF al, of out] i by (simp add: stream_base64_def)
  next
    case (Some e)
    then show ?thesis using i by (auto simp: stream_base64_def rbind_Inr_iff)
  qed
qed

end
