(* ===== verification/Material_Probe.thy ===== *)
theory Material_Probe
  imports Py_Value
begin

text \<open>
  The probing part of \<^verbatim>\<open>minimax_h3/material_io.py\<close>: frame rates, display ratios, rotations and display
  geometry of an ffprobe stream, the memoised choice of the ffprobe entry list, and
  \<^verbatim>\<open>_validate_localized_media\<close>. Pillow and the ffprobe process are parameters; so are the cosine and sine of
  the C library, which only an oblique rotation uses.
\<close>

section \<open>Scalars of a stream\<close>

text \<open>\<^verbatim>\<open>value in {None, "", ...}\<close>: membership hashes the value.\<close>

definition in_blank :: "pyval \<Rightarrow> string list \<Rightarrow> bool res" where
  "in_blank v strs = (case v of
      PList _ \<Rightarrow> Inl (TypeError ''unhashable type'') | PDict _ \<Rightarrow> Inl (TypeError ''unhashable type'')
    | PNone \<Rightarrow> Inr True | PStr s \<Rightarrow> Inr (s \<in> set strs) | _ \<Rightarrow> Inr False)"

text \<open>\<^verbatim>\<open>raw.split(sep, 1)\<close> for a separator that occurs.\<close>

definition split_once :: "char \<Rightarrow> string \<Rightarrow> string \<times> string" where
  "split_once c s = (takeWhile (\<lambda>x. x \<noteq> c) s, tl (dropWhile (\<lambda>x. x \<noteq> c) s))"

text \<open>\<^verbatim>\<open>float(str(value))\<close>: the text of a float reads back as the same float.\<close>

definition float_of_text :: "pyval \<Rightarrow> pyfloat res" where
  "float_of_text v = (case v of PFloat x \<Rightarrow> Inr x | _ \<Rightarrow> py_float (PStr (py_str v)))"

definition has_sep :: "char \<Rightarrow> pyval \<Rightarrow> bool" where
  "has_sep c v = (case v of PFloat _ \<Rightarrow> False | _ \<Rightarrow> c \<in> set (py_str v))"

text \<open>\<^verbatim>\<open>except (TypeError, ValueError, ZeroDivisionError): return 0.0\<close>.\<close>

definition catch_zero :: "pyfloat res \<Rightarrow> pyfloat res" where
  "catch_zero m = (case m of
      Inl e \<Rightarrow> if is_type_or_value_error e \<or> e = ZeroDivisionError then Inr (Fin 0) else Inl e
    | Inr x \<Rightarrow> Inr x)"

definition parse_frame_rate :: "pyval \<Rightarrow> pyfloat res" where
  "parse_frame_rate value =
     rbind (in_blank value [[], ''N/A'', ''0/0'']) (\<lambda>blank.
     if blank then Inr (Fin 0)
     else catch_zero (rbind
       (if has_sep (CHR ''/'') value then
          (case split_once (CHR ''/'') (py_str value) of (numerator, denominator) \<Rightarrow>
             rbind (py_float (PStr denominator)) (\<lambda>d.
             if feq d (Fin 0) then Inr (Fin 0)
             else rbind (py_float (PStr numerator)) (\<lambda>n. fdiv n d)))
        else float_of_text value)
       (\<lambda>parsed. Inr (if is_finite parsed then parsed else Fin 0))))"

definition parse_display_ratio :: "pyval \<Rightarrow> pyfloat res" where
  "parse_display_ratio value =
     rbind (in_blank value [[], ''N/A'', ''0:1'', ''0/1'']) (\<lambda>blank.
     if blank then Inr (Fin 0)
     else rbind (catch_zero
       (let raw = strip (py_str value);
            by_sep = (\<lambda>c. case split_once c raw of (numerator, denominator) \<Rightarrow>
              rbind (py_float (PStr numerator)) (\<lambda>n. rbind (py_float (PStr denominator)) (\<lambda>d. fdiv n d)))
        in if has_sep (CHR '':'') value then by_sep (CHR '':'')
           else if has_sep (CHR ''/'') value then by_sep (CHR ''/'') else float_of_text value))
       (\<lambda>ratio. Inr (if is_finite ratio \<and> flt (Fin 0) ratio then ratio else Fin 0)))"

text \<open>\<^verbatim>\<open>x % 360.0\<close>: the exact remainder with the sign of the dividend, moved up by one period when it is
  negative.\<close>

definition fmod360 :: "rat \<Rightarrow> pyfloat" where
  "fmod360 x = (let r = x - 360 * of_int (rat_trunc (x / 360)) in if r < 0 then fl (r + 360) else Fin r)"

text \<open>The candidate rotations, and the first usable one.\<close>

definition rotation_values :: "pydict \<Rightarrow> pyval list" where
  "rotation_values stream =
     (case dget stream ''side_data_list'' of
        PList l \<Rightarrow> [dget d ''rotation''. PDict d \<leftarrow> l] | _ \<Rightarrow> []) @
     (case dget stream ''tags'' of PDict t \<Rightarrow> [dget t ''rotate''] | _ \<Rightarrow> [])"

fun first_rotation :: "pyval list \<Rightarrow> pyfloat res" where
  "first_rotation [] = Inr (Fin 0)"
| "first_rotation (v # vs) =
     rbind (in_blank v [[], ''N/A'']) (\<lambda>blank.
     if blank then first_rotation vs
     else (case py_float v of
         Inl e \<Rightarrow> if is_type_or_value_error e then first_rotation vs else Inl e
       | Inr (Fin x) \<Rightarrow> Inr (fmod360 x)
       | Inr _ \<Rightarrow> first_rotation vs))"

definition stream_rotation_degrees :: "pydict \<Rightarrow> pyfloat res" where
  "stream_rotation_degrees stream = first_rotation (rotation_values stream)"

text \<open>\<^verbatim>\<open>int(v or 0)\<close>.\<close>

definition int_or_zero :: "pyval \<Rightarrow> int res" where
  "int_or_zero v = (if truthy v then py_int v else Inr 0)"

text \<open>Size in square pixels before rotation, with the sample aspect ratio.\<close>

definition physical_size :: "pydict \<Rightarrow> (pyfloat \<times> pyfloat \<times> pyfloat) res" where
  "physical_size stream =
     rbind (int_or_zero (dget stream ''width'')) (\<lambda>coded_width.
     rbind (int_or_zero (dget stream ''height'')) (\<lambda>coded_height.
     rbind (parse_display_ratio (dget stream ''sample_aspect_ratio'')) (\<lambda>sar0.
     let sar = (if feq sar0 (Fin 0) then Fin 1 else sar0) in
     rbind (parse_display_ratio (dget stream ''display_aspect_ratio'')) (\<lambda>dar.
     rbind (float_of_int coded_height) (\<lambda>physical_height.
     rbind (if flt (Fin 0) dar then Inr (fmul dar physical_height)
            else rbind (float_of_int coded_width) (\<lambda>w. Inr (fmul w sar))) (\<lambda>physical_width.
     Inr (physical_width, physical_height, sar)))))))"

text \<open>\<open>trig r\<close> is \<^verbatim>\<open>(abs(cos(radians(r))), abs(sin(radians(r))))\<close>.\<close>

definition rotated_size ::
  "(pyfloat \<Rightarrow> pyfloat \<times> pyfloat) \<Rightarrow> pyfloat \<Rightarrow> pyfloat \<Rightarrow> pyfloat \<Rightarrow> (pyfloat \<times> pyfloat) res" where
  "rotated_size trig physical_width physical_height rotation =
     rbind (fdiv rotation (Fin 90)) (\<lambda>turns.
     rbind (py_round turns) (\<lambda>quarter_turns.
     rbind (float_of_int quarter_turns) (\<lambda>q.
     let delta = fsub rotation (fmul q (Fin 90)) in
     if fle delta (fl (1 / 10 ^ 6)) \<and> fle (fneg (fl (1 / 10 ^ 6))) delta then
       (if quarter_turns mod 2 \<noteq> 0 then Inr (physical_height, physical_width)
        else Inr (physical_width, physical_height))
     else (case trig rotation of (cosine, sine) \<Rightarrow>
       Inr (fadd (fmul physical_width cosine) (fmul physical_height sine),
            fadd (fmul physical_width sine) (fmul physical_height cosine))))))"

definition display_geometry ::
  "(pyfloat \<Rightarrow> pyfloat \<times> pyfloat) \<Rightarrow> pydict \<Rightarrow> (pyfloat \<times> pyfloat \<times> pyfloat \<times> pyfloat) res" where
  "display_geometry trig stream =
     rbind (physical_size stream) (\<lambda>(physical_width, physical_height, sar).
     rbind (stream_rotation_degrees stream) (\<lambda>rotation.
     rbind (rotated_size trig physical_width physical_height rotation) (\<lambda>(w, h).
     Inr (w, h, sar, rotation))))"

section \<open>ffprobe\<close>

text \<open>What running ffprobe with an entry list on a path does: it ends normally and what it printed parses as a
  JSON object or raises, it exits with an error and a text on stderr, or starting it raises.\<close>

datatype probe_run = ProbeOutput "pydict res" | ProbeExit string | ProbeRaise py_error

definition FFPROBE_STREAM_ENTRIES :: string where
  "FFPROBE_STREAM_ENTRIES = ''stream=codec_type,width,height,duration,sample_rate,channels,'' @
     ''avg_frame_rate,r_frame_rate,nb_frames,sample_aspect_ratio,display_aspect_ratio'' @ '':stream_tags=rotate''"

definition FFPROBE_ENTRY_VARIANTS :: "string list" where
  "FFPROBE_ENTRY_VARIANTS =
     [FFPROBE_STREAM_ENTRIES @ '':stream_side_data=rotation:format=format_name,duration'',
      FFPROBE_STREAM_ENTRIES @ '':format=format_name,duration'']"

fun str_contains :: "string \<Rightarrow> string \<Rightarrow> bool" where
  "str_contains p [] = (p = [])"
| "str_contains p (c # s) = (take (length p) (c # s) = p \<or> str_contains p s)"

text \<open>The loop over the variants; the second component is the module variable \<^verbatim>\<open>_ffprobe_entries\<close>.\<close>

fun ffprobe_loop ::
  "(string \<Rightarrow> string \<Rightarrow> probe_run) \<Rightarrow> string \<Rightarrow> string list \<Rightarrow> string option \<Rightarrow> pydict res \<times> string option" where
  "ffprobe_loop run path [] memo = (Inl (RuntimeError ''CalledProcessError''), memo)"
| "ffprobe_loop run path (entries # rest) memo = (case run entries path of
      ProbeOutput parsed \<Rightarrow> (parsed, Some entries)
    | ProbeRaise e \<Rightarrow> (Inl e, memo)
    | ProbeExit stderr \<Rightarrow>
        if \<not> str_contains ''No match for section'' stderr then (Inl (RuntimeError ''CalledProcessError''), memo)
        else ffprobe_loop run path rest memo)"

definition ffprobe_media ::
  "(string \<Rightarrow> string \<Rightarrow> probe_run) \<Rightarrow> string \<Rightarrow> string option \<Rightarrow> pydict res \<times> string option" where
  "ffprobe_media run path memo =
     ffprobe_loop run path (case memo of Some e \<Rightarrow> [e] | None \<Rightarrow> FFPROBE_ENTRY_VARIANTS) memo"

section \<open>Validation of a localised source\<close>

text \<open>What Pillow reports for a file: coded size, format name and size after \<^verbatim>\<open>exif_transpose\<close>;
  \<^verbatim>\<open>None\<close> when any of it raises.\<close>

record image_info =
  ii_width :: int
  ii_height :: int
  ii_format :: string
  ii_display_width :: int
  ii_display_height :: int

record probe_env =
  pv_image :: "string \<Rightarrow> image_info option"
  pv_ffprobe :: "string \<Rightarrow> string \<Rightarrow> probe_run"
  pv_trig :: "pyfloat \<Rightarrow> pyfloat \<times> pyfloat"

definition validate_image :: "probe_env \<Rightarrow> string \<Rightarrow> pydict res" where
  "validate_image env path = (case pv_image env path of
      None \<Rightarrow> Inl (ValueError ''MiniMax H3 image material is invalid'')
    | Some i \<Rightarrow>
        raise_if (ii_width i \<le> 0 \<or> ii_height i \<le> 0) (ValueError ''MiniMax H3 image material is invalid'')
        (raise_if (ii_format i \<notin> {''JPEG'', ''PNG'', ''WEBP''})
          (ValueError ''MiniMax H3 image material uses an unsupported format'')
        (raise_if (ii_display_width i \<le> 0 \<or> ii_display_height i \<le> 0)
          (ValueError ''MiniMax H3 image material has no positive display geometry'')
        (Inr [(''condition_type'', PStr ''image''), (''coded_width'', PInt (ii_width i)),
              (''coded_height'', PInt (ii_height i)), (''display_width'', PInt (ii_display_width i)),
              (''display_height'', PInt (ii_display_height i)), (''image_format'', PStr (ii_format i)),
              (''exif_transposed'',
                PBool ((ii_width i, ii_height i) \<noteq> (ii_display_width i, ii_display_height i)))]))))"

definition ALLOWED_FORMATS :: "string list" where
  "ALLOWED_FORMATS = [''mov'', ''mp4'', ''m4a'', ''3gp'', ''3g2'', ''mj2'', ''matroska'', ''webm'', ''wav'', ''mp3'',
     ''flac'', ''ogg'']"

text \<open>\<^verbatim>\<open>payload.get("streams") or []\<close> and the streams of one codec type.\<close>

definition payload_streams :: "pydict \<Rightarrow> pydict list res" where
  "payload_streams payload = (case dget payload ''streams'' of
      PList l \<Rightarrow> rmap (\<lambda>s. case s of PDict d \<Rightarrow> Inr d | _ \<Rightarrow> Inl (AttributeError ''get'')) l
    | v \<Rightarrow> if truthy v then Inl (TypeError ''streams'') else Inr [])"

definition payload_format :: "pydict \<Rightarrow> pydict res" where
  "payload_format payload = (case dget payload ''format'' of
      PDict d \<Rightarrow> Inr d | v \<Rightarrow> if truthy v then Inl (AttributeError ''get'') else Inr [])"

definition streams_of :: "string \<Rightarrow> pydict list \<Rightarrow> pydict list" where
  "streams_of codec streams = filter (\<lambda>s. eq_str (dget s ''codec_type'') codec) streams"

text \<open>\<^verbatim>\<open>_parse_frame_rate(avg) or _parse_frame_rate(r)\<close>.\<close>

definition stream_fps_or :: "pydict \<Rightarrow> pyfloat res" where
  "stream_fps_or s = rbind (parse_frame_rate (dget s ''avg_frame_rate'')) (\<lambda>a.
     if feq a (Fin 0) then parse_frame_rate (dget s ''r_frame_rate'') else Inr a)"

definition check_video_stream :: "pydict \<Rightarrow> unit res" where
  "check_video_stream s =
     rbind (catch_tv (rbind (int_or_zero (dget s ''width'')) (\<lambda>w.
                      rbind (int_or_zero (dget s ''height'')) (\<lambda>h. Inr (w, h))))
              (ValueError ''MiniMax H3 video material has invalid dimensions'')) (\<lambda>(w, h).
     raise_if (w \<le> 0 \<or> h \<le> 0) (ValueError ''MiniMax H3 video material has no positive dimensions'')
     (rbind (stream_fps_or s) (\<lambda>fps.
      raise_if (fle fps (Fin 0)) (ValueError ''MiniMax H3 video material has no usable frame rate'') (Inr ()))))"

definition check_audio_stream :: "pydict \<Rightarrow> unit res" where
  "check_audio_stream s =
     rbind (catch_tv (rbind (int_or_zero (dget s ''sample_rate'')) (\<lambda>r.
                      rbind (int_or_zero (dget s ''channels'')) (\<lambda>c. Inr (r, c))))
              (ValueError ''MiniMax H3 audio material has invalid metadata'')) (\<lambda>(r, c).
     raise_if (r \<le> 0) (ValueError ''MiniMax H3 audio material has no usable sample rate'')
     (raise_if (c \<le> 0) (ValueError ''MiniMax H3 audio material has no usable channel count'') (Inr ())))"

text \<open>The usable durations, in order.\<close>

definition duration_step :: "pyval \<Rightarrow> pyfloat list \<Rightarrow> pyfloat list res" where
  "duration_step value durations =
     rbind (in_blank value [[], ''N/A'']) (\<lambda>blank.
     if blank then Inr durations
     else (case py_float value of
         Inl e \<Rightarrow> if is_type_or_value_error e then Inr durations else Inl e
       | Inr d \<Rightarrow> Inr (if is_finite d \<and> flt (Fin 0) d then durations @ [d] else durations)))"

fun py_max_list :: "pyfloat list \<Rightarrow> pyfloat" where
  "py_max_list [] = Fin 0"
| "py_max_list [x] = x"
| "py_max_list (x # y # xs) = py_max_list ((if flt x y then y else x) # xs)"

text \<open>\<^verbatim>\<open>try: v = float(x) except (TypeError, ValueError): v = 0.0\<close>.\<close>

definition float_or_zero :: "pyval \<Rightarrow> pyfloat res" where
  "float_or_zero v = (case py_float v of
      Inl e \<Rightarrow> if is_type_or_value_error e then Inr (Fin 0) else Inl e | Inr x \<Rightarrow> Inr x)"

text \<open>\<^verbatim>\<open>max(1, int(round(duration * fps)))\<close>.\<close>

definition estimated_frames :: "pyfloat \<Rightarrow> pyfloat \<Rightarrow> int res" where
  "estimated_frames duration fps = rbind (py_round (fmul duration fps)) (\<lambda>n. Inr (max 1 n))"

definition video_frame_count :: "pydict \<Rightarrow> pyfloat \<Rightarrow> pyfloat \<Rightarrow> int res" where
  "video_frame_count s duration fps =
     rbind (case py_int (dget s ''nb_frames'') of
         Inl e \<Rightarrow> if is_type_or_value_error e then estimated_frames duration fps else Inl e
       | Inr n \<Rightarrow> Inr n) (\<lambda>frame_count.
     if frame_count \<le> 0 then estimated_frames duration fps else Inr frame_count)"

definition video_facts :: "probe_env \<Rightarrow> pydict \<Rightarrow> pyfloat \<Rightarrow> pydict res" where
  "video_facts env s duration =
     rbind (int_or_zero (dget s ''width'')) (\<lambda>coded_width.
     rbind (int_or_zero (dget s ''height'')) (\<lambda>coded_height.
     rbind (display_geometry (pv_trig env) s) (\<lambda>(display_width, display_height, sar, rotation).
     rbind (parse_frame_rate (dget s ''avg_frame_rate'')) (\<lambda>fps0.
     rbind (if fle fps0 (Fin 0) then parse_frame_rate (dget s ''r_frame_rate'') else Inr fps0) (\<lambda>fps.
     rbind (video_frame_count s duration fps) (\<lambda>frame_count.
     rbind (float_or_zero (dget s ''duration'')) (\<lambda>vd0.
     rbind (if \<not> is_finite vd0 \<or> fle vd0 (Fin 0)
            then rbind (float_of_int frame_count) (\<lambda>n. fdiv n fps) else Inr vd0) (\<lambda>video_duration.
     rbind (fdiv display_width display_height) (\<lambda>dar.
     Inr [(''coded_width'', PInt coded_width), (''coded_height'', PInt coded_height),
          (''display_width'', PFloat display_width), (''display_height'', PFloat display_height),
          (''sample_aspect_ratio'', PStr (py_str
            (if truthy (dget s ''sample_aspect_ratio'') then dget s ''sample_aspect_ratio'' else PStr ''1:1''))),
          (''sample_aspect_ratio_value'', PFloat sar), (''display_aspect_ratio'', PFloat dar),
          (''rotation_degrees'', PFloat rotation), (''fps'', PFloat fps), (''frame_count'', PInt frame_count),
          (''video_duration_seconds'', PFloat video_duration)])))))))))"

definition audio_facts :: "pydict \<Rightarrow> pyfloat \<Rightarrow> pydict res" where
  "audio_facts s duration =
     rbind (int_or_zero (dget s ''sample_rate'')) (\<lambda>rate.
     rbind (int_or_zero (dget s ''channels'')) (\<lambda>channels.
     rbind (float_or_zero (dget s ''duration'')) (\<lambda>ad.
     Inr [(''audio_sample_rate'', PInt rate), (''audio_channels'', PInt channels),
          (''audio_duration_seconds'', PFloat (if is_finite ad \<and> flt (Fin 0) ad then ad else duration))])))"

definition media_facts :: "probe_env \<Rightarrow> string \<Rightarrow> pydict \<Rightarrow> pydict res" where
  "media_facts env condition_type payload =
     rbind (payload_streams payload) (\<lambda>streams.
     rbind (payload_format payload) (\<lambda>fmt.
     let format_names = split_on (CHR '','')
           (if truthy (dget fmt ''format_name'') then py_str (dget fmt ''format_name'') else []);
         video_streams = streams_of ''video'' streams; audio_streams = streams_of ''audio'' streams in
     raise_if (\<not> set format_names \<subseteq> set ALLOWED_FORMATS)
       (ValueError ''MiniMax H3 media container format is not allowed'')
     (raise_if (condition_type \<in> {''video'', ''video_audio''} \<and> video_streams = [])
       (ValueError ''MiniMax H3 video material has no video stream'')
     (raise_if (condition_type \<in> {''audio'', ''video_audio''} \<and> audio_streams = [])
       (ValueError ''MiniMax H3 audio material has no audio stream'')
     (rbind (rmap check_video_stream video_streams) (\<lambda>_.
      rbind (rmap check_audio_stream audio_streams) (\<lambda>_.
      rbind (rfold duration_step (dget fmt ''duration'' # map (\<lambda>s. dget s ''duration'') streams) []) (\<lambda>durations.
      raise_if (durations = []) (ValueError ''MiniMax H3 media material has no positive duration'')
      (let duration = py_max_list durations in
       rbind (case video_streams of [] \<Rightarrow> Inr [] | v # _ \<Rightarrow> video_facts env v duration) (\<lambda>vf.
       rbind (case audio_streams of [] \<Rightarrow> Inr [] | a # _ \<Rightarrow> audio_facts a duration) (\<lambda>af.
       Inr ([(''condition_type'', PStr condition_type), (''duration_seconds'', PFloat duration),
             (''has_audio'', PBool (audio_streams \<noteq> []))] @ vf @ af))))))))))))"

definition validate_localized_media ::
  "probe_env \<Rightarrow> string \<Rightarrow> string \<Rightarrow> string option \<Rightarrow> pydict res \<times> string option" where
  "validate_localized_media env path condition_type memo =
     (if condition_type = ''image'' then (validate_image env path, memo)
      else if condition_type \<notin> {''audio'', ''video'', ''video_audio''}
        then (Inl (ValueError ''unsupported MiniMax H3 condition type''), memo)
      else case ffprobe_media (pv_ffprobe env) path memo of
        (Inl _, memo') \<Rightarrow> (Inl (ValueError ''MiniMax H3 media material is invalid''), memo')
      | (Inr payload, memo') \<Rightarrow> (media_facts env condition_type payload, memo'))"

section \<open>Lemmas\<close>

lemma catch_zero_Inr: "catch_zero m = Inr x \<longleftrightarrow>
    m = Inr x \<or> (\<exists>e. m = Inl e \<and> (is_type_or_value_error e \<or> e = ZeroDivisionError) \<and> x = Fin 0)"
  by (auto simp: catch_zero_def split: sum.splits if_splits)

lemma parse_frame_rate_finite: "parse_frame_rate v = Inr r \<Longrightarrow> is_finite r"
proof -
  have f: "is_finite (Fin 0)" by (simp add: is_finite_def)
  assume "parse_frame_rate v = Inr r"
  then show "is_finite r"
    unfolding parse_frame_rate_def rbind_Inr_iff by (auto simp: catch_zero_Inr rbind_Inr_iff f split: if_splits)
qed

lemma py_float_str: "(\<exists>x. py_float (PStr s) = Inr x) \<or> (\<exists>m. py_float (PStr s) = Inl (ValueError m))"
  by (simp split: option.split)

lemma fdiv_cases: "(\<exists>x. fdiv a b = Inr x) \<or> fdiv a b = Inl ZeroDivisionError"
  by (cases "fdiv a b"; cases "(a, b)" rule: fdiv.cases) (auto simp: raise_if_def split: if_splits)

lemma parse_frame_rate_total: "\<exists>r. parse_frame_rate (PStr s) = Inr r"
proof -
  let ?d = "snd (split_once (CHR ''/'') s)" and ?n = "fst (split_once (CHR ''/'') s)"
  have "\<exists>r. catch_zero (rbind m (\<lambda>p. Inr (if is_finite p then p else Fin 0))) = Inr r"
    if "(\<exists>x. m = Inr x) \<or> (\<exists>e. m = Inl e \<and> (is_type_or_value_error e \<or> e = ZeroDivisionError))" for m
    using that by (auto simp: catch_zero_def)
  moreover have "(\<exists>x. m = Inr x) \<or> (\<exists>e. m = Inl e \<and> (is_type_or_value_error e \<or> e = ZeroDivisionError))"
    if "m = py_float (PStr s) \<or> m = rbind (py_float (PStr ?d)) (\<lambda>d.
             if feq d (Fin 0) then Inr (Fin 0) else rbind (py_float (PStr ?n)) (\<lambda>n. fdiv n d))" for m
    using that
  proof
    assume "m = py_float (PStr s)"
    then show ?thesis using py_float_str[of s] by (elim disjE exE) auto
  next
    assume m: "m = rbind (py_float (PStr ?d)) (\<lambda>d.
             if feq d (Fin 0) then Inr (Fin 0) else rbind (py_float (PStr ?n)) (\<lambda>n. fdiv n d))"
    show ?thesis
    proof (cases "py_float (PStr ?d)")
      case (Inl e)
      then show ?thesis using py_float_str[of ?d] m by auto
    next
      case (Inr d)
      show ?thesis
      proof (cases "py_float (PStr ?n)")
        case (Inl e)
        then show ?thesis using py_float_str[of ?n] m Inr by auto
      next
        case (Inr n)
        then show ?thesis using fdiv_cases[of n d] m \<open>py_float (PStr ?d) = Inr d\<close> by (auto simp del: py_float.simps)
      qed
    qed
  qed
  ultimately show ?thesis
    by (auto simp: parse_frame_rate_def in_blank_def has_sep_def float_of_text_def split_beta simp del: py_float.simps)
qed

text \<open>ffprobe: a result comes from a variant that ran successfully, which is then the only one used.\<close>

lemma ffprobe_loop_Inr:
  "ffprobe_loop run path vs memo = (Inr d, m') \<Longrightarrow> \<exists>e \<in> set vs. run e path = ProbeOutput (Inr d) \<and> m' = Some e"
  by (induction vs) (auto split: probe_run.splits if_splits)

lemma ffprobe_media_Inr:
  assumes "ffprobe_media run path memo = (Inr d, m')"
  obtains e where "run e path = ProbeOutput (Inr d)" "m' = Some e" "memo = None \<or> memo = Some e"
    "memo = None \<Longrightarrow> e \<in> set FFPROBE_ENTRY_VARIANTS"
  using ffprobe_loop_Inr[OF assms[unfolded ffprobe_media_def]] by (cases memo) auto

text \<open>Rotations.\<close>

lemma quarter_turn_rotation:
  assumes "k \<in> {-4, -3, -2, -1, 0, 1, 2, 3, 4}"
  shows "first_rotation [PInt (90 * k)] = Inr (Fin (of_int (90 * (k mod 4))))"
  using assms by (elim insertE emptyE; hypsubst; code_simp)

lemma rotated_size_quarter:
  assumes "j \<in> {0, 1, 2, 3}"
  shows "rotated_size trig w h (Fin (of_int (90 * j))) = Inr (if even j then (w, h) else (h, w))"
proof -
  have "fdiv (Fin (of_int (90 * j))) (Fin 90) = Inr (Fin (of_int j))" "py_round (Fin (of_int j)) = Inr j"
    "float_of_int j = Inr (Fin (of_int j))"
    "fle (fsub (Fin (of_int (90 * j))) (fmul (Fin (of_int j)) (Fin 90))) (fl (1 / 10 ^ 6))"
    "fle (fneg (fl (1 / 10 ^ 6))) (fsub (Fin (of_int (90 * j))) (fmul (Fin (of_int j)) (Fin 90)))"
    using assms by (elim insertE emptyE; hypsubst; code_simp)+
  then show ?thesis
    unfolding rotated_size_def Let_def by (auto simp del: py_round.simps fdiv.simps fmul.simps simp: even_iff_mod_2_eq_zero)
qed

lemma display_geometry_quarter:
  assumes k: "k \<in> {-4, -3, -2, -1, 0, 1, 2, 3, 4}"
    and rot: "rotation_values s = [PInt (90 * k)]" and g: "physical_size s = Inr (w, h, sar)"
  shows "display_geometry trig s = Inr (if even k then (w, h, sar, Fin (of_int (90 * (k mod 4))))
     else (h, w, sar, Fin (of_int (90 * (k mod 4)))))"
proof -
  have "k mod 4 \<in> {0, 1, 2, 3}" by auto
  note r = rotated_size_quarter[OF this, of trig w h]
  have "even (k mod 4) = even k" by presburger
  then show ?thesis
    using r unfolding display_geometry_def stream_rotation_degrees_def rot quarter_turn_rotation[OF k] g by auto
qed

text \<open>What a successful probe guarantees.\<close>

lemma py_max_list_in: "xs \<noteq> [] \<Longrightarrow> py_max_list xs \<in> set xs"
  by (induction xs rule: py_max_list.induct) (auto split: if_splits)

lemma duration_fold_positive:
  assumes "rfold duration_step vs ds = Inr ds'" and "\<forall>d \<in> set ds. is_finite d \<and> flt (Fin 0) d"
  shows "\<forall>d \<in> set ds'. is_finite d \<and> flt (Fin 0) d"
  using assms by (rule rfold_invariant)
    (auto simp: duration_step_def rbind_Inr_iff split: sum.splits if_splits)

lemma estimated_frames_pos: "estimated_frames d f = Inr n \<Longrightarrow> 1 \<le> n"
  by (auto simp: estimated_frames_def rbind_Inr_iff)

lemma video_frame_count_pos: "video_frame_count s d f = Inr n \<Longrightarrow> 1 \<le> n"
  by (auto simp: video_frame_count_def rbind_Inr_iff dest: estimated_frames_pos split: if_splits)

lemma check_video_streamD:
  assumes "check_video_stream s = Inr u"
  obtains w h fps where "int_or_zero (dget s ''width'') = Inr w" "int_or_zero (dget s ''height'') = Inr h" "0 < w" "0 < h"
    "stream_fps_or s = Inr fps" "\<not> fle fps (Fin 0)"
  using assms by (auto simp: check_video_stream_def res_simps)

lemma check_audio_streamD:
  assumes "check_audio_stream s = Inr u"
  obtains r c where "int_or_zero (dget s ''sample_rate'') = Inr r" "int_or_zero (dget s ''channels'') = Inr c" "0 < r" "0 < c"
  using assms by (auto simp: check_audio_stream_def res_simps)

lemma video_facts_ok:
  assumes chk: "check_video_stream s = Inr u" and f: "video_facts env s d = Inr vf"
  obtains w h fps n where "dget vf ''coded_width'' = PInt w" "dget vf ''coded_height'' = PInt h" "0 < w" "0 < h"
    "dget vf ''fps'' = PFloat fps" "is_finite fps" "flt (Fin 0) fps" "dget vf ''frame_count'' = PInt n" "1 \<le> n"
proof -
  obtain w h fps where c: "int_or_zero (dget s ''width'') = Inr w" "int_or_zero (dget s ''height'') = Inr h" "0 < w" "0 < h"
    "stream_fps_or s = Inr fps" "\<not> fle fps (Fin 0)"
    by (rule check_video_streamD[OF chk])
  obtain a where a: "parse_frame_rate (dget s ''avg_frame_rate'') = Inr a"
    and fps: "(if feq a (Fin 0) then parse_frame_rate (dget s ''r_frame_rate'') else Inr a) = Inr fps"
    using c(5) by (auto simp: stream_fps_or_def rbind_Inr_iff)
  have "is_finite a" "is_finite fps" using parse_frame_rate_finite a fps by (auto split: if_splits)
  then obtain x y where xy: "a = Fin x" "fps = Fin y" by (auto simp: is_finite_def split: pyfloat.splits)
  have "0 < y" using c(6) xy by (auto simp: fle_def)
  moreover have "(if fle a (Fin 0) then parse_frame_rate (dget s ''r_frame_rate'') else Inr a) = Inr fps"
    using fps xy \<open>0 < y\<close> by (auto simp: fle_def split: if_splits)
  ultimately show ?thesis
    using f a c(1-4) xy that video_frame_count_pos
    by (auto simp: video_facts_def rbind_Inr_iff dget_def is_finite_def)
qed

lemma dget_append_left: "dget d k \<noteq> PNone \<Longrightarrow> dget (d @ e) k = dget d k"
  by (auto simp: dget_def dget_or_def map_add_def split: option.splits)

lemma dget_append_right: "k \<notin> set (map fst d) \<Longrightarrow> dget (d @ e) k = dget e k"
proof -
  assume "k \<notin> set (map fst d)"
  then have "map_of d k = None" by (simp add: map_of_eq_None_iff)
  then show ?thesis by (simp add: dget_def dget_or_def map_add_def split: option.split)
qed

text \<open>What an accepted container promises about the facts handed to admission.\<close>

lemma video_facts_keys: "video_facts env s d = Inr vf \<Longrightarrow> ''audio_sample_rate'' \<notin> set (map fst vf) \<and> ''audio_channels'' \<notin> set (map fst vf)"
  by (auto simp: video_facts_def rbind_Inr_iff)

lemma media_facts_Inr:
  assumes "media_facts env ct payload = Inr facts"
  obtains vs as durations vf af where "ct \<in> {''video'', ''video_audio''} \<longrightarrow> vs \<noteq> []" "ct \<in> {''audio'', ''video_audio''} \<longrightarrow> as \<noteq> []"
    "\<exists>us. rmap check_video_stream vs = Inr us" "\<exists>us. rmap check_audio_stream as = Inr us"
    "durations \<noteq> []" "\<forall>d \<in> set durations. is_finite d \<and> flt (Fin 0) d"
    "(case vs of [] \<Rightarrow> Inr [] | v # _ \<Rightarrow> video_facts env v (py_max_list durations)) = Inr vf"
    "(case as of [] \<Rightarrow> Inr [] | a # _ \<Rightarrow> audio_facts a (py_max_list durations)) = Inr af"
    "facts = [(''condition_type'', PStr ct), (''duration_seconds'', PFloat (py_max_list durations)),
             (''has_audio'', PBool (as \<noteq> []))] @ vf @ af"
proof -
  obtain streams fmt where s: "payload_streams payload = Inr streams" "payload_format payload = Inr fmt"
    using assms unfolding media_facts_def by (auto simp: rbind_Inr_iff)
  let ?vs = "streams_of ''video'' streams" and ?as = "streams_of ''audio'' streams"
  obtain durations where d: "rfold duration_step (dget fmt ''duration'' # map (\<lambda>s. dget s ''duration'') streams) [] = Inr durations"
    using assms unfolding media_facts_def s rbind.simps Let_def raise_if_Inr_iff by (auto simp only: rbind_Inr_iff)
  have "\<forall>d \<in> set durations. is_finite d \<and> flt (Fin 0) d" using duration_fold_positive[OF d] by simp
  then show thesis using assms that[of ?vs ?as durations] unfolding media_facts_def s rbind.simps Let_def raise_if_Inr_iff rbind_Inr_iff d
    by fastforce
qed

lemma video_facts_positive:
  assumes "check_video_stream s = Inr u" and "video_facts env s d = Inr vf"
  shows "\<exists>w h fps n. dget (vf @ af) ''coded_width'' = PInt w \<and> dget (vf @ af) ''coded_height'' = PInt h \<and> 0 < w \<and> 0 < h \<and>
     dget (vf @ af) ''fps'' = PFloat fps \<and> is_finite fps \<and> flt (Fin 0) fps \<and> dget (vf @ af) ''frame_count'' = PInt n \<and> 1 \<le> n"
proof -
  obtain w h fps n where "dget vf ''coded_width'' = PInt w" "dget vf ''coded_height'' = PInt h" "0 < w" "0 < h"
    "dget vf ''fps'' = PFloat fps" "is_finite fps" "flt (Fin 0) fps" "dget vf ''frame_count'' = PInt n" "1 \<le> n"
    by (rule video_facts_ok[OF assms])
  then show ?thesis by (simp add: dget_append_left)
qed

lemma audio_facts_positive:
  assumes "check_audio_stream s = Inr u" and "audio_facts s d = Inr af"
  shows "\<exists>r c. dget af ''audio_sample_rate'' = PInt r \<and> dget af ''audio_channels'' = PInt c \<and> 0 < r \<and> 0 < c"
proof -
  obtain r c where "int_or_zero (dget s ''sample_rate'') = Inr r" "int_or_zero (dget s ''channels'') = Inr c" "0 < r" "0 < c"
    by (rule check_audio_streamD[OF assms(1)])
  then show ?thesis using assms(2) by (auto simp: audio_facts_def rbind_Inr_iff dget_def)
qed

lemma media_facts_positive:
  assumes "media_facts env ct payload = Inr facts"
  shows "\<exists>d. dget facts ''duration_seconds'' = PFloat d \<and> is_finite d \<and> flt (Fin 0) d"
    and "ct \<in> {''video'', ''video_audio''} \<Longrightarrow> \<exists>w h fps n. dget facts ''coded_width'' = PInt w \<and> dget facts ''coded_height'' = PInt h \<and>
       0 < w \<and> 0 < h \<and> dget facts ''fps'' = PFloat fps \<and> is_finite fps \<and> flt (Fin 0) fps \<and>
       dget facts ''frame_count'' = PInt n \<and> 1 \<le> n"
    and "ct \<in> {''audio'', ''video_audio''} \<Longrightarrow>
       \<exists>r c. dget facts ''audio_sample_rate'' = PInt r \<and> dget facts ''audio_channels'' = PInt c \<and> 0 < r \<and> 0 < c"
proof -
  obtain vs as durations vf af where v: "ct \<in> {''video'', ''video_audio''} \<longrightarrow> vs \<noteq> []" and a: "ct \<in> {''audio'', ''video_audio''} \<longrightarrow> as \<noteq> []"
    and cv: "\<exists>us. rmap check_video_stream vs = Inr us" and ca: "\<exists>us. rmap check_audio_stream as = Inr us"
    and d: "durations \<noteq> []" "\<forall>d \<in> set durations. is_finite d \<and> flt (Fin 0) d"
    and vf: "(case vs of [] \<Rightarrow> Inr [] | v # _ \<Rightarrow> video_facts env v (py_max_list durations)) = Inr vf"
    and af: "(case as of [] \<Rightarrow> Inr [] | a # _ \<Rightarrow> audio_facts a (py_max_list durations)) = Inr af"
    and f: "facts = [(''condition_type'', PStr ct), (''duration_seconds'', PFloat (py_max_list durations)),
             (''has_audio'', PBool (as \<noteq> []))] @ vf @ af"
    by (rule media_facts_Inr[OF assms])
  have g: "dget facts k = dget (vf @ af) k" if "k \<notin> {''condition_type'', ''duration_seconds'', ''has_audio''}" for k
    using that by (simp add: f dget_def)
  show "\<exists>d. dget facts ''duration_seconds'' = PFloat d \<and> is_finite d \<and> flt (Fin 0) d"
    using d py_max_list_in[OF d(1)] by (simp add: f dget_def)
  { assume "ct \<in> {''video'', ''video_audio''}"
    then obtain s vs' where "vs = s # vs'" using v by (cases vs) auto
    then obtain u where "check_video_stream s = Inr u" "video_facts env s (py_max_list durations) = Inr vf" using cv vf by (auto simp: rbind_Inr_iff)
    from video_facts_positive[OF this, of af] show "\<exists>w h fps n. dget facts ''coded_width'' = PInt w \<and> dget facts ''coded_height'' = PInt h \<and>
       0 < w \<and> 0 < h \<and> dget facts ''fps'' = PFloat fps \<and> is_finite fps \<and> flt (Fin 0) fps \<and>
       dget facts ''frame_count'' = PInt n \<and> 1 \<le> n" by (simp add: g) }
  { assume "ct \<in> {''audio'', ''video_audio''}"
    then obtain s as' where "as = s # as'" using a by (cases as) auto
    then obtain u where c: "check_audio_stream s = Inr u" "audio_facts s (py_max_list durations) = Inr af" using ca af by (auto simp: rbind_Inr_iff)
    have "''audio_sample_rate'' \<notin> set (map fst vf) \<and> ''audio_channels'' \<notin> set (map fst vf)"
      using vf video_facts_keys by (cases vs) auto
    then show "\<exists>r c. dget facts ''audio_sample_rate'' = PInt r \<and> dget facts ''audio_channels'' = PInt c \<and> 0 < r \<and> 0 < c"
      using audio_facts_positive[OF c] by (simp add: g dget_append_right) }
qed

lemma ffprobe_loop_memo:
  "fst (ffprobe_loop run path vs memo) = Inl e \<Longrightarrow> snd (ffprobe_loop run path vs memo) = memo \<or>
     (\<exists>x \<in> set vs. snd (ffprobe_loop run path vs memo) = Some x \<and> run x path = ProbeOutput (Inl e))"
  by (induction vs) (auto split: probe_run.splits if_splits)

end
