(* ===== verification/Json.thy ===== *)
theory Json
  imports Py_Value
begin

text \<open>
  \<^verbatim>\<open>json.loads\<close> on a text, as the video adapter uses it for request fields and for the output of ffprobe: the
  standard library's grammar with its extensions (\<^verbatim>\<open>NaN\<close>, \<^verbatim>\<open>Infinity\<close>), a repeated key keeping its first position
  and its last value. \<open>None\<close> stands for the decode error. Strings are the bytes of their UTF-8 encoding, so an escape
  decodes to the bytes of its character; a lone surrogate keeps its three-byte form. The scanner runs on fuel; the last section shows that the fuel \<open>json_loads\<close> gives it always suffices.
\<close>

section \<open>Tokens\<close>

definition json_space :: "char \<Rightarrow> bool" where
  "json_space c = (of_char c \<in> ({9, 10, 13, 32} :: nat set))"

definition skip_space :: "string \<Rightarrow> string" where
  "skip_space s = dropWhile json_space s"

definition hex_val :: "char \<Rightarrow> nat option" where
  "hex_val c = (let n = of_char c :: nat in
     if 48 \<le> n \<and> n \<le> 57 then Some (n - 48) else if 65 \<le> n \<and> n \<le> 70 then Some (n - 55)
     else if 97 \<le> n \<and> n \<le> 102 then Some (n - 87) else None)"

definition hex4 :: "char \<Rightarrow> char \<Rightarrow> char \<Rightarrow> char \<Rightarrow> nat option" where
  "hex4 a b c d = (case (hex_val a, hex_val b, hex_val c, hex_val d) of
      (Some w, Some x, Some y, Some z) \<Rightarrow> Some (((w * 16 + x) * 16 + y) * 16 + z) | _ \<Rightarrow> None)"

definition SIMPLE_ESCAPES :: "(char \<times> char) list" where
  "SIMPLE_ESCAPES = [(CHR 0x22, CHR 0x22), (CHR 0x5C, CHR 0x5C), (CHR ''/'', CHR ''/''), (CHR ''b'', CHR 0x08),
     (CHR ''f'', CHR 0x0C), (CHR ''n'', CHR 0x0A), (CHR ''r'', CHR 0x0D), (CHR ''t'', CHR 0x09)]"

definition utf8_char :: "nat \<Rightarrow> string" where
  "utf8_char n = map char_of
     (if n < 0x80 then [n]
      else if n < 0x800 then [0xC0 + n div 64, 0x80 + n mod 64]
      else if n < 0x10000 then [0xE0 + n div 4096, 0x80 + n div 64 mod 64, 0x80 + n mod 64]
      else [0xF0 + n div 262144, 0x80 + n div 4096 mod 64, 0x80 + n div 64 mod 64, 0x80 + n mod 64])"

text \<open>Four hexadecimal digits, and the second half of a surrogate pair when it follows.\<close>

definition json_hex :: "string \<Rightarrow> (nat \<times> string) option" where
  "json_hex s = (case s of a # b # c # d # rest \<Rightarrow> map_option (\<lambda>n. (n, rest)) (hex4 a b c d) | _ \<Rightarrow> None)"

definition low_surrogate :: "string \<Rightarrow> (nat \<times> string) option" where
  "low_surrogate s = (case s of
      b # u # ds \<Rightarrow> if b = CHR 0x5C \<and> u = CHR ''u'' then
          (case json_hex ds of
             Some (n, rest) \<Rightarrow> if 0xDC00 \<le> n \<and> n \<le> 0xDFFF then Some (n, rest) else None
           | None \<Rightarrow> None)
        else None
    | _ \<Rightarrow> None)"

text \<open>What follows a backslash.\<close>

fun json_escape :: "string \<Rightarrow> (string \<times> string) option" where
  "json_escape [] = None"
| "json_escape (e # ds) =
     (if e = CHR ''u'' then
        (case json_hex ds of
           None \<Rightarrow> None
         | Some (n, rest) \<Rightarrow>
             if 0xD800 \<le> n \<and> n \<le> 0xDBFF then
               (case low_surrogate rest of
                  Some (m, rest') \<Rightarrow> Some (utf8_char (0x10000 + (n - 0xD800) * 1024 + (m - 0xDC00)), rest')
                | None \<Rightarrow> Some (utf8_char n, rest))
             else Some (utf8_char n, rest))
      else map_option (\<lambda>x. ([x], ds)) (map_of SIMPLE_ESCAPES e))"

lemma json_hex_shorter: "json_hex s = Some (n, r) \<Longrightarrow> length r < length s"
  by (auto simp: json_hex_def split: list.splits)

lemma low_surrogate_shorter: "low_surrogate s = Some (n, r) \<Longrightarrow> length r < length s"
  by (auto simp: low_surrogate_def split: list.splits if_splits option.splits dest!: json_hex_shorter)

lemma json_escape_shorter: "json_escape cs = Some (x, r) \<Longrightarrow> length r < length cs"
  by (cases cs) (auto split: if_splits option.splits dest!: json_hex_shorter low_surrogate_shorter)

text \<open>The rest of a string after its opening quote; raw control characters are refused.\<close>

function json_string :: "string \<Rightarrow> (string \<times> string) option" where
  "json_string s = (case s of
      [] \<Rightarrow> None
    | c # cs \<Rightarrow>
        if c = CHR 0x22 then Some ([], cs)
        else if (of_char c :: nat) < 32 then None
        else if c = CHR 0x5C then
          (case json_escape cs of
             None \<Rightarrow> None
           | Some (x, r) \<Rightarrow> map_option (\<lambda>(t, r'). (x @ t, r')) (json_string r))
        else map_option (\<lambda>(t, r'). (c # t, r')) (json_string cs))"
  by pat_completeness auto
termination
  by (relation "measure length") (auto dest: json_escape_shorter)

declare json_string.simps [simp del]

definition json_int_part :: "string \<Rightarrow> string option" where
  "json_int_part s = (case takeWhile is_digit s of
      [] \<Rightarrow> None
    | d # ds \<Rightarrow> Some (if d = CHR ''0'' then [d] else d # ds))"

definition json_fraction :: "string \<Rightarrow> string" where
  "json_fraction s = (case s of
      c # cs \<Rightarrow> if c = CHR ''.'' \<and> takeWhile is_digit cs \<noteq> [] then c # takeWhile is_digit cs else []
    | [] \<Rightarrow> [])"

definition json_exponent :: "string \<Rightarrow> string" where
  "json_exponent s = (case s of
      c # cs \<Rightarrow>
        (let sign = (case cs of d # _ \<Rightarrow> if d = CHR ''-'' \<or> d = CHR ''+'' then [d] else [] | [] \<Rightarrow> []);
             ds = takeWhile is_digit (drop (length sign) cs)
         in if (c = CHR ''e'' \<or> c = CHR ''E'') \<and> ds \<noteq> [] then c # sign @ ds else [])
    | [] \<Rightarrow> [])"

definition json_number :: "string \<Rightarrow> (pyval \<times> string) option" where
  "json_number s =
     (let sign = (case s of c # _ \<Rightarrow> if c = CHR ''-'' then [c] else [] | [] \<Rightarrow> []);
          s1 = drop (length sign) s
      in case json_int_part s1 of
           None \<Rightarrow> None
         | Some ip \<Rightarrow>
             (let s2 = drop (length ip) s1; fp = json_fraction s2; s3 = drop (length fp) s2;
                  ep = json_exponent s3; rest = drop (length ep) s3
              in if fp = [] \<and> ep = [] then map_option (\<lambda>n. (PInt n, rest)) (parse_int (sign @ ip))
                 else map_option (\<lambda>x. (PFloat x, rest)) (parse_float (sign @ ip @ fp @ ep))))"

definition JSON_LITERALS :: "(string \<times> pyval) list" where
  "JSON_LITERALS = [(''null'', PNone), (''true'', PBool True), (''false'', PBool False), (''NaN'', PFloat NaN),
     (''Infinity'', PFloat PInf), (''-Infinity'', PFloat MInf)]"

definition json_scalar :: "string \<Rightarrow> (pyval \<times> string) option" where
  "json_scalar s = (case filter (\<lambda>(w, v). take (length w) s = w) JSON_LITERALS of
      (w, v) # _ \<Rightarrow> Some (v, drop (length w) s)
    | [] \<Rightarrow> json_number s)"

section \<open>Values\<close>

fun jvalue :: "nat \<Rightarrow> string \<Rightarrow> (pyval \<times> string) option"
and jitems :: "nat \<Rightarrow> string \<Rightarrow> (pyval list \<times> string) option"
and jmembers :: "nat \<Rightarrow> pydict \<Rightarrow> string \<Rightarrow> (pydict \<times> string) option" where
  "jvalue 0 s = None"
| "jvalue (Suc n) s = (case s of
      [] \<Rightarrow> None
    | c # cs \<Rightarrow>
        if c = CHR 0x22 then map_option (\<lambda>(t, r). (PStr t, r)) (json_string cs)
        else if c = CHR ''{'' then
          (case skip_space cs of
             [] \<Rightarrow> None
           | d # r \<Rightarrow> if d = CHR ''}'' then Some (PDict [], r)
                       else map_option (\<lambda>(m, r). (PDict m, r)) (jmembers n [] (d # r)))
        else if c = CHR ''['' then
          (case skip_space cs of
             [] \<Rightarrow> None
           | d # r \<Rightarrow> if d = CHR '']'' then Some (PList [], r)
                       else map_option (\<lambda>(l, r). (PList l, r)) (jitems n (d # r)))
        else json_scalar s)"
| "jitems 0 s = None"
| "jitems (Suc n) s = (case jvalue n s of
      None \<Rightarrow> None
    | Some (v, r) \<Rightarrow> (case skip_space r of
        [] \<Rightarrow> None
      | c # cs \<Rightarrow>
          if c = CHR '']'' then Some ([v], cs)
          else if c = CHR '','' then map_option (\<lambda>(l, r). (v # l, r)) (jitems n (skip_space cs))
          else None))"
| "jmembers 0 acc s = None"
| "jmembers (Suc n) acc s = (case s of
      [] \<Rightarrow> None
    | q # qs \<Rightarrow> if q \<noteq> CHR 0x22 then None else (case json_string qs of
        None \<Rightarrow> None
      | Some (k, r) \<Rightarrow> (case skip_space r of
          [] \<Rightarrow> None
        | c # cs \<Rightarrow> if c \<noteq> CHR '':'' then None else (case jvalue n (skip_space cs) of
            None \<Rightarrow> None
          | Some (v, r) \<Rightarrow> (case skip_space r of
              [] \<Rightarrow> None
            | c # cs \<Rightarrow>
                if c = CHR ''}'' then Some (dset k v acc, cs)
                else if c = CHR '','' then jmembers n (dset k v acc) (skip_space cs)
                else None)))))"

definition json_loads :: "string \<Rightarrow> pyval option" where
  "json_loads s = (case jvalue (2 * length s + 1) (skip_space s) of
      None \<Rightarrow> None
    | Some (v, r) \<Rightarrow> if skip_space r = [] then Some v else None)"

section \<open>The fuel suffices\<close>

lemma skip_space_length: "length (skip_space s) \<le> length s"
  by (simp add: skip_space_def length_dropWhile_le)

lemma json_string_shorter: "json_string s = Some (t, r) \<Longrightarrow> length r < length s"
proof (induction "length s" arbitrary: s t r rule: less_induct)
  case less
  show ?case
  proof (cases s)
    case (Cons c cs)
    have esc: "length r < length s" if "json_escape cs = Some (x, b)" "json_string b = Some (t', r)" for x b t'
      using less.hyps[OF _ that(2)] json_escape_shorter[OF that(1)] Cons by simp
    have step: "length r < length s" if "json_string cs = Some (t', r)" for t'
      using less.hyps[OF _ that] Cons by simp
    show ?thesis using less.prems esc step unfolding json_string.simps[of s]
      by (auto simp: Cons split: if_splits option.splits)
  qed (use less.prems in \<open>simp add: json_string.simps\<close>)
qed

lemma json_number_shorter: "json_number s = Some (v, r) \<Longrightarrow> length r < length s"
proof -
  assume a: "json_number s = Some (v, r)"
  define sign where "sign = (case s of c # _ \<Rightarrow> if c = CHR ''-'' then [c] else [] | [] \<Rightarrow> [])"
  obtain ip where ip: "json_int_part (drop (length sign) s) = Some ip"
    and r: "length r \<le> length (drop (length ip) (drop (length sign) s))"
    using a unfolding json_number_def sign_def[symmetric]
    by (auto simp: Let_def split: option.splits if_splits)
  have "takeWhile is_digit (drop (length sign) s) \<noteq> []" "ip \<noteq> []"
    using ip by (auto simp: json_int_part_def split: list.splits if_splits)
  then have "0 < length (drop (length sign) s)" "0 < length ip" by (auto simp del: length_drop)
  then show ?thesis using r unfolding length_drop by linarith
qed

lemma json_scalar_shorter: "json_scalar s = Some (v, r) \<Longrightarrow> length r < length s"
proof (cases "filter (\<lambda>(w, v). take (length w) s = w) JSON_LITERALS")
  case Nil
  then show "json_scalar s = Some (v, r) \<Longrightarrow> ?thesis" by (simp add: json_scalar_def json_number_shorter)
next
  case (Cons p ps)
  assume a: "json_scalar s = Some (v, r)"
  obtain w u where p: "p = (w, u)" by (cases p)
  have "p \<in> set (filter (\<lambda>(w, v). take (length w) s = w) JSON_LITERALS)" by (simp add: Cons)
  moreover have "w \<noteq> []" if "(w, u) \<in> set JSON_LITERALS" using that by (auto simp: JSON_LITERALS_def)
  ultimately have w: "take (length w) s = w" "w \<noteq> []" by (simp_all add: p)
  then have "s \<noteq> []" by auto
  then show ?thesis using a w by (auto simp: json_scalar_def Cons p)
qed

text \<open>Every parser consumes at least one character, also through the white space it skips.\<close>

lemma skip_space_Cons: "skip_space s = c # r \<Longrightarrow> length r < length s"
  using skip_space_length[of s] by simp

lemma less_skip_space: "n < length (skip_space s) \<Longrightarrow> n < length s"
  using skip_space_length[of s] by simp

lemma jvalue_shorter: "jvalue n s = Some (v, r) \<Longrightarrow> length r < length s"
  and jitems_shorter: "jitems n s = Some (l, r) \<Longrightarrow> length r < length s"
  and jmembers_shorter: "jmembers n acc s = Some (m, r) \<Longrightarrow> length r < length s"
proof (induction n s and n s and n acc s arbitrary: v r and l r and m r rule: jvalue_jitems_jmembers.induct)
  case (2 n s)
  show ?case
  proof (cases s)
    case (Cons c cs)
    have *: "length r < length s" if "skip_space cs = d # u" "length r < length (d # u)" for d u
      using that skip_space_length[of cs] Cons by simp
    show ?thesis using "2.prems" "2.IH" Cons * json_string_shorter json_scalar_shorter skip_space_Cons
      by (fastforce split: if_splits list.splits option.splits)
  qed (use "2.prems" in simp)
next
  case (4 n s)
  obtain v u where v: "jvalue n s = Some (v, u)" using "4.prems" by (auto split: option.splits)
  have u: "length u < length s" by (rule "4.IH"(1)[OF v])
  obtain c cs where c: "skip_space u = c # cs" using "4.prems" v by (auto split: list.splits)
  have "length cs < length u" by (rule skip_space_Cons[OF c])
  moreover have "length r < length cs" if "jitems n (skip_space cs) = Some (k, r)" "c \<noteq> CHR '']''" "c = CHR '',''" for k
    by (rule less_skip_space[OF "4.IH"(2)[OF v refl c that(2,3,1)]])
  ultimately show ?case using "4.prems" u v c by (auto split: if_splits)
next
  case (6 n acc s)
  obtain qs where s: "s = CHR 0x22 # qs" using "6.prems" by (auto split: list.splits if_splits)
  obtain k u where k: "json_string qs = Some (k, u)" using "6.prems" s by (auto split: option.splits)
  obtain ds where d: "skip_space u = CHR '':'' # ds" using "6.prems" s k by (auto split: list.splits if_splits)
  obtain v w where v: "jvalue n (skip_space ds) = Some (v, w)" using "6.prems" s k d by (auto split: option.splits)
  obtain c cs where c: "skip_space w = c # cs" using "6.prems" s k d v by (auto split: list.splits)
  have len: "length u < length qs" "length ds < length u" "length w < length ds" "length cs < length w"
    using json_string_shorter[OF k] skip_space_Cons[OF d] skip_space_Cons[OF c]
      less_skip_space[OF "6.IH"(1)[OF s _ k refl d _ v]] by simp_all
  have "length r < length cs" if "jmembers n (dset k v acc) (skip_space cs) = Some (m, r)" "c \<noteq> CHR ''}''" "c = CHR '',''"
    by (rule less_skip_space[OF "6.IH"(2)[OF s _ k refl d _ v refl c that(2,3,1)]]) simp_all
  then show ?case using "6.prems" s k d v c len by (auto split: if_splits)
qed simp_all

lemma enough_Suc: "2 * k + 1 \<le> n \<Longrightarrow> \<exists>n'. n = Suc n' \<and> 2 * k \<le> n'"
  by (cases n) auto

text \<open>From the stated amount on, more fuel does not change the answer.\<close>

lemma fuel_enough:
  "(2 * length s + 1 \<le> n \<longrightarrow> 2 * length s + 1 \<le> m \<longrightarrow> jvalue n s = jvalue m s) \<and>
   (2 * length s + 2 \<le> n \<longrightarrow> 2 * length s + 2 \<le> m \<longrightarrow> jitems n s = jitems m s) \<and>
   (2 * length s + 2 \<le> n \<longrightarrow> 2 * length s + 2 \<le> m \<longrightarrow> jmembers n acc s = jmembers m acc s)"
proof (induction "length s" arbitrary: s n m acc rule: less_induct)
  case less
  have IH: "2 * length t + 1 \<le> n \<Longrightarrow> 2 * length t + 1 \<le> m \<Longrightarrow> jvalue n t = jvalue m t"
    "2 * length t + 2 \<le> n \<Longrightarrow> 2 * length t + 2 \<le> m \<Longrightarrow> jitems n t = jitems m t"
    "2 * length t + 2 \<le> n \<Longrightarrow> 2 * length t + 2 \<le> m \<Longrightarrow> jmembers n acc t = jmembers m acc t"
    if "length t < length s" for t n m acc
    using less[OF that] by blast+
  have V: "jvalue n s = jvalue m s" if n: "2 * length s + 1 \<le> n" "2 * length s + 1 \<le> m" for n m
  proof -
    obtain n' m' where nm: "n = Suc n'" "m = Suc m'" "2 * length s \<le> n'" "2 * length s \<le> m'" using enough_Suc n by metis
    have "jitems n' t = jitems m' t \<and> jmembers n' a t = jmembers m' a t" if "s = c # cs" "skip_space cs = t" for t a c cs
    proof -
      have l: "length t < length s" using that skip_space_length[of cs] by auto
      then have "2 * length t + 2 \<le> n'" "2 * length t + 2 \<le> m'" using nm(3,4) by linarith+
      then show ?thesis using IH(2,3)[OF l] by blast
    qed
    then show ?thesis by (auto simp: nm(1,2) split: list.splits)
  qed
  have I: "jitems n s = jitems m s" if n: "2 * length s + 2 \<le> n" "2 * length s + 2 \<le> m" for n m
  proof -
    obtain n' m' where nm: "n = Suc n'" "m = Suc m'" "2 * length s + 1 \<le> n'" "2 * length s + 1 \<le> m'"
      using n by (cases n; cases m) auto
    have "jitems n' (skip_space cs) = jitems m' (skip_space cs)" if "jvalue m' s = Some (v, r)" "skip_space r = c # cs" for v r c cs
    proof -
      have l: "length (skip_space cs) < length s"
        using jvalue_shorter[OF that(1)] skip_space_Cons[OF that(2)] skip_space_length[of cs] by linarith
      then show ?thesis using IH(2)[OF l] nm(3,4) by simp
    qed
    then show ?thesis using V[OF nm(3,4)] by (auto simp: nm(1,2) split: option.splits list.splits)
  qed
  have "jmembers n acc s = jmembers m acc s" if n: "2 * length s + 2 \<le> n" "2 * length s + 2 \<le> m" for n m
  proof -
    obtain n' m' where nm: "n = Suc n'" "m = Suc m'" "2 * length s + 1 \<le> n'" "2 * length s + 1 \<le> m'"
      using n by (cases n; cases m) auto
    have A: "jvalue n' (skip_space cs) = jvalue m' (skip_space cs)" "length (skip_space cs) < length s"
      if "s = q # qs" "json_string qs = Some (k, r)" "skip_space r = c # cs" for q qs k r c cs
    proof -
      show l: "length (skip_space cs) < length s"
        using json_string_shorter[OF that(2)] skip_space_Cons[OF that(3)] skip_space_length[of cs] that(1) by simp
      then show "jvalue n' (skip_space cs) = jvalue m' (skip_space cs)" using IH(1)[OF l] nm(3,4) by simp
    qed
    have B: "jmembers n' a (skip_space es) = jmembers m' a (skip_space es)"
      if "length (skip_space cs) < length s" "jvalue m' (skip_space cs) = Some (v, r)" "skip_space r = d # es" for cs v r d es a
    proof -
      have l: "length (skip_space es) < length s"
        using jvalue_shorter[OF that(2)] skip_space_Cons[OF that(3)] skip_space_length[of es] that(1) by linarith
      then show ?thesis using IH(3)[OF l] nm(3,4) by simp
    qed
    show ?thesis using A(1) unfolding nm(1,2)
      by (simp split: option.splits list.splits) (intro allI impI, rule B, rule A(2), assumption+)
  qed
  then show ?case using V I by blast
qed

text \<open>\<open>json_loads\<close> gives the answer of every larger amount of fuel: it never fails for lack of it.\<close>

lemma json_loads_fuel:
  "2 * length s + 1 \<le> n \<Longrightarrow>
     json_loads s = (case jvalue n (skip_space s) of None \<Rightarrow> None | Some (v, r) \<Rightarrow> if skip_space r = [] then Some v else None)"
  using fuel_enough[of "skip_space s" "2 * length s + 1" n] skip_space_length[of s] by (simp add: json_loads_def)

end
