(* ===== verification/Material_Store.thy ===== *)
theory Material_Store
  imports State_Result Material_Decode Material_Probe Json
begin

text \<open>
  The stateful part of \<^verbatim>\<open>minimax_h3/material_io.py\<close>: the registry of request-owned directories, the probe cache,
  the readers that materialise a URI in the request's work directory, and \<^verbatim>\<open>minimax_h3_localize_material_uri\<close>.
  The file system is a map from path strings to files and directories; strings are the bytes of their UTF-8
  encoding. The three entries of \<^verbatim>\<open>batch.extra\<close> the module keeps are optional dictionaries, and every function
  returns the state it leaves behind, also when it raises. Symbolic links, permissions and a full disk are not
  modelled. The network, \<^verbatim>\<open>tempfile.mkdtemp\<close>, and home directories are parameters.
\<close>

section \<open>State and environment\<close>

datatype fnode = Dir | File "nat list"

type_synonym fs = "string \<Rightarrow> fnode option"

record material_state =
  ms_fs :: fs
  ms_registry :: "(string \<times> string list) list option"
  ms_cache :: "(string \<times> string) list option"
  ms_probe :: "((string \<times> string) \<times> pydict) list option"
  ms_memo :: "string option"

text \<open>One result of \<^verbatim>\<open>response.read\<close>, and the header object of a response.\<close>

datatype http_chunk = Bytes "nat list" | NotBytes string | ReadError py_error

datatype http_headers = NoHeaders | MessageHeaders string | DictHeaders pydict

record http_response =
  hr_headers :: http_headers
  hr_reads :: "http_chunk list"

record io_env =
  io_mkdtemp :: "fs \<Rightarrow> string res"
  io_expanduser :: "string \<Rightarrow> string res"
  io_urlopen :: "string \<Rightarrow> http_response res"
  io_probe :: "fs \<Rightarrow> probe_env"

definition is_file :: "fs \<Rightarrow> string \<Rightarrow> bool" where
  "is_file fs p = (case fs p of Some (File _) \<Rightarrow> True | _ \<Rightarrow> False)"

definition file_bytes :: "fs \<Rightarrow> string \<Rightarrow> nat list" where
  "file_bytes fs p = (case fs p of Some (File b) \<Rightarrow> b | _ \<Rightarrow> [])"

text \<open>\<^verbatim>\<open>Path.unlink(missing_ok=True)\<close> of a file, and \<^verbatim>\<open>shutil.rmtree(path, ignore_errors=True)\<close>.\<close>

definition unlink :: "string \<Rightarrow> fs \<Rightarrow> fs" where
  "unlink p fs = (if is_file fs p then fs(p := None) else fs)"

definition path_under :: "string \<Rightarrow> string \<Rightarrow> bool" where
  "path_under d q \<longleftrightarrow> q = d \<or> starts_with q (d @ ''/'')"

definition rmtree :: "string \<Rightarrow> fs \<Rightarrow> fs" where
  "rmtree d fs = (if fs d = Some Dir then (\<lambda>q. if path_under d q then None else fs q) else fs)"

section \<open>Request-owned directories\<close>

definition set_default :: "'a option \<Rightarrow> 'a \<Rightarrow> 'a" where
  "set_default v d = (case v of None \<Rightarrow> d | Some x \<Rightarrow> x)"

definition minimax_h3_register_temp_dir :: "string \<Rightarrow> string \<Rightarrow> (material_state, string) act" where
  "minimax_h3_register_temp_dir path owner s =
     (let registry = set_default (ms_registry s) [];
          paths = dget_or registry owner [];
          paths = (if path \<in> set paths then paths else paths @ [path])
      in (Inr path, s\<lparr>ms_registry := Some (dset owner paths registry)\<rparr>))"

definition pop_owner :: "string \<Rightarrow> (string \<times> string list) list \<times> fs \<Rightarrow> (string \<times> string list) list \<times> fs" where
  "pop_owner owner st = (case st of (registry, fs) \<Rightarrow>
     (dpop owner registry, fold rmtree (dget_or registry owner []) fs))"

definition minimax_h3_cleanup_temp_dirs :: "string list option \<Rightarrow> material_state \<Rightarrow> material_state" where
  "minimax_h3_cleanup_temp_dirs owners s =
     (let selected = (case (owners, ms_registry s) of
            (None, Some registry) \<Rightarrow> map fst registry | (None, None) \<Rightarrow> [] | (Some os, _) \<Rightarrow> os);
          s = (case ms_registry s of None \<Rightarrow> s
               | Some registry \<Rightarrow> (case fold pop_owner selected (registry, ms_fs s) of (registry', fs') \<Rightarrow>
                   s\<lparr>ms_fs := fs', ms_registry := (if registry' = [] then None else Some registry')\<rparr>))
      in if owners = None \<or> ''material'' \<in> set selected then s\<lparr>ms_cache := None, ms_probe := None\<rparr> else s)"

section \<open>Paths and URIs\<close>

text \<open>\<^verbatim>\<open>str(PurePosixPath(s))\<close>: empty and \<^verbatim>\<open>.\<close> components vanish; exactly two leading slashes are kept.\<close>

definition path_str :: "string \<Rightarrow> string" where
  "path_str s =
     (let root = (if starts_with s ''//'' \<and> \<not> starts_with s ''///'' then ''//'' else if starts_with s ''/'' then ''/'' else []);
          parts = filter (\<lambda>c. c \<noteq> [] \<and> c \<noteq> ''.'') (split_on (CHR ''/'') s);
          body = concat (map (\<lambda>(i, c). if i = 0 then c else CHR ''/'' # c) (enumerate 0 parts))
      in if root = [] \<and> parts = [] then ''.'' else root @ body)"

definition last_component :: "string \<Rightarrow> string" where
  "last_component p = rev (takeWhile (\<lambda>c. c \<noteq> CHR ''/'') (rev p))"

text \<open>\<^verbatim>\<open>PurePath.suffix\<close> of the last component.\<close>

definition path_suffix :: "string \<Rightarrow> string" where
  "path_suffix p =
     (let name = last_component (path_str p); ext = rev (takeWhile (\<lambda>c. c \<noteq> CHR ''.'') (rev name)) in
      if CHR ''.'' \<in> set name \<and> ext \<noteq> [] \<and> length ext + 1 < length name then CHR ''.'' # ext else [])"

record split_url =
  su_scheme :: string
  su_netloc :: string
  su_path :: string

definition is_alpha :: "char \<Rightarrow> bool" where
  "is_alpha c = (let n = of_char c :: nat in (65 \<le> n \<and> n \<le> 90) \<or> (97 \<le> n \<and> n \<le> 122))"

definition is_alnum :: "char \<Rightarrow> bool" where
  "is_alnum c = (is_alpha c \<or> is_digit c)"

text \<open>\<^verbatim>\<open>urllib.parse.urlsplit\<close>: leading control characters and blanks are dropped, tabs and line breaks removed;
  a scheme is a letter followed by letters, digits, \<^verbatim>\<open>+\<close>, \<^verbatim>\<open>-\<close> and \<^verbatim>\<open>.\<close> up to the first colon. The host in
  brackets is not examined further.\<close>

definition urlsplit :: "string \<Rightarrow> split_url res" where
  "urlsplit uri =
     (let url = filter (\<lambda>c. c \<notin> {CHR 0x09, CHR 0x0A, CHR 0x0D}) (dropWhile (\<lambda>c. (of_char c :: nat) \<le> 32) uri);
          head = takeWhile (\<lambda>c. c \<noteq> CHR '':'') url;
          has_scheme = (CHR '':'' \<in> set url \<and> head \<noteq> [] \<and> is_alpha (hd head) \<and>
            list_all (\<lambda>c. is_alnum c \<or> c \<in> {CHR ''+'', CHR ''-'', CHR ''.''}) head);
          scheme = (if has_scheme then lower head else []);
          rest = (if has_scheme then drop (length head + 1) url else url);
          stop = (\<lambda>c. c \<notin> {CHR ''/'', CHR ''?'', CHR ''#''});
          netloc = (if starts_with rest ''//'' then takeWhile stop (drop 2 rest) else []);
          rest = (if starts_with rest ''//'' then dropWhile stop (drop 2 rest) else rest)
      in raise_if ((CHR ''['' \<in> set netloc) \<noteq> (CHR '']'' \<in> set netloc)) (ValueError ''Invalid IPv6 URL'')
           (Inr \<lparr>su_scheme = scheme, su_netloc = netloc,
                 su_path = takeWhile (\<lambda>c. c \<noteq> CHR ''?'' \<and> c \<noteq> CHR ''#'') rest\<rparr>))"

text \<open>\<^verbatim>\<open>urllib.parse.unquote\<close> on bytes: an escape that is not two hexadecimal digits stays.\<close>

fun unquote :: "string \<Rightarrow> string" where
  "unquote (c # a # b # s) = (case (hex_val a, hex_val b) of
      (Some x, Some y) \<Rightarrow> if c = CHR ''%'' then char_of (nat (16 * x + y)) # unquote s else c # unquote (a # b # s)
    | _ \<Rightarrow> c # unquote (a # b # s))"
| "unquote s = s"

definition safe_suffix :: "string option \<Rightarrow> string option res" where
  "safe_suffix value = (case value of
      None \<Rightarrow> Inr None
    | Some [] \<Rightarrow> Inr None
    | Some v \<Rightarrow> rbind (urlsplit v) (\<lambda>u.
        let suffix = lower (path_suffix (su_path u)) in
        Inr (if suffix \<noteq> [] \<and> length suffix \<le> 10 \<and> list_all is_alnum (tl suffix) \<and> tl suffix \<noteq> []
             then Some suffix else None)))"

definition checked_material_file :: "fs \<Rightarrow> string \<Rightarrow> string \<Rightarrow> string res" where
  "checked_material_file fs path label =
     raise_if (\<not> is_file fs path) (FileNotFoundError (label @ '' does not exist or is not a file''))
     (raise_if (file_bytes fs path = []) (ValueError (label @ '' is empty'')) (Inr path))"

section \<open>Probing once\<close>

definition validate_material_once :: "io_env \<Rightarrow> string \<Rightarrow> string \<Rightarrow> string \<Rightarrow> (material_state, pydict) act" where
  "validate_material_once env uri path condition_type s =
     (let probe_facts = set_default (ms_probe s) []; s = s\<lparr>ms_probe := Some probe_facts\<rparr> in
      case map_of probe_facts (uri, condition_type) of
        Some cached \<Rightarrow> (Inr cached, s)
      | None \<Rightarrow> (case validate_localized_media (io_probe env (ms_fs s)) path condition_type (ms_memo s) of
          (Inl e, memo) \<Rightarrow> (Inl e, s\<lparr>ms_memo := memo\<rparr>)
        | (Inr facts, memo) \<Rightarrow>
            (Inr facts, s\<lparr>ms_memo := memo, ms_probe := Some (dset (uri, condition_type) facts probe_facts)\<rparr>)))"

section \<open>The work directory\<close>

definition DEFAULT_SUFFIX_BY_TYPE :: "(string \<times> string) list" where
  "DEFAULT_SUFFIX_BY_TYPE = [(''image'', ''.png''), (''video'', ''.mp4''), (''video_audio'', ''.mp4''), (''audio'', ''.wav'')]"

definition SUFFIX_BY_MEDIA_TYPE :: "(string \<times> string) list" where
  "SUFFIX_BY_MEDIA_TYPE = [(''image/jpeg'', ''.jpg''), (''image/png'', ''.png''), (''image/webp'', ''.webp''),
     (''video/mp4'', ''.mp4''), (''video/quicktime'', ''.mov''), (''audio/mpeg'', ''.mp3''), (''audio/mp4'', ''.m4a''),
     (''audio/wav'', ''.wav''), (''audio/x-wav'', ''.wav''), (''audio/flac'', ''.flac'')]"

definition material_workdir :: "io_env \<Rightarrow> (material_state, string) act" where
  "material_workdir env s =
     (let registry = set_default (ms_registry s) []; s = s\<lparr>ms_registry := Some registry\<rparr> in
      case dget_or registry ''material'' [] of
        d # _ \<Rightarrow> (Inr d, s)
      | [] \<Rightarrow> (case io_mkdtemp env (ms_fs s) of
          Inl e \<Rightarrow> (Inl e, s)
        | Inr d \<Rightarrow> minimax_h3_register_temp_dir d ''material'' (s\<lparr>ms_fs := (ms_fs s)(d \<mapsto> Dir)\<rparr>)))"

text \<open>\<^verbatim>\<open>f"condition_{index:04d}{suffix}"\<close> in the work directory.\<close>

definition output_name :: "nat \<Rightarrow> string \<Rightarrow> string" where
  "output_name index suffix =
     (let digits = show_int (int index) in ''condition_'' @ replicate (4 - length digits) (CHR ''0'') @ digits @ suffix)"

definition choose_suffix :: "string option \<Rightarrow> string option \<Rightarrow> string \<Rightarrow> string" where
  "choose_suffix safe media_type condition_type = (case safe of
      Some x \<Rightarrow> x
    | None \<Rightarrow> (case map_of SUFFIX_BY_MEDIA_TYPE (lower (set_default media_type [])) of
        Some x \<Rightarrow> x
      | None \<Rightarrow> dget_or DEFAULT_SUFFIX_BY_TYPE condition_type ''.bin''))"

definition material_output_paths ::
  "io_env \<Rightarrow> string \<Rightarrow> nat \<Rightarrow> string option \<Rightarrow> string option \<Rightarrow> (material_state, string \<times> string) act" where
  "material_output_paths env condition_type condition_index source_name media_type =
     abind (alift (safe_suffix source_name)) (\<lambda>safe.
     abind (material_workdir env) (\<lambda>d.
     let output = path_str (d @ ''/'' @ output_name condition_index (choose_suffix safe media_type condition_type))
     in areturn (output, output @ ''.partial'')))"

text \<open>\<^verbatim>\<open>try: with partial.open("wb"): ...; partial.replace(output)\<close>, with the clean-up of its \<^verbatim>\<open>except\<close>: the bytes
  become visible under the output path at once, or both paths are removed.\<close>

definition parent_dir :: "string \<Rightarrow> string" where
  "parent_dir p = rev (tl (dropWhile (\<lambda>c. c \<noteq> CHR ''/'') (rev p)))"

definition store_output :: "string \<times> string \<Rightarrow> nat list res \<Rightarrow> (material_state, string) act" where
  "store_output paths content s = (case paths of (output, partial) \<Rightarrow>
     let cleanup = s\<lparr>ms_fs := unlink output (unlink partial (ms_fs s))\<rparr> in
     if ms_fs s (parent_dir output) \<noteq> Some Dir then (Inl (FileNotFoundError ''No such file or directory''), cleanup)
     else if ms_fs s partial = Some Dir \<or> ms_fs s output = Some Dir then (Inl (OSError ''Is a directory''), cleanup)
     else case content of
       Inl e \<Rightarrow> (Inl e, cleanup)
     | Inr bytes \<Rightarrow> (Inr output, s\<lparr>ms_fs := (ms_fs s)(partial := None, output \<mapsto> File bytes)\<rparr>))"

section \<open>Readers\<close>

definition stream_base64_material :: "io_env \<Rightarrow> string \<Rightarrow> string \<Rightarrow> nat \<Rightarrow> (material_state, string) act" where
  "stream_base64_material env uri condition_type condition_index =
     abind (alift (base64_uri_payload_start uri)) (\<lambda>(payload, media_type).
     abind (material_output_paths env condition_type condition_index None media_type) (\<lambda>paths.
     store_output paths (stream_base64 payload)))"

definition MINIMAX_H3_TAR_HEADER_MAX_ENCODED_CHARS :: nat where
  "MINIMAX_H3_TAR_HEADER_MAX_ENCODED_CHARS = 64 * 1024"

definition MINIMAX_H3_HTTP_READ_CHUNK_BYTES :: nat where
  "MINIMAX_H3_HTTP_READ_CHUNK_BYTES = 1024 * 1024"

text \<open>\<^verbatim>\<open>s.rsplit(":", 1)\<close>.\<close>

definition rsplit_colon :: "string \<Rightarrow> (string \<times> string) option" where
  "rsplit_colon s = (if CHR '':'' \<in> set s
     then Some (rev (tl (dropWhile (\<lambda>c. c \<noteq> CHR '':'') (rev s))), rev (takeWhile (\<lambda>c. c \<noteq> CHR '':'') (rev s)))
     else None)"

text \<open>\<^verbatim>\<open>bytes.decode("utf-8")\<close> as a check: shortest forms, no surrogates, nothing beyond U+10FFFF.\<close>

definition is_cont :: "nat \<Rightarrow> bool" where
  "is_cont b = (0x80 \<le> b \<and> b \<le> 0xBF)"

fun utf8_ok :: "nat list \<Rightarrow> bool" where
  "utf8_ok [] = True"
| "utf8_ok (a # s) =
     (if a < 0x80 then utf8_ok s
      else case s of
        b # s1 \<Rightarrow>
          if 0xC2 \<le> a \<and> a \<le> 0xDF then is_cont b \<and> utf8_ok s1
          else (case s1 of
            c # s2 \<Rightarrow>
              if 0xE0 \<le> a \<and> a \<le> 0xEF then
                is_cont b \<and> is_cont c \<and> (a = 0xE0 \<longrightarrow> 0xA0 \<le> b) \<and> (a = 0xED \<longrightarrow> b < 0xA0) \<and> utf8_ok s2
              else (case s2 of
                d # s3 \<Rightarrow> 0xF0 \<le> a \<and> a \<le> 0xF4 \<and> is_cont b \<and> is_cont c \<and> is_cont d \<and>
                  (a = 0xF0 \<longrightarrow> 0x90 \<le> b) \<and> (a = 0xF4 \<longrightarrow> b < 0x90) \<and> utf8_ok s3
              | [] \<Rightarrow> False)
          | [] \<Rightarrow> False)
      | [] \<Rightarrow> False)"

definition tar_header :: "string \<Rightarrow> pyval res" where
  "tar_header encoded =
     (let padded = pad4 (map of_char encoded) in
      if list_ex (\<lambda>c. (of_char c :: nat) > 127) encoded
      then Inl (ValueError ''tar material URI has an invalid encoded header'')
      else case a2b_base64 padded of
        None \<Rightarrow> Inl (ValueError ''tar material URI has an invalid encoded header'')
      | Some bytes \<Rightarrow> (case (if utf8_ok bytes then json_loads (map char_of bytes) else None) of
          None \<Rightarrow> Inl (ValueError ''tar material URI has an invalid encoded header'')
        | Some v \<Rightarrow> Inr v))"

text \<open>The byte range of a member header.\<close>

definition tar_member_range :: "pydict \<Rightarrow> (int \<times> int) res" where
  "tar_member_range d =
     raise_if (\<not> eq_str (dget d ''schema'') ''sglang.tar_member_ref/v1'')
       (ValueError ''unsupported tar material header schema'')
     (rbind (catch_ktv (rbind (dindex d ''offset_data'') (\<lambda>v. rbind (py_int v) (\<lambda>offset.
               rbind (dindex d ''size'') (\<lambda>w. rbind (py_int w) (\<lambda>size. Inr (offset, size))))))
               (ValueError ''tar material header requires integer offset_data and size'')) (\<lambda>(offset, size).
      raise_if (offset < 0 \<or> size < 0) (ValueError ''tar material offset_data and size must be non-negative'')
        (Inr (offset, size))))"

definition parse_tar_member_uri :: "io_env \<Rightarrow> string \<Rightarrow> (string \<times> int \<times> int \<times> string option) res" where
  "parse_tar_member_uri env uri =
     rbind (if starts_with uri ''tar+offset://'' then Inr (drop (length ''tar+offset://'') uri)
            else if starts_with uri ''tar+b64header://'' then Inr (drop (length ''tar+b64header://'') uri)
            else Inl (ValueError ''unsupported tar material URI'')) (\<lambda>rest.
     case rsplit_colon rest of
       None \<Rightarrow> Inl (ValueError ''tar material URI must contain <tar_path>:<encoded_header>'')
     | Some (tar_path, encoded_header) \<Rightarrow>
         raise_if (MINIMAX_H3_TAR_HEADER_MAX_ENCODED_CHARS < length encoded_header)
           (ValueError ''tar material URI encoded header is too large'')
         (rbind (tar_header encoded_header) (\<lambda>header.
          case header of
            PDict d \<Rightarrow>
              rbind (tar_member_range d) (\<lambda>(offset, size).
              rbind (io_expanduser env tar_path) (\<lambda>path.
              let member = (if truthy (dget d ''member'') then py_str (dget d ''member'') else []) in
              Inr (path, offset, size, if member = [] then None else Some member)))
          | _ \<Rightarrow> Inl (ValueError ''tar material URI header must be a JSON object''))))"

text \<open>The copy loop: a read returns at most the asked number of bytes and only falls short at the end of the
  file.\<close>

function tar_copy :: "nat list \<Rightarrow> nat \<Rightarrow> nat list res" where
  "tar_copy source remaining =
     (if remaining = 0 then Inr []
      else let chunk = take (min MINIMAX_H3_HTTP_READ_CHUNK_BYTES remaining) source in
        if chunk = [] then Inl (ValueError ''tar material payload is truncated'')
        else rbind (tar_copy (drop (length chunk) source) (remaining - length chunk)) (\<lambda>rest. Inr (chunk @ rest)))"
  by auto
termination
  by (relation "measure snd") (auto simp: Let_def MINIMAX_H3_HTTP_READ_CHUNK_BYTES_def)

definition stream_tar_member_material :: "io_env \<Rightarrow> string \<Rightarrow> string \<Rightarrow> nat \<Rightarrow> (material_state, string) act" where
  "stream_tar_member_material env uri condition_type condition_index s =
     abind (alift (parse_tar_member_uri env uri)) (\<lambda>(source_path, offset, size, member).
     araise_if (size \<le> 0) (ValueError ''tar material payload is empty'')
     (araise_if (\<not> is_file (ms_fs s) source_path)
        (FileNotFoundError ''tar material source does not exist or is not a file'')
     (let source = file_bytes (ms_fs s) source_path; source_size = int (length source) in
      araise_if (source_size < offset \<or> source_size - offset < size) (ValueError ''tar material payload is truncated'')
      (abind (material_output_paths env condition_type condition_index member None) (\<lambda>paths.
       store_output paths (tar_copy (drop (nat offset) source) (nat size))))))) s"

definition http_media_type :: "http_headers \<Rightarrow> string option" where
  "http_media_type headers = (case headers of
      NoHeaders \<Rightarrow> None
    | MessageHeaders v \<Rightarrow> if v = [] then None else Some (lower v)
    | DictHeaders d \<Rightarrow>
        (let v = (if truthy (dget d ''Content-Type'') then dget d ''Content-Type'' else dget d ''content-type'') in
         case v of
           PStr t \<Rightarrow> (let m = strip (takeWhile (\<lambda>c. c \<noteq> CHR '';'') t) in if m = [] then None else Some (lower m))
         | _ \<Rightarrow> if truthy v then Some (lower (py_str v)) else None))"

fun http_body :: "http_chunk list \<Rightarrow> nat list res" where
  "http_body [] = Inr []"
| "http_body (Bytes b # reads) = (if b = [] then Inr [] else rbind (http_body reads) (\<lambda>rest. Inr (b @ rest)))"
| "http_body (NotBytes t # reads) = Inl (TypeError ''HTTP material response.read() must return bytes'')"
| "http_body (ReadError e # reads) = Inl e"

definition stream_http_material :: "io_env \<Rightarrow> string \<Rightarrow> string \<Rightarrow> nat \<Rightarrow> (material_state, string) act" where
  "stream_http_material env uri condition_type condition_index =
     abind (alift (io_urlopen env uri)) (\<lambda>response.
     abind (material_output_paths env condition_type condition_index (Some uri)
              (http_media_type (hr_headers response))) (\<lambda>paths.
     store_output paths (rbind (http_body (hr_reads response)) (\<lambda>body.
        raise_if (body = []) (ValueError ''HTTP material body is empty'') (Inr body)))))"

section \<open>Localisation\<close>

definition SPECIAL_SCHEMES :: "string list" where
  "SPECIAL_SCHEMES = [''data'', ''base64'', ''tar+offset'', ''tar+b64header'']"

definition uri_scheme :: "string \<Rightarrow> (string \<times> split_url option) res" where
  "uri_scheme uri = (case find (\<lambda>x. starts_with uri (x @ '':'')) SPECIAL_SCHEMES of
      Some x \<Rightarrow> Inr (x, None)
    | None \<Rightarrow> rbind (urlsplit uri) (\<lambda>u. Inr (su_scheme u, Some u)))"

text \<open>A local source: checked, probed and returned as it is.\<close>

definition local_source :: "io_env \<Rightarrow> string \<Rightarrow> string \<Rightarrow> string \<Rightarrow> string \<Rightarrow> (material_state, string) act" where
  "local_source env uri path label condition_type s =
     abind (alift (checked_material_file (ms_fs s) path label)) (\<lambda>output.
     abind (validate_material_once env uri output condition_type) (\<lambda>_. areturn output)) s"

text \<open>A materialised source: read, probed, and entered into the cache; a source that does not probe is removed.\<close>

definition materialise ::
  "io_env \<Rightarrow> string \<Rightarrow> string \<Rightarrow> (material_state, string) act \<Rightarrow> (material_state, string) act" where
  "materialise env uri condition_type read =
     abind read (\<lambda>output.
     abind (on_error (validate_material_once env uri output condition_type)
              (\<lambda>s. s\<lparr>ms_fs := unlink output (ms_fs s)\<rparr>)) (\<lambda>_.
     abind (aupdate (\<lambda>s. s\<lparr>ms_cache := Some (dset uri output (set_default (ms_cache s) []))\<rparr>)) (\<lambda>_.
     areturn output)))"

definition read_remote :: "io_env \<Rightarrow> string \<Rightarrow> string \<Rightarrow> string \<Rightarrow> nat \<Rightarrow> (material_state, string) act" where
  "read_remote env scheme uri condition_type condition_index =
     (if scheme \<in> {''http'', ''https''}
      then materialise env uri condition_type (stream_http_material env uri condition_type condition_index)
      else if scheme \<in> {''data'', ''base64''}
      then materialise env uri condition_type (stream_base64_material env uri condition_type condition_index)
      else if scheme \<in> {''tar+offset'', ''tar+b64header''}
      then materialise env uri condition_type (stream_tar_member_material env uri condition_type condition_index)
      else araise (NotImplementedError ''MiniMax H3 material localization does not support URI scheme''))"

definition cached_or_read :: "io_env \<Rightarrow> string \<Rightarrow> string \<Rightarrow> string \<Rightarrow> nat \<Rightarrow> (material_state, string) act" where
  "cached_or_read env scheme uri condition_type condition_index s =
     (let cache = set_default (ms_cache s) []; s = s\<lparr>ms_cache := Some cache\<rparr> in
      case map_of cache uri of
        None \<Rightarrow> read_remote env scheme uri condition_type condition_index s
      | Some cached \<Rightarrow>
          if ms_fs s cached \<noteq> None
          then local_source env uri cached ''cached MiniMax H3 material'' condition_type s
          else read_remote env scheme uri condition_type condition_index (s\<lparr>ms_cache := Some (dpop uri cache)\<rparr>))"

definition minimax_h3_localize_material_uri ::
  "io_env \<Rightarrow> string \<Rightarrow> string \<Rightarrow> nat \<Rightarrow> (material_state, string) act" where
  "minimax_h3_localize_material_uri env uri condition_type condition_index =
     araise_if (uri = []) (ValueError ''condition URI must be a non-empty string'')
     (abind (alift (uri_scheme uri)) (\<lambda>(scheme, parsed).
      case parsed of
        Some u \<Rightarrow>
          if scheme = ''file'' then
            araise_if (su_netloc u \<notin> {[], ''localhost''}) (ValueError ''file URI host must be local'')
              (local_source env uri (path_str (unquote (su_path u))) ''MiniMax H3 material source'' condition_type)
          else if scheme = [] then
            abind (alift (io_expanduser env uri)) (\<lambda>p.
            local_source env uri p ''MiniMax H3 material source'' condition_type)
          else if scheme = ''s3'' then
            araise (NotImplementedError ''MiniMax H3 s3:// material URIs require a configured artifact resolver'')
          else cached_or_read env scheme uri condition_type condition_index
      | None \<Rightarrow> cached_or_read env scheme uri condition_type condition_index))"

definition minimax_h3_probe_material :: "io_env \<Rightarrow> string \<Rightarrow> string \<Rightarrow> nat \<Rightarrow> (material_state, pydict) act" where
  "minimax_h3_probe_material env uri condition_type condition_index =
     abind (minimax_h3_localize_material_uri env uri condition_type condition_index) (\<lambda>path s.
     let facts = map_of (set_default (ms_probe s) []) (uri, condition_type) in
     araise_if (facts = None \<or> facts = Some [])
       (RuntimeError ''MiniMax H3 material localization completed without cached probe facts'')
       (areturn (dupdate [(''local_path'', PStr path)] (set_default facts []))) s)"

end
