(* ===== verification/Material_Store_Correct.thy ===== *)
theory Material_Store_Correct
  imports Material_Store
begin

text \<open>
  What localisation guarantees. The readers share a contract: a reader that returns leaves exactly one new,
  non-empty file behind, one that raises leaves none. The probe table and the localisation cache are memo tables in
  the sense of the cache contract. Clean-up removes what the request registered and can be repeated.
\<close>

section \<open>State changes\<close>

definition no_new_files :: "material_state \<Rightarrow> material_state \<Rightarrow> bool" where
  "no_new_files s t \<longleftrightarrow> (\<forall>q b. ms_fs t q = Some (File b) \<longrightarrow> ms_fs s q = Some (File b))"

definition same_tables :: "material_state \<Rightarrow> material_state \<Rightarrow> bool" where
  "same_tables s t \<longleftrightarrow> ms_cache t = ms_cache s \<and> ms_probe t = ms_probe s"

definition stored :: "material_state \<Rightarrow> material_state \<Rightarrow> string \<Rightarrow> bool" where
  "stored s t p \<longleftrightarrow> is_file (ms_fs t) p \<and> file_bytes (ms_fs t) p \<noteq> [] \<and> same_tables s t \<and>
     (\<forall>q b. q \<noteq> p \<longrightarrow> ms_fs t q = Some (File b) \<longrightarrow> ms_fs s q = Some (File b))"

lemma no_new_files_trans: "no_new_files s t \<Longrightarrow> no_new_files t u \<Longrightarrow> no_new_files s u"
  by (simp add: no_new_files_def)

lemma no_new_files_refl [simp]: "no_new_files s s"
  by (simp add: no_new_files_def)

lemma same_tables_refl [simp]: "same_tables s s"
  by (simp add: same_tables_def)

lemma same_tables_trans: "same_tables s t \<Longrightarrow> same_tables t u \<Longrightarrow> same_tables s u"
  by (simp add: same_tables_def)

lemma stored_after: "no_new_files s u \<Longrightarrow> same_tables s u \<Longrightarrow> stored u t p \<Longrightarrow> stored s t p"
  by (simp add: stored_def no_new_files_def same_tables_def)

lemma unlink_file: "unlink p fs q = Some (File b) \<Longrightarrow> fs q = Some (File b)"
  by (auto simp: unlink_def split: if_splits)

lemma unlink_gone: "unlink p fs p \<noteq> Some (File b)"
  by (auto simp: unlink_def is_file_def split: option.splits fnode.splits)

lemma store_output_cases:
  assumes "store_output (out, partial) content s = (r, t)"
  shows "case r of Inl _ \<Rightarrow> no_new_files s t \<and> same_tables s t
     | Inr p \<Rightarrow> \<exists>bytes. content = Inr bytes \<and> p = out \<and> ms_fs t out = Some (File bytes) \<and> same_tables s t \<and>
         (\<forall>q b. q \<noteq> out \<longrightarrow> ms_fs t q = Some (File b) \<longrightarrow> ms_fs s q = Some (File b))"
  using assms by (auto simp: store_output_def Let_def no_new_files_def same_tables_def dest!: unlink_file
      split: if_splits sum.splits)

lemma material_workdir_keeps: "material_workdir env s = (r, t) \<Longrightarrow> no_new_files s t \<and> same_tables s t"
  by (auto simp: material_workdir_def Let_def minimax_h3_register_temp_dir_def no_new_files_def same_tables_def
      split: list.splits sum.splits if_splits)

lemma material_output_paths_keeps:
  assumes "material_output_paths env ct i name mt s = (r, t)"
  shows "no_new_files s t \<and> same_tables s t" and "r = Inr (out, partial) \<Longrightarrow> partial = out @ ''.partial''"
proof -
  have "no_new_files s t \<and> same_tables s t \<and> (\<forall>out partial. r = Inr (out, partial) \<longrightarrow> partial = out @ ''.partial'')"
    using assms material_workdir_keeps[of env s]
    by (cases r) (auto simp: material_output_paths_def Let_def act_simps)
  then show "no_new_files s t \<and> same_tables s t" "r = Inr (out, partial) \<Longrightarrow> partial = out @ ''.partial''" by auto
qed

section \<open>Readers\<close>

locale material_reader =
  fixes read :: "(material_state, string) act"
  assumes read_returns: "read s = (Inr p, t) \<Longrightarrow> stored s t p"
    and read_raises: "read s = (Inl e, t) \<Longrightarrow> no_new_files s t \<and> same_tables s t"

text \<open>All three readers end by storing a body that is not empty.\<close>

lemma reader_of_body:
  assumes "abind (material_output_paths env ct i name mt) (\<lambda>paths. store_output paths content) s = (r, t)"
    and "\<And>b. content = Inr b \<Longrightarrow> b \<noteq> []"
  shows "case r of Inr p \<Rightarrow> stored s t p | Inl _ \<Rightarrow> no_new_files s t \<and> same_tables s t"
proof -
  obtain q u where q: "material_output_paths env ct i name mt s = (q, u)" by fastforce
  note k = material_output_paths_keeps(1)[OF q]
  show ?thesis
  proof (cases q)
    case (Inl e)
    then show ?thesis using q assms(1) k by (auto simp: abind_def)
  next
    case (Inr paths)
    obtain out partial where p: "paths = (out, partial)" by (cases paths)
    then have "store_output (out, partial) content u = (r, t)" using assms(1) q Inr by (simp add: abind_def)
    from store_output_cases[OF this] show ?thesis
    proof (cases r)
      case (Inl e)
      then show ?thesis using \<open>case r of Inl _ \<Rightarrow> _ | Inr p \<Rightarrow> _ p\<close> k by (auto intro: no_new_files_trans same_tables_trans)
    next
      case (Inr p)
      then obtain bytes where b: "content = Inr bytes" "p = out" "ms_fs t out = Some (File bytes)" "same_tables u t"
        "\<forall>q b. q \<noteq> out \<longrightarrow> ms_fs t q = Some (File b) \<longrightarrow> ms_fs u q = Some (File b)"
        using \<open>case r of Inl _ \<Rightarrow> _ | Inr p \<Rightarrow> _ p\<close> by auto
      then have "stored u t p" using assms(2) by (simp add: stored_def is_file_def file_bytes_def)
      then show ?thesis using Inr k stored_after by auto
    qed
  qed
qed

lemma stream_base64_nonempty: "stream_base64 payload = Inr b \<Longrightarrow> b \<noteq> []"
proof -
  assume "stream_base64 payload = Inr b"
  then obtain body pad where "b64_wellformed body pad" "b = sextets_to_bytes (map b64_sextet body)"
    unfolding stream_base64_iff by blast
  then have "0 < length b" using wf_size(2) by (simp add: sextets_to_bytes_length)
  then show ?thesis by simp
qed

text \<open>The tar copy loop returns exactly the asked bytes.\<close>

lemma tar_copy_eq: "n \<le> length source \<Longrightarrow> tar_copy source n = Inr (take n source)"
proof (induction source n rule: tar_copy.induct)
  case (1 source n)
  show ?case
  proof (cases "n = 0")
    case False
    define c where "c = min MINIMAX_H3_HTTP_READ_CHUNK_BYTES n"
    have c: "0 < c" "c \<le> n" using False by (auto simp: c_def MINIMAX_H3_HTTP_READ_CHUNK_BYTES_def)
    have ne: "take c source \<noteq> []" using c 1(2) by auto
    have l: "length (take c source) = c" using c 1(2) by simp
    have "tar_copy (drop c source) (n - c) = Inr (take (n - c) (drop c source))"
      using 1(1)[OF False refl] ne l 1(2) c unfolding c_def by simp
    moreover have "take c source @ take (n - c) (drop c source) = take n source"
      using c by (simp flip: take_add)
    ultimately show ?thesis using False ne l
      by (subst tar_copy.simps) (simp add: Let_def flip: c_def)
  qed simp
qed

declare tar_copy.simps [simp del]

lemma tar_member_range_nonneg: "tar_member_range d = Inr (off, sz) \<Longrightarrow> 0 \<le> off \<and> 0 \<le> sz"
  by (auto simp: tar_member_range_def res_simps)

lemma parse_tar_nonneg:
  assumes "parse_tar_member_uri env uri = Inr (path, off, sz, member)"
  shows "0 \<le> off \<and> 0 \<le> sz"
proof -
  obtain rest where r: "(case rsplit_colon rest of
       None \<Rightarrow> Inl (ValueError ''tar material URI must contain <tar_path>:<encoded_header>'')
     | Some (tar_path, encoded_header) \<Rightarrow>
         raise_if (MINIMAX_H3_TAR_HEADER_MAX_ENCODED_CHARS < length encoded_header)
           (ValueError ''tar material URI encoded header is too large'')
         (rbind (tar_header encoded_header) (\<lambda>header. case header of
            PDict d \<Rightarrow> rbind (tar_member_range d) (\<lambda>(offset, size). rbind (io_expanduser env tar_path) (\<lambda>path.
              let member = (if truthy (dget d ''member'') then py_str (dget d ''member'') else []) in
              Inr (path, offset, size, if member = [] then None else Some member)))
          | _ \<Rightarrow> Inl (ValueError ''tar material URI header must be a JSON object'')))) = Inr (path, off, sz, member)"
    using assms unfolding parse_tar_member_uri_def rbind_Inr_iff by blast
  show ?thesis
  proof (cases "rsplit_colon rest")
    case (Some x)
    obtain tp eh where x: "x = (tp, eh)" by (cases x)
    obtain header where "tar_header eh = Inr header" using r Some x by (auto simp: rbind_Inr_iff raise_if_Inr_iff)
    then show ?thesis using r Some x
      by (cases header) (auto simp: rbind_Inr_iff raise_if_Inr_iff Let_def dest: tar_member_range_nonneg)
  qed (use r in simp)
qed

lemma http_body_nonempty:
  "rbind (http_body reads) (\<lambda>body. raise_if (body = []) e (Inr body)) = Inr b \<Longrightarrow> b \<noteq> []"
  by (auto simp: res_simps)

interpretation base64_reader: material_reader "stream_base64_material env uri ct i" for env uri ct i
proof
  fix s t :: material_state and p e
  let ?r = "\<lambda>m. stream_base64_material env uri ct i s = (m, t)"
  have body: "case r of Inr p \<Rightarrow> stored s t p | Inl _ \<Rightarrow> no_new_files s t \<and> same_tables s t" if r: "?r r" for r
  proof (cases "base64_uri_payload_start uri")
    case (Inl e)
    then show ?thesis using r by (auto simp: stream_base64_material_def abind_def)
  next
    case (Inr x)
    then obtain payload mt where "base64_uri_payload_start uri = Inr (payload, mt)" by (cases x) auto
    then show ?thesis using reader_of_body[of env ct i None mt "stream_base64 payload" s r t] r stream_base64_nonempty
      by (simp add: stream_base64_material_def)
  qed
  show "?r (Inr p) \<Longrightarrow> stored s t p" "?r (Inl e) \<Longrightarrow> no_new_files s t \<and> same_tables s t"
    using body by fastforce+
qed

interpretation http_reader: material_reader "stream_http_material env uri ct i" for env uri ct i
proof
  fix s t :: material_state and p e
  let ?r = "\<lambda>m. stream_http_material env uri ct i s = (m, t)"
  have body: "case r of Inr p \<Rightarrow> stored s t p | Inl _ \<Rightarrow> no_new_files s t \<and> same_tables s t" if r: "?r r" for r
  proof (cases "io_urlopen env uri")
    case (Inl e)
    then show ?thesis using r by (auto simp: stream_http_material_def abind_def)
  next
    case (Inr x)
    then show ?thesis using reader_of_body[OF _ http_body_nonempty] r by (simp add: stream_http_material_def)
  qed
  show "?r (Inr p) \<Longrightarrow> stored s t p" "?r (Inl e) \<Longrightarrow> no_new_files s t \<and> same_tables s t"
    using body by fastforce+
qed

interpretation tar_reader: material_reader "stream_tar_member_material env uri ct i" for env uri ct i
proof
  fix s t :: material_state and p e
  let ?r = "\<lambda>m. stream_tar_member_material env uri ct i s = (m, t)"
  have body: "case r of Inr p \<Rightarrow> stored s t p | Inl _ \<Rightarrow> no_new_files s t \<and> same_tables s t" if r: "?r r" for r
  proof (cases "parse_tar_member_uri env uri")
    case (Inl e)
    then show ?thesis using r by (auto simp: stream_tar_member_material_def abind_def)
  next
    case (Inr x)
    obtain path off sz member where x: "x = (path, off, sz, member)" by (cases x)
    let ?src = "file_bytes (ms_fs s) path"
    show ?thesis
    proof (cases "sz \<le> 0 \<or> \<not> is_file (ms_fs s) path \<or> int (length ?src) < off \<or> int (length ?src) - off < sz")
      case True
      then show ?thesis using r Inr x by (auto simp: stream_tar_member_material_def Let_def araise_if_def split: if_splits)
    next
      case False
      have "b \<noteq> []" if "tar_copy (drop (nat off) ?src) (nat sz) = Inr b" for b
      proof -
        have "nat sz \<le> length (drop (nat off) ?src)" using False parse_tar_nonneg Inr x by fastforce
        then show ?thesis using that False by (auto simp: tar_copy_eq)
      qed
      then show ?thesis using reader_of_body[of env ct i member None "tar_copy (drop (nat off) ?src) (nat sz)" s r t] r Inr x False
        by (simp add: stream_tar_member_material_def Let_def)
    qed
  qed
  show "?r (Inr p) \<Longrightarrow> stored s t p" "?r (Inl e) \<Longrightarrow> no_new_files s t \<and> same_tables s t"
    using body by fastforce+
qed

section \<open>The probe table\<close>

definition probed :: "material_state \<Rightarrow> string \<times> string \<times> string \<Rightarrow> pydict option" where
  "probed s k = (case k of (uri, path, ct) \<Rightarrow> (case ms_probe s of None \<Rightarrow> None | Some m \<Rightarrow> map_of m (uri, ct)))"

interpretation probe_table: memoised probed "\<lambda>(uri, path, ct). validate_material_once env uri path ct" for env
proof
  fix s t :: material_state and k :: "string \<times> string \<times> string" and v
  obtain uri path ct where k: "k = (uri, path, ct)" by (cases k)
  show "probed s k = Some v \<Longrightarrow> (case k of (uri, path, ct) \<Rightarrow> validate_material_once env uri path ct) s = (Inr v, s)"
    by (auto simp: k probed_def validate_material_once_def Let_def set_default_def split: option.splits)
  show "(case k of (uri, path, ct) \<Rightarrow> validate_material_once env uri path ct) s = (Inr v, t) \<Longrightarrow> probed t k = Some v"
    by (auto simp: k probed_def validate_material_once_def Let_def dict_simps split: option.splits sum.splits prod.splits)
qed

text \<open>Probing reads the files but does not change them.\<close>

lemma validate_once_keeps:
  "validate_material_once env uri path ct s = (r, t) \<Longrightarrow>
   ms_fs t = ms_fs s \<and> ms_cache t = ms_cache s \<and> ms_registry t = ms_registry s"
  by (auto simp: validate_material_once_def Let_def split: option.splits sum.splits prod.splits)

lemma validate_once_raises:
  "validate_material_once env uri path ct s = (Inl e, t) \<Longrightarrow> set_default (ms_probe t) [] = set_default (ms_probe s) []"
  by (auto simp: validate_material_once_def Let_def set_default_def split: option.splits sum.splits prod.splits)

text \<open>Facts are never empty.\<close>

lemma validate_localized_nonempty: "fst (validate_localized_media env path ct memo) = Inr facts \<Longrightarrow> facts \<noteq> []"
  by (auto simp: validate_localized_media_def validate_image_def raise_if_def Let_def elim!: media_facts_Inr
      split: if_splits option.splits sum.splits prod.splits)

definition facts_ok :: "material_state \<Rightarrow> bool" where
  "facts_ok s \<longleftrightarrow> (\<forall>k. map_of (set_default (ms_probe s) []) k \<noteq> Some [])"

lemma validate_once_facts:
  assumes "validate_material_once env uri path ct s = (r, t)" and "facts_ok s"
  shows "facts_ok t"
  using assms validate_localized_nonempty[of "io_probe env (ms_fs s)" path ct "ms_memo s"]
  by (auto simp: validate_material_once_def facts_ok_def Let_def set_default_def dict_simps
      split: option.splits sum.splits prod.splits if_splits)

section \<open>Materialisation\<close>

text \<open>A failure stores nothing: the cache of paths has at most the entries it had, and the table of facts is the same.\<close>

definition no_new_entries :: "material_state \<Rightarrow> material_state \<Rightarrow> bool" where
  "no_new_entries s t \<longleftrightarrow>
     (\<forall>u p. map_of (set_default (ms_cache t) []) u = Some p \<longrightarrow> map_of (set_default (ms_cache s) []) u = Some p) \<and>
     set_default (ms_probe t) [] = set_default (ms_probe s) []"

definition localised :: "material_state \<Rightarrow> string \<Rightarrow> string \<Rightarrow> string \<Rightarrow> bool" where
  "localised t uri ct p \<longleftrightarrow> is_file (ms_fs t) p \<and> file_bytes (ms_fs t) p \<noteq> [] \<and> (\<exists>f. probed t (uri, p, ct) = Some f)"

context material_reader
begin

lemma materialise_returns:
  assumes "materialise env uri ct read s = (Inr p, t)"
  shows "localised t uri ct p" and "\<exists>c. ms_cache t = Some c \<and> map_of c uri = Some p"
    and "\<forall>q b. q \<noteq> p \<longrightarrow> ms_fs t q = Some (File b) \<longrightarrow> ms_fs s q = Some (File b)"
proof -
  obtain u v f where u: "read s = (Inr p, u)" and v: "validate_material_once env uri p ct u = (Inr f, v)"
    and t: "t = v\<lparr>ms_cache := Some (dset uri p (set_default (ms_cache v) []))\<rparr>"
    using assms by (auto simp: materialise_def act_simps)
  note st = read_returns[OF u] and k = validate_once_keeps[OF v]
  have pr: "probed v (uri, p, ct) = Some f" using probe_table.store[where k = "(uri, p, ct)"] v by simp
  show "localised t uri ct p" using st k pr unfolding localised_def t by (simp add: stored_def probed_def)
  show "\<exists>c. ms_cache t = Some c \<and> map_of c uri = Some p" by (simp add: t dict_simps)
  show "\<forall>q b. q \<noteq> p \<longrightarrow> ms_fs t q = Some (File b) \<longrightarrow> ms_fs s q = Some (File b)"
    using st k unfolding t by (simp add: stored_def)
qed

lemma materialise_raises:
  assumes "materialise env uri ct read s = (Inl e, t)"
  shows "no_new_files s t" and "ms_cache t = ms_cache s" and "set_default (ms_probe t) [] = set_default (ms_probe s) []"
proof -
  consider "read s = (Inl e, t)"
    | p u v where "read s = (Inr p, u)" "validate_material_once env uri p ct u = (Inl e, v)"
        "t = v\<lparr>ms_fs := unlink p (ms_fs v)\<rparr>"
    using assms by (auto simp: materialise_def act_simps)
  then have "no_new_files s t \<and> ms_cache t = ms_cache s \<and> set_default (ms_probe t) [] = set_default (ms_probe s) []"
  proof cases
    case 1
    then show ?thesis using read_raises by (simp add: same_tables_def)
  next
    case 2
    note st = read_returns[OF 2(1)] and k = validate_once_keeps[OF 2(2)] validate_once_raises[OF 2(2)]
    have "ms_fs s q = Some (File b)" if "unlink p (ms_fs u) q = Some (File b)" for q b
      using that st unlink_file[OF that] unlink_gone[of p "ms_fs u"] by (cases "q = p") (auto simp: stored_def)
    then show ?thesis using 2(3) k st by (simp add: no_new_files_def stored_def same_tables_def)
  qed
  then show "no_new_files s t" "ms_cache t = ms_cache s" "set_default (ms_probe t) [] = set_default (ms_probe s) []" by auto
qed

end

lemma local_source_returns:
  assumes "local_source env uri path label ct s = (Inr p, t)"
  shows "p = path" and "localised t uri ct p" and "ms_fs t = ms_fs s" and "ms_cache t = ms_cache s"
    and "checked_material_file (ms_fs s) path label = Inr path"
proof -
  obtain f where c: "checked_material_file (ms_fs s) path label = Inr p" and v: "validate_material_once env uri p ct s = (Inr f, t)"
    using assms by (auto simp: local_source_def act_simps)
  then have p: "p = path" "is_file (ms_fs s) path" "file_bytes (ms_fs s) path \<noteq> []"
    by (auto simp: checked_material_file_def res_simps)
  note k = validate_once_keeps[OF v]
  have pr: "probed t (uri, p, ct) = Some f" using probe_table.store[where k = "(uri, p, ct)"] v by simp
  show "p = path" "localised t uri ct p" "ms_fs t = ms_fs s" "ms_cache t = ms_cache s"
    using p k pr by (simp_all add: localised_def)
  show "checked_material_file (ms_fs s) path label = Inr path" using c p by simp
qed

lemma local_source_again:
  assumes "localised t uri ct p"
  shows "local_source env uri p label ct t = (Inr p, t)"
proof -
  obtain f where f: "probed t (uri, p, ct) = Some f" using assms by (auto simp: localised_def)
  have "validate_material_once env uri p ct t = (Inr f, t)" using probe_table.hit[OF f, of env] by simp
  then show ?thesis using assms by (simp add: local_source_def checked_material_file_def localised_def)
qed

lemma local_source_raises:
  assumes "local_source env uri path label ct s = (Inl e, t)"
  shows "no_new_files s t" and "ms_cache t = ms_cache s" and "set_default (ms_probe t) [] = set_default (ms_probe s) []"
  using assms validate_once_keeps[of env uri path ct s] validate_once_raises[of env uri path ct s]
  by (auto simp: local_source_def act_simps no_new_files_def checked_material_file_def raise_if_def split: if_splits)

section \<open>Localisation\<close>

text \<open>The cache of materialised sources: an entry counts while its file is there and its facts are known.\<close>

definition remote_lookup :: "material_state \<Rightarrow> string \<times> string \<times> string \<times> nat \<Rightarrow> string option" where
  "remote_lookup s k = (case k of (scheme, uri, ct, i) \<Rightarrow> (case ms_cache s of
      None \<Rightarrow> None
    | Some c \<Rightarrow> (case map_of c uri of None \<Rightarrow> None | Some p \<Rightarrow> if localised s uri ct p then Some p else None)))"

lemma read_remote_returns:
  assumes "read_remote env scheme uri ct i s = (Inr p, t)"
  shows "localised t uri ct p \<and> (\<exists>c. ms_cache t = Some c \<and> map_of c uri = Some p)"
  using assms http_reader.materialise_returns base64_reader.materialise_returns tar_reader.materialise_returns
  unfolding read_remote_def by (auto split: if_splits)

lemma read_remote_raises:
  assumes "read_remote env scheme uri ct i s = (Inl e, t)"
  shows "no_new_files s t \<and> ms_cache t = ms_cache s \<and> set_default (ms_probe t) [] = set_default (ms_probe s) []"
  using assms http_reader.materialise_raises base64_reader.materialise_raises tar_reader.materialise_raises
  unfolding read_remote_def by (auto split: if_splits)

lemma cached_or_read_returns:
  assumes "cached_or_read env scheme uri ct i s = (Inr p, t)"
  shows "localised t uri ct p \<and> (\<exists>c. ms_cache t = Some c \<and> map_of c uri = Some p)"
proof -
  let ?c = "set_default (ms_cache s) []"
  show ?thesis
  proof (cases "\<exists>q. map_of ?c uri = Some q \<and> ms_fs s q \<noteq> None")
    case True
    then obtain q where q: "map_of ?c uri = Some q" "ms_fs s q \<noteq> None" by blast
    then have l: "local_source env uri q ''cached MiniMax H3 material'' ct (s\<lparr>ms_cache := Some ?c\<rparr>) = (Inr p, t)"
      using assms by (simp add: cached_or_read_def Let_def)
    show ?thesis using local_source_returns[OF l] q by simp
  next
    case False
    then obtain s' where "read_remote env scheme uri ct i s' = (Inr p, t)"
      using assms by (auto simp: cached_or_read_def Let_def split: option.splits if_splits)
    then show ?thesis by (rule read_remote_returns)
  qed
qed

lemma cached_or_read_raises:
  assumes "cached_or_read env scheme uri ct i s = (Inl e, t)"
  shows "no_new_files s t \<and> no_new_entries s t"
proof -
  let ?c = "set_default (ms_cache s) []"
  have n: "no_new_files s t" if "no_new_files (s\<lparr>ms_cache := x\<rparr>) t" for x using that by (simp add: no_new_files_def)
  show ?thesis
  proof (cases "map_of ?c uri")
    case None
    then have "read_remote env scheme uri ct i (s\<lparr>ms_cache := Some ?c\<rparr>) = (Inl e, t)"
      using assms by (simp add: cached_or_read_def Let_def)
    from read_remote_raises[OF this] show ?thesis using n by (auto simp: no_new_entries_def set_default_def)
  next
    case (Some q)
    show ?thesis
    proof (cases "ms_fs s q = None")
      case True
      then have "read_remote env scheme uri ct i (s\<lparr>ms_cache := Some (dpop uri ?c)\<rparr>) = (Inl e, t)"
        using assms Some by (simp add: cached_or_read_def Let_def)
      from read_remote_raises[OF this] show ?thesis using n
        by (auto simp: no_new_entries_def set_default_def dict_simps split: if_splits)
    next
      case False
      then have "local_source env uri q ''cached MiniMax H3 material'' ct (s\<lparr>ms_cache := Some ?c\<rparr>) = (Inl e, t)"
        using assms Some by (simp add: cached_or_read_def Let_def)
      from local_source_raises[OF this] show ?thesis using n by (auto simp: no_new_entries_def set_default_def)
    qed
  qed
qed

interpretation remote_cache: memoised remote_lookup "\<lambda>(scheme, uri, ct, i). cached_or_read env scheme uri ct i" for env
proof
  fix s t :: material_state and k :: "string \<times> string \<times> string \<times> nat" and p
  obtain scheme uri ct i where k: "k = (scheme, uri, ct, i)" by (cases k)
  show "(case k of (scheme, uri, ct, i) \<Rightarrow> cached_or_read env scheme uri ct i) s = (Inr p, t) \<Longrightarrow> remote_lookup t k = Some p"
    using cached_or_read_returns[of env scheme uri ct i s p t] by (auto simp: k remote_lookup_def)
  assume "remote_lookup s k = Some p"
  then obtain c where c: "ms_cache s = Some c" "map_of c uri = Some p" and l: "localised s uri ct p"
    by (auto simp: k remote_lookup_def split: option.splits if_splits)
  have "ms_fs s p \<noteq> None" using l by (auto simp: localised_def is_file_def split: option.splits)
  moreover have e: "s\<lparr>ms_cache := Some c\<rparr> = s" using c by simp
  ultimately show "(case k of (scheme, uri, ct, i) \<Rightarrow> cached_or_read env scheme uri ct i) s = (Inr p, s)"
    using c local_source_again[OF l] by (simp add: k cached_or_read_def set_default_def Let_def e)
qed

text \<open>The two ways through \<^verbatim>\<open>minimax_h3_localize_material_uri\<close> that can return.\<close>

lemma localize_route:
  obtains (local) path label where "minimax_h3_localize_material_uri env uri ct i = local_source env uri path label ct"
    | (remote) scheme where "minimax_h3_localize_material_uri env uri ct i = cached_or_read env scheme uri ct i"
    | (raised) e where "minimax_h3_localize_material_uri env uri ct i = araise e"
proof -
  show thesis
  proof (cases "uri = []")
    case True
    then show thesis using raised by (simp add: minimax_h3_localize_material_uri_def)
  next
    case False
    show thesis
    proof (cases "uri_scheme uri")
      case (Inl e)
      then show thesis using raised False by (simp add: minimax_h3_localize_material_uri_def)
    next
      case (Inr x)
      obtain scheme parsed where x: "x = (scheme, parsed)" by (cases x)
      show thesis
      proof (cases parsed)
        case None
        then show thesis using remote Inr x False by (simp add: minimax_h3_localize_material_uri_def)
      next
        case (Some u)
        note d = minimax_h3_localize_material_uri_def Inr x Some False
        consider "scheme = ''file''" "su_netloc u \<notin> {[], ''localhost''}" | "scheme = ''file''" "su_netloc u \<in> {[], ''localhost''}"
          | e where "scheme = []" "io_expanduser env uri = Inl e" | q where "scheme = []" "io_expanduser env uri = Inr q"
          | "scheme = ''s3''" | "scheme \<notin> {''file'', [], ''s3''}" by (cases "io_expanduser env uri") auto
        then show thesis
        proof cases
          case 2 then show thesis
            by (intro local[of "path_str (unquote (su_path u))" "''MiniMax H3 material source''"]) (auto simp: d araise_if_def)
        next
          case 4 then show thesis by (intro local) (simp add: d)
        next
          case 6 then show thesis by (intro remote) (simp add: d)
        next
          case 1 then show thesis
            by (intro raised[of "ValueError ''file URI host must be local''"]) (auto simp: d araise_if_def)
        next
          case (3 e) then show thesis by (intro raised[of e]) (simp add: d fun_eq_iff)
        next
          case 5 then show thesis
            by (intro raised[of "NotImplementedError ''MiniMax H3 s3:// material URIs require a configured artifact resolver''"])
              (simp add: d fun_eq_iff)
        qed
      qed
    qed
  qed
qed

lemma localize_returns:
  assumes "minimax_h3_localize_material_uri env uri ct i s = (Inr p, t)"
  shows "localised t uri ct p" and "minimax_h3_localize_material_uri env uri ct i t = (Inr p, t)"
proof -
  have "localised t uri ct p \<and> minimax_h3_localize_material_uri env uri ct i t = (Inr p, t)"
  proof (rule localize_route[of env uri ct i])
    fix path label assume e: "minimax_h3_localize_material_uri env uri ct i = local_source env uri path label ct"
    have l: "local_source env uri path label ct s = (Inr p, t)" using assms e by simp
    note r = local_source_returns[OF l]
    show ?thesis using r local_source_again[OF r(2), of env label] e by simp
  next
    fix scheme assume e: "minimax_h3_localize_material_uri env uri ct i = cached_or_read env scheme uri ct i"
    then have c: "cached_or_read env scheme uri ct i s = (Inr p, t)" using assms by simp
    then have "cached_or_read env scheme uri ct i t = (Inr p, t)"
      using remote_cache.run_again[where k = "(scheme, uri, ct, i)"] by simp
    then show ?thesis using cached_or_read_returns[OF c] e by simp
  next
    fix e assume "minimax_h3_localize_material_uri env uri ct i = araise e"
    then show ?thesis using assms by simp
  qed
  then show "localised t uri ct p" "minimax_h3_localize_material_uri env uri ct i t = (Inr p, t)" by auto
qed

lemma localize_raises:
  assumes "minimax_h3_localize_material_uri env uri ct i s = (Inl e, t)"
  shows "no_new_files s t \<and> no_new_entries s t"
proof (rule localize_route[of env uri ct i])
  fix path label assume "minimax_h3_localize_material_uri env uri ct i = local_source env uri path label ct"
  then have "local_source env uri path label ct s = (Inl e, t)" using assms by simp
  from local_source_raises[OF this] show ?thesis by (simp add: no_new_entries_def)
next
  fix scheme assume "minimax_h3_localize_material_uri env uri ct i = cached_or_read env scheme uri ct i"
  then show ?thesis using assms cached_or_read_raises by simp
next
  fix e' assume "minimax_h3_localize_material_uri env uri ct i = araise e'"
  then show ?thesis using assms by (simp add: no_new_entries_def)
qed


section \<open>Clean-up\<close>

lemma starts_with_iff: "starts_with s p \<longleftrightarrow> (\<exists>r. s = p @ r)"
  by (metis append_eq_conv_conj append_take_drop_id starts_with_def)

lemma path_under_trans: "path_under e d \<Longrightarrow> path_under d q \<Longrightarrow> path_under e q"
  by (auto simp: path_under_def starts_with_iff)

lemma rmtree_other: "\<not> path_under d q \<Longrightarrow> rmtree d fs q = fs q"
  by (simp add: rmtree_def)

lemma rmtree_mono: "rmtree d fs q = None \<or> rmtree d fs q = fs q"
  by (simp add: rmtree_def)

lemma rmtree_all_other: "(\<And>d. d \<in> set ds \<Longrightarrow> \<not> path_under d q) \<Longrightarrow> fold rmtree ds fs q = fs q"
  by (induction ds arbitrary: fs) (simp_all add: rmtree_other)

lemma rmtree_all_mono: "fold rmtree ds fs q = None \<or> fold rmtree ds fs q = fs q"
proof (induction ds arbitrary: fs)
  case (Cons d ds)
  show ?case using Cons.IH[of "rmtree d fs"] rmtree_mono[of d fs q] by auto
qed simp

text \<open>A directory on the list is gone at the end with everything below it, whichever order the list has.\<close>

definition doomed :: "string \<Rightarrow> fs \<Rightarrow> bool" where
  "doomed d fs \<longleftrightarrow> fs d = Some Dir \<or> (\<forall>q. path_under d q \<longrightarrow> fs q = None)"

lemma rmtree_doomed: "doomed d fs \<Longrightarrow> doomed d (rmtree e fs)"
  unfolding doomed_def rmtree_def using path_under_trans by (auto simp: path_under_def)

lemma rmtree_gone: "doomed d fs \<Longrightarrow> path_under d q \<Longrightarrow> rmtree d fs q = None"
  by (auto simp: doomed_def rmtree_def)

lemma rmtree_all_gone:
  assumes "d \<in> set ds" "doomed d fs" "path_under d q"
  shows "fold rmtree ds fs q = None"
  using assms(1,2)
proof (induction ds arbitrary: fs)
  case (Cons e ds)
  show ?case
  proof (cases "e = d")
    case True
    then show ?thesis using rmtree_gone[OF Cons.prems(2) assms(3)] rmtree_all_mono[of ds "rmtree d fs" q] by auto
  next
    case False
    then show ?thesis using Cons rmtree_doomed by auto
  qed
qed simp

text \<open>Popping the owners of a registry one after the other removes all their directories.\<close>

lemma dget_or_dpop: "dget_or (dpop k d) k' v = (if k' = k then v else dget_or d k' v)"
  by (simp add: dget_or_def dict_simps)

lemma pop_owners:
  assumes "distinct owners"
  shows "fold pop_owner owners (registry, fs) =
     (filter (\<lambda>(k, _). k \<notin> set owners) registry, fold rmtree (concat (map (\<lambda>k. dget_or registry k []) owners)) fs)"
  using assms
proof (induction owners arbitrary: registry fs)
  case (Cons k owners)
  have "map (\<lambda>x. dget_or (dpop k registry) x []) owners = map (\<lambda>x. dget_or registry x []) owners"
    using Cons.prems by (auto simp: dget_or_dpop)
  moreover have "filter (\<lambda>(x, _). x \<notin> set owners) (dpop k registry) = filter (\<lambda>(x, _). x \<notin> set (k # owners)) registry"
    by (auto simp: dpop_def AList.delete_eq intro!: filter_cong)
  moreover have "fold pop_owner (k # owners) (registry, fs) =
      fold pop_owner owners (dpop k registry, fold rmtree (dget_or registry k []) fs)" by (simp add: pop_owner_def)
  moreover have "\<dots> = (filter (\<lambda>(x, _). x \<notin> set owners) (dpop k registry),
      fold rmtree (concat (map (\<lambda>x. dget_or (dpop k registry) x []) owners)) (fold rmtree (dget_or registry k []) fs))"
    using Cons.IH Cons.prems by simp
  ultimately show ?case by (simp only: list.map concat.simps fold_append comp_apply)
qed simp

definition registered :: "material_state \<Rightarrow> string set" where
  "registered s = {d. \<exists>owner ds. (owner, ds) \<in> set (set_default (ms_registry s) []) \<and> d \<in> set ds}"

lemma cleanup_all:
  assumes "distinct (map fst (set_default (ms_registry s) []))"
  shows "minimax_h3_cleanup_temp_dirs None s =
     s\<lparr>ms_registry := None, ms_cache := None, ms_probe := None,
       ms_fs := fold rmtree (concat (map snd (set_default (ms_registry s) []))) (ms_fs s)\<rparr>"
proof (cases "ms_registry s")
  case None
  then show ?thesis by (simp add: minimax_h3_cleanup_temp_dirs_def Let_def set_default_def)
next
  case (Some r)
  have d: "distinct (map fst r)" using assms Some by (simp add: set_default_def)
  have "dget_or r (fst x) [] = snd x" if "x \<in> set r" for x
    using map_of_is_SomeI[OF d] that by (cases x) (simp add: dget_or_def)
  then have m: "map (\<lambda>k. dget_or r k []) (map fst r) = map snd r" by simp
  have "filter (\<lambda>(k, _). k \<notin> set (map fst r)) r = []" by (force simp: filter_empty_conv)
  then have "fold pop_owner (map fst r) (r, ms_fs s) = ([], fold rmtree (concat (map snd r)) (ms_fs s))"
    using pop_owners[OF d, of r "ms_fs s"] unfolding m by (simp only:)
  then show ?thesis using Some
    by (simp add: minimax_h3_cleanup_temp_dirs_def Let_def set_default_def)
qed

lemma cleanup_files:
  assumes "distinct (map fst (set_default (ms_registry s) []))"
  shows "d \<in> registered s \<Longrightarrow> ms_fs s d = Some Dir \<Longrightarrow> path_under d q \<Longrightarrow> ms_fs (minimax_h3_cleanup_temp_dirs None s) q = None"
    and "(\<And>d. d \<in> registered s \<Longrightarrow> \<not> path_under d q) \<Longrightarrow> ms_fs (minimax_h3_cleanup_temp_dirs None s) q = ms_fs s q"
proof -
  have r: "registered s = set (concat (map snd (set_default (ms_registry s) [])))"
    by (force simp: registered_def)
  show "d \<in> registered s \<Longrightarrow> ms_fs s d = Some Dir \<Longrightarrow> path_under d q \<Longrightarrow> ms_fs (minimax_h3_cleanup_temp_dirs None s) q = None"
    using rmtree_all_gone[of d _ "ms_fs s" q] unfolding cleanup_all[OF assms] r by (simp add: doomed_def)
  show "(\<And>d. d \<in> registered s \<Longrightarrow> \<not> path_under d q) \<Longrightarrow> ms_fs (minimax_h3_cleanup_temp_dirs None s) q = ms_fs s q"
    using rmtree_all_other[of "concat (map snd (set_default (ms_registry s) []))" q "ms_fs s"]
    unfolding cleanup_all[OF assms] r by simp
qed

lemma cleanup_twice: "minimax_h3_cleanup_temp_dirs None (minimax_h3_cleanup_temp_dirs None s) = minimax_h3_cleanup_temp_dirs None s"
  if "distinct (map fst (set_default (ms_registry s) []))"
  unfolding cleanup_all[OF that] by (simp add: minimax_h3_cleanup_temp_dirs_def Let_def)

end
