(* ===== verification/Reference_Shape.thy ===== *)
theory Reference_Shape
  imports Resolved_Plan
begin

text \<open>
  Two parts of \<^verbatim>\<open>minimax_h3/reference_encoding.py\<close> that are plain logic: the shape of a reference image, in
  binary64, and the reentrant determinism context of the audio encoder, which saves the backend flags of PyTorch
  when it is entered first and restores them when it is left last.
\<close>

section \<open>The shape of a reference image\<close>

definition MINIMAX_H3_REFERENCE_IMAGE_SHORT_EDGE :: int where
  "MINIMAX_H3_REFERENCE_IMAGE_SHORT_EDGE = 2048"

definition MINIMAX_H3_REFERENCE_IMAGE_MULTIPLE :: int where
  "MINIMAX_H3_REFERENCE_IMAGE_MULTIPLE = 32"

definition ref_nearest_multiple :: "pyfloat \<Rightarrow> int \<Rightarrow> int res" where
  "ref_nearest_multiple value multiple =
     rbind (fdiv value (Fin (of_int multiple))) (\<lambda>q.
     rbind (py_round q) (\<lambda>n. Inr (max multiple (n * multiple))))"

definition reference_shape_dict :: "int \<Rightarrow> int \<Rightarrow> pydict" where
  "reference_shape_dict target_width target_height =
     [(''geometry'', PStr ''reference_image_resolved''),
      (''shape_policy_version'', PStr ''reference_image_short_edge_v1''),
      (''base_short_edge'', PInt MINIMAX_H3_REFERENCE_IMAGE_SHORT_EDGE),
      (''effective_short_edge'', PInt (min target_width target_height)),
      (''size_mode'', PStr ''short_edge''),
      (''multiple'', PInt MINIMAX_H3_REFERENCE_IMAGE_MULTIPLE),
      (''rounding'', PStr ''nearest''), (''allow_upscale'', PBool True),
      (''width'', PInt target_width), (''height'', PInt target_height)]"

definition minimax_h3_resolve_reference_image_shape :: "pyval \<Rightarrow> pyval \<Rightarrow> pydict res" where
  "minimax_h3_resolve_reference_image_shape width height =
     rbind (catch_tv (rbind (py_float width) (\<lambda>w. rbind (py_float height) (\<lambda>h. Inr (w, h))))
              (ValueError ''reference image width and height must be positive finite numbers'')) (\<lambda>(w, h).
     raise_if (\<not> is_finite w \<or> \<not> is_finite h \<or> fle w (Fin 0) \<or> fle h (Fin 0))
       (ValueError ''reference image width and height must be positive finite numbers'')
     (raise_if (flt (fmul (Fin 4) h) w \<or> flt (fmul (Fin 4) w) h)
       (ValueError ''reference image ratio must be within the inclusive range 1:4 to 4:1'')
     (rbind (fdiv (Fin (of_int MINIMAX_H3_REFERENCE_IMAGE_SHORT_EDGE)) (if flt h w then h else w)) (\<lambda>scale.
      rbind (ref_nearest_multiple (fmul w scale) MINIMAX_H3_REFERENCE_IMAGE_MULTIPLE) (\<lambda>target_width.
      rbind (ref_nearest_multiple (fmul h scale) MINIMAX_H3_REFERENCE_IMAGE_MULTIPLE) (\<lambda>target_height.
      Inr (reference_shape_dict target_width target_height)))))))"

text \<open>\<^verbatim>\<open>minimax_h3_resize_reference_image\<close>: the guards, then a resize unless the size is right already.\<close>

definition minimax_h3_resize_reference_image ::
  "('img \<Rightarrow> 'img) \<Rightarrow> ('img \<Rightarrow> int \<times> int) \<Rightarrow> ('img \<Rightarrow> int \<Rightarrow> int \<Rightarrow> 'img) \<Rightarrow> 'img \<Rightarrow> int \<Rightarrow> int \<Rightarrow> 'img res" where
  "minimax_h3_resize_reference_image to_rgb img_size resize img target_width target_height =
     raise_if (target_width \<le> 0 \<or> target_height \<le> 0)
       (ValueError ''reference image target dimensions must be positive'')
     (raise_if (target_width mod MINIMAX_H3_REFERENCE_IMAGE_MULTIPLE \<noteq> 0 \<or>
                target_height mod MINIMAX_H3_REFERENCE_IMAGE_MULTIPLE \<noteq> 0)
       (ValueError ''reference image target dimensions must be aligned to 32'')
     (let rgb = to_rgb img in
      Inr (if img_size rgb = (target_width, target_height) then rgb else resize rgb target_width target_height)))"

section \<open>Rounding\<close>

text \<open>Scaling a side by the rounded factor and rounding to the grid, for a side at least as long as the short
  one and at most four times as long.\<close>

lemma eps_bounds: "63 + 3 / 4 \<le> 64 * ((1 - eps) * ((1 - eps) * (1 - eps)))" "256 * ((1 + eps) * ((1 + eps) * (1 + eps))) \<le> 256 + 1 / 4"
  "64 * ((1 + eps) * ((1 + eps) * (1 + eps))) \<le> 64 + 1 / 4" "0 < 1 - eps" "0 < 1 + eps"
  by (simp_all add: eps_def)

lemma scaled_side:
  assumes m: "1 \<le> m" "m \<le> 2 ^ 40" and x: "m \<le> x" "x \<le> 4 * m"
  defines "s \<equiv> fl_fin (2048 / m)"
  defines "q \<equiv> fl_fin (fl_fin (x * s) / 32)"
  shows "fl (2048 / m) = Fin s" and "fl (x * s) = Fin (fl_fin (x * s))" and "fl (fl_fin (x * s) / 32) = Fin q"
    and "64 * (x / m) * ((1 - eps) * ((1 - eps) * (1 - eps))) \<le> q" and "q \<le> 64 * (x / m) * ((1 + eps) * ((1 + eps) * (1 + eps)))"
proof -
  have tiny: "p2 (- 1022) \<le> y" if "1 \<le> y" for y :: rat
  proof -
    have "p2 (- 1022) \<le> p2 0" by (simp only: powi_2_le_iff)
    then show ?thesis using that by simp
  qed
  have big: "y \<le> p2 1000" if "y \<le> 2 ^ 60" for y :: rat
  proof -
    have "(2 :: rat) ^ 60 = p2 60" by simp
    also have "\<dots> \<le> p2 1000" by (simp only: powi_2_le_iff)
    finally show ?thesis using that by simp
  qed
  let ?r = "2048 / m"
  have r: "p2 (- 29) \<le> ?r" "?r \<le> 2048" "0 < ?r" using m by (simp_all add: field_simps power_int_minus)
  have r1: "p2 (- 1022) \<le> ?r" by (rule order_trans[OF _ r(1)]) (simp only: powi_2_le_iff)
  have sl: "(1 - eps) * ?r \<le> s" and su: "s \<le> (1 + eps) * ?r"
    unfolding s_def using fl_fin_ge_factor[OF r1] fl_fin_le_factor[OF r1] by auto
  show "fl ?r = Fin s" unfolding s_def using r by (intro fl_finite_range big) auto
  have xm: "1 \<le> x / m" "x / m \<le> 4" "0 < x" using m x by (simp_all add: field_simps)
  have yl: "2048 * (x / m) * (1 - eps) \<le> x * s" using mult_left_mono[OF sl, of x] xm(3) by (simp add: field_simps)
  have yu: "x * s \<le> 2048 * (x / m) * (1 + eps)" using mult_left_mono[OF su, of x] xm(3) by (simp add: field_simps)
  have "2048 * 1 * (1 - eps) \<le> 2048 * (x / m) * (1 - eps)" using xm eps_bounds(4) by (intro mult_right_mono) auto
  then have y1: "2048 * (1 - eps) \<le> x * s" using yl by linarith
  have "2048 * (x / m) * (1 + eps) \<le> 2048 * 4 * (1 + eps)" using xm eps_bounds(5) by (intro mult_right_mono) auto
  then have y2: "x * s \<le> 8192 * (1 + eps)" using yu by linarith
  have e: "eps \<le> 1 / 4" "0 \<le> eps" by (simp_all add: eps_def)
  have y3: "1 \<le> x * s" "x * s \<le> 16384" using y1 y2 e by (simp_all add: algebra_simps)
  let ?v = "fl_fin (x * s)"
  show "fl (x * s) = Fin ?v" using y3 by (intro fl_finite_range big) auto
  have vl: "(1 - eps) * (x * s) \<le> ?v" and vu: "?v \<le> (1 + eps) * (x * s)"
    using fl_fin_ge_factor[OF tiny[OF y3(1)]] fl_fin_le_factor[OF tiny[OF y3(1)]] by auto
  have v1: "2048 * (x / m) * ((1 - eps) * (1 - eps)) \<le> ?v"
    using mult_left_mono[OF yl, of "1 - eps"] vl eps_bounds(4) by (simp add: algebra_simps)
  have v2: "?v \<le> 2048 * (x / m) * ((1 + eps) * (1 + eps))"
    using mult_left_mono[OF yu, of "1 + eps"] vu eps_bounds(5) by (simp add: algebra_simps)
  have "(1 - 1 / 4) * 1536 \<le> (1 - eps) * (x * s)" using y1 e by (intro mult_mono) auto
  then have z1: "1 \<le> ?v / 32" using vl by simp
  have "(1 + eps) * (x * s) \<le> 2 * 16384" using y3 e by (intro mult_mono) auto
  then have z2: "?v / 32 \<le> 2 ^ 60" using vu by simp
  show "fl (?v / 32) = Fin q" unfolding q_def using z1 z2 by (intro fl_finite_range big) auto
  have ql: "(1 - eps) * (?v / 32) \<le> q" and qu: "q \<le> (1 + eps) * (?v / 32)"
    unfolding q_def using fl_fin_ge_factor[OF tiny[OF z1]] fl_fin_le_factor[OF tiny[OF z1]] by auto
  have v3: "64 * (x / m) * ((1 - eps) * (1 - eps)) \<le> ?v / 32" using v1 by (simp add: algebra_simps)
  have v4: "?v / 32 \<le> 64 * (x / m) * ((1 + eps) * (1 + eps))" using v2 by (simp add: algebra_simps)
  show "64 * (x / m) * ((1 - eps) * ((1 - eps) * (1 - eps))) \<le> q"
    by (rule order_trans[OF eq_refl order_trans[OF mult_left_mono[OF v3, of "1 - eps"] ql]])
       (use eps_bounds(4) in \<open>simp_all only: mult_ac less_imp_le\<close>)
  show "q \<le> 64 * (x / m) * ((1 + eps) * ((1 + eps) * (1 + eps)))"
    by (rule order_trans[OF order_trans[OF qu mult_left_mono[OF v4, of "1 + eps"]] eq_refl])
       (use eps_bounds(5) in \<open>simp_all only: mult_ac less_imp_le\<close>)
qed

text \<open>The two target sides, and the short one in particular, which the rounding errors never move off 2048.\<close>

definition on_grid :: "rat \<Rightarrow> rat \<Rightarrow> int \<Rightarrow> bool" where
  "on_grid m x t = (32 dvd t \<and> 2048 \<le> t \<and> t \<le> 8192 \<and> \<bar>of_int t - 2048 * (x / m)\<bar> \<le> 17 \<and> (x = m \<longrightarrow> t = 2048))"

lemma scaled_multiple:
  assumes m: "1 \<le> m" "m \<le> 2 ^ 40" and x: "m \<le> x" "x \<le> 4 * m"
  shows "\<exists>t. ref_nearest_multiple (fmul (Fin x) (Fin (fl_fin (2048 / m)))) MINIMAX_H3_REFERENCE_IMAGE_MULTIPLE = Inr t \<and>
             on_grid m x t"
proof -
  define q where "q = fl_fin (fl_fin (x * fl_fin (2048 / m)) / 32)"
  note b = scaled_side[OF m x, folded q_def]
  let ?n = "round_even q"
  have xm: "1 \<le> x / m" "x / m \<le> 4" using m x by (simp_all add: field_simps)
  have "64 * (x / m) - 256 * (1 - (1 - eps) * ((1 - eps) * (1 - eps))) \<le> 64 * (x / m) * ((1 - eps) * ((1 - eps) * (1 - eps)))"
    using mult_right_mono[OF xm(2), of "1 - (1 - eps) * ((1 - eps) * (1 - eps))"] by (simp add: algebra_simps eps_def)
  moreover have "64 * (x / m) * ((1 + eps) * ((1 + eps) * (1 + eps))) \<le> 64 * (x / m) + 256 * ((1 + eps) * ((1 + eps) * (1 + eps)) - 1)"
    using mult_right_mono[OF xm(2), of "(1 + eps) * ((1 + eps) * (1 + eps)) - 1"] by (simp add: algebra_simps eps_def)
  ultimately have q: "64 * (x / m) - 1 / 32 \<le> q" "q \<le> 64 * (x / m) + 1 / 32" using b(4,5) by (simp_all add: eps_def)
  have near: "\<bar>of_int ?n - q\<bar> \<le> 1 / 2" by (rule round_even_error)
  have err: "\<bar>of_int ?n - 64 * (x / m)\<bar> \<le> 17 / 32" using q near by linarith
  have n1: "64 \<le> ?n"
  proof -
    have "(63 :: rat) < of_int ?n" using err xm by linarith
    then show ?thesis by linarith
  qed
  have n2: "?n \<le> 256"
  proof -
    have "of_int ?n < (257 :: rat)" using err xm by linarith
    then show ?thesis by linarith
  qed
  have n3: "?n = 64" if "x = m"
  proof -
    have "x / m = 1" using that m by simp
    then have "of_int ?n < (65 :: rat)" using err by linarith
    then show ?thesis using n1 by linarith
  qed
  have "ref_nearest_multiple (fmul (Fin x) (Fin (fl_fin (2048 / m)))) MINIMAX_H3_REFERENCE_IMAGE_MULTIPLE = Inr (?n * 32)"
    using b(2,3) n1 by (simp add: ref_nearest_multiple_def MINIMAX_H3_REFERENCE_IMAGE_MULTIPLE_def raise_if_def)
  moreover have "\<bar>of_int (?n * 32) - 2048 * (x / m)\<bar> \<le> 17" using err unfolding of_int_mult of_int_numeral by linarith
  then have "on_grid m x (?n * 32)" unfolding on_grid_def using n1 n2 n3 by auto
  ultimately show ?thesis by blast
qed

lemma on_grid_short: "on_grid m x t \<Longrightarrow> on_grid m m u \<Longrightarrow> min t u = 2048 \<and> min u t = 2048"
  by (auto simp: on_grid_def)

theorem reference_image_shape_float:
  assumes r: "1 \<le> min w h" "min w h \<le> 2 ^ 40" "w \<le> 4 * h" "h \<le> 4 * w"
    and f: "fl (4 * w) = Fin (4 * w)" "fl (4 * h) = Fin (4 * h)"
  shows "\<exists>tw th. minimax_h3_resolve_reference_image_shape (PFloat (Fin w)) (PFloat (Fin h)) = Inr (reference_shape_dict tw th) \<and>
                 on_grid (min w h) w tw \<and> on_grid (min w h) h th"
proof -
  let ?m = "min w h"
  have "?m \<le> w" "w \<le> 4 * ?m" "?m \<le> h" "h \<le> 4 * ?m" using r by (auto simp: min_def)
  then obtain tw th where
    t: "ref_nearest_multiple (fmul (Fin w) (Fin (fl_fin (2048 / ?m)))) MINIMAX_H3_REFERENCE_IMAGE_MULTIPLE = Inr tw"
       "ref_nearest_multiple (fmul (Fin h) (Fin (fl_fin (2048 / ?m)))) MINIMAX_H3_REFERENCE_IMAGE_MULTIPLE = Inr th"
    and g: "on_grid ?m w tw" "on_grid ?m h th"
    using scaled_multiple[OF r(1,2)] by blast
  have "fl (2048 / ?m) = Fin (fl_fin (2048 / ?m))" by (rule scaled_side(1)[OF r(1,2), of ?m]) (use r in auto)
  then have s: "fdiv (Fin (of_int MINIMAX_H3_REFERENCE_IMAGE_SHORT_EDGE)) (if h < w then Fin h else Fin w) = Inr (Fin (fl_fin (2048 / ?m)))"
    using r by (auto simp: MINIMAX_H3_REFERENCE_IMAGE_SHORT_EDGE_def raise_if_def min_def split: if_splits)
  have p: "0 < w" "0 < h" using r by auto
  have ratio: "\<not> flt (fmul (Fin 4) (Fin h)) (Fin w)" "\<not> flt (fmul (Fin 4) (Fin w)) (Fin h)" using r f by simp_all
  have "minimax_h3_resolve_reference_image_shape (PFloat (Fin w)) (PFloat (Fin h)) = Inr (reference_shape_dict tw th)"
    using p ratio t s
    by (simp add: minimax_h3_resolve_reference_image_shape_def raise_if_def is_finite_def fle_def catch_tv_def del: fmul.simps(1))
  then show ?thesis using g by blast
qed

text \<open>On the integer sizes a probe reports, \<^verbatim>\<open>float\<close> is exact, so the ratio guard is the exact one.\<close>

lemma resolve_reference_image_of_int:
  assumes "\<bar>w\<bar> < 2 ^ 53" "\<bar>h\<bar> < 2 ^ 53"
  shows "minimax_h3_resolve_reference_image_shape (PInt w) (PInt h) =
         minimax_h3_resolve_reference_image_shape (PFloat (Fin (of_int w))) (PFloat (Fin (of_int h)))"
  using assms by (simp add: minimax_h3_resolve_reference_image_shape_def float_of_int_small)

lemma fl_four_times: "\<bar>n\<bar> \<le> 2 ^ 40 \<Longrightarrow> fl (4 * of_int n) = Fin (4 * of_int n)"
  using fl_of_int[of "4 * n"] by simp

lemma reference_image_ratio_error:
  assumes "1 \<le> w" "w \<le> 2 ^ 40" "1 \<le> h" "h \<le> 2 ^ 40" and "4 * h < w \<or> 4 * w < h"
  shows "minimax_h3_resolve_reference_image_shape (PInt w) (PInt h) =
         Inl (ValueError ''reference image ratio must be within the inclusive range 1:4 to 4:1'')"
proof -
  have "4 * of_int h < (of_int w :: rat) \<or> 4 * of_int w < (of_int h :: rat)" using assms(5) by linarith
  then show ?thesis
    using assms(1-4) fl_four_times[of w] fl_four_times[of h]
    by (simp add: float_of_int_small resolve_reference_image_of_int minimax_h3_resolve_reference_image_shape_def raise_if_def is_finite_def
        fle_def catch_tv_def)
qed

lemma reference_image_shape_int:
  assumes "1 \<le> w" "w \<le> 2 ^ 40" "1 \<le> h" "h \<le> 2 ^ 40" and "w \<le> 4 * h" "h \<le> 4 * w"
  shows "\<exists>tw th. minimax_h3_resolve_reference_image_shape (PInt w) (PInt h) = Inr (reference_shape_dict tw th) \<and>
                 on_grid (of_int (min w h)) (of_int w) tw \<and> on_grid (of_int (min w h)) (of_int h) th \<and> min tw th = 2048"
proof -
  have "1 \<le> min (of_int w) (of_int h :: rat)" "min (of_int w) (of_int h :: rat) \<le> 2 ^ 40"
       "of_int w \<le> 4 * (of_int h :: rat)" "of_int h \<le> 4 * (of_int w :: rat)"
    using assms by (auto simp: min_def)
  then obtain tw th where
    "minimax_h3_resolve_reference_image_shape (PFloat (Fin (of_int w))) (PFloat (Fin (of_int h))) = Inr (reference_shape_dict tw th)"
    "on_grid (min (of_int w) (of_int h)) (of_int w) tw" "on_grid (min (of_int w) (of_int h)) (of_int h) th"
    using reference_image_shape_float[OF _ _ _ _ fl_four_times fl_four_times, of w h] assms by auto
  moreover from this have "min tw th = 2048" by (auto simp: on_grid_def min_def split: if_splits)
  ultimately show ?thesis using assms by (auto simp: resolve_reference_image_of_int of_int_min)
qed

section \<open>The determinism context\<close>

text \<open>The eight flags of \<^verbatim>\<open>torch.backends\<close> the context saves, in the order of the tuple, and the two class
  attributes it keeps.\<close>

record backend_flags =
  matmul_allow_tf32 :: bool
  cudnn_allow_tf32 :: bool
  cudnn_benchmark :: bool
  cudnn_deterministic :: bool
  cudnn_enabled :: bool
  flash_sdp :: bool
  mem_efficient_sdp :: bool
  math_sdp :: bool

record determinism_state =
  flags :: backend_flags
  depth :: int
  saved :: "backend_flags option"

definition deterministic_flags :: backend_flags where
  "deterministic_flags =
     \<lparr>matmul_allow_tf32 = False, cudnn_allow_tf32 = False, cudnn_benchmark = False, cudnn_deterministic = True,
      cudnn_enabled = False, flash_sdp = False, mem_efficient_sdp = False, math_sdp = True\<rparr>"

definition determinism_enter :: "bool \<Rightarrow> determinism_state \<Rightarrow> determinism_state" where
  "determinism_enter cuda_available s =
     (if \<not> cuda_available then s
      else let s1 = (if depth s = 0 then s\<lparr>saved := Some (flags s), flags := deterministic_flags\<rparr> else s)
           in s1\<lparr>depth := depth s1 + 1\<rparr>)"

text \<open>Leaving when nothing is saved unpacks \<^verbatim>\<open>None\<close>, which raises; the counter is already decremented then.\<close>

definition determinism_exit :: "bool \<Rightarrow> determinism_state \<Rightarrow> (py_error + unit) \<times> determinism_state" where
  "determinism_exit cuda_available s =
     (if \<not> cuda_available then (Inr (), s)
      else let s1 = s\<lparr>depth := depth s - 1\<rparr> in
           if depth s1 \<noteq> 0 then (Inr (), s1)
           else case saved s1 of
                  None \<Rightarrow> (Inl (TypeError ''cannot unpack non-iterable NoneType object''), s1)
                | Some f \<Rightarrow> (Inr (), s1\<lparr>flags := f, saved := None\<rparr>))"

text \<open>Every way to use the context: an encode, which reads the flags, may raise; uses follow each other, the
  second only when the first did not raise; and a \<^verbatim>\<open>with\<close> block runs \<^verbatim>\<open>__exit__\<close> whether its body raises or not. The relation collects
  the flags each encode runs under.\<close>

inductive uses_context ::
  "bool \<Rightarrow> determinism_state \<Rightarrow> backend_flags list \<Rightarrow> unit res \<Rightarrow> determinism_state \<Rightarrow> bool" for c :: bool where
  uses_encode: "uses_context c s [flags s] r s"
| uses_seq: "uses_context c s xs (Inr ()) t \<Longrightarrow> uses_context c t ys r u \<Longrightarrow> uses_context c s (xs @ ys) r u"
| uses_with: "uses_context c (determinism_enter c s) xs r t \<Longrightarrow> determinism_exit c t = (x, u) \<Longrightarrow>
              uses_context c s xs (rbind x (\<lambda>_. r)) u"

inductive_cases uses_contextE: "uses_context c s xs r t"

text \<open>Outside every block nothing is saved; inside one the flags are the deterministic ones.\<close>

definition context_ok :: "determinism_state \<Rightarrow> bool" where
  "context_ok s = (0 \<le> depth s \<and> (depth s = 0 \<longleftrightarrow> saved s = None) \<and> (0 < depth s \<longrightarrow> flags s = deterministic_flags))"

lemma enter_ok: "context_ok s \<Longrightarrow> context_ok (determinism_enter c s)"
  by (auto simp: context_ok_def determinism_enter_def Let_def)

lemma enter_inside: "context_ok s \<Longrightarrow> 0 < depth (determinism_enter True s)"
  by (auto simp: context_ok_def determinism_enter_def Let_def)

lemma exit_enter: "context_ok s \<Longrightarrow> determinism_exit c (determinism_enter c s) = (Inr (), s)"
  by (auto simp: context_ok_def determinism_enter_def determinism_exit_def Let_def split: option.splits)

lemma uses_context_restores:
  "uses_context c s xs r t \<Longrightarrow> context_ok s \<Longrightarrow> t = s \<and> (0 < depth s \<longrightarrow> set xs \<subseteq> {deterministic_flags})"
proof (induction rule: uses_context.induct)
  case (uses_encode s r)
  then show ?case by (auto simp: context_ok_def)
next
  case (uses_with s xs r t x u)
  then show ?case using enter_ok[OF uses_with.prems, of c] exit_enter[OF uses_with.prems, of c]
    by (auto simp: determinism_enter_def Let_def split: if_splits)
qed auto

end
