(* ===== verification/Prequeue.thy ===== *)
theory Prequeue
  imports Material_Store_Correct Reference_Shape
begin

text \<open>
  \<^verbatim>\<open>minimax_h3/prequeue.py\<close>: the admission of a request. It resolves the plan, localises and probes every
  condition, fixes the deferred parts of the target shape, resolves the shape of every visual condition, and
  writes the frozen facts to the batch. When anything raises, the request's directories and caches are dropped.
\<close>

section \<open>The batch\<close>

text \<open>The entries of \<^verbatim>\<open>batch.extra\<close> the module touches, one field each, and the four sampling parameters it sets.
  The temporary directories and the material caches are in \<open>qb_material\<close>.\<close>

record queue_batch =
  qb_material :: material_state
  qb_extra :: "(string \<times> extra_val) list"
  qb_probe_facts :: "(nat \<times> pydict) list option"
  qb_material_shapes :: "(nat \<times> pydict) list option"
  qb_width :: "int option"
  qb_height :: "int option"
  qb_fps :: "int option"
  qb_num_frames :: "int option"

definition on_material :: "(material_state, 'a) act \<Rightarrow> (queue_batch, 'a) act" where
  "on_material m b = (case m (qb_material b) of (r, s) \<Rightarrow> (r, b\<lparr>qb_material := s\<rparr>))"

section \<open>The pure steps\<close>

definition replace_plan_shape :: "resolved_plan \<Rightarrow> pydict \<Rightarrow> resolved_plan" where
  "replace_plan_shape plan shape =
     \<lparr>rp_task = rp_task plan, rp_prompt = rp_prompt plan, rp_seed = rp_seed plan, rp_materials = rp_materials plan,
      rp_encoders = rp_encoders plan, rp_branches = rp_branches plan,
      rp_default_flow_shift = rp_default_flow_shift plan,
      rp_default_audio_flow_shift = rp_default_audio_flow_shift plan, rp_flow_shift = rp_flow_shift plan,
      rp_audio_flow_shift = rp_audio_flow_shift plan, rp_shape = shape, rp_condition_mask = rp_condition_mask plan\<rparr>"

text \<open>\<^verbatim>\<open>probe_facts[i]\<close>.\<close>

definition facts_at :: "(nat \<times> pydict) list \<Rightarrow> nat \<Rightarrow> pydict res" where
  "facts_at probe_facts i = (case map_of probe_facts i of None \<Rightarrow> Inl (KeyError (show_int (int i))) | Some f \<Rightarrow> Inr f)"

definition float_at :: "pydict \<Rightarrow> string \<Rightarrow> pyfloat res" where
  "float_at d k = rbind (dindex d k) py_float"

definition display_shape :: "pydict \<Rightarrow> string \<Rightarrow> (pyfloat \<times> pyfloat) res" where
  "display_shape facts label =
     rbind (catch_ktv (rbind (float_at facts ''display_width'') (\<lambda>w.
              rbind (float_at facts ''display_height'') (\<lambda>h. Inr (w, h))))
            (ValueError (label @ '' has no usable display geometry''))) (\<lambda>(width, height).
     raise_if (fle width (Fin 0) \<or> fle height (Fin 0)) (ValueError (label @ '' has no usable display geometry''))
       (Inr (width, height)))"

text \<open>\<^verbatim>\<open>frame_index not in {0, -1}\<close>: a list or a dictionary is not hashable.\<close>

definition is_end_frame :: "pyval \<Rightarrow> bool res" where
  "is_end_frame v = (case v of
      PList _ \<Rightarrow> Inl (TypeError ''unhashable type'')
    | PDict _ \<Rightarrow> Inl (TypeError ''unhashable type'')
    | _ \<Rightarrow> Inr (eq_int v 0 \<or> eq_int v (- 1)))"

definition check_end_frame :: "material_item \<Rightarrow> unit res" where
  "check_end_frame m = rbind (is_end_frame (mi_frame_index m)) (\<lambda>ok.
     raise_if (\<not> ok) (ValueError ''fl2va deferred geometry requires semantic frame_index 0 or -1'') (Inr ()))"

text \<open>The key of \<^verbatim>\<open>min\<close>, and the first material with the least key.\<close>

type_synonym time_key = "bool \<times> int \<times> nat"

definition key_less :: "time_key \<Rightarrow> time_key \<Rightarrow> bool" where
  "key_less k l = (case (k, l) of ((a, b, c), (a', b', c')) \<Rightarrow>
     (\<not> a \<and> a') \<or> (a = a' \<and> (b < b' \<or> (b = b' \<and> c < c'))))"

definition material_key :: "material_item \<Rightarrow> time_key res" where
  "material_key m = rbind (py_int (mi_frame_index m)) (\<lambda>f.
     Inr (eq_int (mi_frame_index m) (- 1), f, mi_condition_index m))"

fun least_keyed :: "(time_key \<times> 'a) \<Rightarrow> (time_key \<times> 'a) list \<Rightarrow> 'a" where
  "least_keyed (k, x) [] = x"
| "least_keyed (k, x) ((l, y) # r) = (if key_less l k then least_keyed (l, y) r else least_keyed (k, x) r)"

definition geometry_material :: "resolved_plan \<Rightarrow> material_item res" where
  "geometry_material plan =
     raise_if (rp_task plan \<noteq> ''fl2va'') (ValueError ''task has unsupported deferred target geometry'')
     (let candidates = filter (\<lambda>m. mi_material_chain m = ''image.target_canvas'') (rp_materials plan) in
      raise_if (length candidates \<notin> {1, 2}) (ValueError ''fl2va requires one or two keyframe materials'')
      (rbind (rmap check_end_frame candidates) (\<lambda>_.
       rbind (rmap material_key candidates) (\<lambda>keys.
       Inr (least_keyed (hd keys, hd candidates) (zip (tl keys) (tl candidates)))))))"

definition condition_label :: "nat \<Rightarrow> string" where
  "condition_label i = ''conditions['' @ show_int (int i) @ '']''"

text \<open>The fields that record which keyframe the geometry was taken from.\<close>

definition shape_source :: "material_item \<Rightarrow> pydict \<Rightarrow> pydict res" where
  "shape_source source shape =
     (let geometry_source = (if eq_int (mi_frame_index source) 0 then ''first_keyframe'' else ''last_keyframe'');
          shape = dset ''geometry_source_condition_index'' (PInt (int (mi_condition_index source)))
                    (dset ''geometry_source'' (PStr geometry_source) shape) in
      if mi_frame_index source = PNone then Inr shape
      else rbind (py_int (mi_frame_index source)) (\<lambda>f. Inr (dset ''geometry_source_frame_index'' (PInt f) shape)))"

definition resolve_deferred_spatial_shape ::
  "resolved_plan \<Rightarrow> pydict \<Rightarrow> (nat \<times> pydict) list \<Rightarrow> pydict res" where
  "resolve_deferred_spatial_shape plan shape probe_facts =
     (if py_str (dget shape ''geometry'') \<noteq> ''deferred'' then Inr shape
      else rbind (geometry_material plan) (\<lambda>source.
        rbind (facts_at probe_facts (mi_condition_index source)) (\<lambda>facts.
        rbind (display_shape facts (condition_label (mi_condition_index source))) (\<lambda>(width, height).
        rbind (dindex shape ''base_short_edge'') (\<lambda>b.
        rbind (py_int b) (\<lambda>base_short_edge.
        rbind (minimax_h3_resolve_spatial_shape (PFloat width) (PFloat height) (PInt base_short_edge)) (\<lambda>spatial.
        shape_source source (dupdate shape spatial))))))))"

definition has_audio :: "(nat \<times> pydict) list \<Rightarrow> material_item \<Rightarrow> bool res" where
  "has_audio probe_facts m =
     (if mi_condition_type m \<in> {''audio'', ''video'', ''video_audio''}
      then rbind (facts_at probe_facts (mi_condition_index m)) (\<lambda>f. Inr (truthy (dget f ''has_audio'')))
      else Inr False)"

text \<open>The duration of the only condition with sound, counted from its start time.\<close>

definition reference_duration :: "resolved_plan \<Rightarrow> (nat \<times> pydict) list \<Rightarrow> pyfloat res" where
  "reference_duration plan probe_facts =
     rbind (rmap (has_audio probe_facts) (rp_materials plan)) (\<lambda>hs.
     case map snd (filter fst (zip hs (rp_materials plan))) of
       [source] \<Rightarrow>
         rbind (facts_at probe_facts (mi_condition_index source)) (\<lambda>facts.
         rbind (catch_ktv (rbind (float_at facts ''audio_duration_seconds'') (\<lambda>d.
                  Inr (fsub d (mi_start_time_seconds source))))
                (ValueError ''audio reference has no positive probed duration'')) (\<lambda>duration.
         raise_if (fle duration (Fin 0)) (ValueError ''audio reference has no positive probed duration'')
         (raise_if (\<not> (fle MINIMAX_H3_MIN_DURATION_SECONDS duration \<and> fle duration MINIMAX_H3_MAX_DURATION_SECONDS))
            (ValueError ''audio reference duration must be in [4, 15] seconds'') (Inr duration))))
     | _ \<Rightarrow> Inl (ValueError ''audio-derived target duration requires exactly one probed condition with an audio stream''))"

definition resolve_deferred_temporal_shape ::
  "resolved_plan \<Rightarrow> pydict \<Rightarrow> (nat \<times> pydict) list \<Rightarrow> pydict res" where
  "resolve_deferred_temporal_shape plan shape probe_facts =
     (if py_str (dget shape ''temporal'') \<noteq> ''deferred_from_audio_reference'' then Inr shape
      else rbind (reference_duration plan probe_facts) (\<lambda>duration.
        rbind (temporal_fields duration) (\<lambda>(frame_count, aligned_duration, vt, alt).
        Inr (dupdate shape
          [(''temporal'', PStr ''resolved_from_audio_reference''), (''duration_seconds'', PFloat aligned_duration),
           (''frame_count'', PInt frame_count), (''video_latent_t'', PInt vt), (''audio_latent_t'', PInt alt)]))))"

definition validate_start_time :: "(nat \<times> pydict) list \<Rightarrow> material_item \<Rightarrow> unit res" where
  "validate_start_time probe_facts m =
     (let start = mi_start_time_seconds m; label = condition_label (mi_condition_index m) in
      if feq start (Fin 0) then Inr ()
      else rbind (facts_at probe_facts (mi_condition_index m)) (\<lambda>facts.
        rbind (catch_ktv (float_at facts ''video_duration_seconds'')
          (ValueError (label @ ''.start_time_seconds requires a video with a positive probed duration''))) (\<lambda>video_duration.
        raise_if (fle video_duration start)
          (ValueError (label @ ''.start_time_seconds must be less than the video duration''))
        (if truthy (dget facts ''has_audio'') then
           rbind (catch_ktv (float_at facts ''audio_duration_seconds'')
             (ValueError (label @ '' has no usable audio duration''))) (\<lambda>audio_duration.
           raise_if (fle audio_duration start)
             (ValueError (label @ ''.start_time_seconds must be less than the soundtrack duration'')) (Inr ()))
         else Inr ()))))"

definition validate_reference_start_times :: "resolved_plan \<Rightarrow> (nat \<times> pydict) list \<Rightarrow> unit res" where
  "validate_reference_start_times plan probe_facts =
     rbind (rmap (validate_start_time probe_facts) (rp_materials plan)) (\<lambda>_. Inr ())"

definition resolved_work_frame_count :: "pydict \<Rightarrow> int res" where
  "resolved_work_frame_count shape =
     (if dget shape ''frame_count'' \<noteq> PNone then py_int (dget shape ''frame_count'')
      else Inl (ValueError ''MiniMax H3 target frame count remained unresolved before queue''))"

definition TARGET_SHAPE_KEYS :: "string list" where
  "TARGET_SHAPE_KEYS = [''geometry'', ''shape_policy_version'', ''base_short_edge'', ''effective_short_edge'',
     ''size_mode'', ''max_pixels'', ''multiple'', ''rounding'', ''width'', ''height'']"

text \<open>The shape of one condition, when its chain has one.\<close>

definition material_shape :: "pydict \<Rightarrow> (nat \<times> pydict) list \<Rightarrow> material_item \<Rightarrow> pydict option res" where
  "material_shape shape probe_facts m =
     (let i = mi_condition_index m; chain = mi_material_chain m;
          displayed = (\<lambda>resolve. rbind (facts_at probe_facts i) (\<lambda>facts.
            rbind (display_shape facts (condition_label i)) (\<lambda>(width, height).
            rbind (resolve (PFloat width) (PFloat height)) (\<lambda>d. Inr (Some (dset ''condition_index'' (PInt (int i)) d))))))
      in if chain = ''image.target_canvas''
         then Inr (Some (dset ''condition_index'' (PInt (int i)) [(k, dget shape k). k \<leftarrow> TARGET_SHAPE_KEYS, dhas shape k]))
         else if chain \<in> {''video.reference_preserve'', ''video_audio.reference_preserve''}
         then displayed (\<lambda>w h. minimax_h3_resolve_spatial_shape w h (PInt MINIMAX_H3_BASE_SHORT_EDGE))
         else if chain = ''image.reference_preserve'' then displayed minimax_h3_resolve_reference_image_shape
         else Inr None)"

definition material_shapes :: "resolved_plan \<Rightarrow> pydict \<Rightarrow> (nat \<times> pydict) list \<Rightarrow> (nat \<times> pydict) list res" where
  "material_shapes plan shape probe_facts =
     rbind (rmap (material_shape shape probe_facts) (rp_materials plan)) (\<lambda>ds.
     Inr (dupdate [] [(mi_condition_index m, d). (m, Some d) \<leftarrow> zip (rp_materials plan) ds]))"

section \<open>Admission\<close>

definition preserve_prequeue_material_dirs :: "material_state \<Rightarrow> material_state" where
  "preserve_prequeue_material_dirs s = (case ms_registry s of
      None \<Rightarrow> s
    | Some registry \<Rightarrow> (case map_of registry ''material'' of
        None \<Rightarrow> s
      | Some paths \<Rightarrow>
          let registry = dpop ''material'' registry;
              kept = dget_or registry ''prequeue_material'' [];
              kept = fold (\<lambda>p kept. if p \<in> set kept then kept else kept @ [p]) paths kept
          in s\<lparr>ms_registry := Some (dset ''prequeue_material'' kept registry)\<rparr>))"

definition batch_plan :: "(queue_batch, resolved_plan) act" where
  "batch_plan b = (case minimax_h3_plan_from_batch (DictExtra (qb_extra b)) of
      Inl e \<Rightarrow> (Inl e, b)
    | Inr (None, _) \<Rightarrow> (Inl (ValueError ''MiniMax H3 pre-queue validation requires a canonical request''), b)
    | Inr (Some plan, DictExtra d) \<Rightarrow> (Inr plan, b\<lparr>qb_extra := d\<rparr>)
    | Inr (Some plan, _) \<Rightarrow> (Inr plan, b))"

definition probe_all :: "io_env \<Rightarrow> resolved_plan \<Rightarrow> (queue_batch, (nat \<times> pydict) list) act" where
  "probe_all env plan =
     abind (on_material (amap (\<lambda>m. abind (minimax_h3_probe_material env (mi_uri m) (mi_condition_type m) (mi_condition_index m))
              (\<lambda>f. areturn (mi_condition_index m, f))) (rp_materials plan))) (\<lambda>ps.
     areturn (dupdate [] ps))"

definition resolved_target_shape :: "resolved_plan \<Rightarrow> (nat \<times> pydict) list \<Rightarrow> pydict res" where
  "resolved_target_shape plan probe_facts =
     rbind (validate_reference_start_times plan probe_facts) (\<lambda>_.
     rbind (resolve_deferred_spatial_shape plan (rp_shape plan) probe_facts) (\<lambda>shape.
     rbind (resolve_deferred_temporal_shape plan shape probe_facts) (\<lambda>shape.
     raise_if (py_str (dget shape ''geometry'') \<noteq> ''resolved_v2'')
       (ValueError ''MiniMax H3 target geometry remained unresolved before queue'') (Inr shape))))"

definition freeze_batch :: "resolved_plan \<Rightarrow> pydict \<Rightarrow> int \<Rightarrow> (queue_batch, resolved_plan) act" where
  "freeze_batch plan shape work_frames =
     (let resolved_plan = replace_plan_shape plan shape;
          side = (\<lambda>k. alift (rbind (dindex shape k) py_int)) in
      abind (aupdate (\<lambda>b. b\<lparr>qb_extra := dset MINIMAX_H3_RESOLVED_PLAN_EXTRA_KEY (EPlan resolved_plan) (qb_extra b)\<rparr>)) (\<lambda>_.
      abind (side ''width'') (\<lambda>width.
      abind (aupdate (\<lambda>b. b\<lparr>qb_width := Some width\<rparr>)) (\<lambda>_.
      abind (side ''height'') (\<lambda>height.
      abind (aupdate (\<lambda>b. b\<lparr>qb_height := Some height, qb_fps := Some MINIMAX_H3_SUPPORTED_FPS,
                            qb_num_frames := Some work_frames,
                            qb_material := preserve_prequeue_material_dirs (qb_material b)\<rparr>)) (\<lambda>_.
      areturn resolved_plan))))))"

definition admission_body :: "io_env \<Rightarrow> (queue_batch, resolved_plan) act" where
  "admission_body env =
     abind batch_plan (\<lambda>plan.
     abind (probe_all env plan) (\<lambda>probe_facts.
     abind (aupdate (\<lambda>b. b\<lparr>qb_probe_facts := Some probe_facts\<rparr>)) (\<lambda>_.
     abind (alift (resolved_target_shape plan probe_facts)) (\<lambda>shape.
     abind (alift (material_shapes plan shape probe_facts)) (\<lambda>shapes.
     abind (aupdate (\<lambda>b. b\<lparr>qb_material_shapes := Some shapes\<rparr>)) (\<lambda>_.
     abind (alift (resolved_work_frame_count shape)) (\<lambda>work_frames.
     freeze_batch plan shape work_frames)))))))"

definition drop_admission :: "queue_batch \<Rightarrow> queue_batch" where
  "drop_admission b = b\<lparr>qb_material := minimax_h3_cleanup_temp_dirs None (qb_material b),
     qb_probe_facts := None, qb_material_shapes := None\<rparr>"

definition minimax_h3_prepare_for_queue :: "io_env \<Rightarrow> (queue_batch, resolved_plan) act" where
  "minimax_h3_prepare_for_queue env = on_error (admission_body env) drop_admission"

end
