(* ===== verification/Prequeue_Correct.thy ===== *)
theory Prequeue_Correct
  imports Prequeue
begin

text \<open>
  What admission guarantees. First, an invariant of everything the material reader does: a file that was not there
  before lies in a directory the request has registered. It turns the clean-up of a failed admission into the
  statement that no file is left behind. Then the frozen facts a successful admission writes to the batch.
\<close>

section \<open>Files stay in registered directories\<close>

definition path_parts :: "string \<Rightarrow> string list" where
  "path_parts p = filter (\<lambda>c. c \<noteq> [] \<and> c \<noteq> ''.'') (split_on (CHR ''/'') p)"

definition slash_join :: "string list \<Rightarrow> string" where
  "slash_join ps = concat (map (\<lambda>(i, c). if i = 0 then c else CHR ''/'' # c) (enumerate 0 ps))"

text \<open>A path in the form \<^verbatim>\<open>str(Path(p))\<close> gives, other than a root or \<^verbatim>\<open>.\<close>.\<close>

definition normal_dir :: "string \<Rightarrow> bool" where
  "normal_dir d \<longleftrightarrow> path_str d = d \<and> path_parts d \<noteq> []"

lemma split_on_sep: "split_on c (xs @ c # ys) = split_on c xs @ split_on c ys"
  by (induction xs) (auto simp: split_on_nonempty split: list.splits)

lemma slash_join_append: "ps \<noteq> [] \<Longrightarrow> slash_join (ps @ qs) = slash_join ps @ concat (map (\<lambda>c. CHR ''/'' # c) qs)"
  by (induction qs rule: rev_induct) (auto simp: slash_join_def enumerate_append_eq)

lemma path_str_join:
  assumes "path_parts d \<noteq> []"
  shows "path_str (d @ CHR ''/'' # n) = path_str d @ concat (map (\<lambda>c. CHR ''/'' # c) (path_parts n))"
proof -
  have parts: "path_parts (d @ CHR ''/'' # n) = path_parts d @ path_parts n"
    by (simp add: path_parts_def split_on_sep)
  have "starts_with (d @ CHR ''/'' # n) p = starts_with d p" if "p \<in> {''/'', ''//'', ''///''}" for p
  proof (cases "3 \<le> length d")
    case True
    then show ?thesis using that by (auto simp: starts_with_def)
  next
    case False
    then consider "d = []" | a where "d = [a]" | a b where "d = [a, b]"
      by (cases d; cases "tl d"; cases "tl (tl d)") auto
    then show ?thesis using assms that by cases (auto simp: starts_with_def path_parts_def)
  qed
  then show ?thesis
    using assms parts slash_join_append[OF assms, of "path_parts n"]
    unfolding path_str_def path_parts_def[symmetric] slash_join_def[symmetric] Let_def by simp
qed

lemma path_str_under: "normal_dir d \<Longrightarrow> path_under d (path_str (d @ ''/'' @ n))"
  by (cases "path_parts n") (auto simp: normal_dir_def path_str_join path_under_def starts_with_iff)

text \<open>The invariant: the registry is a dictionary, the directories of the owner \<^verbatim>\<open>material\<close> exist, and every file was
  there at the start or lies in a registered directory.\<close>

definition owned :: "material_state \<Rightarrow> string \<Rightarrow> string list" where
  "owned s owner = dget_or (set_default (ms_registry s) []) owner []"

definition registry_ok :: "material_state \<Rightarrow> bool" where
  "registry_ok s \<longleftrightarrow> distinct (map fst (set_default (ms_registry s) [])) \<and>
     (\<forall>d \<in> set (owned s ''material''). normal_dir d \<and> ms_fs s d = Some Dir)"

definition contained :: "material_state \<Rightarrow> material_state \<Rightarrow> bool" where
  "contained s0 s \<longleftrightarrow> registry_ok s \<and>
     (\<forall>q b. ms_fs s q = Some (File b) \<longrightarrow> ms_fs s0 q = Some (File b) \<or>
        (\<exists>d owner. d \<in> set (owned s owner) \<and> ms_fs s d = Some Dir \<and> path_under d q))"

definition mkdtemp_ok :: "io_env \<Rightarrow> bool" where
  "mkdtemp_ok env \<longleftrightarrow> (\<forall>fs d. io_mkdtemp env fs = Inr d \<longrightarrow> normal_dir d)"

lemma contained_refl: "registry_ok s \<Longrightarrow> contained s s"
  by (simp add: contained_def)

text \<open>Steps that keep the registry and the directories, and add no file or one below a directory of \<^verbatim>\<open>material\<close>.\<close>

lemma contained_step:
  assumes "contained s0 s" and "set_default (ms_registry t) [] = set_default (ms_registry s) []"
    and "\<And>d. ms_fs s d = Some Dir \<Longrightarrow> ms_fs t d = Some Dir"
    and "\<And>q b. ms_fs t q = Some (File b) \<Longrightarrow> ms_fs s q = Some (File b) \<or> (\<exists>d \<in> set (owned s ''material''). path_under d q)"
  shows "contained s0 t"
proof -
  have o: "owned t = owned s" using assms(2) by (simp add: owned_def fun_eq_iff)
  have r: "registry_ok s" using assms(1) by (simp add: contained_def)
  then have "registry_ok t" using assms(2,3) o by (simp add: registry_ok_def)
  moreover have "ms_fs s0 q = Some (File b) \<or> (\<exists>d owner. d \<in> set (owned t owner) \<and> ms_fs t d = Some Dir \<and> path_under d q)"
    if f: "ms_fs t q = Some (File b)" for q b
    using assms(4)[OF f]
  proof
    assume "ms_fs s q = Some (File b)"
    then show ?thesis using assms(1,3) o unfolding contained_def by metis
  next
    assume "\<exists>d \<in> set (owned s ''material''). path_under d q"
    then show ?thesis using r assms(3) o unfolding registry_ok_def by metis
  qed
  ultimately show ?thesis by (simp add: contained_def)
qed

lemma workdir_contained:
  assumes "material_workdir env s = (r, t)" and "contained s0 s" and "mkdtemp_ok env"
  shows "contained s0 t" and "r = Inr d \<Longrightarrow> d \<in> set (owned t ''material'')"
proof -
  let ?reg = "set_default (ms_registry s) []"
  let ?s = "s\<lparr>ms_registry := Some ?reg\<rparr>"
  have s: "contained s0 ?s" by (rule contained_step[OF assms(2)]) (auto simp: set_default_def)
  have "contained s0 t \<and> (r = Inr d \<longrightarrow> d \<in> set (owned t ''material''))"
  proof (cases "owned s ''material''")
    case (Cons x xs)
    then show ?thesis using assms(1) s by (auto simp: material_workdir_def Let_def owned_def set_default_def)
  next
    case Nil
    show ?thesis
    proof (cases "io_mkdtemp env (ms_fs s)")
      case (Inl e)
      then show ?thesis using assms(1) s Nil by (auto simp: material_workdir_def Let_def owned_def)
    next
      case (Inr x)
      let ?t = "s\<lparr>ms_registry := Some (dset ''material'' [x] ?reg), ms_fs := (ms_fs s)(x \<mapsto> Dir)\<rparr>"
      have t: "t = ?t" "r = Inr x" using assms(1) Inr Nil
        by (auto simp: material_workdir_def Let_def owned_def minimax_h3_register_temp_dir_def set_default_def)
      have o: "set (owned s owner) \<subseteq> set (owned ?t owner)" "owned ?t ''material'' = [x]" for owner
        using Nil by (auto simp: owned_def set_default_def dget_or_def dict_simps split: option.splits)
      have "normal_dir x" using Inr assms(3) by (auto simp: mkdtemp_ok_def)
      then have ok: "registry_ok ?t" using assms(2) o(2)
        by (auto simp: registry_ok_def contained_def set_default_def dset_def distinct_update)
      have "ms_fs s0 q = Some (File b) \<or> (\<exists>d owner. d \<in> set (owned ?t owner) \<and> ms_fs ?t d = Some Dir \<and> path_under d q)"
        if "ms_fs ?t q = Some (File b)" for q b
      proof -
        have "ms_fs s q = Some (File b)" using that by (auto split: if_splits)
        then consider "ms_fs s0 q = Some (File b)" | d owner where "d \<in> set (owned s owner)" "ms_fs s d = Some Dir" "path_under d q"
          using assms(2) unfolding contained_def by blast
        then show ?thesis
        proof cases
          case 2
          then have "d \<in> set (owned ?t owner)" "ms_fs ?t d = Some Dir" using o(1) by auto
          then show ?thesis using 2(3) by blast
        qed blast
      qed
      then have "contained s0 ?t" using ok unfolding contained_def by blast
      then show ?thesis unfolding t(1) using t(2) o(2) by (metis Inr_inject list.set_intros(1))
    qed
  qed
  then show "contained s0 t" "r = Inr d \<Longrightarrow> d \<in> set (owned t ''material'')" by auto
qed

lemma unlink_cases: "unlink p fs q = Some x \<Longrightarrow> fs q = Some x" "fs d = Some Dir \<Longrightarrow> unlink p fs d = Some Dir"
  by (auto simp: unlink_def is_file_def split: if_splits option.splits fnode.splits)

lemma unlink_contained: "contained s0 s \<Longrightarrow> contained s0 (s\<lparr>ms_fs := unlink p (ms_fs s)\<rparr>)"
  by (erule contained_step) (auto dest: unlink_cases)

lemma cache_contained: "contained s0 s \<Longrightarrow> contained s0 (s\<lparr>ms_cache := c\<rparr>)"
  by (erule contained_step) auto

lemma store_output_contained:
  assumes "contained s0 s" and "d \<in> set (owned s ''material'')" and "path_under d out"
    and "store_output (out, partial) content s = (r, t)"
  shows "contained s0 t"
proof -
  consider "t = s\<lparr>ms_fs := unlink out (unlink partial (ms_fs s))\<rparr>"
    | b where "t = s\<lparr>ms_fs := (ms_fs s)(partial := None, out \<mapsto> File b)\<rparr>" "ms_fs s partial \<noteq> Some Dir" "ms_fs s out \<noteq> Some Dir"
    using assms(4) by (auto simp: store_output_def Let_def split: if_splits sum.splits)
  then show ?thesis
  proof cases
    case 1
    then show ?thesis using unlink_contained[OF unlink_contained[OF assms(1)]] by simp
  next
    case 2
    show ?thesis unfolding 2(1)
      by (rule contained_step[OF assms(1)]) (use assms(2,3) 2(2,3) in \<open>auto split: if_splits\<close>)
  qed
qed

lemma body_contained:
  assumes env: "mkdtemp_ok env"
  shows "keeps_at (contained s0) (abind (material_output_paths env ct i name mt) (\<lambda>paths. store_output paths content)) s"
proof -
  have "contained s0 t" if s: "contained s0 s"
    and r: "abind (material_output_paths env ct i name mt) (\<lambda>paths. store_output paths content) s = (r, t)" for r t
  proof (cases "safe_suffix name")
    case (Inl e)
    then show ?thesis using r s by (simp add: material_output_paths_def)
  next
    case (Inr safe)
    obtain w u where w: "material_workdir env s = (w, u)" by fastforce
    note u = workdir_contained[OF w s env]
    show ?thesis
    proof (cases w)
      case (Inl e)
      then show ?thesis using r u(1) Inr w by (simp add: material_output_paths_def)
    next
      case (Inr d)
      let ?out = "path_str (d @ ''/'' @ output_name i (choose_suffix safe mt ct))"
      have "d \<in> set (owned u ''material'')" by (rule u(2)[OF Inr])
      moreover from this have "path_under d ?out"
        using u(1) by (intro path_str_under) (auto simp: contained_def registry_ok_def)
      moreover have "store_output (?out, ?out @ ''.partial'') content u = (r, t)"
        using r Inr \<open>safe_suffix name = Inr safe\<close> w by (simp add: material_output_paths_def Let_def)
      ultimately show ?thesis by (rule store_output_contained[OF u(1)])
    qed
  qed
  then show ?thesis unfolding keeps_at_def by (metis prod.collapse)
qed

lemma base64_contained: "mkdtemp_ok env \<Longrightarrow> keeps_at (contained s0) (stream_base64_material env uri ct i) s"
  unfolding stream_base64_material_def by (auto intro!: keeps_abind keeps_basic body_contained split: prod.splits)

lemma http_contained: "mkdtemp_ok env \<Longrightarrow> keeps_at (contained s0) (stream_http_material env uri ct i) s"
  unfolding stream_http_material_def by (auto intro!: keeps_abind keeps_basic body_contained)

lemma tar_contained: "mkdtemp_ok env \<Longrightarrow> keeps_at (contained s0) (stream_tar_member_material env uri ct i) s"
  unfolding keeps_at_def stream_tar_member_material_def
  unfolding keeps_at_def[symmetric]
  by (auto intro!: keeps_abind keeps_basic keeps_araise_if body_contained simp: Let_def split: prod.splits)

lemma validate_once_contained: "keeps_at (contained s0) (validate_material_once env uri path ct) s"
proof -
  have "contained s0 t" if "contained s0 s" "validate_material_once env uri path ct s = (r, t)" for r t
    by (rule contained_step[OF that(1)]) (use validate_once_keeps[OF that(2)] in auto)
  then show ?thesis unfolding keeps_at_def by (metis prod.collapse)
qed

lemma local_source_contained: "keeps_at (contained s0) (local_source env uri path label ct) s"
  unfolding keeps_at_def local_source_def
  unfolding keeps_at_def[symmetric]
  by (auto intro!: keeps_abind keeps_basic validate_once_contained)

lemma materialise_contained:
  "(\<And>s. keeps_at (contained s0) read s) \<Longrightarrow> keeps_at (contained s0) (materialise env uri ct read) s"
  unfolding materialise_def
  by (auto intro!: keeps_abind keeps_basic keeps_on_error keeps_aupdate validate_once_contained unlink_contained cache_contained)

lemma read_remote_contained: "mkdtemp_ok env \<Longrightarrow> keeps_at (contained s0) (read_remote env scheme uri ct i) s"
  unfolding read_remote_def
  by (auto intro!: materialise_contained base64_contained http_contained tar_contained keeps_basic)

lemma cached_or_read_contained: "mkdtemp_ok env \<Longrightarrow> keeps_at (contained s0) (cached_or_read env scheme uri ct i) s"
  using read_remote_contained[of env s0 scheme uri ct i] local_source_contained[of s0 env uri _ _ ct] cache_contained
  unfolding keeps_at_def cached_or_read_def Let_def by (auto split: option.splits)

lemma localize_contained: "mkdtemp_ok env \<Longrightarrow> keeps_at (contained s0) (minimax_h3_localize_material_uri env uri ct i) s"
  by (rule localize_route[of env uri ct i]) (auto intro!: keeps_basic local_source_contained cached_or_read_contained)

lemma probe_material_contained: "mkdtemp_ok env \<Longrightarrow> keeps_at (contained s0) (minimax_h3_probe_material env uri ct i) s"
  unfolding minimax_h3_probe_material_def
proof (rule keeps_abind[OF localize_contained])
  fix path s'
  show "keeps_at (contained s0) (\<lambda>s. let facts = map_of (set_default (ms_probe s) []) (uri, ct)
     in araise_if (facts = None \<or> facts = Some [])
          (RuntimeError ''MiniMax H3 material localization completed without cached probe facts'')
          (areturn (dupdate [(''local_path'', PStr path)] (set_default facts []))) s) s'"
    by (auto simp: keeps_at_def Let_def araise_if_def)
qed

section \<open>Failed admission\<close>

abbreviation material_contained :: "material_state \<Rightarrow> queue_batch \<Rightarrow> bool" where
  "material_contained s0 b \<equiv> contained s0 (qb_material b)"

lemma on_material_keeps:
  assumes "\<And>s. keeps_at P m s"
  shows "keeps_at (\<lambda>b. P (qb_material b)) (on_material m) b"
  using assms[of "qb_material b"] by (cases "m (qb_material b)") (simp add: keeps_at_def on_material_def)

lemma probe_all_contained: "mkdtemp_ok env \<Longrightarrow> keeps_at (material_contained s0) (probe_all env plan) b"
  unfolding probe_all_def
  by (intro keeps_abind keeps_basic on_material_keeps keeps_amap probe_material_contained)

lemma batch_plan_contained: "keeps_at (material_contained s0) batch_plan b"
  by (auto simp: keeps_at_def batch_plan_def split: sum.splits option.splits batch_extra.splits prod.splits)

lemma fold_insert_set: "set (fold (\<lambda>p kept. if p \<in> set kept then kept else kept @ [p]) ps kept) = set kept \<union> set ps"
  by (induction ps arbitrary: kept) auto

text \<open>Moving the directories to the owner \<^verbatim>\<open>prequeue_material\<close> loses none of them.\<close>

lemma preserve_owned:
  "set (owned (preserve_prequeue_material_dirs s) owner) =
     (if owner = ''material'' then {} else if owner = ''prequeue_material'' then set (owned s owner) \<union> set (owned s ''material'')
      else set (owned s owner))"
  if "''material'' \<in> dom (map_of (set_default (ms_registry s) []))"
  using that by (auto simp: preserve_prequeue_material_dirs_def owned_def set_default_def Let_def dget_or_def dict_simps
      fold_insert_set split: option.splits)

lemma preserve_other:
  "''material'' \<notin> dom (map_of (set_default (ms_registry s) [])) \<Longrightarrow> preserve_prequeue_material_dirs s = s"
  by (auto simp: preserve_prequeue_material_dirs_def set_default_def split: option.splits)

lemma preserve_fs [simp]: "ms_fs (preserve_prequeue_material_dirs s) = ms_fs s"
  by (auto simp: preserve_prequeue_material_dirs_def Let_def split: option.splits)

lemma preserve_no_material: "owned (preserve_prequeue_material_dirs s) ''material'' = []"
proof (cases "''material'' \<in> dom (map_of (set_default (ms_registry s) []))")
  case True
  then show ?thesis using preserve_owned[OF True, of "''material''"] by simp
next
  case False
  then show ?thesis using preserve_other[OF False] by (auto simp: owned_def dget_or_def split: option.splits)
qed

lemma preserve_contained: "contained s0 s \<Longrightarrow> contained s0 (preserve_prequeue_material_dirs s)"
proof (cases "''material'' \<in> dom (map_of (set_default (ms_registry s) []))")
  case True
  let ?t = "preserve_prequeue_material_dirs s"
  assume c: "contained s0 s"
  have sub: "\<exists>owner'. d \<in> set (owned ?t owner')" if "d \<in> set (owned s owner)" for d owner
    using that preserve_owned[OF True, of owner] preserve_owned[OF True, of "''prequeue_material''"]
    by (intro exI[of _ "if owner = ''material'' then ''prequeue_material'' else owner"]) (simp split: if_splits)
  have "distinct (map fst (set_default (ms_registry ?t) []))" using c True
    by (auto simp: contained_def registry_ok_def preserve_prequeue_material_dirs_def set_default_def Let_def dset_def
        dpop_def distinct_update distinct_delete split: option.splits)
  then have "registry_ok ?t" by (simp add: registry_ok_def preserve_no_material)
  then show ?thesis using c sub unfolding contained_def preserve_fs by blast
qed (simp add: preserve_other)

lemma freeze_contained: "keeps_at (material_contained s0) (freeze_batch plan shape n) b"
  unfolding freeze_batch_def Let_def by (intro keeps_abind keeps_aupdate keeps_basic) (auto intro: preserve_contained)

lemma admission_contained: "mkdtemp_ok env \<Longrightarrow> keeps_at (material_contained s0) (admission_body env) b"
  unfolding admission_body_def
  by (intro keeps_abind keeps_aupdate keeps_basic batch_plan_contained probe_all_contained freeze_contained) auto

lemma owned_registered: "registry_ok s \<Longrightarrow> d \<in> set (owned s owner) \<Longrightarrow> d \<in> registered s"
  by (auto simp: registry_ok_def owned_def registered_def dget_or_def split: option.splits dest: map_of_SomeD)

lemma cleanup_contained:
  assumes "contained s0 s"
  shows "no_new_files s0 (minimax_h3_cleanup_temp_dirs None s)"
proof -
  have d: "distinct (map fst (set_default (ms_registry s) []))" using assms by (simp add: contained_def registry_ok_def)
  have "ms_fs s0 q = Some (File b)" if q: "ms_fs (minimax_h3_cleanup_temp_dirs None s) q = Some (File b)" for q b
  proof -
    have "ms_fs s q = Some (File b)" 
      using q rmtree_all_mono[of "concat (map snd (set_default (ms_registry s) []))" "ms_fs s" q] by (auto simp: cleanup_all[OF d])
    then consider "ms_fs s0 q = Some (File b)" | x owner where "x \<in> set (owned s owner)" "ms_fs s x = Some Dir" "path_under x q"
      using assms unfolding contained_def by blast
    then show ?thesis
    proof cases
      case 2
      then have "x \<in> registered s" using assms owned_registered by (auto simp: contained_def)
      then show ?thesis using cleanup_files(1)[OF d _ 2(2,3)] q by simp
    qed
  qed
  then show ?thesis by (simp add: no_new_files_def)
qed

lemma admission_fails:
  assumes "minimax_h3_prepare_for_queue env b = (Inl e, t)" and "registry_ok (qb_material b)" and "mkdtemp_ok env"
  shows "no_new_files (qb_material b) (qb_material t)"
    and "ms_registry (qb_material t) = None \<and> ms_cache (qb_material t) = None \<and> ms_probe (qb_material t) = None"
    and "qb_probe_facts t = None \<and> qb_material_shapes t = None"
proof -
  obtain u where u: "admission_body env b = (Inl e, u)" "t = drop_admission u"
    using assms(1) by (auto simp: minimax_h3_prepare_for_queue_def act_simps)
  have c: "contained (qb_material b) (qb_material u)"
    using keeps_atD[OF admission_contained[OF assms(3)] _ u(1)] contained_refl[OF assms(2)] by blast
  then have d: "distinct (map fst (set_default (ms_registry (qb_material u)) []))" by (simp add: contained_def registry_ok_def)
  show "no_new_files (qb_material b) (qb_material t)" using cleanup_contained[OF c] by (simp add: u(2) drop_admission_def)
  show "ms_registry (qb_material t) = None \<and> ms_cache (qb_material t) = None \<and> ms_probe (qb_material t) = None"
    "qb_probe_facts t = None \<and> qb_material_shapes t = None"
    by (simp_all add: u(2) drop_admission_def cleanup_all[OF d])
qed

section \<open>Successful admission\<close>

text \<open>What the plan of a validated request says about its shape: each part is fixed and in range, or deferred.\<close>

definition geometry_fixed :: "pydict \<Rightarrow> bool" where
  "geometry_fixed shape \<longleftrightarrow>
     (\<exists>W H. canvas_ok W H \<and> map_of shape ''width'' = Some (PInt W) \<and> map_of shape ''height'' = Some (PInt H))"

definition geometry_sound :: "pydict \<Rightarrow> bool" where
  "geometry_sound shape \<longleftrightarrow> (geometry_fixed shape \<and> dget shape ''geometry'' = PStr ''resolved_v2'') \<or>
     (dget shape ''geometry'' = PStr ''deferred'' \<and>
      (\<exists>b. map_of shape ''base_short_edge'' = Some (PInt b) \<and> 1 \<le> b \<and> b \<le> 2 ^ 50))"

definition frames_fixed :: "pydict \<Rightarrow> bool" where
  "frames_fixed shape \<longleftrightarrow>
     (\<exists>n alt. map_of shape ''frame_count'' = Some (PInt (minimax_h3_align_frame_count n)) \<and> 96 \<le> n \<and> n \<le> 360 \<and>
        map_of shape ''video_latent_t'' = Some (PInt (minimax_h3_video_latent_t (minimax_h3_align_frame_count n))) \<and>
        map_of shape ''audio_latent_t'' = Some (PInt alt) \<and> 160 \<le> alt \<and> alt \<le> 640)"

definition frames_sound :: "pydict \<Rightarrow> bool" where
  "frames_sound shape \<longleftrightarrow> frames_fixed shape \<or> dget shape ''temporal'' = PStr ''deferred_from_audio_reference''"

lemma dget_map_of: "map_of d k = Some v \<Longrightarrow> dget d k = v" "map_of d k = map_of e k \<Longrightarrow> dget d k = dget e k"
  by (simp_all add: dget_def)

lemma resolve_spatial_sound:
  assumes p: "minimax_h3_task_profile t = Inr p" and ar: "ratio_known ar" and b: "1 \<le> b" "b \<le> 2 ^ 50"
    and out: "resolve_spatial shape (target_entry b ar du) (tp_auto_aspect_ratio p) (tp_auto_geometry_source p) = Inr out"
  shows "geometry_sound out" and "k \<in> {''frame_count'', ''temporal'', ''fps'', ''video_latent_t'', ''audio_latent_t''} \<Longrightarrow> map_of out k = map_of shape k"
proof -
  have "geometry_sound out \<and> (\<forall>k \<in> {''frame_count'', ''temporal'', ''fps'', ''video_latent_t'', ''audio_latent_t''}. map_of out k = map_of shape k)"
  proof (cases "target_ratio p ar")
    case None
    then have a: "ar = ''auto''" "tp_auto_aspect_ratio p = None" by (auto simp: target_ratio_def split: if_splits)
    have l: "map_of (target_entry b ar du) ''aspect_ratio'' = Some (PStr ar)" by (simp add: target_entry_def)
    have v: "validate_base_short_edge (PInt b) = Inr b" using b by (simp add: validate_base_short_edge_PInt)
    obtain g where "out = dset ''size_mode'' (PStr ''deferred'') (dset ''base_short_edge'' (PInt b)
         (dset ''shape_policy_version'' (PStr MINIMAX_H3_SHAPE_POLICY_VERSION)
         (dset ''geometry_source'' g (dset ''geometry'' (PStr ''deferred'') shape))))"
      using out by (auto simp: resolve_spatial_def dindex_def v a l[unfolded a] rbind_Inr_iff split: option.splits)
    then show ?thesis using b by (auto simp: geometry_sound_def dget_def dict_simps)
  next
    case (Some r)
    obtain shape' mode W H where R: "canvas_ok W H" "out = dupdate shape' (spatial_shape_dict b mode W H)"
      "\<And>k. k \<noteq> ''geometry_source'' \<Longrightarrow> map_of shape' k = map_of shape k"
      using resolve_spatial_explicit[OF Some target_ratio_ok[OF p ar Some] b, of shape du] out by (metis Inr_inject)
    show ?thesis using R by (auto simp: geometry_sound_def geometry_fixed_def dget_def dict_simps spatial_shape_dict_def)
  qed
  then show "geometry_sound out" "k \<in> {''frame_count'', ''temporal'', ''fps'', ''video_latent_t'', ''audio_latent_t''} \<Longrightarrow> map_of out k = map_of shape k" by auto
qed

lemma resolve_shape_sound:
  assumes p: "minimax_h3_task_profile t = Inr p" and ok: "target_ok p se ar du" and ar: "ratio_known ar" and se: "se \<le> 2 ^ 50"
    and shape: "resolve_shape (PDict (target_entry se ar du)) p = Inr shape"
  shows "geometry_sound shape \<and> frames_sound shape"
proof (cases du)
  case None
  have se1: "1 \<le> se" using ok by (simp add: target_ok_def)
  have "map_of (target_entry se ar du) ''duration_seconds'' = None" by (simp add: target_entry_def None)
  note S = resolve_spatial_sound[OF p ar se1 se shape[unfolded resolve_shape_def pyval.case this option.case]]
  show ?thesis using S(1) S(2)[of "''temporal''"] by (simp add: frames_sound_def dget_def)
next
  case (Some d)
  have se1: "1 \<le> se" using ok by (simp add: target_ok_def)
  obtain n ds vt alt where T: "96 \<le> n" "n \<le> 360" "temporal_fields d = Inr (minimax_h3_align_frame_count n, ds, vt, alt)"
      "vt = minimax_h3_video_latent_t (minimax_h3_align_frame_count n)" "160 \<le> alt" "alt \<le> 640"
    by (rule temporal_fields_range[OF ok[unfolded Some]])
  have "map_of (target_entry se ar du) ''duration_seconds'' = Some (PFloat d)" by (simp add: target_entry_def Some)
  note S = resolve_spatial_sound[OF p ar se1 se shape[unfolded resolve_shape_def pyval.case this option.case
        py_float.simps rbind.simps T(3) prod.case]]
  have "frames_fixed shape" unfolding frames_fixed_def
    by (intro exI[of _ n] exI[of _ alt]) (use S(2)[of "''frame_count''"] S(2)[of "''video_latent_t''"] S(2)[of "''audio_latent_t''"] T in simp)
  then show ?thesis using S(1) by (simp add: frames_sound_def)
qed

text \<open>A deferred geometry takes the spatial fields from the keyframe and records where they come from.\<close>

lemma shape_source_keeps:
  assumes "shape_source m shape = Inr out"
    and "k \<notin> {''geometry_source'', ''geometry_source_condition_index'', ''geometry_source_frame_index''}"
  shows "map_of out k = map_of shape k"
proof -
  have "\<exists>g i f. out \<in> {dset ''geometry_source_condition_index'' i (dset ''geometry_source'' g shape),
      dset ''geometry_source_frame_index'' f (dset ''geometry_source_condition_index'' i (dset ''geometry_source'' g shape))}"
    using assms(1) unfolding shape_source_def Let_def by (auto simp only: rbind_Inr_iff sum.inject split: if_splits)
  then show ?thesis using assms(2) by (elim exE insertE emptyE) (simp_all add: map_of_dset)
qed

lemma deferred_spatial_cases:
  assumes "resolve_deferred_spatial_shape plan shape facts = Inr out"
  obtains (fixed) "py_str (dget shape ''geometry'') \<noteq> ''deferred''" "out = shape"
    | (deferred) w h b base spatial where "py_str (dget shape ''geometry'') = ''deferred''"
        "map_of shape ''base_short_edge'' = Some b" "py_int b = Inr base"
        "minimax_h3_resolve_spatial_shape (PFloat w) (PFloat h) (PInt base) = Inr spatial"
        "\<And>k. k \<notin> {''geometry_source'', ''geometry_source_condition_index'', ''geometry_source_frame_index''} \<Longrightarrow>
           map_of out k = map_of (dupdate shape spatial) k"
proof (cases "py_str (dget shape ''geometry'') = ''deferred''")
  case False
  then have "out = shape" using assms by (simp add: resolve_deferred_spatial_shape_def)
  then show ?thesis by (rule fixed[OF False])
next
  case True
  let ?src = "{''geometry_source'', ''geometry_source_condition_index'', ''geometry_source_frame_index''}"
  obtain m w h b base spatial where S: "map_of shape ''base_short_edge'' = Some b" "py_int b = Inr base"
      "minimax_h3_resolve_spatial_shape (PFloat w) (PFloat h) (PInt base) = Inr spatial"
    and out: "shape_source m (dupdate shape spatial) = Inr out"
    using assms True unfolding resolve_deferred_spatial_shape_def
    by (auto simp: rbind_Inr_iff dindex_def split: option.splits)
  have "map_of out k = map_of (dupdate shape spatial) k" if "k \<notin> ?src" for k
    by (rule shape_source_keeps[OF out that])
  then show ?thesis using deferred[OF True S] by blast
qed

lemma deferred_spatial_sound:
  assumes "resolve_deferred_spatial_shape plan shape facts = Inr out" and "geometry_sound shape"
  shows "geometry_fixed out \<or> dget out ''geometry'' = PStr ''deferred''"
  using assms(1)
proof (cases rule: deferred_spatial_cases)
  case fixed
  then show ?thesis using assms(2) by (auto simp: geometry_sound_def)
next
  case (deferred w h b base spatial)
  have "\<exists>b. map_of shape ''base_short_edge'' = Some (PInt b) \<and> 1 \<le> b \<and> b \<le> 2 ^ 50"
    using assms(2) deferred(1) by (auto simp: geometry_sound_def)
  then have base: "1 \<le> base" "base \<le> 2 ^ 50" using deferred(2,3) by auto
  obtain mode W H where s: "spatial = spatial_shape_dict base mode W H" and c: "canvas_ok W H"
    using resolve_spatial_shape_Inr[OF deferred(4) validate_base_short_edge_PInt base(2)] base by auto
  have "map_of out ''width'' = Some (PInt W)" "map_of out ''height'' = Some (PInt H)"
    using deferred(5) by (simp_all add: s dict_simps spatial_shape_dict_def)
  then show ?thesis using c unfolding geometry_fixed_def by blast
qed

lemma spatial_shape_keys: "minimax_h3_resolve_spatial_shape vw vh vb = Inr d \<Longrightarrow> \<exists>b mode w h. d = spatial_shape_dict b mode w h"
  by (auto simp: minimax_h3_resolve_spatial_shape_def res_simps)

lemma deferred_spatial_keeps:
  assumes "resolve_deferred_spatial_shape plan shape facts = Inr out" and "k \<in> {''frame_count'', ''temporal'', ''fps'', ''video_latent_t'', ''audio_latent_t''}"
  shows "map_of out k = map_of shape k"
  using assms(1)
proof (cases rule: deferred_spatial_cases)
  case (deferred w h b base spatial)
  obtain b' mode W H where "spatial = spatial_shape_dict b' mode W H" using spatial_shape_keys[OF deferred(4)] by blast
  then show ?thesis using deferred(5)[of k] assms(2) by (auto simp: dict_simps spatial_shape_dict_def)
qed simp

lemma reference_duration_range:
  assumes "reference_duration plan facts = Inr d"
  shows "validate_duration (PFloat d) = Inr d"
proof -
  have "fle MINIMAX_H3_MIN_DURATION_SECONDS d \<and> fle d MINIMAX_H3_MAX_DURATION_SECONDS"
  proof -
    obtain hs where "(case map snd (filter fst (zip hs (rp_materials plan))) of
       [source] \<Rightarrow>
         rbind (facts_at facts (mi_condition_index source)) (\<lambda>facts.
         rbind (catch_ktv (rbind (float_at facts ''audio_duration_seconds'') (\<lambda>d.
                  Inr (fsub d (mi_start_time_seconds source))))
                (ValueError ''audio reference has no positive probed duration'')) (\<lambda>duration.
         raise_if (fle duration (Fin 0)) (ValueError ''audio reference has no positive probed duration'')
         (raise_if (\<not> (fle MINIMAX_H3_MIN_DURATION_SECONDS duration \<and> fle duration MINIMAX_H3_MAX_DURATION_SECONDS))
            (ValueError ''audio reference duration must be in [4, 15] seconds'') (Inr duration))))
     | _ \<Rightarrow> Inl (ValueError ''audio-derived target duration requires exactly one probed condition with an audio stream'')) = Inr d"
      using assms unfolding reference_duration_def rbind_Inr_iff by blast
    then show ?thesis by (auto simp: res_simps split: list.split_asm)
  qed
  then obtain x where "d = Fin x" "4 \<le> x" "x \<le> 15"
    by (cases d) (auto simp: fle_def MINIMAX_H3_MIN_DURATION_SECONDS_def MINIMAX_H3_MAX_DURATION_SECONDS_def)
  then show ?thesis by (simp add: validate_duration_def MINIMAX_H3_MIN_DURATION_SECONDS_def
      MINIMAX_H3_MAX_DURATION_SECONDS_def is_finite_def fle_def)
qed

lemma deferred_temporal_sound:
  assumes "resolve_deferred_temporal_shape plan shape facts = Inr out" and "frames_sound shape"
  shows "frames_fixed out" and "k \<in> {''geometry'', ''width'', ''height'', ''fps''} \<Longrightarrow> map_of out k = map_of shape k"
proof -
  have "frames_fixed out \<and> (\<forall>k \<in> {''geometry'', ''width'', ''height'', ''fps''}. map_of out k = map_of shape k)"
  proof (cases "py_str (dget shape ''temporal'') = ''deferred_from_audio_reference''")
    case False
    then have "out = shape" using assms(1) by (simp add: resolve_deferred_temporal_shape_def)
    then show ?thesis using assms(2) False by (auto simp: frames_sound_def)
  next
    case True
    obtain d fc ad vt alt where d: "reference_duration plan facts = Inr d" "temporal_fields d = Inr (fc, ad, vt, alt)"
      and out: "out = dupdate shape
          [(''temporal'', PStr ''resolved_from_audio_reference''), (''duration_seconds'', PFloat ad),
           (''frame_count'', PInt fc), (''video_latent_t'', PInt vt), (''audio_latent_t'', PInt alt)]"
      using assms(1) True by (auto simp: resolve_deferred_temporal_shape_def res_simps)
    have "target_ok profile_ref2va 768 ''auto'' (Some d)"
      using reference_duration_range[OF d(1)] by (simp add: target_ok_def)
    then obtain n ds vt' alt' where n: "96 \<le> n" "n \<le> 360" "temporal_fields d = Inr (minimax_h3_align_frame_count n, ds, vt', alt')"
        "vt' = minimax_h3_video_latent_t (minimax_h3_align_frame_count n)" "160 \<le> alt'" "alt' \<le> 640"
      by (rule temporal_fields_range)
    then have eq: "fc = minimax_h3_align_frame_count n" "vt = vt'" "alt = alt'" using d(2) by simp_all
    have "frames_fixed out" unfolding frames_fixed_def by (intro exI[of _ n] exI[of _ alt]) (use n eq in \<open>simp add: out dict_simps\<close>)
    then show ?thesis by (simp add: out dict_simps)
  qed
  then show "frames_fixed out" "k \<in> {''geometry'', ''width'', ''height'', ''fps''} \<Longrightarrow> map_of out k = map_of shape k" by auto
qed

lemma target_shape_sound:
  assumes "resolved_target_shape plan facts = Inr shape" and "geometry_sound (rp_shape plan)" and "frames_sound (rp_shape plan)"
  shows "geometry_fixed shape" and "frames_fixed shape" and "py_str (dget shape ''geometry'') = ''resolved_v2''"
proof -
  obtain sh where sp: "resolve_deferred_spatial_shape plan (rp_shape plan) facts = Inr sh"
    and te: "resolve_deferred_temporal_shape plan sh facts = Inr shape"
    and g: "py_str (dget shape ''geometry'') = ''resolved_v2''"
    using assms(1) by (auto simp: resolved_target_shape_def res_simps)
  show "py_str (dget shape ''geometry'') = ''resolved_v2''" by (rule g)
  have keep: "k \<in> {''frame_count'', ''temporal'', ''fps'', ''video_latent_t'', ''audio_latent_t''} \<Longrightarrow> map_of sh k = map_of (rp_shape plan) k" for k
    using deferred_spatial_keeps[OF sp] .
  have "frames_sound sh" using assms(3) keep[of "''frame_count''"] keep[of "''temporal''"]
      keep[of "''video_latent_t''"] keep[of "''audio_latent_t''"]
    by (simp add: frames_sound_def frames_fixed_def dget_def)
  note T = deferred_temporal_sound[OF te this]
  show "frames_fixed shape" by (rule T(1))
  have "dget sh ''geometry'' = dget shape ''geometry''" using T(2)[of "''geometry''"] by (simp add: dget_def)
  then have "geometry_fixed sh" using deferred_spatial_sound[OF sp assms(2)] g by auto
  then show "geometry_fixed shape" using T(2)[of "''width''"] T(2)[of "''height''"] by (simp add: geometry_fixed_def)
qed

text \<open>A successful run, step by step.\<close>

lemma admission_returns:
  assumes "minimax_h3_prepare_for_queue env b = (Inr plan, t)"
  obtains p0 facts shape W H n b1 b2 b3 where "batch_plan b = (Inr p0, b1)" "probe_all env p0 b1 = (Inr facts, b2)"
    "resolved_target_shape p0 facts = Inr shape" "plan = replace_plan_shape p0 shape"
    "rbind (dindex shape ''width'') py_int = Inr W" "rbind (dindex shape ''height'') py_int = Inr H"
    "resolved_work_frame_count shape = Inr n"
    "material_shapes p0 shape facts = Inr (set_default (qb_material_shapes t) [])"
    "qb_probe_facts t = Some facts" "qb_material_shapes t \<noteq> None"
    "qb_extra t = dset MINIMAX_H3_RESOLVED_PLAN_EXTRA_KEY (EPlan plan) b3"
    "qb_width t = Some W" "qb_height t = Some H" "qb_fps t = Some MINIMAX_H3_SUPPORTED_FPS" "qb_num_frames t = Some n"
    "qb_material t = preserve_prequeue_material_dirs (qb_material b2)"
proof -
  obtain p0 b1 facts b2 shape shapes n where
    S: "batch_plan b = (Inr p0, b1)" "probe_all env p0 b1 = (Inr facts, b2)" "resolved_target_shape p0 facts = Inr shape"
      "material_shapes p0 shape facts = Inr shapes" "resolved_work_frame_count shape = Inr n"
    and f: "freeze_batch p0 shape n (b2\<lparr>qb_probe_facts := Some facts, qb_material_shapes := Some shapes\<rparr>) = (Inr plan, t)"
    using assms unfolding minimax_h3_prepare_for_queue_def admission_body_def act_simps by (elim exE conjE) (metis that)
  obtain W H where w: "plan = replace_plan_shape p0 shape" "rbind (dindex shape ''width'') py_int = Inr W"
      "rbind (dindex shape ''height'') py_int = Inr H"
    and t: "t = b2\<lparr>qb_probe_facts := Some facts, qb_material_shapes := Some shapes,
       qb_extra := dset MINIMAX_H3_RESOLVED_PLAN_EXTRA_KEY (EPlan (replace_plan_shape p0 shape)) (qb_extra b2), qb_width := Some W,
       qb_height := Some H, qb_fps := Some MINIMAX_H3_SUPPORTED_FPS, qb_num_frames := Some n,
       qb_material := preserve_prequeue_material_dirs (qb_material b2)\<rparr>"
    using f by (auto simp: freeze_batch_def Let_def act_simps)
  show ?thesis by (rule that[OF S(1-3) w S(5), of "qb_extra b2"]) (simp_all add: t w(1) S(4) set_default_def)
qed

lemma amap_Inr_map:
  assumes "amap f xs s = (Inr ys, t)" and "\<And>x s y t. f x s = (Inr y, t) \<Longrightarrow> g y = h x"
  shows "map g ys = map h xs"
  using assms(1) by (induction xs arbitrary: s ys) (auto simp: act_simps dest: assms(2))

lemma probe_all_complete:
  assumes "probe_all env plan b = (Inr facts, t)" and "m \<in> set (rp_materials plan)"
  shows "map_of facts (mi_condition_index m) \<noteq> None"
proof -
  obtain ps s' where a: "amap (\<lambda>m. abind (minimax_h3_probe_material env (mi_uri m) (mi_condition_type m) (mi_condition_index m))
              (\<lambda>f. areturn (mi_condition_index m, f))) (rp_materials plan) (qb_material b) = (Inr ps, s')"
    and f: "facts = dupdate [] ps"
    using assms(1) by (auto simp: probe_all_def on_material_def act_simps split: prod.splits)
  have "map fst ps = map mi_condition_index (rp_materials plan)"
    by (rule amap_Inr_map[OF a]) (auto simp: act_simps)
  then have "mi_condition_index m \<in> set (map fst ps)" using assms(2) by simp
  then have "map_of (rev ps) (mi_condition_index m) \<noteq> None" by (simp add: map_of_eq_None_iff)
  then show ?thesis by (simp add: f dict_simps map_add_def)
qed

lemma batch_plan_from_canonical:
  assumes "map_of (qb_extra b) MINIMAX_H3_RESOLVED_PLAN_EXTRA_KEY = None"
    and "map_of (qb_extra b) MINIMAX_H3_CANONICAL_REQUEST_EXTRA_KEY = Some (EVal (PDict canonical))"
    and "batch_plan b = (Inr p0, b1)"
  shows "minimax_h3_resolve_plan (PDict canonical) = Inr p0"
proof -
  have "plan_from_mapping (qb_extra b) = rbind (minimax_h3_resolve_plan (PDict canonical)) (\<lambda>plan. Inr (Some plan))"
    using assms(1,2) by (simp add: plan_from_mapping_def extra_get_def dget_or_def resolve_extra_canonical_def)
  then show ?thesis using assms(3) unfolding batch_plan_def minimax_h3_plan_from_batch_def batch_extra.case
    by (cases "minimax_h3_resolve_plan (PDict canonical)") (simp_all split: extra_val.splits)
qed

lemma replace_plan_fields [simp]:
  "rp_shape (replace_plan_shape p shape) = shape" "rp_materials (replace_plan_shape p shape) = rp_materials p"
  "replace_plan_shape p shape = p\<lparr>rp_shape := shape\<rparr>"
  by (simp_all add: replace_plan_shape_def)

text \<open>The workload of an admitted request: a canvas and a frame count within bounds.\<close>

definition workload_ok :: "queue_batch \<Rightarrow> pydict \<Rightarrow> bool" where
  "workload_ok t shape \<longleftrightarrow> (\<exists>W H n. qb_width t = Some W \<and> qb_height t = Some H \<and> qb_num_frames t = Some n \<and>
     qb_fps t = Some 24 \<and> dget shape ''width'' = PInt W \<and> dget shape ''height'' = PInt H \<and> dget shape ''frame_count'' = PInt n \<and>
     canvas_ok W H \<and> n mod 17 = 5 \<and> 107 \<le> n \<and> n \<le> 362)"

lemma aligned_range: "96 \<le> n \<Longrightarrow> n \<le> 360 \<Longrightarrow>
   minimax_h3_align_frame_count n mod 17 = 5 \<and> 107 \<le> minimax_h3_align_frame_count n \<and> minimax_h3_align_frame_count n \<le> 362"
proof -
  assume n: "96 \<le> n" "n \<le> 360"
  have "minimax_h3_align_frame_count 96 \<le> minimax_h3_align_frame_count n" "minimax_h3_align_frame_count n \<le> minimax_h3_align_frame_count 360"
    using n by (intro align_frame_count_mono; simp)+
  moreover have "minimax_h3_align_frame_count 96 = 107" "minimax_h3_align_frame_count 360 = 362" by code_simp+
  ultimately show ?thesis using align_frame_count_mod[of n] n by simp
qed

lemma admission_workload:
  assumes "minimax_h3_prepare_for_queue env b = (Inr plan, t)"
    and "\<And>p0 b1. batch_plan b = (Inr p0, b1) \<Longrightarrow> geometry_sound (rp_shape p0) \<and> frames_sound (rp_shape p0)"
  shows "workload_ok t (rp_shape plan)"
  using assms(1)
proof (cases rule: admission_returns)
  case (1 p0 facts shape W H n b1 b2 b3)
  note S = target_shape_sound[OF 1(3)] and a = assms(2)[OF 1(1)]
  obtain W' H' where g: "canvas_ok W' H'" "map_of shape ''width'' = Some (PInt W')" "map_of shape ''height'' = Some (PInt H')"
    using S(1) a by (auto simp: geometry_fixed_def)
  obtain k where k: "map_of shape ''frame_count'' = Some (PInt (minimax_h3_align_frame_count k))" "96 \<le> k" "k \<le> 360"
    using S(2) a by (auto simp: frames_fixed_def)
  have "W = W'" "H = H'" "n = minimax_h3_align_frame_count k"
    using 1(5-7) g k by (auto simp: dindex_def resolved_work_frame_count_def dget_def)
  then show ?thesis using 1(4) 1(12-15) g k aligned_range[OF k(2,3)]
    by (auto simp: workload_ok_def dget_def MINIMAX_H3_SUPPORTED_FPS_def)
qed

end
