(* ===== verification/Canvas.thy ===== *)
theory Canvas
  imports Prequeue_Correct
begin

text \<open>
  \<^verbatim>\<open>minimax_h3/canvas.py\<close>: the preparation of keyframe images on the target canvas that admission has fixed. The
  cover-crop plan is binary64 arithmetic; Pillow's images are a type variable with the operations the code calls
  as the parameter \<open>pil\<close>; decoding happens lazily, so opening, transposing and converting may each raise. The prepared keyframes are cached per request.
\<close>

section \<open>Cover and crop\<close>

record crop_plan =
  cp_scale :: pyfloat
  cp_resized_size :: "int \<times> int"
  cp_crop_box :: "int \<times> int \<times> int \<times> int"

text \<open>\<^verbatim>\<open>target / float(source)\<close>: the target integer is converted first.\<close>

definition side_scale :: "int \<Rightarrow> int \<Rightarrow> pyfloat res" where
  "side_scale target source =
     rbind (float_of_int source) (\<lambda>s. rbind (float_of_int target) (\<lambda>t. fdiv t s))"

definition scaled_length :: "int \<Rightarrow> pyfloat \<Rightarrow> int res" where
  "scaled_length source scale = rbind (float_of_int source) (\<lambda>s. py_round (fmul s scale))"

definition crop_plan_at :: "int \<Rightarrow> int \<Rightarrow> int \<Rightarrow> int \<Rightarrow> bool \<Rightarrow> pyfloat \<Rightarrow> crop_plan res" where
  "crop_plan_at source_width source_height target_width target_height allow_upscale scale =
     raise_if (flt (Fin 1) scale \<and> \<not> allow_upscale)
       (ValueError ''target_canvas cover_crop would upscale the source; set allow_upscale=true'')
     (rbind (scaled_length source_width scale) (\<lambda>rw.
      rbind (scaled_length source_height scale) (\<lambda>rh.
      let resized_width = max target_width rw;
          resized_height = max target_height rh;
          left = max 0 ((resized_width - target_width) div 2);
          top = max 0 ((resized_height - target_height) div 2)
      in Inr \<lparr>cp_scale = scale, cp_resized_size = (resized_width, resized_height),
              cp_crop_box = (left, top, left + target_width, top + target_height)\<rparr>)))"

definition minimax_h3_cover_crop_plan :: "int \<Rightarrow> int \<Rightarrow> int \<Rightarrow> int \<Rightarrow> bool \<Rightarrow> crop_plan res" where
  "minimax_h3_cover_crop_plan source_width source_height target_width target_height allow_upscale =
     raise_if (source_width \<le> 0 \<or> source_height \<le> 0) (ValueError ''cover_crop requires positive source width/height'')
     (rbind (side_scale target_width source_width) (\<lambda>sw.
      rbind (side_scale target_height source_height) (\<lambda>sh.
      crop_plan_at source_width source_height target_width target_height allow_upscale (if flt sw sh then sh else sw))))"

section \<open>Images\<close>

record 'img pil =
  pil_open :: "fs \<Rightarrow> string \<Rightarrow> 'img res"
  pil_exif_transpose :: "'img \<Rightarrow> 'img res"
  pil_rgb :: "'img \<Rightarrow> 'img res"
  pil_size :: "'img \<Rightarrow> int \<times> int"
  pil_resize :: "'img \<Rightarrow> int \<times> int \<Rightarrow> 'img"
  pil_crop :: "'img \<Rightarrow> int \<times> int \<times> int \<times> int \<Rightarrow> 'img"

definition minimax_h3_prepare_keyframe_canvas :: "'img pil \<Rightarrow> 'img \<Rightarrow> int \<Rightarrow> int \<Rightarrow> bool \<Rightarrow> 'img res" where
  "minimax_h3_prepare_keyframe_canvas pil img target_width target_height allow_upscale =
     rbind (pil_rgb pil img) (\<lambda>img.
      if pil_size pil img = (target_width, target_height) then Inr img
      else rbind (minimax_h3_cover_crop_plan (fst (pil_size pil img)) (snd (pil_size pil img))
                    target_width target_height allow_upscale) (\<lambda>plan.
        Inr (pil_crop pil (pil_resize pil img (cp_resized_size plan)) (cp_crop_box plan))))"

definition minimax_h3_stretch_keyframe_canvas :: "'img pil \<Rightarrow> 'img \<Rightarrow> int \<Rightarrow> int \<Rightarrow> 'img res" where
  "minimax_h3_stretch_keyframe_canvas pil img target_width target_height =
     rbind (pil_rgb pil img) (\<lambda>img.
      Inr (if pil_size pil img = (target_width, target_height) then img
           else pil_resize pil img (target_width, target_height)))"

section \<open>The checks\<close>

definition keyframe_materials :: "resolved_plan \<Rightarrow> material_item list" where
  "keyframe_materials plan = filter (\<lambda>m. mi_material_chain m = ''image.target_canvas'') (rp_materials plan)"

definition keyframe_canvas_size :: "pydict \<Rightarrow> (int \<times> int) res" where
  "keyframe_canvas_size shape =
     rbind (dindex shape ''geometry'') (\<lambda>g.
     raise_if (py_str g \<noteq> ''resolved_v2'') (ValueError ''keyframe preparation requires pre-queue resolved_v2 geometry'')
     (rbind (dindex shape ''width'') (\<lambda>w. rbind (py_int w) (\<lambda>width.
      rbind (dindex shape ''height'') (\<lambda>h. rbind (py_int h) (\<lambda>height. Inr (width, height)))))))"

text \<open>\<^verbatim>\<open>resolved_frame_index == (frame_count - 1 if index == -1 else index)\<close>.\<close>

definition pixel_matches :: "int \<Rightarrow> material_item \<Rightarrow> bool" where
  "pixel_matches frame_count m = (case mi_resolved_frame_index m of
      None \<Rightarrow> False
    | Some r \<Rightarrow> if eq_int (mi_frame_index m) (- 1) then r = frame_count - 1 else eq_int (mi_frame_index m) r)"

definition validate_keyframe_materials :: "resolved_plan \<Rightarrow> material_item list \<Rightarrow> pyval list res" where
  "validate_keyframe_materials plan keyframes =
     raise_if (rp_task plan \<notin> {''fl2va'', ''ref2va''})
       (ValueError ''keyframe target-canvas materials require plan.task=fl2va or ref2va'')
     (let semantic_indices = map mi_frame_index keyframes in
      raise_if (\<not> matches_signature semantic_indices)
        (ValueError ''MiniMax H3 keyframes must use one of the ordered frame_index signatures'')
      (case dget (rp_shape plan) ''frame_count'' of
         PInt frame_count \<Rightarrow>
           raise_if (frame_count \<le> 1) (ValueError ''keyframe preparation requires frame_count > 1'')
           (raise_if (\<not> list_all (pixel_matches frame_count) keyframes)
              (ValueError ''keyframe resolved_frame_index values disagree with semantic anchors'')
              (Inr semantic_indices))
       | _ \<Rightarrow> Inl (ValueError ''keyframe preparation requires an integer frame_count'')))"

text \<open>\<^verbatim>\<open>int(d.get(k) or 0)\<close>.\<close>

definition int_or_0 :: "pydict \<Rightarrow> string \<Rightarrow> int res" where
  "int_or_0 d k = (if truthy (dget d k) then py_int (dget d k) else Inr 0)"

definition check_keyframe_shape ::
  "(nat \<times> pydict) list option \<Rightarrow> (nat \<times> pydict) list option \<Rightarrow> int \<times> int \<Rightarrow> material_item \<Rightarrow> unit res" where
  "check_keyframe_shape probe_facts shapes canvas m =
     (let i = mi_condition_index m; get = (\<lambda>t. case t of None \<Rightarrow> None | Some d \<Rightarrow> map_of d i) in
      case (get probe_facts, get shapes) of
        (Some facts, Some shape) \<Rightarrow>
          rbind (int_or_0 shape ''width'') (\<lambda>w.
          rbind (int_or_0 shape ''height'') (\<lambda>h.
          raise_if ((w, h) \<noteq> canvas)
            (ValueError ''fl2va keyframe material shape disagrees with the resolved target'') (Inr ())))
      | _ \<Rightarrow> Inl (ValueError ''fl2va keyframe preparation requires cached pre-queue probe and shape facts''))"

section \<open>Preparation\<close>

record 'img keyframe_entry =
  ke_image :: 'img
  ke_canvas :: "int \<times> int"
  ke_condition_index :: nat
  ke_frame_index :: "int option"
  ke_resolved_frame_index :: "int option"

record 'img prepared_keyframes =
  pk_image :: 'img
  pk_canvas :: "int \<times> int"
  pk_images :: "'img keyframe_entry list"
  pk_semantic_frame_indices :: "int list"
  pk_pixel_frame_indices :: "int list"
  pk_frame_count :: "int option"

record 'img canvas_batch =
  cb_batch :: queue_batch
  cb_prepared :: "'img prepared_keyframes option"

definition on_batch :: "(queue_batch, 'a) act \<Rightarrow> ('img canvas_batch, 'a) act" where
  "on_batch m b = (case m (cb_batch b) of (r, q) \<Rightarrow> (r, b\<lparr>cb_batch := q\<rparr>))"

text \<open>One keyframe: localise, open, transpose, and stretch the first or cover-crop the second.\<close>

definition open_image :: "'img pil \<Rightarrow> string \<Rightarrow> ('img canvas_batch, 'img) act" where
  "open_image pil path b =
     (rbind (pil_open pil (ms_fs (qb_material (cb_batch b))) path) (pil_exif_transpose pil), b)"

definition opt_int :: "pyval \<Rightarrow> int option res" where
  "opt_int v = (if v = PNone then Inr None else rbind (py_int v) (\<lambda>n. Inr (Some n)))"

definition prepare_keyframe ::
  "io_env \<Rightarrow> 'img pil \<Rightarrow> int \<times> int \<Rightarrow> nat \<times> material_item \<Rightarrow> ('img canvas_batch, 'img keyframe_entry) act" where
  "prepare_keyframe env pil canvas km = (case (km, canvas) of ((keyframe_index, m), (canvas_w, canvas_h)) \<Rightarrow>
     abind (on_batch (on_material (minimax_h3_localize_material_uri env (mi_uri m) (mi_condition_type m)
              (mi_condition_index m)))) (\<lambda>path.
     abind (open_image pil path) (\<lambda>img.
     abind (alift (if keyframe_index = 0 then minimax_h3_stretch_keyframe_canvas pil img canvas_w canvas_h
                   else minimax_h3_prepare_keyframe_canvas pil img canvas_w canvas_h True)) (\<lambda>prepared.
     abind (alift (opt_int (mi_frame_index m))) (\<lambda>frame_index.
     areturn \<lparr>ke_image = prepared, ke_canvas = (canvas_w, canvas_h), ke_condition_index = mi_condition_index m,
              ke_frame_index = frame_index, ke_resolved_frame_index = mi_resolved_frame_index m\<rparr>)))))"

text \<open>\<^verbatim>\<open>entries[0]\<close> raises on an empty list.\<close>

definition keyframe_payload :: "resolved_plan \<Rightarrow> int \<times> int \<Rightarrow> 'img keyframe_entry list \<Rightarrow> 'img prepared_keyframes res" where
  "keyframe_payload plan canvas entries = (case entries of
      [] \<Rightarrow> Inl IndexError
    | e # _ \<Rightarrow>
        rbind (opt_int (dget (rp_shape plan) ''frame_count'')) (\<lambda>frame_count.
        Inr \<lparr>pk_image = ke_image e, pk_canvas = canvas, pk_images = entries,
             pk_semantic_frame_indices = List.map_filter ke_frame_index entries,
             pk_pixel_frame_indices = List.map_filter ke_resolved_frame_index entries, pk_frame_count = frame_count\<rparr>))"

definition cached_keyframes ::
  "pyval list \<Rightarrow> material_item list \<Rightarrow> 'img prepared_keyframes \<Rightarrow> 'img prepared_keyframes res" where
  "cached_keyframes semantic_indices keyframes cached =
     raise_if (\<not> list_all2 eq_int semantic_indices (pk_semantic_frame_indices cached) \<or>
               length (pk_images cached) \<noteq> length keyframes)
       (ValueError ''cached keyframe preparation disagrees with the resolved plan'') (Inr cached)"

definition minimax_h3_prepared_keyframes ::
  "io_env \<Rightarrow> 'img pil \<Rightarrow> resolved_plan \<Rightarrow> ('img canvas_batch, 'img prepared_keyframes) act" where
  "minimax_h3_prepared_keyframes env pil plan b =
     (let keyframes = keyframe_materials plan in
      abind (alift (validate_keyframe_materials plan keyframes)) (\<lambda>semantic_indices.
      case cb_prepared b of
        Some cached \<Rightarrow> alift (cached_keyframes semantic_indices keyframes cached)
      | None \<Rightarrow>
          abind (alift (keyframe_canvas_size (rp_shape plan))) (\<lambda>canvas.
          abind (alift (rmap (check_keyframe_shape (qb_probe_facts (cb_batch b)) (qb_material_shapes (cb_batch b)) canvas)
                         keyframes)) (\<lambda>_.
          abind (amap (prepare_keyframe env pil canvas) (enumerate 0 keyframes)) (\<lambda>entries.
          abind (alift (keyframe_payload plan canvas entries)) (\<lambda>payload.
          abind (aupdate (\<lambda>b. b\<lparr>cb_prepared := Some payload\<rparr>)) (\<lambda>_.
          areturn payload)))))) b)"

end
