(* ===== verification/Canvas_Correct.thy ===== *)
theory Canvas_Correct
  imports Canvas
begin

text \<open>
  What keyframe preparation promises. The cover crop fits the canvas exactly along one side in spite of the rounding
  of binary64. After a successful admission every check of the preparation passes, so that it can fail only where a
  file is read; and its result is cached.
\<close>

section \<open>The geometry of the crop\<close>

lemma float_of_side: "0 < n \<Longrightarrow> n \<le> 2 ^ 20 \<Longrightarrow> float_of_int n = Inr (Fin (of_int n))"
  by (rule float_of_int_small) simp

text \<open>A positive factor between \<open>2 ^ -20\<close> and \<open>2 ^ 40\<close> is rounded with a small relative error.\<close>

lemma fl_factor:
  assumes "p2 (- 20) \<le> r" "r \<le> p2 40"
  shows "fl r = Fin (fl_fin r)" and "(1 - eps) * r \<le> fl_fin r" and "fl_fin r \<le> (1 + eps) * r" and "0 < fl_fin r"
proof -
  have lo: "p2 (- 1022) \<le> r" by (rule order_trans[OF _ assms(1)]) (simp only: powi_2_le_iff)
  have hi: "r \<le> p2 1000" by (rule order_trans[OF assms(2)]) (simp only: powi_2_le_iff)
  have pos: "0 < r" using assms(1) powi_2_pos[of "- 20"] by linarith
  show "fl r = Fin (fl_fin r)" using pos hi by (intro fl_finite_range) auto
  show "(1 - eps) * r \<le> fl_fin r" "fl_fin r \<le> (1 + eps) * r"
    using fl_fin_ge_factor[OF lo] fl_fin_le_factor[OF lo] by auto
  have "0 < (1 - eps) * r" using pos by (simp add: eps_def)
  then show "0 < fl_fin r" using \<open>(1 - eps) * r \<le> fl_fin r\<close> by linarith
qed

lemma rel_error:
  assumes "(1 - eps) * x \<le> v" "v \<le> (1 + eps) * x" "0 \<le> x" "x \<le> 2 ^ 40 + 1 / 2"
  shows "\<bar>v - x\<bar> \<le> 1 / 16"
proof -
  have "eps * x \<le> eps * (2 ^ 40 + 1 / 2)" using assms(4) by (intro mult_left_mono) (simp_all add: eps_def)
  also have "\<dots> \<le> 1 / 16" by (simp add: eps_def)
  finally have "eps * x \<le> 1 / 16" .
  moreover have "v - x \<le> eps * x" "x - v \<le> eps * x" using assms(1,2) by (simp_all add: algebra_simps)
  ultimately show ?thesis by linarith
qed

lemma side_ratio:
  assumes "0 < s" "s \<le> 2 ^ 20" "0 < t" "t \<le> 2 ^ 20"
  shows "p2 (- 20) \<le> of_int t / (of_int s :: rat)" and "of_int t / (of_int s :: rat) \<le> p2 20"
    and "side_scale t s = Inr (Fin (fl_fin (of_int t / of_int s)))"
proof -
  have q: "of_int s \<le> (2 ^ 20 :: rat)" "of_int t \<le> (2 ^ 20 :: rat)" "1 \<le> (of_int s :: rat)" "1 \<le> (of_int t :: rat)"
    using assms by (simp_all add: of_int_le_iff[of s "2 ^ 20", symmetric] of_int_le_iff[of t "2 ^ 20", symmetric] del: of_int_le_iff)
  show r: "p2 (- 20) \<le> of_int t / (of_int s :: rat)" "of_int t / (of_int s :: rat) \<le> p2 20"
    using q by (simp_all add: field_simps power_int_minus)
  have "of_int t / (of_int s :: rat) \<le> p2 40" by (rule order_trans[OF r(2)]) (simp only: powi_2_le_iff)
  then show "side_scale t s = Inr (Fin (fl_fin (of_int t / of_int s)))"
    using fl_factor(1)[OF r(1)] assms by (simp add: side_scale_def float_of_side raise_if_def)
qed

lemma scaled_length_near:
  assumes s: "0 < s" "s \<le> 2 ^ 20" and r: "p2 (- 20) \<le> r" "r \<le> p2 20" "1 \<le> of_int s * r"
  shows "\<exists>n. scaled_length s (Fin (fl_fin r)) = Inr n \<and> n = round_even (fl_fin (of_int s * fl_fin r)) \<and>
             \<bar>of_int n - of_int s * r\<bar> \<le> 3 / 4"
proof -
  let ?a = "of_int s :: rat"
  have a: "1 \<le> ?a" "?a \<le> 2 ^ 20" using s by (simp_all add: of_int_le_iff[of s "2 ^ 20", symmetric] del: of_int_le_iff)
  have r40: "r \<le> p2 40" by (rule order_trans[OF r(2)]) (simp only: powi_2_le_iff)
  note f = fl_factor[OF r(1) r40]
  have l1: "(1 - eps) * (?a * r) \<le> ?a * fl_fin r" using mult_left_mono[OF f(2), of ?a] a by (simp add: algebra_simps)
  have u1: "?a * fl_fin r \<le> (1 + eps) * (?a * r)" using mult_left_mono[OF f(3), of ?a] a by (simp add: algebra_simps)
  have "?a * r \<le> 2 ^ 20 * p2 20" using a r f(4) by (intro mult_mono) auto
  then have big: "?a * r \<le> 2 ^ 40" by simp
  let ?y = "?a * fl_fin r"
  have "(1 - eps) * 1 \<le> (1 - eps) * (?a * r)" using r(3) by (intro mult_left_mono) (simp_all add: eps_def)
  then have y1: "1 / 2 \<le> ?y" using l1 by (simp add: eps_def)
  have "(1 + eps) * (?a * r) \<le> (1 + eps) * 2 ^ 40" using big by (intro mult_left_mono) (simp_all add: eps_def)
  moreover have "(1 + eps) * 2 ^ 40 \<le> 2 ^ 40 + 1 / 2" by (simp add: eps_def)
  ultimately have y2: "?y \<le> 2 ^ 40 + 1 / 2" using u1 by linarith
  have lo: "p2 (- 1022) \<le> ?y"
  proof -
    have "p2 (- 1022) \<le> p2 (- 1)" by (simp only: powi_2_le_iff)
    then show ?thesis using y1 by (simp add: power_int_minus)
  qed
  have "?y \<le> p2 1000"
  proof -
    have "p2 41 \<le> p2 1000" by (simp only: powi_2_le_iff)
    then show ?thesis using y2 by simp
  qed
  then have fl: "fl ?y = Fin (fl_fin ?y)" using y1 by (intro fl_finite_range) auto
  have "\<bar>fl_fin ?y - ?y\<bar> \<le> 1 / 16" using y1 y2 fl_fin_ge_factor[OF lo] fl_fin_le_factor[OF lo] by (intro rel_error) auto
  moreover have "\<bar>?y - ?a * r\<bar> \<le> 1 / 16" using l1 u1 r(3) big by (intro rel_error) auto
  ultimately have "\<bar>fl_fin ?y - ?a * r\<bar> \<le> 1 / 4" by linarith
  moreover have "\<bar>of_int (round_even (fl_fin ?y)) - fl_fin ?y\<bar> \<le> 1 / 2" by (rule round_even_error)
  ultimately have "\<bar>of_int (round_even (fl_fin ?y)) - ?a * r\<bar> \<le> 3 / 4" by linarith
  then show ?thesis using fl s by (simp add: scaled_length_def float_of_side)
qed

text \<open>The side whose ratio decides the scale is hit exactly; the other one is covered.\<close>

lemma scaled_length_exact:
  assumes "0 < s" "s \<le> 2 ^ 20" "0 < t" "t \<le> 2 ^ 20"
  shows "round_even (fl_fin (of_int s * fl_fin (of_int t / of_int s))) = t"
proof -
  let ?r = "of_int t / of_int s :: rat"
  have e: "of_int s * ?r = of_int t" using assms by simp
  have "1 \<le> of_int s * ?r" unfolding e using assms by simp
  from scaled_length_near[OF assms(1,2) side_ratio(1,2)[OF assms] this] e
  have "\<bar>of_int (round_even (fl_fin (of_int s * fl_fin ?r))) - (of_int t :: rat)\<bar> \<le> 3 / 4" by auto
  then have "\<bar>round_even (fl_fin (of_int s * fl_fin ?r)) - t\<bar> < 1" by linarith
  then show ?thesis by linarith
qed

lemma scaled_length_covers:
  assumes "0 < s" "s \<le> 2 ^ 20" "0 < t" "t \<le> 2 ^ 20" and "fl_fin (of_int t / of_int s) \<le> c"
  shows "t \<le> round_even (fl_fin (of_int s * c))"
proof -
  have "of_int s * fl_fin (of_int t / of_int s) \<le> of_int s * c" using assms by (intro mult_left_mono) auto
  then show ?thesis
    using round_even_mono[OF fl_fin_mono] scaled_length_exact[OF assms(1-4)] by metis
qed

text \<open>What a cover crop promises: the resized image covers the canvas and fits it exactly along one side, both sides
  are within a pixel of the exact cover size, and the box cuts a canvas-sized part out of its middle: the margins on
  opposite sides are equal, or the right or lower one is a pixel wider.\<close>

definition covers :: "int \<Rightarrow> int \<Rightarrow> int \<Rightarrow> int \<Rightarrow> crop_plan \<Rightarrow> bool" where
  "covers sw sh tw th plan \<longleftrightarrow> (case (cp_resized_size plan, cp_crop_box plan) of ((rw, rh), (l, t, r, b)) \<Rightarrow>
     let ratio = max (of_int tw / of_int sw) (of_int th / of_int sh) :: rat in
     tw \<le> rw \<and> th \<le> rh \<and> (rw = tw \<or> rh = th) \<and>
     \<bar>of_int rw - of_int sw * ratio\<bar> \<le> 1 \<and> \<bar>of_int rh - of_int sh * ratio\<bar> \<le> 1 \<and>
     0 \<le> l \<and> r \<le> rw \<and> r - l = tw \<and> (rw - r = l \<or> rw - r = l + 1) \<and>
     0 \<le> t \<and> b \<le> rh \<and> b - t = th \<and> (rh - b = t \<or> rh - b = t + 1))"

lemma crop_box_inside:
  assumes "t \<le> (r :: int)"
  shows "0 \<le> max 0 ((r - t) div 2) \<and> max 0 ((r - t) div 2) + t \<le> r \<and>
     (r - (max 0 ((r - t) div 2) + t) = max 0 ((r - t) div 2) \<or> r - (max 0 ((r - t) div 2) + t) = max 0 ((r - t) div 2) + 1)"
proof -
  have "max 0 ((r - t) div 2) = (r - t) div 2" using assms by simp
  then show ?thesis using assms by presburger
qed

definition sides_ok :: "int \<Rightarrow> int \<Rightarrow> int \<Rightarrow> int \<Rightarrow> bool" where
  "sides_ok sw sh tw th \<longleftrightarrow> (\<forall>n \<in> {sw, sh, tw, th}. 0 < n \<and> n \<le> 2 ^ 20)"

text \<open>The scale, and each side under it.\<close>

lemma crop_side:
  assumes s: "0 < s" "s \<le> 2 ^ 20" and t: "0 < t" "t \<le> 2 ^ 20" and r: "p2 (- 20) \<le> r" "r \<le> p2 20" "of_int t / of_int s \<le> r"
  shows "\<exists>n. scaled_length s (Fin (fl_fin r)) = Inr n \<and> t \<le> n \<and> \<bar>of_int n - of_int s * r\<bar> \<le> 3 / 4 \<and>
     (r = of_int t / of_int s \<longrightarrow> n = t)"
proof -
  have "of_int t \<le> of_int s * r" using r(3) s(1) by (simp add: pos_divide_le_eq mult.commute)
  moreover have "(1 :: rat) \<le> of_int t" using t by simp
  ultimately have "1 \<le> of_int s * r" by linarith
  from scaled_length_near[OF s r(1,2) this] obtain n where n: "scaled_length s (Fin (fl_fin r)) = Inr n"
    "n = round_even (fl_fin (of_int s * fl_fin r))" "\<bar>of_int n - of_int s * r\<bar> \<le> 3 / 4" by blast
  have "t \<le> n" unfolding n(2) by (rule scaled_length_covers[OF s t fl_fin_mono[OF r(3)]])
  moreover have "n = t" if "r = of_int t / of_int s" using scaled_length_exact[OF s t] n(2) that by simp
  ultimately show ?thesis using n by blast
qed

lemma cover_scale:
  assumes "sides_ok sw sh tw th"
  defines "r \<equiv> max (of_int tw / of_int sw) (of_int th / of_int sh) :: rat"
  shows "rbind (side_scale tw sw) (\<lambda>a. rbind (side_scale th sh) (\<lambda>b. f (if flt a b then b else a))) = f (Fin (fl_fin r))"
    and "p2 (- 20) \<le> r" "r \<le> p2 20" and "flt (Fin 1) (Fin (fl_fin r)) \<longleftrightarrow> sw < tw \<or> sh < th"
proof -
  have s: "0 < sw" "sw \<le> 2 ^ 20" "0 < tw" "tw \<le> 2 ^ 20" "0 < sh" "sh \<le> 2 ^ 20" "0 < th" "th \<le> 2 ^ 20"
    using assms(1) by (auto simp: sides_ok_def)
  let ?a = "of_int tw / of_int sw :: rat" and ?b = "of_int th / of_int sh :: rat"
  note A = side_ratio[OF s(1-4)] and B = side_ratio[OF s(5-8)]
  have m: "fl_fin r = max (fl_fin ?a) (fl_fin ?b)" unfolding r_def max_def
    using fl_fin_mono[of ?a ?b] fl_fin_mono[of ?b ?a] by auto
  show "rbind (side_scale tw sw) (\<lambda>a. rbind (side_scale th sh) (\<lambda>b. f (if flt a b then b else a))) = f (Fin (fl_fin r))"
    using A(3) B(3) m by (auto simp: max_def)
  show "p2 (- 20) \<le> r" "r \<le> p2 20" using A B by (auto simp: r_def max_def)
  have one: "1 < fl_fin (of_int t / of_int n) \<longleftrightarrow> n < t" if nt: "0 < n" "n \<le> 2 ^ 20" "0 < t" for n t
  proof
    assume "1 < fl_fin (of_int t / of_int n)"
    then have "\<not> of_int t / of_int n \<le> (1 :: rat)" using fl_fin_mono[of "of_int t / of_int n" 1] fl_fin_of_int[of 1] by auto
    then show "n < t" using nt by (simp add: field_simps)
  next
    assume lt: "n < t"
    have "(of_int n :: rat) + 1 \<le> of_int t" using lt by linarith
    moreover have "(of_int n :: rat) \<le> 2 ^ 20" using nt by (simp add: of_int_le_iff[of n "2 ^ 20", symmetric] del: of_int_le_iff)
    ultimately have "of_int (2 ^ 20 + 1) * p2 (- 20) \<le> of_int t / (of_int n :: rat)"
      using nt by (simp add: field_simps power_int_minus)
    from fl_fin_mono[OF this] have "of_int (2 ^ 20 + 1) * p2 (- 20) \<le> fl_fin (of_int t / of_int n)"
      using fl_fin_exact[of "2 ^ 20 + 1" "- 20"] by simp
    then show "1 < fl_fin (of_int t / of_int n)" by (simp add: power_int_minus)
  qed
  show "flt (Fin 1) (Fin (fl_fin r)) \<longleftrightarrow> sw < tw \<or> sh < th"
    using one[OF s(1,2,3)] one[OF s(5,6,7)] by (auto simp: m less_max_iff_disj)
qed

lemma cover_crop_plan_covers:
  assumes "sides_ok sw sh tw th"
  shows "if up \<or> tw \<le> sw \<and> th \<le> sh
     then \<exists>plan. minimax_h3_cover_crop_plan sw sh tw th up = Inr plan \<and> covers sw sh tw th plan
     else minimax_h3_cover_crop_plan sw sh tw th up =
       Inl (ValueError ''target_canvas cover_crop would upscale the source; set allow_upscale=true'')"
proof -
  have s: "0 < sw" "sw \<le> 2 ^ 20" "0 < tw" "tw \<le> 2 ^ 20" "0 < sh" "sh \<le> 2 ^ 20" "0 < th" "th \<le> 2 ^ 20"
    using assms by (auto simp: sides_ok_def)
  let ?r = "max (of_int tw / of_int sw) (of_int th / of_int sh) :: rat"
  note C = cover_scale[OF assms]
  obtain rw where rw: "scaled_length sw (Fin (fl_fin ?r)) = Inr rw" "tw \<le> rw" "\<bar>of_int rw - of_int sw * ?r\<bar> \<le> 3 / 4"
    "?r = of_int tw / of_int sw \<longrightarrow> rw = tw" using crop_side[OF s(1-4) C(2,3)] by auto
  obtain rh where rh: "scaled_length sh (Fin (fl_fin ?r)) = Inr rh" "th \<le> rh" "\<bar>of_int rh - of_int sh * ?r\<bar> \<le> 3 / 4"
    "?r = of_int th / of_int sh \<longrightarrow> rh = th" using crop_side[OF s(5-8) C(2,3)] by auto
  have one: "rw = tw \<or> rh = th" using rw(4) rh(4) by (auto simp: max_def split: if_splits)
  have "minimax_h3_cover_crop_plan sw sh tw th up =
     raise_if (flt (Fin 1) (Fin (fl_fin ?r)) \<and> \<not> up)
        (ValueError ''target_canvas cover_crop would upscale the source; set allow_upscale=true'')
        (Inr \<lparr>cp_scale = Fin (fl_fin ?r), cp_resized_size = (max tw rw, max th rh),
           cp_crop_box = (max 0 ((max tw rw - tw) div 2), max 0 ((max th rh - th) div 2),
             max 0 ((max tw rw - tw) div 2) + tw, max 0 ((max th rh - th) div 2) + th)\<rparr>)"
    unfolding minimax_h3_cover_crop_plan_def
    unfolding cover_scale(1)[OF assms, where f = "crop_plan_at sw sh tw th up"]
    unfolding crop_plan_at_def rw(1) rh(1) Let_def rbind.simps using s by simp
  moreover have "covers sw sh tw th \<lparr>cp_scale = Fin (fl_fin ?r), cp_resized_size = (max tw rw, max th rh),
           cp_crop_box = (max 0 ((max tw rw - tw) div 2), max 0 ((max th rh - th) div 2),
             max 0 ((max tw rw - tw) div 2) + tw, max 0 ((max th rh - th) div 2) + th)\<rparr>"
    unfolding covers_def crop_plan.select_convs prod.case Let_def max_absorb2[OF rw(2)] max_absorb2[OF rh(2)]
    using rw(2,3) rh(2,3) one crop_box_inside[OF rw(2)] crop_box_inside[OF rh(2)] by (intro conjI) linarith+
  ultimately show ?thesis unfolding C(4) by (auto simp: not_le)
qed

section \<open>Keyframes of a resolved plan\<close>

text \<open>What plan resolution records of a keyframe: its rule, and the pixel frame it is bound to.\<close>

definition material_bound :: "task_profile \<Rightarrow> pydict \<Rightarrow> material_item \<Rightarrow> bool" where
  "material_bound p shape m \<longleftrightarrow> (\<exists>rule. rule_for p (mi_role m) (mi_condition_type m) = Inr rule \<and>
     mi_material_chain m = cr_material_chain rule \<and>
     (cr_requires_frame_index rule \<longrightarrow> (\<exists>v fc sem r path. map_of shape ''frame_count'' = Some v \<and> py_int v = Inr fc \<and>
        py_int (mi_frame_index m) = Inr sem \<and> resolve_frame_index sem fc path = Inr r \<and> mi_resolved_frame_index m = Some r)))"

lemma resolve_plan_step_bound:
  assumes "resolve_plan_step p shape ic st = Inr st'" and "\<forall>m \<in> set (pl_materials st). material_bound p shape m"
  shows "\<forall>m \<in> set (pl_materials st'). material_bound p shape m"
proof -
  obtain i cond where ic: "ic = (i, cond)" by (cases ic)
  obtain role ct rule fi res st1 uri start where
    S: "rule_for p (py_str role) (py_str ct) = Inr rule" "resolve_keyframe_index shape rule i fi st = Inr (res, st1)"
    and st': "pl_materials st' = pl_materials st1 @ [\<lparr>mi_condition_index = i, mi_role = py_str role, mi_condition_type = py_str ct,
                mi_uri = py_str uri, mi_material_chain = cr_material_chain rule,
                mi_frame_index = fi, mi_resolved_frame_index = res, mi_start_time_seconds = start\<rparr>]"
    using assms(1) unfolding resolve_plan_step_def ic by (auto simp: rbind_Inr_iff)
  have "pl_materials st1 = pl_materials st \<and> (cr_requires_frame_index rule \<longrightarrow> (\<exists>v fc sem r path. map_of shape ''frame_count'' = Some v \<and>
      py_int v = Inr fc \<and> py_int fi = Inr sem \<and> resolve_frame_index sem fc path = Inr r \<and> res = Some r))"
    using S(2) by (auto simp: resolve_keyframe_index_def res_simps dindex_def split: if_splits option.splits)
  then show ?thesis using assms(2) S(1) unfolding st' material_bound_def by auto
qed

lemma resolve_plan_bound:
  assumes "minimax_h3_resolve_plan (PDict canonical) = Inr plan" and "m \<in> set (rp_materials plan)"
    and "minimax_h3_task_profile (py_str (dget canonical ''task'')) = Inr p"
  shows "material_bound p (rp_shape plan) m"
proof -
  obtain conds shape st where L: "rfold (resolve_plan_step p shape) (enumerate 0 conds) plan_loop_init = Inr st"
    and "rp_materials plan = pl_materials st" "rp_shape plan = shape"
    using assms(1,3) by (auto simp: minimax_h3_resolve_plan_def Let_def rbind_Inr_iff raise_if_Inr_iff)
  moreover have "\<forall>m \<in> set (pl_materials st). material_bound p shape m"
    by (rule rfold_invariant[OF L, of "\<lambda>st. \<forall>m \<in> set (pl_materials st). material_bound p shape m"])
       (simp_all add: plan_loop_init_def, rule resolve_plan_step_bound)
  ultimately show ?thesis using assms(2) by simp
qed

lemma keyframe_rules:
  assumes "minimax_h3_task_profile t = Inr p" and "rule_for p role ct = Inr rule"
  shows "cr_material_chain rule = ''image.target_canvas'' \<longleftrightarrow> role = ''keyframe''"
    and "role = ''keyframe'' \<Longrightarrow> cr_requires_frame_index rule"
proof -
  have r: "rule \<in> set (tp_condition_rules p) \<and> cr_role rule = role" using assms(2) rule_for_in_sound unfolding rule_for_def by blast
  show "cr_material_chain rule = ''image.target_canvas'' \<longleftrightarrow> role = ''keyframe''"
    using assms(1) r by (cases rule: task_profile_cases) (auto simp: profile_defs)
  show "role = ''keyframe'' \<Longrightarrow> cr_requires_frame_index rule"
    using assms(1) r by (cases rule: task_profile_cases) (auto simp: profile_defs)
qed

lemma list_all2_filter:
  "list_all2 P xs ys \<Longrightarrow> (\<And>x y. x \<in> set xs \<Longrightarrow> P x y \<Longrightarrow> A x = B y) \<Longrightarrow> list_all2 P (filter A xs) (filter B ys)"
  by (induction xs ys rule: list_all2_induct) auto

text \<open>The keyframes of the plan of a validated request carry one of the signatures.\<close>

lemma plan_keyframes_signature:
  assumes p: "minimax_h3_task_profile t = Inr p" and ok: "request_ok t p pr cs tg fc fs afs sd"
    and match: "list_all2 material_matches (rp_materials plan) cs"
    and bound: "\<And>m. m \<in> set (rp_materials plan) \<Longrightarrow> material_bound p shape m" and kf: "keyframe_materials plan \<noteq> []"
  shows "matches_signature (map mi_frame_index (keyframe_materials plan))" and "t \<in> {''fl2va'', ''ref2va''}"
proof -
  have chain: "(mi_material_chain m = ''image.target_canvas'') = eq_str (dget c ''role'') ''keyframe''"
    if mm: "m \<in> set (rp_materials plan)" "material_matches m c" for m c
  proof -
    obtain rule where r: "rule_for p (mi_role m) (mi_condition_type m) = Inr rule" "mi_material_chain m = cr_material_chain rule"
      using bound[OF mm(1)] by (auto simp: material_bound_def)
    have "dget c ''role'' = PStr (mi_role m)" using mm(2) by (simp add: material_matches_def)
    then show ?thesis using keyframe_rules(1)[OF p r(1)] r(2) by (simp add: eq_str_def)
  qed
  have m: "list_all2 material_matches (keyframe_materials plan) (filter (\<lambda>c. eq_str (dget c ''role'') ''keyframe'') cs)"
    unfolding keyframe_materials_def by (rule list_all2_filter[OF match chain])
  then have idx: "map mi_frame_index (keyframe_materials plan) =
      map (\<lambda>c. dget c ''frame_index'') (filter (\<lambda>c. eq_str (dget c ''role'') ''keyframe'') cs)"
    by (induction rule: list_all2_induct) (auto simp: material_matches_def)
  have ne: "keyframe_conditions_of (PList (map PDict cs)) \<noteq> []"
    using m kf unfolding keyframe_conditions_of_map by auto
  have "keyframe_signature_ok (keyframe_conditions_of (PList (map PDict cs)))"
    using request_keyframes_ok[OF ok] ne by blast
  then show "matches_signature (map mi_frame_index (keyframe_materials plan))"
    unfolding idx keyframe_conditions_of_map by (simp add: keyframe_signature_ok_def)
  have "t \<noteq> ''t2va''"
  proof
    assume "t = ''t2va''"
    then have "p = profile_t2va" using p by simp
    then have "cs = []" using ok validate_conditions_not_required[of "PList (map PDict cs)" p fc cs]
      by (simp add: request_ok_def profile_defs)
    then show False using ne by (simp add: keyframe_conditions_of_def)
  qed
  then show "t \<in> {''fl2va'', ''ref2va''}" using p by (auto elim!: task_profile_cases)
qed

lemma signature_index: "matches_signature (map mi_frame_index ms) \<Longrightarrow> m \<in> set ms \<Longrightarrow>
   eq_int (mi_frame_index m) 0 \<or> eq_int (mi_frame_index m) (- 1)"
  by (auto simp: matches_signature_def MINIMAX_H3_FL2VA_KEYFRAME_SIGNATURES_def list_all2_Cons2 Cons_eq_map_conv map_eq_Cons_conv)

text \<open>An index equal to 0 or -1 converts to it.\<close>

lemma py_int_of_eq_int: "eq_int v k \<Longrightarrow> py_int v = Inr n \<Longrightarrow> n = k"
proof (cases v)
  case (PFloat x)
  then show "eq_int v k \<Longrightarrow> py_int v = Inr n \<Longrightarrow> n = k" by (cases x) (auto simp: eq_int_def rat_trunc_def)
qed (auto simp: eq_int_def split: if_splits)

lemma pixel_matches_bound:
  assumes "material_bound p shape m" and "minimax_h3_task_profile t = Inr p" and "mi_material_chain m = ''image.target_canvas''"
    and "eq_int (mi_frame_index m) 0 \<or> eq_int (mi_frame_index m) (- 1)"
  shows "\<exists>v fc. map_of shape ''frame_count'' = Some v \<and> py_int v = Inr fc \<and> pixel_matches fc m"
proof -
  obtain rule where r: "rule_for p (mi_role m) (mi_condition_type m) = Inr rule" "mi_material_chain m = cr_material_chain rule"
    and b: "cr_requires_frame_index rule \<longrightarrow> (\<exists>v fc sem r path. map_of shape ''frame_count'' = Some v \<and> py_int v = Inr fc \<and>
        py_int (mi_frame_index m) = Inr sem \<and> resolve_frame_index sem fc path = Inr r \<and> mi_resolved_frame_index m = Some r)"
    using assms(1) unfolding material_bound_def by (elim exE conjE)
  have "cr_requires_frame_index rule" using keyframe_rules[OF assms(2) r(1)] r(2) assms(3) by simp
  then obtain v fc sem q path where v: "map_of shape ''frame_count'' = Some v" "py_int v = Inr fc"
    "py_int (mi_frame_index m) = Inr sem" "resolve_frame_index sem fc path = Inr q" "mi_resolved_frame_index m = Some q"
    using b by blast
  have "pixel_matches fc m"
  proof (cases "eq_int (mi_frame_index m) (- 1)")
    case True
    then show ?thesis using py_int_of_eq_int[OF True v(3)] v(4,5) by (simp add: pixel_matches_def resolve_frame_index_def)
  next
    case False
    then have z: "eq_int (mi_frame_index m) 0" using assms(4) by simp
    have "sem = 0" by (rule py_int_of_eq_int[OF z v(3)])
    then show ?thesis using v(4,5) z False by (simp add: pixel_matches_def resolve_frame_index_def split: if_splits)
  qed
  then show ?thesis using v(1,2) by blast
qed

text \<open>The entries of the frozen material shapes.\<close>

lemma map_of_dupdate_distinct:
  "distinct (map fst ps) \<Longrightarrow> (k, v) \<in> set ps \<Longrightarrow> map_of (dupdate [] ps) k = Some v"
  by (auto simp: dict_simps map_add_def distinct_rev rev_map intro: map_of_is_SomeI split: option.splits)
     (metis distinct_rev map_of_is_SomeI not_Some_eq option.inject rev_map set_rev)+

lemma distinct_zip_keys:
  assumes "length ds = length xs" and "distinct (map f xs)"
  shows "distinct (map fst [(f m, d). (m, Some d) \<leftarrow> zip xs ds])"
  using assms
proof (induction ds xs rule: list_induct2)
  case (Cons d ds x xs)
  have "set (map fst [(f m, d). (m, Some d) \<leftarrow> zip xs ds]) \<subseteq> f ` set xs"
    by (auto dest: set_zip_leftD split: option.splits)
  then show ?case using Cons by (cases d) (auto dest!: set_zip_leftD)
qed simp

lemma material_shapes_entry:
  assumes "material_shapes plan shape facts = Inr shapes" and "distinct (map mi_condition_index (rp_materials plan))"
    and "m \<in> set (rp_materials plan)" and "mi_material_chain m = ''image.target_canvas''"
  shows "map_of shapes (mi_condition_index m) =
     Some (dset ''condition_index'' (PInt (int (mi_condition_index m))) [(k, dget shape k). k \<leftarrow> TARGET_SHAPE_KEYS, dhas shape k])"
proof -
  obtain ds where ds: "rmap (material_shape shape facts) (rp_materials plan) = Inr ds"
    and s: "shapes = dupdate [] [(mi_condition_index m, d). (m, Some d) \<leftarrow> zip (rp_materials plan) ds]"
    using assms(1) by (auto simp: material_shapes_def rbind_Inr_iff)
  obtain i where i: "i < length (rp_materials plan)" "m = rp_materials plan ! i" using assms(3) by (auto simp: in_set_conv_nth)
  let ?d = "dset ''condition_index'' (PInt (int (mi_condition_index m))) [(k, dget shape k). k \<leftarrow> TARGET_SHAPE_KEYS, dhas shape k]"
  have l: "length ds = length (rp_materials plan)" by (rule rmap_Inr_length[OF ds])
  have "Inr (ds ! i) = Inr (Some ?d)"
    using rmap_Inr_nth[OF ds i(1)] assms(4) i(2) by (simp add: material_shape_def)
  then have "(m, Some ?d) \<in> set (zip (rp_materials plan) ds)" using i l by (auto simp: set_zip)
  then have mem: "(mi_condition_index m, ?d) \<in> set [(mi_condition_index m, d). (m, Some d) \<leftarrow> zip (rp_materials plan) ds]" by force
  have "distinct (map fst [(mi_condition_index m, d). (m, Some d) \<leftarrow> zip (rp_materials plan) ds])"
    using distinct_zip_keys[OF l assms(2)] .
  then show ?thesis unfolding s by (rule map_of_dupdate_distinct[OF _ mem])
qed

lemma map_of_comprehension: "map_of [(k, g k). k \<leftarrow> ks, P k] k = (if k \<in> set ks \<and> P k then Some (g k) else None)"
  by (induction ks) auto

lemma target_shape_entry:
  assumes "map_of shape k = Some (PInt n)" and "k \<in> {''width'', ''height''}"
  shows "int_or_0 (dset ''condition_index'' v [(k, dget shape k). k \<leftarrow> TARGET_SHAPE_KEYS, dhas shape k]) k = Inr n"
proof -
  have "k \<in> set TARGET_SHAPE_KEYS" "k \<noteq> ''condition_index''" using assms(2) by (auto simp: TARGET_SHAPE_KEYS_def)
  then have "dget (dset ''condition_index'' v [(k, dget shape k). k \<leftarrow> TARGET_SHAPE_KEYS, dhas shape k]) k = PInt n"
    using assms(1) by (simp add: dget_def[of "dset _ _ _"] dict_simps map_of_comprehension dhas_def) (simp add: dget_def)
  then show ?thesis by (simp add: int_or_0_def)
qed

lemma resolve_shape_temporal:
  assumes p: "minimax_h3_task_profile t = Inr p" and ok: "target_ok p se ar du" and ar: "ratio_known ar" and se: "se \<le> 2 ^ 50"
    and shape: "resolve_shape (PDict (target_entry se ar du)) p = Inr shape" and fc: "map_of shape ''frame_count'' \<noteq> None"
  shows "dget shape ''temporal'' = PNone"
proof (cases du)
  case None
  have se1: "1 \<le> se" using ok by (simp add: target_ok_def)
  have "map_of (target_entry se ar du) ''duration_seconds'' = None" by (simp add: target_entry_def None)
  note S = resolve_spatial_sound(2)[OF p ar se1 se shape[unfolded resolve_shape_def pyval.case this option.case], of "''frame_count''"]
  show ?thesis using S fc by simp
next
  case (Some d)
  have se1: "1 \<le> se" using ok by (simp add: target_ok_def)
  obtain n ds vt alt where T: "temporal_fields d = Inr (minimax_h3_align_frame_count n, ds, vt, alt)"
    using temporal_fields_range[OF ok[unfolded Some]] by metis
  have "map_of (target_entry se ar du) ''duration_seconds'' = Some (PFloat d)" by (simp add: target_entry_def Some)
  note S = resolve_spatial_sound(2)[OF p ar se1 se shape[unfolded resolve_shape_def pyval.case this option.case
        py_float.simps rbind.simps T prod.case], of "''temporal''"]
  show ?thesis using S by (simp add: dget_def)
qed

text \<open>The frame count keyframes were bound to is the one admission freezes.\<close>

lemma target_shape_frame_count:
  assumes "resolved_target_shape plan facts = Inr shape" and "dget (rp_shape plan) ''temporal'' = PNone"
  shows "map_of shape ''frame_count'' = map_of (rp_shape plan) ''frame_count''"
proof -
  obtain sh where sp: "resolve_deferred_spatial_shape plan (rp_shape plan) facts = Inr sh"
    and te: "resolve_deferred_temporal_shape plan sh facts = Inr shape"
    using assms(1) by (auto simp: resolved_target_shape_def res_simps)
  have "dget sh ''temporal'' = PNone" using deferred_spatial_keeps[OF sp, of "''temporal''"] assms(2) by (simp add: dget_def)
  then have "shape = sh" using te by (simp add: resolve_deferred_temporal_shape_def)
  then show ?thesis using deferred_spatial_keeps[OF sp, of "''frame_count''"] by simp
qed

section \<open>After admission\<close>

text \<open>What a validated request with a usable target resolves to; the hypothesis the properties of admitted requests share.\<close>

definition admissible :: "pydict \<Rightarrow> queue_batch \<Rightarrow> bool" where
  "admissible canonical b \<longleftrightarrow>
     (\<exists>task prompt conditions target flow audio seed tg ar se.
        minimax_h3_validate_canonical_request task prompt conditions target flow audio seed = Inr canonical \<and>
        dget canonical ''target'' = PDict tg \<and> dget tg ''aspect_ratio'' = PStr ar \<and> ratio_known ar \<and>
        dget tg ''short_edge'' = PInt se \<and> se \<le> 2 ^ 50) \<and>
     map_of (qb_extra b) MINIMAX_H3_RESOLVED_PLAN_EXTRA_KEY = None \<and>
     map_of (qb_extra b) MINIMAX_H3_CANONICAL_REQUEST_EXTRA_KEY = Some (EVal (PDict canonical))"

lemma admissible_plan:
  assumes "admissible canonical b" and "batch_plan b = (Inr p0, b1)"
  obtains t p pr cs tg fc fs afs sd se ar du where "minimax_h3_task_profile t = Inr p" "request_ok t p pr cs tg fc fs afs sd"
    "tg = target_entry se ar du" "target_ok p se ar du" "ratio_known ar" "se \<le> 2 ^ 50"
    "resolve_shape (PDict tg) p = Inr (rp_shape p0)" "rp_task p0 = t" "list_all2 material_matches (rp_materials p0) cs"
    "map mi_condition_index (rp_materials p0) = [0..<length cs]" "\<forall>m \<in> set (rp_materials p0). material_bound p (rp_shape p0) m"
proof -
  obtain task prompt conditions target flow audio seed tg0 ar0 se0 where
    v: "minimax_h3_validate_canonical_request task prompt conditions target flow audio seed = Inr canonical"
    and q: "dget canonical ''target'' = PDict tg0" "dget tg0 ''aspect_ratio'' = PStr ar0" "ratio_known ar0"
      "dget tg0 ''short_edge'' = PInt se0" "se0 \<le> 2 ^ 50"
    using assms(1) unfolding admissible_def by blast
  have r: "minimax_h3_resolve_plan (PDict canonical) = Inr p0"
    using batch_plan_from_canonical[OF _ _ assms(2)] assms(1) unfolding admissible_def by blast
  obtain t p pr cs tg fc fs afs sd where c: "canonical = canonical_dict t pr cs tg fs afs sd"
    and ok: "request_ok t p pr cs tg fc fs afs sd" and tg: "validate_target target p = Inr tg"
    by (rule validate_request_Inr[OF v])
  obtain se ar du where e: "tg = target_entry se ar du" "target_ok p se ar du"
    by (rule validate_target_Inr[OF tg])
  have eq: "ar = ar0" "se = se0" using q(1,2,4) e(1) by (auto simp: c)
  have p: "minimax_h3_task_profile t = Inr p" using ok by (simp add: request_ok_def)
  have b: "ratio_known ar" "se \<le> 2 ^ 50" using q(3,5) eq by simp_all
  obtain plan where P: "minimax_h3_resolve_plan (PDict (canonical_dict t pr cs tg fs afs sd)) = Inr plan"
    "resolve_shape (PDict tg) p = Inr (rp_shape plan)" "rp_task plan = t"
    "list_all2 material_matches (rp_materials plan) cs" "map mi_condition_index (rp_materials plan) = [0..<length cs]"
    by (rule request_plan[OF ok e b])
  have "plan = p0" using P(1) r by (simp add: c)
  moreover have "material_bound p (rp_shape p0) m" if "m \<in> set (rp_materials p0)" for m
    by (rule resolve_plan_bound[OF r that]) (simp add: c p)
  ultimately show ?thesis using that[OF p ok e b] P(2-5) by simp
qed

lemma keyframe_materials_replace [simp]: "keyframe_materials (replace_plan_shape p0 shape) = keyframe_materials p0"
  by (simp add: keyframe_materials_def)

lemma admitted_keyframes:
  assumes adm: "admissible canonical b" and run: "minimax_h3_prepare_for_queue env b = (Inr plan, t)"
    and kf: "keyframe_materials plan \<noteq> []"
  obtains sem W H where "validate_keyframe_materials plan (keyframe_materials plan) = Inr sem"
    "keyframe_canvas_size (rp_shape plan) = Inr (W, H)" "qb_width t = Some W" "qb_height t = Some H" "canvas_ok W H"
    "\<forall>m \<in> set (keyframe_materials plan).
        check_keyframe_shape (qb_probe_facts t) (qb_material_shapes t) (W, H) m = Inr ()"
proof -
  obtain p0 facts shape W H n b1 b2 b3 where A: "batch_plan b = (Inr p0, b1)" "probe_all env p0 b1 = (Inr facts, b2)"
    "resolved_target_shape p0 facts = Inr shape" "plan = replace_plan_shape p0 shape"
    "rbind (dindex shape ''width'') py_int = Inr W" "rbind (dindex shape ''height'') py_int = Inr H"
    "material_shapes p0 shape facts = Inr (set_default (qb_material_shapes t) [])"
    "qb_probe_facts t = Some facts" "qb_material_shapes t \<noteq> None" "qb_width t = Some W" "qb_height t = Some H"
    by (rule admission_returns[OF run])
  obtain tk p pr cs tg fc fs afs sd se ar du where R: "minimax_h3_task_profile tk = Inr p" "request_ok tk p pr cs tg fc fs afs sd"
    "tg = target_entry se ar du" "target_ok p se ar du" "ratio_known ar" "se \<le> 2 ^ 50"
    "resolve_shape (PDict tg) p = Inr (rp_shape p0)" "rp_task p0 = tk" "list_all2 material_matches (rp_materials p0) cs"
    "map mi_condition_index (rp_materials p0) = [0..<length cs]"
    and bounds: "\<forall>m \<in> set (rp_materials p0). material_bound p (rp_shape p0) m"
    by (rule admissible_plan[OF adm A(1)])
  have bound: "material_bound p (rp_shape p0) m" if "m \<in> set (rp_materials p0)" for m using bounds that by blast
  have ks: "keyframe_materials plan = keyframe_materials p0" by (simp only: A(4) keyframe_materials_replace)
  note sig = plan_keyframes_signature[OF R(1,2,9) bound kf[unfolded ks]]
  have sound: "geometry_sound (rp_shape p0) \<and> frames_sound (rp_shape p0)"
    by (rule resolve_shape_sound[OF R(1,4,5,6) R(7)[unfolded R(3)]])
  note S = target_shape_sound[OF A(3)]
  obtain W' H' where g: "canvas_ok W' H'" "map_of shape ''width'' = Some (PInt W')" "map_of shape ''height'' = Some (PInt H')"
    using S(1) sound by (auto simp: geometry_fixed_def)
  have WH: "W' = W" "H' = H" using A(5,6) g by (auto simp: dindex_def)
  obtain k where k: "map_of shape ''frame_count'' = Some (PInt (minimax_h3_align_frame_count k))" "96 \<le> k" "k \<le> 360"
    using S(2) sound by (auto simp: frames_fixed_def)
  have each: "m \<in> set (rp_materials p0)" "mi_material_chain m = ''image.target_canvas''"
    "eq_int (mi_frame_index m) 0 \<or> eq_int (mi_frame_index m) (- 1)" if "m \<in> set (keyframe_materials p0)" for m
    using that signature_index[OF sig(1) that] by (auto simp: keyframe_materials_def)
  obtain m0 where m0: "m0 \<in> set (keyframe_materials p0)" using kf ks by (cases "keyframe_materials p0") auto
  have "map_of (rp_shape p0) ''frame_count'' \<noteq> None"
    using pixel_matches_bound[OF bound[OF each(1)[OF m0]] R(1) each(2,3)[OF m0]] by auto
  then have fc: "map_of (rp_shape p0) ''frame_count'' = Some (PInt (minimax_h3_align_frame_count k))"
    using target_shape_frame_count[OF A(3)] resolve_shape_temporal[OF R(1,4,5,6) R(7)[unfolded R(3)]] k(1) by simp
  have px: "pixel_matches (minimax_h3_align_frame_count k) m" if "m \<in> set (keyframe_materials p0)" for m
    using pixel_matches_bound[OF bound[OF each(1)[OF that]] R(1) each(2,3)[OF that]] fc by auto
  have one: "\<not> minimax_h3_align_frame_count k \<le> 1" using align_frame_count_ge[of k] k(2) by linarith
  have v: "validate_keyframe_materials plan (keyframe_materials plan) = Inr (map mi_frame_index (keyframe_materials p0))"
    using sig px one R(8) k(1) unfolding validate_keyframe_materials_def ks
    by (auto simp: A(4) dget_def list_all_iff)
  have c: "keyframe_canvas_size (rp_shape plan) = Inr (W, H)"
    using S(3) sound A(5,6) g by (auto simp: keyframe_canvas_size_def A(4) dindex_def dget_def split: option.splits)
  have "check_keyframe_shape (qb_probe_facts t) (qb_material_shapes t) (W, H) m = Inr ()" if m: "m \<in> set (keyframe_materials plan)" for m
  proof -
    have m': "m \<in> set (keyframe_materials p0)" using m ks by simp
    obtain f where f: "map_of facts (mi_condition_index m) = Some f" using probe_all_complete[OF A(2) each(1)[OF m']] by blast
    obtain shapes where sh: "qb_material_shapes t = Some shapes" "material_shapes p0 shape facts = Inr shapes"
      using A(7,9) by (auto simp: set_default_def)
    have "distinct (map mi_condition_index (rp_materials p0))" by (simp add: R(10))
    note entry = material_shapes_entry[OF sh(2) this each(1,2)[OF m']]
    show ?thesis
      using f entry target_shape_entry[OF g(2)] target_shape_entry[OF g(3)] WH
      by (simp add: check_keyframe_shape_def sh(1) A(8) del: One_nat_def)
  qed
  then show ?thesis using that[OF v c A(10,11)] g(1) WH by simp
qed

section \<open>Preparation after admission\<close>

text \<open>What the code relies on of Pillow: a decoded image has sides within the bound, resizing gives the requested size
  and a crop the size of its box.\<close>

definition pil_laws :: "'img pil \<Rightarrow> bool" where
  "pil_laws pil \<longleftrightarrow>
     (\<forall>img img'. pil_rgb pil img = Inr img' \<longrightarrow> 0 < fst (pil_size pil img') \<and> fst (pil_size pil img') \<le> 2 ^ 20 \<and>
        0 < snd (pil_size pil img') \<and> snd (pil_size pil img') \<le> 2 ^ 20) \<and>
     (\<forall>img w h. 0 < w \<and> 0 < h \<longrightarrow> pil_size pil (pil_resize pil img (w, h)) = (w, h)) \<and>
     (\<forall>img l t r b. l < r \<and> t < b \<longrightarrow> pil_size pil (pil_crop pil img (l, t, r, b)) = (r - l, b - t))"

lemma canvas_ok_sides: "canvas_ok w h \<Longrightarrow> 0 < w \<and> w \<le> 2 ^ 20 \<and> 0 < h \<and> h \<le> 2 ^ 20"
  by (auto simp: canvas_ok_def canvas_side_ok_def)

lemma stretch_keyframe_size:
  assumes "pil_laws pil" "canvas_ok w h" "minimax_h3_stretch_keyframe_canvas pil img w h = Inr img'"
  shows "pil_size pil img' = (w, h)"
proof -
  have "pil_size pil (pil_resize pil i (w, h)) = (w, h)" for i
    using assms(1) canvas_ok_sides[OF assms(2)] unfolding pil_laws_def by blast
  then show ?thesis using assms(3) by (auto simp: minimax_h3_stretch_keyframe_canvas_def rbind_Inr_iff)
qed

lemma prepare_keyframe_size:
  assumes laws: "pil_laws pil" and c: "canvas_ok w h" and rgb: "pil_rgb pil img = Inr rgb"
  shows "\<exists>img'. minimax_h3_prepare_keyframe_canvas pil img w h True = Inr img' \<and> pil_size pil img' = (w, h)"
proof (cases "pil_size pil rgb = (w, h)")
  case False
  obtain sw sh where s: "pil_size pil rgb = (sw, sh)" by fastforce
  have "sides_ok sw sh w h"
  proof -
    have "0 < sw \<and> sw \<le> 2 ^ 20 \<and> 0 < sh \<and> sh \<le> 2 ^ 20"
      using laws rgb unfolding pil_laws_def by (metis fst_conv snd_conv s)
    then show ?thesis using canvas_ok_sides[OF c] unfolding sides_ok_def by blast
  qed
  from cover_crop_plan_covers[OF this, of True] obtain plan where
    p: "minimax_h3_cover_crop_plan sw sh w h True = Inr plan" "covers sw sh w h plan" by auto
  obtain rw rh l t r b where q: "cp_resized_size plan = (rw, rh)" "cp_crop_box plan = (l, t, r, b)" by (metis prod_cases4 surj_pair)
  have "l < r" "t < b" "r - l = w" "b - t = h" using p(2) canvas_ok_sides[OF c] by (auto simp: covers_def q Let_def)
  then have "pil_size pil (pil_crop pil (pil_resize pil rgb (rw, rh)) (l, t, r, b)) = (w, h)"
    using laws unfolding pil_laws_def by blast
  then show ?thesis using False p(1) rgb by (simp add: minimax_h3_prepare_keyframe_canvas_def s q)
qed (simp add: minimax_h3_prepare_keyframe_canvas_def rgb)

lemma prepare_keyframe_Inr:
  assumes "prepare_keyframe env pil (w, h) (k, m) b = (Inr e, b')" and "pil_laws pil" "canvas_ok w h"
  shows "pil_size pil (ke_image e) = (w, h) \<and> ke_canvas e = (w, h) \<and> ke_condition_index e = mi_condition_index m \<and>
         opt_int (mi_frame_index m) = Inr (ke_frame_index e) \<and> ke_resolved_frame_index e = mi_resolved_frame_index m"
proof -
  obtain img img' where i: "(if k = 0 then minimax_h3_stretch_keyframe_canvas pil img w h
        else minimax_h3_prepare_keyframe_canvas pil img w h True) = Inr img'"
    and e: "ke_image e = img'" "ke_canvas e = (w, h)" "ke_condition_index e = mi_condition_index m"
      "opt_int (mi_frame_index m) = Inr (ke_frame_index e)" "ke_resolved_frame_index e = mi_resolved_frame_index m"
    using assms(1) unfolding prepare_keyframe_def prod.case by (auto simp: act_simps simp del: areturn_simp alift_simp dest: sym)
  have "pil_size pil img' = (w, h)"
  proof (cases "k = 0")
    case True
    then show ?thesis using stretch_keyframe_size[OF assms(2,3)] i by simp
  next
    case False
    then have p: "minimax_h3_prepare_keyframe_canvas pil img w h True = Inr img'" using i by simp
    then obtain rgb where "pil_rgb pil img = Inr rgb" by (auto simp: minimax_h3_prepare_keyframe_canvas_def rbind_Inr_iff)
    from prepare_keyframe_size[OF assms(2,3) this] p show ?thesis by auto
  qed
  then show ?thesis using e by simp
qed

lemma prepare_keyframe_cache: "prepare_keyframe env pil c km b = (r, b') \<Longrightarrow> cb_prepared b' = cb_prepared b"
  by (cases km; cases c; cases r)
     (auto simp: prepare_keyframe_def act_simps on_batch_def open_image_def split: prod.splits simp del: areturn_simp alift_simp abind_simps)

text \<open>The only ways a keyframe can fail to be prepared on an admitted canvas: its material cannot be localised, or the
  file cannot be opened, transposed or converted to RGB.\<close>

definition decoding_fails ::
  "io_env \<Rightarrow> 'img pil \<Rightarrow> material_item \<Rightarrow> py_error \<Rightarrow> 'img canvas_batch \<Rightarrow> 'img canvas_batch \<Rightarrow> bool" where
  "decoding_fails env pil m e s s' \<longleftrightarrow>
     (case on_batch (on_material (minimax_h3_localize_material_uri env (mi_uri m) (mi_condition_type m) (mi_condition_index m))) s of
        (Inl e', s1) \<Rightarrow> e' = e \<and> s' = s1
      | (Inr path, s1) \<Rightarrow> s' = s1 \<and>
          (case pil_open pil (ms_fs (qb_material (cb_batch s1))) path of
             Inl e' \<Rightarrow> e' = e
           | Inr img \<Rightarrow> (case pil_exif_transpose pil img of Inl e' \<Rightarrow> e' = e | Inr img' \<Rightarrow> pil_rgb pil img' = Inl e)))"

lemma opt_int_total: "eq_int v k \<Longrightarrow> \<exists>x. opt_int v = Inr x"
proof (cases v)
  case (PFloat x)
  then show "eq_int v k \<Longrightarrow> \<exists>x. opt_int v = Inr x" by (cases x) (auto simp: eq_int_def opt_int_def)
qed (auto simp: eq_int_def opt_int_def)

lemma canvas_step_error:
  assumes "pil_laws pil" "canvas_ok w h"
    and "(if (k :: nat) = 0 then minimax_h3_stretch_keyframe_canvas pil img w h
          else minimax_h3_prepare_keyframe_canvas pil img w h True) = Inl e"
  shows "pil_rgb pil img = Inl e"
proof (cases "pil_rgb pil img")
  case (Inl e')
  then show ?thesis using assms(3)
    by (auto simp: minimax_h3_stretch_keyframe_canvas_def minimax_h3_prepare_keyframe_canvas_def split: if_splits)
next
  case (Inr rgb)
  obtain img' where "minimax_h3_prepare_keyframe_canvas pil img w h True = Inr img'"
    using prepare_keyframe_size[OF assms(1,2) Inr] by blast
  then show ?thesis using assms(3) Inr by (auto simp: minimax_h3_stretch_keyframe_canvas_def split: if_splits)
qed

lemma prepare_keyframe_Inl:
  assumes run: "prepare_keyframe env pil (w, h) (k, m) s = (Inl e, s')" and ok: "pil_laws pil" "canvas_ok w h"
    and idx: "eq_int (mi_frame_index m) i"
  shows "decoding_fails env pil m e s s'"
proof -
  let ?loc = "on_batch (on_material (minimax_h3_localize_material_uri env (mi_uri m) (mi_condition_type m) (mi_condition_index m))) s"
  obtain x where x: "opt_int (mi_frame_index m) = Inr x" using opt_int_total[OF idx] by blast
  show ?thesis
  proof (cases "fst ?loc")
    case (Inl e')
    then show ?thesis using run by (cases ?loc) (simp add: prepare_keyframe_def decoding_fails_def abind_def)
  next
    case (Inr path)
    then obtain s1 where l: "?loc = (Inr path, s1)" by (cases ?loc) simp
    let ?raw = "rbind (pil_open pil (ms_fs (qb_material (cb_batch s1))) path) (pil_exif_transpose pil)"
    show ?thesis
    proof (cases ?raw)
      case (Inl e')
      then have "e' = e \<and> s' = s1" using run by (simp add: prepare_keyframe_def l abind_def open_image_def)
      then show ?thesis using Inl by (auto simp: decoding_fails_def l rbind_Inl_iff split: sum.splits)
    next
      case (Inr img)
      have "(if k = 0 then minimax_h3_stretch_keyframe_canvas pil img w h
          else minimax_h3_prepare_keyframe_canvas pil img w h True) = Inl e \<and> s' = s1"
        using run by (auto simp: prepare_keyframe_def l abind_def open_image_def Inr x alift_def areturn_def split: sum.splits if_splits)
      then have "pil_rgb pil img = Inl e" "s' = s1" using canvas_step_error[OF ok] by blast+
      then show ?thesis using Inr by (auto simp: decoding_fails_def l rbind_Inr_iff)
    qed
  qed
qed

text \<open>The indices that the payload records agree with the plan, so a second call finds the cache consistent.\<close>

lemma opt_int_index: "eq_int v k \<Longrightarrow> opt_int v = Inr x \<Longrightarrow> \<exists>n. x = Some n \<and> eq_int v n"
  by (cases "v = PNone") (auto simp: opt_int_def res_simps dest: py_int_of_eq_int)

lemma semantic_indices_recorded:
  assumes "list_all2 (\<lambda>m e. opt_int (mi_frame_index m) = Inr (ke_frame_index e)) ms es" and "\<forall>m \<in> set ms. \<exists>k. eq_int (mi_frame_index m) k"
  shows "list_all2 eq_int (map mi_frame_index ms) (List.map_filter ke_frame_index es)"
  using assms by (induction ms es rule: list_all2_induct) (auto simp: List.map_filter_simps dest: opt_int_index)

lemma amap_list_all2:
  assumes "amap f xs s = (Inr ys, t)" and "\<And>x s y t. x \<in> set xs \<Longrightarrow> f x s = (Inr y, t) \<Longrightarrow> R x y"
  shows "list_all2 R xs ys"
  using assms by (induction xs arbitrary: s ys) (auto simp: act_simps simp del: areturn_simp abind_simps)

lemma prepared_keyframes_run:
  assumes "validate_keyframe_materials plan (keyframe_materials plan) = Inr sem"
    and "keyframe_canvas_size (rp_shape plan) = Inr (W, H)" and "cb_prepared cb = None"
    and "\<forall>m \<in> set (keyframe_materials plan).
        check_keyframe_shape (qb_probe_facts (cb_batch cb)) (qb_material_shapes (cb_batch cb)) (W, H) m = Inr ()"
  shows "minimax_h3_prepared_keyframes env pil plan cb =
     abind (amap (prepare_keyframe env pil (W, H)) (enumerate 0 (keyframe_materials plan))) (\<lambda>entries.
     abind (alift (keyframe_payload plan (W, H) entries)) (\<lambda>payload.
     abind (aupdate (\<lambda>b. b\<lparr>cb_prepared := Some payload\<rparr>)) (\<lambda>_. areturn payload))) cb"
proof -
  have "rmap (check_keyframe_shape (qb_probe_facts (cb_batch cb)) (qb_material_shapes (cb_batch cb)) (W, H))
      (keyframe_materials plan) = Inr (map (\<lambda>_. ()) (keyframe_materials plan))"
    using assms(4) by (intro rmap_total) blast
  then show ?thesis using assms(1-3) by (simp add: minimax_h3_prepared_keyframes_def Let_def)
qed

lemma validate_keyframes_Inr:
  assumes "validate_keyframe_materials plan ms = Inr sem"
  obtains n where "sem = map mi_frame_index ms" "dget (rp_shape plan) ''frame_count'' = PInt n" "list_all (pixel_matches n) ms"
    "\<forall>m \<in> set ms. \<exists>k. eq_int (mi_frame_index m) k"
proof -
  obtain n where v: "sem = map mi_frame_index ms" "dget (rp_shape plan) ''frame_count'' = PInt n" "list_all (pixel_matches n) ms"
    "matches_signature (map mi_frame_index ms)"
    using assms by (auto simp: validate_keyframe_materials_def Let_def res_simps split: pyval.splits)
  then show ?thesis using that signature_index by blast
qed

lemma eq_int_unique: "eq_int v j \<Longrightarrow> eq_int v k \<Longrightarrow> j = k"
  by (auto simp: eq_int_def split: option.splits elim!: feq.elims)

lemma pixel_indices_recorded:
  assumes "list_all2 (\<lambda>m e. opt_int (mi_frame_index m) = Inr (ke_frame_index e) \<and> ke_resolved_frame_index e = mi_resolved_frame_index m) ms es"
    and "\<forall>m \<in> set ms. \<exists>k. eq_int (mi_frame_index m) k" and "list_all (pixel_matches n) ms"
  shows "List.map_filter ke_resolved_frame_index es = map (\<lambda>i. if i = - 1 then n - 1 else i) (List.map_filter ke_frame_index es)"
  using assms
proof (induction ms es rule: list_all2_induct)
  case (Cons m ms e es)
  obtain k where k: "eq_int (mi_frame_index m) k" using Cons.prems by auto
  obtain j where j: "ke_frame_index e = Some j" "eq_int (mi_frame_index m) j" using opt_int_index[OF k] Cons.hyps by blast
  have "ke_resolved_frame_index e = Some (if j = - 1 then n - 1 else j)"
  proof -
    have px: "pixel_matches n m" and rs: "ke_resolved_frame_index e = mi_resolved_frame_index m" using Cons.prems(2) Cons.hyps(1) by simp_all
    obtain r where r: "mi_resolved_frame_index m = Some r" using px by (auto simp: pixel_matches_def split: option.splits)
    have "eq_int (mi_frame_index m) (- 1) \<longleftrightarrow> j = - 1" using j(2) eq_int_unique by blast
    moreover have "eq_int (mi_frame_index m) r \<longleftrightarrow> j = r" using j(2) eq_int_unique by blast
    ultimately show ?thesis using px r rs by (simp add: pixel_matches_def split: if_splits)
  qed
  then show ?case using Cons j by (simp add: List.map_filter_simps)
qed simp

text \<open>What a request's prepared keyframes promise to the encoders.\<close>

definition keyframes_prepared :: "'img pil \<Rightarrow> resolved_plan \<Rightarrow> int \<times> int \<Rightarrow> 'img prepared_keyframes \<Rightarrow> bool" where
  "keyframes_prepared pil plan canvas payload \<longleftrightarrow>
     pk_canvas payload = canvas \<and> pk_images payload \<noteq> [] \<and> pk_image payload = ke_image (hd (pk_images payload)) \<and>
     list_all2 (\<lambda>m e. pil_size pil (ke_image e) = canvas \<and> ke_canvas e = canvas \<and> ke_condition_index e = mi_condition_index m)
       (keyframe_materials plan) (pk_images payload) \<and>
     list_all2 eq_int (map mi_frame_index (keyframe_materials plan)) (pk_semantic_frame_indices payload) \<and>
     (\<exists>n. dget (rp_shape plan) ''frame_count'' = PInt n \<and> pk_frame_count payload = Some n \<and>
        pk_pixel_frame_indices payload = map (\<lambda>i. if i = - 1 then n - 1 else i) (pk_semantic_frame_indices payload))"

lemma list_all2_enumerate: "list_all2 (\<lambda>(k, x) y. R x y) (enumerate n xs) ys \<longleftrightarrow> list_all2 R xs ys"
  by (induction xs arbitrary: n ys) (auto simp: list_all2_Cons1)

lemma keyframe_payload_prepared:
  assumes run: "amap (prepare_keyframe env pil (W, H)) (enumerate 0 (keyframe_materials plan)) cb = (Inr es, cb')"
    and laws: "pil_laws pil" and c: "canvas_ok W H" and kf: "keyframe_materials plan \<noteq> []"
    and v: "validate_keyframe_materials plan (keyframe_materials plan) = Inr sem"
  obtains payload where "keyframe_payload plan (W, H) es = Inr payload" "keyframes_prepared pil plan (W, H) payload"
    "cached_keyframes sem (keyframe_materials plan) payload = Inr payload"
proof -
  let ?ks = "keyframe_materials plan"
  let ?R = "\<lambda>m e. pil_size pil (ke_image e) = (W, H) \<and> ke_canvas e = (W, H) \<and> ke_condition_index e = mi_condition_index m \<and>
         opt_int (mi_frame_index m) = Inr (ke_frame_index e) \<and> ke_resolved_frame_index e = mi_resolved_frame_index m"
  have "list_all2 (\<lambda>(k, m) e. ?R m e) (enumerate 0 ?ks) es"
    by (rule amap_list_all2[OF run]) (use prepare_keyframe_Inr[OF _ laws c] in fastforce)
  then have R: "list_all2 ?R ?ks es" by (simp only: list_all2_enumerate)
  obtain n where n: "sem = map mi_frame_index ?ks" "dget (rp_shape plan) ''frame_count'' = PInt n" "list_all (pixel_matches n) ?ks"
    "\<forall>m \<in> set ?ks. \<exists>k. eq_int (mi_frame_index m) k" by (rule validate_keyframes_Inr[OF v])
  have si: "list_all2 eq_int (map mi_frame_index ?ks) (List.map_filter ke_frame_index es)"
    by (rule semantic_indices_recorded[OF _ n(4)]) (rule list_all2_mono[OF R], blast)
  have pi: "List.map_filter ke_resolved_frame_index es = map (\<lambda>i. if i = - 1 then n - 1 else i) (List.map_filter ke_frame_index es)"
    by (rule pixel_indices_recorded[OF _ n(4,3)]) (rule list_all2_mono[OF R], blast)
  obtain e es' where es: "es = e # es'" using R kf by (cases es) auto
  have len: "length es = length ?ks" using R by (simp add: list_all2_lengthD)
  have sizes: "list_all2 (\<lambda>m e. pil_size pil (ke_image e) = (W, H) \<and> ke_canvas e = (W, H) \<and> ke_condition_index e = mi_condition_index m)
       ?ks es" by (rule list_all2_mono[OF R]) blast
  let ?p = "\<lparr>pk_image = ke_image e, pk_canvas = (W, H), pk_images = es, pk_semantic_frame_indices = List.map_filter ke_frame_index es,
       pk_pixel_frame_indices = List.map_filter ke_resolved_frame_index es, pk_frame_count = Some n\<rparr>"
  have "keyframe_payload plan (W, H) es = Inr ?p" by (simp add: keyframe_payload_def es n(2) opt_int_def)
  moreover have "keyframes_prepared pil plan (W, H) ?p" using si pi sizes n(2) es by (simp add: keyframes_prepared_def)
  moreover have "cached_keyframes sem ?ks ?p = Inr ?p" using si len by (simp add: cached_keyframes_def n(1))
  ultimately show ?thesis by (rule that)
qed

lemma prepared_keyframes_admitted:
  assumes adm: "admissible canonical b" and run: "minimax_h3_prepare_for_queue env b = (Inr plan, t)"
    and kf: "keyframe_materials plan \<noteq> []" and cb: "cb_batch cb = t" "cb_prepared cb = None" and laws: "pil_laws pil"
  obtains W H where "qb_width t = Some W" "qb_height t = Some H"
    "\<forall>e cb'. minimax_h3_prepared_keyframes env pil plan cb = (Inl e, cb') \<longrightarrow> cb_prepared cb' = None \<and>
       (\<exists>m \<in> set (keyframe_materials plan). \<exists>s. decoding_fails env pil m e s cb')"
    "\<forall>payload cb'. minimax_h3_prepared_keyframes env pil plan cb = (Inr payload, cb') \<longrightarrow>
       keyframes_prepared pil plan (W, H) payload \<and> minimax_h3_prepared_keyframes env pil plan cb' = (Inr payload, cb')"
proof -
  let ?ks = "keyframe_materials plan"
  obtain sem W H where A: "validate_keyframe_materials plan ?ks = Inr sem" "keyframe_canvas_size (rp_shape plan) = Inr (W, H)"
    "qb_width t = Some W" "qb_height t = Some H" "canvas_ok W H"
    "\<forall>m \<in> set ?ks. check_keyframe_shape (qb_probe_facts t) (qb_material_shapes t) (W, H) m = Inr ()"
    by (rule admitted_keyframes[OF adm run kf])
  have eq: "minimax_h3_prepared_keyframes env pil plan cb =
     abind (amap (prepare_keyframe env pil (W, H)) (enumerate 0 ?ks)) (\<lambda>entries.
     abind (alift (keyframe_payload plan (W, H) entries)) (\<lambda>payload.
     abind (aupdate (\<lambda>b. b\<lparr>cb_prepared := Some payload\<rparr>)) (\<lambda>_. areturn payload))) cb"
    by (rule prepared_keyframes_run[OF A(1,2) cb(2)]) (use A(6) cb(1) in simp)
  have stores: "keyframes_prepared pil plan (W, H) payload \<and> cb' = c1\<lparr>cb_prepared := Some payload\<rparr> \<and>
      cached_keyframes sem ?ks payload = Inr payload"
    if l: "amap (prepare_keyframe env pil (W, H)) (enumerate 0 ?ks) cb = (Inr es, c1)"
      and q: "minimax_h3_prepared_keyframes env pil plan cb = (Inr payload, cb')" for es c1 payload cb'
  proof -
    obtain p where p: "keyframe_payload plan (W, H) es = Inr p" "keyframes_prepared pil plan (W, H) p"
      "cached_keyframes sem ?ks p = Inr p" by (rule keyframe_payload_prepared[OF l laws A(5) kf A(1)])
    have "payload = p" "cb' = c1\<lparr>cb_prepared := Some p\<rparr>" using q by (auto simp: eq l p(1))
    then show ?thesis using p(2,3) by simp
  qed
  have "cb_prepared c1 = None \<and> (\<exists>m \<in> set ?ks. \<exists>s. decoding_fails env pil m e s c1)"
    if "minimax_h3_prepared_keyframes env pil plan cb = (Inl e, c1)" for e c1
  proof -
    have l: "amap (prepare_keyframe env pil (W, H)) (enumerate 0 ?ks) cb = (Inl e, c1)"
    proof (cases "amap (prepare_keyframe env pil (W, H)) (enumerate 0 ?ks) cb")
      case (Pair r s)
      show ?thesis
      proof (cases r)
        case (Inr es)
        then have l: "amap (prepare_keyframe env pil (W, H)) (enumerate 0 ?ks) cb = (Inr es, s)" using Pair by simp
        obtain p where "keyframe_payload plan (W, H) es = Inr p" by (rule keyframe_payload_prepared[OF l laws A(5) kf A(1)])
        then show ?thesis using that by (simp add: eq l)
      qed (use that Pair in \<open>simp add: eq abind_def\<close>)
    qed
    have "cb_prepared c1 = None"
      by (rule amap_keeps[OF _ _ l, of "\<lambda>c. cb_prepared c = None"]) (use cb prepare_keyframe_cache in \<open>metis\<close>)+
    moreover obtain km s where km: "km \<in> set (enumerate 0 ?ks)" "prepare_keyframe env pil (W, H) km s = (Inl e, c1)"
      using amap_Inl[OF l] by blast
    obtain k m where k: "km = (k, m)" by fastforce
    have mk: "m \<in> set ?ks" using km(1) unfolding k enumerate_eq_zip by (rule set_zip_rightD)
    moreover obtain i where "eq_int (mi_frame_index m) i" using validate_keyframes_Inr[OF A(1)] mk by metis
    ultimately show ?thesis using prepare_keyframe_Inl[OF km(2)[unfolded k] laws A(5)] by blast
  qed
  moreover have "keyframes_prepared pil plan (W, H) payload \<and> minimax_h3_prepared_keyframes env pil plan c1 = (Inr payload, c1)"
    if q: "minimax_h3_prepared_keyframes env pil plan cb = (Inr payload, c1)" for payload c1
  proof -
    obtain es c0 where "amap (prepare_keyframe env pil (W, H)) (enumerate 0 ?ks) cb = (Inr es, c0)"
      using q unfolding eq by (auto simp: act_simps simp del: abind_simps)
    note st = stores[OF this q]
    then show ?thesis using A(1) by (simp add: minimax_h3_prepared_keyframes_def Let_def)
  qed
  ultimately show ?thesis using that[OF A(3,4)] by blast
qed

end
