(* ===== verification/Video_Adapter.thy ===== *)
theory Video_Adapter
  imports Canvas_Correct Json
begin

text \<open>
  \<^verbatim>\<open>minimax_h3/video_adapter.py\<close>: the hooks between the video API and the pipeline. Request fields are checked and
  lowered; the queued job is described from the resolved plan; a delivered file is accepted only when what ffprobe
  reports of it meets the request. The ffprobe process is the parameter \<open>run\<close>: what it does with a path.
\<close>

section \<open>Texts\<close>

definition rstrip_char :: "char \<Rightarrow> string \<Rightarrow> string" where
  "rstrip_char c s = rev (dropWhile (\<lambda>x. x = c) (rev s))"

text \<open>\<^verbatim>\<open>f"{x:.6f}"\<close> of a finite float: the exact value rounded to six decimals, ties to even.\<close>

definition pad_left :: "nat \<Rightarrow> string \<Rightarrow> string" where
  "pad_left n s = replicate (n - length s) (CHR ''0'') @ s"

definition format_6f :: "rat \<Rightarrow> string" where
  "format_6f a =
     (let n = round_even (\<bar>a\<bar> * 10 ^ 6)
      in (if a < 0 then ''-'' else []) @ show_nat10 (n div 10 ^ 6) @ ''.'' @ pad_left 6 (show_nat10 (n mod 10 ^ 6)))"

definition fabs :: "pyfloat \<Rightarrow> pyfloat" where
  "fabs x = (if flt x (Fin 0) then fneg x else x)"

text \<open>Rounding refuses infinities and NaN, so the last line only sees finite values.\<close>

definition format_video_seconds :: "pyfloat \<Rightarrow> string res" where
  "format_video_seconds value =
     rbind (py_round value) (\<lambda>rounded.
     rbind (float_of_int rounded) (\<lambda>r.
     if flt (fabs (fsub value r)) (fl (1 / 10 ^ 9)) then Inr (show_int rounded)
     else Inr (case value of Fin a \<Rightarrow> rstrip_char (CHR ''.'') (rstrip_char (CHR ''0'') (format_6f a)) | _ \<Rightarrow> [])))"

section \<open>Request fields\<close>

record video_request =
  vr_extra :: pydict
  vr_num_frames :: "int option"
  vr_fps :: "int option"
  vr_frame_interpolation :: bool
  vr_upscaling :: bool

definition QUALITY_LEVELS :: "string list" where
  "QUALITY_LEVELS = [''lossless'', ''extra-high'', ''high'']"

definition SUPPORTED_TASKS :: "string list" where
  "SUPPORTED_TASKS = [''t2va'', ''fl2va'', ''ref2va'']"

definition parse_extra_value :: "pyval \<Rightarrow> pyval" where
  "parse_extra_value value = (case value of
      PStr s \<Rightarrow> (case json_loads s of None \<Rightarrow> value | Some v \<Rightarrow> v) | _ \<Rightarrow> value)"

definition validate_task_gate :: "pyval \<Rightarrow> bool \<Rightarrow> unit res" where
  "validate_task_gate task provided =
     raise_if (\<not> provided \<or> task = PNone)
       (ValueError ''task is required for MiniMax H3; supported tasks: fl2va, ref2va, t2va'')
     (case task of
        PStr s \<Rightarrow>
          raise_if (strip s = []) (ValueError ''task must be a non-empty string for MiniMax H3'')
          (raise_if (s \<notin> set SUPPORTED_TASKS) (ValueError ''unsupported MiniMax H3 task'') (Inr ()))
      | _ \<Rightarrow> Inl (ValueError ''task must be a non-empty string for MiniMax H3''))"

definition positive_finite_extra :: "video_request \<Rightarrow> string \<Rightarrow> pyfloat option res" where
  "positive_finite_extra request name =
     (let err = ValueError (name @ '' must be a positive finite float'') in
      case parse_extra_value (dget (vr_extra request) name) of
        PNone \<Rightarrow> Inr None
      | PBool _ \<Rightarrow> Inl err
      | value \<Rightarrow>
          rbind (catch_tv (py_float value) err) (\<lambda>parsed.
          raise_if (\<not> is_finite parsed \<or> fle parsed (Fin 0)) err (Inr (Some parsed))))"

definition quality_extra :: "video_request \<Rightarrow> string \<Rightarrow> string option res" where
  "quality_extra request name =
     (let err = ValueError (name @ '' must be one of the quality levels'') in
      case dget (vr_extra request) name of
        PNone \<Rightarrow> Inr None
      | PStr s \<Rightarrow> raise_if (s \<notin> set QUALITY_LEVELS) err (Inr (Some s))
      | _ \<Rightarrow> Inl err)"

definition RETIRED_CFG_FIELDS :: "string list" where
  "RETIRED_CFG_FIELDS = [''guidance_scale'', ''guidance_scale_2'', ''true_cfg_scale'', ''negative_prompt'']"

definition reject_retired_cfg_fields :: "pydict \<Rightarrow> pydict res" where
  "reject_retired_cfg_fields kwargs =
     rfold (\<lambda>name d. raise_if (dget d name \<noteq> PNone) (ValueError (name @ '' is not supported'')) (Inr (dpop name d)))
       RETIRED_CFG_FIELDS kwargs"

definition reject_transport_timing_fields :: "video_request \<Rightarrow> unit res" where
  "reject_transport_timing_fields request =
     raise_if (vr_num_frames request \<noteq> None) (ValueError ''num_frames is not supported'')
     (raise_if (vr_fps request \<noteq> None) (ValueError ''fps is not supported'') (Inr ()))"

text \<open>\<^verbatim>\<open>output_mode not in (None, "decoded_files")\<close>.\<close>

definition output_mode_ok :: "pyval \<Rightarrow> bool" where
  "output_mode_ok v = (v = PNone \<or> eq_str v ''decoded_files'')"

definition validate_transport_options :: "video_request \<Rightarrow> unit res" where
  "validate_transport_options request =
     (let extras = vr_extra request in
      rbind (validate_task_gate (dget extras ''task'') (dhas extras ''task'')) (\<lambda>_.
      rbind (positive_finite_extra request ''audio_flow_shift'') (\<lambda>_.
      raise_if (dget extras ''audio_guidance_scale'' \<noteq> PNone) (ValueError ''audio_guidance_scale is not supported'')
      (raise_if (\<not> output_mode_ok (dget extras ''output_mode''))
         (ValueError ''MiniMax H3 SGLang backend only supports output_mode=decoded_files'')
      (raise_if (vr_frame_interpolation request) (ValueError ''MiniMax H3 does not support enable_frame_interpolation'')
      (raise_if (vr_upscaling request) (ValueError ''MiniMax H3 does not support enable_upscaling'') (Inr ())))))))"

definition opt_float_val :: "pyfloat option \<Rightarrow> pyval" where
  "opt_float_val v = (case v of None \<Rightarrow> PNone | Some x \<Rightarrow> PFloat x)"

text \<open>\<^verbatim>\<open>kwargs.update({...})\<close>, and the quality when the request has one.\<close>

definition update_kwargs :: "video_request \<Rightarrow> pyfloat option \<Rightarrow> string option \<Rightarrow> pydict \<Rightarrow> pydict" where
  "update_kwargs request audio_flow_shift quality kwargs =
     (let extra = (\<lambda>name. parse_extra_value (dget (vr_extra request) name));
          kwargs = dupdate kwargs
            [(''audio_flow_shift'', opt_float_val audio_flow_shift),
             (''task'', canonical_minimax_h3_task (extra ''task'')),
             (''conditions'', extra ''conditions''), (''target'', extra ''target''),
             (''imgvid_cond_noise_aug_for_inference'', extra ''imgvid_cond_noise_aug_for_inference''),
             (''audio_cond_noise_aug_for_inference'', extra ''audio_cond_noise_aug_for_inference'')]
      in case quality of None \<Rightarrow> kwargs | Some q \<Rightarrow> dset ''quality'' (PStr q) kwargs)"

definition lower_video_request_kwargs :: "video_request \<Rightarrow> pydict \<Rightarrow> pydict res" where
  "lower_video_request_kwargs request kwargs =
     rbind (validate_transport_options request) (\<lambda>_.
     rbind (reject_transport_timing_fields request) (\<lambda>_.
     rbind (reject_retired_cfg_fields (dpop ''fps'' (dpop ''num_frames'' kwargs))) (\<lambda>kwargs.
     rbind (quality_extra request ''quality'') (\<lambda>quality.
     rbind (positive_finite_extra request ''audio_flow_shift'') (\<lambda>audio_flow_shift.
     Inr (update_kwargs request audio_flow_shift quality kwargs))))))"

section \<open>Offline requests\<close>

record delivery_params =
  dp_task :: pyval
  dp_frame_interpolation :: bool
  dp_upscaling :: bool
  dp_save_output :: bool
  dp_output_path :: pyval
  dp_output_mode :: pyval
  dp_quality :: pyval
  dp_explicit_fields :: "string list"

definition validate_sampling_params :: "delivery_params \<Rightarrow> delivery_params res" where
  "validate_sampling_params p =
     rbind (validate_task_gate (dp_task p) (dp_task p \<noteq> PNone)) (\<lambda>_.
     let p = p\<lparr>dp_task := canonical_minimax_h3_task (dp_task p)\<rparr> in
     raise_if (dp_frame_interpolation p) (ValueError ''MiniMax H3 does not support enable_frame_interpolation'')
     (raise_if (dp_upscaling p) (ValueError ''MiniMax H3 does not support enable_upscaling'')
     (raise_if (\<not> dp_save_output p \<or> \<not> truthy (dp_output_path p))
        (ValueError ''MiniMax H3 DiffGenerator requires save_output=True and a non-empty output_path'')
     (raise_if (\<not> output_mode_ok (dp_output_mode p))
        (ValueError ''MiniMax H3 SGLang backend only supports output_mode=decoded_files'') (Inr p)))))"

section \<open>The queued job\<close>

text \<open>The shape of the plan kept in the batch; \<open>None\<close> when the batch holds no complete canonical request.\<close>

definition has_canonical :: "(string \<times> extra_val) list \<Rightarrow> bool" where
  "has_canonical extra = (case extra_get extra MINIMAX_H3_CANONICAL_REQUEST_EXTRA_KEY of
      EVal (PDict c) \<Rightarrow> list_all (dhas c) [''schema'', ''task'', ''prompt'', ''conditions'', ''target'']
    | _ \<Rightarrow> False)"

definition resolved_shape :: "(queue_batch, pydict option) act" where
  "resolved_shape b =
     (if \<not> has_canonical (qb_extra b) then (Inr None, b)
      else case minimax_h3_plan_from_batch (DictExtra (qb_extra b)) of
        Inl e \<Rightarrow> (Inl e, b)
      | Inr (plan, extra) \<Rightarrow>
          (let b' = (case extra of DictExtra d \<Rightarrow> b\<lparr>qb_extra := d\<rparr> | _ \<Rightarrow> b) in
           case plan of
             None \<Rightarrow> (Inr None, b')
           | Some plan \<Rightarrow>
               (raise_if (\<not> truthy (dget (rp_shape plan) ''geometry'') \<or> py_str (dget (rp_shape plan) ''geometry'') \<noteq> ''resolved_v2'')
                  (ValueError ''queued MiniMax H3 jobs require pre-queue resolved_v2 geometry'')
                (raise_if (dget (rp_shape plan) ''frame_count'' = PNone)
                  (ValueError ''queued MiniMax H3 jobs require pre-queue resolved temporal dimensions'')
                (Inr (Some (rp_shape plan)))), b')))"

definition size_text :: "int \<Rightarrow> int \<Rightarrow> string" where
  "size_text w h = show_int w @ ''x'' @ show_int h"

definition has_size :: "pydict \<Rightarrow> bool" where
  "has_size shape = (dget shape ''width'' \<noteq> PNone \<and> dget shape ''height'' \<noteq> PNone)"

definition shape_size :: "pydict \<Rightarrow> (int \<times> int) res" where
  "shape_size shape = rbind (py_int (dget shape ''width'')) (\<lambda>w. rbind (py_int (dget shape ''height'')) (\<lambda>h. Inr (w, h)))"

text \<open>\<^verbatim>\<open>int(frame_count) / float(shape["fps"])\<close>: Python converts the integer operand to a float.\<close>

definition queued_seconds :: "pydict \<Rightarrow> string res" where
  "queued_seconds shape =
     rbind (py_int (dget shape ''frame_count'')) (\<lambda>n.
     rbind (rbind (dindex shape ''fps'') py_float) (\<lambda>fps.
     rbind (float_of_int n) (\<lambda>x.
     rbind (fdiv x fps) format_video_seconds)))"

definition job_fields :: "delivery_params \<Rightarrow> pydict \<Rightarrow> (string \<times> string) list res" where
  "job_fields p shape =
     rbind (if has_size shape then rbind (shape_size shape) (\<lambda>(w, h). Inr [(''size'', size_text w h)]) else Inr []) (\<lambda>size.
     rbind (if dget shape ''frame_count'' \<noteq> PNone then rbind (queued_seconds shape) (\<lambda>s. Inr [(''seconds'', s)]) else Inr []) (\<lambda>seconds.
     Inr (size @ seconds @
       (if truthy (dp_quality p) \<and> ''quality'' \<in> set (dp_explicit_fields p) then [(''quality'', py_str (dp_quality p))] else []))))"

definition project_queued_job_fields :: "delivery_params \<Rightarrow> (queue_batch, (string \<times> string) list) act" where
  "project_queued_job_fields p =
     abind resolved_shape (\<lambda>shape. case shape of None \<Rightarrow> areturn [] | Some s \<Rightarrow> alift (job_fields p s))"

section \<open>Delivered files\<close>

text \<open>What running ffprobe on a path does: print a text, run out of time, be missing, or fail with a message.\<close>

datatype delivery_run = DeliveryOutput string | DeliveryTimeout | DeliveryMissing | DeliveryFailed string

definition delivery_payload :: "delivery_run \<Rightarrow> pydict res" where
  "delivery_payload r = (case r of
      DeliveryTimeout \<Rightarrow> Inl (RuntimeError ''MiniMax H3 final output ffprobe timed out after 30 seconds'')
    | DeliveryMissing \<Rightarrow> Inl (RuntimeError ''ffprobe is required to validate final MiniMax H3 output'')
    | DeliveryFailed detail \<Rightarrow> Inl (RuntimeError (''ffprobe failed for final MiniMax H3 output'' @
        (if strip detail = [] then [] else '': '' @ strip detail)))
    | DeliveryOutput out \<Rightarrow> (case json_loads out of
        Some (PDict payload) \<Rightarrow> Inr payload
      | _ \<Rightarrow> Inl (RuntimeError ''ffprobe returned invalid JSON for MiniMax H3 output'')))"

text \<open>\<^verbatim>\<open>payload.get("streams") or []\<close>, and its dictionaries of one codec type.\<close>

definition codec_streams :: "string \<Rightarrow> pyval list \<Rightarrow> pydict list" where
  "codec_streams codec streams = [d. PDict d \<leftarrow> streams, eq_str (dget d ''codec_type'') codec]"

definition delivery_streams :: "pydict \<Rightarrow> (pydict \<times> pydict) res" where
  "delivery_streams payload =
     rbind (case dget payload ''streams'' of
        PList l \<Rightarrow> Inr l
      | v \<Rightarrow> if truthy v then Inl (RuntimeError ''ffprobe returned invalid stream metadata'') else Inr []) (\<lambda>streams.
     case (codec_streams ''video'' streams, codec_streams ''audio'' streams, length streams = 2) of
       ([video], [audio], True) \<Rightarrow> Inr (video, audio)
     | _ \<Rightarrow> Inl (RuntimeError ''generated MiniMax H3 MP4 must contain exactly one video stream and one audio stream''))"

definition delivery_size :: "(int \<times> int) option \<Rightarrow> pydict \<Rightarrow> (int \<times> int) res" where
  "delivery_size expected_size video =
     rbind (int_or_zero (dget video ''width'')) (\<lambda>width.
     rbind (int_or_zero (dget video ''height'')) (\<lambda>height.
     raise_if (width \<le> 0 \<or> height \<le> 0) (RuntimeError ''generated MiniMax H3 MP4 has invalid size'')
     (raise_if (expected_size \<noteq> None \<and> expected_size \<noteq> Some (width, height))
        (RuntimeError ''generated MiniMax H3 MP4 size does not match the resolved request'') (Inr (width, height)))))"

text \<open>\<^verbatim>\<open>str(v or "")\<close>; the rate keeps the value itself, because a float's text reads back as the float.\<close>

definition or_empty :: "pyval \<Rightarrow> pyval" where
  "or_empty v = (if truthy v then v else PStr [])"

definition delivery_fps :: "pyval \<Rightarrow> pyfloat res" where
  "delivery_fps rate_raw = catch_zero
     (if has_sep (CHR ''/'') rate_raw then
        (case split_once (CHR ''/'') (py_str rate_raw) of (numerator, denominator) \<Rightarrow>
           rbind (py_float (PStr numerator)) (\<lambda>n. rbind (py_float (PStr denominator)) (\<lambda>d. fdiv n d)))
      else float_of_text rate_raw)"

definition check_fps :: "pyfloat \<Rightarrow> unit res" where
  "check_fps fps =
     rbind (float_of_int MINIMAX_H3_SUPPORTED_FPS) (\<lambda>want.
     raise_if (flt (fl (1 / 10 ^ 6)) (fabs (fsub fps want)))
       (RuntimeError ''generated MiniMax H3 MP4 frame rate must be 24 fps'') (Inr ()))"

text \<open>\<^verbatim>\<open>except (TypeError, ValueError): x = default\<close>.\<close>

definition default_tv :: "'a \<Rightarrow> 'a res \<Rightarrow> 'a res" where
  "default_tv d m = (case m of Inl e \<Rightarrow> if is_type_or_value_error e then Inr d else Inl e | Inr x \<Rightarrow> Inr x)"

definition OUTPUT_AUDIO_SAMPLE_RATE :: int where
  "OUTPUT_AUDIO_SAMPLE_RATE = 32000"

definition OUTPUT_AUDIO_CHANNELS :: int where
  "OUTPUT_AUDIO_CHANNELS = 2"

definition OUTPUT_AV_DRIFT_TOLERANCE_S :: pyfloat where
  "OUTPUT_AV_DRIFT_TOLERANCE_S = Fin (1 / 4)"

definition check_audio_format :: "pydict \<Rightarrow> unit res" where
  "check_audio_format audio =
     rbind (default_tv 0 (int_or_zero (dget audio ''sample_rate''))) (\<lambda>rate.
     raise_if (rate \<noteq> OUTPUT_AUDIO_SAMPLE_RATE) (RuntimeError ''generated MiniMax H3 MP4 audio sample rate must be 32000 Hz'')
     (rbind (default_tv 0 (int_or_zero (dget audio ''channels''))) (\<lambda>channels.
      raise_if (channels \<noteq> OUTPUT_AUDIO_CHANNELS)
        (RuntimeError ''generated MiniMax H3 MP4 audio must be stereo (2 channels)'') (Inr ()))))"

definition float_or_0 :: "pyval \<Rightarrow> pyfloat res" where
  "float_or_0 v = default_tv (Fin 0) (if truthy v then py_float v else Inr (Fin 0))"

definition delivery_frames :: "int option \<Rightarrow> pydict \<Rightarrow> int option res" where
  "delivery_frames expected_frame_count video =
     (let raw = dget video ''nb_frames'' in
      rbind (in_blank raw [[], ''N/A'']) (\<lambda>blank.
      rbind (if blank then Inr None else default_tv None (rbind (py_int raw) (\<lambda>n. Inr (Some n)))) (\<lambda>frame_count.
      raise_if (expected_frame_count \<noteq> None \<and> frame_count \<noteq> expected_frame_count)
        (RuntimeError ''generated MiniMax H3 MP4 frame count does not match the resolved request'') (Inr frame_count))))"

definition format_metadata :: "pydict \<Rightarrow> pydict" where
  "format_metadata payload = (case dget payload ''format'' of PDict d \<Rightarrow> d | _ \<Rightarrow> [])"

text \<open>The video duration: frames over the rate when both are known, else the stream's, else the container's.\<close>

definition delivery_duration :: "pydict \<Rightarrow> pyval \<Rightarrow> pyfloat \<Rightarrow> int option \<Rightarrow> pyfloat \<Rightarrow> pyfloat res" where
  "delivery_duration payload rate_raw fps frame_count stream_duration =
     rbind (case frame_count of
        Some n \<Rightarrow> if has_sep (CHR ''/'') rate_raw \<and> flt (Fin 0) fps then rbind (float_of_int n) (\<lambda>x. fdiv x fps)
                   else Inr stream_duration
      | None \<Rightarrow> Inr stream_duration) (\<lambda>duration.
     rbind (if fle duration (Fin 0) then float_or_0 (dget (format_metadata payload) ''duration'') else Inr duration) (\<lambda>duration.
     raise_if (fle duration (Fin 0)) (RuntimeError ''generated MiniMax H3 MP4 has no positive video duration'') (Inr duration)))"

definition check_audio_duration :: "pydict \<Rightarrow> pyfloat \<Rightarrow> unit res" where
  "check_audio_duration audio duration =
     rbind (float_or_0 (dget audio ''duration'')) (\<lambda>audio_duration.
     raise_if (fle audio_duration (Fin 0)) (RuntimeError ''generated MiniMax H3 MP4 has no positive audio duration'')
     (raise_if (flt OUTPUT_AV_DRIFT_TOLERANCE_S (fabs (fsub audio_duration duration)))
        (RuntimeError ''generated MiniMax H3 MP4 audio/video duration drift exceeds 0.25s'') (Inr ())))"

definition format_names :: "pydict \<Rightarrow> string list" where
  "format_names payload =
     map (\<lambda>t. lower (strip t)) (filter (\<lambda>t. strip t \<noteq> []) (split_on (CHR '','') (py_str (or_empty (dget (format_metadata payload) ''format_name'')))))"

definition check_codecs :: "pydict \<Rightarrow> pydict \<Rightarrow> pydict \<Rightarrow> unit res" where
  "check_codecs payload video audio =
     raise_if (''mp4'' \<notin> set (format_names payload))
       (RuntimeError ''generated MiniMax H3 output container must be MP4-family'')
     (raise_if (lower (py_str (or_empty (dget video ''codec_name''))) \<noteq> ''h264'')
       (RuntimeError ''generated MiniMax H3 MP4 video codec must be h264'')
     (raise_if (lower (py_str (or_empty (dget audio ''codec_name''))) \<noteq> ''aac'')
       (RuntimeError ''generated MiniMax H3 MP4 audio codec must be aac'')
     (raise_if (lower (py_str (or_empty (dget video ''pix_fmt''))) \<noteq> ''yuv420p'')
       (RuntimeError ''generated MiniMax H3 MP4 pixel format must be yuv420p'') (Inr ()))))"

definition probe_minimax_h3_output_fields ::
  "(string \<Rightarrow> delivery_run) \<Rightarrow> string \<Rightarrow> int option \<Rightarrow> (int \<times> int) option \<Rightarrow> (string \<times> string) list res" where
  "probe_minimax_h3_output_fields run path expected_frame_count expected_size =
     rbind (delivery_payload (run path)) (\<lambda>payload.
     rbind (delivery_streams payload) (\<lambda>(video, audio).
     rbind (delivery_size expected_size video) (\<lambda>(width, height).
     let rate_raw = or_empty (dget video ''avg_frame_rate'') in
     rbind (delivery_fps rate_raw) (\<lambda>fps.
     rbind (check_fps fps) (\<lambda>_.
     rbind (check_audio_format audio) (\<lambda>_.
     rbind (float_or_0 (dget video ''duration'')) (\<lambda>stream_duration.
     rbind (delivery_frames expected_frame_count video) (\<lambda>frame_count.
     rbind (delivery_duration payload rate_raw fps frame_count stream_duration) (\<lambda>duration.
     rbind (check_audio_duration audio duration) (\<lambda>_.
     rbind (check_codecs payload video audio) (\<lambda>_.
     rbind (format_video_seconds duration) (\<lambda>seconds.
     Inr [(''size'', size_text width height), (''seconds'', seconds)]))))))))))))"

text \<open>What the request fixed of the delivery.\<close>

definition expected_delivery :: "pydict option \<Rightarrow> (int option \<times> (int \<times> int) option) res" where
  "expected_delivery shape = (case shape of
      None \<Rightarrow> Inr (None, None)
    | Some s \<Rightarrow>
        rbind (if dget s ''frame_count'' \<noteq> PNone then rbind (py_int (dget s ''frame_count'')) (\<lambda>n. Inr (Some n)) else Inr None) (\<lambda>n.
        rbind (if has_size s then rbind (shape_size s) (\<lambda>wh. Inr (Some wh)) else Inr None) (\<lambda>wh. Inr (n, wh))))"

text \<open>The files are probed on a thread pool; the results and the first exception are taken in input order.\<close>

definition validate_final_outputs ::
  "(string \<Rightarrow> delivery_run) \<Rightarrow> string list \<Rightarrow> int \<Rightarrow> (queue_batch, (string \<times> string) list) act" where
  "validate_final_outputs run output_paths expected_outputs =
     araise_if (int (length output_paths) \<noteq> expected_outputs)
       (RuntimeError ''MiniMax H3 video generation produced an unexpected number of output files'')
     (abind resolved_shape (\<lambda>shape.
      abind (alift (expected_delivery shape)) (\<lambda>(frame_count, wh).
      abind (alift (rmap (\<lambda>path. probe_minimax_h3_output_fields run path frame_count wh) output_paths)) (\<lambda>fields.
      case fields of
        [] \<Rightarrow> araise IndexError
      | final # rest \<Rightarrow>
          araise_if (\<exists>f \<in> set rest. f \<noteq> final)
            (RuntimeError ''generated MiniMax H3 outputs have inconsistent media metadata'') (areturn final)))))"

end
