(* ===== verification/Video_Delivery.thy ===== *)
theory Video_Delivery
  imports Video_Adapter
begin

text \<open>
  What the video adapter guarantees: which requests are lowered and to what, what an accepted file has, and that
  the metadata of a delivered file is the metadata the queued job announced.
\<close>

section \<open>Lowered requests\<close>

lemma json_loads_task: "s \<in> set SUPPORTED_TASKS \<Longrightarrow> json_loads s = None"
proof -
  have "json_loads ''t2va'' = None" "json_loads ''fl2va'' = None" "json_loads ''ref2va'' = None" by code_simp+
  then show "s \<in> set SUPPORTED_TASKS \<Longrightarrow> ?thesis" by (auto simp: SUPPORTED_TASKS_def)
qed

lemma strip_task: "s \<in> set SUPPORTED_TASKS \<Longrightarrow> strip s \<noteq> []"
proof -
  have "strip ''t2va'' \<noteq> []" "strip ''fl2va'' \<noteq> []" "strip ''ref2va'' \<noteq> []" by code_simp+
  then show "s \<in> set SUPPORTED_TASKS \<Longrightarrow> ?thesis" by (auto simp: SUPPORTED_TASKS_def)
qed

lemma task_gate_iff:
  "validate_task_gate task provided = Inr () \<longleftrightarrow> provided \<and> (\<exists>s \<in> set SUPPORTED_TASKS. task = PStr s)"
  using strip_task by (cases task) (auto simp: validate_task_gate_def res_simps)

text \<open>What the code accepts as a shift: absent, or a number or numeral whose float is positive and finite.\<close>

definition shift_value :: "pyval \<Rightarrow> pyfloat option \<Rightarrow> bool" where
  "shift_value v x \<longleftrightarrow> (case parse_extra_value v of
      PNone \<Rightarrow> x = None
    | PBool _ \<Rightarrow> False
    | w \<Rightarrow> (\<exists>a. py_float w = Inr (Fin a) \<and> 0 < a \<and> x = Some (Fin a)))"

lemma positive_finite_iff: "is_finite y \<and> \<not> fle y (Fin 0) \<longleftrightarrow> (\<exists>a. y = Fin a \<and> 0 < a)"
  by (cases y) (auto simp: is_finite_def fle_def)

lemma positive_finite_extra_iff:
  "positive_finite_extra r name = Inr x \<longleftrightarrow> shift_value (dget (vr_extra r) name) x"
proof -
  have *: "rbind (catch_tv (py_float w) err) (\<lambda>y. raise_if (is_finite y \<longrightarrow> fle y (Fin 0)) err (Inr (Some y))) = Inr x \<longleftrightarrow>
      (\<exists>a. py_float w = Inr (Fin a) \<and> 0 < a \<and> x = Some (Fin a))" for w err
    using positive_finite_iff by (auto simp: rbind_Inr_iff raise_if_Inr_iff catch_tv_Inr)
  show ?thesis
    by (cases "parse_extra_value (dget (vr_extra r) name)")
       (auto simp: positive_finite_extra_def shift_value_def Let_def * simp del: py_float.simps)
qed

definition quality_value :: "pyval \<Rightarrow> string option \<Rightarrow> bool" where
  "quality_value v q \<longleftrightarrow> v = PNone \<and> q = None \<or> (\<exists>s \<in> set QUALITY_LEVELS. v = PStr s \<and> q = Some s)"

lemma quality_extra_iff: "quality_extra r name = Inr q \<longleftrightarrow> quality_value (dget (vr_extra r) name) q"
  by (cases "dget (vr_extra r) name") (auto simp: quality_extra_def quality_value_def res_simps)

lemma retired_iff:
  "reject_retired_cfg_fields kw = Inr out \<longleftrightarrow>
     (\<forall>n \<in> set RETIRED_CFG_FIELDS. dget kw n = PNone) \<and> out = fold dpop RETIRED_CFG_FIELDS kw"
  by (auto simp: reject_retired_cfg_fields_def RETIRED_CFG_FIELDS_def res_simps dget_def dict_simps)

text \<open>The requests the adapter lowers, with their shift and quality.\<close>

definition request_accepted :: "video_request \<Rightarrow> pydict \<Rightarrow> pyfloat option \<Rightarrow> string option \<Rightarrow> bool" where
  "request_accepted r kw shift quality \<longleftrightarrow>
     (\<exists>s \<in> set SUPPORTED_TASKS. map_of (vr_extra r) ''task'' = Some (PStr s)) \<and>
     shift_value (dget (vr_extra r) ''audio_flow_shift'') shift \<and>
     dget (vr_extra r) ''audio_guidance_scale'' = PNone \<and> output_mode_ok (dget (vr_extra r) ''output_mode'') \<and>
     \<not> vr_frame_interpolation r \<and> \<not> vr_upscaling r \<and> vr_num_frames r = None \<and> vr_fps r = None \<and>
     (\<forall>n \<in> set RETIRED_CFG_FIELDS. dget kw n = PNone) \<and> quality_value (dget (vr_extra r) ''quality'') quality"

definition PARSED_FIELDS :: "string list" where
  "PARSED_FIELDS = [''conditions'', ''target'', ''imgvid_cond_noise_aug_for_inference'', ''audio_cond_noise_aug_for_inference'']"

text \<open>The lowered fields: the requested task, the checked shift and quality, the decoded model fields, no timing and no
  guidance fields, and every other keyword argument as it was.\<close>

definition lowered_field :: "video_request \<Rightarrow> pydict \<Rightarrow> pyfloat option \<Rightarrow> string option \<Rightarrow> string \<Rightarrow> pyval option" where
  "lowered_field r kw shift quality k =
     (if k = ''quality'' \<and> quality \<noteq> None then map_option PStr quality
      else if k = ''task'' then map_of (vr_extra r) ''task''
      else if k = ''audio_flow_shift'' then Some (opt_float_val shift)
      else if k \<in> set PARSED_FIELDS then Some (parse_extra_value (dget (vr_extra r) k))
      else if k \<in> set (''num_frames'' # ''fps'' # RETIRED_CFG_FIELDS) then None
      else map_of kw k)"

lemma transport_options_iff:
  "validate_transport_options r = Inr () \<longleftrightarrow>
     (\<exists>s \<in> set SUPPORTED_TASKS. map_of (vr_extra r) ''task'' = Some (PStr s)) \<and>
     (\<exists>x. shift_value (dget (vr_extra r) ''audio_flow_shift'') x) \<and>
     dget (vr_extra r) ''audio_guidance_scale'' = PNone \<and> output_mode_ok (dget (vr_extra r) ''output_mode'') \<and>
     \<not> vr_frame_interpolation r \<and> \<not> vr_upscaling r"
proof -
  have "validate_task_gate (dget (vr_extra r) ''task'') (dhas (vr_extra r) ''task'') = Inr () \<longleftrightarrow>
      (\<exists>s \<in> set SUPPORTED_TASKS. map_of (vr_extra r) ''task'' = Some (PStr s))"
    by (auto simp: task_gate_iff dget_def dhas_def split: option.splits)
  then show ?thesis
    by (auto simp: validate_transport_options_def Let_def rbind_Inr_iff raise_if_Inr_iff positive_finite_extra_iff)
qed

lemma shift_value_unique: "shift_value v x \<Longrightarrow> shift_value v y \<Longrightarrow> x = y"
  by (auto simp: shift_value_def split: pyval.splits)

lemma lowered_fields:
  assumes "map_of (vr_extra r) ''task'' = Some (PStr s)" "s \<in> set SUPPORTED_TASKS"
  shows "map_of (update_kwargs r x q (fold dpop RETIRED_CFG_FIELDS (dpop ''fps'' (dpop ''num_frames'' kw)))) = lowered_field r kw x q"
proof -
  have t: "parse_extra_value (dget (vr_extra r) ''task'') = PStr s"
    using assms json_loads_task[OF assms(2)] by (simp add: parse_extra_value_def dget_def)
  show ?thesis unfolding update_kwargs_def Let_def t canonical_minimax_h3_task_def
    by (rule ext, cases q) (simp_all add: lowered_field_def dict_simps assms(1) PARSED_FIELDS_def RETIRED_CFG_FIELDS_def map_add_def)
qed

lemma lower_request_Inr:
  assumes "lower_video_request_kwargs r kw = Inr out"
  shows "\<exists>x q. request_accepted r kw x q \<and> map_of out = lowered_field r kw x q"
proof -
  obtain q x where T: "validate_transport_options r = Inr ()" "reject_transport_timing_fields r = Inr ()"
    "\<forall>n \<in> set RETIRED_CFG_FIELDS. dget (dpop ''fps'' (dpop ''num_frames'' kw)) n = PNone"
    "quality_value (dget (vr_extra r) ''quality'') q" "shift_value (dget (vr_extra r) ''audio_flow_shift'') x"
    and out: "out = update_kwargs r x q (fold dpop RETIRED_CFG_FIELDS (dpop ''fps'' (dpop ''num_frames'' kw)))"
    using assms unfolding lower_video_request_kwargs_def rbind_Inr_iff retired_iff positive_finite_extra_iff quality_extra_iff by auto
  obtain s where s: "map_of (vr_extra r) ''task'' = Some (PStr s)" "s \<in> set SUPPORTED_TASKS" using T(1) by (auto simp: transport_options_iff)
  have "dget kw n = PNone" if "n \<in> set RETIRED_CFG_FIELDS" for n
    using T(3) that by (auto simp: dget_def dict_simps RETIRED_CFG_FIELDS_def)
  then have "request_accepted r kw x q"
    using T(1,2,4,5) by (auto simp: request_accepted_def transport_options_iff reject_transport_timing_fields_def raise_if_Inr_iff)
  moreover have "map_of out = lowered_field r kw x q" unfolding out by (rule lowered_fields[OF s])
  ultimately show ?thesis by blast
qed

lemma lower_request_accepted:
  assumes "request_accepted r kw x q"
  shows "\<exists>out. lower_video_request_kwargs r kw = Inr out"
proof -
  have t: "validate_transport_options r = Inr ()" using assms by (auto simp: request_accepted_def transport_options_iff)
  have m: "reject_transport_timing_fields r = Inr ()" using assms by (simp add: request_accepted_def reject_transport_timing_fields_def)
  have "\<forall>n \<in> set RETIRED_CFG_FIELDS. dget (dpop ''fps'' (dpop ''num_frames'' kw)) n = PNone"
    using assms by (auto simp: request_accepted_def dget_def dict_simps)
  then have k: "reject_retired_cfg_fields (dpop ''fps'' (dpop ''num_frames'' kw)) = Inr (fold dpop RETIRED_CFG_FIELDS (dpop ''fps'' (dpop ''num_frames'' kw)))"
    by (simp add: retired_iff)
  have "quality_extra r ''quality'' = Inr q" "positive_finite_extra r ''audio_flow_shift'' = Inr x"
    using assms by (simp_all add: request_accepted_def quality_extra_iff positive_finite_extra_iff)
  then show ?thesis by (simp add: lower_video_request_kwargs_def t m k)
qed

section \<open>The job of an admitted request\<close>

text \<open>Admission keeps the canonical request in the batch.\<close>

abbreviation canonical_is :: "extra_val option \<Rightarrow> queue_batch \<Rightarrow> bool" where
  "canonical_is v b \<equiv> map_of (qb_extra b) MINIMAX_H3_CANONICAL_REQUEST_EXTRA_KEY = v"

lemma plan_key_distinct: "MINIMAX_H3_RESOLVED_PLAN_EXTRA_KEY \<noteq> MINIMAX_H3_CANONICAL_REQUEST_EXTRA_KEY"
  by (simp add: MINIMAX_H3_RESOLVED_PLAN_EXTRA_KEY_def MINIMAX_H3_CANONICAL_REQUEST_EXTRA_KEY_def)

lemma plan_from_batch_dict:
  "minimax_h3_plan_from_batch (DictExtra d) = Inr (r, e) \<Longrightarrow>
     e = DictExtra d \<or> (\<exists>plan. e = DictExtra (dset MINIMAX_H3_RESOLVED_PLAN_EXTRA_KEY (EPlan plan) d))"
  by (auto simp: minimax_h3_plan_from_batch_def rbind_Inr_iff split: option.splits extra_val.splits)

lemma batch_plan_keeps_canonical [keeps_intros]: "keeps_at (canonical_is v) batch_plan b"
  unfolding keeps_at_def batch_plan_def
  using plan_from_batch_dict[of "qb_extra b"] plan_key_distinct
  by (auto simp: dict_simps split: sum.splits option.splits batch_extra.splits)

lemma on_material_keeps_canonical [keeps_intros]: "keeps_at (canonical_is v) (on_material m) b"
  by (simp add: keeps_at_def on_material_def split: prod.splits)

lemma admission_keeps_canonical: "keeps_at (canonical_is v) (minimax_h3_prepare_for_queue env) b"
  unfolding minimax_h3_prepare_for_queue_def admission_body_def probe_all_def freeze_batch_def Let_def
  by (intro keeps_intros) (simp_all add: dict_simps plan_key_distinct[symmetric] drop_admission_def)

lemma target_shape_fps:
  assumes "resolved_target_shape plan facts = Inr shape" and "frames_sound (rp_shape plan)"
  shows "map_of shape ''fps'' = map_of (rp_shape plan) ''fps''"
proof -
  obtain sh where sp: "resolve_deferred_spatial_shape plan (rp_shape plan) facts = Inr sh"
    and te: "resolve_deferred_temporal_shape plan sh facts = Inr shape"
    using assms(1) by (auto simp: resolved_target_shape_def res_simps)
  have keep: "map_of sh k = map_of (rp_shape plan) k" if "k \<in> {''frame_count'', ''temporal'', ''fps'', ''video_latent_t'', ''audio_latent_t''}" for k
    using deferred_spatial_keeps[OF sp that] .
  have "frames_sound sh" using assms(2) keep[of "''frame_count''"] keep[of "''temporal''"]
      keep[of "''video_latent_t''"] keep[of "''audio_latent_t''"]
    by (simp add: frames_sound_def frames_fixed_def dget_def)
  then show ?thesis using deferred_temporal_sound(2)[OF te, of "''fps''"] keep[of "''fps''"] by simp
qed

lemma resolve_shape_fps:
  assumes p: "minimax_h3_task_profile t = Inr p" and ok: "target_ok p se ar du" and ar: "ratio_known ar" and se: "se \<le> 2 ^ 50"
    and shape: "resolve_shape (PDict (target_entry se ar du)) p = Inr shape"
  shows "map_of shape ''fps'' = Some (PInt 24)"
proof -
  have se1: "1 \<le> se" using ok by (simp add: target_ok_def)
  note S = resolve_spatial_sound(2)[OF p ar se1 se, of _ du _ "''fps''"]
  show ?thesis using shape S
    by (auto simp: resolve_shape_def rbind_Inr_iff MINIMAX_H3_SUPPORTED_FPS_def split: option.splits)
qed

lemma admitted_job:
  assumes adm: "admissible canonical b" and run: "minimax_h3_prepare_for_queue env b = (Inr plan, t)"
  shows "resolved_shape t = (Inr (Some (rp_shape plan)), t)" and "workload_ok t (rp_shape plan)"
    and "map_of (rp_shape plan) ''fps'' = Some (PInt 24)"
proof -
  obtain p0 facts shape W H n b1 b2 b3 where A: "batch_plan b = (Inr p0, b1)" "probe_all env p0 b1 = (Inr facts, b2)"
    "resolved_target_shape p0 facts = Inr shape" "plan = replace_plan_shape p0 shape"
    "qb_extra t = dset MINIMAX_H3_RESOLVED_PLAN_EXTRA_KEY (EPlan plan) b3"
    by (rule admission_returns[OF run])
  obtain tk p pr cs tg fc fs afs sd se ar du where R: "minimax_h3_task_profile tk = Inr p" "request_ok tk p pr cs tg fc fs afs sd"
    "tg = target_entry se ar du" "target_ok p se ar du" "ratio_known ar" "se \<le> 2 ^ 50"
    "resolve_shape (PDict tg) p = Inr (rp_shape p0)"
    by (rule admissible_plan[OF adm A(1)])
  have sound: "geometry_sound (rp_shape p0) \<and> frames_sound (rp_shape p0)"
    by (rule resolve_shape_sound[OF R(1,4,5,6) R(7)[unfolded R(3)]])
  show w: "workload_ok t (rp_shape plan)"
    by (rule admission_workload[OF run]) (use A(1) sound in auto)
  show "map_of (rp_shape plan) ''fps'' = Some (PInt 24)"
    using target_shape_fps[OF A(3)] sound resolve_shape_fps[OF R(1,4,5,6) R(7)[unfolded R(3)]] by (simp add: A(4))
  have c: "canonical_is (Some (EVal (PDict canonical))) t"
    by (rule keeps_atD[OF admission_keeps_canonical _ run]) (use adm in \<open>simp add: admissible_def\<close>)
  obtain task prompt conditions target flow audio seed where
    "minimax_h3_validate_canonical_request task prompt conditions target flow audio seed = Inr canonical"
    using adm unfolding admissible_def by blast
  then obtain t' pr' cs' tg' fs' afs' sd' where "canonical = canonical_dict t' pr' cs' tg' fs' afs' sd'"
    by (rule validate_request_Inr)
  then have h: "has_canonical (qb_extra t)"
    using c by (auto simp: has_canonical_def extra_get_def dget_or_def dhas_def canonical_dict_def)
  have pl: "minimax_h3_plan_from_batch (DictExtra (qb_extra t)) = Inr (Some plan, DictExtra (qb_extra t))"
    by (simp add: A(5) minimax_h3_plan_from_batch_def plan_from_mapping_cached extra_get_def dget_or_def dict_simps)
  have g: "py_str (dget shape ''geometry'') = ''resolved_v2''" by (rule target_shape_sound(3)[OF A(3)]) (use sound in auto)
  have "truthy (dget shape ''geometry'')" using g
    by (cases "dget shape ''geometry''") (auto simp: show_int_def show_nat10.simps split: if_splits)
  moreover have "dget shape ''frame_count'' \<noteq> PNone" using w by (auto simp: workload_ok_def A(4))
  ultimately show "resolved_shape t = (Inr (Some (rp_shape plan)), t)"
    using g by (simp add: resolved_shape_def h pl A(4))
qed

section \<open>Delivered files\<close>

text \<open>What the request promises of one file: container, codecs, pixel format and sound format, the size and frame count of
  the job, a rate within the tolerance of 24, and sound as long as the picture within the drift tolerance. The last
  two are float comparisons, which a NaN passes. The length of the picture is the frame count of the job over the
  rate when the rate is a positive fraction, and the length of the stream otherwise; when that is not positive, the length of the
  container stands in.\<close>

definition near :: "pyfloat \<Rightarrow> pyfloat \<Rightarrow> pyfloat \<Rightarrow> bool" where
  "near tol x y \<longleftrightarrow> fle (fabs (fsub x y)) tol \<or> fsub x y = NaN"

definition picture_length :: "pydict \<Rightarrow> pydict \<Rightarrow> pyfloat \<Rightarrow> int \<Rightarrow> pyfloat \<Rightarrow> bool" where
  "picture_length payload video fps n d \<longleftrightarrow> \<not> fle d (Fin 0) \<and>
     (\<exists>x. (if has_sep (CHR ''/'') (or_empty (dget video ''avg_frame_rate'')) \<and> flt (Fin 0) fps
           then \<exists>k. float_of_int n = Inr k \<and> fdiv k fps = Inr x else float_or_0 (dget video ''duration'') = Inr x) \<and>
          (if fle x (Fin 0) then float_or_0 (dget (format_metadata payload) ''duration'') = Inr d else d = x))"

definition file_ok :: "(string \<Rightarrow> delivery_run) \<Rightarrow> int \<Rightarrow> int \<times> int \<Rightarrow> string \<Rightarrow> bool" where
  "file_ok run n wh path \<longleftrightarrow> (\<exists>payload video audio fps d a.
     delivery_payload (run path) = Inr payload \<and> delivery_streams payload = Inr (video, audio) \<and>
     int_or_zero (dget video ''width'') = Inr (fst wh) \<and> int_or_zero (dget video ''height'') = Inr (snd wh) \<and>
     py_int (dget video ''nb_frames'') = Inr n \<and>
     delivery_fps (or_empty (dget video ''avg_frame_rate'')) = Inr fps \<and> near (fl (1 / 10 ^ 6)) fps (Fin 24) \<and>
     int_or_zero (dget audio ''sample_rate'') = Inr 32000 \<and> int_or_zero (dget audio ''channels'') = Inr 2 \<and>
     float_or_0 (dget audio ''duration'') = Inr a \<and> \<not> fle a (Fin 0) \<and>
     picture_length payload video fps n d \<and> near (Fin (1 / 4)) a d \<and>
     ''mp4'' \<in> set (format_names payload) \<and> lower (py_str (or_empty (dget video ''codec_name''))) = ''h264'' \<and>
     lower (py_str (or_empty (dget audio ''codec_name''))) = ''aac'' \<and>
     lower (py_str (or_empty (dget video ''pix_fmt''))) = ''yuv420p'')"

lemma not_flt_near: "\<not> flt tol (fabs (fsub x y)) \<Longrightarrow> tol = Fin c \<Longrightarrow> near tol x y"
  by (cases "fsub x y") (auto simp: near_def fabs_def fle_def split: if_splits)

lemma default_tv_Inr: "default_tv d m = Inr x \<Longrightarrow> x \<noteq> d \<Longrightarrow> m = Inr x"
  by (auto simp: default_tv_def split: sum.splits if_splits)

lemma tolerance_fin: "fl (1 / 10 ^ 6) = Fin (fl_fin (1 / 10 ^ 6))"
  by (rule fl_between(1)[of 0 _ 1]) simp_all

lemma probe_output_steps:
  assumes "probe_minimax_h3_output_fields run path (Some n) (Some wh) = Inr media"
  obtains payload video audio fps sd d seconds where
    "delivery_payload (run path) = Inr payload" "delivery_streams payload = Inr (video, audio)" "delivery_size (Some wh) video = Inr wh"
    "delivery_fps (or_empty (dget video ''avg_frame_rate'')) = Inr fps" "check_fps fps = Inr ()" "check_audio_format audio = Inr ()"
    "delivery_frames (Some n) video = Inr (Some n)" "float_or_0 (dget video ''duration'') = Inr sd"
    "delivery_duration payload (or_empty (dget video ''avg_frame_rate'')) fps (Some n) sd = Inr d" "check_audio_duration audio d = Inr ()"
    "check_codecs payload video audio = Inr ()" "format_video_seconds d = Inr seconds"
    "media = [(''size'', size_text (fst wh) (snd wh)), (''seconds'', seconds)]"
proof -
  obtain payload video audio w h fps sd fc d seconds where
    S: "delivery_payload (run path) = Inr payload" "delivery_streams payload = Inr (video, audio)" "delivery_size (Some wh) video = Inr (w, h)"
    "delivery_fps (or_empty (dget video ''avg_frame_rate'')) = Inr fps" "check_fps fps = Inr ()" "check_audio_format audio = Inr ()"
    "delivery_frames (Some n) video = Inr fc" "float_or_0 (dget video ''duration'') = Inr sd"
    "delivery_duration payload (or_empty (dget video ''avg_frame_rate'')) fps fc sd = Inr d" "check_audio_duration audio d = Inr ()"
    "check_codecs payload video audio = Inr ()" "format_video_seconds d = Inr seconds"
    "[(''size'', size_text w h), (''seconds'', seconds)] = media"
    using assms unfolding probe_minimax_h3_output_fields_def Let_def rbind_Inr_iff split_paired_Ex prod.case sum.inject
    by (elim exE conjE) (rule that; simp)
  have "wh = (w, h)" using S(3) by (auto simp: delivery_size_def rbind_Inr_iff raise_if_Inr_iff)
  moreover have "fc = Some n" using S(7) by (auto simp: delivery_frames_def Let_def rbind_Inr_iff raise_if_Inr_iff)
  ultimately show ?thesis using S by (intro that) auto
qed

lemma delivery_duration_length:
  assumes "delivery_duration payload (or_empty (dget video ''avg_frame_rate'')) fps (Some n) sd = Inr d"
    and "float_or_0 (dget video ''duration'') = Inr sd"
  shows "picture_length payload video fps n d"
  using assms unfolding delivery_duration_def picture_length_def rbind_Inr_iff raise_if_Inr_iff option.case
  by (auto simp: rbind_Inr_iff split: if_splits)

lemma probe_output_ok:
  assumes "probe_minimax_h3_output_fields run path (Some n) (Some wh) = Inr media"
  shows "file_ok run n wh path" and "map_of media ''size'' = Some (size_text (fst wh) (snd wh))"
proof -
  obtain payload video audio fps sd d seconds where
    S: "delivery_payload (run path) = Inr payload" "delivery_streams payload = Inr (video, audio)" "delivery_size (Some wh) video = Inr wh"
    "delivery_fps (or_empty (dget video ''avg_frame_rate'')) = Inr fps" "check_fps fps = Inr ()" "check_audio_format audio = Inr ()"
    "delivery_frames (Some n) video = Inr (Some n)" "check_audio_duration audio d = Inr ()"
    "float_or_0 (dget video ''duration'') = Inr sd"
    "delivery_duration payload (or_empty (dget video ''avg_frame_rate'')) fps (Some n) sd = Inr d"
    "check_codecs payload video audio = Inr ()" "media = [(''size'', size_text (fst wh) (snd wh)), (''seconds'', seconds)]"
    by (rule probe_output_steps[OF assms])
  show "map_of media ''size'' = Some (size_text (fst wh) (snd wh))" by (simp add: S(12))
  have "int_or_zero (dget video ''width'') = Inr (fst wh)" "int_or_zero (dget video ''height'') = Inr (snd wh)"
    using S(3) by (auto simp: delivery_size_def rbind_Inr_iff raise_if_Inr_iff)
  moreover have "near (fl (1 / 10 ^ 6)) fps (Fin 24)"
    using S(5) float_of_int_small[of 24] not_flt_near[OF _ tolerance_fin]
    by (auto simp: check_fps_def rbind_Inr_iff raise_if_Inr_iff MINIMAX_H3_SUPPORTED_FPS_def)
  moreover have "int_or_zero (dget audio ''sample_rate'') = Inr 32000" "int_or_zero (dget audio ''channels'') = Inr 2"
    using S(6) by (auto simp: check_audio_format_def rbind_Inr_iff raise_if_Inr_iff OUTPUT_AUDIO_SAMPLE_RATE_def
        OUTPUT_AUDIO_CHANNELS_def dest!: default_tv_Inr)
  moreover have "py_int (dget video ''nb_frames'') = Inr n"
    using S(7) by (auto simp: delivery_frames_def Let_def rbind_Inr_iff raise_if_Inr_iff split: if_splits dest!: default_tv_Inr)
  moreover obtain a where "float_or_0 (dget audio ''duration'') = Inr a" "\<not> fle a (Fin 0)" "near (Fin (1 / 4)) a d"
    using S(8) not_flt_near[of "Fin (1 / 4)"]
    by (auto simp: check_audio_duration_def rbind_Inr_iff raise_if_Inr_iff OUTPUT_AV_DRIFT_TOLERANCE_S_def)
  ultimately show "file_ok run n wh path"
    using S(1,2,4,11) delivery_duration_length[OF S(10,9)] unfolding file_ok_def by (auto simp: check_codecs_def raise_if_Inr_iff)
qed

text \<open>With an exact rate the announced and the delivered duration are the same float.\<close>

lemma rate_24: "delivery_fps (or_empty (PStr ''24/1'')) = Inr (Fin 24)" "has_sep (CHR ''/'') (or_empty (PStr ''24/1''))"
  by code_simp+

lemma probe_output_seconds:
  assumes probe: "probe_minimax_h3_output_fields run path (Some n) (Some wh) = Inr media" and n: "0 < n" "n \<le> 2 ^ 20"
    and rate: "\<forall>payload video audio. delivery_payload (run path) = Inr payload \<longrightarrow> delivery_streams payload = Inr (video, audio) \<longrightarrow>
        dget video ''avg_frame_rate'' = PStr ''24/1''"
    and shape: "dget shape ''frame_count'' = PInt n" "map_of shape ''fps'' = Some (PInt 24)"
  shows "\<exists>s. queued_seconds shape = Inr s \<and> media = [(''size'', size_text (fst wh) (snd wh)), (''seconds'', s)]"
proof -
  obtain payload video audio fps sd d seconds where
    S: "delivery_payload (run path) = Inr payload" "delivery_streams payload = Inr (video, audio)"
    "delivery_fps (or_empty (dget video ''avg_frame_rate'')) = Inr fps"
    "delivery_duration payload (or_empty (dget video ''avg_frame_rate'')) fps (Some n) sd = Inr d" "format_video_seconds d = Inr seconds"
    "media = [(''size'', size_text (fst wh) (snd wh)), (''seconds'', seconds)]"
    by (rule probe_output_steps[OF probe])
  have r: "dget video ''avg_frame_rate'' = PStr ''24/1''" using rate S(1,2) by blast
  have f: "fps = Fin 24" using S(3) by (simp add: r rate_24)
  have x: "float_of_int n = Inr (Fin (of_int n))" using n by (intro float_of_int_small) simp
  have q: "fdiv (Fin (of_int n)) (Fin 24) = Inr (fl (of_int n / 24))" by simp
  have pos: "\<not> fle (fl (of_int n / 24)) (Fin 0)"
  proof -
    have "p2 (- 20) \<le> of_int n / 24" "(of_int n :: rat) / 24 \<le> p2 40"
      using n by (simp_all add: power_int_def field_simps)
    note f = fl_factor[OF this]
    show ?thesis using f(1,4) by (simp add: fle_def)
  qed
  have "d = fl (of_int n / 24)" using S(4) by (simp add: delivery_duration_def r rate_24 f x pos rbind_Inr_iff raise_if_Inr_iff)
  moreover have "float_of_int 24 = Inr (Fin 24)" using float_of_int_small[of 24] by simp
  ultimately have "queued_seconds shape = Inr seconds" using S(5)
    by (simp add: queued_seconds_def shape dindex_def x)
  then show ?thesis using S(6) by blast
qed

text \<open>The final check of an admitted request.\<close>

definition rate_exact :: "(string \<Rightarrow> delivery_run) \<Rightarrow> string \<Rightarrow> bool" where
  "rate_exact run path \<longleftrightarrow> (\<forall>payload video audio. delivery_payload (run path) = Inr payload \<longrightarrow>
     delivery_streams payload = Inr (video, audio) \<longrightarrow> dget video ''avg_frame_rate'' = PStr ''24/1'')"

definition no_explicit_quality :: "delivery_params \<Rightarrow> bool" where
  "no_explicit_quality p \<longleftrightarrow> \<not> (truthy (dp_quality p) \<and> ''quality'' \<in> set (dp_explicit_fields p))"

lemma list_all2_constant: "list_all2 P xs ys \<Longrightarrow> \<forall>y \<in> set ys. y = c \<Longrightarrow> x \<in> set xs \<Longrightarrow> P x c"
  by (induction xs ys rule: list_all2_induct) auto

lemma final_outputs_Inr:
  assumes shape: "resolved_shape t = (Inr (Some shape), t)" "dget shape ''width'' = PInt W" "dget shape ''height'' = PInt H"
      "dget shape ''frame_count'' = PInt n"
    and run: "validate_final_outputs run paths k t = (Inr media, t')"
  shows "t' = t" "int (length paths) = k" "paths \<noteq> []"
    "path \<in> set paths \<Longrightarrow> probe_minimax_h3_output_fields run path (Some n) (Some (W, H)) = Inr media"
proof -
  have e: "expected_delivery (Some shape) = Inr (Some n, Some (W, H))"
    by (simp add: expected_delivery_def has_size_def shape_size_def shape)
  obtain all where a: "rmap (\<lambda>path. probe_minimax_h3_output_fields run path (Some n) (Some (W, H))) paths = Inr all"
    "int (length paths) = k"
    "(case all of [] \<Rightarrow> araise IndexError | final # rest \<Rightarrow>
        araise_if (\<exists>f \<in> set rest. f \<noteq> final) (RuntimeError ''generated MiniMax H3 outputs have inconsistent media metadata'')
          (areturn final)) t = (Inr media, t')"
    using run by (auto simp: validate_final_outputs_def araise_if_iff abind_Inr_iff shape(1) e)
  obtain rest where r: "all = media # rest" "\<forall>f \<in> set rest. f = media" "t' = t"
    using a(3) by (cases all) (auto simp: araise_if_iff)
  show "t' = t" "int (length paths) = k" using r(3) a(2) by auto
  have l: "list_all2 (\<lambda>p y. probe_minimax_h3_output_fields run p (Some n) (Some (W, H)) = Inr y) paths all"
    using a(1) by (simp add: rmap_Inr_iff)
  show "paths \<noteq> []" using l r(1) by auto
  show "path \<in> set paths \<Longrightarrow> probe_minimax_h3_output_fields run path (Some n) (Some (W, H)) = Inr media"
    by (rule list_all2_constant[OF l]) (use r(1,2) in auto)
qed

lemma delivery_of_admitted:
  assumes adm: "admissible canonical b" and run: "minimax_h3_prepare_for_queue env b = (Inr plan, t)"
    and final: "validate_final_outputs probe paths k t = (Inr media, t')"
  obtains W H n where "qb_width t = Some W" "qb_height t = Some H" "qb_num_frames t = Some n"
    "t' = t" "int (length paths) = k" "\<forall>path \<in> set paths. file_ok probe n (W, H) path" "map_of media ''size'' = Some (size_text W H)"
    "(\<forall>path \<in> set paths. rate_exact probe path) \<longrightarrow> (\<forall>p. no_explicit_quality p \<longrightarrow> project_queued_job_fields p t = (Inr media, t))"
proof -
  note J = admitted_job[OF adm run]
  obtain W H n where w: "qb_width t = Some W" "qb_height t = Some H" "qb_num_frames t = Some n"
    "dget (rp_shape plan) ''width'' = PInt W" "dget (rp_shape plan) ''height'' = PInt H" "dget (rp_shape plan) ''frame_count'' = PInt n"
    and n: "107 \<le> n" "n \<le> 362" using J(2) by (auto simp: workload_ok_def)
  note F = final_outputs_Inr[OF J(1) w(4-6) final]
  obtain path where p: "path \<in> set paths" using F(3) by (cases paths) auto
  have "project_queued_job_fields q t = (Inr media, t)" if "\<forall>path \<in> set paths. rate_exact probe path" "no_explicit_quality q" for q
  proof -
    have "rate_exact probe path" using that(1) p by blast
    then obtain s where "queued_seconds (rp_shape plan) = Inr s" "media = [(''size'', size_text W H), (''seconds'', s)]"
      using probe_output_seconds[OF F(4)[OF p] _ _ _ w(6) J(3)] n unfolding rate_exact_def by auto
    then show ?thesis using that(2)
      by (auto simp: project_queued_job_fields_def J(1) job_fields_def has_size_def shape_size_def w no_explicit_quality_def)
  qed
  then show ?thesis using that[OF w(1-3) F(1,2)] probe_output_ok[OF F(4)] p by auto
qed

end
