(* ===== verification/Release_Metadata.thy ===== *)
theory Release_Metadata
  imports Video_Delivery
begin

text \<open>
  \<^verbatim>\<open>minimax_h3/release_metadata.py\<close> with the deployment check of \<^verbatim>\<open>configs/pipeline_configs/minimax_h3.py\<close>: the
  contract a released partition declares in its model index, the task it serves, and the admission stage in front
  of the pipeline. The platform and the resolved server arguments are records of what the code reads of them.
\<close>

section \<open>The model index\<close>

record release_metadata =
  rm_schema_version :: int
  rm_partition :: string
  rm_tasks :: "string list"
  rm_task_aliases :: "(string \<times> string) list"
  rm_video_sigma_shift :: pyfloat
  rm_audio_sigma_shift :: pyfloat

definition string_list :: "pyval \<Rightarrow> string list res" where
  "string_list value = (case value of
      PList l \<Rightarrow>
        raise_if (l = []) (ValueError ''must be a non-empty list'')
        (raise_if (\<not> list_all (\<lambda>v. case v of PStr s \<Rightarrow> s \<noteq> [] | _ \<Rightarrow> False) l)
          (ValueError ''must contain non-empty strings'')
        (let values = [s. PStr s \<leftarrow> l] in
         raise_if (\<not> distinct values) (ValueError ''must not contain duplicates'') (Inr values)))
    | _ \<Rightarrow> Inl (ValueError ''must be a non-empty list''))"

definition alias_list :: "pyval \<Rightarrow> (string \<times> string) list res" where
  "alias_list value = (case value of
      PDict d \<Rightarrow>
        raise_if (\<not> list_all (\<lambda>(k, v). k \<noteq> [] \<and> (case v of PStr s \<Rightarrow> s \<noteq> [] | _ \<Rightarrow> False)) d)
          (ValueError ''task_aliases must map strings to strings'')
        (Inr [(k, s). (k, PStr s) \<leftarrow> d])
    | _ \<Rightarrow> Inl (ValueError ''task_aliases must map strings to strings''))"

text \<open>\<^verbatim>\<open>partition not in {"fl2va", "ref2va"}\<close> hashes the value.\<close>

definition check_partition :: "pyval \<Rightarrow> string res" where
  "check_partition v = (case v of
      PStr s \<Rightarrow> raise_if (s \<notin> {''fl2va'', ''ref2va''}) (ValueError ''partition must be one of fl2va, ref2va'') (Inr s)
    | PList _ \<Rightarrow> Inl (TypeError ''unhashable type'')
    | PDict _ \<Rightarrow> Inl (TypeError ''unhashable type'')
    | _ \<Rightarrow> Inl (ValueError ''partition must be one of fl2va, ref2va''))"

definition sigma_scales :: "pyval \<Rightarrow> (pyfloat \<times> pyfloat) res" where
  "sigma_scales v = (case v of
      PDict scales \<Rightarrow> catch_ktv
        (rbind (rbind (dindex scales ''video'') py_float) (\<lambda>video.
         rbind (rbind (dindex scales ''audio'') py_float) (\<lambda>audio. Inr (video, audio))))
        (ValueError ''sigma_shift_scales requires numeric video and audio values'')
    | _ \<Rightarrow> Inl (ValueError ''sigma_shift_scales must be an object''))"

definition check_task :: "string \<Rightarrow> string \<Rightarrow> unit res" where
  "check_task part task =
     raise_if (canonical_minimax_h3_task task \<noteq> task) (ValueError ''tasks must contain canonical task names'')
     (rbind (partition_for_task (PStr task)) (\<lambda>p.
      raise_if (p \<noteq> part) (ValueError ''task does not belong to partition'') (Inr ())))"

definition check_alias :: "string list \<Rightarrow> string \<times> string \<Rightarrow> unit res" where
  "check_alias tasks a = (case a of (alias, target) \<Rightarrow>
     raise_if (target \<notin> set tasks) (ValueError ''task alias targets undeclared task'')
     (raise_if (canonical_minimax_h3_task alias \<noteq> target) (ValueError ''unsupported task alias mapping'') (Inr ())))"

definition from_model_index :: "pydict \<Rightarrow> release_metadata res" where
  "from_model_index model_index = (case dget model_index ''_minimax_h3'' of
      PDict raw \<Rightarrow>
        raise_if (\<not> eq_int (dget raw ''schema_version'') 1) (ValueError ''schema_version must be 1'')
        (rbind (check_partition (dget raw ''partition'')) (\<lambda>partition.
         rbind (string_list (dget raw ''tasks'')) (\<lambda>tasks.
         rbind (alias_list (dget_or raw ''task_aliases'' (PDict []))) (\<lambda>aliases.
         rbind (sigma_scales (dget raw ''sigma_shift_scales'')) (\<lambda>(video_sigma, audio_sigma).
         rbind (rmap (check_task partition) tasks) (\<lambda>_.
         rbind (rmap (check_alias tasks) aliases) (\<lambda>_.
         Inr \<lparr>rm_schema_version = 1, rm_partition = partition, rm_tasks = tasks, rm_task_aliases = aliases,
              rm_video_sigma_shift = video_sigma, rm_audio_sigma_shift = audio_sigma\<rparr>)))))))
    | _ \<Rightarrow> Inl (ValueError ''model_index.json._minimax_h3 must be an object''))"

definition canonical_task :: "release_metadata \<Rightarrow> string \<Rightarrow> string res" where
  "canonical_task m task =
     (let normalized = lower (strip task);
          canonical = dget_or (rm_task_aliases m) normalized normalized
      in raise_if (canonical \<notin> set (rm_tasks m)) (ValueError ''task is not served by MiniMax H3 partition'')
         (if rm_partition m \<noteq> ''hybrid'' then
            rbind (partition_for_task (PStr canonical)) (\<lambda>p.
            raise_if (p \<noteq> rm_partition m) (ValueError ''task resolves outside partition'') (Inr canonical))
          else Inr canonical))"

section \<open>The deployment of quality high\<close>

text \<open>What \<^verbatim>\<open>validate_quality_deployment\<close> reads, by the names it uses, and the device.\<close>

record deployment =
  dl_attention_backend :: pyval
  dl_model_variant :: pyval
  dl_component_attention_backends :: pyval
  dl_args :: pydict
  dl_is_cuda :: bool
  dl_device_name :: string
  dl_capability :: "int option"

definition upper_char :: "char \<Rightarrow> char" where
  "upper_char c = (let n = of_char c :: nat in if 97 \<le> n \<and> n \<le> 122 then char_of (n - 32) else c)"

definition deployment_actual :: "deployment \<Rightarrow> pydict" where
  "deployment_actual d = dupdate (dl_args d)
     [(''attention_backend'', if dl_attention_backend d = PNone then PNone
                              else PStr (lower (strip (py_str (dl_attention_backend d))))),
      (''model_variant'', PStr (lower (py_str (if truthy (dl_model_variant d) then dl_model_variant d else PStr ''fl2va'')))),
      (''component_attention_backends'',
         if truthy (dl_component_attention_backends d) then dl_component_attention_backends d else PDict [])]"

datatype wanted = OneOf "pyval list" | Exactly pyval

definition EXPECTED_DEPLOYMENT :: "(string \<times> wanted) list" where
  "EXPECTED_DEPLOYMENT =
     [(''attention_backend'', OneOf [PNone, PStr ''fa'']), (''backend'', OneOf [PStr ''auto'', PStr ''sglang'']),
      (''component_attention_backends'', Exactly (PDict [])), (''enable_breakable_cuda_graph'', Exactly (PBool False)),
      (''enable_torch_compile'', Exactly (PBool False)), (''is_dit_layerwise_offload_selected'', Exactly (PBool False)),
      (''model_variant'', Exactly (PStr ''fl2va'')), (''num_gpus'', Exactly (PInt 4)),
      (''performance_mode'', Exactly (PStr ''speed'')), (''quantization'', Exactly PNone),
      (''transformer_weights_path'', Exactly PNone), (''text_encoder_quantization'', Exactly PNone),
      (''regional_compile'', Exactly (PBool False)), (''ring_degree'', Exactly (PInt 1)), (''sp_degree'', Exactly (PInt 4)),
      (''tp_size'', Exactly (PInt 1)), (''ulysses_degree'', Exactly (PInt 4)), (''use_fsdp_inference'', Exactly (PBool False))]"

text \<open>\<^verbatim>\<open>==\<close> with one of the constants above: numbers of different types compare by value.\<close>

definition eq_const :: "pyval \<Rightarrow> pyval \<Rightarrow> bool" where
  "eq_const v c = (case c of
      PInt n \<Rightarrow> eq_int v n | PBool b \<Rightarrow> eq_int v (if b then 1 else 0) | _ \<Rightarrow> v = c)"

definition meets :: "pyval \<Rightarrow> wanted \<Rightarrow> bool" where
  "meets v w = (case w of OneOf cs \<Rightarrow> list_ex (eq_const v) cs | Exactly c \<Rightarrow> eq_const v c)"

definition validate_quality_deployment :: "deployment \<Rightarrow> unit res" where
  "validate_quality_deployment d =
     (let actual = deployment_actual d;
          mismatches = filter (\<lambda>(name, w). \<not> meets (dget actual name) w) EXPECTED_DEPLOYMENT;
          device_ok = dl_is_cuda d \<and> str_contains ''H200'' (map upper_char (dl_device_name d)) \<and> dl_capability d = Some 90
      in raise_if (mismatches \<noteq> [] \<or> \<not> device_ok)
           (ValueError ''MiniMax-H3 quality=high is validated only for the strict 4xH200 fl2va deployment'') (Inr ()))"

section \<open>The admission stage\<close>

text \<open>\<^verbatim>\<open>math.isclose(a, b, abs_tol=1e-9)\<close> with the default relative tolerance.\<close>

definition is_inf :: "pyfloat \<Rightarrow> bool" where
  "is_inf x = (x = PInf \<or> x = MInf)"

definition isclose :: "pyfloat \<Rightarrow> pyfloat \<Rightarrow> bool" where
  "isclose a b =
     (let tol = fl (1 / 10 ^ 9); diff = fabs (fsub b a) in
      feq a b \<or> (\<not> is_inf a \<and> \<not> is_inf b \<and>
        (fle diff (fabs (fmul tol b)) \<or> fle diff (fabs (fmul tol a)) \<or> fle diff tol)))"

record stage_batch =
  sb_batch :: queue_batch
  sb_task :: pyval
  sb_quality :: pyval
  sb_num_inference_steps :: int
  sb_is_warmup :: bool

record quality_workload =
  qw_task :: string
  qw_width :: int
  qw_height :: int
  qw_fps :: int
  qw_frame_count :: int
  qw_num_inference_steps :: int
  qw_flow_shift :: pyfloat
  qw_audio_flow_shift :: pyfloat

definition MINIMAX_H3_QUALITY_WORKLOAD :: quality_workload where
  "MINIMAX_H3_QUALITY_WORKLOAD = \<lparr>qw_task = ''t2va'', qw_width = 1344, qw_height = 768, qw_fps = 24, qw_frame_count = 124,
     qw_num_inference_steps = 50, qw_flow_shift = Fin 12, qw_audio_flow_shift = Fin 3\<rparr>"

definition actual_workload :: "resolved_plan \<Rightarrow> int \<Rightarrow> quality_workload res" where
  "actual_workload plan steps =
     (let at_key = (\<lambda>k. rbind (dindex (rp_shape plan) k) py_int) in
      rbind (at_key ''width'') (\<lambda>width.
      rbind (at_key ''height'') (\<lambda>height.
      rbind (at_key ''fps'') (\<lambda>fps.
      rbind (at_key ''frame_count'') (\<lambda>frame_count.
      Inr \<lparr>qw_task = rp_task plan, qw_width = width, qw_height = height, qw_fps = fps, qw_frame_count = frame_count,
           qw_num_inference_steps = steps,
           qw_flow_shift = (case rp_flow_shift plan of Some x \<Rightarrow> x | None \<Rightarrow> rp_default_flow_shift plan),
           qw_audio_flow_shift = (case rp_audio_flow_shift plan of Some x \<Rightarrow> x | None \<Rightarrow> rp_default_audio_flow_shift plan)\<rparr>)))))"

definition workload_matches :: "quality_workload \<Rightarrow> bool" where
  "workload_matches w =
     (w\<lparr>qw_flow_shift := Fin 12, qw_audio_flow_shift := Fin 3\<rparr> = MINIMAX_H3_QUALITY_WORKLOAD \<and>
      isclose (qw_flow_shift w) (qw_flow_shift MINIMAX_H3_QUALITY_WORKLOAD) \<and>
      isclose (qw_audio_flow_shift w) (qw_audio_flow_shift MINIMAX_H3_QUALITY_WORKLOAD))"

definition stage_plan :: "(stage_batch, resolved_plan option) act" where
  "stage_plan b = (case minimax_h3_plan_from_batch (DictExtra (qb_extra (sb_batch b))) of
      Inl e \<Rightarrow> (Inl e, b)
    | Inr (plan, DictExtra d) \<Rightarrow> (Inr plan, b\<lparr>sb_batch := (sb_batch b)\<lparr>qb_extra := d\<rparr>\<rparr>)
    | Inr (plan, _) \<Rightarrow> (Inr plan, b))"

definition check_quality :: "deployment \<Rightarrow> (stage_batch, unit) act" where
  "check_quality deployment b =
     (abind (alift (validate_quality_deployment deployment)) (\<lambda>_.
      abind stage_plan (\<lambda>plan. case plan of
        None \<Rightarrow> araise (ValueError ''MiniMax-H3 quality=high requires a resolved request plan'')
      | Some plan \<Rightarrow>
          abind (alift (actual_workload plan (sb_num_inference_steps b))) (\<lambda>w.
          araise_if (\<not> workload_matches w) (ValueError ''MiniMax-H3 quality=high is validated only for the audited workload'')
            (areturn ()))))) b"

definition stage_forward :: "release_metadata \<Rightarrow> bool \<Rightarrow> int \<Rightarrow> deployment \<Rightarrow> (stage_batch, unit) act" where
  "stage_forward metadata adaln_online gpu_plans deployment b =
     (case sb_task b of
        PStr task \<Rightarrow>
          araise_if (strip task = []) (ValueError ''MiniMax H3 request task must be a non-empty string'')
          (abind (alift (canonical_task metadata task)) (\<lambda>_.
           araise_if (sb_num_inference_steps b < 2) (ValueError ''MiniMax H3 requires num_inference_steps >= 2'')
          (araise_if (adaln_online \<and> gpu_plans < sb_num_inference_steps b - 1)
             (ValueError ''num_inference_steps needs more AdaLN plans than the online slab holds'')
          (araise_if (\<not> list_ex (eq_str (sb_quality b)) QUALITY_LEVELS) (ValueError ''quality must be one of the quality levels'')
          (if eq_str (sb_quality b) ''high'' \<and> \<not> sb_is_warmup b then check_quality deployment else areturn ()))))) b
      | _ \<Rightarrow> (Inl (ValueError ''MiniMax H3 request task must be a non-empty string''), b))"

section \<open>What the contract promises\<close>

text \<open>The invariant of accepted metadata: every task belongs to the partition, and every alias names itself.\<close>

definition metadata_ok :: "release_metadata \<Rightarrow> bool" where
  "metadata_ok m \<longleftrightarrow> rm_partition m \<in> {''fl2va'', ''ref2va''} \<and> rm_tasks m \<noteq> [] \<and> distinct (rm_tasks m) \<and>
     (\<forall>t \<in> set (rm_tasks m). t \<noteq> [] \<and> partition_for_task (PStr t) = Inr (rm_partition m)) \<and>
     (\<forall>(a, t) \<in> set (rm_task_aliases m). a = t \<and> t \<in> set (rm_tasks m))"

lemma rmap_unit_all: "rmap f xs = Inr ys \<Longrightarrow> x \<in> set xs \<Longrightarrow> f x = Inr (() :: unit)"
  by (auto simp: rmap_Inr_iff in_set_conv_nth list_all2_conv_all_nth)

lemma from_model_index_ok:
  assumes "from_model_index idx = Inr m"
  shows "metadata_ok m"
proof -
  obtain raw part tasks aliases us vs where p: "check_partition (dget raw ''partition'') = Inr part"
    and t: "string_list (dget raw ''tasks'') = Inr tasks"
    and ts: "rmap (check_task part) tasks = Inr us" and al: "rmap (check_alias tasks) aliases = Inr vs"
    and m: "rm_partition m = part" "rm_tasks m = tasks" "rm_task_aliases m = aliases"
    using assms by (auto simp: from_model_index_def rbind_Inr_iff raise_if_Inr_iff split: pyval.splits)
  have "part \<in> {''fl2va'', ''ref2va''}" using p by (auto simp: check_partition_def raise_if_Inr_iff split: pyval.splits)
  moreover have "tasks \<noteq> [] \<and> distinct tasks \<and> (\<forall>t \<in> set tasks. t \<noteq> [])"
  proof -
    obtain l where l: "l \<noteq> []" "list_all (\<lambda>v. case v of PStr s \<Rightarrow> s \<noteq> [] | _ \<Rightarrow> False) l" "distinct tasks"
      and e: "tasks = [s. PStr s \<leftarrow> l]"
      using t by (auto simp: string_list_def raise_if_Inr_iff Let_def split: pyval.splits)
    have "tasks \<noteq> []" using l(1,2) unfolding e by (cases l) (auto split: pyval.splits)
    then show ?thesis using l(2,3) unfolding e by (auto simp: list_all_iff split: pyval.splits)
  qed
  moreover have "partition_for_task (PStr t) = Inr part" if "t \<in> set tasks" for t
    using rmap_unit_all[OF ts that] by (auto simp: check_task_def rbind_Inr_iff raise_if_Inr_iff)
  moreover have "a = t \<and> t \<in> set tasks" if "(a, t) \<in> set aliases" for a t
    using rmap_unit_all[OF al that] by (auto simp: check_alias_def raise_if_Inr_iff canonical_minimax_h3_task_def)
  ultimately show ?thesis by (auto simp: metadata_ok_def m)
qed

lemma canonical_task_iff:
  assumes "metadata_ok m"
  shows "canonical_task m task = (if lower (strip task) \<in> set (rm_tasks m) then Inr (lower (strip task))
     else Inl (ValueError ''task is not served by MiniMax H3 partition''))"
proof -
  have "dget_or (rm_task_aliases m) n n = n" for n
    using assms by (auto simp: dget_or_def metadata_ok_def split: option.splits dest!: map_of_SomeD)
  then have e: "canonical_task m task = raise_if (lower (strip task) \<notin> set (rm_tasks m)) (ValueError ''task is not served by MiniMax H3 partition'')
       (if rm_partition m \<noteq> ''hybrid'' then rbind (partition_for_task (PStr (lower (strip task)))) (\<lambda>p.
          raise_if (p \<noteq> rm_partition m) (ValueError ''task resolves outside partition'') (Inr (lower (strip task))))
        else Inr (lower (strip task)))" by (simp add: canonical_task_def Let_def)
  show ?thesis
  proof (cases "lower (strip task) \<in> set (rm_tasks m)")
    case True
    then have "partition_for_task (PStr (lower (strip task))) = Inr (rm_partition m)" using assms by (simp add: metadata_ok_def)
    then show ?thesis unfolding e using True by simp
  qed (simp add: e)
qed

text \<open>A spelling that only differs in case or surrounding space passes the check of the declared tasks, because the
  canonical name of a task is the task itself; no request can then reach it.\<close>

lemma noncanonical_task_unserved:
  assumes "metadata_ok m" and "t \<in> set (rm_tasks m)" and "\<forall>u. lower (strip u) \<noteq> t"
  shows "\<nexists>u. canonical_task m u = Inr t"
  using assms by (simp add: canonical_task_iff)

lemma stage_forward_Inr:
  assumes ok: "metadata_ok m" and run: "stage_forward m online gpu_plans dep b = (Inr (), b')"
  obtains task q where "sb_task b = PStr task" "lower (strip task) \<in> set (rm_tasks m)" "2 \<le> sb_num_inference_steps b"
    "online \<longrightarrow> sb_num_inference_steps b - 1 \<le> gpu_plans" "sb_quality b = PStr q" "q \<in> set QUALITY_LEVELS"
    "if q = ''high'' \<and> \<not> sb_is_warmup b then check_quality dep b = (Inr (), b') else b' = b"
proof -
  obtain task where t: "sb_task b = PStr task" using run by (auto simp: stage_forward_def split: pyval.splits)
  note R = run[unfolded stage_forward_def t pyval.case araise_if_iff abind_Inr_iff alift_iff]
  have c: "lower (strip task) \<in> set (rm_tasks m)" using R by (auto simp: canonical_task_iff[OF ok] split: if_splits)
  have q: "list_ex (eq_str (sb_quality b)) QUALITY_LEVELS" "2 \<le> sb_num_inference_steps b"
    "online \<longrightarrow> sb_num_inference_steps b - 1 \<le> gpu_plans"
    "(if eq_str (sb_quality b) ''high'' \<and> \<not> sb_is_warmup b then check_quality dep else areturn ()) b = (Inr (), b')"
    using R by auto
  obtain w where w: "sb_quality b = PStr w" "w \<in> set QUALITY_LEVELS" using q(1) by (auto simp: list_ex_iff eq_str_def)
  show ?thesis by (rule that[OF t c q(2,3) w]) (use q(4) in \<open>auto simp: w(1) eq_str_def split: if_splits\<close>)
qed

text \<open>What quality high means for an admitted request: the audited deployment and exactly the audited workload.\<close>

lemma quality_high_workload:
  assumes adm: "admissible canonical b" and pre: "minimax_h3_prepare_for_queue env b = (Inr plan, t)"
    and sb: "sb_batch s = t" and run: "check_quality dep s = (Inr (), s')"
  shows "s' = s" and "validate_quality_deployment dep = Inr ()" and "rp_task plan = ''t2va''"
    and "qb_width t = Some 1344 \<and> qb_height t = Some 768 \<and> qb_num_frames t = Some 124" and "sb_num_inference_steps s = 50"
proof -
  have e: "qb_extra (sb_batch s) = qb_extra t" using sb by simp
  obtain b3 where "qb_extra t = dset MINIMAX_H3_RESOLVED_PLAN_EXTRA_KEY (EPlan plan) b3" by (rule admission_returns[OF pre])
  then have "minimax_h3_plan_from_batch (DictExtra (qb_extra t)) = Inr (Some plan, DictExtra (qb_extra t))"
    by (simp add: minimax_h3_plan_from_batch_def plan_from_mapping_cached extra_get_def dget_or_def dict_simps)
  then have pl: "stage_plan s = (Inr (Some plan), s)" by (simp add: stage_plan_def e)
  obtain w where w: "validate_quality_deployment dep = Inr ()" "actual_workload plan (sb_num_inference_steps s) = Inr w"
    "workload_matches w" "s' = s"
    using run by (auto simp: check_quality_def abind_Inr_iff araise_if_iff pl)
  show "s' = s" "validate_quality_deployment dep = Inr ()" by (simp_all add: w)
  obtain W H n where J: "qb_width t = Some W" "qb_height t = Some H" "qb_num_frames t = Some n"
    "dget (rp_shape plan) ''width'' = PInt W" "dget (rp_shape plan) ''height'' = PInt H" "dget (rp_shape plan) ''frame_count'' = PInt n"
    using admitted_job(2)[OF adm pre] by (auto simp: workload_ok_def)
  have k: "rbind (dindex (rp_shape plan) k) py_int = Inr v \<Longrightarrow> dget (rp_shape plan) k = PInt u \<Longrightarrow> v = u" for k u v
    by (auto simp: dindex_def dget_def split: option.splits)
  have a: "qw_task w = rp_task plan" "qw_width w = W" "qw_height w = H" "qw_frame_count w = n"
    "qw_num_inference_steps w = sb_num_inference_steps s"
    using w(2) k[OF _ J(4)] k[OF _ J(5)] k[OF _ J(6)] by (auto simp: actual_workload_def Let_def rbind_Inr_iff[of "rbind _ _"] rbind_Inr_iff)
  have "qw_task w = ''t2va''" "qw_width w = 1344" "qw_height w = 768" "qw_frame_count w = 124" "qw_num_inference_steps w = 50"
    using w(3) by (cases w; auto simp: workload_matches_def MINIMAX_H3_QUALITY_WORKLOAD_def)+
  then show "rp_task plan = ''t2va''" "qb_width t = Some 1344 \<and> qb_height t = Some 768 \<and> qb_num_frames t = Some 124"
    "sb_num_inference_steps s = 50" using a J(1-3) by simp_all
qed

end
