(* ===== verification/Adaln_Cache.thy ===== *)
theory Adaln_Cache
  imports State_Result "HOL-Library.Word"
begin

text \<open>
  \<^verbatim>\<open>runtime/models/dits/minimax_h3_adaln_cache.py\<close>: the precomputed AdaLN outputs of a request's timestep plans. A plan is
  one denoise step's unique timesteps, keyed by their fp32 bit patterns. The slab on the GPU holds plans in slots, in
  LRU order; an optional host tier keeps the plans of whole requests in pages and swaps them in. The model's timestep
  embedding and the projection by one layer's checkpoint weights are parameters that may raise. Copies between the
  two memories are plain assignments: the stream fences of the code order them.
\<close>

section \<open>Plans and parameters\<close>

type_synonym plan_key = "32 word list"

text \<open>\<open>ae_project l e i\<close> is row \<open>i\<close> of layer \<open>l\<close>'s projection of an embedding; the layer after the last block stands
  for the final layer.\<close>

record ('e, 'v) adaln_env =
  ae_embed :: "plan_key \<Rightarrow> 'e res"
  ae_project :: "nat \<Rightarrow> 'e \<Rightarrow> (nat \<Rightarrow> 'v) res"
  ae_copy :: "nat \<Rightarrow> nat \<Rightarrow> unit res"

text \<open>\<^verbatim>\<open>OrderedDict.move_to_end\<close>, and the keys of a dictionary filled by \<^verbatim>\<open>setdefault\<close>.\<close>

definition move_to_end :: "'k \<Rightarrow> ('k \<times> 'v) list \<Rightarrow> ('k \<times> 'v) list" where
  "move_to_end k d = (case map_of d k of None \<Rightarrow> d | Some v \<Rightarrow> filter (\<lambda>p. fst p \<noteq> k) d @ [(k, v)])"

definition first_keys :: "'k list \<Rightarrow> 'k list" where
  "first_keys ks = rev (remdups (rev ks))"

section \<open>The host tier\<close>

record host_plan =
  hp_pages :: "nat list"
  hp_refcount :: int

record 'v host_tier =
  ht_num_layers :: nat
  ht_num_pages :: nat
  ht_free :: "nat list"
  ht_plans :: "(plan_key \<times> host_plan) list"
  ht_groups :: "(plan_key list \<times> plan_key list) list"
  ht_slab :: "nat \<Rightarrow> nat \<Rightarrow> 'v"
  ht_evicted_groups :: nat
  ht_pressure_skips :: nat

definition has_all :: "'v host_tier \<Rightarrow> plan_key list \<Rightarrow> bool" where
  "has_all h keys = list_all (\<lambda>k. map_of (ht_plans h) k \<noteq> None) keys"

definition pin :: "plan_key \<Rightarrow> 'v host_tier \<Rightarrow> 'v host_tier" where
  "pin k h = h\<lparr>ht_plans := map (\<lambda>(j, p). (j, if j = k then p\<lparr>hp_refcount := hp_refcount p + 1\<rparr> else p)) (ht_plans h)\<rparr>"

definition unpin :: "plan_key \<Rightarrow> 'v host_tier \<Rightarrow> 'v host_tier" where
  "unpin k h = (case map_of (ht_plans h) k of
      None \<Rightarrow> h
    | Some p \<Rightarrow>
        if hp_refcount p - 1 = 0
        then h\<lparr>ht_free := ht_free h @ hp_pages p, ht_plans := filter (\<lambda>q. fst q \<noteq> k) (ht_plans h)\<rparr>
        else h\<lparr>ht_plans := map (\<lambda>(j, q). (j, if j = k then q\<lparr>hp_refcount := hp_refcount q - 1\<rparr> else q)) (ht_plans h)\<rparr>)"

definition register_group :: "plan_key list \<Rightarrow> plan_key list \<Rightarrow> 'v host_tier \<Rightarrow> 'v host_tier" where
  "register_group group_key keys h =
     (if map_of (ht_groups h) group_key \<noteq> None then h\<lparr>ht_groups := move_to_end group_key (ht_groups h)\<rparr>
      else if \<not> has_all h keys then h
      else (fold pin keys h)\<lparr>ht_groups := ht_groups h @ [(group_key, keys)]\<rparr>)"

definition evict_oldest_group :: "'v host_tier \<Rightarrow> 'v host_tier" where
  "evict_oldest_group h = (case ht_groups h of
      [] \<Rightarrow> h
    | (_, keys) # rest \<Rightarrow>
        let h' = fold unpin keys (h\<lparr>ht_groups := rest\<rparr>) in h'\<lparr>ht_evicted_groups := Suc (ht_evicted_groups h')\<rparr>)"

lemma unpin_groups [simp]: "ht_groups (unpin k h) = ht_groups h"
  by (simp add: unpin_def split: option.splits)

lemma fold_unpin_groups [simp]: "ht_groups (fold unpin ks h) = ht_groups h"
  by (induction ks arbitrary: h) simp_all

function evict_until :: "nat \<Rightarrow> 'v host_tier \<Rightarrow> 'v host_tier" where
  "evict_until needed h =
     (if length (ht_free h) < needed \<and> ht_groups h \<noteq> [] then evict_until needed (evict_oldest_group h) else h)"
  by pat_completeness auto
termination
  by (relation "measure (\<lambda>(_, h). length (ht_groups h))")
     (auto simp: evict_oldest_group_def Let_def neq_Nil_conv)

declare evict_until.simps [simp del]

text \<open>One plan: pages are taken from the end of the free list and filled from the slot.\<close>

definition take_pages :: "nat \<Rightarrow> 'v host_tier \<Rightarrow> nat list \<times> 'v host_tier" where
  "take_pages n h = (take n (rev (ht_free h)), h\<lparr>ht_free := rev (drop n (rev (ht_free h)))\<rparr>)"

definition fill_pages :: "(nat \<Rightarrow> nat \<Rightarrow> nat \<Rightarrow> 'v) \<Rightarrow> nat \<Rightarrow> nat list \<Rightarrow> 'v host_tier \<Rightarrow> 'v host_tier" where
  "fill_pages params slot pages h =
     h\<lparr>ht_slab := fold (\<lambda>(i, page) slab. slab(page := params slot i)) (enumerate 0 pages) (ht_slab h)\<rparr>"

definition store_plan ::
  "(nat \<Rightarrow> nat \<Rightarrow> nat \<Rightarrow> 'v) \<Rightarrow> plan_key \<times> nat \<times> nat \<Rightarrow> 'v host_tier \<times> (plan_key \<times> host_plan) list \<Rightarrow>
   'v host_tier \<times> (plan_key \<times> host_plan) list" where
  "store_plan params e st = (case (e, st) of ((k, slot, n), (h, staged)) \<Rightarrow>
     (case take_pages n h of (pages, h') \<Rightarrow>
        (fill_pages params slot pages h', staged @ [(k, \<lparr>hp_pages = pages, hp_refcount = 1\<rparr>)])))"

definition skip_for_pressure :: "'v host_tier \<Rightarrow> 'v host_tier" where
  "skip_for_pressure h = h\<lparr>ht_pressure_skips := Suc (ht_pressure_skips h)\<rparr>"

definition store_group ::
  "plan_key list \<Rightarrow> (plan_key \<times> nat \<times> nat) list \<Rightarrow> (nat \<Rightarrow> nat \<Rightarrow> nat \<Rightarrow> 'v) \<Rightarrow> 'v host_tier \<Rightarrow> 'v host_tier" where
  "store_group group_key entries params h =
     (if map_of (ht_groups h) group_key \<noteq> None then h\<lparr>ht_groups := move_to_end group_key (ht_groups h)\<rparr>
      else
        let new_plans = filter (\<lambda>(k, _). map_of (ht_plans h) k = None) entries;
            needed = sum_list (map (\<lambda>(_, _, n). n) new_plans)
        in if ht_num_pages h < needed then skip_for_pressure h
           else
             let shared = filter (\<lambda>k. map_of (ht_plans h) k \<noteq> None) (map fst entries);
                 h1 = evict_until needed (fold pin shared h)
             in if length (ht_free h1) < needed
                then skip_for_pressure (fold (\<lambda>k h. if map_of (ht_plans h) k \<noteq> None then unpin k h else h) (map fst entries) h1)
                else case fold (store_plan params) new_plans (h1, []) of (h2, staged) \<Rightarrow>
                  h2\<lparr>ht_plans := ht_plans h2 @ staged, ht_groups := ht_groups h2 @ [(group_key, map fst entries)]\<rparr>)"

definition host_clear :: "'v host_tier \<Rightarrow> 'v host_tier" where
  "host_clear h = h\<lparr>ht_plans := [], ht_groups := [], ht_free := [0..<ht_num_pages h]\<rparr>"

section \<open>Sizing the host tier\<close>

text \<open>\<^verbatim>\<open>_host_cache_budget_bytes\<close>: the rank's share of what is available beyond the reserve. \<open>reserve\<close> is
  \<^verbatim>\<open>int(available * HOST_RESERVE_FRACTION)\<close>.\<close>

definition host_cache_budget_bytes :: "int \<Rightarrow> int \<Rightarrow> int \<Rightarrow> int \<Rightarrow> int" where
  "host_cache_budget_bytes available reserve min_reserve ranks =
     max 0 (available - max reserve min_reserve) div max 1 ranks"

text \<open>\<^verbatim>\<open>_allocate_host_slab\<close>: halve the page count until pinning works; the result is whether the slab is pinned and its
  page count.\<close>

function pin_pages :: "(nat \<Rightarrow> bool) \<Rightarrow> nat \<Rightarrow> nat option" where
  "pin_pages pins pages = (if pages = 0 then None else if pins pages then Some pages else pin_pages pins (pages div 2))"
  by pat_completeness auto
termination
  by (relation "measure snd") auto

declare pin_pages.simps [simp del]

definition allocate_host_slab :: "(nat \<Rightarrow> bool) \<Rightarrow> nat \<Rightarrow> bool \<times> nat" where
  "allocate_host_slab pins num_pages = (case pin_pages pins num_pages of
      Some pages \<Rightarrow> (True, pages) | None \<Rightarrow> (False, num_pages))"

definition host_pages :: "(nat \<Rightarrow> bool) \<Rightarrow> int \<Rightarrow> int \<Rightarrow> int \<Rightarrow> bool \<times> nat" where
  "host_pages pins capacity_bytes budget page_bytes =
     allocate_host_slab pins (nat (max 0 (min capacity_bytes budget) div page_bytes))"

definition host_init :: "nat \<Rightarrow> nat \<Rightarrow> (nat \<Rightarrow> nat \<Rightarrow> 'v) \<Rightarrow> 'v host_tier" where
  "host_init num_layers num_pages slab =
     \<lparr>ht_num_layers = num_layers, ht_num_pages = num_pages, ht_free = [0..<num_pages], ht_plans = [], ht_groups = [],
      ht_slab = slab, ht_evicted_groups = 0, ht_pressure_skips = 0\<rparr>"

section \<open>The cache\<close>

record 'v adaln_cache =
  ac_max_plans :: nat
  ac_max_plan_width :: nat
  ac_num_layers :: nat
  ac_slots :: "(plan_key \<times> nat) list"
  ac_free :: "nat list"
  ac_timesteps :: "nat \<Rightarrow> nat \<Rightarrow> 32 word"
  ac_lengths :: "nat \<Rightarrow> nat"
  ac_params :: "nat \<Rightarrow> nat \<Rightarrow> nat \<Rightarrow> 'v"
  ac_host :: "'v host_tier option"
  ac_gpu_hits :: nat
  ac_host_hits :: nat
  ac_built :: nat
  ac_rebuilds :: nat
  ac_shape :: "nat \<times> nat"

text \<open>\<open>ac_shape\<close> is the shape of the timestep buffer: plans and timesteps per plan.\<close>

definition on_host :: "('v host_tier \<Rightarrow> 'v host_tier) \<Rightarrow> 'v adaln_cache \<Rightarrow> 'v adaln_cache" where
  "on_host f c = c\<lparr>ac_host := map_option f (ac_host c)\<rparr>"

definition touch :: "plan_key \<Rightarrow> 'v adaln_cache \<Rightarrow> 'v adaln_cache" where
  "touch k c = c\<lparr>ac_slots := move_to_end k (ac_slots c)\<rparr>"

definition evict_plan :: "plan_key \<Rightarrow> 'v adaln_cache \<Rightarrow> 'v adaln_cache" where
  "evict_plan k c = (case map_of (ac_slots c) k of
      None \<Rightarrow> c
    | Some s \<Rightarrow> c\<lparr>ac_slots := filter (\<lambda>p. fst p \<noteq> k) (ac_slots c), ac_lengths := (ac_lengths c)(s := 0),
                   ac_free := ac_free c @ [s]\<rparr>)"

text \<open>\<^verbatim>\<open>{key: self._free_slots.pop() for key in missing}\<close>: popping an empty list raises.\<close>

fun pop_slots :: "plan_key list \<Rightarrow> ('v adaln_cache, (plan_key \<times> nat) list) act" where
  "pop_slots [] c = (Inr [], c)"
| "pop_slots (k # ks) c =
     (if ac_free c = [] then (Inl IndexError, c)
      else abind (pop_slots ks) (\<lambda>as. areturn ((k, last (ac_free c)) # as)) (c\<lparr>ac_free := butlast (ac_free c)\<rparr>))"

definition allocate_slots :: "plan_key list \<Rightarrow> plan_key list \<Rightarrow> ('v adaln_cache, (plan_key \<times> nat) list) act" where
  "allocate_slots wanted missing c =
     (let c1 = fold touch (filter (\<lambda>k. map_of (ac_slots c) k \<noteq> None) wanted) c;
          victims = take (length missing - length (ac_free c1)) (filter (\<lambda>k. k \<notin> set wanted) (map fst (ac_slots c1)))
      in pop_slots missing (fold evict_plan victims c1))"

definition write_timesteps :: "nat \<Rightarrow> plan_key \<Rightarrow> 'v adaln_cache \<Rightarrow> 'v adaln_cache" where
  "write_timesteps s k c =
     c\<lparr>ac_timesteps := (ac_timesteps c)(s := (\<lambda>i. if i < length k then k ! i else ac_timesteps c s i))\<rparr>"

text \<open>Lengths flip last: a plan becomes visible when its slot is complete.\<close>

definition commit_slots :: "(plan_key \<times> nat) list \<Rightarrow> 'v adaln_cache \<Rightarrow> 'v adaln_cache" where
  "commit_slots assigned c =
     c\<lparr>ac_lengths := fold (\<lambda>(k, s) f. f(s := length k)) assigned (ac_lengths c), ac_slots := ac_slots c @ assigned\<rparr>"

definition give_back :: "(plan_key \<times> nat) list \<Rightarrow> 'v adaln_cache \<Rightarrow> 'v adaln_cache" where
  "give_back assigned c = c\<lparr>ac_free := ac_free c @ map snd assigned\<rparr>"

text \<open>\<^verbatim>\<open>copy_to_gpu\<close>: every page of a plan into the row of its slot. A copy may raise and leave a slot half filled.\<close>

definition copy_page :: "('e, 'v) adaln_env \<Rightarrow> 'v host_tier \<Rightarrow> nat \<Rightarrow> nat \<times> nat \<Rightarrow> ('v adaln_cache, unit) act" where
  "copy_page env h s ip = (case ip of (i, page) \<Rightarrow>
     abind (alift (ae_copy env s i)) (\<lambda>_.
     aupdate (\<lambda>c. c\<lparr>ac_params := (ac_params c)(s := (ac_params c s)(i := ht_slab h page))\<rparr>)))"

definition copy_plan :: "('e, 'v) adaln_env \<Rightarrow> 'v host_tier \<Rightarrow> plan_key \<times> nat \<Rightarrow> ('v adaln_cache, unit) act" where
  "copy_plan env h a = (case (a, map_of (ht_plans h) (fst a)) of
      ((k, s), Some p) \<Rightarrow> abind (amap (copy_page env h s) (enumerate 0 (hp_pages p))) (\<lambda>_. areturn ())
    | (_, None) \<Rightarrow> araise (KeyError ''plan''))"

definition copy_to_gpu :: "('e, 'v) adaln_env \<Rightarrow> 'v host_tier \<Rightarrow> (plan_key \<times> nat) list \<Rightarrow> ('v adaln_cache, unit) act" where
  "copy_to_gpu env h assigned = abind (amap (copy_plan env h) assigned) (\<lambda>_. areturn ())"

definition swap_in_from_host ::
  "('e, 'v) adaln_env \<Rightarrow> 'v host_tier \<Rightarrow> plan_key list \<Rightarrow> plan_key list \<Rightarrow> ('v adaln_cache, unit) act" where
  "swap_in_from_host env h wanted missing =
     abind (allocate_slots wanted missing) (\<lambda>assigned.
     abind (on_error (abind (aupdate (fold (\<lambda>(k, s). write_timesteps s k) assigned)) (\<lambda>_. copy_to_gpu env h assigned))
              (give_back assigned)) (\<lambda>_.
     aupdate (\<lambda>c. (commit_slots assigned c)\<lparr>ac_host_hits := ac_host_hits c + length missing\<rparr>)))"

text \<open>The embeddings of the missing plans, with their timesteps written to the reserved slots.\<close>

fun embed_plans :: "('e, 'v) adaln_env \<Rightarrow> (plan_key \<times> nat) list \<Rightarrow> ('v adaln_cache, (nat \<times> nat \<times> 'e) list) act" where
  "embed_plans env [] c = (Inr [], c)"
| "embed_plans env ((k, s) # as) c = (case ae_embed env k of
      Inl e \<Rightarrow> (Inl e, c)
    | Inr x \<Rightarrow> abind (embed_plans env as) (\<lambda>rest. areturn ((s, length k, x) # rest)) (write_timesteps s k c))"

definition project_plan :: "('e, 'v) adaln_env \<Rightarrow> nat \<Rightarrow> nat \<times> nat \<times> 'e \<Rightarrow> ('v adaln_cache, unit) act" where
  "project_plan env l sne = (case sne of (s, n, x) \<Rightarrow>
     abind (alift (ae_project env l x)) (\<lambda>rows.
     aupdate (\<lambda>c. c\<lparr>ac_params := (ac_params c)(s := (\<lambda>i. if i < n then (ac_params c s i)(l := rows i) else ac_params c s i))\<rparr>)))"

definition project_plans_from_checkpoint :: "('e, 'v) adaln_env \<Rightarrow> (nat \<times> nat \<times> 'e) list \<Rightarrow> ('v adaln_cache, unit) act" where
  "project_plans_from_checkpoint env slots c =
     abind (amap (\<lambda>l. amap (project_plan env l) slots) [0..<Suc (ac_num_layers c)]) (\<lambda>_. areturn ()) c"

definition rebuild :: "('e, 'v) adaln_env \<Rightarrow> plan_key list \<Rightarrow> plan_key list \<Rightarrow> ('v adaln_cache, unit) act" where
  "rebuild env wanted missing =
     abind (allocate_slots wanted missing) (\<lambda>pending.
     abind (embed_plans env pending) (\<lambda>slots.
     abind (on_error (project_plans_from_checkpoint env slots) (give_back pending)) (\<lambda>_.
     aupdate (\<lambda>c. (commit_slots pending c)\<lparr>ac_rebuilds := Suc (ac_rebuilds c), ac_built := ac_built c + length missing\<rparr>))))"

definition group_entries :: "plan_key list \<Rightarrow> 'v adaln_cache \<Rightarrow> (plan_key \<times> nat \<times> nat) list" where
  "group_entries wanted c = [(k, s, length k). k \<leftarrow> wanted, Some s \<leftarrow> [map_of (ac_slots c) k]]"

definition build :: "('e, 'v) adaln_env \<Rightarrow> plan_key list \<Rightarrow> ('v adaln_cache, unit) act" where
  "build env keys c =
     (let wanted = first_keys keys;
          missing = filter (\<lambda>k. map_of (ac_slots c) k = None) wanted
      in if missing = [] then
           (Inr (), on_host (register_group wanted wanted)
              ((fold touch wanted c)\<lparr>ac_gpu_hits := ac_gpu_hits c + length wanted\<rparr>))
         else if ac_max_plans c < length wanted then (Inl (ValueError ''MiniMax H3 AdaLN rebuild needs more plans than the slab holds''), c)
         else if list_ex (\<lambda>k. ac_max_plan_width c < length k) wanted
         then (Inl (ValueError ''MiniMax H3 AdaLN rebuild hit a plan wider than the slab''), c)
         else
           let c = c\<lparr>ac_gpu_hits := ac_gpu_hits c + (length wanted - length missing)\<rparr> in
           case ac_host c of
             Some h \<Rightarrow>
               if has_all h missing then
                 abind (swap_in_from_host env h wanted missing) (\<lambda>_. aupdate (on_host (register_group wanted wanted))) c
               else
                 abind (rebuild env wanted missing) (\<lambda>_.
                 aupdate (\<lambda>c. on_host (store_group wanted (group_entries wanted c) (ac_params c)) c)) c
           | None \<Rightarrow> rebuild env wanted missing c)"

definition invalidate :: "'v adaln_cache \<Rightarrow> 'v adaln_cache" where
  "invalidate c = (on_host host_clear c)\<lparr>ac_slots := [], ac_free := [0..<ac_max_plans c], ac_lengths := (\<lambda>_. 0)\<rparr>"

definition resolve_slots :: "'v adaln_cache \<Rightarrow> plan_key list \<Rightarrow> nat list res" where
  "resolve_slots c keys = rmap (\<lambda>k. case map_of (ac_slots c) k of
      None \<Rightarrow> Inl (ValueError ''MiniMax H3 AdaLN cache does not cover the request timestep plan'') | Some s \<Rightarrow> Inr s) keys"

section \<open>Construction and loading\<close>

definition adaln_init :: "string option \<Rightarrow> string list option \<Rightarrow> int \<Rightarrow> int \<Rightarrow> string \<Rightarrow> unit res" where
  "adaln_init path weight_files max_plans max_plan_width precision =
     (if (path = None) = (weight_files = None) then Inl (ValueError ''MiniMax H3 AdaLN cache takes exactly one of path or weight_files'')
      else if max_plans < 1 then Inl (ValueError ''MiniMax H3 AdaLN cache max_plans must be positive'')
      else if max_plan_width < 1 then Inl (ValueError ''MiniMax H3 AdaLN cache max_plan_width must be positive'')
      else if precision \<notin> {''match'', ''fp32''} then Inl (ValueError ''MiniMax H3 AdaLN cache precision must be match or fp32'')
      else Inr ())"

text \<open>\<^verbatim>\<open>_allocate\<close>: the empty slab of the rebuild path. \<open>tier\<close> is the host tier that \<^verbatim>\<open>load\<close> constructs when it has bytes
  to use.\<close>

definition load_rebuild :: "nat \<Rightarrow> nat \<Rightarrow> nat \<Rightarrow> 'v \<Rightarrow> int \<Rightarrow> 'v host_tier \<Rightarrow> 'v adaln_cache" where
  "load_rebuild max_plans max_plan_width num_layers zero host_cache_bytes tier =
     \<lparr>ac_max_plans = max_plans, ac_max_plan_width = max_plan_width, ac_num_layers = num_layers, ac_slots = [],
      ac_free = [0..<max_plans], ac_timesteps = (\<lambda>_ _. 0), ac_lengths = (\<lambda>_. 0), ac_params = (\<lambda>_ _ _. zero),
      ac_host = (if 0 < host_cache_bytes then Some tier else None), ac_gpu_hits = 0, ac_host_hits = 0, ac_built = 0,
      ac_rebuilds = 0, ac_shape = (max_plans, max_plan_width)\<rparr>"

text \<open>A prebuilt sidecar: its metadata, and its tensors with their dtypes and shapes.\<close>

record 'a file_tensor =
  ft_dtype :: string
  ft_shape :: "nat list"
  ft_data :: 'a

record 'v sidecar =
  sc_metadata :: "(string \<times> string) list"
  sc_timesteps :: "(nat \<Rightarrow> nat \<Rightarrow> 32 word) file_tensor"
  sc_lengths :: "(nat \<Rightarrow> int) file_tensor"
  sc_block :: "(nat \<Rightarrow> nat \<Rightarrow> nat \<Rightarrow> 'v) file_tensor"
  sc_final :: "(nat \<Rightarrow> nat \<Rightarrow> 'v) file_tensor"

fun dict_set :: "'k \<Rightarrow> 'v \<Rightarrow> ('k \<times> 'v) list \<Rightarrow> ('k \<times> 'v) list" where
  "dict_set k v [] = [(k, v)]"
| "dict_set k v ((j, w) # d) = (if j = k then (k, v) # d else (j, w) # dict_set k v d)"

definition valid_plans :: "'v sidecar \<Rightarrow> bool" where
  "valid_plans sc = (case ft_shape (sc_timesteps sc) of
      [rows, width] \<Rightarrow> ft_dtype (sc_timesteps sc) = ''float32'' \<and> ft_dtype (sc_lengths sc) = ''int64'' \<and>
        ft_shape (sc_lengths sc) = [rows] \<and>
        list_all (\<lambda>s. 1 \<le> ft_data (sc_lengths sc) s \<and> ft_data (sc_lengths sc) s \<le> int width) [0..<rows]
    | _ \<Rightarrow> False)"

definition sidecar_key :: "'v sidecar \<Rightarrow> nat \<Rightarrow> plan_key" where
  "sidecar_key sc s = map (ft_data (sc_timesteps sc) s) [0..<nat (ft_data (sc_lengths sc) s)]"

definition load_sidecar ::
  "string option \<Rightarrow> nat \<Rightarrow> nat \<Rightarrow> 'v sidecar option \<Rightarrow> 'v adaln_cache \<Rightarrow> 'v adaln_cache res" where
  "load_sidecar model_variant block_width final_width file c = (case file of
      None \<Rightarrow> Inl (ValueError ''MiniMax H3 AdaLN cache does not exist'')
    | Some sc \<Rightarrow>
        if map_of (sc_metadata sc) ''format_version'' \<noteq> Some ''2''
        then Inl (ValueError ''MiniMax H3 AdaLN cache has an unsupported or missing format_version'')
        else if model_variant \<noteq> None \<and> map_of (sc_metadata sc) ''model_variant'' \<noteq> model_variant
        then Inl (ValueError ''MiniMax H3 AdaLN cache model_variant does not match the loaded variant'')
        else if \<not> valid_plans sc then Inl (ValueError ''MiniMax H3 AdaLN cache has invalid timestep plans'')
        else
          let rows = ft_shape (sc_timesteps sc) ! 0; width = ft_shape (sc_timesteps sc) ! 1
          in if ft_dtype (sc_block sc) \<noteq> ''bfloat16'' \<or> ft_shape (sc_block sc) \<noteq> [rows, width, ac_num_layers c, block_width]
             then Inl (ValueError ''MiniMax H3 AdaLN cache has invalid block_params'')
             else if ft_dtype (sc_final sc) \<noteq> ''bfloat16'' \<or> ft_shape (sc_final sc) \<noteq> [rows, width, final_width]
             then Inl (ValueError ''MiniMax H3 AdaLN cache has invalid final_params'')
             else Inr (c\<lparr>
               ac_slots := fold (\<lambda>s. dict_set (sidecar_key sc s) s) [0..<rows] (ac_slots c),
               ac_timesteps := ft_data (sc_timesteps sc),
               ac_lengths := (\<lambda>s. nat (ft_data (sc_lengths sc) s)),
               ac_params := (\<lambda>s i l. if l < ac_num_layers c then ft_data (sc_block sc) s i l else ft_data (sc_final sc) s i),
               ac_shape := (rows, width)\<rparr>))"

section \<open>Lookup on the device\<close>

text \<open>Equality of fp32 values given by their bits: both zeros are equal and a NaN equals nothing.\<close>

definition fp32_magnitude :: "32 word \<Rightarrow> nat" where
  "fp32_magnitude w = unat w mod 2 ^ 31"

definition fp32_nan :: "32 word \<Rightarrow> bool" where
  "fp32_nan w \<longleftrightarrow> 0x7f800000 < fp32_magnitude w"

definition fp32_eq :: "32 word \<Rightarrow> 32 word \<Rightarrow> bool" where
  "fp32_eq a b \<longleftrightarrow> \<not> fp32_nan a \<and> \<not> fp32_nan b \<and> (a = b \<or> fp32_magnitude a = 0 \<and> fp32_magnitude b = 0)"

definition plan_matches :: "'v adaln_cache \<Rightarrow> plan_key \<Rightarrow> nat \<Rightarrow> bool" where
  "plan_matches c ts s \<longleftrightarrow> ac_lengths c s = length ts \<and> list_all (\<lambda>i. fp32_eq (ac_timesteps c s i) (ts ! i)) [0..<length ts]"

definition lookup_plan :: "'v adaln_cache \<Rightarrow> plan_key \<Rightarrow> nat res" where
  "lookup_plan c ts =
     (if snd (ac_shape c) < length ts then Inl (ValueError ''MiniMax H3 AdaLN cache does not cover the request timestep plan'')
      else case find (plan_matches c ts) [0..<fst (ac_shape c)] of
          None \<Rightarrow> Inl (ValueError ''MiniMax H3 AdaLN cache does not cover the request timestep plan'')
        | Some s \<Rightarrow> Inr s)"

text \<open>The gathers of the forward pass: one layer's rows, reshaped to \<open>(-1, parts, hidden)\<close> and unbound along the parts.\<close>

definition unbind_parts :: "nat \<Rightarrow> nat \<Rightarrow> 'x list \<Rightarrow> 'x list list list" where
  "unbind_parts parts hidden flat =
     map (\<lambda>j. map (\<lambda>t. take hidden (drop ((parts * t + j) * hidden) flat)) [0..<length flat div (parts * hidden)]) [0..<parts]"

definition gather_rows :: "'x list adaln_cache \<Rightarrow> nat \<Rightarrow> nat \<Rightarrow> nat \<Rightarrow> 'x list" where
  "gather_rows c s n l = concat (map (\<lambda>i. ac_params c s i l) [0..<min n (snd (ac_shape c))])"

definition block_all :: "nat \<Rightarrow> 'x list adaln_cache \<Rightarrow> nat \<Rightarrow> nat \<Rightarrow> 'x list list list list" where
  "block_all hidden c s n = map (\<lambda>l. unbind_parts 6 hidden (gather_rows c s n l)) [0..<ac_num_layers c]"

definition final_params :: "nat \<Rightarrow> 'x list adaln_cache \<Rightarrow> nat \<Rightarrow> nat \<Rightarrow> 'x list list list" where
  "final_params hidden c s n = unbind_parts 2 hidden (gather_rows c s n (ac_num_layers c))"

section \<open>The model's use of the cache\<close>

text \<open>The model holds the cache and, in the rebuild mode, the checkpoint files it streams.\<close>

record 'v adaln_model =
  am_weight_files :: "string list option"
  am_cache :: "'v adaln_cache"

text \<open>\<^verbatim>\<open>prepare_adaln_plans\<close>: a sidecar only resolves its slots.\<close>

definition prepare_adaln_plans :: "('e, 'v) adaln_env \<Rightarrow> bool \<Rightarrow> plan_key list \<Rightarrow> ('v adaln_cache, nat list) act" where
  "prepare_adaln_plans env rebuilds keys =
     abind (if rebuilds then build env keys else areturn ()) (\<lambda>_ c. (resolve_slots c keys, c))"

text \<open>\<open>files\<close> lists a directory's safetensors in order, \<open>names\<close> the tensors of a file.\<close>

definition native_adaln_weight_files :: "(string \<Rightarrow> string list) \<Rightarrow> (string \<Rightarrow> string list) \<Rightarrow> string \<Rightarrow> string list" where
  "native_adaln_weight_files files names path =
     (if list_ex (\<lambda>f. ''blocks.0.adaln_proj.linear.weight'' \<in> set (names f)) (files path) then files path else [])"

definition validate_weight_update_source ::
  "(string \<Rightarrow> bool) \<Rightarrow> (string \<Rightarrow> string list) \<Rightarrow> (string \<Rightarrow> string list) \<Rightarrow> 'v adaln_model option \<Rightarrow> string option \<Rightarrow> unit res" where
  "validate_weight_update_source isdir files names m path = (case m of
      None \<Rightarrow> Inr ()
    | Some am \<Rightarrow>
        if am_weight_files am = None then Inl (ValueError ''MiniMax H3 was started with a prebuilt AdaLN sidecar'')
        else case path of
            None \<Rightarrow> Inl (ValueError ''a tensor weight update carries no checkpoint directory; use update_weights_from_disk instead'')
          | Some p \<Rightarrow>
              if isdir p \<and> native_adaln_weight_files files names p \<noteq> [] then Inr ()
              else Inl (ValueError ''MiniMax H3 --minimax-h3-adaln-online cannot retarget its AdaLN rebuild''))"

definition refresh_weight_derived_caches ::
  "(string \<Rightarrow> bool) \<Rightarrow> (string \<Rightarrow> string list) \<Rightarrow> (string \<Rightarrow> string list) \<Rightarrow> 'v adaln_model option \<Rightarrow> string option \<Rightarrow> 'v adaln_model option res" where
  "refresh_weight_derived_caches isdir files names m path = (case m of
      None \<Rightarrow> Inr None
    | Some am \<Rightarrow> (case validate_weight_update_source isdir files names m path of
          Inl e \<Rightarrow> Inl e
        | Inr _ \<Rightarrow> Inr (Some \<lparr>am_weight_files = map_option (native_adaln_weight_files files names) path,
                             am_cache = invalidate (am_cache am)\<rparr>)))"

end
