(* ===== verification/Adaln_Host.thy ===== *)
theory Adaln_Host
  imports Adaln_Cache "HOL-Library.Multiset"
begin

text \<open>
  The host tier of the AdaLN cache keeps its pages: every page is free or belongs to exactly one plan, a plan's
  reference count is the number of groups that hold it (and the pins taken while a group is being stored), and what
  a plan's pages hold is what its projection computes.
\<close>

section \<open>Values of a plan\<close>

definition plan_value :: "('e, 'v) adaln_env \<Rightarrow> plan_key \<Rightarrow> nat \<Rightarrow> nat \<Rightarrow> 'v option" where
  "plan_value env k i l = (case ae_embed env k of
      Inl _ \<Rightarrow> None
    | Inr x \<Rightarrow> (case ae_project env l x of Inl _ \<Rightarrow> None | Inr rows \<Rightarrow> Some (rows i)))"

definition row_ok :: "('e, 'v) adaln_env \<Rightarrow> nat \<Rightarrow> plan_key \<Rightarrow> (nat \<Rightarrow> nat \<Rightarrow> 'v) \<Rightarrow> bool" where
  "row_ok env L k row \<longleftrightarrow> (\<forall>i < length k. \<forall>l \<le> L. plan_value env k i l = Some (row i l))"

lemma row_ok_cong: "(\<And>i. i < length k \<Longrightarrow> row i = row' i) \<Longrightarrow> row_ok env L k row \<longleftrightarrow> row_ok env L k row'"
  by (simp add: row_ok_def)

section \<open>The invariant of the host tier\<close>

definition group_count :: "plan_key \<Rightarrow> (plan_key list \<times> plan_key list) list \<Rightarrow> nat" where
  "group_count k gs = length (filter (\<lambda>g. k \<in> set (snd g)) gs)"

definition plan_pages :: "(plan_key \<times> host_plan) list \<Rightarrow> nat list" where
  "plan_pages ps = concat (map (\<lambda>p. hp_pages (snd p)) ps)"

text \<open>\<open>x k\<close> counts the pins of a plan that no group holds yet.\<close>

definition host_inv :: "('e, 'v) adaln_env \<Rightarrow> (plan_key \<Rightarrow> nat) \<Rightarrow> 'v host_tier \<Rightarrow> bool" where
  "host_inv env x h \<longleftrightarrow>
     distinct (map fst (ht_plans h)) \<and> distinct (map fst (ht_groups h)) \<and>
     mset (plan_pages (ht_plans h) @ ht_free h) = mset [0..<ht_num_pages h] \<and>
     (\<forall>g \<in> set (ht_groups h). distinct (snd g) \<and> set (snd g) \<subseteq> fst ` set (ht_plans h)) \<and>
     (\<forall>k. 0 < x k \<longrightarrow> k \<in> fst ` set (ht_plans h)) \<and>
     (\<forall>(k, p) \<in> set (ht_plans h). length (hp_pages p) = length k \<and>
        hp_refcount p = int (group_count k (ht_groups h)) + int (x k) \<and> 0 < hp_refcount p \<and>
        row_ok env (ht_num_layers h) k (\<lambda>i. ht_slab h (hp_pages p ! i)))"

lemma host_invI:
  assumes "distinct (map fst (ht_plans h))" and "mset (plan_pages (ht_plans h) @ ht_free h) = mset [0..<ht_num_pages h]"
    and "\<And>g. g \<in> set (ht_groups h) \<Longrightarrow> distinct (snd g) \<and> set (snd g) \<subseteq> fst ` set (ht_plans h)"
    and "\<And>k. 0 < x k \<Longrightarrow> k \<in> fst ` set (ht_plans h)"
    and "\<And>k p. (k, p) \<in> set (ht_plans h) \<Longrightarrow> length (hp_pages p) = length k \<and>
        hp_refcount p = int (group_count k (ht_groups h)) + int (x k) \<and> 0 < hp_refcount p \<and>
        row_ok env (ht_num_layers h) k (\<lambda>i. ht_slab h (hp_pages p ! i))"
    and "distinct (map fst (ht_groups h))"
  shows "host_inv env x h"
  using assms unfolding host_inv_def by blast

lemma host_invD:
  assumes "host_inv env x h"
  shows "distinct (map fst (ht_plans h))" and "mset (plan_pages (ht_plans h) @ ht_free h) = mset [0..<ht_num_pages h]"
    and "g \<in> set (ht_groups h) \<Longrightarrow> distinct (snd g) \<and> set (snd g) \<subseteq> fst ` set (ht_plans h)"
    and "0 < x k \<Longrightarrow> k \<in> fst ` set (ht_plans h)"
    and "(k, p) \<in> set (ht_plans h) \<Longrightarrow> length (hp_pages p) = length k \<and>
        hp_refcount p = int (group_count k (ht_groups h)) + int (x k) \<and> 0 < hp_refcount p \<and>
        row_ok env (ht_num_layers h) k (\<lambda>i. ht_slab h (hp_pages p ! i))"
    and "distinct (map fst (ht_groups h))"
  using assms unfolding host_inv_def by blast+

lemma plan_pages_simps [simp]: "plan_pages [] = []" "plan_pages (p # ps) = hp_pages (snd p) @ plan_pages ps"
  "plan_pages (ps @ qs) = plan_pages ps @ plan_pages qs"
  by (simp_all add: plan_pages_def)

lemma map_of_plan: "host_inv env x h \<Longrightarrow> map_of (ht_plans h) k = Some p \<longleftrightarrow> (k, p) \<in> set (ht_plans h)"
  by (simp add: host_inv_def)

lemma map_of_None_iff: "map_of (ht_plans h) k = None \<longleftrightarrow> k \<notin> fst ` set (ht_plans h)"
  by (rule map_of_eq_None_iff)

text \<open>Changing reference counts only.\<close>

definition add_ref :: "plan_key \<Rightarrow> int \<Rightarrow> (plan_key \<times> host_plan) list \<Rightarrow> (plan_key \<times> host_plan) list" where
  "add_ref k d ps = map (\<lambda>(j, p). (j, if j = k then p\<lparr>hp_refcount := hp_refcount p + d\<rparr> else p)) ps"

lemma add_ref_simps [simp]: "map fst (add_ref k d ps) = map fst ps" "fst ` set (add_ref k d ps) = fst ` set ps"
  "plan_pages (add_ref k d ps) = plan_pages ps"
  by (force simp: add_ref_def plan_pages_def o_def case_prod_beta intro!: arg_cong[of _ _ concat])+

lemma add_ref_mem: "(j, q) \<in> set (add_ref k d ps) \<longleftrightarrow> (\<exists>p. (j, p) \<in> set ps \<and> q = (if j = k then p\<lparr>hp_refcount := hp_refcount p + d\<rparr> else p))"
  by (force simp: add_ref_def)

lemma host_inv_add_ref:
  assumes "host_inv env x h" and "k \<in> fst ` set (ht_plans h)" and "int (x k) + d = int (y k)" and "\<And>j. j \<noteq> k \<Longrightarrow> y j = x j"
    and "0 < group_count k (ht_groups h) + y k"
  shows "host_inv env y (h\<lparr>ht_plans := add_ref k d (ht_plans h)\<rparr>)"
proof (rule host_invI)
  fix j assume "0 < y j"
  then show "j \<in> fst ` set (ht_plans (h\<lparr>ht_plans := add_ref k d (ht_plans h)\<rparr>))"
    using assms(2) assms(4)[of j] host_invD(4)[OF assms(1), of j] by (cases "j = k") simp_all
next
  fix j q assume "(j, q) \<in> set (ht_plans (h\<lparr>ht_plans := add_ref k d (ht_plans h)\<rparr>))"
  then obtain p where p: "(j, p) \<in> set (ht_plans h)" "q = (if j = k then p\<lparr>hp_refcount := hp_refcount p + d\<rparr> else p)"
    by (auto simp: add_ref_mem)
  show "length (hp_pages q) = length j \<and> hp_refcount q = int (group_count j (ht_groups (h\<lparr>ht_plans := add_ref k d (ht_plans h)\<rparr>))) + int (y j) \<and>
      0 < hp_refcount q \<and> row_ok env (ht_num_layers (h\<lparr>ht_plans := add_ref k d (ht_plans h)\<rparr>)) j
        (\<lambda>i. ht_slab (h\<lparr>ht_plans := add_ref k d (ht_plans h)\<rparr>) (hp_pages q ! i))"
    using host_invD(5)[OF assms(1) p(1)] assms(3-5) p(2) by (cases "j = k") auto
qed (use host_invD(1-3,6)[OF assms(1)] in simp_all)

lemma pin_inv: "host_inv env x h \<Longrightarrow> k \<in> fst ` set (ht_plans h) \<Longrightarrow> host_inv env (x(k := Suc (x k))) (pin k h)"
  using host_inv_add_ref[of env x h k 1 "x(k := Suc (x k))"] by (simp add: pin_def add_ref_def)

lemma mset_filter_key:
  assumes "distinct (map fst ps)" and "(k, p) \<in> set ps"
  shows "mset (plan_pages ps) = mset (hp_pages p) + mset (plan_pages (filter (\<lambda>q. fst q \<noteq> k) ps))"
  using assms
proof (induction ps)
  case (Cons q ps)
  show ?case
  proof (cases "q = (k, p)")
    case True
    then have "k \<notin> fst ` set ps" using Cons.prems(1) by simp
    then have "filter (\<lambda>q. fst q \<noteq> k) ps = ps" by (auto simp: filter_id_conv)
    then show ?thesis using True by simp
  next
    case False
    then have "(k, p) \<in> set ps" using Cons.prems(2) by auto
    moreover from this have "fst q \<noteq> k" using Cons.prems(1) by (auto simp: image_iff)
    ultimately show ?thesis using Cons by simp
  qed
qed simp

lemma unpin_inv:
  assumes inv: "host_inv env x h" and k: "0 < x k"
  shows "host_inv env (x(k := x k - 1)) (unpin k h)"
proof -
  have mem: "k \<in> fst ` set (ht_plans h)" using inv k by (simp add: host_inv_def)
  then obtain p where p: "(k, p) \<in> set (ht_plans h)" by force
  then have m: "map_of (ht_plans h) k = Some p" using inv by (simp add: map_of_plan)
  have ref: "hp_refcount p = int (group_count k (ht_groups h)) + int (x k)" using inv p by (auto simp: host_inv_def)
  show ?thesis
  proof (cases "hp_refcount p = 1")
    case False
    then have "0 < group_count k (ht_groups h) + (x(k := x k - 1)) k" using ref k by simp
    then have "host_inv env (x(k := x k - 1)) (h\<lparr>ht_plans := add_ref k (- 1) (ht_plans h)\<rparr>)"
      by (intro host_inv_add_ref[OF inv mem]) (use k in \<open>simp_all add: of_nat_diff\<close>)
    then show ?thesis using False by (simp add: unpin_def m add_ref_def cong: if_cong)
  next
    case True
    then have g: "group_count k (ht_groups h) = 0" and x1: "x k = 1" using ref k by linarith+
    let ?ps = "filter (\<lambda>q. fst q \<noteq> k) (ht_plans h)"
    have keep: "set (snd g) \<subseteq> fst ` set ?ps" if "g \<in> set (ht_groups h)" for g
    proof -
      have "k \<notin> set (snd g)" using g that by (auto simp: group_count_def filter_empty_conv)
      moreover have "set (snd g) \<subseteq> fst ` set (ht_plans h)" using inv that by (auto simp: host_inv_def)
      ultimately show ?thesis by force
    qed
    have pages: "mset (plan_pages (ht_plans h)) = mset (hp_pages p) + mset (plan_pages ?ps)"
      by (rule mset_filter_key[OF _ p]) (use inv in \<open>simp add: host_inv_def\<close>)
    have "host_inv env (x(k := 0)) (h\<lparr>ht_free := ht_free h @ hp_pages p, ht_plans := ?ps\<rparr>)"
    proof (rule host_invI)
      fix j q assume q: "(j, q) \<in> set (ht_plans (h\<lparr>ht_free := ht_free h @ hp_pages p, ht_plans := ?ps\<rparr>))"
      then show "length (hp_pages q) = length j \<and>
          hp_refcount q = int (group_count j (ht_groups (h\<lparr>ht_free := ht_free h @ hp_pages p, ht_plans := ?ps\<rparr>))) + int ((x(k := 0)) j) \<and>
          0 < hp_refcount q \<and> row_ok env (ht_num_layers (h\<lparr>ht_free := ht_free h @ hp_pages p, ht_plans := ?ps\<rparr>)) j
            (\<lambda>i. ht_slab (h\<lparr>ht_free := ht_free h @ hp_pages p, ht_plans := ?ps\<rparr>) (hp_pages q ! i))"
        using host_invD(5)[OF inv, of j q] by auto
    next
      fix j assume "0 < (x(k := 0)) j"
      then show "j \<in> fst ` set (ht_plans (h\<lparr>ht_free := ht_free h @ hp_pages p, ht_plans := ?ps\<rparr>))"
        using host_invD(4)[OF inv, of j] by (auto split: if_splits)
    qed (use host_invD(1-3,6)[OF inv] pages keep in \<open>simp_all add: distinct_map_filter ac_simps\<close>)
    then show ?thesis using True x1 by (simp add: unpin_def m)
  qed
qed

lemma pin_keys [simp]: "fst ` set (ht_plans (pin k h)) = fst ` set (ht_plans h)" "ht_groups (pin k h) = ht_groups h"
  "ht_free (pin k h) = ht_free h" "ht_num_pages (pin k h) = ht_num_pages h" "ht_num_layers (pin k h) = ht_num_layers h"
  using add_ref_simps(2)[of k 1 "ht_plans h"] by (simp_all add: pin_def add_ref_def)

lemma fold_pin_simps [simp]: "fst ` set (ht_plans (fold pin ks h)) = fst ` set (ht_plans h)" "ht_groups (fold pin ks h) = ht_groups h"
  "ht_free (fold pin ks h) = ht_free h" "ht_num_pages (fold pin ks h) = ht_num_pages h" "ht_num_layers (fold pin ks h) = ht_num_layers h"
  by (induction ks arbitrary: h) simp_all

text \<open>Pins and unpins of a list of distinct plans move the count of exactly those plans.\<close>

definition raised :: "plan_key list \<Rightarrow> (plan_key \<Rightarrow> nat) \<Rightarrow> plan_key \<Rightarrow> nat" where
  "raised ks x = (\<lambda>k. if k \<in> set ks then Suc (x k) else x k)"

lemma raised_Cons: "k \<notin> set ks \<Longrightarrow> raised (k # ks) x = raised ks (x(k := Suc (x k)))"
  by (auto simp: raised_def fun_eq_iff)

lemma fold_pin_inv:
  "host_inv env x h \<Longrightarrow> distinct ks \<Longrightarrow> set ks \<subseteq> fst ` set (ht_plans h) \<Longrightarrow> host_inv env (raised ks x) (fold pin ks h)"
proof (induction ks arbitrary: x h)
  case (Cons k ks)
  have "host_inv env (raised ks (x(k := Suc (x k)))) (fold pin ks (pin k h))"
    by (rule Cons.IH[OF pin_inv]) (use Cons.prems in auto)
  then show ?case using Cons.prems(2) by (simp add: raised_Cons)
qed (simp add: raised_def)

lemma fold_unpin_inv: "host_inv env (raised ks x) h \<Longrightarrow> distinct ks \<Longrightarrow> host_inv env x (fold unpin ks h)"
proof (induction ks arbitrary: x h)
  case (Cons k ks)
  have "(raised (k # ks) x)(k := raised (k # ks) x k - 1) = raised ks x" using Cons.prems(2) by (auto simp: raised_def)
  then have "host_inv env (raised ks x) (unpin k h)" using unpin_inv[OF Cons.prems(1), of k] by (simp add: raised_def)
  then show ?case using Cons.IH Cons.prems(2) by simp
qed (simp add: raised_def)

lemma drop_group_inv:
  assumes "host_inv env x h" and "ht_groups h = (g, ks) # rest"
  shows "host_inv env (raised ks x) (h\<lparr>ht_groups := rest\<rparr>)"
proof (rule host_invI)
  fix k assume "0 < raised ks x k"
  then show "k \<in> fst ` set (ht_plans (h\<lparr>ht_groups := rest\<rparr>))"
    using host_invD(3)[OF assms(1), of "(g, ks)"] host_invD(4)[OF assms(1), of k] assms(2) by (auto simp: raised_def split: if_splits)
next
  fix k p assume "(k, p) \<in> set (ht_plans (h\<lparr>ht_groups := rest\<rparr>))"
  then show "length (hp_pages p) = length k \<and> hp_refcount p = int (group_count k (ht_groups (h\<lparr>ht_groups := rest\<rparr>))) + int (raised ks x k) \<and>
      0 < hp_refcount p \<and> row_ok env (ht_num_layers (h\<lparr>ht_groups := rest\<rparr>)) k (\<lambda>i. ht_slab (h\<lparr>ht_groups := rest\<rparr>) (hp_pages p ! i))"
    using host_invD(5)[OF assms(1), of k p] assms(2) by (auto simp: raised_def group_count_def)
qed (use host_invD(1-3,6)[OF assms(1)] assms(2) in simp_all)

lemma host_inv_stats [simp]: "host_inv env x (h\<lparr>ht_evicted_groups := n\<rparr>) \<longleftrightarrow> host_inv env x h"
  "host_inv env x (h\<lparr>ht_pressure_skips := n\<rparr>) \<longleftrightarrow> host_inv env x h"
  by (simp_all add: host_inv_def)

lemma evict_inv: "host_inv env x h \<Longrightarrow> host_inv env x (evict_oldest_group h)"
proof (cases "ht_groups h")
  case (Cons g rest)
  assume inv: "host_inv env x h"
  obtain gk ks where g: "g = (gk, ks)" by (cases g)
  have "distinct ks" using host_invD(3)[OF inv, of g] Cons g by simp
  then have "host_inv env x (fold unpin ks (h\<lparr>ht_groups := rest\<rparr>))"
    using fold_unpin_inv drop_group_inv[OF inv] Cons g by blast
  then show ?thesis by (simp add: evict_oldest_group_def Cons g Let_def)
qed (simp add: evict_oldest_group_def)

text \<open>Eviction never adds a plan and keeps the sizes; a plan with a pin survives it by the invariant.\<close>

lemma unpin_keys: "fst ` set (ht_plans (unpin k h)) \<subseteq> fst ` set (ht_plans h)" "ht_num_pages (unpin k h) = ht_num_pages h"
  "ht_num_layers (unpin k h) = ht_num_layers h"
  using add_ref_simps(2)[of k "- 1" "ht_plans h"]
  by (auto simp: unpin_def add_ref_def cong: if_cong split: option.splits)

lemma fold_unpin_keys: "fst ` set (ht_plans (fold unpin ks h)) \<subseteq> fst ` set (ht_plans h)"
  "ht_num_pages (fold unpin ks h) = ht_num_pages h" "ht_num_layers (fold unpin ks h) = ht_num_layers h"
proof (induction ks arbitrary: h)
  case (Cons k ks)
  { case 1 then show ?case using Cons(1)[of "unpin k h"] unpin_keys(1)[of k h] by simp }
  { case 2 then show ?case using Cons(2)[of "unpin k h"] by (simp add: unpin_keys) }
  { case 3 then show ?case using Cons(3)[of "unpin k h"] by (simp add: unpin_keys) }
qed simp_all

lemma evict_keys: "fst ` set (ht_plans (evict_oldest_group h)) \<subseteq> fst ` set (ht_plans h)"
  "ht_num_pages (evict_oldest_group h) = ht_num_pages h" "ht_num_layers (evict_oldest_group h) = ht_num_layers h"
proof -
  have "fst ` set (ht_plans (evict_oldest_group h)) \<subseteq> fst ` set (ht_plans h) \<and>
      ht_num_pages (evict_oldest_group h) = ht_num_pages h \<and> ht_num_layers (evict_oldest_group h) = ht_num_layers h"
  proof (cases "ht_groups h")
    case (Cons g rest)
    then show ?thesis using fold_unpin_keys[of "snd g" "h\<lparr>ht_groups := rest\<rparr>"]
      by (cases g) (simp add: evict_oldest_group_def Let_def)
  qed (simp add: evict_oldest_group_def)
  then show "fst ` set (ht_plans (evict_oldest_group h)) \<subseteq> fst ` set (ht_plans h)"
    "ht_num_pages (evict_oldest_group h) = ht_num_pages h" "ht_num_layers (evict_oldest_group h) = ht_num_layers h" by blast+
qed

lemma evict_until_inv:
  assumes "host_inv env x h"
  shows "host_inv env x (evict_until n h) \<and> fst ` set (ht_plans (evict_until n h)) \<subseteq> fst ` set (ht_plans h) \<and>
     ht_num_pages (evict_until n h) = ht_num_pages h \<and> ht_num_layers (evict_until n h) = ht_num_layers h"
  using assms
proof (induction n h rule: evict_until.induct)
  case (1 n h)
  show ?case
  proof (cases "length (ht_free h) < n \<and> ht_groups h \<noteq> []")
    case True
    then have "evict_until n h = evict_until n (evict_oldest_group h)" by (subst evict_until.simps) (rule if_P)
    then show ?thesis using "1.IH"[OF True evict_inv[OF "1.prems"]] evict_keys[of h] by (simp, meson order_trans)
  next
    case False
    then have "evict_until n h = h" by (subst evict_until.simps) (rule if_not_P)
    then show ?thesis using "1.prems" by simp
  qed
qed

text \<open>The eviction loop, round by round.\<close>

lemma evict_until_rounds:
  "\<exists>m \<le> length (ht_groups h). evict_until needed h = (evict_oldest_group ^^ m) h \<and>
     (\<forall>j < m. length (ht_free ((evict_oldest_group ^^ j) h)) < needed \<and> ht_groups ((evict_oldest_group ^^ j) h) \<noteq> []) \<and>
     (needed \<le> length (ht_free (evict_until needed h)) \<or> ht_groups (evict_until needed h) = [])"
proof (induction needed h rule: evict_until.induct)
  case (1 needed h)
  show ?case
  proof (cases "length (ht_free h) < needed \<and> ht_groups h \<noteq> []")
    case True
    let ?h = "evict_oldest_group h"
    have e: "evict_until needed h = evict_until needed ?h" using True by (subst evict_until.simps) (rule if_P)
    have len: "length (ht_groups h) = Suc (length (ht_groups ?h))"
      using True by (auto simp: evict_oldest_group_def Let_def neq_Nil_conv)
    obtain m where m: "m \<le> length (ht_groups ?h)" "evict_until needed ?h = (evict_oldest_group ^^ m) ?h"
        "\<forall>j < m. length (ht_free ((evict_oldest_group ^^ j) ?h)) < needed \<and> ht_groups ((evict_oldest_group ^^ j) ?h) \<noteq> []"
        "needed \<le> length (ht_free (evict_until needed ?h)) \<or> ht_groups (evict_until needed ?h) = []"
      using "1.IH"[OF True] by blast
    have "\<forall>j < Suc m. length (ht_free ((evict_oldest_group ^^ j) h)) < needed \<and> ht_groups ((evict_oldest_group ^^ j) h) \<noteq> []"
      using m(3) True by (auto simp: less_Suc_eq_0_disj funpow_swap1)
    then show ?thesis using m len e by (intro exI[of _ "Suc m"]) (simp add: funpow_swap1)
  next
    case False
    then have "evict_until needed h = h" by (subst evict_until.simps) (rule if_not_P)
    then show ?thesis using False by (intro exI[of _ 0]) auto
  qed
qed

text \<open>Storing one plan: its pages come from the free list, so no other plan's pages change.\<close>

lemma fold_pages_other: "p \<notin> set pages \<Longrightarrow> fold (\<lambda>(i, page) f. f(page := v i)) (enumerate n pages) f p = f p"
  by (induction pages arbitrary: n f) simp_all

lemma fold_pages_nth:
  "distinct pages \<Longrightarrow> i < length pages \<Longrightarrow> fold (\<lambda>(i, page) f. f(page := v i)) (enumerate n pages) f (pages ! i) = v (n + i)"
proof (induction pages arbitrary: n f i)
  case (Cons q pages)
  show ?case
  proof (cases i)
    case 0
    have "fold (\<lambda>(i, page) f. f(page := v i)) (enumerate (Suc n) pages) (f(q := v n)) q = (f(q := v n)) q"
      by (rule fold_pages_other) (use Cons.prems in simp)
    then show ?thesis using 0 by (simp del: fun_upd_apply) simp
  next
    case (Suc j)
    then show ?thesis using Cons.IH[of j "Suc n" "f(q := v n)"] Cons.prems by simp
  qed
qed simp

definition with_plans :: "'v host_tier \<Rightarrow> (plan_key \<times> host_plan) list \<Rightarrow> 'v host_tier" where
  "with_plans h staged = h\<lparr>ht_plans := ht_plans h @ staged\<rparr>"

lemma store_plan_inv:
  assumes inv: "host_inv env x (with_plans h staged)" and new: "k \<notin> fst ` set (ht_plans h @ staged)"
    and free: "length k \<le> length (ht_free h)" and row: "row_ok env (ht_num_layers h) k (params slot)"
    and st: "store_plan params (k, slot, length k) (h, staged) = (h', staged')"
  shows "host_inv env (x(k := 1)) (with_plans h' staged') \<and> ht_plans h' = ht_plans h \<and> ht_groups h' = ht_groups h \<and>
     ht_num_pages h' = ht_num_pages h \<and> ht_num_layers h' = ht_num_layers h \<and>
     length (ht_free h') = length (ht_free h) - length k \<and> map fst staged' = map fst staged @ [k]"
proof -
  let ?n = "length k" and ?f = "rev (ht_free h)"
  let ?pages = "take ?n ?f" and ?slab = "fold (\<lambda>(i, page) slab. slab(page := params slot i)) (enumerate 0 (take ?n ?f)) (ht_slab h)"
  have h': "h' = h\<lparr>ht_free := rev (drop ?n ?f), ht_slab := ?slab\<rparr>" and s': "staged' = staged @ [(k, \<lparr>hp_pages = ?pages, hp_refcount = 1\<rparr>)]"
    using st by (simp_all add: store_plan_def take_pages_def fill_pages_def)
  have m: "mset (plan_pages (ht_plans h @ staged) @ ht_free h) = mset [0..<ht_num_pages h]"
    using host_invD(2)[OF inv] by (simp add: with_plans_def)
  have split: "mset (ht_free h) = mset ?pages + mset (drop ?n ?f)" by (metis append_take_drop_id mset_append mset_rev)
  have "distinct (plan_pages (ht_plans h @ staged) @ ht_free h)" using m by (metis distinct_upt mset_eq_imp_distinct_iff)
  then have d: "distinct (ht_free h)" "set (plan_pages (ht_plans h @ staged)) \<inter> set (ht_free h) = {}" by auto
  have dp: "distinct ?pages" "set ?pages \<subseteq> set (ht_free h)" using d(1) by (auto dest: in_set_takeD)
  have len: "length ?pages = ?n" using free by simp
  have old: "?slab page = ht_slab h page" if "(j, p) \<in> set (ht_plans h @ staged)" "page \<in> set (hp_pages p)" for j p page
  proof -
    have "page \<in> set (plan_pages (ht_plans h @ staged))" using that by (force simp: plan_pages_def)
    then have "page \<notin> set ?pages" using d(2) dp(2) by blast
    then show ?thesis by (rule fold_pages_other)
  qed
  have new_row: "?slab (?pages ! i) = params slot i" if "i < ?n" for i
    using fold_pages_nth[OF dp(1), of i "params slot" 0 "ht_slab h"] that len by simp
  have gk: "group_count k (ht_groups h) = 0"
    using host_invD(3)[OF inv] new by (auto simp: group_count_def filter_empty_conv with_plans_def)
  have "host_inv env (x(k := 1)) (with_plans h' staged')"
  proof (rule host_invI)
    show "distinct (map fst (ht_plans (with_plans h' staged')))"
      using host_invD(1)[OF inv] new by (auto simp: with_plans_def h' s')
    show "mset (plan_pages (ht_plans (with_plans h' staged')) @ ht_free (with_plans h' staged')) = mset [0..<ht_num_pages (with_plans h' staged')]"
      using m split by (simp add: with_plans_def h' s' ac_simps)
    fix g assume "g \<in> set (ht_groups (with_plans h' staged'))"
    then show "distinct (snd g) \<and> set (snd g) \<subseteq> fst ` set (ht_plans (with_plans h' staged'))"
      using host_invD(3)[OF inv, of g] by (auto simp: with_plans_def h' s')
  next
    fix j assume "0 < (x(k := 1)) j"
    then show "j \<in> fst ` set (ht_plans (with_plans h' staged'))"
      using host_invD(4)[OF inv, of j] by (auto simp: with_plans_def h' s' split: if_splits)
  next
    fix j p assume "(j, p) \<in> set (ht_plans (with_plans h' staged'))"
    then consider "(j, p) \<in> set (ht_plans h @ staged)" "j \<noteq> k" | "j = k" "p = \<lparr>hp_pages = ?pages, hp_refcount = 1\<rparr>"
      using new by (force simp: with_plans_def h' s')
    then show "length (hp_pages p) = length j \<and> hp_refcount p = int (group_count j (ht_groups (with_plans h' staged'))) + int ((x(k := 1)) j) \<and>
        0 < hp_refcount p \<and> row_ok env (ht_num_layers (with_plans h' staged')) j (\<lambda>i. ht_slab (with_plans h' staged') (hp_pages p ! i))"
    proof cases
      case 1
      note I = host_invD(5)[OF inv, of j p]
      have "row_ok env (ht_num_layers h) j (\<lambda>i. ?slab (hp_pages p ! i)) = row_ok env (ht_num_layers h) j (\<lambda>i. ht_slab h (hp_pages p ! i))"
        by (rule row_ok_cong) (use old[OF 1(1)] I 1 in \<open>simp add: with_plans_def\<close>)
      then show ?thesis using I 1 by (simp add: with_plans_def h')
    next
      case 2
      have "row_ok env (ht_num_layers h) k (\<lambda>i. ?slab (?pages ! i)) = row_ok env (ht_num_layers h) k (params slot)"
        by (rule row_ok_cong) (rule new_row)
      then show ?thesis using 2 row len gk by (simp add: with_plans_def h')
    qed
  next
    show "distinct (map fst (ht_groups (with_plans h' staged')))" using host_invD(6)[OF inv] by (simp add: with_plans_def h')
  qed
  then show ?thesis using free by (simp add: h' s')
qed

lemma store_plans_inv:
  assumes "host_inv env x (with_plans h staged)" and "distinct (map fst new)" and "\<forall>k \<in> fst ` set new. k \<notin> fst ` set (ht_plans h @ staged)"
    and "sum_list (map (\<lambda>(_, _, n). n) new) \<le> length (ht_free h)"
    and "\<forall>(k, slot, n) \<in> set new. n = length k \<and> row_ok env (ht_num_layers h) k (params slot)"
    and "fold (store_plan params) new (h, staged) = (h', staged')"
  shows "host_inv env (\<lambda>k. if k \<in> fst ` set new then 1 else x k) (with_plans h' staged') \<and> ht_groups h' = ht_groups h \<and>
     ht_num_layers h' = ht_num_layers h \<and> ht_num_pages h' = ht_num_pages h \<and> ht_plans h' = ht_plans h \<and>
     map fst staged' = map fst staged @ map fst new"
  using assms
proof (induction new arbitrary: x h staged)
  case Nil
  then show ?case by simp
next
  case (Cons e new)
  obtain k slot where e: "e = (k, slot, length k)" and row: "row_ok env (ht_num_layers h) k (params slot)"
    using Cons.prems(5) by (cases e) auto
  obtain h1 staged1 where st: "store_plan params (k, slot, length k) (h, staged) = (h1, staged1)" by fastforce
  have S: "host_inv env (x(k := 1)) (with_plans h1 staged1) \<and> ht_plans h1 = ht_plans h \<and> ht_groups h1 = ht_groups h \<and>
     ht_num_pages h1 = ht_num_pages h \<and> ht_num_layers h1 = ht_num_layers h \<and>
     length (ht_free h1) = length (ht_free h) - length k \<and> map fst staged1 = map fst staged @ [k]"
    by (rule store_plan_inv[OF Cons.prems(1) _ _ row st]) (use Cons.prems(3,4) e in auto)
  have "set (map fst staged1) = insert k (set (map fst staged))" using S by simp
  then have k1: "fst ` set staged1 = insert k (fst ` set staged)" by simp
  have "host_inv env (\<lambda>j. if j \<in> fst ` set new then 1 else (x(k := 1)) j) (with_plans h' staged') \<and> ht_groups h' = ht_groups h1 \<and>
     ht_num_layers h' = ht_num_layers h1 \<and> ht_num_pages h' = ht_num_pages h1 \<and> ht_plans h' = ht_plans h1 \<and>
     map fst staged' = map fst staged1 @ map fst new"
  proof (rule Cons.IH)
    show "host_inv env (x(k := 1)) (with_plans h1 staged1)" "distinct (map fst new)" using S Cons.prems(2) by simp_all
    show "\<forall>j \<in> fst ` set new. j \<notin> fst ` set (ht_plans h1 @ staged1)"
      unfolding set_append image_Un k1 using Cons.prems(2,3) S e by auto
    show "sum_list (map (\<lambda>(_, _, n). n) new) \<le> length (ht_free h1)" using Cons.prems(4) S e by simp
    show "\<forall>(k, slot, n) \<in> set new. n = length k \<and> row_ok env (ht_num_layers h1) k (params slot)" using Cons.prems(5) S by simp
    show "fold (store_plan params) new (h1, staged1) = (h', staged')" using Cons.prems(6) st e by simp
  qed
  moreover have "(\<lambda>j. if j \<in> fst ` set new then 1 else (x(k := 1)) j) = (\<lambda>j. if j \<in> fst ` set (e # new) then 1 else x j)"
    by (auto simp: e fun_eq_iff)
  ultimately show ?case using S e by simp
qed

text \<open>Whole groups: registering, refreshing and storing one.\<close>

lemma move_to_end_mset: "distinct (map fst d) \<Longrightarrow> mset (move_to_end k d) = mset d"
proof (induction d)
  case (Cons p d)
  show ?case
  proof (cases "fst p = k")
    case True
    then have "\<forall>q \<in> set d. fst q \<noteq> k" using Cons.prems by (metis distinct.simps(2) imageI list.map(2) set_map)
    then have "filter (\<lambda>q. fst q \<noteq> k) d = d" by (simp add: filter_id_conv)
    then show ?thesis using True by (cases p) (simp add: move_to_end_def)
  next
    case False
    then show ?thesis using Cons by (cases p, cases "map_of d k") (simp_all add: move_to_end_def del: map_of_eq_Some_iff)
  qed
qed (simp add: move_to_end_def)

lemma perm_groups_inv:
  assumes inv: "host_inv env x h" and perm: "mset gs = mset (ht_groups h)"
  shows "host_inv env x (h\<lparr>ht_groups := gs\<rparr>)"
proof -
  have "group_count k gs = group_count k (ht_groups h)" for k
    unfolding group_count_def by (metis perm mset_filter size_mset)
  moreover have "set gs = set (ht_groups h)" using perm by (rule mset_eq_setD)
  moreover have "distinct (map fst gs)" using perm host_invD(6)[OF inv] by (metis mset_eq_imp_distinct_iff mset_map)
  ultimately show ?thesis using inv by (simp add: host_inv_def)
qed

lemma add_group_inv:
  assumes inv: "host_inv env (raised ks x) h" and "distinct ks" and "set ks \<subseteq> fst ` set (ht_plans h)" and "g \<notin> fst ` set (ht_groups h)"
  shows "host_inv env x (h\<lparr>ht_groups := ht_groups h @ [(g, ks)]\<rparr>)"
proof (rule host_invI)
  fix j assume "j \<in> set (ht_groups (h\<lparr>ht_groups := ht_groups h @ [(g, ks)]\<rparr>))"
  then show "distinct (snd j) \<and> set (snd j) \<subseteq> fst ` set (ht_plans (h\<lparr>ht_groups := ht_groups h @ [(g, ks)]\<rparr>))"
    using host_invD(3)[OF inv, of j] assms(2,3) by auto
next
  fix k assume "0 < x k"
  then show "k \<in> fst ` set (ht_plans (h\<lparr>ht_groups := ht_groups h @ [(g, ks)]\<rparr>))"
    using host_invD(4)[OF inv, of k] by (simp add: raised_def)
next
  fix k p assume "(k, p) \<in> set (ht_plans (h\<lparr>ht_groups := ht_groups h @ [(g, ks)]\<rparr>))"
  then show "length (hp_pages p) = length k \<and> hp_refcount p = int (group_count k (ht_groups (h\<lparr>ht_groups := ht_groups h @ [(g, ks)]\<rparr>))) + int (x k) \<and>
      0 < hp_refcount p \<and> row_ok env (ht_num_layers (h\<lparr>ht_groups := ht_groups h @ [(g, ks)]\<rparr>)) k (\<lambda>i. ht_slab (h\<lparr>ht_groups := ht_groups h @ [(g, ks)]\<rparr>) (hp_pages p ! i))"
    using host_invD(5)[OF inv, of k p] by (auto simp: raised_def group_count_def)
qed (use host_invD(1,2,6)[OF inv] assms(4) in simp_all)

lemma has_all_iff: "has_all h keys \<longleftrightarrow> set keys \<subseteq> fst ` set (ht_plans h)"
  by (auto simp: has_all_def list_all_iff map_of_eq_None_iff)

lemma register_group_inv:
  assumes "host_inv env (\<lambda>_. 0) h" and "distinct keys"
  shows "host_inv env (\<lambda>_. 0) (register_group g keys h) \<and> ht_num_layers (register_group g keys h) = ht_num_layers h"
proof (cases "map_of (ht_groups h) g = None \<and> has_all h keys")
  case True
  then have "host_inv env (raised keys (\<lambda>_. 0)) (fold pin keys h)"
    using fold_pin_inv[OF assms] by (simp add: has_all_iff)
  then have "host_inv env (\<lambda>_. 0) ((fold pin keys h)\<lparr>ht_groups := ht_groups (fold pin keys h) @ [(g, keys)]\<rparr>)"
    by (rule add_group_inv) (use assms(2) True in \<open>simp_all add: has_all_iff map_of_eq_None_iff\<close>)
  then show ?thesis using True by (simp add: register_group_def)
next
  case False
  then show ?thesis using assms perm_groups_inv[OF assms(1) move_to_end_mset] host_invD(6)[OF assms(1)]
    by (auto simp: register_group_def)
qed

lemma evict_until_groups: "set (ht_groups (evict_until n h)) \<subseteq> set (ht_groups h)"
proof (induction n h rule: evict_until.induct)
  case (1 n h)
  have "set (ht_groups (evict_oldest_group h)) \<subseteq> set (ht_groups h)"
    by (auto simp: evict_oldest_group_def Let_def split: list.splits)
  then show ?case using 1 by (subst evict_until.simps) auto
qed

lemma unpin_other: "j \<noteq> k \<Longrightarrow> map_of (ht_plans (unpin j h)) k = None \<longleftrightarrow> map_of (ht_plans h) k = None"
  using add_ref_simps(2)[of j "- 1" "ht_plans h"]
  by (auto simp: unpin_def add_ref_def map_of_eq_None_iff cong: if_cong split: option.splits)

lemma fold_unpin_present:
  "distinct ks \<Longrightarrow> fold (\<lambda>k h. if map_of (ht_plans h) k \<noteq> None then unpin k h else h) ks h =
     fold unpin (filter (\<lambda>k. map_of (ht_plans h) k \<noteq> None) ks) h"
proof (induction ks arbitrary: h)
  case (Cons k ks)
  have "filter (\<lambda>j. map_of (ht_plans (unpin k h)) j \<noteq> None) ks = filter (\<lambda>j. map_of (ht_plans h) j \<noteq> None) ks"
    by (rule filter_cong[OF refl]) (metis Cons.prems distinct.simps(2) unpin_other)
  then show ?case using Cons by (cases "map_of (ht_plans h) k = None") simp_all
qed simp

lemma skip_for_pressure_inv [simp]: "host_inv env x (skip_for_pressure h) = host_inv env x h"
  "ht_num_layers (skip_for_pressure h) = ht_num_layers h"
  by (simp_all add: skip_for_pressure_def)

text \<open>The pins that \<^verbatim>\<open>store_group\<close> takes before it evicts.\<close>

lemma pinned_evict:
  assumes inv: "host_inv env (\<lambda>_. 0) h" and d: "distinct ks"
    and h1: "h1 = evict_until n (fold pin (filter (\<lambda>k. map_of (ht_plans h) k \<noteq> None) ks) h)"
  shows "host_inv env (raised (filter (\<lambda>k. map_of (ht_plans h) k \<noteq> None) ks) (\<lambda>_. 0)) h1 \<and>
    (\<forall>k \<in> set ks. map_of (ht_plans h1) k = None \<longleftrightarrow> map_of (ht_plans h) k = None) \<and>
    set (ht_groups h1) \<subseteq> set (ht_groups h) \<and> ht_num_pages h1 = ht_num_pages h \<and> ht_num_layers h1 = ht_num_layers h"
proof -
  let ?sh = "filter (\<lambda>k. map_of (ht_plans h) k \<noteq> None) ks"
  have "host_inv env (raised ?sh (\<lambda>_. 0)) (fold pin ?sh h)"
    by (rule fold_pin_inv[OF inv]) (use d in \<open>auto simp: map_of_eq_None_iff\<close>)
  note E = evict_until_inv[OF this, of n, folded h1]
  have "map_of (ht_plans h1) k = None \<longleftrightarrow> map_of (ht_plans h) k = None" if "k \<in> set ks" for k
  proof (cases "map_of (ht_plans h) k = None")
    case True
    then show ?thesis using E by (auto simp: map_of_eq_None_iff)
  next
    case False
    then have "0 < raised ?sh (\<lambda>_. 0) k" using that by (simp add: raised_def)
    then have "k \<in> fst ` set (ht_plans h1)" using E host_invD(4) by blast
    then show ?thesis using False by (simp add: map_of_eq_None_iff)
  qed
  then show ?thesis using E evict_until_groups[of n "fold pin ?sh h"] h1 by simp
qed

lemma store_group_inv:
  assumes inv: "host_inv env (\<lambda>_. 0) h" and d: "distinct (map fst entries)"
    and ent: "\<forall>(k, slot, n) \<in> set entries. n = length k \<and> row_ok env (ht_num_layers h) k (params slot)"
  shows "host_inv env (\<lambda>_. 0) (store_group g entries params h) \<and> ht_num_layers (store_group g entries params h) = ht_num_layers h"
proof -
  let ?new = "filter (\<lambda>(k, _). map_of (ht_plans h) k = None) entries" and ?ks = "map fst entries"
  let ?sh = "filter (\<lambda>k. map_of (ht_plans h) k \<noteq> None) ?ks" and ?n = "sum_list (map (\<lambda>(_, _, n). n) ?new)"
  define h1 where "h1 = evict_until ?n (fold pin ?sh h)"
  note P = pinned_evict[OF inv d h1_def]
  consider "map_of (ht_groups h) g \<noteq> None" | "map_of (ht_groups h) g = None" "ht_num_pages h < ?n"
    | "map_of (ht_groups h) g = None" "\<not> ht_num_pages h < ?n" "length (ht_free h1) < ?n"
    | "map_of (ht_groups h) g = None" "\<not> ht_num_pages h < ?n" "\<not> length (ht_free h1) < ?n" by blast
  then show ?thesis
  proof cases
    case 1
    then show ?thesis using perm_groups_inv[OF inv move_to_end_mset] host_invD(6)[OF inv] by (auto simp: store_group_def)
  next
    case 2
    then show ?thesis using inv by (simp add: store_group_def Let_def)
  next
    case 3
    have "filter (\<lambda>k. map_of (ht_plans h1) k \<noteq> None) ?ks = ?sh" by (rule filter_cong) (use P in auto)
    then have "store_group g entries params h = skip_for_pressure (fold unpin ?sh h1)"
      using 3 fold_unpin_present[OF d, of h1] by (simp add: store_group_def Let_def h1_def)
    moreover have "host_inv env (\<lambda>_. 0) (fold unpin ?sh h1)" by (rule fold_unpin_inv) (use P d in simp_all)
    ultimately show ?thesis using P by (simp add: fold_unpin_keys)
  next
    case 4
    obtain h2 staged where st: "fold (store_plan params) ?new (h1, []) = (h2, staged)" by fastforce
    have eq: "store_group g entries params h = (with_plans h2 staged)\<lparr>ht_groups := ht_groups (with_plans h2 staged) @ [(g, ?ks)]\<rparr>"
      using 4 st by (simp add: store_group_def Let_def h1_def with_plans_def)
    have S: "host_inv env (\<lambda>k. if k \<in> fst ` set ?new then 1 else raised ?sh (\<lambda>_. 0) k) (with_plans h2 staged) \<and> ht_groups h2 = ht_groups h1 \<and>
       ht_num_layers h2 = ht_num_layers h1 \<and> ht_num_pages h2 = ht_num_pages h1 \<and> ht_plans h2 = ht_plans h1 \<and>
       map fst staged = map fst ([] :: (plan_key \<times> host_plan) list) @ map fst ?new"
    proof (rule store_plans_inv[OF _ _ _ _ _ st])
      show "\<forall>k \<in> fst ` set ?new. k \<notin> fst ` set (ht_plans h1 @ [])" using P by (force simp: map_of_eq_None_iff)
    qed (use P d 4 ent in \<open>auto simp: with_plans_def distinct_map_filter\<close>)
    have x: "(\<lambda>k. if k \<in> fst ` set ?new then 1 else raised ?sh (\<lambda>_. 0) k) = raised ?ks (\<lambda>_. 0)"
      by (force simp: raised_def fun_eq_iff)
    have keys: "set ?ks \<subseteq> fst ` set (ht_plans (with_plans h2 staged))"
    proof
      fix k assume k: "k \<in> set ?ks"
      then have "0 < raised ?ks (\<lambda>_. 0) k" by (simp add: raised_def)
      then show "k \<in> fst ` set (ht_plans (with_plans h2 staged))" using S x host_invD(4) by metis
    qed
    have "host_inv env (\<lambda>_. 0) (store_group g entries params h)" unfolding eq
    proof (rule add_group_inv)
      show "g \<notin> fst ` set (ht_groups (with_plans h2 staged))" using 4(1) P S by (auto simp: with_plans_def map_of_eq_None_iff)
    qed (use S x d keys in simp_all)
    then show ?thesis using S P by (simp add: eq with_plans_def)
  qed
qed

lemma empty_tier_inv:
  assumes "ht_plans h = []" and "ht_groups h = []" and "ht_free h = [0..<ht_num_pages h]"
  shows "host_inv env (\<lambda>_. 0) h"
  using assms by (simp add: host_inv_def)

lemma host_clear_inv: "host_inv env (\<lambda>_. 0) (host_clear h)" "host_inv env (\<lambda>_. 0) (host_init n p slab)"
  by (rule empty_tier_inv; simp add: host_clear_def host_init_def)+

end
