(* ===== verification/Adaln_Correct.thy ===== *)
theory Adaln_Correct
  imports Adaln_Host
begin

text \<open>
  The slab of the AdaLN cache: every slot is free and invisible, or belongs to exactly one plan and holds that
  plan's timesteps and projection. Filling the cache for a request keeps this, whether the plans are resident, come
  from the host tier or are projected again, and whether a projection raises or not.
\<close>

section \<open>The invariant of the slab\<close>

text \<open>\<open>pend\<close> lists the slots that an operation has reserved and not yet committed.\<close>

definition plan_ok :: "('e, 'v) adaln_env \<Rightarrow> 'v adaln_cache \<Rightarrow> plan_key \<Rightarrow> nat \<Rightarrow> bool" where
  "plan_ok env c k s \<longleftrightarrow> length k \<le> ac_max_plan_width c \<and> (\<forall>i < length k. ac_timesteps c s i = k ! i) \<and>
     row_ok env (ac_num_layers c) k (ac_params c s)"

definition slots_inv :: "('e, 'v) adaln_env \<Rightarrow> nat list \<Rightarrow> 'v adaln_cache \<Rightarrow> bool" where
  "slots_inv env pend c \<longleftrightarrow>
     distinct (map fst (ac_slots c)) \<and> mset (map snd (ac_slots c) @ ac_free c @ pend) = mset [0..<ac_max_plans c] \<and>
     (\<forall>s \<in> set (ac_free c @ pend). ac_lengths c s = 0) \<and>
     (\<forall>(k, s) \<in> set (ac_slots c). ac_lengths c s = length k \<and> plan_ok env c k s)"

lemma slots_invI:
  assumes "distinct (map fst (ac_slots c))" and "mset (map snd (ac_slots c) @ ac_free c @ pend) = mset [0..<ac_max_plans c]"
    and "\<And>s. s \<in> set (ac_free c @ pend) \<Longrightarrow> ac_lengths c s = 0"
    and "\<And>k s. (k, s) \<in> set (ac_slots c) \<Longrightarrow> ac_lengths c s = length k \<and> plan_ok env c k s"
  shows "slots_inv env pend c"
  using assms unfolding slots_inv_def by blast

lemma slots_invD:
  assumes "slots_inv env pend c"
  shows "distinct (map fst (ac_slots c))" and "mset (map snd (ac_slots c) @ ac_free c @ pend) = mset [0..<ac_max_plans c]"
    and "s \<in> set (ac_free c @ pend) \<Longrightarrow> ac_lengths c s = 0"
    and "(k, s) \<in> set (ac_slots c) \<Longrightarrow> ac_lengths c s = length k \<and> plan_ok env c k s"
  using assms unfolding slots_inv_def by blast+

text \<open>No slot is used twice, and the slots in use, free and reserved are all there are.\<close>

lemma slots_apart:
  assumes "slots_inv env pend c"
  shows "distinct (map snd (ac_slots c) @ ac_free c @ pend)"
    and "length (ac_slots c) + length (ac_free c) + length pend = ac_max_plans c"
    and "s \<in> set pend \<Longrightarrow> s < ac_max_plans c" and "(k, s) \<in> set (ac_slots c) \<Longrightarrow> s < ac_max_plans c"
proof -
  note M = slots_invD(2)[OF assms]
  show "distinct (map snd (ac_slots c) @ ac_free c @ pend)" using M by (metis distinct_upt mset_eq_imp_distinct_iff)
  show "length (ac_slots c) + length (ac_free c) + length pend = ac_max_plans c"
    using arg_cong[OF M, of size] by simp
  have "set (map snd (ac_slots c) @ ac_free c @ pend) = {0..<ac_max_plans c}" using mset_eq_setD[OF M] by simp
  then show "s \<in> set pend \<Longrightarrow> s < ac_max_plans c" "(k, s) \<in> set (ac_slots c) \<Longrightarrow> s < ac_max_plans c" by force+
qed

lemma plan_ok_cong:
  assumes "ac_timesteps c' s = ac_timesteps c s" and "ac_params c' s = ac_params c s"
    and "ac_num_layers c' = ac_num_layers c" and "ac_max_plan_width c' = ac_max_plan_width c"
  shows "plan_ok env c' k s = plan_ok env c k s"
  using assms by (simp add: plan_ok_def)

text \<open>Only slots, free list and lengths change while slots are reserved.\<close>

definition same_slab :: "'v adaln_cache \<Rightarrow> 'v adaln_cache \<Rightarrow> bool" where
  "same_slab c c' \<longleftrightarrow> c'\<lparr>ac_slots := [], ac_free := [], ac_lengths := (\<lambda>_. 0)\<rparr> = c\<lparr>ac_slots := [], ac_free := [], ac_lengths := (\<lambda>_. 0)\<rparr>"

lemma same_slab_simps [simp]: "same_slab c c" "same_slab c (c\<lparr>ac_slots := sl\<rparr>)" "same_slab c (c\<lparr>ac_free := fr\<rparr>)"
  "same_slab c (c\<lparr>ac_slots := sl, ac_free := fr, ac_lengths := le\<rparr>)"
  by (simp_all add: same_slab_def)

lemma same_slab_trans: "same_slab c c' \<Longrightarrow> same_slab c' c'' \<Longrightarrow> same_slab c c''"
  by (simp add: same_slab_def)

lemma same_slabD:
  assumes "same_slab c c'"
  shows "ac_timesteps c' = ac_timesteps c" "ac_params c' = ac_params c" "ac_num_layers c' = ac_num_layers c"
    "ac_max_plan_width c' = ac_max_plan_width c" "ac_max_plans c' = ac_max_plans c" "ac_host c' = ac_host c"
    "plan_ok env c' = plan_ok env c" "ac_shape c' = ac_shape c"
proof -
  have "ac_timesteps c' = ac_timesteps c \<and> ac_params c' = ac_params c \<and> ac_num_layers c' = ac_num_layers c \<and>
    ac_max_plan_width c' = ac_max_plan_width c \<and> ac_max_plans c' = ac_max_plans c \<and> ac_host c' = ac_host c \<and> ac_shape c' = ac_shape c"
    using assms by (cases c, cases c') (simp add: same_slab_def)
  then show "ac_timesteps c' = ac_timesteps c" "ac_params c' = ac_params c" "ac_num_layers c' = ac_num_layers c"
    "ac_max_plan_width c' = ac_max_plan_width c" "ac_max_plans c' = ac_max_plans c" "ac_host c' = ac_host c"
    "plan_ok env c' = plan_ok env c" "ac_shape c' = ac_shape c"
    by (simp_all add: plan_ok_def[abs_def])
qed

section \<open>Reserving slots\<close>

lemma touch_inv:
  assumes "slots_inv env pend c"
  shows "slots_inv env pend (touch k c) \<and> same_slab c (touch k c) \<and> set (ac_slots (touch k c)) = set (ac_slots c) \<and>
    ac_free (touch k c) = ac_free c"
proof -
  have m: "mset (move_to_end k (ac_slots c)) = mset (ac_slots c)" by (rule move_to_end_mset) (rule slots_invD(1)[OF assms])
  have M: "mset (map snd (move_to_end k (ac_slots c))) = mset (map snd (ac_slots c))" by (metis m mset_map)
  have S: "set (move_to_end k (ac_slots c)) = set (ac_slots c)" by (rule mset_eq_setD[OF m])
  have D: "distinct (map fst (move_to_end k (ac_slots c)))"
    using slots_invD(1)[OF assms] by (metis m mset_map mset_eq_imp_distinct_iff)
  have same: "same_slab c (touch k c)" by (simp add: touch_def)
  have "slots_inv env pend (touch k c)"
  proof (rule slots_invI)
    fix j s assume "(j, s) \<in> set (ac_slots (touch k c))"
    then show "ac_lengths (touch k c) s = length j \<and> plan_ok env (touch k c) j s"
      unfolding same_slabD(7)[OF same] using slots_invD(4)[OF assms, of j s] S by (simp add: touch_def)
  qed (use slots_invD(1-3)[OF assms] M D in \<open>simp_all add: touch_def\<close>)
  then show ?thesis using same S by (simp add: touch_def)
qed

lemma fold_touch_inv:
  "slots_inv env pend c \<Longrightarrow> slots_inv env pend (fold touch ks c) \<and> same_slab c (fold touch ks c) \<and>
     set (ac_slots (fold touch ks c)) = set (ac_slots c) \<and> ac_free (fold touch ks c) = ac_free c"
proof (induction ks arbitrary: c)
  case (Cons k ks)
  show ?case using touch_inv[OF Cons.prems, of k] Cons.IH[of "touch k c"] same_slab_trans[of c "touch k c"] by simp
qed simp

lemma map_of_same:
  "distinct (map fst xs) \<Longrightarrow> distinct (map fst ys) \<Longrightarrow> set xs = set ys \<Longrightarrow> map_of xs k = map_of ys k"
  by (metis map_of_eq_Some_iff not_None_eq)

lemma mset_remove_key:
  assumes "distinct (map fst d)" and "(k, v) \<in> set d"
  shows "mset d = add_mset (k, v) (mset (filter (\<lambda>p. fst p \<noteq> k) d))"
  using move_to_end_mset[OF assms(1), of k] assms by (simp add: move_to_end_def)

lemma evict_plan_inv:
  assumes inv: "slots_inv env pend c" and k: "k \<in> fst ` set (ac_slots c)"
  shows "slots_inv env pend (evict_plan k c) \<and> same_slab c (evict_plan k c) \<and>
    ac_slots (evict_plan k c) = filter (\<lambda>p. fst p \<noteq> k) (ac_slots c) \<and> length (ac_free (evict_plan k c)) = Suc (length (ac_free c))"
proof -
  note d = slots_invD(1)[OF inv]
  obtain s where s: "(k, s) \<in> set (ac_slots c)" using k by force
  then have m: "map_of (ac_slots c) k = Some s" using d by simp
  let ?sl = "filter (\<lambda>p. fst p \<noteq> k) (ac_slots c)"
  have eq: "evict_plan k c = c\<lparr>ac_slots := ?sl, ac_free := ac_free c @ [s], ac_lengths := (ac_lengths c)(s := 0)\<rparr>"
    using m by (simp add: evict_plan_def)
  then have same: "same_slab c (evict_plan k c)" by simp
  note a = slots_apart(1)[OF inv]
  have "mset (map snd (ac_slots c)) = add_mset s (mset (map snd ?sl))"
    using arg_cong[OF mset_remove_key[OF d s], of "image_mset snd"] by simp
  then have M: "mset (map snd ?sl @ (ac_free c @ [s]) @ pend) = mset [0..<ac_max_plans c]" using slots_invD(2)[OF inv] by simp
  then have D: "distinct (map snd ?sl @ (ac_free c @ [s]) @ pend)" by (metis distinct_upt mset_eq_imp_distinct_iff)
  have "slots_inv env pend (evict_plan k c)"
  proof (rule slots_invI)
    fix j t assume jt: "(j, t) \<in> set (ac_slots (evict_plan k c))"
    then have "t \<noteq> s" using D eq by force
    then show "ac_lengths (evict_plan k c) t = length j \<and> plan_ok env (evict_plan k c) j t"
      unfolding same_slabD(7)[OF same] using jt slots_invD(4)[OF inv, of j t] eq by simp
  next
    fix t assume "t \<in> set (ac_free (evict_plan k c) @ pend)"
    then show "ac_lengths (evict_plan k c) t = 0" using slots_invD(3)[OF inv, of t] eq by auto
  qed (use d M eq in \<open>simp_all add: distinct_map_filter\<close>)
  then show ?thesis using same by (simp add: eq)
qed

lemma fold_evict_inv:
  assumes "slots_inv env pend c" and "distinct ks" and "set ks \<subseteq> fst ` set (ac_slots c)"
  shows "slots_inv env pend (fold evict_plan ks c) \<and> same_slab c (fold evict_plan ks c) \<and>
    ac_slots (fold evict_plan ks c) = filter (\<lambda>p. fst p \<notin> set ks) (ac_slots c) \<and>
    length (ac_free (fold evict_plan ks c)) = length (ac_free c) + length ks"
  using assms
proof (induction ks arbitrary: c)
  case (Cons k ks)
  have E: "slots_inv env pend (evict_plan k c) \<and> same_slab c (evict_plan k c) \<and>
    ac_slots (evict_plan k c) = filter (\<lambda>p. fst p \<noteq> k) (ac_slots c) \<and> length (ac_free (evict_plan k c)) = Suc (length (ac_free c))"
    by (rule evict_plan_inv[OF Cons.prems(1)]) (use Cons.prems in simp)
  have "set ks \<subseteq> fst ` set (ac_slots (evict_plan k c))" using E Cons.prems(2,3) by force
  note I = Cons.IH[OF _ _ this]
  have "filter (\<lambda>p. fst p \<notin> set ks) (filter (\<lambda>p. fst p \<noteq> k) (ac_slots c)) = filter (\<lambda>p. fst p \<notin> set (k # ks)) (ac_slots c)"
    by (auto intro!: filter_cong)
  then show ?case using E I Cons.prems(2) same_slab_trans[of c "evict_plan k c"] by simp
qed simp

text \<open>Popping reserves: the slots leave the free list and become pending.\<close>

lemma pop_slots_inv:
  assumes "slots_inv env pend c" and "length ks \<le> length (ac_free c)"
  shows "\<exists>as c'. pop_slots ks c = (Inr as, c') \<and> map fst as = ks \<and> slots_inv env (pend @ map snd as) c' \<and>
    same_slab c c' \<and> ac_slots c' = ac_slots c \<and> ac_lengths c' = ac_lengths c"
  using assms
proof (induction ks arbitrary: pend c)
  case (Cons k ks)
  have ne: "ac_free c \<noteq> []" using Cons.prems(2) by auto
  let ?c = "c\<lparr>ac_free := butlast (ac_free c)\<rparr>" and ?s = "last (ac_free c)"
  have f: "mset (ac_free c) = add_mset ?s (mset (butlast (ac_free c)))" and fs: "set (ac_free c) = insert ?s (set (butlast (ac_free c)))"
    using ne by (metis append_butlast_last_id mset.simps(2) mset_append union_mset_add_mset_right add.right_neutral mset.simps(1),
      metis append_butlast_last_id list.simps(15) rotate1.simps(2) set_rotate1)
  have same: "same_slab c ?c" by simp
  have inv: "slots_inv env (pend @ [?s]) ?c"
  proof (rule slots_invI)
    fix j t assume "(j, t) \<in> set (ac_slots ?c)"
    then show "ac_lengths ?c t = length j \<and> plan_ok env ?c j t"
      unfolding same_slabD(7)[OF same] using slots_invD(4)[OF Cons.prems(1), of j t] by simp
  next
    fix t assume "t \<in> set (ac_free ?c @ pend @ [?s])"
    then show "ac_lengths ?c t = 0" using slots_invD(3)[OF Cons.prems(1), of t] fs by auto
  qed (use slots_invD(1,2)[OF Cons.prems(1)] f in simp_all)
  have "length ks \<le> length (ac_free ?c)" using Cons.prems(2) by simp
  then obtain as c' where as: "pop_slots ks ?c = (Inr as, c')" "map fst as = ks" "slots_inv env ((pend @ [?s]) @ map snd as) c'"
      "same_slab ?c c'" "ac_slots c' = ac_slots ?c" "ac_lengths c' = ac_lengths ?c"
    using Cons.IH[OF inv] by blast
  then show ?case using ne same_slab_trans[OF same as(4)] by (intro exI[of _ "(k, ?s) # as"] exI[of _ c']) simp
qed simp

text \<open>With room for the whole request there are enough other plans to evict: allocation never runs out.\<close>

lemma length_filter_mem:
  assumes "distinct xs" and "distinct ys"
  shows "length (filter (\<lambda>x. x \<in> set ys) xs) = length (filter (\<lambda>y. y \<in> set xs) ys)"
proof -
  have "set (filter (\<lambda>x. x \<in> set ys) xs) = set (filter (\<lambda>y. y \<in> set xs) ys)" by auto
  then show ?thesis using assms by (metis distinct_card distinct_filter)
qed

lemma enough_victims:
  assumes inv: "slots_inv env [] c" and d: "distinct wanted" and fits: "length wanted \<le> ac_max_plans c"
  shows "length (filter (\<lambda>k. map_of (ac_slots c) k = None) wanted) \<le>
    length (filter (\<lambda>k. k \<notin> set wanted) (map fst (ac_slots c))) + length (ac_free c)"
proof -
  let ?keys = "map fst (ac_slots c)"
  have "length (filter (\<lambda>k. k \<in> set ?keys) wanted) + length (filter (\<lambda>k. k \<notin> set ?keys) wanted) = length wanted"
    by (rule sum_length_filter_compl)
  moreover have "length (filter (\<lambda>k. k \<in> set wanted) ?keys) + length (filter (\<lambda>k. k \<notin> set wanted) ?keys) = length ?keys"
    by (rule sum_length_filter_compl)
  moreover have "length (filter (\<lambda>k. k \<in> set wanted) ?keys) = length (filter (\<lambda>k. k \<in> set ?keys) wanted)"
    by (rule length_filter_mem[OF slots_invD(1)[OF inv] d])
  moreover have "filter (\<lambda>k. map_of (ac_slots c) k = None) wanted = filter (\<lambda>k. k \<notin> set ?keys) wanted"
    by (simp add: map_of_eq_None_iff)
  ultimately show ?thesis using slots_apart(2)[OF inv] fits by simp
qed

lemma map_of_filter_key: "map_of (filter (\<lambda>p. fst p \<notin> A) d) k = (if k \<in> A then None else map_of d k)"
  by (induction d) auto

lemma allocate_slots_inv:
  assumes inv: "slots_inv env [] c" and d: "distinct wanted" and fits: "length wanted \<le> ac_max_plans c"
    and missing: "missing = filter (\<lambda>k. map_of (ac_slots c) k = None) wanted"
  shows "\<exists>as c'. allocate_slots wanted missing c = (Inr as, c') \<and> map fst as = missing \<and> slots_inv env (map snd as) c' \<and>
    same_slab c c' \<and> (\<forall>k \<in> set wanted. map_of (ac_slots c') k = map_of (ac_slots c) k)"
proof -
  define c1 where "c1 = fold touch (filter (\<lambda>k. map_of (ac_slots c) k \<noteq> None) wanted) c"
  define victims where "victims = take (length missing - length (ac_free c1)) (filter (\<lambda>k. k \<notin> set wanted) (map fst (ac_slots c1)))"
  note T = fold_touch_inv[OF inv, of "filter (\<lambda>k. map_of (ac_slots c) k \<noteq> None) wanted", folded c1_def]
  have inv1: "slots_inv env [] c1" using T by blast
  have m1: "map_of (ac_slots c1) k = map_of (ac_slots c) k" for k
    by (rule map_of_same) (use T slots_invD(1)[OF inv] slots_invD(1)[OF inv1] in simp_all)
  have max1: "ac_max_plans c1 = ac_max_plans c" using T same_slabD(5) by blast
  have dv: "distinct victims" unfolding victims_def using slots_invD(1)[OF inv1] by simp
  have vs: "set victims \<subseteq> fst ` set (ac_slots c1)" "set victims \<inter> set wanted = {}"
    unfolding victims_def by (auto dest!: in_set_takeD)
  define c2 where "c2 = fold evict_plan victims c1"
  note E = fold_evict_inv[OF inv1 dv vs(1), folded c2_def]
  have "length missing \<le> length (filter (\<lambda>k. k \<notin> set wanted) (map fst (ac_slots c1))) + length (ac_free c1)"
    using enough_victims[OF inv1 d] fits max1 m1 missing by simp
  then have "length missing \<le> length (ac_free c2)" using E by (simp add: victims_def)
  then obtain as c' where as: "pop_slots missing c2 = (Inr as, c')" "map fst as = missing" "slots_inv env ([] @ map snd as) c'"
      "same_slab c2 c'" "ac_slots c' = ac_slots c2" using pop_slots_inv[of env "[]" c2 missing] E by blast
  have "allocate_slots wanted missing c = (Inr as, c')"
    using as(1) unfolding allocate_slots_def Let_def c1_def[symmetric] victims_def[symmetric] c2_def[symmetric] .
  moreover have "same_slab c c'" using T E as(4) same_slab_trans by blast
  moreover have "map_of (ac_slots c') k = map_of (ac_slots c) k" if "k \<in> set wanted" for k
    using that vs(2) E as(5) m1 by (auto simp: map_of_filter_key)
  ultimately show ?thesis using as(2,3) by auto
qed

section \<open>Filling reserved slots\<close>

text \<open>Only the contents of the slots in \<open>pend\<close> change.\<close>

definition written :: "nat list \<Rightarrow> 'v adaln_cache \<Rightarrow> 'v adaln_cache \<Rightarrow> bool" where
  "written pend c c' \<longleftrightarrow> c'\<lparr>ac_timesteps := ac_timesteps c, ac_params := ac_params c\<rparr> = c \<and>
     (\<forall>s. s \<notin> set pend \<longrightarrow> ac_timesteps c' s = ac_timesteps c s \<and> ac_params c' s = ac_params c s)"

lemma written_refl [simp]: "written pend c c"
  by (simp add: written_def)

lemma written_trans: "written pend c c' \<Longrightarrow> written pend c' c'' \<Longrightarrow> written pend c c''"
  by (cases c; cases c'; cases c'') (simp add: written_def)

lemma written_mono: "written pend c c' \<Longrightarrow> set pend \<subseteq> set pend' \<Longrightarrow> written pend' c c'"
  by (auto simp: written_def)

lemma writtenD:
  assumes "written pend c c'"
  shows "ac_slots c' = ac_slots c" "ac_free c' = ac_free c" "ac_lengths c' = ac_lengths c" "ac_host c' = ac_host c"
    "ac_max_plans c' = ac_max_plans c" "ac_max_plan_width c' = ac_max_plan_width c" "ac_num_layers c' = ac_num_layers c"
    "ac_shape c' = ac_shape c"
  using assms by (cases c; cases c'; simp add: written_def)+

lemma written_inv:
  assumes inv: "slots_inv env pend c" and w: "written pend c c'"
  shows "slots_inv env pend c'"
proof (rule slots_invI)
  fix k s assume ks: "(k, s) \<in> set (ac_slots c')"
  then have "(k, s) \<in> set (ac_slots c)" using writtenD[OF w] by simp
  moreover from this have "s \<notin> set pend" using slots_apart(1)[OF inv] by force
  then have "plan_ok env c' k s = plan_ok env c k s"
    by (intro plan_ok_cong) (use w writtenD[OF w] in \<open>simp_all add: written_def\<close>)
  ultimately show "ac_lengths c' s = length k \<and> plan_ok env c' k s" using slots_invD(4)[OF inv] writtenD[OF w] by simp
qed (use slots_invD(1-3)[OF inv] writtenD[OF w] in simp_all)

lemma give_back_inv: "slots_inv env (map snd as) c \<Longrightarrow> slots_inv env [] (give_back as c)"
proof -
  assume inv: "slots_inv env (map snd as) c"
  have same: "same_slab c (give_back as c)" by (simp add: give_back_def)
  show ?thesis
  proof (rule slots_invI)
    fix k s assume "(k, s) \<in> set (ac_slots (give_back as c))"
    then show "ac_lengths (give_back as c) s = length k \<and> plan_ok env (give_back as c) k s"
      unfolding same_slabD(7)[OF same] using slots_invD(4)[OF inv, of k s] by (simp add: give_back_def)
  next
    fix s assume "s \<in> set (ac_free (give_back as c) @ [])"
    then show "ac_lengths (give_back as c) s = 0" using slots_invD(3)[OF inv, of s] by (simp add: give_back_def)
  qed (use slots_invD(1,2)[OF inv] in \<open>simp_all add: give_back_def\<close>)
qed

lemma fold_lengths_other: "s \<notin> snd ` set as \<Longrightarrow> fold (\<lambda>(k, s) f. f(s := length k)) as f s = f s"
  by (induction as arbitrary: f) auto

lemma fold_lengths:
  "distinct (map snd as) \<Longrightarrow> (k, s) \<in> set as \<Longrightarrow> fold (\<lambda>(k, s) f. f(s := length k)) as f s = length k"
  by (induction as arbitrary: f) (auto simp: fold_lengths_other)

lemma commit_inv:
  assumes inv: "slots_inv env (map snd as) c" and d: "distinct (map fst as)" and new: "fst ` set as \<inter> fst ` set (ac_slots c) = {}"
    and ok: "\<forall>(k, s) \<in> set as. plan_ok env c k s"
  shows "slots_inv env [] (commit_slots as c)"
proof -
  note a = slots_apart(1)[OF inv]
  have da: "distinct (map snd as)" using a by simp
  have po: "plan_ok env (commit_slots as c) = plan_ok env c" by (simp add: commit_slots_def plan_ok_def[abs_def])
  have ls: "ac_lengths (commit_slots as c) = fold (\<lambda>(k, s) f. f(s := length k)) as (ac_lengths c)" by (simp add: commit_slots_def)
  show ?thesis
  proof (rule slots_invI)
    fix k s assume "(k, s) \<in> set (ac_slots (commit_slots as c))"
    then consider "(k, s) \<in> set as" | "(k, s) \<in> set (ac_slots c)" "s \<notin> snd ` set as"
      using a by (force simp: commit_slots_def)
    then show "ac_lengths (commit_slots as c) s = length k \<and> plan_ok env (commit_slots as c) k s"
      unfolding po ls using slots_invD(4)[OF inv, of k s] ok fold_lengths[OF da] fold_lengths_other[of s as] by cases auto
  next
    fix s assume s: "s \<in> set (ac_free (commit_slots as c) @ [])"
    then have "s \<notin> snd ` set as" using a by (force simp: commit_slots_def)
    then show "ac_lengths (commit_slots as c) s = 0"
      unfolding ls fold_lengths_other[OF \<open>s \<notin> snd ` set as\<close>] using slots_invD(3)[OF inv, of s] s by (simp add: commit_slots_def)
  qed (use slots_invD(1,2)[OF inv] d new in \<open>auto simp: commit_slots_def ac_simps\<close>)
qed

text \<open>Timesteps of the reserved slots.\<close>

lemma write_timesteps_written: "written [s] c (write_timesteps s k c)" "ac_params (write_timesteps s k c) = ac_params c"
  "i < length k \<Longrightarrow> ac_timesteps (write_timesteps s k c) s i = k ! i"
  by (simp_all add: written_def write_timesteps_def)

lemma write_all_timesteps:
  assumes "distinct (map snd as)"
  shows "written (map snd as) c (fold (\<lambda>(k, s). write_timesteps s k) as c) \<and>
    ac_params (fold (\<lambda>(k, s). write_timesteps s k) as c) = ac_params c \<and>
    (\<forall>(k, s) \<in> set as. \<forall>i < length k. ac_timesteps (fold (\<lambda>(k, s). write_timesteps s k) as c) s i = k ! i)"
  using assms
proof (induction as arbitrary: c)
  case (Cons a as)
  obtain k s where a: "a = (k, s)" by (cases a)
  let ?c = "write_timesteps s k c" and ?f = "fold (\<lambda>(k, s). write_timesteps s k) as"
  have I: "written (map snd as) ?c (?f ?c) \<and> ac_params (?f ?c) = ac_params ?c \<and>
      (\<forall>(k, s) \<in> set as. \<forall>i < length k. ac_timesteps (?f ?c) s i = k ! i)"
    by (rule Cons.IH) (use Cons.prems in simp)
  have "s \<notin> set (map snd as)" using Cons.prems a by simp
  then have "ac_timesteps (?f ?c) s = ac_timesteps ?c s" using I unfolding written_def by blast
  then have "\<forall>i < length k. ac_timesteps (?f ?c) s i = k ! i" using write_timesteps_written(3) by metis
  moreover have "written (map snd (a # as)) c (?f ?c)"
    by (rule written_trans[OF written_mono[OF write_timesteps_written(1)] written_mono[OF conjunct1[OF I]]]) (auto simp: a)
  ultimately show ?case using I write_timesteps_written(2)[of s k c] a by simp
qed simp

text \<open>Pages of the host tier into the reserved slots.\<close>

lemma fold_row_nth: "i < length pages \<Longrightarrow> fold (\<lambda>(i, page) row. row(i := v page)) (enumerate n pages) row (n + i) = v (pages ! i)"
proof (induction pages arbitrary: n row i)
  case (Cons q pages)
  have before: "m < n' \<Longrightarrow> fold (\<lambda>(i, page) row. row(i := v page)) (enumerate n' ps) r m = r m" for m n' ps r
    by (induction ps arbitrary: n' r) simp_all
  show ?case
  proof (cases i)
    case 0
    then show ?thesis using before[of n "Suc n" pages "row(n := v q)"] by (simp del: fun_upd_apply) simp
  next
    case (Suc j)
    then show ?thesis using Cons.IH[of j "Suc n" "row(n := v q)"] Cons.prems by simp
  qed
qed simp

definition copy_fails :: "('e, 'v) adaln_env \<Rightarrow> py_error \<Rightarrow> bool" where
  "copy_fails env e \<longleftrightarrow> (\<exists>s i. ae_copy env s i = Inl e)"

lemma amap_step:
  assumes "f x c = (Inr y, c1)" and "amap f xs c1 = (q, c2)"
  shows "amap f (x # xs) c = (case q of Inl e \<Rightarrow> Inl e | Inr ys \<Rightarrow> Inr (y # ys), c2)"
  using assms by (cases q) (simp_all add: abind_def areturn_def)

lemma copy_pages_written:
  assumes "amap (copy_page env h s) ps c = (r, c')"
  shows "written [s] c c' \<and> ac_timesteps c' = ac_timesteps c \<and> (\<forall>e. r = Inl e \<longrightarrow> copy_fails env e) \<and>
    (\<forall>u. r = Inr u \<longrightarrow> ac_params c' s = fold (\<lambda>(i, page) row. row(i := ht_slab h page)) ps (ac_params c s))"
  using assms
proof (induction ps arbitrary: c r c')
  case (Cons a ps)
  obtain i page where a: "a = (i, page)" by (cases a)
  show ?case
  proof (cases "ae_copy env s i")
    case (Inl e)
    then show ?thesis using Cons.prems by (auto simp: a copy_page_def copy_fails_def)
  next
    case (Inr u)
    let ?c = "c\<lparr>ac_params := (ac_params c)(s := (ac_params c s)(i := ht_slab h page))\<rparr>"
    obtain q c1 where q: "amap (copy_page env h s) ps ?c = (q, c1)" by (cases "amap (copy_page env h s) ps ?c")
    have first: "copy_page env h s a c = (Inr (), ?c)" using Inr by (simp add: a copy_page_def)
    have "written [s] c ?c" by (simp add: written_def)
    moreover have "r = (case q of Inl e \<Rightarrow> Inl e | Inr us \<Rightarrow> Inr (() # us))" "c' = c1"
      using amap_step[OF first q] Cons.prems by simp_all
    ultimately show ?thesis using Cons.IH[OF q] written_trans[of "[s]" c ?c c1] by (cases q) (auto simp: a fun_upd_same simp del: fun_upd_apply)
  qed
qed simp

lemma copy_plan_written:
  assumes inv: "host_inv env x h" and k: "k \<in> fst ` set (ht_plans h)" and run: "copy_plan env h (k, s) c = (r, c')"
  shows "written [s] c c' \<and> ac_timesteps c' = ac_timesteps c \<and> (\<forall>e. r = Inl e \<longrightarrow> copy_fails env e) \<and>
    (\<forall>u. r = Inr u \<longrightarrow> row_ok env (ht_num_layers h) k (ac_params c' s))"
proof -
  obtain p where p: "(k, p) \<in> set (ht_plans h)" using k by force
  then have m: "map_of (ht_plans h) k = Some p" using map_of_plan[OF inv] by blast
  note P = host_invD(5)[OF inv p]
  obtain q where q: "amap (copy_page env h s) (enumerate 0 (hp_pages p)) c = (q, c')" "case q of Inl e \<Rightarrow> r = Inl e | Inr _ \<Rightarrow> r = Inr ()"
    using run m by (cases "amap (copy_page env h s) (enumerate 0 (hp_pages p)) c") (auto simp: copy_plan_def abind_def areturn_def split: sum.splits)
  note W = copy_pages_written[OF q(1)]
  have "row_ok env (ht_num_layers h) k (ac_params c' s)" if "q = Inr u" for u
  proof -
    have "row_ok env (ht_num_layers h) k (ac_params c' s) = row_ok env (ht_num_layers h) k (\<lambda>i. ht_slab h (hp_pages p ! i))"
    proof (rule row_ok_cong)
      fix i assume "i < length k"
      then show "ac_params c' s i = ht_slab h (hp_pages p ! i)"
        using fold_row_nth[of i "hp_pages p" "ht_slab h" 0 "ac_params c s"] P W that by simp
    qed
    then show ?thesis using P by simp
  qed
  then show ?thesis using W q(2) by (cases q) auto
qed

lemma copy_all_plans:
  assumes "host_inv env x h" and "fst ` set as \<subseteq> fst ` set (ht_plans h)" and "distinct (map snd as)"
    and "amap (copy_plan env h) as c = (r, c')"
  shows "written (map snd as) c c' \<and> ac_timesteps c' = ac_timesteps c \<and> (\<forall>e. r = Inl e \<longrightarrow> copy_fails env e) \<and>
    (\<forall>u. r = Inr u \<longrightarrow> (\<forall>(k, s) \<in> set as. row_ok env (ht_num_layers h) k (ac_params c' s)))"
  using assms(2-4)
proof (induction as arbitrary: c r c')
  case (Cons a as)
  obtain k s where a: "a = (k, s)" by (cases a)
  obtain q c1 where q: "copy_plan env h (k, s) c = (q, c1)" by (cases "copy_plan env h (k, s) c")
  have W: "written [s] c c1 \<and> ac_timesteps c1 = ac_timesteps c \<and> (\<forall>e. q = Inl e \<longrightarrow> copy_fails env e) \<and>
      (\<forall>u. q = Inr u \<longrightarrow> row_ok env (ht_num_layers h) k (ac_params c1 s))"
    by (rule copy_plan_written[OF assms(1) _ q]) (use Cons.prems a in simp)
  have W1: "written (map snd (a # as)) c c1" by (rule written_mono[OF conjunct1[OF W]]) (simp add: a)
  show ?case
  proof (cases q)
    case (Inl e)
    then show ?thesis using Cons.prems(3) q a W W1 by auto
  next
    case (Inr u)
    obtain q' c2 where q': "amap (copy_plan env h) as c1 = (q', c2)" by (cases "amap (copy_plan env h) as c1")
    have I: "written (map snd as) c1 c2 \<and> ac_timesteps c2 = ac_timesteps c1 \<and> (\<forall>e. q' = Inl e \<longrightarrow> copy_fails env e) \<and>
        (\<forall>u. q' = Inr u \<longrightarrow> (\<forall>(k, s) \<in> set as. row_ok env (ht_num_layers h) k (ac_params c2 s)))"
      by (rule Cons.IH[OF _ _ q']) (use Cons.prems in simp_all)
    have "s \<notin> set (map snd as)" using Cons.prems a by simp
    then have s: "ac_params c2 s = ac_params c1 s" using I unfolding written_def by blast
    have w: "written (map snd (a # as)) c c2" by (rule written_trans[OF W1 written_mono[OF conjunct1[OF I]]]) auto
    have "r = (case q' of Inl e \<Rightarrow> Inl e | Inr us \<Rightarrow> Inr (u # us))" "c' = c2"
      using amap_step[of "copy_plan env h", OF q[unfolded Inr] q'] Cons.prems(3) a by simp_all
    then show ?thesis using I W w s Inr a by (cases q') auto
  qed
qed simp

text \<open>Embeddings and projections.\<close>

definition embedded :: "('e, 'v) adaln_env \<Rightarrow> (plan_key \<times> nat) list \<Rightarrow> (nat \<times> nat \<times> 'e) list \<Rightarrow> bool" where
  "embedded env as slots \<longleftrightarrow> list_all2 (\<lambda>(k, s) (s', n, x). s' = s \<and> n = length k \<and> ae_embed env k = Inr x) as slots"

lemma embed_plans_written:
  assumes "distinct (map snd as)" and "\<forall>k \<in> fst ` set as. \<exists>x. ae_embed env k = Inr x"
  shows "\<exists>slots. embed_plans env as c = (Inr slots, fold (\<lambda>(k, s). write_timesteps s k) as c) \<and> embedded env as slots"
  using assms
proof (induction as arbitrary: c)
  case (Cons a as)
  obtain k s x where a: "a = (k, s)" and x: "ae_embed env k = Inr x" using Cons.prems(2) by (cases a) auto
  obtain slots where "embed_plans env as (write_timesteps s k c) = (Inr slots, fold (\<lambda>(k, s). write_timesteps s k) as (write_timesteps s k c))"
    "embedded env as slots" using Cons.IH[of "write_timesteps s k c"] Cons.prems by auto
  then show ?case using a x by (intro exI[of _ "(s, length k, x) # slots"]) (simp add: embedded_def)
qed (simp add: embedded_def)

lemma embedded_slots: "embedded env as slots \<Longrightarrow> map fst slots = map snd as"
  unfolding embedded_def by (induction rule: list_all2_induct) auto

definition projected :: "('e, 'v) adaln_env \<Rightarrow> nat \<Rightarrow> (nat \<times> nat \<times> 'e) list \<Rightarrow> 'v adaln_cache \<Rightarrow> bool" where
  "projected env l slots c \<longleftrightarrow>
     (\<forall>(s, n, x) \<in> set slots. \<exists>rows. ae_project env l x = Inr rows \<and> (\<forall>i < n. ac_params c s i l = rows i))"

text \<open>One pass over the slots writes one layer; on an error some slots keep their old contents.\<close>

definition layers_kept :: "nat set \<Rightarrow> 'v adaln_cache \<Rightarrow> 'v adaln_cache \<Rightarrow> bool" where
  "layers_kept ls c c' \<longleftrightarrow> ac_timesteps c' = ac_timesteps c \<and> (\<forall>s i l. l \<notin> ls \<longrightarrow> ac_params c' s i l = ac_params c s i l)"

lemma project_plan_written:
  assumes "project_plan env l (s, n, x) c = (r, c')"
  shows "written [s] c c' \<and> layers_kept {l} c c' \<and> (\<forall>u. r = Inr u \<longrightarrow> projected env l [(s, n, x)] c')"
  using assms by (cases "ae_project env l x") (auto simp: project_plan_def written_def layers_kept_def projected_def)

lemma project_layer_written:
  assumes "amap (project_plan env l) slots c = (r, c')" and "distinct (map fst slots)"
  shows "written (map fst slots) c c' \<and> layers_kept {l} c c' \<and> (\<forall>u. r = Inr u \<longrightarrow> projected env l slots c')"
  using assms
proof (induction slots arbitrary: c r c')
  case Nil
  then show ?case by (simp add: layers_kept_def projected_def)
next
  case (Cons a slots)
  obtain s n x where a: "a = (s, n, x)" by (cases a)
  obtain q c1 where q: "project_plan env l (s, n, x) c = (q, c1)" by (cases "project_plan env l (s, n, x) c")
  note W = project_plan_written[OF q]
  have W1: "written (map fst (a # slots)) c c1" by (rule written_mono[OF conjunct1[OF W]]) (simp add: a)
  show ?case
  proof (cases q)
    case (Inl e)
    then show ?thesis using Cons.prems(1) q a W W1 by auto
  next
    case (Inr u)
    obtain q' c2 where q': "amap (project_plan env l) slots c1 = (q', c2)" by (cases "amap (project_plan env l) slots c1")
    have I: "written (map fst slots) c1 c2 \<and> layers_kept {l} c1 c2 \<and> (\<forall>u. q' = Inr u \<longrightarrow> projected env l slots c2)"
      by (rule Cons.IH[OF q']) (use Cons.prems(2) in simp)
    have c2: "c' = c2" and r: "(\<exists>u. r = Inr u) \<longleftrightarrow> (\<exists>u. q' = Inr u)" using amap_Cons_Inr[OF q[unfolded Inr] q'] Cons.prems(1) a by blast+
    have "s \<notin> set (map fst slots)" using Cons.prems(2) a by simp
    then have "ac_params c2 s = ac_params c1 s" using I unfolding written_def by blast
    then have "projected env l [(s, n, x)] c2" using W Inr by (simp add: projected_def)
    then have "\<forall>u. r = Inr u \<longrightarrow> projected env l (a # slots) c2" using I r a by (auto simp: projected_def)
    moreover have "written (map fst (a # slots)) c c2"
      by (rule written_trans[OF W1 written_mono[OF conjunct1[OF I]]]) auto
    moreover have "layers_kept {l} c c2" using W I by (simp add: layers_kept_def)
    ultimately show ?thesis using c2 by simp
  qed
qed

lemma project_layers_written:
  assumes "amap (\<lambda>l. amap (project_plan env l) slots) ls c = (r, c')" and "distinct (map fst slots)" and "distinct ls"
  shows "written (map fst slots) c c' \<and> layers_kept (set ls) c c' \<and> (\<forall>u. r = Inr u \<longrightarrow> (\<forall>l \<in> set ls. projected env l slots c'))"
  using assms
proof (induction ls arbitrary: c r c')
  case Nil
  then show ?case by (simp add: layers_kept_def)
next
  case (Cons l ls)
  obtain q c1 where q: "amap (project_plan env l) slots c = (q, c1)" by (cases "amap (project_plan env l) slots c")
  note W = project_layer_written[OF q Cons.prems(2)]
  show ?case
  proof (cases q)
    case (Inl e)
    then show ?thesis using Cons.prems(1) q W by (auto simp: layers_kept_def)
  next
    case (Inr u)
    obtain q' c2 where q': "amap (\<lambda>l. amap (project_plan env l) slots) ls c1 = (q', c2)"
      by (cases "amap (\<lambda>l. amap (project_plan env l) slots) ls c1")
    have I: "written (map fst slots) c1 c2 \<and> layers_kept (set ls) c1 c2 \<and> (\<forall>u. q' = Inr u \<longrightarrow> (\<forall>l \<in> set ls. projected env l slots c2))"
      by (rule Cons.IH[OF q' Cons.prems(2)]) (use Cons.prems(3) in simp)
    have c2: "c' = c2" and r: "(\<exists>u. r = Inr u) \<longleftrightarrow> (\<exists>u. q' = Inr u)" using amap_Cons_Inr[of "\<lambda>l. amap (project_plan env l) slots", OF q[unfolded Inr] q' Cons.prems(1)] by blast+
    have "projected env l slots c2" using W I Inr Cons.prems(3) by (fastforce simp: projected_def layers_kept_def)
    then have "\<forall>u. r = Inr u \<longrightarrow> (\<forall>l \<in> set (l # ls). projected env l slots c2)" using I r by auto
    moreover have "written (map fst slots) c c2" using W I written_trans by blast
    moreover have "layers_kept (set (l # ls)) c c2" using W I by (simp add: layers_kept_def)
    ultimately show ?thesis using c2 by simp
  qed
qed

section \<open>Filling the cache for a request\<close>

lemma slots_inv_stats [simp]: "slots_inv env pend (c\<lparr>ac_gpu_hits := n\<rparr>) = slots_inv env pend c"
  "slots_inv env pend (c\<lparr>ac_host_hits := n\<rparr>) = slots_inv env pend c" "slots_inv env pend (c\<lparr>ac_built := n\<rparr>) = slots_inv env pend c"
  "slots_inv env pend (c\<lparr>ac_rebuilds := n\<rparr>) = slots_inv env pend c" "slots_inv env pend (c\<lparr>ac_host := h\<rparr>) = slots_inv env pend c"
  by (simp_all add: slots_inv_def plan_ok_def)

text \<open>What every path to a filled cache gives: the slab is in order and the request's plans are resident.\<close>

definition sizes_kept :: "'v adaln_cache \<Rightarrow> 'v adaln_cache \<Rightarrow> bool" where
  "sizes_kept c c' \<longleftrightarrow> ac_max_plans c' = ac_max_plans c \<and> ac_max_plan_width c' = ac_max_plan_width c \<and>
     ac_num_layers c' = ac_num_layers c \<and> ac_host c' = ac_host c \<and> ac_shape c' = ac_shape c"

definition resident :: "'v adaln_cache \<Rightarrow> plan_key list \<Rightarrow> bool" where
  "resident c ks \<longleftrightarrow> (\<forall>k \<in> set ks. map_of (ac_slots c) k \<noteq> None)"

lemma sizes_kept_intros: "same_slab c c' \<Longrightarrow> sizes_kept c c'" "written pend c c' \<Longrightarrow> sizes_kept c c'" "sizes_kept c (commit_slots as c)"
    "sizes_kept c (give_back as c)" "sizes_kept c c' \<Longrightarrow> sizes_kept c' c'' \<Longrightarrow> sizes_kept c c''"
  by (simp_all add: sizes_kept_def same_slabD writtenD commit_slots_def give_back_def)

lemma commit_filled:
  assumes as: "map fst as = missing" "slots_inv env (map snd as) c1" "\<forall>k \<in> set wanted. map_of (ac_slots c1) k = map_of (ac_slots c) k"
    and missing: "missing = filter (\<lambda>k. map_of (ac_slots c) k = None) wanted" and d: "distinct wanted"
    and w: "written (map snd as) c1 c2" and ok: "\<forall>(k, s) \<in> set as. plan_ok env c2 k s"
  shows "slots_inv env [] (commit_slots as c2) \<and> resident (commit_slots as c2) wanted"
proof -
  have inv2: "slots_inv env (map snd as) c2" by (rule written_inv[OF as(2) w])
  have keys: "fst ` set as = set missing" using as(1) by (metis set_map)
  have "map_of (ac_slots c2) k = None" if "k \<in> set missing" for k using that as(3) missing writtenD(1)[OF w] by simp
  then have "fst ` set as \<inter> fst ` set (ac_slots c2) = {}" unfolding keys map_of_eq_None_iff by blast
  from commit_inv[OF inv2 _ this ok] have "slots_inv env [] (commit_slots as c2)" using as(1) d missing by simp
  moreover have "map_of (ac_slots (commit_slots as c2)) k \<noteq> None" if "k \<in> set wanted" for k
  proof (cases "k \<in> set missing")
    case True
    then show ?thesis using keys by (simp add: commit_slots_def map_of_eq_None_iff)
  next
    case False
    then have "map_of (ac_slots c2) k \<noteq> None" using that as(3) missing writtenD(1)[OF w] by simp
    then show ?thesis by (auto simp: commit_slots_def map_add_def split: option.splits)
  qed
  ultimately show ?thesis by (simp add: resident_def)
qed

definition fits :: "'v adaln_cache \<Rightarrow> plan_key list \<Rightarrow> bool" where
  "fits c wanted \<longleftrightarrow> length wanted \<le> ac_max_plans c \<and> (\<forall>k \<in> set wanted. length k \<le> ac_max_plan_width c)"

lemma swap_in_filled:
  assumes inv: "slots_inv env [] c" and d: "distinct wanted" and f: "fits c wanted"
    and missing: "missing = filter (\<lambda>k. map_of (ac_slots c) k = None) wanted"
    and h: "host_inv env x h" "ht_num_layers h = ac_num_layers c" "has_all h missing"
    and run: "swap_in_from_host env h wanted missing c = (r, c')"
  shows "slots_inv env [] c' \<and> sizes_kept c c' \<and> (\<forall>u. r = Inr u \<longrightarrow> resident c' wanted) \<and> (\<forall>e. r = Inl e \<longrightarrow> copy_fails env e)"
proof -
  obtain as c1 where as: "allocate_slots wanted missing c = (Inr as, c1)" "map fst as = missing" "slots_inv env (map snd as) c1"
      "same_slab c c1" "\<forall>k \<in> set wanted. map_of (ac_slots c1) k = map_of (ac_slots c) k"
    using allocate_slots_inv[OF inv d _ missing] f by (auto simp: fits_def)
  have da: "distinct (map snd as)" using slots_apart(1)[OF as(3)] by simp
  have keys: "fst ` set as = set missing" using as(2) by (metis set_map)
  define c2 where "c2 = fold (\<lambda>(k, s). write_timesteps s k) as c1"
  note T = write_all_timesteps[OF da, of c1, folded c2_def]
  obtain q c3 where q: "amap (copy_plan env h) as c2 = (q, c3)" by (cases "amap (copy_plan env h) as c2")
  have C: "written (map snd as) c2 c3 \<and> ac_timesteps c3 = ac_timesteps c2 \<and> (\<forall>e. q = Inl e \<longrightarrow> copy_fails env e) \<and>
      (\<forall>u. q = Inr u \<longrightarrow> (\<forall>(k, s) \<in> set as. row_ok env (ht_num_layers h) k (ac_params c3 s)))"
    by (rule copy_all_plans[OF h(1) _ da q]) (use keys h(3) in \<open>simp add: has_all_iff\<close>)
  have w: "written (map snd as) c1 c3" using T C written_trans by blast
  have sz: "sizes_kept c c3" using sizes_kept_intros(1)[OF as(4)] sizes_kept_intros(2)[OF w] sizes_kept_intros(5) by blast
  show ?thesis
  proof (cases q)
    case (Inl e)
    then have "r = Inl e" "c' = give_back as c3" using run as(1) q
      by (simp_all add: swap_in_from_host_def on_error_def copy_to_gpu_def abind_def c2_def)
    moreover have "slots_inv env [] (give_back as c3)" by (rule give_back_inv[OF written_inv[OF as(3) w]])
    ultimately show ?thesis using C Inl sz sizes_kept_intros(4,5) by blast
  next
    case (Inr u)
    have "plan_ok env c3 k s" if "(k, s) \<in> set as" for k s
    proof -
      have "k \<in> set wanted" using that keys missing by (metis filter_is_subset fst_conv image_eqI subsetD)
      then show ?thesis using that T C Inr h(2) f sz by (auto simp: plan_ok_def fits_def sizes_kept_def)
    qed
    then have F: "slots_inv env [] (commit_slots as c3) \<and> resident (commit_slots as c3) wanted"
      using commit_filled[OF as(2,3,5) missing d w] by blast
    have "r = Inr ()" "c' = (commit_slots as c3)\<lparr>ac_host_hits := ac_host_hits c3 + length missing\<rparr>" using run as(1) q Inr
      by (simp_all add: swap_in_from_host_def on_error_def copy_to_gpu_def abind_def c2_def areturn_def)
    moreover have "sizes_kept c (commit_slots as c3)" using sz sizes_kept_intros(3,5) by blast
    ultimately show ?thesis using F by (simp add: resident_def sizes_kept_def)
  qed
qed

text \<open>A rebuild whose embeddings succeed: the slab is in order whether the projection raises or not.\<close>

lemma embedded_row:
  assumes "embedded env as slots" and "\<forall>l \<in> set [0..<Suc L]. projected env l slots c" and "(k, s) \<in> set as"
  shows "row_ok env L k (ac_params c s)"
proof -
  obtain x where x: "(s, length k, x) \<in> set slots" "ae_embed env k = Inr x"
    using assms(1,3) unfolding embedded_def list_all2_conv_all_nth by (fastforce simp: in_set_conv_nth)
  have "plan_value env k i l = Some (ac_params c s i l)" if "i < length k" "l \<le> L" for i l
  proof -
    have "l \<in> set [0..<Suc L]" using that(2) by auto
    then have "projected env l slots c" using assms(2) by blast
    then obtain rows where "ae_project env l x = Inr rows" "\<forall>i < length k. ac_params c s i l = rows i"
      using x(1) unfolding projected_def by fastforce
    then show ?thesis using x(2) that(1) by (simp add: plan_value_def)
  qed
  then show ?thesis by (simp add: row_ok_def)
qed

lemma project_error:
  assumes "amap (\<lambda>l. amap (project_plan env l) slots) ls c = (Inl e, c')" and "embedded env as slots"
  shows "\<exists>k \<in> fst ` set as. \<exists>x. \<exists>l \<in> set ls. ae_embed env k = Inr x \<and> ae_project env l x = Inl e"
proof -
  obtain l c1 where l: "l \<in> set ls" "amap (project_plan env l) slots c1 = (Inl e, c')" using amap_Inl[OF assms(1)] by blast
  obtain s n x c2 where x: "(s, n, x) \<in> set slots" "project_plan env l (s, n, x) c2 = (Inl e, c')" using amap_Inl[OF l(2)] by auto
  have "ae_project env l x = Inl e" using x(2) by (auto simp: project_plan_def act_simps)
  moreover have "\<exists>k. k \<in> fst ` set as \<and> ae_embed env k = Inr x"
    using assms(2) x(1) unfolding embedded_def list_all2_conv_all_nth in_set_conv_nth
    by (metis (mono_tags, lifting) case_prod_conv image_eqI nth_mem surj_pair fst_conv)
  ultimately show ?thesis using l(1) by blast
qed

lemma rebuild_filled:
  assumes inv: "slots_inv env [] c" and d: "distinct wanted" and f: "fits c wanted"
    and missing: "missing = filter (\<lambda>k. map_of (ac_slots c) k = None) wanted"
    and emb: "\<forall>k \<in> set missing. \<exists>x. ae_embed env k = Inr x" and run: "rebuild env wanted missing c = (r, c')"
  shows "slots_inv env [] c' \<and> sizes_kept c c' \<and> (\<forall>u. r = Inr u \<longrightarrow> resident c' wanted) \<and>
    (\<forall>e. r = Inl e \<longrightarrow> (\<exists>k \<in> set missing. \<exists>x l. ae_embed env k = Inr x \<and> l \<le> ac_num_layers c \<and> ae_project env l x = Inl e))"
proof -
  obtain as c1 where as: "allocate_slots wanted missing c = (Inr as, c1)" "map fst as = missing" "slots_inv env (map snd as) c1"
      "same_slab c c1" "\<forall>k \<in> set wanted. map_of (ac_slots c1) k = map_of (ac_slots c) k"
    using allocate_slots_inv[OF inv d _ missing] f by (auto simp: fits_def)
  have da: "distinct (map snd as)" using slots_apart(1)[OF as(3)] by simp
  have keys: "fst ` set as = set missing" using as(2) by (metis set_map)
  define c2 where "c2 = fold (\<lambda>(k, s). write_timesteps s k) as c1"
  note T = write_all_timesteps[OF da, of c1, folded c2_def]
  obtain slots where slots: "embed_plans env as c1 = (Inr slots, c2)" "embedded env as slots"
    using embed_plans_written[OF da, of env c1] emb keys c2_def by auto
  have ds: "map fst slots = map snd as" by (rule embedded_slots[OF slots(2)])
  obtain q c3 where q: "amap (\<lambda>l. amap (project_plan env l) slots) [0..<Suc (ac_num_layers c2)] c2 = (q, c3)"
    by (cases "amap (\<lambda>l. amap (project_plan env l) slots) [0..<Suc (ac_num_layers c2)] c2")
  have P: "written (map snd as) c2 c3 \<and> layers_kept (set [0..<Suc (ac_num_layers c2)]) c2 c3 \<and>
      (\<forall>u. q = Inr u \<longrightarrow> (\<forall>l \<in> set [0..<Suc (ac_num_layers c2)]. projected env l slots c3))"
    using project_layers_written[OF q] da ds by simp
  have w: "written (map snd as) c1 c3" using T P written_trans by blast
  have sz: "sizes_kept c c3" "sizes_kept c c2"
    using sizes_kept_intros(1)[OF as(4)] sizes_kept_intros(2)[OF w] sizes_kept_intros(2)[OF conjunct1[OF T]] sizes_kept_intros(5) by blast+
  show ?thesis
  proof (cases q)
    case (Inl e)
    then have "r = Inl e" "c' = give_back as c3" using run as(1) slots(1) q
      by (simp_all add: rebuild_def on_error_def project_plans_from_checkpoint_def abind_def)
    moreover have "slots_inv env [] (give_back as c3)" by (rule give_back_inv[OF written_inv[OF as(3) w]])
    moreover have "\<exists>k \<in> set missing. \<exists>x l. ae_embed env k = Inr x \<and> l \<le> ac_num_layers c \<and> ae_project env l x = Inl e"
    proof -
      obtain k x l where e: "k \<in> set missing" "l \<in> set [0..<Suc (ac_num_layers c2)]" "ae_embed env k = Inr x" "ae_project env l x = Inl e"
        using project_error[OF q[unfolded Inl] slots(2)] unfolding keys by blast
      moreover have "l \<le> ac_num_layers c" using e(2) sz(2) by (auto simp: sizes_kept_def)
      ultimately show ?thesis by blast
    qed
    ultimately show ?thesis using sz sizes_kept_intros(4,5) by blast
  next
    case (Inr u)
    then have r: "r = Inr ()" "c' = (commit_slots as c3)\<lparr>ac_rebuilds := Suc (ac_rebuilds c3), ac_built := ac_built c3 + length missing\<rparr>"
      using run as(1) slots(1) q by (simp_all add: rebuild_def on_error_def project_plans_from_checkpoint_def abind_def)
    have "plan_ok env c3 k s" if "(k, s) \<in> set as" for k s
    proof -
      have "k \<in> set wanted" using that keys missing by (metis filter_is_subset fst_conv image_eqI subsetD)
      moreover have "row_ok env (ac_num_layers c2) k (ac_params c3 s)" by (rule embedded_row[OF slots(2) _ that]) (use P Inr in blast)
      ultimately show ?thesis using that T P f sz by (auto simp: plan_ok_def fits_def sizes_kept_def layers_kept_def)
    qed
    then have "slots_inv env [] (commit_slots as c3) \<and> resident (commit_slots as c3) wanted"
      using commit_filled[OF as(2,3,5) missing d w] by blast
    moreover have "sizes_kept c (commit_slots as c3)" using sz sizes_kept_intros(3,5) by blast
    ultimately show ?thesis using r by (simp add: resident_def sizes_kept_def)
  qed
qed

section \<open>The whole cache\<close>

definition cache_inv :: "('e, 'v) adaln_env \<Rightarrow> 'v adaln_cache \<Rightarrow> bool" where
  "cache_inv env c \<longleftrightarrow> slots_inv env [] c \<and> ac_shape c = (ac_max_plans c, ac_max_plan_width c) \<and>
     (\<forall>h. ac_host c = Some h \<longrightarrow> host_inv env (\<lambda>_. 0) h \<and> ht_num_layers h = ac_num_layers c)"

lemma first_keys_simps [simp]: "distinct (first_keys ks)" "set (first_keys ks) = set ks"
  by (simp_all add: first_keys_def)

lemma resident_first [simp]: "resident c (first_keys ks) = resident c ks"
  by (simp add: resident_def)

lemma on_host_inv:
  assumes "cache_inv env c" and "\<And>h. host_inv env (\<lambda>_. 0) h \<Longrightarrow> ht_num_layers h = ac_num_layers c \<Longrightarrow> host_inv env (\<lambda>_. 0) (f h) \<and> ht_num_layers (f h) = ht_num_layers h"
  shows "cache_inv env (on_host f c)"
  using assms by (auto simp: cache_inv_def on_host_def)

lemma on_host_simps [simp]: "ac_slots (on_host f c) = ac_slots c" "ac_max_plans (on_host f c) = ac_max_plans c"
  "ac_max_plan_width (on_host f c) = ac_max_plan_width c" "ac_num_layers (on_host f c) = ac_num_layers c"
  "resident (on_host f c) ks = resident c ks" "ac_params (on_host f c) = ac_params c"
  by (simp_all add: on_host_def resident_def)

lemma register_inv: "cache_inv env c \<Longrightarrow> distinct keys \<Longrightarrow> cache_inv env (on_host (register_group g keys) c)"
  by (erule on_host_inv) (rule register_group_inv)

lemma group_entries_keys: "resident c wanted \<Longrightarrow> map fst (group_entries wanted c) = wanted"
  by (induction wanted) (auto simp: group_entries_def resident_def)

lemma group_entries_mem: "(k, s, n) \<in> set (group_entries wanted c) \<Longrightarrow> n = length k \<and> map_of (ac_slots c) k = Some s"
  by (auto simp: group_entries_def split: option.splits)

lemma store_inv:
  assumes inv: "cache_inv env c" and "resident c wanted" and "distinct wanted"
  shows "cache_inv env (on_host (store_group g (group_entries wanted c) (ac_params c)) c)"
proof (rule on_host_inv[OF inv])
  fix h assume h: "host_inv env (\<lambda>_. 0) h" "ht_num_layers h = ac_num_layers c"
  have "n = length k \<and> row_ok env (ht_num_layers h) k (ac_params c s)" if "(k, s, n) \<in> set (group_entries wanted c)" for k s n
  proof -
    have "n = length k" "(k, s) \<in> set (ac_slots c)" using group_entries_mem[OF that] by (auto dest: map_of_SomeD)
    then show ?thesis using inv slots_invD(4)[of env "[]" c k s] h(2) by (simp add: cache_inv_def plan_ok_def)
  qed
  then show "host_inv env (\<lambda>_. 0) (store_group g (group_entries wanted c) (ac_params c) h) \<and>
      ht_num_layers (store_group g (group_entries wanted c) (ac_params c) h) = ht_num_layers h"
    by (intro store_group_inv[OF h(1)]) (use assms(3) group_entries_keys[OF assms(2)] in auto)
qed

lemma cache_inv_sizes: "slots_inv env [] c' \<Longrightarrow> sizes_kept c c' \<Longrightarrow> cache_inv env c \<Longrightarrow> cache_inv env c'"
  by (simp add: cache_inv_def sizes_kept_def)

definition projection_fails :: "('e, 'v) adaln_env \<Rightarrow> nat \<Rightarrow> plan_key list \<Rightarrow> py_error \<Rightarrow> bool" where
  "projection_fails env L keys e \<longleftrightarrow> (\<exists>k \<in> set keys. \<exists>x l. ae_embed env k = Inr x \<and> l \<le> L \<and> ae_project env l x = Inl e)"

lemma build_inv:
  assumes inv: "cache_inv env c" and emb: "\<forall>k \<in> set keys. \<exists>x. ae_embed env k = Inr x" and run: "build env keys c = (r, c')"
  shows "cache_inv env c' \<and> ac_max_plans c' = ac_max_plans c \<and> ac_max_plan_width c' = ac_max_plan_width c \<and> ac_num_layers c' = ac_num_layers c \<and>
    (\<forall>u. r = Inr u \<longrightarrow> resident c' keys) \<and>
    (\<forall>e. r = Inl e \<longrightarrow> c' = c \<and> \<not> fits c (first_keys keys) \<or> projection_fails env (ac_num_layers c) keys e \<or> copy_fails env e)"
proof -
  let ?w = "first_keys keys" and ?c = "c\<lparr>ac_gpu_hits := ac_gpu_hits c + (length (first_keys keys) - length (filter (\<lambda>k. map_of (ac_slots c) k = None) (first_keys keys)))\<rparr>"
  define missing where "missing = filter (\<lambda>k. map_of (ac_slots c) k = None) ?w"
  have inv0: "slots_inv env [] ?c" "cache_inv env ?c" and m: "missing = filter (\<lambda>k. map_of (ac_slots ?c) k = None) ?w"
    using inv by (simp_all add: cache_inv_def missing_def)
  have keys: "set missing \<subseteq> set keys" by (auto simp: missing_def)
  have too_many: "list_ex (\<lambda>k. ac_max_plan_width c < length k) ?w \<longleftrightarrow> (\<exists>k \<in> set ?w. ac_max_plan_width c < length k)"
    by (simp add: list_ex_iff)
  consider "missing = []" | "missing \<noteq> []" "\<not> fits c ?w" | "missing \<noteq> []" "fits c ?w" by blast
  then show ?thesis
  proof cases
    case 1
    note T = fold_touch_inv[of env "[]" c ?w]
    have "slots_inv env [] (fold touch ?w c)" "sizes_kept c (fold touch ?w c)" "set (ac_slots (fold touch ?w c)) = set (ac_slots c)"
      using T inv sizes_kept_intros(1) unfolding cache_inv_def by blast+
    then have "cache_inv env ((fold touch ?w c)\<lparr>ac_gpu_hits := ac_gpu_hits c + length ?w\<rparr>)" "resident (fold touch ?w c) ?w"
      using inv 1 by (simp_all add: cache_inv_def sizes_kept_def resident_def missing_def filter_empty_conv map_of_eq_None_iff)
    then show ?thesis using run 1 register_inv[of env "(fold touch ?w c)\<lparr>ac_gpu_hits := ac_gpu_hits c + length ?w\<rparr>" ?w ?w]
        \<open>sizes_kept c (fold touch ?w c)\<close>
      by (auto simp: build_def missing_def[symmetric] Let_def sizes_kept_def resident_def)
  next
    case 2
    then have "r = Inl (ValueError ''MiniMax H3 AdaLN rebuild needs more plans than the slab holds'') \<and> c' = c \<or>
        r = Inl (ValueError ''MiniMax H3 AdaLN rebuild hit a plan wider than the slab'') \<and> c' = c"
      using run too_many by (auto simp: build_def missing_def[symmetric] Let_def fits_def split: if_splits)
    then show ?thesis using inv 2 by auto
  next
    case 3
    then have f: "fits ?c ?w" and guards: "\<not> ac_max_plans c < length ?w" "\<not> list_ex (\<lambda>k. ac_max_plan_width c < length k) ?w"
      by (simp_all add: fits_def list_ex_iff linorder_not_less)
    have hc: "ac_host ?c = ac_host c" by simp
    have go: "build env keys c = (case ac_host c of
        Some h \<Rightarrow> if has_all h missing then abind (swap_in_from_host env h ?w missing) (\<lambda>_. aupdate (on_host (register_group ?w ?w))) ?c
          else abind (rebuild env ?w missing) (\<lambda>_. aupdate (\<lambda>c. on_host (store_group ?w (group_entries ?w c) (ac_params c)) c)) ?c
      | None \<Rightarrow> rebuild env ?w missing ?c)"
      using 3(1) guards unfolding build_def Let_def missing_def by (simp only: if_False hc)
    have emb': "\<forall>k \<in> set missing. \<exists>x. ae_embed env k = Inr x" using emb keys by blast
    show ?thesis
    proof (cases "\<exists>h. ac_host c = Some h \<and> has_all h missing")
      case True
      then obtain h where h: "ac_host c = Some h" "has_all h missing" by blast
      obtain q c1 where q: "swap_in_from_host env h ?w missing ?c = (q, c1)" by (cases "swap_in_from_host env h ?w missing ?c")
      note S = swap_in_filled[OF inv0(1) first_keys_simps(1) f m, of "\<lambda>_. 0" h q c1]
      have c1: "slots_inv env [] c1" "sizes_kept ?c c1" "\<forall>u. q = Inr u \<longrightarrow> resident c1 ?w" "\<forall>e. q = Inl e \<longrightarrow> copy_fails env e"
        using S h q inv by (auto simp: cache_inv_def)
      have inv1: "cache_inv env c1" by (rule cache_inv_sizes[OF c1(1,2) inv0(2)])
      have c': "r = q \<and> c' = (if isl q then c1 else on_host (register_group ?w ?w) c1)"
        using run go h q by (cases q) auto
      then have "cache_inv env c'" using inv1 register_inv[OF inv1 first_keys_simps(1), of ?w] by (cases q) simp_all
      then show ?thesis using c' c1 by (cases q) (auto simp: sizes_kept_def)
    next
      case False
      obtain q c1 where q: "rebuild env ?w missing ?c = (q, c1)" by (cases "rebuild env ?w missing ?c")
      note R = rebuild_filled[OF inv0(1) first_keys_simps(1) f m emb' q]
      have inv1: "cache_inv env c1" using cache_inv_sizes[OF _ _ inv0(2)] R by blast
      have err: "projection_fails env (ac_num_layers c) keys e" if "q = Inl e" for e
        using R that keys unfolding projection_fails_def by force
      have "r = q" and c': "c' = c1 \<or> (\<exists>u. q = Inr u) \<and> c' = on_host (store_group ?w (group_entries ?w c1) (ac_params c1)) c1"
        using run go False q by (cases q; simp add: abind_def split: option.splits)+
      moreover have "cache_inv env c'" using c' inv1 store_inv[OF inv1 _ first_keys_simps(1)] R by blast
      ultimately show ?thesis using R err by (auto simp: sizes_kept_def)
    qed
  qed
qed

section \<open>Histories of the cache\<close>

text \<open>Whether copies succeed does not matter to what the slots must hold.\<close>

lemma cache_inv_copy [simp]: "cache_inv (env\<lparr>ae_copy := cp\<rparr>) c = cache_inv env c"
proof -
  have v: "plan_value (env\<lparr>ae_copy := cp\<rparr>) = plan_value env" by (intro ext) (simp add: plan_value_def split: sum.split)
  have r: "row_ok (env\<lparr>ae_copy := cp\<rparr>) = row_ok env" by (intro ext) (simp add: row_ok_def v)
  show ?thesis by (simp add: cache_inv_def slots_inv_def plan_ok_def host_inv_def r)
qed

lemma load_rebuild_inv: "cache_inv env (load_rebuild p w L zero bytes (host_init L n slab))"
  by (auto simp: cache_inv_def slots_inv_def load_rebuild_def host_clear_inv(2) split: if_splits) (simp add: host_init_def)

lemma invalidate_inv: "cache_inv env c \<Longrightarrow> cache_inv env' (invalidate c)"
  by (auto simp: cache_inv_def slots_inv_def invalidate_def on_host_def host_clear_inv(1)) (simp add: host_clear_def)

text \<open>A server's life on the rebuild path: load, serve requests whose timesteps can be embedded (their projections and
  their copies from the host tier may raise, the copies differently in each request), and swap the weights, which
  invalidates.\<close>

inductive adaln_reach :: "nat \<Rightarrow> nat \<Rightarrow> nat \<Rightarrow> ('e, 'v) adaln_env \<Rightarrow> 'v adaln_cache \<Rightarrow> bool" for p w L where
  start: "adaln_reach p w L env (load_rebuild p w L zero bytes (host_init L n slab))"
| request: "adaln_reach p w L env c \<Longrightarrow> \<forall>k \<in> set keys. \<exists>x. ae_embed env k = Inr x \<Longrightarrow>
    prepare_adaln_plans (env\<lparr>ae_copy := cp\<rparr>) True keys c = (r, c') \<Longrightarrow> adaln_reach p w L env c'"
| swap: "adaln_reach p w L env c \<Longrightarrow> adaln_reach p w L env' (invalidate c)"

lemma prepare_state:
  assumes "prepare_adaln_plans env True keys c = (r, c')"
  shows "\<exists>q. build env keys c = (q, c') \<and> (case q of Inl e \<Rightarrow> r = Inl e | Inr _ \<Rightarrow> r = resolve_slots c' keys)"
  using assms by (cases "build env keys c") (auto simp: prepare_adaln_plans_def abind_def split: sum.splits)

lemma reach_inv:
  assumes "adaln_reach p w L env c"
  shows "cache_inv env c \<and> ac_max_plans c = p \<and> ac_max_plan_width c = w \<and> ac_num_layers c = L"
  using assms
proof (induction rule: adaln_reach.induct)
  case (start env zero bytes n slab)
  then show ?case using load_rebuild_inv[of env p w L zero bytes n slab] by (simp add: load_rebuild_def)
next
  case (request env c keys cp r c')
  then obtain q where q: "build (env\<lparr>ae_copy := cp\<rparr>) keys c = (q, c')" using prepare_state by blast
  show ?case using build_inv[OF _ _ q] request.IH request.hyps(2) by (simp add: cache_inv_copy)
next
  case (swap env c env')
  then show ?case using invalidate_inv[of env c env'] by (simp add: invalidate_def on_host_def)
qed

lemma resolve_resident: "resident c keys \<Longrightarrow> resolve_slots c keys = Inr (map (\<lambda>k. the (map_of (ac_slots c) k)) keys)"
  by (induction keys) (auto simp: resolve_slots_def resident_def)

lemma resolved_plan:
  assumes inv: "cache_inv env c" and res: "resident c keys" and k: "k \<in> set keys"
  shows "the (map_of (ac_slots c) k) < ac_max_plans c \<and> ac_lengths c (the (map_of (ac_slots c) k)) = length k \<and>
    plan_ok env c k (the (map_of (ac_slots c) k))"
proof -
  obtain s where s: "map_of (ac_slots c) k = Some s" using res k by (auto simp: resident_def)
  then have "(k, s) \<in> set (ac_slots c)" by (rule map_of_SomeD)
  then show ?thesis using s inv slots_apart(4)[of env "[]" c k s] slots_invD(4)[of env "[]" c k s] by (simp add: cache_inv_def)
qed

lemma prepare_ok:
  assumes inv: "cache_inv env c" and emb: "\<forall>k \<in> set keys. \<exists>x. ae_embed env k = Inr x"
    and run: "prepare_adaln_plans env True keys c = (r, c')"
  shows "cache_inv env c' \<and> ac_max_plans c' = ac_max_plans c \<and> ac_num_layers c' = ac_num_layers c \<and>
    (\<forall>slots. r = Inr slots \<longrightarrow> resident c' keys \<and> slots = map (\<lambda>k. the (map_of (ac_slots c') k)) keys) \<and>
    (\<forall>e. r = Inl e \<longrightarrow> c' = c \<and> \<not> fits c (first_keys keys) \<or> projection_fails env (ac_num_layers c) keys e \<or> copy_fails env e)"
proof -
  obtain q where q: "build env keys c = (q, c')" "case q of Inl e \<Rightarrow> r = Inl e | Inr _ \<Rightarrow> r = resolve_slots c' keys"
    using prepare_state[OF run] by blast
  note B = build_inv[OF inv emb q(1)]
  show ?thesis
  proof (cases q)
    case (Inl e)
    then show ?thesis using q B by auto
  next
    case (Inr u)
    then have "resident c' keys" using B by blast
    then show ?thesis using q(2) Inr B resolve_resident[of c' keys] by simp
  qed
qed

section \<open>Lookup on the device\<close>

lemma slot_cases:
  assumes "slots_inv env [] c" and "s < ac_max_plans c" and "ac_lengths c s \<noteq> 0"
  shows "\<exists>k. map_of (ac_slots c) k = Some s"
proof -
  have "s \<in> set (map snd (ac_slots c) @ ac_free c @ [])" using mset_eq_setD[OF slots_invD(2)[OF assms(1)]] assms(2) by simp
  then obtain k where "(k, s) \<in> set (ac_slots c)" using slots_invD(3)[OF assms(1), of s] assms(3) by auto
  then show ?thesis using slots_invD(1)[OF assms(1)] by auto
qed

lemma fp32_eq_nonzero: "fp32_eq a b \<Longrightarrow> fp32_magnitude b \<noteq> 0 \<Longrightarrow> a = b"
  by (auto simp: fp32_eq_def)

lemma lookup_resident:
  assumes inv: "cache_inv env c" and s: "map_of (ac_slots c) k = Some s" and ne: "k \<noteq> []" and num: "\<forall>t \<in> set k. \<not> fp32_nan t"
  shows "\<exists>s' k'. lookup_plan c k = Inr s' \<and> map_of (ac_slots c) k' = Some s' \<and> list_all2 fp32_eq k' k"
proof -
  have si: "slots_inv env [] c" and sh: "ac_shape c = (ac_max_plans c, ac_max_plan_width c)" using inv by (simp_all add: cache_inv_def)
  note P = slots_invD(4)[OF si map_of_SomeD[OF s]]
  have lt: "s < ac_max_plans c" using slots_apart(4)[OF si map_of_SomeD[OF s]] .
  have "plan_matches c k s" using P num by (auto simp: plan_matches_def plan_ok_def list_all_iff fp32_eq_def)
  then obtain s' where s': "find (plan_matches c k) [0..<ac_max_plans c] = Some s'"
    using lt by (cases "find (plan_matches c k) [0..<ac_max_plans c]") (auto simp: find_None_iff)
  then have m: "plan_matches c k s'" "s' < ac_max_plans c" by (auto simp: find_Some_iff)
  have len: "ac_lengths c s' = length k" using m(1) by (simp add: plan_matches_def)
  then obtain k' where k': "map_of (ac_slots c) k' = Some s'" using slot_cases[OF si m(2)] ne by auto
  note P' = slots_invD(4)[OF si map_of_SomeD[OF k']]
  have "list_all2 fp32_eq k' k" unfolding list_all2_conv_all_nth
    using m(1) P' len by (auto simp: plan_matches_def plan_ok_def list_all_iff)
  moreover have "lookup_plan c k = Inr s'" using s' P sh by (simp add: lookup_plan_def plan_ok_def)
  ultimately show ?thesis using k' by blast
qed

lemma lookup_resolves:
  assumes "cache_inv env c" and s: "map_of (ac_slots c) k = Some s" and "k \<noteq> []" and "\<forall>t \<in> set k. \<not> fp32_nan t \<and> fp32_magnitude t \<noteq> 0"
  shows "lookup_plan c k = Inr s"
proof -
  obtain s' k' where l: "lookup_plan c k = Inr s'" "map_of (ac_slots c) k' = Some s'" "list_all2 fp32_eq k' k"
    using lookup_resident[OF assms(1-3)] assms(4) by blast
  have "k' = k" using l(3) assms(4) fp32_eq_nonzero
    by (intro nth_equalityI) (auto simp: list_all2_conv_all_nth)
  then show ?thesis using l s by simp
qed

section \<open>Gathered parameters\<close>

lemma drop_concat_uniform:
  assumes "\<forall>r \<in> set rows. length r = W" and "i < length rows" and "q \<le> W"
  shows "drop (i * W + q) (concat rows) = drop q (rows ! i) @ concat (drop (Suc i) rows)"
  using assms
proof (induction rows arbitrary: i)
  case (Cons r rows)
  show ?case
  proof (cases i)
    case 0
    then show ?thesis using Cons.prems by simp
  next
    case (Suc j)
    then show ?thesis using Cons.IH[of j] Cons.prems by (simp add: add.assoc)
  qed
qed simp

lemma length_concat_uniform: "\<forall>r \<in> set rows. length r = W \<Longrightarrow> length (concat rows) = length rows * W"
  by (induction rows) simp_all

text \<open>Part \<open>j\<close> of the gathered rows at the combined index of timestep \<open>i\<close> and modality \<open>m\<close> is that part of row \<open>i\<close>.\<close>

lemma unbind_parts_entry:
  assumes rows: "\<forall>r \<in> set rows. length r = M * (parts * hidden)" and pos: "0 < hidden" "0 < parts"
    and i: "i < length rows" and m: "m < M" and j: "j < parts"
  shows "length (unbind_parts parts hidden (concat rows) ! j) = length rows * M \<and>
    unbind_parts parts hidden (concat rows) ! j ! (i * M + m) = take hidden (drop ((parts * m + j) * hidden) (rows ! i))"
proof -
  have len: "length (concat rows) div (parts * hidden) = length rows * M"
    using length_concat_uniform[OF rows] pos by simp
  have "i * M + m < Suc i * M" using m by simp
  also have "\<dots> \<le> length rows * M" using i by (intro mult_right_mono) auto
  finally have t: "i * M + m < length rows * M" .
  have "parts * m + j < parts * Suc m" using j by simp
  also have "\<dots> \<le> parts * M" using m by (intro mult_left_mono) auto
  finally have "Suc (parts * m + j) \<le> parts * M" by simp
  then have q: "(parts * m + j) * hidden + hidden \<le> M * (parts * hidden)"
    using mult_right_mono[of "Suc (parts * m + j)" "parts * M" hidden] by (simp add: ac_simps)
  have off: "(parts * (i * M + m) + j) * hidden = i * (M * (parts * hidden)) + (parts * m + j) * hidden"
    by (simp add: algebra_simps)
  have "drop ((parts * (i * M + m) + j) * hidden) (concat rows) = drop ((parts * m + j) * hidden) (rows ! i) @ concat (drop (Suc i) rows)"
    unfolding off by (rule drop_concat_uniform[OF rows i add_leD1[OF q]])
  moreover have "length (rows ! i) = M * (parts * hidden)" using rows i by simp
  ultimately show ?thesis using t j q by (simp add: unbind_parts_def len)
qed

lemma block_all_entry:
  assumes "\<forall>i < n. length (ac_params c s i l) = M * (6 * hidden)" and "n \<le> snd (ac_shape c)" and "l < ac_num_layers c" and "0 < hidden"
    and "i < n" and "m < M" and "j < 6"
  shows "length (block_all hidden c s n ! l ! j) = n * M \<and>
    block_all hidden c s n ! l ! j ! (i * M + m) = take hidden (drop ((6 * m + j) * hidden) (ac_params c s i l))"
  using unbind_parts_entry[of "map (\<lambda>i. ac_params c s i l) [0..<n]" M 6 hidden i m j] assms
  by (simp add: block_all_def gather_rows_def min_def split: if_splits)

section \<open>Sizing and weight updates\<close>

lemma pin_pages_le: "pin_pages pins n = Some m \<Longrightarrow> 0 < m \<and> m \<le> n \<and> pins m"
proof (induction pins n rule: pin_pages.induct)
  case (1 pins n)
  then show ?case by (cases "n = 0"; cases "pins n") (subst (asm) pin_pages.simps; force)+
qed

lemma pin_pages_None: "pin_pages pins n = None \<Longrightarrow> 0 < n \<Longrightarrow> \<not> pins n"
  by (subst (asm) pin_pages.simps) (simp split: if_splits)

lemma host_pages_fit:
  assumes "host_pages pins capacity budget page_bytes = (pinned, n)" and "0 < page_bytes"
  shows "int n * page_bytes \<le> max 0 (min capacity budget) \<and> (pinned \<longrightarrow> pins n)"
proof -
  let ?w = "nat (max 0 (min capacity budget) div page_bytes)"
  have n: "n \<le> ?w \<and> (pinned \<longrightarrow> pins n)"
    using assms(1) pin_pages_le[of pins ?w] by (auto simp: host_pages_def allocate_host_slab_def split: option.splits)
  then have "int n \<le> max 0 (min capacity budget) div page_bytes" using assms(2) by (simp add: le_nat_iff pos_imp_zdiv_nonneg_iff)
  then have "int n * page_bytes \<le> (max 0 (min capacity budget) div page_bytes) * page_bytes" using assms(2) by (intro mult_right_mono) auto
  also have "\<dots> \<le> max 0 (min capacity budget)" using assms(2) by (simp add: div_mult_mod_eq minus_mod_eq_div_mult[symmetric])
  finally show ?thesis using n by simp
qed

lemma budget_shared:
  assumes "1 \<le> ranks"
  shows "ranks * host_cache_budget_bytes available reserve min_reserve ranks \<le> max 0 (available - max reserve min_reserve)"
proof -
  let ?a = "max 0 (available - max reserve min_reserve)"
  have "ranks * (?a div ranks) = ?a - ?a mod ranks" by (simp add: minus_mod_eq_mult_div)
  moreover have "0 \<le> ?a mod ranks" using assms by simp
  moreover have "max 1 ranks = ranks" using assms by simp
  ultimately show ?thesis unfolding host_cache_budget_bytes_def by (metis diff_ge_0_iff_ge diff_diff_eq2 add_diff_cancel_left')
qed

lemma refresh_inv:
  assumes "refresh_weight_derived_caches isdir files names (Some am) path = Inr m" and "cache_inv env (am_cache am)"
  shows "\<exists>p am'. path = Some p \<and> m = Some am' \<and> am_weight_files am' = Some (files p) \<and> isdir p \<and> files p \<noteq> [] \<and>
    (\<exists>f \<in> set (files p). ''blocks.0.adaln_proj.linear.weight'' \<in> set (names f)) \<and>
    ac_slots (am_cache am') = [] \<and> cache_inv env' (am_cache am')"
  using assms invalidate_inv[OF assms(2), of env']
  by (auto simp: refresh_weight_derived_caches_def validate_weight_update_source_def native_adaln_weight_files_def invalidate_def
      list_ex_iff split: option.splits sum.splits if_splits)

section \<open>A prebuilt sidecar\<close>

lemma map_of_dict_set: "map_of (dict_set k v d) = (map_of d)(k \<mapsto> v)"
  by (induction d) (auto simp: fun_eq_iff)

lemma find_snoc: "find P (ys @ [x]) = (case find P ys of Some y \<Rightarrow> Some y | None \<Rightarrow> if P x then Some x else None)"
  by (induction ys) auto

lemma map_of_fold_dict_set:
  "map_of (fold (\<lambda>s. dict_set (f s) s) xs d) k = (case find (\<lambda>s. f s = k) (rev xs) of Some s \<Rightarrow> Some s | None \<Rightarrow> map_of d k)"
proof (induction xs arbitrary: d)
  case (Cons x xs)
  show ?case using Cons.IH[of "dict_set (f x) x d"] by (auto simp: map_of_dict_set find_snoc split: option.splits)
qed simp

text \<open>Every row of a loaded sidecar resolves to the last row with the same timesteps.\<close>

lemma sidecar_slots:
  assumes "load_sidecar variant bw fw (Some sc) c = Inr c'" and "ac_slots c = []" and "s < fst (ac_shape c')"
  shows "\<exists>s'. map_of (ac_slots c') (sidecar_key sc s) = Some s' \<and> s \<le> s' \<and> s' < fst (ac_shape c') \<and> sidecar_key sc s' = sidecar_key sc s \<and>
    ac_lengths c' s' = length (sidecar_key sc s) \<and> (\<forall>i < ac_lengths c' s'. ac_timesteps c' s' i = sidecar_key sc s ! i)"
proof -
  let ?rows = "ft_shape (sc_timesteps sc) ! 0" and ?f = "sidecar_key sc"
  have c': "ac_slots c' = fold (\<lambda>s. dict_set (?f s) s) [0..<?rows] []" "ac_shape c' = (?rows, ft_shape (sc_timesteps sc) ! 1)"
    "ac_timesteps c' = ft_data (sc_timesteps sc)" "ac_lengths c' = (\<lambda>s. nat (ft_data (sc_lengths sc) s))"
    using assms(1,2) by (auto simp: load_sidecar_def Let_def split: if_splits)
  have lt: "s < ?rows" using assms(3) c'(2) by simp
  obtain s' where s': "find (\<lambda>t. ?f t = ?f s) (rev [0..<?rows]) = Some s'"
    using lt by (cases "find (\<lambda>t. ?f t = ?f s) (rev [0..<?rows])") (auto simp: find_None_iff)
  then obtain i where i: "i < ?rows" "?f (rev [0..<?rows] ! i) = ?f s" "s' = rev [0..<?rows] ! i" "\<forall>j < i. ?f (rev [0..<?rows] ! j) \<noteq> ?f s"
    unfolding find_Some_iff by auto
  have nth: "rev [0..<?rows] ! j = ?rows - Suc j" if "j < ?rows" for j using that by (simp add: rev_nth)
  have "s \<le> s'"
  proof (rule ccontr)
    assume "\<not> s \<le> s'"
    then have "?rows - Suc s < i" using i(1,3) nth[of i] lt by simp
    moreover have "rev [0..<?rows] ! (?rows - Suc s) = s" using lt nth[of "?rows - Suc s"] by simp
    ultimately show False using i(4) by metis
  qed
  moreover have "s' < ?rows" using i(1,3) nth[of i] by simp
  moreover have f: "?f s' = ?f s" using i(2,3) by simp
  moreover have "ac_lengths c' s' = length (?f s')" "\<forall>i < ac_lengths c' s'. ac_timesteps c' s' i = ?f s' ! i"
    using c' by (simp_all add: sidecar_key_def)
  moreover have "map_of (ac_slots c') (?f s) = Some s'" using s' c' by (simp add: map_of_fold_dict_set)
  ultimately show ?thesis using c'(2) by (metis fst_conv)
qed

section \<open>A failing embedding\<close>

text \<open>\<^verbatim>\<open>build\<close> reserves slots before it embeds, and only the projection is guarded: when the embedding raises, the
  reserved slots are neither free nor resident, and a later request that fits the slab pops an empty free list.\<close>

definition flaky_env :: "(plan_key, int) adaln_env" where
  "flaky_env = \<lparr>ae_embed = (\<lambda>k. if k = [1] then Inl (RuntimeError ''embed'') else Inr k), ae_project = (\<lambda>_ _. Inr (\<lambda>_. 0)),
     ae_copy = (\<lambda>_ _. Inr ())\<rparr>"

definition small_slab :: "int adaln_cache" where
  "small_slab = load_rebuild 1 1 0 0 0 (host_init 0 0 (\<lambda>_ _. 0))"

lemma embed_failure_leaks:
  "fst (prepare_adaln_plans flaky_env True [[2]] small_slab) = Inr [0] \<and>
   (case prepare_adaln_plans flaky_env True [[1]] small_slab of (r, c) \<Rightarrow>
      r = Inl (RuntimeError ''embed'') \<and> ac_slots c = [] \<and> ac_free c = [] \<and>
      fst (prepare_adaln_plans flaky_env True [[2]] c) = Inl IndexError)"
  by code_simp

end
