(* ===== verification/Stage_Preparation.thy ===== *)
theory Stage_Preparation
  imports Release_Metadata Condition_Noise
begin

text \<open>
  \<^verbatim>\<open>stages/timestep_preparation.py\<close> and \<^verbatim>\<open>stages/latent_preparation.py\<close>: from the resolved plan of an admitted
  request to its sigma schedules and its initial noise. The batch record also holds the encoded conditions that the
  denoising stage reads. A payload is a dictionary; its entry \<^verbatim>\<open>rows\<close>, a tensor, is kept beside the other entries.
\<close>

section \<open>The batch of the stages\<close>

record 'f denoise_state =
  ds_video :: "'f tensor"
  ds_audio :: "'f tensor"
  ds_latent_t :: int
  ds_latent_h :: int
  ds_latent_w :: int
  ds_audio_t :: int

record 'f text_embedding =
  te_hidden_states :: "'f rows"
  te_text_len :: pyval
  te_token_tags :: "int list"
  te_video_token_mask :: "bool list option"
  te_refined :: "'f rows option"

record 'f cond_entry =
  ce_meta :: pydict
  ce_rows :: "'f tensor option"

text \<open>A reference payload and its list of entries (\<^verbatim>\<open>images\<close>, \<^verbatim>\<open>audios\<close> or \<^verbatim>\<open>videos\<close>), if it has one.\<close>

record 'f ref_payload =
  rf_self :: "'f cond_entry"
  rf_entries :: "'f cond_entry list option"

record 'f h3_batch =
  hb_extra :: batch_extra
  hb_num_inference_steps :: pyval
  hb_sampling_steps :: pyval
  hb_is_warmup :: bool
  hb_sampling_seed :: pyval
  hb_imgvid_noise_aug :: pyval
  hb_audio_noise_aug :: pyval
  hb_schedules :: "(pyfloat list \<times> pyfloat list) option"
  hb_state :: "'f denoise_state option"
  hb_text :: "'f text_embedding option"
  hb_keyframe :: "'f cond_entry option"
  hb_ref_image :: "'f ref_payload option"
  hb_ref_audio :: "'f ref_payload option"
  hb_ref_video :: "'f ref_payload option"
  hb_sigmas :: "pyfloat list"
  hb_timestep :: "'f option"
  hb_timesteps :: "'f list option"
  hb_latents :: "'f tensor option"
  hb_audio_latents :: "'f tensor option"
  hb_raw_latent_shape :: "int list"
  hb_raw_audio_latent_shape :: "int list"

text \<open>PyTorch as the stages use it: fp32 arithmetic, \<^verbatim>\<open>torch.linspace(1, 0, n)\<close>, \<^verbatim>\<open>Tensor.tolist\<close> of one element, and
  the first draw of a shape from a fresh generator with a seed.\<close>

record 'f torch_env =
  tv_ops :: "'f fp32_ops"
  tv_linspace :: "int \<Rightarrow> 'f list"
  tv_item :: "'f \<Rightarrow> pyfloat"
  tv_randn :: "int \<Rightarrow> nat list \<Rightarrow> 'f list"

definition h3_plan :: "('f h3_batch, resolved_plan option) act" where
  "h3_plan b = (case minimax_h3_plan_from_batch (hb_extra b) of
      Inl e \<Rightarrow> (Inl e, b)
    | Inr (plan, extra) \<Rightarrow> (Inr plan, b\<lparr>hb_extra := extra\<rparr>))"

definition required_plan :: "('f h3_batch, resolved_plan) act" where
  "required_plan = abind h3_plan (\<lambda>plan. case plan of
      None \<Rightarrow> araise (NotImplementedError ''MiniMax H3 contract stage has no implementation yet'')
    | Some p \<Rightarrow> areturn p)"

section \<open>Timestep preparation\<close>

definition requested_num_steps :: "'f h3_batch \<Rightarrow> int res" where
  "requested_num_steps b =
     (let v = hb_num_inference_steps b;
          v = (if v = PNone then hb_sampling_steps b else v);
          v = (if v = PNone then PInt 50 else v)
      in case v of
           PInt n \<Rightarrow> raise_if (n \<le> 0) (ValueError ''num_inference_steps must be a positive integer'') (Inr n)
         | _ \<Rightarrow> Inl (ValueError ''num_inference_steps must be a positive integer''))"

text \<open>The request's value, else the model's, else the task's.\<close>

definition resolved_scale :: "pyval \<Rightarrow> string \<Rightarrow> pyfloat option \<Rightarrow> pyfloat \<Rightarrow> pyfloat res" where
  "resolved_scale model_scales modality request_value task_default =
     (let value = (case request_value of Some x \<Rightarrow> PFloat x | None \<Rightarrow>
            (case model_scales of PDict d \<Rightarrow> dget d modality | _ \<Rightarrow> PNone));
          value = (if value = PNone then PFloat task_default else value)
      in raise_if (\<not> is_number value) (ValueError ''shift must be a positive finite number'')
         (rbind (py_float value) (\<lambda>scale.
          raise_if (\<not> is_finite scale \<or> fle scale (Fin 0)) (ValueError ''shift must be a positive finite number'')
            (Inr scale))))"

definition schedule :: "'f torch_env \<Rightarrow> int \<Rightarrow> pyfloat \<Rightarrow> pyfloat list res" where
  "schedule env num_steps shift_scale =
     rbind (minimax_h3_time_shift_sigmas (tv_ops env) (tv_linspace env) num_steps shift_scale) (\<lambda>s. Inr (map (tv_item env) s))"

definition plan_schedules :: "'f torch_env \<Rightarrow> pyval \<Rightarrow> 'f h3_batch \<Rightarrow> resolved_plan \<Rightarrow> (pyfloat list \<times> pyfloat list) res" where
  "plan_schedules env model_scales b plan =
     rbind (requested_num_steps b) (\<lambda>num_steps.
     raise_if (model_scales \<noteq> PNone \<and> \<not> is_mapping model_scales) (ValueError ''model sigma_shift_scales must be an object'')
     (rbind (resolved_scale model_scales ''video'' (rp_flow_shift plan) (rp_default_flow_shift plan)) (\<lambda>video.
      rbind (resolved_scale model_scales ''audio'' (rp_audio_flow_shift plan) (rp_default_audio_flow_shift plan)) (\<lambda>audio.
      rbind (schedule env num_steps video) (\<lambda>vs.
      rbind (schedule env num_steps audio) (\<lambda>as. Inr (vs, as)))))))"

definition generate_sigmas_from_plan :: "'f torch_env \<Rightarrow> pyval \<Rightarrow> resolved_plan \<Rightarrow> ('f h3_batch, unit) act" where
  "generate_sigmas_from_plan env model_scales plan b =
     (if hb_schedules b \<noteq> None then (Inr (), b)
      else case plan_schedules env model_scales b plan of
          Inl e \<Rightarrow> (Inl e, b)
        | Inr s \<Rightarrow> (Inr (), b\<lparr>hb_schedules := Some s\<rparr>))"

text \<open>The configuration of fused PDD heads: its step count and the shifts of the two modalities.\<close>

record pdd_config =
  pc_num_inference_steps :: int
  pc_video_shift :: pyfloat
  pc_audio_shift :: pyfloat

definition pdd_init :: "pdd_config \<Rightarrow> int \<Rightarrow> pdd_config res" where
  "pdd_init config fused_steps =
     raise_if (pc_num_inference_steps config \<noteq> fused_steps + 1)
       (ValueError ''MiniMax-H3 PDD config does not match the fused heads'') (Inr config)"

definition isclose_at :: "pyfloat \<Rightarrow> pyfloat \<Rightarrow> pyfloat \<Rightarrow> pyfloat \<Rightarrow> bool" where
  "isclose_at rel_tol abs_tol a b =
     (let diff = fabs (fsub b a) in
      feq a b \<or> (\<not> is_inf a \<and> \<not> is_inf b \<and>
        (fle diff (fabs (fmul rel_tol b)) \<or> fle diff (fabs (fmul rel_tol a)) \<or> fle diff abs_tol)))"

definition pdd_matches :: "pyfloat list \<Rightarrow> pyfloat list \<Rightarrow> bool" where
  "pdd_matches actual expected \<longleftrightarrow> length actual = length expected \<and>
     list_all (\<lambda>(a, b). isclose_at (fl (1 / 10 ^ 6)) (fl (1 / 10 ^ 7)) a b) (zip actual expected)"

definition pdd_modality :: "'f torch_env \<Rightarrow> pdd_config \<Rightarrow> pyfloat \<Rightarrow> 'f h3_batch \<Rightarrow> pyfloat list \<Rightarrow> pyfloat list res" where
  "pdd_modality env config shift b actual =
     rbind (schedule env (pc_num_inference_steps config) shift) (\<lambda>expected.
     if hb_is_warmup b then
       (case hb_num_inference_steps b of
          PInt n \<Rightarrow> Inr (take (nat (max 2 n)) expected)
        | PBool _ \<Rightarrow> Inr (take 2 expected)
        | PFloat x \<Rightarrow> raise_if (flt (Fin 2) x) (TypeError ''slice indices must be integers or None'') (Inr (take 2 expected))
        | _ \<Rightarrow> Inl (TypeError ''>''))
     else raise_if (\<not> pdd_matches actual expected)
       (ValueError ''MiniMax-H3 PDD requires num_inference_steps and shift to match the fused heads'') (Inr actual))"

definition apply_pdd_schedule :: "'f torch_env \<Rightarrow> pdd_config option \<Rightarrow> ('f h3_batch, unit) act" where
  "apply_pdd_schedule env config b = (case config of
      None \<Rightarrow> (Inr (), b)
    | Some cfg \<Rightarrow> (case hb_schedules b of
          None \<Rightarrow> (Inl (KeyError ''minimax_h3_sigmas''), b)
        | Some (vs, as) \<Rightarrow> (case pdd_modality env cfg (pc_video_shift cfg) b vs of
              Inl e \<Rightarrow> (Inl e, b)
            | Inr vs' \<Rightarrow> (case pdd_modality env cfg (pc_audio_shift cfg) b as of
                  Inl e \<Rightarrow> (Inl e, b\<lparr>hb_schedules := Some (vs', as)\<rparr>)
                | Inr as' \<Rightarrow> (Inr (), b\<lparr>hb_schedules := Some (vs', as')\<rparr>)))))"

definition publish_native_timestep_state :: "'f torch_env \<Rightarrow> ('f h3_batch, unit) act" where
  "publish_native_timestep_state env b = (case hb_schedules b of
      None \<Rightarrow> (Inl (ValueError ''MiniMax H3 sigma schedules must be a mapping''), b)
    | Some (vs, as) \<Rightarrow>
        if length vs \<noteq> length as \<or> length vs < 2
        then (Inl (ValueError ''MiniMax H3 video/audio sigma schedules must be equal-length lists''), b)
        else (Inr (), b\<lparr>hb_sigmas := vs, hb_timesteps := Some (map (\<lambda>s. f_of (tv_ops env) (fsub (Fin 1) s)) (butlast vs))\<rparr>))"

definition timestep_forward :: "'f torch_env \<Rightarrow> pyval \<Rightarrow> pdd_config option \<Rightarrow> ('f h3_batch, unit) act" where
  "timestep_forward env model_scales config =
     abind required_plan (\<lambda>plan.
     abind (generate_sigmas_from_plan env model_scales plan) (\<lambda>_.
     abind (apply_pdd_schedule env config) (\<lambda>_. publish_native_timestep_state env)))"

definition timestep_fingerprint ::
  "pyval \<Rightarrow> ('f h3_batch, pyval \<times> bool \<times> (pyfloat option \<times> pyfloat option \<times> pyfloat \<times> pyfloat) \<times> pyval) act" where
  "timestep_fingerprint model_scales = abind required_plan (\<lambda>plan b.
     (Inr (hb_num_inference_steps b, hb_is_warmup b,
        (rp_flow_shift plan, rp_audio_flow_shift plan, rp_default_flow_shift plan, rp_default_audio_flow_shift plan), model_scales), b))"

section \<open>Latent preparation\<close>

definition plan_seed :: "pyval \<Rightarrow> int res" where
  "plan_seed seed = (if seed = PNone then Inr 42 else py_int seed)"

definition initial_state :: "'f torch_env \<Rightarrow> resolved_plan \<Rightarrow> 'f denoise_state res" where
  "initial_state env plan =
     (let shape = rp_shape plan in
      rbind (dindex shape ''geometry'') (\<lambda>g.
      raise_if (py_str g \<noteq> ''resolved_v2'') (ValueError ''MiniMax H3 latent preparation requires pre-queue resolved_v2 geometry'')
      (rbind (rbind (dindex shape ''height'') py_int) (\<lambda>height.
       rbind (rbind (dindex shape ''width'') py_int) (\<lambda>width.
       raise_if (dget shape ''video_latent_t'' = PNone \<or> dget shape ''audio_latent_t'' = PNone)
         (ValueError ''MiniMax H3 latent preparation requires pre-queue resolved temporal dimensions'')
       (rbind (py_int (dget shape ''video_latent_t'')) (\<lambda>latent_t.
        rbind (py_int (dget shape ''audio_latent_t'')) (\<lambda>audio_t.
        let latent_h = height div 16; latent_w = width div 16;
            video_rows_n = latent_t * (latent_h div 2) * (latent_w div 2); audio_rows_n = audio_t * 2 in
        rbind (plan_seed (rp_seed plan)) (\<lambda>seed.
        rbind (manual_seed seed) (\<lambda>s.
        raise_if (latent_t < 0 \<or> latent_h < 0 \<or> latent_w < 0)
          (RuntimeError ''Trying to create tensor with negative dimension'')
        (let dims = [1, 24, nat latent_t, nat latent_h, nat latent_w] in
        rbind (minimax_h3_patchify_video_latent \<lparr>t_shape = dims, t_data = tv_randn env s dims\<rparr> [1, 2, 2]) (\<lambda>video.
        raise_if (audio_rows_n < 0) (RuntimeError ''Trying to create tensor with negative dimension'')
        (raise_if (map int (t_shape video) \<noteq> [video_rows_n, 96]) (ValueError ''aligned video noise shape'')
        (Inr \<lparr>ds_video = video, ds_audio = \<lparr>t_shape = [nat audio_rows_n, 32], t_data = tv_randn env s [nat audio_rows_n, 32]\<rparr>,
              ds_latent_t = latent_t, ds_latent_h = latent_h, ds_latent_w = latent_w, ds_audio_t = audio_t\<rparr>))))))))))))))"

definition prepare_denoise_state_from_plan :: "'f torch_env \<Rightarrow> resolved_plan \<Rightarrow> ('f h3_batch, unit) act" where
  "prepare_denoise_state_from_plan env plan b =
     (if hb_state b \<noteq> None then (Inr (), b)
      else case initial_state env plan of
          Inl e \<Rightarrow> (Inl e, b)
        | Inr s \<Rightarrow> (Inr (), b\<lparr>hb_state := Some s\<rparr>))"

definition publish_native_latent_state :: "('f h3_batch, unit) act" where
  "publish_native_latent_state b = (case hb_state b of
      None \<Rightarrow> (Inl (ValueError ''MiniMax H3 denoise state must be a mapping''), b)
    | Some s \<Rightarrow>
        if length (t_shape (ds_video s)) \<noteq> 2 then (Inl (ValueError ''MiniMax H3 initial_video_rows must be a rank-2 tensor''), b)
        else if length (t_shape (ds_audio s)) \<noteq> 2 then (Inl (ValueError ''MiniMax H3 initial_audio_rows must be a rank-2 tensor''), b)
        else (Inr (), b\<lparr>hb_latents := Some (ds_video s), hb_audio_latents := Some (ds_audio s),
               hb_raw_latent_shape := [1, 24, ds_latent_t s, ds_latent_h s, ds_latent_w s],
               hb_raw_audio_latent_shape := [2, 32, ds_audio_t s]\<rparr>))"

definition latent_forward :: "'f torch_env \<Rightarrow> ('f h3_batch, unit) act" where
  "latent_forward env =
     abind required_plan (\<lambda>plan.
     abind (prepare_denoise_state_from_plan env plan) (\<lambda>_. publish_native_latent_state))"

end
