(* ===== verification/Cache_Dit.thy ===== *)
theory Cache_Dit
  imports State_Result Resolved_Plan "HOL-Library.Char_ord" "HOL-Library.List_Lexorder"
begin

text \<open>
  Step caching of the denoising stage: whether a request runs with Cache-DiT hooks on the transformer, and with
  which configuration. \<^verbatim>\<open>stages/denoising.py\<close> of the model decides the mode (\<^verbatim>\<open>high\<close>, \<^verbatim>\<open>generic\<close> or none) and
  keeps the blocks from overwriting their inputs while the hooks hold them; its parent
  \<^verbatim>\<open>pipelines_core/stages/denoising.py\<close> mounts, refreshes and unmounts; \<^verbatim>\<open>cache/cache_dit_integration.py\<close> talks
  to the \<^verbatim>\<open>cache_dit\<close> package. That package is the parameter \<open>cache_lib\<close>: each of its calls is a computation on the
  hooks that may return or raise and may leave the hooks in any state.
\<close>

section \<open>Requests, environment and configurations\<close>

text \<open>The knobs of \<^verbatim>\<open>envs.SGLANG_CACHE_DIT_*\<close>, once for the primary and once for the secondary transformer.\<close>

record knob_env =
  kn_Fn :: pyval
  kn_Bn :: pyval
  kn_warmup :: pyval
  kn_rdt :: pyval
  kn_mc :: pyval
  kn_taylorseer :: pyval
  kn_ts_order :: pyval
  kn_dmd :: pyval
  kn_dmd_history :: pyval
  kn_dmd_rank :: pyval
  kn_dmd_ridge :: pyval
  kn_dmd_svd_precision :: pyval

record cache_env =
  en_enabled :: bool
  en_primary :: knob_env
  en_secondary :: knob_env
  en_scm_preset :: pyval
  en_scm_compute_bins :: "string option"
  en_scm_cache_bins :: "string option"
  en_scm_policy :: pyval

record cache_request =
  rq_quality :: string
  rq_explicit :: "string list"
  rq_enable :: "bool option"
  rq_params :: pyval
  rq_warmup :: bool
  rq_cfg :: bool

record cache_dit_config =
  cc_enabled :: bool
  cc_Fn :: pyval
  cc_Bn :: pyval
  cc_warmup :: pyval
  cc_rdt :: pyval
  cc_mc :: pyval
  cc_taylorseer :: pyval
  cc_ts_order :: pyval
  cc_dmd :: pyval
  cc_dmd_history :: pyval
  cc_dmd_rank :: pyval
  cc_dmd_ridge :: pyval
  cc_dmd_svd_precision :: pyval
  cc_steps :: "int option"
  cc_mask :: "int list option"
  cc_policy :: pyval

text \<open>What the package is handed: \<^verbatim>\<open>DBCacheConfig\<close> and the calibrator.\<close>

record db_config =
  db_steps :: int
  db_Fn :: pyval
  db_Bn :: pyval
  db_warmup :: pyval
  db_rdt :: pyval
  db_mc :: pyval
  db_mask :: "int list option"
  db_policy :: pyval

datatype calibrator =
    DMDCalibrator pyval pyval pyval pyval
  | TaylorSeer pyval

record hooks =
  hk_config :: db_config
  hk_calibrator :: "calibrator option"

record cache_lib =
  lb_steps_mask :: "int list option \<Rightarrow> int list option \<Rightarrow> int \<Rightarrow> pyval \<Rightarrow> int list res"
  lb_supported :: bool
  lb_enable :: "bool option \<Rightarrow> db_config \<Rightarrow> calibrator option \<Rightarrow> (hooks option, unit) act"
  lb_disable :: "bool \<Rightarrow> (hooks option, unit) act"
  lb_refresh :: "int \<Rightarrow> int list option \<Rightarrow> pyval \<Rightarrow> (hooks option, unit) act"
  lb_context :: bool
  lb_blocks_reachable :: bool

section \<open>Request overrides\<close>

definition CACHE_DIT_REQUEST_KNOB_KEYS :: "string list" where
  "CACHE_DIT_REQUEST_KNOB_KEYS =
     [''Fn_compute_blocks'', ''Bn_compute_blocks'', ''max_warmup_steps'', ''residual_diff_threshold'',
      ''max_continuous_cached_steps'', ''enable_taylorseer'', ''taylorseer_order'', ''enable_dmd'', ''dmd_history'',
      ''dmd_rank'', ''dmd_ridge'', ''dmd_svd_precision'']"

definition CACHE_DIT_REQUEST_SCM_KEYS :: "string list" where
  "CACHE_DIT_REQUEST_SCM_KEYS = [''scm_preset'', ''scm_compute_bins'', ''scm_cache_bins'', ''scm_policy'']"

definition CACHE_DIT_REQUEST_PARAM_KEYS :: "string list" where
  "CACHE_DIT_REQUEST_PARAM_KEYS = CACHE_DIT_REQUEST_KNOB_KEYS @ CACHE_DIT_REQUEST_SCM_KEYS @ [''secondary'']"

definition keys_within :: "pydict \<Rightarrow> string list \<Rightarrow> bool" where
  "keys_within d ks = list_all (\<lambda>(k, _). k \<in> set ks) d"

definition resolve_cache_dit_request_overrides :: "pyval \<Rightarrow> pydict res" where
  "resolve_cache_dit_request_overrides raw = (case raw of
      PNone \<Rightarrow> Inr []
    | PDict d \<Rightarrow>
        raise_if (\<not> keys_within d CACHE_DIT_REQUEST_PARAM_KEYS) (ValueError ''Unknown cache_dit_params keys'')
          (case dget d ''secondary'' of
             PNone \<Rightarrow> Inr d
           | PDict e \<Rightarrow>
               raise_if (\<not> keys_within e CACHE_DIT_REQUEST_KNOB_KEYS)
                 (ValueError ''Unknown cache_dit_params['secondary'] keys'') (Inr (dset ''secondary'' (PDict e) d))
           | _ \<Rightarrow> Inl (ValueError ''cache_dit_params['secondary'] must be a dict''))
    | _ \<Rightarrow> Inl (ValueError ''cache_dit_params must be a dict''))"

text \<open>
  \<^verbatim>\<open>_freeze\<close> turns dictionaries into tuples of pairs sorted by key (the keys of a dictionary are distinct strings, so
  the values never decide the order) and lists into tuples; a tuple is written \<open>PList\<close>.
\<close>

fun freeze :: "pyval \<Rightarrow> pyval" where
  "freeze (PDict d) = PList (map (\<lambda>(k, v). PList [PStr k, v]) (sort_key fst (map (\<lambda>(k, v). (k, freeze v)) d)))"
| "freeze (PList l) = PList (map freeze l)"
| "freeze v = v"

definition cache_dit_overrides_key :: "pydict \<Rightarrow> pyval" where
  "cache_dit_overrides_key overrides = freeze (PDict overrides)"

text \<open>Python's \<^verbatim>\<open>==\<close> on frozen values: numbers by value, tuples element by element.\<close>

fun py_same :: "pyval \<Rightarrow> pyval \<Rightarrow> bool" where
  "py_same (PList l) (PList m) = list_all2 py_same l m"
| "py_same (PStr s) (PStr t) = (s = t)"
| "py_same PNone PNone = True"
| "py_same v w = (case (pnum v, pnum w) of (Some x, Some y) \<Rightarrow> feq x y | _ \<Rightarrow> False)"

fun same_key :: "pyval option \<Rightarrow> pyval option \<Rightarrow> bool" where
  "same_key None None = True"
| "same_key (Some k) (Some k') = py_same k k'"
| "same_key _ _ = False"


section \<open>Step masks and configurations\<close>

text \<open>\<^verbatim>\<open>_parse_cache_dit_scm_bins\<close>: the request's bins, else the environment's, else the preset alone. A bin list of the
  environment that does not parse turns the preset off.\<close>

definition parse_bins :: "string \<Rightarrow> int list option" where
  "parse_bins s = those (map (\<lambda>x. parse_int (strip x)) (split_on (CHR '','') s))"

definition parse_cache_dit_scm_bins ::
  "cache_env \<Rightarrow> pydict \<Rightarrow> (int list option \<times> int list option \<times> pyval) res" where
  "parse_cache_dit_scm_bins env overrides =
     (let scm_preset = dget_or overrides ''scm_preset'' (en_scm_preset env);
          request_compute_bins = dget overrides ''scm_compute_bins'';
          request_cache_bins = dget overrides ''scm_cache_bins'' in
      if request_compute_bins \<noteq> PNone \<or> request_cache_bins \<noteq> PNone then
        raise_if (request_compute_bins = PNone \<or> request_cache_bins = PNone)
          (ValueError ''cache_dit_params SCM custom bins require both scm_compute_bins and scm_cache_bins.'')
          (rbind (rbind (py_iter request_compute_bins) (rmap py_int)) (\<lambda>compute_bins.
           rbind (rbind (py_iter request_cache_bins) (rmap py_int)) (\<lambda>cache_bins.
           Inr (Some compute_bins, Some cache_bins, scm_preset))))
      else (case (en_scm_compute_bins env, en_scm_cache_bins env) of
          (Some (c # cs), Some (d # ds)) \<Rightarrow>
            (case parse_bins (c # cs) of
               None \<Rightarrow> Inr (None, None, PStr ''none'')
             | Some compute_bins \<Rightarrow> (case parse_bins (d # ds) of
                 None \<Rightarrow> Inr (Some compute_bins, None, PStr ''none'')
               | Some cache_bins \<Rightarrow> Inr (Some compute_bins, Some cache_bins, scm_preset)))
        | _ \<Rightarrow> Inr (None, None, scm_preset)))"

fun nonempty_list :: "int list option \<Rightarrow> bool" where
  "nonempty_list None = False"
| "nonempty_list (Some l) = (l \<noteq> [])"

definition get_scm_mask ::
  "cache_lib \<Rightarrow> pyval \<Rightarrow> int \<Rightarrow> int list option \<Rightarrow> int list option \<Rightarrow> int list option res" where
  "get_scm_mask l preset n compute_bins cache_bins =
     (if eq_str preset ''none'' \<and> \<not> (nonempty_list compute_bins \<and> nonempty_list cache_bins) then Inr None
      else rbind (lb_steps_mask l compute_bins cache_bins n
             (if \<not> eq_str preset ''none'' then preset else PStr ''medium'')) (\<lambda>m. Inr (Some m)))"

text \<open>\<^verbatim>\<open>_cache_dit_scm_masks\<close> of the parent and of the model's stage (which has one transformer, so the secondary mask is
  always \<^verbatim>\<open>None\<close> and left out).\<close>

definition base_scm_masks ::
  "cache_lib \<Rightarrow> cache_env \<Rightarrow> pydict \<Rightarrow> int \<Rightarrow> (pyval \<times> pyval \<times> int list option) res" where
  "base_scm_masks l env overrides n =
     rbind (parse_cache_dit_scm_bins env overrides) (\<lambda>(compute_bins, cache_bins, preset).
     rbind (get_scm_mask l preset n compute_bins cache_bins) (\<lambda>m.
     Inr (preset, dget_or overrides ''scm_policy'' (en_scm_policy env), m)))"

definition cache_dit_scm_masks ::
  "cache_lib \<Rightarrow> cache_env \<Rightarrow> string \<Rightarrow> pydict \<Rightarrow> int \<Rightarrow> (pyval \<times> pyval \<times> int list option) res" where
  "cache_dit_scm_masks l env quality overrides n =
     (if quality = ''high'' then Inr (PStr ''none'', PStr ''dynamic'', None)
      else base_scm_masks l env overrides n)"

definition cache_dit_knob :: "pydict \<Rightarrow> string \<Rightarrow> pyval \<Rightarrow> pyval \<Rightarrow> bool \<Rightarrow> pyval" where
  "cache_dit_knob overrides key env_value env_secondary_value secondary =
     (if \<not> secondary then dget_or overrides key env_value
      else case dget overrides ''secondary'' of
          PDict e \<Rightarrow> (case map_of e key of
              Some v \<Rightarrow> v
            | None \<Rightarrow> dget_or overrides key env_secondary_value)
        | _ \<Rightarrow> dget_or overrides key env_secondary_value)"

definition base_cache_dit_config ::
  "cache_env \<Rightarrow> pydict \<Rightarrow> int \<Rightarrow> int list option \<Rightarrow> pyval \<Rightarrow> bool \<Rightarrow> cache_dit_config" where
  "base_cache_dit_config env overrides n m policy secondary =
     (let p = en_primary env; q = en_secondary env;
          knob = (\<lambda>key f. cache_dit_knob overrides key (f p) (f q) secondary) in
      \<lparr>cc_enabled = True,
       cc_Fn = knob ''Fn_compute_blocks'' kn_Fn,
       cc_Bn = knob ''Bn_compute_blocks'' kn_Bn,
       cc_warmup = knob ''max_warmup_steps'' kn_warmup,
       cc_rdt = knob ''residual_diff_threshold'' kn_rdt,
       cc_mc = knob ''max_continuous_cached_steps'' kn_mc,
       cc_taylorseer = knob ''enable_taylorseer'' kn_taylorseer,
       cc_ts_order = knob ''taylorseer_order'' kn_ts_order,
       cc_dmd = knob ''enable_dmd'' kn_dmd,
       cc_dmd_history = knob ''dmd_history'' kn_dmd_history,
       cc_dmd_rank = knob ''dmd_rank'' kn_dmd_rank,
       cc_dmd_ridge = knob ''dmd_ridge'' kn_dmd_ridge,
       cc_dmd_svd_precision = knob ''dmd_svd_precision'' kn_dmd_svd_precision,
       cc_steps = Some n, cc_mask = m, cc_policy = policy\<rparr>)"

text \<open>The model's own configuration for \<^verbatim>\<open>quality="high"\<close>; the DMD fields keep the defaults of the dataclass.\<close>

definition MINIMAX_H3_HIGH_QUALITY_CACHE_DIT_CONFIG :: "int \<times> pyfloat \<times> int" where
  "MINIMAX_H3_HIGH_QUALITY_CACHE_DIT_CONFIG = (4, fl (4 / 100), 1)"

definition build_cache_dit_config ::
  "cache_env \<Rightarrow> string \<Rightarrow> pydict \<Rightarrow> int \<Rightarrow> int list option \<Rightarrow> pyval \<Rightarrow> bool \<Rightarrow> cache_dit_config" where
  "build_cache_dit_config env quality overrides n m policy secondary =
     (if secondary \<or> quality \<noteq> ''high'' then base_cache_dit_config env overrides n m policy secondary
      else case MINIMAX_H3_HIGH_QUALITY_CACHE_DIT_CONFIG of (warmup, threshold, max_cached) \<Rightarrow>
        \<lparr>cc_enabled = True, cc_Fn = PInt 1, cc_Bn = PInt 0, cc_warmup = PInt warmup, cc_rdt = PFloat threshold,
         cc_mc = PInt max_cached, cc_taylorseer = PBool False, cc_ts_order = PInt 1, cc_dmd = PBool False,
         cc_dmd_history = PInt 6, cc_dmd_rank = PInt 0, cc_dmd_ridge = PFloat (fl (1 / 10 ^ 8)),
         cc_dmd_svd_precision = PStr ''medium'', cc_steps = Some n, cc_mask = m, cc_policy = policy\<rparr>)"

section \<open>The server and the state of the stage\<close>

text \<open>A module and what \<^verbatim>\<open>_orig_mod\<close> and \<^verbatim>\<open>module\<close> of it lead to; the flag says whether it has
  \<^verbatim>\<open>set_cache_dit_input_preservation\<close>.\<close>

datatype nn_module = NnModule (exposes_setter: bool) (orig_mod: "nn_module option") (inner_module: "nn_module option")

record cache_server =
  sv_breakable :: bool
  sv_torch_compile :: bool
  sv_env :: cache_env
  sv_model :: nn_module
  sv_class :: string
  sv_has_blocks :: bool
  sv_dmd_available :: bool
  sv_world_size :: int
  sv_sp_group :: "int option"
  sv_tp_group :: "int option"
  sv_ulysses :: int
  sv_ring :: int
  sv_dit_group :: "unit res"

record parallelism =
  pm_ulysses :: "int option"
  pm_ring :: "int option"
  pm_tp :: "int option"

text \<open>
  The fields of the stage, then what lives on the transformer: the stored adapter, the parallelism mark, the groups
  on the context manager (sequence, tensor, both), the hooks themselves, and whether the real blocks keep their
  inputs. The patch of \<^verbatim>\<open>CachedContextManager.similarity\<close> is process-wide.
\<close>

record mount =
  mt_enabled :: bool
  mt_num_steps :: "int option"
  mt_overrides :: pydict
  mt_key :: "pyval option"
  mt_mode :: "string option"
  mt_quality :: string
  mt_adapter :: bool
  mt_parallel :: "parallelism option"
  mt_groups :: "(bool \<times> bool \<times> bool) option"
  mt_patched :: bool
  mt_hooks :: "hooks option"
  mt_preserve :: bool

definition mount_init :: mount where
  "mount_init = \<lparr>mt_enabled = False, mt_num_steps = None, mt_overrides = [], mt_key = None, mt_mode = None,
     mt_quality = ''lossless'', mt_adapter = False, mt_parallel = None, mt_groups = None, mt_patched = False,
     mt_hooks = None, mt_preserve = False\<rparr>"

type_synonym 'a mount_act = "(mount, 'a) act"

text \<open>A call of the package, which sees and changes the hooks only.\<close>

definition on_hooks :: "(hooks option, unit) act \<Rightarrow> unit mount_act" where
  "on_hooks m s = (case m (mt_hooks s) of (r, h) \<Rightarrow> (r, s\<lparr>mt_hooks := h\<rparr>))"

definition awhen :: "('s \<Rightarrow> bool) \<Rightarrow> ('s, unit) act \<Rightarrow> ('s, unit) act" where
  "awhen c m s = (if c s then m s else (Inr (), s))"

text \<open>\<^verbatim>\<open>try: m; except Exception: h; raise\<close>, where the handler may raise as well.\<close>

definition on_error_do :: "('s, 'a) act \<Rightarrow> ('s, unit) act \<Rightarrow> ('s, 'a) act" where
  "on_error_do m h s = (case m s of
      (Inl e, s') \<Rightarrow> (case h s' of (Inl e', t) \<Rightarrow> (Inl e', t) | (Inr _, t) \<Rightarrow> (Inl e, t))
    | (Inr x, s') \<Rightarrow> (Inr x, s'))"

section \<open>Calls into the package\<close>

definition disable_cache_on_transformer :: "cache_lib \<Rightarrow> unit mount_act" where
  "disable_cache_on_transformer l s =
     abind (on_hooks (lb_disable l (mt_adapter s))) (\<lambda>_.
       aupdate (\<lambda>s. s\<lparr>mt_adapter := False, mt_parallel := None\<rparr>)) s"

definition custom_adapter_classes :: "string list" where
  "custom_adapter_classes =
     [''MingImageTransformer2DModel'', ''QwenImage21Transformer2DModel'', ''ErnieImageTransformer2DModel'',
      ''Krea2Transformer2DModel'', ''MiniMaxH3DiTModel'']"

definition build_custom_block_adapter :: "cache_server \<Rightarrow> bool \<Rightarrow> bool option res" where
  "build_custom_block_adapter sv has_separate_cfg =
     (if sv_class sv \<notin> set custom_adapter_classes then Inr None
      else raise_if (\<not> sv_has_blocks sv) (ValueError ''Transformer has no attribute for cache-dit blocks.'')
        (Inr (Some has_separate_cfg)))"

definition build_parallelism_config :: "cache_server \<Rightarrow> bool \<Rightarrow> bool \<Rightarrow> parallelism option" where
  "build_parallelism_config sv sp tp =
     (if \<not> sp \<and> \<not> tp then None
      else Some \<lparr>pm_ulysses = (if sp then Some (sv_ulysses sv) else None),
                 pm_ring = (if sp then Some (sv_ring sv) else None),
                 pm_tp = (if tp then sv_tp_group sv else None)\<rparr>)"

definition assert_calibrator_exclusive :: "cache_dit_config \<Rightarrow> unit res" where
  "assert_calibrator_exclusive c = raise_if (truthy (cc_dmd c) \<and> truthy (cc_taylorseer c))
     (ValueError ''DMD and TaylorSeer calibrators are mutually exclusive'') (Inr ())"

definition assert_dmd_supported :: "cache_server \<Rightarrow> cache_dit_config \<Rightarrow> unit res" where
  "assert_dmd_supported sv c = raise_if (truthy (cc_dmd c) \<and> \<not> sv_dmd_available sv)
     (ValueError ''DMD calibrator requires cache-dit >= 1.5.0'') (Inr ())"

definition calibrator_of :: "cache_dit_config \<Rightarrow> calibrator option" where
  "calibrator_of c =
     (if truthy (cc_dmd c) then
        Some (DMDCalibrator (cc_dmd_history c) (cc_dmd_rank c) (cc_dmd_ridge c) (cc_dmd_svd_precision c))
      else if truthy (cc_taylorseer c) then Some (TaylorSeer (cc_ts_order c))
      else None)"

definition db_config_of :: "cache_dit_config \<Rightarrow> int \<Rightarrow> db_config" where
  "db_config_of c n = \<lparr>db_steps = n, db_Fn = cc_Fn c, db_Bn = cc_Bn c, db_warmup = cc_warmup c, db_rdt = cc_rdt c,
     db_mc = cc_mc c, db_mask = cc_mask c, db_policy = cc_policy c\<rparr>"

text \<open>The groups are put on the context manager once the hooks are attached; \<^verbatim>\<open>get_dit_group()\<close> asserts that the group
  exists.\<close>

definition store_groups :: "cache_server \<Rightarrow> cache_lib \<Rightarrow> bool \<Rightarrow> bool \<Rightarrow> unit mount_act" where
  "store_groups sv l sp tp =
     awhen (\<lambda>_. lb_context l)
       (abind (aupdate (\<lambda>s. s\<lparr>mt_groups := Some (sp, tp, case mt_groups s of None \<Rightarrow> False | Some (_, _, b) \<Rightarrow> b)\<rparr>)) (\<lambda>_.
        abind (alift (if sp \<and> tp then sv_dit_group sv else Inr ())) (\<lambda>_.
        aupdate (\<lambda>s. s\<lparr>mt_groups := Some (sp, tp, sp \<and> tp)\<rparr>))))"

definition attach_hooks ::
  "cache_server \<Rightarrow> cache_lib \<Rightarrow> bool option \<Rightarrow> cache_dit_config \<Rightarrow> int \<Rightarrow> bool \<Rightarrow> bool \<Rightarrow> unit mount_act" where
  "attach_hooks sv l adapter c n sp tp =
     (let pc = build_parallelism_config sv sp tp in
      abind (awhen (\<lambda>_. pc \<noteq> None) (aupdate (\<lambda>s. s\<lparr>mt_patched := True, mt_parallel := pc\<rparr>))) (\<lambda>_.
      abind (on_hooks (lb_enable l adapter (db_config_of c n) (calibrator_of c))) (\<lambda>_.
      abind (awhen (\<lambda>_. adapter \<noteq> None) (aupdate (\<lambda>s. s\<lparr>mt_adapter := True\<rparr>))) (\<lambda>_.
      awhen (\<lambda>_. pc \<noteq> None) (store_groups sv l sp tp)))))"

definition enable_cache_on_transformer ::
  "cache_server \<Rightarrow> cache_lib \<Rightarrow> cache_dit_config \<Rightarrow> bool \<Rightarrow> bool \<Rightarrow> bool \<Rightarrow> unit mount_act" where
  "enable_cache_on_transformer sv l c sp tp has_separate_cfg =
     (if \<not> cc_enabled c then areturn ()
      else abind (alift (assert_calibrator_exclusive c)) (\<lambda>_.
        abind (alift (assert_dmd_supported sv c)) (\<lambda>_.
        case cc_steps c of
          None \<Rightarrow> araise (ValueError ''num_inference_steps is required for transformer-only mode.'')
        | Some n \<Rightarrow>
            abind (alift (build_custom_block_adapter sv has_separate_cfg)) (\<lambda>adapter.
            araise_if (adapter = None \<and> \<not> lb_supported l) (ValueError ''not officially supported by cache-dit'')
              (attach_hooks sv l adapter c n sp tp)))))"

definition refresh_context_on_transformer :: "cache_lib \<Rightarrow> int \<Rightarrow> pyval \<Rightarrow> unit mount_act" where
  "refresh_context_on_transformer l n scm_preset =
     abind (alift (if scm_preset \<noteq> PNone then rbind (lb_steps_mask l None None n scm_preset) (\<lambda>m. Inr (Some m))
                   else Inr None)) (\<lambda>m.
       on_hooks (lb_refresh l n m scm_preset))"

section \<open>Mounting in the parent stage\<close>

definition unmount_cache_dit :: "cache_lib \<Rightarrow> unit mount_act" where
  "unmount_cache_dit l =
     abind (disable_cache_on_transformer l) (\<lambda>_.
       aupdate (\<lambda>s. s\<lparr>mt_enabled := False, mt_num_steps := None, mt_key := None\<rparr>))"

text \<open>\<^verbatim>\<open>_cache_dit_requested\<close> as the model's stage overrides it, and the per-request switch over it.\<close>

definition cache_dit_requested :: "cache_env \<Rightarrow> mount \<Rightarrow> bool" where
  "cache_dit_requested env s = (mt_quality s = ''high'' \<or> en_enabled env)"

definition cache_dit_requested_for_batch :: "cache_env \<Rightarrow> cache_request \<Rightarrow> mount \<Rightarrow> bool" where
  "cache_dit_requested_for_batch env rq s =
     (case rq_enable rq of None \<Rightarrow> cache_dit_requested env s | Some b \<Rightarrow> b)"

text \<open>A new request on mounted hooks.\<close>

definition refresh_mount :: "cache_server \<Rightarrow> cache_lib \<Rightarrow> int \<Rightarrow> unit mount_act" where
  "refresh_mount sv l n s =
     abind (alift (cache_dit_scm_masks l (sv_env sv) (mt_quality s) (mt_overrides s) n)) (\<lambda>(preset, _, _).
       refresh_context_on_transformer l n (if eq_str preset ''none'' then PNone else preset)) s"

definition group_larger :: "int option \<Rightarrow> bool" where
  "group_larger g = (1 < (case g of None \<Rightarrow> 1 | Some n \<Rightarrow> n))"

definition mount_hooks :: "cache_server \<Rightarrow> cache_lib \<Rightarrow> cache_request \<Rightarrow> int \<Rightarrow> pyval option \<Rightarrow> unit mount_act" where
  "mount_hooks sv l rq n desired_key s =
     (let sp = (1 < sv_world_size sv \<and> group_larger (sv_sp_group sv));
          tp = (1 < sv_world_size sv \<and> group_larger (sv_tp_group sv)) in
      abind (alift (cache_dit_scm_masks l (sv_env sv) (mt_quality s) (mt_overrides s) n)) (\<lambda>(_, policy, m).
      abind (enable_cache_on_transformer sv l
               (build_cache_dit_config (sv_env sv) (mt_quality s) (mt_overrides s) n m policy False) sp tp (rq_cfg rq)) (\<lambda>_.
      aupdate (\<lambda>s. s\<lparr>mt_enabled := True, mt_num_steps := Some n, mt_key := desired_key\<rparr>))) s)"

definition parent_maybe_enable_cache_dit ::
  "cache_server \<Rightarrow> cache_lib \<Rightarrow> cache_request \<Rightarrow> int \<Rightarrow> unit mount_act" where
  "parent_maybe_enable_cache_dit sv l rq n s =
     (let requested = cache_dit_requested_for_batch (sv_env sv) rq s in
      if sv_breakable sv then (Inr (), s)
      else abind (alift (resolve_cache_dit_request_overrides (rq_params rq))) (\<lambda>overrides.
        abind (aupdate (\<lambda>s. s\<lparr>mt_overrides := overrides\<rparr>)) (\<lambda>_.
        let desired_key = (if requested then Some (cache_dit_overrides_key overrides) else None) in
        abind (awhen (\<lambda>s. mt_enabled s \<and> \<not> same_key desired_key (mt_key s)) (unmount_cache_dit l)) (\<lambda>_ s.
          if mt_enabled s then refresh_mount sv l n s
          else if \<not> requested then (Inr (), s)
          else if rq_warmup rq \<and> \<not> sv_torch_compile sv then (Inr (), s)
          else mount_hooks sv l rq n desired_key s))) s)"

section \<open>The model's stage\<close>

text \<open>
  \<^verbatim>\<open>MiniMaxH3DiTModel.set_cache_dit_input_preservation\<close> sets a flag on every member of \<^verbatim>\<open>self.blocks\<close>. Its comment says that
  attached hooks replace that list by their wrapper, so that the real blocks are out of reach; the comment of
  \<^verbatim>\<open>_disarm_after_failed_mount\<close> fears that they are not. The package decides: \<open>lb_blocks_reachable\<close> says whether the call
  still reaches the blocks while hooks are attached.
\<close>

definition model_set_preservation :: "cache_lib \<Rightarrow> bool \<Rightarrow> unit mount_act" where
  "model_set_preservation l enabled =
     aupdate (\<lambda>s. if mt_hooks s = None \<or> lb_blocks_reachable l then s\<lparr>mt_preserve := enabled\<rparr> else s)"

fun unwrap_model :: "nat \<Rightarrow> nn_module \<Rightarrow> nn_module" where
  "unwrap_model 0 m = m"
| "unwrap_model (Suc k) m =
     (if exposes_setter m then m
      else case (case orig_mod m of Some i \<Rightarrow> Some i | None \<Rightarrow> inner_module m) of
        None \<Rightarrow> m
      | Some i \<Rightarrow> unwrap_model k i)"

definition set_cache_dit_input_preservation :: "cache_server \<Rightarrow> cache_lib \<Rightarrow> bool \<Rightarrow> unit mount_act" where
  "set_cache_dit_input_preservation sv l enabled =
     (if exposes_setter (unwrap_model 4 (sv_model sv)) then model_set_preservation l enabled
      else araise (TypeError ''MiniMax-H3 Cache-DiT requires set_cache_dit_input_preservation() on the transformer''))"

definition disarm_after_failed_mount :: "cache_server \<Rightarrow> cache_lib \<Rightarrow> unit mount_act" where
  "disarm_after_failed_mount sv l s = (case disable_cache_on_transformer l s of
      (Inl _, t) \<Rightarrow> (Inr (), t)
    | (Inr _, t) \<Rightarrow> abind (aupdate (\<lambda>s. s\<lparr>mt_enabled := False, mt_num_steps := None, mt_key := None, mt_mode := None\<rparr>))
        (\<lambda>_. set_cache_dit_input_preservation sv l False) t)"

definition desired_mode :: "cache_env \<Rightarrow> cache_request \<Rightarrow> string option" where
  "desired_mode env rq =
     (let generic_enabled = (case rq_enable rq of None \<Rightarrow> en_enabled env | Some b \<Rightarrow> b);
          generic_requested = (generic_enabled \<and> ''quality'' \<notin> set (rq_explicit rq)) in
      if rq_enable rq = Some False then None
      else if rq_quality rq = ''high'' then Some ''high''
      else if generic_requested then Some ''generic''
      else None)"

text \<open>The hooks of another mode go before anything else happens.\<close>

definition leave_mode :: "cache_server \<Rightarrow> cache_lib \<Rightarrow> unit mount_act" where
  "leave_mode sv l =
     abind (unmount_cache_dit l) (\<lambda>_.
     abind (aupdate (\<lambda>s. s\<lparr>mt_mode := None\<rparr>)) (\<lambda>_.
     set_cache_dit_input_preservation sv l False))"

text \<open>The part for a request that wants hooks.\<close>

definition enter_mode :: "cache_server \<Rightarrow> cache_lib \<Rightarrow> cache_request \<Rightarrow> int \<Rightarrow> string option \<Rightarrow> unit mount_act" where
  "enter_mode sv l rq n desired s0 =
     (let was_enabled = mt_enabled s0 in
      abind (awhen (\<lambda>_. \<not> was_enabled) (set_cache_dit_input_preservation sv l True)) (\<lambda>_.
      abind (on_error_do (parent_maybe_enable_cache_dit sv l rq n)
               (awhen (\<lambda>_. \<not> was_enabled) (disarm_after_failed_mount sv l))) (\<lambda>_ s.
        if mt_enabled s then (Inr (), s\<lparr>mt_mode := desired\<rparr>)
        else awhen (\<lambda>_. \<not> was_enabled) (set_cache_dit_input_preservation sv l False) s)) s0)"

definition maybe_enable_cache_dit :: "cache_server \<Rightarrow> cache_lib \<Rightarrow> cache_request \<Rightarrow> int \<Rightarrow> unit mount_act" where
  "maybe_enable_cache_dit sv l rq n s0 =
     (let desired = desired_mode (sv_env sv) rq;
          current_mode = mt_mode s0;
          s = s0\<lparr>mt_quality := rq_quality rq\<rparr> in
      if sv_breakable sv then
        (if desired \<noteq> None then parent_maybe_enable_cache_dit sv l rq n s else (Inr (), s))
      else abind (awhen (\<lambda>s. mt_enabled s \<and> current_mode \<noteq> desired) (leave_mode sv l)) (\<lambda>_.
        if desired = None then areturn () else enter_mode sv l rq n desired) s)"

section \<open>Histories\<close>

text \<open>Every state the stage can be in after requests one after another, each with whatever the package did during it,
  whether the request failed or not. \<open>ok\<close> restricts the requests and what the package may do.\<close>

inductive mount_reach :: "cache_server \<Rightarrow> (cache_lib \<Rightarrow> cache_request \<Rightarrow> bool) \<Rightarrow> mount \<Rightarrow> bool" for sv ok where
  start: "mount_reach sv ok mount_init"
| request: "mount_reach sv ok s \<Longrightarrow> ok l rq \<Longrightarrow> maybe_enable_cache_dit sv l rq n s = (r, t) \<Longrightarrow> mount_reach sv ok t"

end
