(* ===== verification/Full_Loop.thy ===== *)
theory Full_Loop
  imports Stage_Preparation Denoise_Correct Cache_Dit
begin

text \<open>
  The sink of the pipeline, \<^verbatim>\<open>stages/denoising.py\<close>: the checks of the encoded payloads, the condition rows and
  their noise, the packed layout of the task, the initial rows, the loop, and the latents it publishes. The
  transformer, the arithmetic of the position grids and the attention backend of the platform are parameters;
  device transfers, profiling and the residency manager change no value and are left out.
\<close>

section \<open>Rows and tensors\<close>

text \<open>A rank-2 tensor is used by rows; an operation on rows of another rank raises.\<close>

definition tensor_rows :: "'f tensor \<Rightarrow> 'f rows res" where
  "tensor_rows t = (case t_shape t of
      [n, w] \<Rightarrow> Inr (map (\<lambda>i. take w (drop (i * w) (t_data t))) [0..<n])
    | _ \<Rightarrow> Inl (RuntimeError ''Source/destination tensor must have same slice shapes''))"

definition rows_tensor :: "nat \<Rightarrow> 'f rows \<Rightarrow> 'f tensor" where
  "rows_tensor width rows = \<lparr>t_shape = [length rows, width], t_data = concat rows\<rparr>"

definition optional_rows :: "'f tensor option \<Rightarrow> 'f rows option res" where
  "optional_rows t = (case t of None \<Rightarrow> Inr None | Some x \<Rightarrow> rbind (tensor_rows x) (\<lambda>r. Inr (Some r)))"

text \<open>\<^verbatim>\<open>torch.cat(rows, dim=0)\<close>: empty one-dimensional tensors are skipped, the others agree in all but the first
  dimension.\<close>

definition torch_cat :: "'f tensor list \<Rightarrow> 'f tensor res" where
  "torch_cat ts = (case filter (\<lambda>t. t_shape t \<noteq> [0]) ts of
      [] \<Rightarrow> Inr \<lparr>t_shape = [0], t_data = []\<rparr>
    | t # rest \<Rightarrow>
        raise_if (t_shape t = [] \<or> (\<exists>u \<in> set rest. t_shape u = [] \<or> tl (t_shape u) \<noteq> tl (t_shape t)))
          (RuntimeError ''Sizes of tensors must match except in dimension 0'')
        (Inr \<lparr>t_shape = sum_list (map (hd \<circ> t_shape) (t # rest)) # tl (t_shape t),
              t_data = concat (map t_data (t # rest))\<rparr>))"

definition cat_optional :: "'f tensor list \<Rightarrow> 'f tensor option res" where
  "cat_optional rows = (case rows of
      [] \<Rightarrow> Inr None
    | [t] \<Rightarrow> Inr (Some t)
    | _ \<Rightarrow> rbind (torch_cat rows) (\<lambda>t. Inr (Some t)))"

section \<open>Checks of the payloads\<close>

definition MINIMAX_H3_IMGVID_COND_TIMESTEP :: pyfloat where
  "MINIMAX_H3_IMGVID_COND_TIMESTEP = fl (999 / 1000)"

definition MINIMAX_H3_AUDIO_REF_COND_TIMESTEP :: pyfloat where
  "MINIMAX_H3_AUDIO_REF_COND_TIMESTEP = Fin 1"

definition minimax_h3_condition_noise_aug :: "'f h3_batch \<Rightarrow> (pyfloat \<times> pyfloat) res" where
  "minimax_h3_condition_noise_aug b =
     (let img = (if hb_imgvid_noise_aug b = PNone then PFloat MINIMAX_H3_IMGVID_COND_TIMESTEP else hb_imgvid_noise_aug b);
          audio = (if hb_audio_noise_aug b = PNone then PFloat MINIMAX_H3_AUDIO_REF_COND_TIMESTEP else hb_audio_noise_aug b)
      in rbind (py_float img) (\<lambda>i. rbind (py_float audio) (\<lambda>a. Inr (i, a))))"

text \<open>\<^verbatim>\<open>tuple(v or ())\<close>, and the list comparison \<^verbatim>\<open>[...] == [i, ...]\<close> with integers on the
  right.\<close>

definition py_tuple :: "pyval \<Rightarrow> pyval list res" where
  "py_tuple v = (if \<not> truthy v then Inr [] else py_iter v)"

definition eq_ints :: "pyval list \<Rightarrow> int list \<Rightarrow> bool" where
  "eq_ints vs ns = list_all2 eq_int vs ns"

text \<open>\<^verbatim>\<open>int(v or 0)\<close>.\<close>

definition int_else_zero :: "pyval \<Rightarrow> int res" where
  "int_else_zero v = (if truthy v then py_int v else Inr 0)"

definition entry_get :: "string \<Rightarrow> pyval \<Rightarrow> pyval" where
  "entry_get k e = (case e of PDict d \<Rightarrow> dget d k | _ \<Rightarrow> PNone)"

definition keyframe_pixels :: "int \<Rightarrow> int list \<Rightarrow> int list" where
  "keyframe_pixels frame_count sig = map (\<lambda>i. if i = -1 then frame_count - 1 else i) sig"

definition validate_keyframe_rows :: "'f cond_entry \<Rightarrow> int list \<Rightarrow> unit res" where
  "validate_keyframe_rows keyframe sig =
     rbind (int_else_zero (dget (ce_meta keyframe) ''latent_h'')) (\<lambda>latent_h.
     rbind (int_else_zero (dget (ce_meta keyframe) ''latent_w'')) (\<lambda>latent_w.
     case ce_rows keyframe of
       None \<Rightarrow> Inl (ValueError ''encoded keyframe rows do not match target-canvas blocks'')
     | Some rows \<Rightarrow> (case t_shape rows of
           [] \<Rightarrow> Inl IndexError
         | n # _ \<Rightarrow> raise_if (latent_h \<le> 0 \<or> latent_w \<le> 0 \<or>
               int n \<noteq> int (length sig) * (latent_h div 2) * (latent_w div 2))
             (ValueError ''encoded keyframe rows do not match target-canvas blocks'') (Inr ()))))"

definition validate_keyframe_entries :: "pydict \<Rightarrow> int list \<Rightarrow> int list \<Rightarrow> unit res" where
  "validate_keyframe_entries meta sig pixels = (case dget meta ''keyframes'' of
      PList entries \<Rightarrow>
        raise_if (length entries \<noteq> length sig \<or> \<not> list_all is_mapping entries)
          (ValueError ''keyframe denoising requires one encoded keyframe per semantic anchor'')
        (raise_if (\<not> eq_ints (map (entry_get ''frame_index'') entries) sig)
          (ValueError ''encoded keyframes must remain in semantic anchor order'')
        (raise_if (\<not> eq_ints (map (entry_get ''resolved_frame_index'') entries) pixels)
          (ValueError ''encoded keyframes must carry matching resolved_frame_index values'') (Inr ())))
    | _ \<Rightarrow> Inl (ValueError ''keyframe denoising requires one encoded keyframe per semantic anchor''))"

text \<open>A tuple of the supported signatures is found by value: \<open>0\<close>, \<open>0.0\<close> and \<open>False\<close> are equal in Python.\<close>

definition validate_keyframe_mapping :: "'f cond_entry \<Rightarrow> unit res" where
  "validate_keyframe_mapping keyframe =
     (let meta = ce_meta keyframe in
      rbind (py_tuple (dget meta ''semantic_frame_indices'')) (\<lambda>semantic.
      case find (eq_ints semantic) MINIMAX_H3_FL2VA_KEYFRAME_SIGNATURES of
        None \<Rightarrow> Inl (ValueError ''keyframe denoising requires semantic_frame_indices in the supported signatures'')
      | Some sig \<Rightarrow> (case dget meta ''frame_count'' of
            PInt frame_count \<Rightarrow>
              raise_if (frame_count \<le> 1) (ValueError ''keyframe payload frame_count must be greater than one'')
              (let pixels = keyframe_pixels frame_count sig in
               raise_if (\<not> (case dget meta ''pixel_frame_indices'' of PList l \<Rightarrow> eq_ints l pixels | _ \<Rightarrow> False))
                 (ValueError ''keyframe denoising requires pixel_frame_indices resolved from the semantic anchors'')
               (rbind (validate_keyframe_entries meta sig pixels) (\<lambda>_. validate_keyframe_rows keyframe sig)))
          | _ \<Rightarrow> Inl (ValueError ''keyframe payload requires an integer frame_count''))))"

definition validate_keyframe_payload :: "resolved_plan option \<Rightarrow> 'f cond_entry option \<Rightarrow> unit res" where
  "validate_keyframe_payload plan keyframe =
     (let task = map_option rp_task plan in
      if task \<noteq> Some ''fl2va'' \<and> task \<noteq> Some ''ref2va'' then
        raise_if (keyframe \<noteq> None)
          (ValueError ''keyframe condition rows require plan.task='fl2va' or 'ref2va' '') (Inr ())
      else case keyframe of
          None \<Rightarrow> raise_if (task = Some ''fl2va'')
            (ValueError ''fl2va denoising requires encoded keyframe condition rows'') (Inr ())
        | Some k \<Rightarrow> validate_keyframe_mapping k)"

section \<open>Reference payloads\<close>

type_synonym ref_block = pydict

definition meta_int :: "pydict \<Rightarrow> string \<Rightarrow> int res" where
  "meta_int d k = rbind (dindex d k) py_int"

definition entry_rows :: "'f cond_entry \<Rightarrow> 'f tensor res" where
  "entry_rows e = (case ce_rows e of None \<Rightarrow> Inl (KeyError ''rows'') | Some t \<Rightarrow> Inr t)"

text \<open>The first entry whose \<^verbatim>\<open>condition_index\<close> is given and equal.\<close>

fun find_entry :: "int \<Rightarrow> 'f cond_entry list \<Rightarrow> 'f cond_entry option res" where
  "find_entry condition_index [] = Inr None"
| "find_entry condition_index (e # es) =
     (if dget (ce_meta e) ''condition_index'' = PNone then find_entry condition_index es
      else rbind (py_int (dget (ce_meta e) ''condition_index'')) (\<lambda>i.
        if i = condition_index then Inr (Some e) else find_entry condition_index es))"

definition ref2va_payload_entry :: "'f ref_payload option \<Rightarrow> int \<Rightarrow> 'f cond_entry res" where
  "ref2va_payload_entry payload condition_index = (case payload of
      None \<Rightarrow> Inl (ValueError ''payload is required for ref2va condition rows'')
    | Some p \<Rightarrow> (case rf_entries p of
          Some entries \<Rightarrow> rbind (find_entry condition_index entries) (\<lambda>found. case found of
              Some e \<Rightarrow> Inr e
            | None \<Rightarrow> (case entries of [e] \<Rightarrow> Inr e | _ \<Rightarrow> Inl (ValueError ''missing entry for condition_index'')))
        | None \<Rightarrow>
            if dget (ce_meta (rf_self p)) ''condition_index'' = PNone then Inr (rf_self p)
            else rbind (py_int (dget (ce_meta (rf_self p)) ''condition_index'')) (\<lambda>i.
              raise_if (i \<noteq> condition_index) (ValueError ''missing entry for condition_index'') (Inr (rf_self p)))))"

definition image_block :: "'f ref_payload option \<Rightarrow> int \<Rightarrow> (ref_block \<times> 'f tensor list \<times> 'f tensor list) res" where
  "image_block ref_image index =
     rbind (ref2va_payload_entry ref_image index) (\<lambda>e.
     rbind (meta_int (ce_meta e) ''latent_h'') (\<lambda>h.
     rbind (meta_int (ce_meta e) ''latent_w'') (\<lambda>w.
     rbind (entry_rows e) (\<lambda>rows.
     Inr ([(''kind'', PStr ''image''), (''latent_h'', PInt h), (''latent_w'', PInt w)], [rows], [])))))"

definition audio_block :: "'f ref_payload option \<Rightarrow> int \<Rightarrow> (ref_block \<times> 'f tensor list \<times> 'f tensor list) res" where
  "audio_block ref_audio index =
     rbind (ref2va_payload_entry ref_audio index) (\<lambda>e.
     rbind (meta_int (ce_meta e) ''ref_audio_t'') (\<lambda>ref_audio_t.
     rbind (if 0 < ref_audio_t then rbind (entry_rows e) (\<lambda>r. Inr [r]) else Inr []) (\<lambda>rows.
     Inr ([(''kind'', PStr ''audio''), (''ref_audio_t'', PInt ref_audio_t)], [], rows))))"

definition video_block ::
  "string \<Rightarrow> 'f ref_payload option \<Rightarrow> 'f ref_payload option \<Rightarrow> int \<Rightarrow> (ref_block \<times> 'f tensor list \<times> 'f tensor list) res" where
  "video_block chain ref_video ref_audio index =
     rbind (ref2va_payload_entry ref_video index) (\<lambda>v.
     rbind (ref2va_payload_entry ref_audio index) (\<lambda>a.
     rbind (meta_int (ce_meta a) ''ref_audio_t'') (\<lambda>ref_audio_t.
     rbind (meta_int (ce_meta v) ''latent_t'') (\<lambda>t.
     rbind (meta_int (ce_meta v) ''latent_h'') (\<lambda>h.
     rbind (meta_int (ce_meta v) ''latent_w'') (\<lambda>w.
     rbind (entry_rows v) (\<lambda>rows.
     rbind (if 0 < ref_audio_t then rbind (entry_rows a) (\<lambda>r. Inr [r]) else Inr []) (\<lambda>audio.
     Inr ([(''kind'', PStr (if chain = ''video_audio.reference_preserve'' then ''video_audio'' else ''video'')),
           (''ref_audio_t'', PInt ref_audio_t), (''latent_t'', PInt t), (''latent_h'', PInt h), (''latent_w'', PInt w)],
          [rows], audio)))))))))"

definition ref2va_block ::
  "'f ref_payload option \<Rightarrow> 'f ref_payload option \<Rightarrow> 'f ref_payload option \<Rightarrow> material_item \<Rightarrow>
   ref_block list \<times> 'f tensor list \<times> 'f tensor list \<Rightarrow> (ref_block list \<times> 'f tensor list \<times> 'f tensor list) res" where
  "ref2va_block ref_image ref_audio ref_video material acc =
     (let chain = mi_material_chain material; index = int (mi_condition_index material);
          add = (\<lambda>(block, v, a). case acc of (blocks, visual, audio) \<Rightarrow> Inr (blocks @ [block], visual @ v, audio @ a)) in
      if chain = ''image.target_canvas'' then Inr acc
      else if chain = ''image.reference_preserve'' then rbind (image_block ref_image index) add
      else if chain = ''audio'' then rbind (audio_block ref_audio index) add
      else if chain = ''video.reference_preserve'' \<or> chain = ''video_audio.reference_preserve''
        then rbind (video_block chain ref_video ref_audio index) add
      else Inl (ValueError ''unsupported ref2va material chain''))"

definition ref2va_ordered_blocks_and_rows ::
  "resolved_plan \<Rightarrow> 'f ref_payload option \<Rightarrow> 'f ref_payload option \<Rightarrow> 'f ref_payload option \<Rightarrow>
   (ref_block list \<times> 'f tensor option \<times> 'f tensor option) res" where
  "ref2va_ordered_blocks_and_rows plan ref_image ref_audio ref_video =
     rbind (rfold (ref2va_block ref_image ref_audio ref_video) (rp_materials plan) ([], [], [])) (\<lambda>(blocks, visual, audio).
     rbind (cat_optional visual) (\<lambda>v. rbind (cat_optional audio) (\<lambda>a. Inr (blocks, v, a))))"

section \<open>The context of one run\<close>

record 'f loop_ctx =
  lc_plan :: "resolved_plan option"
  lc_keyframe :: "'f cond_entry option"
  lc_ref_image :: "'f ref_payload option"
  lc_ref_audio :: "'f ref_payload option"
  lc_ref_video :: "'f ref_payload option"
  lc_is_ref2va :: bool
  lc_embedding :: "'f text_embedding"
  lc_state :: "'f denoise_state"
  lc_sigmas :: "pyfloat list \<times> pyfloat list"
  lc_blocks :: "ref_block list option"
  lc_cond_rows :: "'f tensor option"
  lc_audio_ref_rows :: "'f tensor option"
  lc_include_cond :: bool
  lc_keyframe_indices :: "int list option"
  lc_frame_count :: "int option"

definition resolve_full_loop_context :: "('f h3_batch, 'f loop_ctx) act" where
  "resolve_full_loop_context b = (case (hb_text b, hb_state b, hb_schedules b) of
      (None, _, _) \<Rightarrow> (Inl (KeyError ''minimax_h3_text_embeddings''), b)
    | (_, None, _) \<Rightarrow> (Inl (KeyError ''minimax_h3_denoise_state''), b)
    | (_, _, None) \<Rightarrow> (Inl (KeyError ''minimax_h3_sigmas''), b)
    | (Some te, Some state, Some sigmas) \<Rightarrow> abind h3_plan (\<lambda>plan b.
        (rbind (validate_keyframe_payload plan (hb_keyframe b)) (\<lambda>_.
         Inr \<lparr>lc_plan = plan, lc_keyframe = hb_keyframe b, lc_ref_image = hb_ref_image b,
              lc_ref_audio = hb_ref_audio b, lc_ref_video = hb_ref_video b,
              lc_is_ref2va = (hb_ref_image b \<noteq> None \<or> hb_ref_audio b \<noteq> None \<or> hb_ref_video b \<noteq> None),
              lc_embedding = te, lc_state = state, lc_sigmas = sigmas, lc_blocks = None, lc_cond_rows = None,
              lc_audio_ref_rows = None, lc_include_cond = False, lc_keyframe_indices = None, lc_frame_count = None\<rparr>), b)) b)"

text \<open>The anchors of a keyframe payload: \<^verbatim>\<open>[int(v) for v in raw_indices]\<close> and \<^verbatim>\<open>int(keyframe["frame_count"])\<close>.\<close>

definition keyframe_anchors :: "'f cond_entry \<Rightarrow> (int list \<times> int) res" where
  "keyframe_anchors k =
     rbind (rbind (py_iter (dget (ce_meta k) ''semantic_frame_indices'')) (rmap py_int)) (\<lambda>indices.
     rbind (meta_int (ce_meta k) ''frame_count'') (\<lambda>n. Inr (indices, n)))"

definition assemble_ref2va_rows :: "'f loop_ctx \<Rightarrow> 'f loop_ctx res" where
  "assemble_ref2va_rows ctx = (case lc_plan ctx of
      None \<Rightarrow> Inl (ValueError ''ref2va reference extras require a resolved plan'')
    | Some plan \<Rightarrow>
        rbind (ref2va_ordered_blocks_and_rows plan (lc_ref_image ctx) (lc_ref_audio ctx) (lc_ref_video ctx))
          (\<lambda>(blocks, ref_rows, audio_rows).
        rbind (case lc_keyframe ctx of None \<Rightarrow> Inr [] | Some k \<Rightarrow> rbind (entry_rows k) (\<lambda>r. Inr [r])) (\<lambda>parts.
        rbind (cat_optional (parts @ (case ref_rows of None \<Rightarrow> [] | Some r \<Rightarrow> [r]))) (\<lambda>cond.
        Inr (ctx\<lparr>lc_blocks := Some blocks, lc_audio_ref_rows := audio_rows, lc_cond_rows := cond,
                 lc_include_cond := (cond \<noteq> None)\<rparr>)))))"

definition assemble_keyframe_rows :: "'f loop_ctx \<Rightarrow> 'f loop_ctx res" where
  "assemble_keyframe_rows ctx =
     rbind (case lc_keyframe ctx of None \<Rightarrow> Inr None | Some k \<Rightarrow> rbind (entry_rows k) (\<lambda>r. Inr (Some r))) (\<lambda>cond.
     Inr (ctx\<lparr>lc_cond_rows := cond, lc_audio_ref_rows := None, lc_include_cond := (lc_keyframe ctx \<noteq> None)\<rparr>))"

definition assemble_condition_rows :: "'f loop_ctx \<Rightarrow> 'f loop_ctx res" where
  "assemble_condition_rows ctx =
     rbind (if lc_is_ref2va ctx then assemble_ref2va_rows ctx else assemble_keyframe_rows ctx) (\<lambda>c.
     case lc_keyframe c of
       None \<Rightarrow> Inr c
     | Some k \<Rightarrow> rbind (keyframe_anchors k) (\<lambda>(indices, n).
         Inr (c\<lparr>lc_keyframe_indices := Some indices, lc_frame_count := Some n\<rparr>)))"

section \<open>Layout\<close>

text \<open>\<^verbatim>\<open>torch.arange\<close> and the views of the layout raise on a negative length; the builders are modelled on lengths.\<close>

definition layout_len :: "int \<Rightarrow> nat res" where
  "layout_len n = raise_if (n < 0) (RuntimeError ''upper bound and larger bound inconsistent with step sign'') (Inr (nat n))"

definition build_packed_layout :: "num_kernels \<Rightarrow> 'f loop_ctx \<Rightarrow> bool \<Rightarrow> packed res" where
  "build_packed_layout nk ctx include_video_pos =
     (let s = lc_state ctx; kfi = map_option (map PInt) (lc_keyframe_indices ctx) in
      raise_if (lc_is_ref2va ctx \<and> lc_blocks ctx = None) (ValueError ''ref2va ordered reference blocks missing'')
      (rbind (rbind (py_int (te_text_len (lc_embedding ctx))) layout_len) (\<lambda>text_len.
       rbind (layout_len (ds_latent_t s)) (\<lambda>t. rbind (layout_len (ds_latent_h s)) (\<lambda>h.
       rbind (layout_len (ds_latent_w s)) (\<lambda>w. rbind (layout_len (ds_audio_t s)) (\<lambda>audio_t.
       if lc_is_ref2va ctx then
         minimax_h3_packed_sequence_ref2va_blocks nk text_len t h w audio_t
           (PList (map PDict (case lc_blocks ctx of Some bs \<Rightarrow> bs | None \<Rightarrow> []))) kfi (lc_frame_count ctx) 2 None include_video_pos
       else
         minimax_h3_packed_sequence nk text_len t h w audio_t 2 (lc_include_cond ctx)
           (if lc_include_cond ctx then kfi else None) (lc_frame_count ctx) include_video_pos))))))) "

text \<open>\<^verbatim>\<open>tags[text_pos] = values\<close>: one value for each position, or one for all of them.\<close>

definition index_put :: "nat list \<Rightarrow> 'a list \<Rightarrow> 'a list \<Rightarrow> 'a list res" where
  "index_put pos vals xs =
     (if length vals = length pos then Inr (fold (\<lambda>(i, v) xs. xs[i := v]) (zip pos vals) xs)
      else case vals of
          [v] \<Rightarrow> Inr (fold (\<lambda>i xs. xs[i := v]) pos xs)
        | _ \<Rightarrow> Inl (RuntimeError ''shape mismatch: value tensor cannot be broadcast to indexing result''))"

definition layout_tags :: "packed \<Rightarrow> 'f text_embedding \<Rightarrow> int list res" where
  "layout_tags p te = index_put (pk_text_pos p) (te_token_tags te) (pk_token_tags p)"

definition layout_queries :: "bool \<Rightarrow> packed \<Rightarrow> 'f text_embedding \<Rightarrow> nat list option res" where
  "layout_queries subblock p te = (if \<not> subblock then Inr None else case pk_video_pos p of
      None \<Rightarrow> Inl (KeyError ''video_pos'')
    | Some video_pos \<Rightarrow> rbind (subblock_video_query_indices video_pos (pk_text_pos p) (te_video_token_mask te)) (\<lambda>q. Inr (Some q)))"

section \<open>Noise of the conditions\<close>

definition keyframe_shapes :: "'f cond_entry \<Rightarrow> int list list res" where
  "keyframe_shapes k = (case dget (ce_meta k) ''keyframes'' of
      PList (e # es) \<Rightarrow> rmap (\<lambda>entry. case entry of
          PDict d \<Rightarrow> rbind (meta_int d ''latent_h'') (\<lambda>h. rbind (meta_int d ''latent_w'') (\<lambda>w. Inr [1, h, w]))
        | _ \<Rightarrow> Inl (TypeError ''object is not subscriptable'')) (e # es)
    | _ \<Rightarrow>
        rbind (meta_int (ce_meta k) ''latent_h'') (\<lambda>h.
        rbind (meta_int (ce_meta k) ''latent_w'') (\<lambda>w.
        rbind (entry_rows k) (\<lambda>rows.
        let frame_rows = (h div 2) * (w div 2) in
        case t_shape rows of
          [] \<Rightarrow> (if frame_rows \<le> 0 then Inl (ValueError ''legacy keyframe rows cannot be split'') else Inl IndexError)
        | n # _ \<Rightarrow> raise_if (frame_rows \<le> 0 \<or> int n mod frame_rows \<noteq> 0) (ValueError ''legacy keyframe rows cannot be split'')
            (Inr (replicate (nat (int n div frame_rows)) [1, h, w]))))))"

definition block_shape :: "ref_block \<Rightarrow> int list list res" where
  "block_shape block = rbind (dindex block ''kind'') (\<lambda>kind.
     if py_str kind = ''image'' then
       rbind (meta_int block ''latent_h'') (\<lambda>h. rbind (meta_int block ''latent_w'') (\<lambda>w. Inr [[1, h, w]]))
     else if py_str kind = ''video'' \<or> py_str kind = ''video_audio'' then
       rbind (meta_int block ''latent_t'') (\<lambda>t. rbind (meta_int block ''latent_h'') (\<lambda>h.
       rbind (meta_int block ''latent_w'') (\<lambda>w. Inr [[t, h, w]])))
     else Inr [])"

definition imgvid_condition_shapes :: "ref_block list option \<Rightarrow> 'f cond_entry option \<Rightarrow> bool \<Rightarrow> int list list res" where
  "imgvid_condition_shapes blocks keyframe is_ref2va =
     rbind (case keyframe of None \<Rightarrow> Inr [] | Some k \<Rightarrow> keyframe_shapes k) (\<lambda>shapes.
     case blocks of
       Some bs \<Rightarrow> rbind (rmap block_shape bs) (\<lambda>more. Inr (shapes @ concat more))
     | None \<Rightarrow> raise_if is_ref2va (ValueError ''ref2va visual-condition shapes require ordered blocks'') (Inr shapes))"

definition block_audio_length :: "ref_block \<Rightarrow> int list res" where
  "block_audio_length block = rbind (dindex block ''kind'') (\<lambda>kind.
     if py_str kind \<in> {''audio'', ''video'', ''video_audio''} then
       rbind (meta_int block ''ref_audio_t'') (\<lambda>t. Inr (if 0 < t then [t] else []))
     else Inr [])"

definition entry_audio_length :: "'f cond_entry \<Rightarrow> int list res" where
  "entry_audio_length e = rbind (meta_int (ce_meta e) ''ref_audio_t'') (\<lambda>t. Inr (if 0 < t then [t] else []))"

definition condition_audio_lengths :: "'f loop_ctx \<Rightarrow> int list res" where
  "condition_audio_lengths ctx = (case lc_blocks ctx of
      Some bs \<Rightarrow> rbind (rmap block_audio_length bs) (\<lambda>ls. Inr (concat ls))
    | None \<Rightarrow> (case lc_ref_audio ctx of
          None \<Rightarrow> Inr []
        | Some p \<Rightarrow> (case rf_entries p of
              Some es \<Rightarrow> rbind (rmap entry_audio_length es) (\<lambda>ls. Inr (concat ls))
            | None \<Rightarrow> if dget (ce_meta (rf_self p)) ''ref_audio_t'' = PNone then Inr []
                else entry_audio_length (rf_self p))))"

definition noise_seed :: "resolved_plan option \<Rightarrow> pyval \<Rightarrow> int res" where
  "noise_seed plan sampling_seed =
     (let s = (case plan of None \<Rightarrow> PNone | Some p \<Rightarrow> rp_seed p);
          s = (if s = PNone then sampling_seed else s);
          s = (if s = PNone then PInt 42 else s)
      in py_int s)"

definition noise_visual_rows :: "'f torch_env \<Rightarrow> pyval \<Rightarrow> pyfloat \<Rightarrow> 'f loop_ctx \<Rightarrow> 'f loop_ctx res" where
  "noise_visual_rows env sampling_seed aug ctx = (case lc_cond_rows ctx of
      None \<Rightarrow> Inr ctx
    | Some rows \<Rightarrow> if \<not> flt aug (Fin 1) then Inr ctx else
        rbind (imgvid_condition_shapes (lc_blocks ctx) (lc_keyframe ctx) (lc_is_ref2va ctx)) (\<lambda>shapes.
        raise_if (shapes = []) (ValueError ''imgvid condition rows are missing shape metadata'')
        (rbind (noise_seed (lc_plan ctx) sampling_seed) (\<lambda>seed.
         rbind (minimax_h3_imgvid_cond_noise_aug_rows (tv_ops env) (tv_randn env) rows shapes (ds_latent_t (lc_state ctx))
                 (int (length shapes)) seed aug) (\<lambda>r.
         Inr (ctx\<lparr>lc_cond_rows := Some r\<rparr>))))))"

definition noise_audio_rows :: "'f torch_env \<Rightarrow> pyval \<Rightarrow> pyfloat \<Rightarrow> 'f loop_ctx \<Rightarrow> 'f loop_ctx res" where
  "noise_audio_rows env sampling_seed aug ctx = (case lc_audio_ref_rows ctx of
      None \<Rightarrow> Inr ctx
    | Some rows \<Rightarrow> if \<not> flt aug (Fin 1) then Inr ctx else
        rbind (condition_audio_lengths ctx) (\<lambda>lengths.
        raise_if (lengths = []) (ValueError ''audio condition rows are missing length metadata'')
        (rbind (noise_seed (lc_plan ctx) sampling_seed) (\<lambda>seed.
         rbind (minimax_h3_audio_cond_noise_aug_rows (tv_ops env) (tv_randn env) rows lengths seed aug) (\<lambda>r.
         Inr (ctx\<lparr>lc_audio_ref_rows := Some r\<rparr>))))))"

definition apply_condition_noise_aug :: "'f torch_env \<Rightarrow> pyval \<Rightarrow> pyfloat \<Rightarrow> pyfloat \<Rightarrow> 'f loop_ctx \<Rightarrow> 'f loop_ctx res" where
  "apply_condition_noise_aug env sampling_seed img_aug audio_aug ctx =
     rbind (noise_visual_rows env sampling_seed img_aug ctx) (noise_audio_rows env sampling_seed audio_aug)"

section \<open>Running the loop\<close>

text \<open>\<^verbatim>\<open>full = torch.zeros(n, width); full[mask] = rows\<close>.\<close>

definition scatter_rows :: "'f fp32_ops \<Rightarrow> nat \<Rightarrow> bool list \<Rightarrow> nat \<Rightarrow> 'f rows \<Rightarrow> 'f rows res" where
  "scatter_rows ops n msk width rows =
     raise_if (length msk \<noteq> n) IndexError
       (index_put (filter ((!) msk) [0..<n]) rows (zero_rows ops n width))"

definition tensor_width :: "'f tensor \<Rightarrow> nat res" where
  "tensor_width t = (case t_shape t of [n, w] \<Rightarrow> Inr w | _ \<Rightarrow> Inl IndexError)"

definition expand_initial_rows :: "'f fp32_ops \<Rightarrow> 'f loop_ctx \<Rightarrow> 'f branch \<Rightarrow> ('f rows \<times> 'f rows) res" where
  "expand_initial_rows ops ctx positive =
     (let s = lc_state ctx in
      rbind (tensor_rows (ds_video s)) (\<lambda>video. rbind (tensor_width (ds_video s)) (\<lambda>vw.
      rbind (if lc_include_cond ctx
             then scatter_rows ops (length (br_img_pos positive)) (br_update_mask positive) vw video
             else Inr video) (\<lambda>video.
      rbind (tensor_rows (ds_audio s)) (\<lambda>audio. rbind (tensor_width (ds_audio s)) (\<lambda>aw.
      rbind (if lc_audio_ref_rows ctx \<noteq> None
             then scatter_rows ops (length (br_audio_pos positive)) (br_audio_update_mask positive) aw audio
             else Inr audio) (\<lambda>audio.
      Inr (video, audio))))))))"

definition full_loop_outputs :: "'f loop_ctx \<Rightarrow> 'f branch \<Rightarrow> 'f rows \<Rightarrow> 'f rows \<Rightarrow> ('f tensor \<times> 'f tensor) res" where
  "full_loop_outputs ctx positive video_rows audio_rows =
     (let s = lc_state ctx in
      rbind (tensor_width (ds_video s)) (\<lambda>vw. rbind (tensor_width (ds_audio s)) (\<lambda>aw.
      rbind (minimax_h3_unpatchify_video_tokens (rows_tensor vw (drop (br_video_target_start positive) video_rows))
              [ds_latent_t s, ds_latent_h s div 2, ds_latent_w s div 2, 24] [1, 2, 2]) (\<lambda>latents.
      rbind (minimax_h3_unpack_audio_tokens (rows_tensor aw (drop (br_audio_target_start positive) audio_rows))
              (ds_audio_t s * 2) 2) (\<lambda>audio.
      Inr (latents, audio))))))"

section \<open>Attention metadata\<close>

text \<open>The attention settings of the server, and the metadata builders of the cube-sparse and hybrid backends, which
  see the layout and may raise.\<close>

record attention_env =
  ae_component_backends :: pydict
  ae_attention_backend :: pyval
  ae_resolved_vsa :: bool
  ae_config :: pydict
  ae_cube_build :: "packed \<Rightarrow> pyval \<Rightarrow> pyval \<Rightarrow> nat \<Rightarrow> unit res"
  ae_hybrid_build :: "packed \<Rightarrow> int \<times> int \<times> int \<Rightarrow> unit res"

definition build_cube_attn_metadata :: "attention_env \<Rightarrow> packed \<Rightarrow> nat \<Rightarrow> unit res" where
  "build_cube_attn_metadata ae packed num_steps =
     (if lower (py_str (dget_or (ae_component_backends ae) ''transformer'' (ae_attention_backend ae))) \<noteq> ''cube_sparse_attn''
      then Inr ()
      else let cube = dget (ae_config ae) ''local_cube_size''; topk = dget (ae_config ae) ''topk_ratio_list'' in
        raise_if (\<not> truthy cube \<or> \<not> truthy topk)
          (ValueError ''cube_sparse_attn requires --attention-backend-config with local_cube_size and topk_ratio_list'')
          (ae_cube_build ae packed cube topk num_steps))"

record vsa_settings =
  vs_sparsity :: pyfloat
  vs_exempt :: bool
  vs_dense_first_n_steps :: int
  vs_dense_layers :: "int list"
  vs_prefix_segments :: "int \<times> int \<times> int"

text \<open>The rows before the target video: text, conditions, audio.\<close>

definition prefix_segments :: "packed \<Rightarrow> int \<times> int \<times> int" where
  "prefix_segments p =
     (int (length (pk_text_pos p)), int (length (pk_img_pos p)) - int (length (filter id (pk_update_mask p))),
      int (length (pk_audio_pos p)))"

definition prepare_vsa_h3_step_metadata :: "attention_env \<Rightarrow> packed \<Rightarrow> bool \<Rightarrow> vsa_settings option res" where
  "prepare_vsa_h3_step_metadata ae packed is_ref2va =
     (let config = ae_config ae in
      if \<not> ae_resolved_vsa ae then Inr None
      else raise_if is_ref2va (NotImplementedError ''VSA-H3 supports the t2va/fl2va packed layout'')
      (rbind (py_int (dget_or config ''vsa_tile_size'' (PInt 64))) (\<lambda>tile_size.
       raise_if (tile_size \<noteq> 64) (ValueError ''VSA-H3 in SGLang serves the trained 64-token tile geometry'')
      (rbind (py_float (dget_or config ''VSA_sparsity'' (dget_or config ''sparsity'' (PFloat (fl (9 / 10)))))) (\<lambda>sparsity.
       raise_if (\<not> (fle (Fin 0) sparsity \<and> flt sparsity (Fin 1))) (ValueError ''VSA sparsity must be in [0, 1)'')
      (let mode = py_str (dget_or config ''vsa_mode'' (PStr ''exempt'')) in
       raise_if (mode \<noteq> ''exempt'' \<and> mode \<noteq> ''compete'') (ValueError ''vsa_mode must be 'exempt' or 'compete' '')
      (rbind (py_int (dget_or config ''vsa_dense_first_n_steps'' (PInt 0))) (\<lambda>dense_first.
       rbind (rbind (py_iter (dget_or config ''vsa_dense_layers'' (PList []))) (rmap py_int)) (\<lambda>layers.
       Inr (Some \<lparr>vs_sparsity = sparsity, vs_exempt = (mode = ''exempt''), vs_dense_first_n_steps = dense_first,
                  vs_dense_layers = layers, vs_prefix_segments = prefix_segments packed\<rparr>))))))))))"

text \<open>\<^verbatim>\<open>_precompute_refined_prompt_embeds\<close>: the refined rows are kept with the embedding, so outputs that share it
  refine once.\<close>

definition precompute_refined_prompt_embeds ::
  "('f rows \<Rightarrow> 'f rows) option \<Rightarrow> 'f branch \<Rightarrow> 'f text_embedding \<Rightarrow> ('f branch \<times> 'f text_embedding) res" where
  "precompute_refined_prompt_embeds refine positive te = (case refine of
      None \<Rightarrow> Inr (positive, te)
    | Some f \<Rightarrow>
        let prompt = br_text_rows positive;
            refined = (case te_refined te of Some r \<Rightarrow> r | None \<Rightarrow> f prompt) in
        raise_if (length refined \<noteq> length prompt) (ValueError ''MiniMax H3 refined prompt row count changed'')
          (Inr (positive\<lparr>br_text_rows := refined\<rparr>, te\<lparr>te_refined := Some refined\<rparr>)))"

text \<open>\<^verbatim>\<open>_precompute_rope_cache\<close>: a transformer that can build its rotary tables builds them once from the positions.\<close>

definition precompute_rope_cache ::
  "(('f \<times> 'f \<times> 'f) list \<Rightarrow> 'f rows res) option \<Rightarrow> 'f branch \<Rightarrow> 'f branch res" where
  "precompute_rope_cache build positive = (case build of
      None \<Rightarrow> Inr positive
    | Some f \<Rightarrow> rbind (f (br_position_ids positive)) (\<lambda>c. Inr (positive\<lparr>br_rope_cache := Some c\<rparr>)))"

section \<open>The stage\<close>

text \<open>What the run needs beside the batch: the platform, sparsity and parallel groups of the server, the kernels
  of the position grids, the step caching of the server with the caching fields of the request, the parent's other
  accelerations (request-level attention settings and fusions before the caching step, compilation after it) and the
  transformer.\<close>

record ('f, 's, 'm) sink_env =
  se_torch :: "'f torch_env"
  se_platform_supported :: bool
  se_subblock :: bool
  se_kernels :: num_kernels
  se_sp :: sp_ctx
  se_attention :: attention_env
  se_cache_server :: cache_server
  se_cache_lib :: cache_lib
  se_cache_request :: "'f h3_batch \<Rightarrow> cache_request"
  se_tune :: "'f h3_batch \<Rightarrow> 'm \<Rightarrow> 'm res"
  se_compile :: "'m \<Rightarrow> 'm res"
  se_refine :: "('f rows \<Rightarrow> 'f rows) option"
  se_build_rope :: "(('f \<times> 'f \<times> 'f) list \<Rightarrow> 'f rows res) option"
  se_dit :: "('f, 's, 'm) dit"

record 'f prepared_run =
  pr_ctx :: "'f loop_ctx"
  pr_positive :: "'f branch"
  pr_img_aug :: pyfloat
  pr_audio_aug :: pyfloat

text \<open>\<^verbatim>\<open>_maybe_enable_cache_dit_and_torch_compile\<close>: the stage keeps the mount, the transformer its own state.\<close>

definition accelerate ::
  "('f, 's, 'm) sink_env \<Rightarrow> int \<Rightarrow> 'f h3_batch \<Rightarrow> mount \<times> 'm \<Rightarrow> (mount \<times> 'm) res" where
  "accelerate se n b st = (case st of (mt, m) \<Rightarrow>
     rbind (se_tune se b m) (\<lambda>m.
     case maybe_enable_cache_dit (se_cache_server se) (se_cache_lib se) (se_cache_request se b) n mt of
       (Inl e, _) \<Rightarrow> Inl e
     | (Inr _, mt') \<Rightarrow> rbind (se_compile se m) (\<lambda>m. Inr (mt', m))))"

text \<open>From the condition rows to the branch: rows, layout, tags, noise, attention metadata.\<close>

definition prepare_run :: "('f::linorder, 's, 'm) sink_env \<Rightarrow> 'f h3_batch \<Rightarrow> 'f loop_ctx \<Rightarrow> 'f prepared_run res" where
  "prepare_run se b ctx =
     (let ops = tv_ops (se_torch se); ae = se_attention se; s = lc_state ctx in
      rbind (assemble_condition_rows ctx) (\<lambda>c.
      rbind (build_packed_layout (se_kernels se) c (se_subblock se)) (\<lambda>packed.
      rbind (layout_tags packed (lc_embedding c)) (\<lambda>tags.
      rbind (layout_queries (se_subblock se) packed (lc_embedding c)) (\<lambda>queries.
      rbind (minimax_h3_condition_noise_aug b) (\<lambda>(img_aug, audio_aug).
      rbind (apply_condition_noise_aug (se_torch se) (hb_sampling_seed b) img_aug audio_aug c) (\<lambda>c.
      rbind (build_cube_attn_metadata ae packed (length (fst (lc_sigmas c)) - 1)) (\<lambda>_.
      rbind (prepare_vsa_h3_step_metadata ae packed (lc_is_ref2va c)) (\<lambda>vsa.
      rbind (if vsa = None then ae_hybrid_build ae packed (ds_latent_t s, ds_latent_h s, ds_latent_w s) else Inr ()) (\<lambda>_.
      rbind (denoise_branch_init ops packed (te_hidden_states (lc_embedding c)) tags queries (se_sp se)) (\<lambda>positive.
      Inr \<lparr>pr_ctx = c, pr_positive = positive, pr_img_aug = img_aug, pr_audio_aug = audio_aug\<rparr>)))))))))))"

definition finish_run ::
  "('f::linorder, 's, 'm) sink_env \<Rightarrow> 'm \<Rightarrow> 'f prepared_run \<Rightarrow> 'f branch \<Rightarrow> (('f tensor \<times> 'f tensor) \<times> 'm) res" where
  "finish_run se m run positive =
     (let ops = tv_ops (se_torch se); c = pr_ctx run; (sv, sa) = lc_sigmas c in
      rbind (expand_initial_rows ops c positive) (\<lambda>(initial_video, initial_audio).
      rbind (optional_rows (lc_cond_rows c)) (\<lambda>cond.
      rbind (optional_rows (lc_audio_ref_rows c)) (\<lambda>refs.
      rbind (minimax_h3_denoise_loop ops (se_dit se) m positive initial_video initial_audio cond refs sv sa
               (pr_img_aug run) (pr_audio_aug run)) (\<lambda>st.
      rbind (full_loop_outputs c positive (ls_video st) (ls_audio st)) (\<lambda>out. Inr (out, ls_model st)))))))"

text \<open>The state of the stage and of the transformer is threaded; the value is that state after the run. After an error it
  is not: what the caching step leaves behind then is the subject of \<open>mount_reach\<close>.\<close>

definition run_full_loop :: "('f::linorder, 's, 'm) sink_env \<Rightarrow> mount \<times> 'm \<Rightarrow> ('f h3_batch, mount \<times> 'm) act" where
  "run_full_loop se st = abind resolve_full_loop_context (\<lambda>ctx b.
     if \<not> se_platform_supported se
     then (Inl (RuntimeError ''MiniMax H3 full-loop denoise requires CPU, CUDA, MPS, XPU, or Ascend NPU''), b)
     else case accelerate se (int (length (fst (lc_sigmas ctx))) - 1) b st of
       Inl e \<Rightarrow> (Inl e, b)
     | Inr (mt, m) \<Rightarrow> (case prepare_run se b ctx of
         Inl e \<Rightarrow> (Inl e, b)
       | Inr run \<Rightarrow> (case precompute_refined_prompt_embeds (se_refine se) (pr_positive run) (lc_embedding ctx) of
           Inl e \<Rightarrow> (Inl e, b)
         | Inr (positive, te) \<Rightarrow>
             let b = b\<lparr>hb_text := Some te\<rparr> in
             (case rbind (precompute_rope_cache (se_build_rope se) positive) (finish_run se m run) of
                Inl e \<Rightarrow> (Inl e, b)
              | Inr ((latents, audio), m') \<Rightarrow>
                  (Inr (mt, m'), b\<lparr>hb_latents := Some latents, hb_audio_latents := Some audio\<rparr>)))))"

text \<open>\<^verbatim>\<open>_forward_native\<close>: a batch with text embeddings runs the loop; without them it must not carry latents or
  timesteps.\<close>

definition denoising_forward ::
  "('f::linorder, 's, 'm) sink_env \<Rightarrow> mount \<times> 'm \<Rightarrow> ('f h3_batch, mount \<times> 'm) act" where
  "denoising_forward se m b =
     (if hb_text b \<noteq> None then
        if hb_state b = None then (Inl (ValueError ''direct full-loop denoise requires the denoise state''), b)
        else if hb_schedules b = None then (Inl (ValueError ''direct full-loop denoise requires the sigma schedules''), b)
        else run_full_loop se m b
      else if hb_latents b \<noteq> None \<or> hb_audio_latents b \<noteq> None \<or> hb_timestep b \<noteq> None \<or> hb_timesteps b \<noteq> None
        then (Inl (NotImplementedError ''MiniMaxH3DenoisingStage requires the canonical direct pipeline''), b)
      else (Inr m, b))"

text \<open>The last stages of \<^verbatim>\<open>create_pipeline_stages\<close> before decoding: initial noise, schedules, denoising.\<close>

definition sample_stages ::
  "('f::linorder, 's, 'm) sink_env \<Rightarrow> pyval \<Rightarrow> pdd_config option \<Rightarrow> mount \<times> 'm \<Rightarrow> ('f h3_batch, mount \<times> 'm) act" where
  "sample_stages se model_scales config m =
     abind (latent_forward (se_torch se)) (\<lambda>_.
     abind (timestep_forward (se_torch se) model_scales config) (\<lambda>_. denoising_forward se m))"

end
