(* ===== verification/Full_Loop_Correct.thy ===== *)
theory Full_Loop_Correct
  imports Full_Loop
begin

text \<open>
  The contract of the denoising stage. An encoded keyframe payload is accepted exactly if it is well formed, and a
  text-to-video or keyframe run on a well-shaped state returns latents and audio of the shapes the decoder reads.
\<close>

section \<open>Rows and tensors\<close>

definition width_ok :: "nat \<Rightarrow> 'f rows \<Rightarrow> bool" where
  "width_ok w rows \<longleftrightarrow> (\<forall>r \<in> set rows. length r = w)"

lemma concat_chunks: "length xs = n * w \<Longrightarrow> concat (map (\<lambda>i. take w (drop (i * w) xs)) [0..<n]) = xs"
proof (induction n arbitrary: xs)
  case (Suc n)
  have "map (\<lambda>i. take w (drop (i * w) xs)) [0..<Suc n] =
      map (\<lambda>i. take w (drop (i * w) (take (n * w) xs))) [0..<n] @ [drop (n * w) xs]"
  proof -
    have "take w (drop (i * w) xs) = take w (drop (i * w) (take (n * w) xs))" if "i < n" for i
    proof -
      have "Suc i * w \<le> n * w" using that by (intro mult_right_mono) auto
      then show ?thesis by (simp add: drop_take min_def)
    qed
    then show ?thesis using Suc.prems by simp
  qed
  then have "concat (map (\<lambda>i. take w (drop (i * w) xs)) [0..<Suc n]) =
      concat (map (\<lambda>i. take w (drop (i * w) (take (n * w) xs))) [0..<n]) @ drop (n * w) xs" by (simp only: concat_append) simp
  also have "\<dots> = take (n * w) xs @ drop (n * w) xs" using Suc.prems by (subst Suc.IH) simp_all
  finally show ?case by simp
qed simp

lemma tensor_rows_ok:
  assumes "tensor_ok t" and "t_shape t = [n, w]"
  obtains r where "tensor_rows t = Inr r" "length r = n" "width_ok w r" "concat r = t_data t"
proof (rule that)
  let ?r = "map (\<lambda>i. take w (drop (i * w) (t_data t))) [0..<n]"
  have l: "length (t_data t) = n * w" using assms by (simp add: tensor_ok_def)
  have "i * w + w \<le> n * w" if "i < n" for i
    using that mult_right_mono[of "Suc i" n w] by (simp add: add.commute)
  then have "w \<le> length (t_data t) - i * w" if "i < n" for i using that l by (metis add_le_imp_le_diff add.commute)
  then show "width_ok w ?r" by (auto simp: width_ok_def)
  show "tensor_rows t = Inr ?r" "length ?r = n" by (simp_all add: tensor_rows_def assms)
  show "concat ?r = t_data t" by (rule concat_chunks[OF l])
qed

lemma width_concat: "width_ok w rows \<Longrightarrow> length (concat rows) = length rows * w"
  by (induction rows) (auto simp: width_ok_def)

lemma rows_tensor_ok: "width_ok w rows \<Longrightarrow> tensor_ok (rows_tensor w rows)"
  by (simp add: tensor_ok_def rows_tensor_def width_concat)

lemma width_ok_same_shape: "same_shape xs ys \<Longrightarrow> width_ok w xs = width_ok w ys"
proof -
  assume "same_shape xs ys"
  then have "set (map length xs) = set (map length ys)" by (simp only: same_shape_def)
  moreover have "width_ok w zs \<longleftrightarrow> set (map length zs) \<subseteq> {w}" for zs :: "'a rows" by (auto simp: width_ok_def)
  ultimately show ?thesis by simp
qed

lemma width_ok_drop: "width_ok w rows \<Longrightarrow> width_ok w (drop n rows)"
  by (auto simp: width_ok_def dest: in_set_dropD)

section \<open>Keyframe payloads\<close>

text \<open>A well-formed payload: a supported signature, the resolved pixel indices, one entry per anchor in their order,
  and rows for every anchor of the canvas.\<close>

definition keyframe_ok :: "int list \<Rightarrow> int \<Rightarrow> int \<Rightarrow> int \<Rightarrow> 'f cond_entry \<Rightarrow> bool" where
  "keyframe_ok sig fc h w k \<longleftrightarrow> (let m = ce_meta k in
     sig \<in> set MINIMAX_H3_FL2VA_KEYFRAME_SIGNATURES \<and> 1 < fc \<and> 0 < h \<and> 0 < w \<and>
     (\<exists>sem. py_tuple (dget m ''semantic_frame_indices'') = Inr sem \<and> eq_ints sem sig) \<and>
     dget m ''frame_count'' = PInt fc \<and>
     (\<exists>l. dget m ''pixel_frame_indices'' = PList l \<and> eq_ints l (keyframe_pixels fc sig)) \<and>
     (\<exists>es. dget m ''keyframes'' = PList es \<and> list_all is_mapping es \<and>
        eq_ints (map (entry_get ''frame_index'') es) sig \<and>
        eq_ints (map (entry_get ''resolved_frame_index'') es) (keyframe_pixels fc sig)) \<and>
     int_else_zero (dget m ''latent_h'') = Inr h \<and> int_else_zero (dget m ''latent_w'') = Inr w \<and>
     (\<exists>rows n ns. ce_rows k = Some rows \<and> t_shape rows = n # ns \<and>
        int n = int (length sig) * (h div 2) * (w div 2)))"

lemma eq_int_py_int: "eq_int v n \<Longrightarrow> py_int v = Inr n"
  by (cases v) (auto simp: eq_int_def rat_trunc_def elim!: feq.elims split: if_splits)

lemma eq_ints_unique: "eq_ints vs ms \<Longrightarrow> eq_ints vs ns \<Longrightarrow> ms = ns"
proof (unfold eq_ints_def, induction vs ms arbitrary: ns rule: list_all2_induct)
  case (Cons v vs m ms)
  then obtain n ns' where "ns = n # ns'" "eq_int v n" "list_all2 eq_int vs ns'" by (cases ns) auto
  then show ?case using Cons eq_int_unique by blast
qed simp

lemma eq_ints_py_int: "eq_ints vs ns \<Longrightarrow> rmap py_int vs = Inr ns"
  by (unfold eq_ints_def, induction vs ns rule: list_all2_induct) (simp_all add: eq_int_py_int)

lemma find_signature:
  "find (eq_ints vs) sigs = Some sig \<longleftrightarrow> sig \<in> set sigs \<and> eq_ints vs sig"
  by (induction sigs) (auto dest: eq_ints_unique)

lemma validate_entries_iff:
  "validate_keyframe_entries m sig pixels = Inr () \<longleftrightarrow>
     (\<exists>es. dget m ''keyframes'' = PList es \<and> list_all is_mapping es \<and>
        eq_ints (map (entry_get ''frame_index'') es) sig \<and> eq_ints (map (entry_get ''resolved_frame_index'') es) pixels)"
  by (cases "dget m ''keyframes''")
    (auto simp: validate_keyframe_entries_def res_simps eq_ints_def dest: list_all2_lengthD)

lemma validate_rows_iff:
  "validate_keyframe_rows k sig = Inr () \<longleftrightarrow> (\<exists>h w rows n ns. int_else_zero (dget (ce_meta k) ''latent_h'') = Inr h \<and>
     int_else_zero (dget (ce_meta k) ''latent_w'') = Inr w \<and> 0 < h \<and> 0 < w \<and> ce_rows k = Some rows \<and>
     t_shape rows = n # ns \<and> int n = int (length sig) * (h div 2) * (w div 2))"
proof (cases "ce_rows k")
  case (Some rows)
  then show ?thesis by (cases "t_shape rows") (auto simp: validate_keyframe_rows_def res_simps not_le)
qed (simp add: validate_keyframe_rows_def res_simps)

lemma validate_keyframe_iff:
  "validate_keyframe_mapping k = Inr () \<longleftrightarrow> (\<exists>sig fc h w. keyframe_ok sig fc h w k)"
proof -
  have "validate_keyframe_mapping k = Inr () \<longleftrightarrow> (\<exists>sem sig fc l. py_tuple (dget (ce_meta k) ''semantic_frame_indices'') = Inr sem \<and>
      sig \<in> set MINIMAX_H3_FL2VA_KEYFRAME_SIGNATURES \<and> eq_ints sem sig \<and> dget (ce_meta k) ''frame_count'' = PInt fc \<and>
      1 < fc \<and> dget (ce_meta k) ''pixel_frame_indices'' = PList l \<and> eq_ints l (keyframe_pixels fc sig) \<and>
      validate_keyframe_entries (ce_meta k) sig (keyframe_pixels fc sig) = Inr () \<and> validate_keyframe_rows k sig = Inr ())"
  proof (cases "py_tuple (dget (ce_meta k) ''semantic_frame_indices'')")
    case (Inr sem)
    note sem = Inr
    show ?thesis
    proof (cases "find (eq_ints sem) MINIMAX_H3_FL2VA_KEYFRAME_SIGNATURES")
      case None
      then have "\<not> (sig \<in> set MINIMAX_H3_FL2VA_KEYFRAME_SIGNATURES \<and> eq_ints sem sig)" for sig
        using find_signature[of sem MINIMAX_H3_FL2VA_KEYFRAME_SIGNATURES sig] by simp
      then show ?thesis using sem None by (auto simp: validate_keyframe_mapping_def Let_def)
    next
      case (Some sig)
      then have u: "sig' \<in> set MINIMAX_H3_FL2VA_KEYFRAME_SIGNATURES \<and> eq_ints sem sig' \<longleftrightarrow> sig' = sig" for sig'
        using find_signature[of sem MINIMAX_H3_FL2VA_KEYFRAME_SIGNATURES] eq_ints_unique[of sem] by blast
      have v: "validate_keyframe_mapping k = Inr () \<longleftrightarrow> (\<exists>fc l. dget (ce_meta k) ''frame_count'' = PInt fc \<and>
          1 < fc \<and> dget (ce_meta k) ''pixel_frame_indices'' = PList l \<and> eq_ints l (keyframe_pixels fc sig) \<and>
          validate_keyframe_entries (ce_meta k) sig (keyframe_pixels fc sig) = Inr () \<and> validate_keyframe_rows k sig = Inr ())"
        using sem Some
        by (cases "dget (ce_meta k) ''frame_count''"; cases "dget (ce_meta k) ''pixel_frame_indices''")
          (auto simp: validate_keyframe_mapping_def Let_def res_simps not_le)
      show ?thesis unfolding v using sem u by (metis sum.inject(2))
    qed
  qed (simp add: validate_keyframe_mapping_def Let_def)
  then show ?thesis unfolding validate_entries_iff validate_rows_iff keyframe_ok_def Let_def by blast
qed

lemma keyframe_anchors_ok: "keyframe_ok sig fc h w k \<Longrightarrow> keyframe_anchors k = Inr (sig, fc)"
proof -
  assume k: "keyframe_ok sig fc h w k"
  then obtain sem where s: "py_tuple (dget (ce_meta k) ''semantic_frame_indices'') = Inr sem" "eq_ints sem sig"
    and fc: "dget (ce_meta k) ''frame_count'' = PInt fc" and sig: "sig \<in> set MINIMAX_H3_FL2VA_KEYFRAME_SIGNATURES"
    unfolding keyframe_ok_def Let_def by blast
  have "sig \<noteq> []" using sig by (auto simp: MINIMAX_H3_FL2VA_KEYFRAME_SIGNATURES_def)
  then have "py_iter (dget (ce_meta k) ''semantic_frame_indices'') = Inr sem"
    using s by (auto simp: py_tuple_def eq_ints_def split: if_splits)
  moreover have "map_of (ce_meta k) ''frame_count'' = Some (PInt fc)"
    using fc by (auto simp: dget_def split: option.splits)
  ultimately show ?thesis using s(2) by (simp add: keyframe_anchors_def eq_ints_py_int meta_int_def dindex_def)
qed

section \<open>The initial rows\<close>

lemma copied_suffix:
  assumes "length rows = v" and "length xs = c + v"
  shows "copied [c..<c + v] rows xs = take c xs @ rows"
proof (rule nth_equalityI)
  fix i assume "i < length (copied [c..<c + v] rows xs)"
  then have i: "i < c + v" using assms by simp
  show "copied [c..<c + v] rows xs ! i = (take c xs @ rows) ! i"
  proof (cases "i < c")
    case True
    then show ?thesis using assms by (simp add: copied_notin nth_append)
  next
    case False
    have "copied [c..<c + v] rows xs ! ([c..<c + v] ! (i - c)) = rows ! (i - c)"
      using assms i False by (intro copied_nth) auto
    then show ?thesis using assms i False by (simp add: nth_append)
  qed
qed (use assms in simp)

lemma filter_target_mask: "filter ((!) (replicate c False @ replicate v True)) [0..<c + v] = [c..<c + v]"
proof -
  let ?m = "replicate c False @ replicate v True"
  have "[0..<c + v] = [0..<c] @ [c..<c + v]" using upt_add_eq_append[of 0 c v] by simp
  moreover have "filter ((!) ?m) [0..<c] = []" by (auto simp: filter_empty_conv nth_append)
  moreover have "filter ((!) ?m) [c..<c + v] = [c..<c + v]" by (rule filter_True) (auto simp: nth_append)
  ultimately show ?thesis by (simp only: filter_append) simp
qed

lemma scatter_target:
  assumes "length rows = v"
  shows "scatter_rows ops (c + v) (replicate c False @ replicate v True) w rows = Inr (zero_rows ops c w @ rows)"
proof -
  have "take c (zero_rows ops (c + v) w) = zero_rows ops c w" by (simp add: zero_rows_def)
  then show ?thesis
    using copied_suffix[OF assms, of "zero_rows ops (c + v) w" c] assms
    by (simp add: scatter_rows_def filter_target_mask index_put_def copied_def)
qed

section \<open>Noise of the keyframes\<close>

definition randn_ok :: "(int \<Rightarrow> nat list \<Rightarrow> 'f list) \<Rightarrow> bool" where
  "randn_ok randn \<longleftrightarrow> (\<forall>s shape. length (randn s shape) = numel shape)"

lemma keyframe_noise_returns:
  assumes clean: "tensor_ok clean" "t_shape clean = [n * (ph * pw), 96]" and pos: "0 < n" "0 < T" "0 < ph" "0 < pw"
    and aug: "noise_aug_ok aug" and seed: "seed_ok seed" and r: "randn_ok randn"
  shows "\<exists>out. minimax_h3_imgvid_cond_noise_aug_rows ops randn clean (replicate n [1, 2 * int ph, 2 * int pw]) (int T)
      (int n) seed aug = Inr out \<and> tensor_ok out \<and> t_shape out = [n * (ph * pw), 96]"
proof (cases "feq aug (Fin 1)")
  case True
  then show ?thesis using clean aug by (simp add: minimax_h3_imgvid_cond_noise_aug_rows_def raise_if_def)
next
  case False
  let ?ss = "replicate n (1 :: nat, 2 * ph, 2 * pw)" and ?f = "nat (int T + int n)"
  have p: "parse_condition_shape [1, 2 * int ph, 2 * int pw] = Inr (1, 2 * ph, 2 * pw)"
    using pos by (simp add: parse_condition_shape_def raise_if_def nat_mult_distrib)
  have "rmap parse_condition_shape (replicate m [1, 2 * int ph, 2 * int pw]) = Inr (replicate m (1, 2 * ph, 2 * pw))" for m
    by (induction m) (simp_all add: p)
  note shapes = this[of n]
  have row: "condition_rows (Suc 0, 2 * ph, 2 * pw) = ph * pw" by (simp add: condition_rows_def)
  then have rows: "sum_list (map condition_rows ?ss) = n * (ph * pw)" by (simp add: sum_list_replicate)
  have ok: "\<forall>s \<in> set ?ss. imgvid_segment_ok randn ?f seed s"
    using r seed pos by (auto simp: imgvid_segment_ok_def randn_ok_def)
  have "length (t_data clean) = (0 + sum_list (map condition_rows ?ss)) * 96"
    unfolding rows using clean by (simp add: tensor_ok_def)
  note mix = imgvid.segments_mix[OF ok this, of ops aug "[]"]
  have len: "length (concat (map (imgvid_noise randn ?f seed) ?ss)) = n * (ph * pw) * 96"
    using imgvid.noise_total[OF ok] by (simp only: rows)
  show ?thesis using clean aug False pos mix len
    by (simp add: minimax_h3_imgvid_cond_noise_aug_rows_def raise_if_def shapes tensor_ok_def row sum_list_replicate)
qed

section \<open>What a run needs\<close>

text \<open>The state the latent stage publishes for a canvas of \<open>ph\<close> by \<open>pw\<close> patches, \<open>T\<close> latent frames and \<open>A\<close> audio
  latents.\<close>

definition state_ok :: "nat \<Rightarrow> nat \<Rightarrow> nat \<Rightarrow> nat \<Rightarrow> 'f denoise_state \<Rightarrow> bool" where
  "state_ok T ph pw A s \<longleftrightarrow> 0 < T \<and> 0 < ph \<and> 0 < pw \<and> 0 < A \<and>
     ds_latent_t s = int T \<and> ds_latent_h s = 2 * int ph \<and> ds_latent_w s = 2 * int pw \<and> ds_audio_t s = int A \<and>
     t_shape (ds_video s) = [T * (ph * pw), 96] \<and> tensor_ok (ds_video s) \<and>
     t_shape (ds_audio s) = [A * 2, 32] \<and> tensor_ok (ds_audio s)"

definition text_ok :: "nat \<Rightarrow> 'f text_embedding \<Rightarrow> bool" where
  "text_ok L te \<longleftrightarrow> te_text_len te = PInt (int L) \<and> length (te_hidden_states te) = L \<and> length (te_token_tags te) = L \<and>
     (case te_video_token_mask te of None \<Rightarrow> True | Some m \<Rightarrow> length m = L) \<and>
     (case te_refined te of None \<Rightarrow> True | Some r \<Rightarrow> length r = L)"

text \<open>No keyframes, or a well-formed payload for this canvas whose entries declare its shape.\<close>

definition keyframe_run_ok :: "nat \<Rightarrow> nat \<Rightarrow> 'f cond_entry option \<Rightarrow> int list \<Rightarrow> int option \<Rightarrow> bool" where
  "keyframe_run_ok ph pw kf sig fc \<longleftrightarrow> (case kf of
      None \<Rightarrow> sig = [] \<and> fc = None
    | Some k \<Rightarrow> (\<exists>n. fc = Some n \<and> keyframe_ok sig n (2 * int ph) (2 * int pw) k) \<and>
        (\<exists>rows. ce_rows k = Some rows \<and> tensor_ok rows \<and> t_shape rows = [length sig * (ph * pw), 96]) \<and>
        keyframe_shapes k = Inr (replicate (length sig) [1, 2 * int ph, 2 * int pw]))"

text \<open>The server: a supported platform, kernels and generators of the right lengths, a sequence-parallel world that
  divides the 64-row alignment, an attention backend whose metadata can be built, and a text refiner that keeps the
  number of rows.\<close>

definition attention_ok :: "attention_env \<Rightarrow> bool" where
  "attention_ok ae \<longleftrightarrow> \<not> ae_resolved_vsa ae \<and> (\<forall>p d. ae_hybrid_build ae p d = Inr ()) \<and>
     lower (py_str (dget_or (ae_component_backends ae) ''transformer'' (ae_attention_backend ae))) \<noteq> ''cube_sparse_attn''"

definition sink_ok :: "('f, 's, 'm) sink_env \<Rightarrow> bool" where
  "sink_ok se \<longleftrightarrow> se_platform_supported se \<and> nk_ok (se_kernels se) \<and> randn_ok (tv_randn (se_torch se)) \<and>
     sp_ulysses_world (se_sp se) * sp_ring_world (se_sp se) dvd 64 \<and> attention_ok (se_attention se) \<and>
     (case se_refine se of None \<Rightarrow> True | Some f \<Rightarrow> \<forall>r. length (f r) = length r) \<and>
     (case se_build_rope se of None \<Rightarrow> True | Some f \<Rightarrow> \<forall>ps. \<exists>c. f ps = Inr c)"

definition packed_rows :: "nat \<Rightarrow> nat \<Rightarrow> nat \<Rightarrow> nat \<Rightarrow> nat \<Rightarrow> nat \<Rightarrow> nat" where
  "packed_rows L k T ph pw A = L + k * (ph * pw) + A * 2 + T * (ph * pw)"

section \<open>Assembly and layout\<close>

lemma assemble_plain:
  assumes "\<not> lc_is_ref2va ctx" and "lc_keyframe_indices ctx = None" and "lc_frame_count ctx = None"
    and kf: "keyframe_run_ok ph pw (lc_keyframe ctx) sig fc"
  shows "assemble_condition_rows ctx = Inr (ctx\<lparr>lc_cond_rows := Option.bind (lc_keyframe ctx) ce_rows,
      lc_audio_ref_rows := None, lc_include_cond := (lc_keyframe ctx \<noteq> None),
      lc_keyframe_indices := map_option (\<lambda>_. sig) (lc_keyframe ctx), lc_frame_count := fc\<rparr>)"
proof (cases "lc_keyframe ctx")
  case None
  then show ?thesis using assms
    by (simp add: assemble_condition_rows_def assemble_keyframe_rows_def keyframe_run_ok_def)
next
  case (Some k)
  then obtain n rows where "fc = Some n" "keyframe_ok sig n (2 * int ph) (2 * int pw) k" "ce_rows k = Some rows"
    using kf by (auto simp: keyframe_run_ok_def)
  then show ?thesis using assms(1-3) Some
    by (simp add: assemble_condition_rows_def assemble_keyframe_rows_def entry_rows_def keyframe_anchors_ok)
qed

lemma keyframe_resolution:
  assumes "keyframe_run_ok ph pw kf sig fc"
  shows "keyframe_cond_frame_indices (kf \<noteq> None) (if kf \<noteq> None then Some (map PInt sig) else None) = Inr sig"
    and "\<exists>rs. resolve_keyframe_frame_indices sig fc = Inr rs"
proof -
  have ex: "[n. PInt n \<leftarrow> map PInt sig] = sig" by (induction sig) simp_all
  show "keyframe_cond_frame_indices (kf \<noteq> None) (if kf \<noteq> None then Some (map PInt sig) else None) = Inr sig"
    using assms ex by (auto simp: keyframe_run_ok_def keyframe_cond_frame_indices_def keyframe_ok_def raise_if_def Let_def
        split: option.splits)
  show "\<exists>rs. resolve_keyframe_frame_indices sig fc = Inr rs"
  proof (cases kf)
    case None
    then show ?thesis using assms by (simp add: keyframe_run_ok_def resolve_keyframe_frame_indices_def raise_if_def)
  next
    case (Some k)
    then obtain n where n: "fc = Some n" "1 < n" "sig \<in> set MINIMAX_H3_FL2VA_KEYFRAME_SIGNATURES"
      using assms by (auto simp: keyframe_run_ok_def keyframe_ok_def Let_def)
    then have "sig = [0] \<or> sig = [-1] \<or> sig = [0, -1]" by (auto simp: MINIMAX_H3_FL2VA_KEYFRAME_SIGNATURES_def)
    then show ?thesis using n
      by (elim disjE) (simp_all add: resolve_keyframe_frame_indices_def resolve_keyframe_step_def raise_if_def Let_def enumerate_eq_zip dhas_def dict_simps)
  qed
qed

definition keyframe_anchor_indices :: "int list \<Rightarrow> 'f cond_entry option \<Rightarrow> pyval list option" where
  "keyframe_anchor_indices sig kf = (if kf \<noteq> None then Some (map PInt sig) else None)"

lemma layout_plain:
  assumes c: "\<not> lc_is_ref2va c" "lc_keyframe_indices c = map_option (\<lambda>_. sig) (lc_keyframe c)" "lc_frame_count c = fc"
      "lc_include_cond c = (lc_keyframe c \<noteq> None)"
    and kf: "keyframe_run_ok ph pw (lc_keyframe c) sig fc" and st: "state_ok T ph pw A (lc_state c)"
    and te: "text_ok L (lc_embedding c)" and nk: "nk_ok nk"
    and fits: "int (ceil_mult 64 (packed_rows L (length sig) T ph pw A)) \<le> 2147483647"
  obtains p rs where "build_packed_layout nk c vp = Inr p"
    "minimax_h3_packed_sequence nk L T (2 * ph) (2 * pw) A 2 (lc_keyframe c \<noteq> None) (keyframe_anchor_indices sig (lc_keyframe c)) fc vp = Inr p"
    "p = plain_layout L T (2 * ph) (2 * pw) A 2 vp (length sig) rs (pk_position_ids p)"
proof -
  let ?kfi = "if lc_keyframe c \<noteq> None then Some (map PInt sig) else None"
  note res = keyframe_resolution[OF kf]
  obtain rs0 where rs0: "resolve_keyframe_frame_indices sig fc = Inr rs0" using res(2) by blast
  have pos: "2 \<le> 2 * pw" using st by (simp add: state_ok_def)
  have "\<exists>p. minimax_h3_packed_sequence nk L T (2 * ph) (2 * pw) A 2 (lc_keyframe c \<noteq> None) ?kfi fc vp = Inr p"
    unfolding packed_sequence_returns_iff[OF nk] using res(1) rs0 pos fits by (auto simp: packed_rows_def)
  then obtain p where p: "minimax_h3_packed_sequence nk L T (2 * ph) (2 * pw) A 2 (lc_keyframe c \<noteq> None) ?kfi fc vp = Inr p" ..
  obtain ks rs where "keyframe_cond_frame_indices (lc_keyframe c \<noteq> None) ?kfi = Inr ks"
    and q: "p = plain_layout L T (2 * ph) (2 * pw) A 2 vp (length ks) rs (pk_position_ids p)"
    by (rule packed_sequence_layout[OF p])
  then have "ks = sig" using res(1) by simp
  moreover have "build_packed_layout nk c vp = Inr p"
  proof -
    have k: "(if lc_keyframe c \<noteq> None then map_option (map PInt) (map_option (\<lambda>_. sig) (lc_keyframe c)) else None) = ?kfi"
      by (cases "lc_keyframe c") simp_all
    show ?thesis using st te c(1) p unfolding build_packed_layout_def Let_def c(2-4) k
      by (simp add: state_ok_def text_ok_def layout_len_def raise_if_def nat_mult_distrib)
  qed
  ultimately show ?thesis using p q that unfolding keyframe_anchor_indices_def by blast
qed

text \<open>Its rows and masks.\<close>

lemma plain_layout_fields:
  assumes p: "p = plain_layout L T (2 * ph) (2 * pw) A 2 vp k rs g"
  shows "pk_text_pos p = [0..<L]" "pk_seq_len p = ceil_mult 64 (packed_rows L k T ph pw A)"
    "pk_cu_seqlens p ! 1 = packed_rows L k T ph pw A" "length (pk_img_pos p) = k * (ph * pw) + T * (ph * pw)"
    "length (pk_audio_pos p) = A * 2" "pk_audio_update_mask p = None"
    "pk_update_mask p = replicate (k * (ph * pw)) False @ replicate (T * (ph * pw)) True"
    "pk_video_pos p = (if vp then Some [L + k * (ph * pw) + A * 2..<packed_rows L k T ph pw A] else None)"
    "pk_img_pos p = [L..<L + k * (ph * pw)] @ [L + k * (ph * pw) + A * 2..<packed_rows L k T ph pw A]"
  unfolding p by (simp_all add: plain_layout_def Let_def packed_rows_def)

lemma masked_subset: "set (masked xs m) \<subseteq> set xs" and masked_distinct: "distinct xs \<Longrightarrow> distinct (masked xs m)"
proof -
  show "set (masked xs m) \<subseteq> set xs" by (auto simp: masked_def dest: set_zip_leftD)
  have "distinct xs \<Longrightarrow> distinct (map fst (zip xs m))" by (simp add: map_fst_zip_take distinct_take)
  then show "distinct xs \<Longrightarrow> distinct (masked xs m)" unfolding masked_def by (rule distinct_map_filter)
qed

text \<open>The tags of a run are those of the layout with the prompt's own tags on the text rows; sub-block sparsity asks for
  the video tokens of the prompt and the target video.\<close>

definition run_tags :: "packed \<Rightarrow> 'f text_embedding \<Rightarrow> int list" where
  "run_tags p te = te_token_tags te @ drop (length (te_token_tags te)) (pk_token_tags p)"

definition run_queries :: "bool \<Rightarrow> packed \<Rightarrow> 'f text_embedding \<Rightarrow> nat list option" where
  "run_queries subblock p te = (if subblock
     then Some ((case te_video_token_mask te of None \<Rightarrow> [] | Some m \<Rightarrow> masked (pk_text_pos p) m) @ masked (pk_img_pos p) (pk_update_mask p))
     else None)"

lemma queries_plain:
  assumes p: "p = plain_layout L T (2 * ph) (2 * pw) A 2 vp k rs g" and te: "text_ok L te"
  obtains q where "layout_queries vp p te = Inr q" "q = run_queries vp p te"
    "case q of None \<Rightarrow> True | Some xs \<Rightarrow> distinct xs \<and> (\<forall>x \<in> set xs. x < packed_rows L k T ph pw A)"
proof (cases vp)
  case True
  note F = plain_layout_fields[OF p]
  let ?v = "[L + k * (ph * pw) + A * 2..<packed_rows L k T ph pw A]"
  have L: "L \<le> packed_rows L k T ph pw A" by (simp add: packed_rows_def)
  have "length ?v = T * (ph * pw)" by (simp add: packed_rows_def)
  then have mv: "masked (pk_img_pos p) (pk_update_mask p) = ?v"
    unfolding F(7,9) using masked_prefix_mask(1)[of "[L..<L + k * (ph * pw)]" ?v] by simp
  show ?thesis
  proof (cases "te_video_token_mask te")
    case None
    then show ?thesis using True F mv
      by (intro that[of "Some ?v"]) (simp_all add: layout_queries_def subblock_video_query_indices_def run_queries_def)
  next
    case (Some m)
    then have q: "layout_queries vp p te = Inr (Some (masked [0..<L] m @ ?v))"
      using True F te by (simp add: layout_queries_def subblock_video_query_indices_def text_ok_def raise_if_def)
    have eq: "Some (masked [0..<L] m @ ?v) = run_queries vp p te" using True Some mv F(1) by (simp add: run_queries_def)
    have lt: "\<forall>x \<in> set (masked [0..<L] m). x < L" using masked_subset[of "[0..<L]" m] by auto
    have "set (masked [0..<L] m) \<inter> set ?v = {}" using lt by fastforce
    then have "distinct (masked [0..<L] m @ ?v)" by (simp add: masked_distinct)
    moreover have "\<forall>x \<in> set (masked [0..<L] m @ ?v). x < packed_rows L k T ph pw A" using lt L by fastforce
    ultimately show ?thesis by (intro that[OF q eq]) simp
  qed
qed (simp add: that layout_queries_def run_queries_def)

lemma layout_tags_returns:
  assumes "pk_text_pos p = [0..<length (te_token_tags te)]" and "length (te_token_tags te) \<le> length (pk_token_tags p)"
  shows "layout_tags p te = Inr (run_tags p te)" and "length (run_tags p te) = length (pk_token_tags p)"
  using assms copied_prefix[OF refl assms(2)]
  by (simp_all add: layout_tags_def index_put_def copied_def run_tags_def)

lemma branch_init_returns:
  assumes "length te = length (pk_text_pos p)" and "length tags = pk_seq_len p"
    and q: "case q of None \<Rightarrow> True | Some xs \<Rightarrow> distinct xs \<and> (\<forall>x \<in> set xs. x < pk_cu_seqlens p ! 1)"
    and w: "0 < sp_ulysses_world sp * sp_ring_world sp" "sp_ulysses_world sp * sp_ring_world sp dvd pk_seq_len p"
  obtains b where "denoise_branch_init ops p te tags q sp = Inr b" "br_text_rows b = te"
    "br_update_mask b = pk_update_mask p"
proof -
  obtain sub where sub: "(case q of None \<Rightarrow> Inr None
      | Some v \<Rightarrow> rbind (subblock_sparse_query_block_mask (map int v) (int (pk_cu_seqlens p ! 1))) (\<lambda>m. Inr (Some m))) = Inr sub"
  proof (cases q)
    case (Some v)
    then show ?thesis using q that
      by (fastforce simp: subblock_sparse_query_block_mask_def raise_if_def Let_def distinct_map inj_on_def)
  qed (use that in simp)
  obtain lay where "build_local_embedding_layout (pk_seq_len p) (pk_text_pos p) (pk_img_pos p) (pk_audio_pos p)
      (sp_ulysses_world sp * sp_ring_world sp) (sp_ring_rank sp * sp_ulysses_world sp + sp_ulysses_rank sp) = Inr lay"
    using w by (simp add: build_local_embedding_layout_def raise_if_def Let_def dvd_imp_mod_0)
  then obtain b where b: "denoise_branch_init ops p te tags q sp = Inr b"
    using assms(1,2) w(1) sub by (simp add: denoise_branch_init_def Let_def raise_if_def)
  have "br_text_rows b = te" "br_update_mask b = pk_update_mask p"
    using b unfolding denoise_branch_init_def Let_def by (clarsimp simp: res_simps)+
  then show ?thesis by (rule that[OF b])
qed

section \<open>Preparing the run\<close>

text \<open>What the first half of the stage hands to the second: the rows of the conditions, and a branch of the layout.\<close>

definition cond_rows_ok :: "nat \<Rightarrow> 'f tensor option \<Rightarrow> bool" where
  "cond_rows_ok n rows \<longleftrightarrow> (case rows of None \<Rightarrow> n = 0 | Some t \<Rightarrow> tensor_ok t \<and> t_shape t = [n, 96])"

definition branch_ok :: "nat \<Rightarrow> nat \<Rightarrow> nat \<Rightarrow> 'f branch \<Rightarrow> bool" where
  "branch_ok C V A b \<longleftrightarrow> branch_wf b \<and> \<not> br_x_buffer_primed b \<and> br_video_target_start b = C \<and>
     br_audio_target_start b = 0 \<and> length (br_img_pos b) = C + V \<and> length (br_audio_pos b) = A \<and>
     br_update_mask b = replicate C False @ replicate V True"

text \<open>The condition rows of a keyframe run: the encoded rows, mixed with noise when the augmentation is below one.\<close>

definition keyframe_tensor ::
  "'f torch_env \<Rightarrow> nat \<Rightarrow> nat \<Rightarrow> nat \<Rightarrow> int list \<Rightarrow> int \<Rightarrow> pyfloat \<Rightarrow> 'f cond_entry option \<Rightarrow> 'f tensor option \<Rightarrow> bool" where
  "keyframe_tensor env T ph pw sig seed aug kf t \<longleftrightarrow> (case kf of
      None \<Rightarrow> t = None
    | Some k \<Rightarrow> (\<exists>clean out. ce_rows k = Some clean \<and> t = Some out \<and>
        (if flt aug (Fin 1)
         then minimax_h3_imgvid_cond_noise_aug_rows (tv_ops env) (tv_randn env) clean
           (replicate (length sig) [1, 2 * int ph, 2 * int pw]) (int T) (int (length sig)) seed aug = Inr out
         else out = clean)))"

lemma noise_rows_plain:
  assumes c: "\<not> lc_is_ref2va c" "lc_blocks c = None" "lc_audio_ref_rows c = None"
      "lc_cond_rows c = Option.bind (lc_keyframe c) ce_rows"
    and kf: "keyframe_run_ok ph pw (lc_keyframe c) sig fc" and st: "state_ok T ph pw A (lc_state c)"
    and aug: "noise_aug_ok i" and seed: "noise_seed (lc_plan c) sampling = Inr sd" "seed_ok sd"
    and r: "randn_ok (tv_randn env)"
  obtains t where "apply_condition_noise_aug env sampling i a c = Inr (c\<lparr>lc_cond_rows := t\<rparr>)"
    "cond_rows_ok (length sig * (ph * pw)) t" "keyframe_tensor env T ph pw sig sd i (lc_keyframe c) t"
proof (cases "lc_keyframe c")
  case None
  then show ?thesis using c kf by (intro that[of None])
      (cases c, simp_all add: apply_condition_noise_aug_def noise_visual_rows_def noise_audio_rows_def cond_rows_ok_def keyframe_run_ok_def keyframe_tensor_def)
next
  case (Some k)
  then obtain rows where k: "ce_rows k = Some rows" "tensor_ok rows" "t_shape rows = [length sig * (ph * pw), 96]"
    "keyframe_shapes k = Inr (replicate (length sig) [1, 2 * int ph, 2 * int pw])" "sig \<noteq> []"
    using kf by (auto simp: keyframe_run_ok_def keyframe_ok_def MINIMAX_H3_FL2VA_KEYFRAME_SIGNATURES_def Let_def)
  have s: "0 < T" "0 < ph" "0 < pw" "ds_latent_t (lc_state c) = int T" using st by (simp_all add: state_ok_def)
  show ?thesis
  proof (cases "flt i (Fin 1)")
    case False
    then show ?thesis using c Some k by (intro that[of "Some rows"])
        (cases c, simp_all add: apply_condition_noise_aug_def noise_visual_rows_def noise_audio_rows_def cond_rows_ok_def keyframe_tensor_def)
  next
    case True
    have n: "0 < length sig" using k by simp
    obtain out where "minimax_h3_imgvid_cond_noise_aug_rows (tv_ops env) (tv_randn env) rows
        (replicate (length sig) [1, 2 * int ph, 2 * int pw]) (int T) (int (length sig)) sd i = Inr out"
      "tensor_ok out" "t_shape out = [length sig * (ph * pw), 96]"
      using keyframe_noise_returns[OF k(2,3) n s(1-3) aug seed(2) r] by blast
    then show ?thesis using True c Some k s seed by (intro that[of "Some out"])
        (simp_all add: apply_condition_noise_aug_def noise_visual_rows_def noise_audio_rows_def cond_rows_ok_def
          imgvid_condition_shapes_def raise_if_def keyframe_tensor_def)
  qed
qed

lemma branch_plain:
  assumes lay: "minimax_h3_packed_sequence nk L T (2 * ph) (2 * pw) A 2 inc kfi fc vp = Inr p"
    and p: "p = plain_layout L T (2 * ph) (2 * pw) A 2 vp k rs g"
    and init: "denoise_branch_init ops p te tags q sp = Inr b" "br_update_mask b = pk_update_mask p"
  shows "branch_ok (k * (ph * pw)) (T * (ph * pw)) (A * 2) b"
proof -
  note F = plain_layout_fields[OF p] and B = branch_init_fields[OF init(1)]
  have "branch_wf b" "\<not> br_x_buffer_primed b"
    using h3_plain.branch_of_layout[of "(nk, L, T, 2 * ph, 2 * pw, A, 2, inc, kfi, fc, vp)", OF _ init(1)] lay by simp_all
  moreover have "br_audio_target_start b = 0" using B(5) F(6) by (simp add: effective_audio_mask_def)
  ultimately show ?thesis using B(2-4) F(4,5,7) init(2) by (simp add: branch_ok_def)
qed

lemma plain_token_tags: "minimax_h3_packed_sequence nk L T lh lw A ch inc kfi fc vp = Inr p \<Longrightarrow>
    length (pk_token_tags p) = pk_seq_len p"
  by (erule packed_sequence_ok) (simp add: layout_ok_def)

text \<open>The branch of a run, before its text is refined: built from the plain layout of the batch, with the rows and tags of
  its prompt.\<close>

definition run_branch ::
  "('f::linorder, 's, 'm) sink_env \<Rightarrow> nat \<Rightarrow> nat \<Rightarrow> nat \<Rightarrow> nat \<Rightarrow> nat \<Rightarrow> int list \<Rightarrow> int option \<Rightarrow> 'f cond_entry option \<Rightarrow>
   'f text_embedding \<Rightarrow> 'f branch \<Rightarrow> bool" where
  "run_branch se L T ph pw A sig fc kf te b \<longleftrightarrow> (\<exists>p.
     minimax_h3_packed_sequence (se_kernels se) L T (2 * ph) (2 * pw) A 2 (kf \<noteq> None) (keyframe_anchor_indices sig kf) fc (se_subblock se) = Inr p \<and>
     denoise_branch_init (tv_ops (se_torch se)) p (te_hidden_states te) (run_tags p te) (run_queries (se_subblock se) p te) (se_sp se) = Inr b)"

lemma prepare_plain:
  assumes c: "\<not> lc_is_ref2va ctx" "lc_keyframe_indices ctx = None" "lc_frame_count ctx = None" "lc_blocks ctx = None"
    and kf: "keyframe_run_ok ph pw (lc_keyframe ctx) sig fc" and st: "state_ok T ph pw A (lc_state ctx)"
    and te: "text_ok L (lc_embedding ctx)" and se: "sink_ok se"
    and fits: "int (ceil_mult 64 (packed_rows L (length sig) T ph pw A)) \<le> 2147483647"
    and aug: "minimax_h3_condition_noise_aug b = Inr (i, a)" "noise_aug_ok i"
    and seed: "noise_seed (lc_plan ctx) (hb_sampling_seed b) = Inr sd" "seed_ok sd"
  obtains run where "prepare_run se b ctx = Inr run" "lc_state (pr_ctx run) = lc_state ctx"
    "lc_sigmas (pr_ctx run) = lc_sigmas ctx" "lc_audio_ref_rows (pr_ctx run) = None"
    "lc_include_cond (pr_ctx run) \<longleftrightarrow> lc_keyframe ctx \<noteq> None"
    "keyframe_tensor (se_torch se) T ph pw sig sd i (lc_keyframe ctx) (lc_cond_rows (pr_ctx run))"
    "cond_rows_ok (length sig * (ph * pw)) (lc_cond_rows (pr_ctx run))"
    "branch_ok (length sig * (ph * pw)) (T * (ph * pw)) (A * 2) (pr_positive run)"
    "br_text_rows (pr_positive run) = te_hidden_states (lc_embedding ctx)" "pr_img_aug run = i" "pr_audio_aug run = a"
    "run_branch se L T ph pw A sig fc (lc_keyframe ctx) (lc_embedding ctx) (pr_positive run)"
proof -
  let ?c = "ctx\<lparr>lc_cond_rows := Option.bind (lc_keyframe ctx) ce_rows, lc_audio_ref_rows := None,
      lc_include_cond := (lc_keyframe ctx \<noteq> None), lc_keyframe_indices := map_option (\<lambda>_. sig) (lc_keyframe ctx),
      lc_frame_count := fc\<rparr>"
  let ?te = "lc_embedding ctx"
  note E = se[unfolded sink_ok_def]
  have asm: "assemble_condition_rows ctx = Inr ?c" by (rule assemble_plain[OF c(1-3) kf])
  obtain p rs where p: "build_packed_layout (se_kernels se) ?c (se_subblock se) = Inr p"
    "minimax_h3_packed_sequence (se_kernels se) L T (2 * ph) (2 * pw) A 2 (lc_keyframe ctx \<noteq> None)
       (keyframe_anchor_indices sig (lc_keyframe ctx)) fc (se_subblock se) = Inr p"
    "p = plain_layout L T (2 * ph) (2 * pw) A 2 (se_subblock se) (length sig) rs (pk_position_ids p)"
    using layout_plain[of ?c sig fc ph pw T A L "se_kernels se" "se_subblock se"] c kf st te E fits by auto
  note F = plain_layout_fields[OF p(3)]
  have "packed_rows L (length sig) T ph pw A \<le> pk_seq_len p" unfolding F(2) by (rule ceil_mult_ge) simp
  then have le: "L \<le> length (pk_token_tags p)" using plain_token_tags[OF p(2)] by (simp add: packed_rows_def)
  have tags: "layout_tags p ?te = Inr (run_tags p ?te)" "length (run_tags p ?te) = length (pk_token_tags p)"
    using layout_tags_returns[of p ?te] te F(1) le by (simp_all add: text_ok_def)
  obtain q where q: "layout_queries (se_subblock se) p ?te = Inr q" "q = run_queries (se_subblock se) p ?te"
    "case q of None \<Rightarrow> True | Some xs \<Rightarrow> distinct xs \<and> (\<forall>x \<in> set xs. x < packed_rows L (length sig) T ph pw A)"
    by (rule queries_plain[OF p(3) te])
  obtain t where t: "apply_condition_noise_aug (se_torch se) (hb_sampling_seed b) i a ?c = Inr (?c\<lparr>lc_cond_rows := t\<rparr>)"
    "cond_rows_ok (length sig * (ph * pw)) t" "keyframe_tensor (se_torch se) T ph pw sig sd i (lc_keyframe ?c) t"
    by (rule noise_rows_plain[of ?c ph pw sig fc T A i "hb_sampling_seed b" sd "se_torch se"]) (use c kf st aug seed E in simp_all)
  have w: "0 < sp_ulysses_world (se_sp se) * sp_ring_world (se_sp se)"
    "sp_ulysses_world (se_sp se) * sp_ring_world (se_sp se) dvd pk_seq_len p"
    using E F(2) by (auto intro!: gr0I intro: dvd_trans)
  obtain br where br: "denoise_branch_init (tv_ops (se_torch se)) p (te_hidden_states ?te) (run_tags p ?te) q (se_sp se) = Inr br"
    "br_text_rows br = te_hidden_states ?te" "br_update_mask br = pk_update_mask p"
  proof (rule branch_init_returns[OF _ _ _ w])
    show "length (te_hidden_states ?te) = length (pk_text_pos p)" using te F(1) by (simp add: text_ok_def)
    show "length (run_tags p ?te) = pk_seq_len p" using tags(2) plain_token_tags[OF p(2)] by simp
    show "case q of None \<Rightarrow> True | Some xs \<Rightarrow> distinct xs \<and> (\<forall>x \<in> set xs. x < pk_cu_seqlens p ! 1)" unfolding F(3) by (rule q(3))
  qed (rule that)
  have "build_cube_attn_metadata (se_attention se) p n = Inr ()"
    "prepare_vsa_h3_step_metadata (se_attention se) p ref = Inr None" for n ref
    using E by (simp_all add: attention_ok_def build_cube_attn_metadata_def prepare_vsa_h3_step_metadata_def)
  then have pr: "prepare_run se b ctx = Inr \<lparr>pr_ctx = ?c\<lparr>lc_cond_rows := t\<rparr>, pr_positive = br, pr_img_aug = i, pr_audio_aug = a\<rparr>"
    using asm p(1) tags(1) q(1) t(1) br(1) aug E
    by (simp add: prepare_run_def Let_def raise_if_def attention_ok_def)
  have rb: "run_branch se L T ph pw A sig fc (lc_keyframe ctx) ?te br"
    unfolding run_branch_def using p(2) br(1)[unfolded q(2)] by blast
  show ?thesis by (rule that[OF pr]) (use t br rb branch_plain[OF p(2,3) br(1,3)] in simp_all)
qed

section \<open>Running it\<close>

text \<open>A transformer that answers, when it does, with one velocity for every target row; and one that always answers, for
  up to \<open>n\<close> plans.\<close>

definition dit_shaped :: "('f, 's, 'm) dit \<Rightarrow> nat \<Rightarrow> nat \<Rightarrow> bool" where
  "dit_shaped model nv na \<longleftrightarrow> (\<forall>m args k v a m'. dit_forward model m args k = Inr ((v, a), m') \<longrightarrow>
     map length v = replicate nv 96 \<and> map length a = replicate na 32)"

definition dit_answers :: "('f, 's, 'm) dit \<Rightarrow> nat \<Rightarrow> bool" where
  "dit_answers model n \<longleftrightarrow>
     (\<forall>m ts. length ts \<le> n \<longrightarrow> (\<exists>slots m'. dit_prepare model m ts = Inr (slots, m') \<and>
        (case slots of None \<Rightarrow> True | Some s \<Rightarrow> length s = length ts))) \<and>
     (\<forall>m args k. \<exists>out. dit_forward model m args k = Inr out)"

lemma width_ok_lengths: "width_ok w rows \<Longrightarrow> map length rows = replicate (length rows) w"
  by (induction rows) (auto simp: width_ok_def)

lemma dit_shaped_rows:
  assumes "dit_shaped model nv na" and "width_ok 96 video" "length video = nv" and "width_ok 32 audio" "length audio = na"
  shows "shaped_model model 0 video audio"
  using assms by (simp add: dit_shaped_def shaped_model_def same_shape_def width_ok_lengths)

lemma optional_rows_returns:
  assumes "cond_rows_ok n t"
  obtains r where "optional_rows t = Inr r" "length (anchor_rows r) = n"
proof (cases t)
  case None
  then show ?thesis using assms that[of None] by (simp add: optional_rows_def cond_rows_ok_def anchor_rows_def)
next
  case (Some x)
  then have "tensor_ok x" "t_shape x = [n, 96]" using assms by (simp_all add: cond_rows_ok_def)
  then obtain r where "tensor_rows x = Inr r" "length r = n" by (rule tensor_rows_ok)
  then show ?thesis using Some that[of "Some r"] by (simp add: optional_rows_def anchor_rows_def)
qed

lemma expand_plain:
  assumes "branch_ok C (T * (ph * pw)) (A * 2) b" and "state_ok T ph pw A (lc_state c)" and "lc_audio_ref_rows c = None"
    and "\<not> lc_include_cond c \<Longrightarrow> C = 0"
  obtains pre video audio where "expand_initial_rows ops c b = Inr (pre @ video, audio)" "length pre = C"
    "tensor_rows (ds_video (lc_state c)) = Inr video" "tensor_rows (ds_audio (lc_state c)) = Inr audio"
    "length video = T * (ph * pw)" "length audio = A * 2" "width_ok 96 video" "width_ok 32 audio"
proof -
  let ?s = "lc_state c"
  have s: "tensor_ok (ds_video ?s)" "t_shape (ds_video ?s) = [T * (ph * pw), 96]"
    "tensor_ok (ds_audio ?s)" "t_shape (ds_audio ?s) = [A * 2, 32]" using assms(2) by (simp_all add: state_ok_def)
  obtain video where v: "tensor_rows (ds_video ?s) = Inr video" "length video = T * (ph * pw)" "width_ok 96 video"
    using tensor_rows_ok[OF s(1,2)] by metis
  obtain audio where a: "tensor_rows (ds_audio ?s) = Inr audio" "length audio = A * 2" "width_ok 32 audio"
    using tensor_rows_ok[OF s(3,4)] by metis
  have w: "tensor_width (ds_video ?s) = Inr 96" "tensor_width (ds_audio ?s) = Inr 32" using s by (simp_all add: tensor_width_def)
  show ?thesis
  proof (cases "lc_include_cond c")
    case True
    have "expand_initial_rows ops c b = Inr (zero_rows ops C 96 @ video, audio)"
      using True v a w assms(1,3) scatter_target[OF v(2), of ops C 96]
      by (simp add: expand_initial_rows_def branch_ok_def Let_def)
    then show ?thesis by (rule that) (use v a in simp_all)
  next
    case False
    then have "expand_initial_rows ops c b = Inr ([] @ video, audio)"
      using v a w assms(3) by (simp add: expand_initial_rows_def Let_def)
    then show ?thesis by (rule that) (use v a False assms(4) in simp_all)
  qed
qed

lemma unpack_audio_ok:
  assumes ok: "tensor_ok rows" and sh: "t_shape rows = [nch * T, ncols]" and pos: "0 < nch" "0 < T" "0 < ncols"
  obtains out where "minimax_h3_unpack_audio_tokens rows (int (nch * T)) (int nch) = Inr out"
    "t_shape out = [nch, ncols, T]" "tensor_ok out"
proof -
  obtain out where out: "minimax_h3_unpack_audio_tokens rows (int (nch * T)) (int nch) = Inr out" "t_shape out = [nch, ncols, T]"
    using unpack_audio_element[OF ok sh pos(1,2) pos(1,3,2)] by metis
  then have "length (t_data out) = length (t_data rows)"
    using sh by (auto simp: minimax_h3_unpack_audio_tokens_def res_simps permute_def Let_def)
  then have "tensor_ok out" using out(2) ok sh by (simp add: tensor_ok_def mult_ac)
  then show ?thesis using out that by blast
qed

lemma outputs_plain:
  assumes st: "state_ok T ph pw A (lc_state c)" and b: "br_video_target_start b = length pre" "br_audio_target_start b = 0"
    and v: "width_ok 96 v" "length v = T * (ph * pw)" and a: "width_ok 32 a" "length a = A * 2"
  obtains latents audio where "full_loop_outputs c b (pre @ v) a = Inr (latents, audio)"
    "t_shape latents = [1, 24, T, 2 * ph, 2 * pw]" "tensor_ok latents"
    "minimax_h3_patchify_video_latent latents [1, 2, 2] = Inr (rows_tensor 96 v)"
    "t_shape audio = [2, 32, A]" "tensor_ok audio"
    "minimax_h3_unpack_audio_tokens (rows_tensor 32 a) (int (2 * A)) 2 = Inr audio"
proof -
  let ?s = "lc_state c"
  have s: "0 < T" "0 < ph" "0 < pw" "0 < A" "ds_latent_t ?s = int T" "ds_latent_h ?s = 2 * int ph" "ds_latent_w ?s = 2 * int pw"
    "ds_audio_t ?s = int A" "tensor_width (ds_video ?s) = Inr 96" "tensor_width (ds_audio ?s) = Inr 32"
    using st by (simp_all add: state_ok_def tensor_width_def)
  have ok: "tensor_ok (rows_tensor 96 v)" by (rule rows_tensor_ok[OF v(1)])
  have sh: "t_shape (rows_tensor 96 v) = [1 * T * ph * pw, 24 * 1 * 2 * 2]" using v by (simp add: rows_tensor_def mult_ac)
  have len: "length (t_data (rows_tensor 96 v)) = 1 * T * ph * pw * (24 * 1 * 2 * 2)"
    using ok sh by (simp add: tensor_ok_def mult_ac)
  have one: "(0::nat) < 24" "(0::nat) < 1" "(0::nat) < 2" "(0::nat) < 2" by simp_all
  obtain latents where l: "minimax_h3_unpatchify_video_tokens (rows_tensor 96 v) [int T, int ph, int pw, int 24] [int 1, int 2, int 2] = Inr latents"
    "t_shape latents = [1, 24, T * 1, ph * 2, pw * 2]"
    "minimax_h3_patchify_video_latent latents [int 1, int 2, int 2] = Inr (rows_tensor 96 v)"
    by (rule patchify_unpatchify[OF ok sh s(1-3) one])
  have "length (t_data latents) = length (t_data (rows_tensor 96 v))"
    using unpatchify_eq[OF len sh s(1-3) one] l(1) by (auto simp: permute_def Let_def)
  then have lok: "tensor_ok latents" using len l(2) by (simp add: tensor_ok_def mult_ac)
  obtain audio where au: "minimax_h3_unpack_audio_tokens (rows_tensor 32 a) (int (2 * A)) (int 2) = Inr audio"
    "t_shape audio = [2, 32, A]" "tensor_ok audio"
    by (rule unpack_audio_ok[of "rows_tensor 32 a" 2 A 32]) (use a s rows_tensor_ok[OF a(1)] in \<open>simp_all add: rows_tensor_def mult_ac\<close>)
  have "full_loop_outputs c b (pre @ v) a = Inr (latents, audio)"
    using l(1) au(1) b s by (simp add: full_loop_outputs_def Let_def mult.commute)
  then show ?thesis by (rule that) (use l lok au in \<open>simp_all add: mult.commute\<close>)
qed

section \<open>The contract\<close>

text \<open>The abstract sampler: the reference iteration over the target rows, with the condition rows pinned.\<close>

definition run_plan ::
  "('f::linorder) fp32_ops \<Rightarrow> 'f branch \<Rightarrow> pyfloat list \<times> pyfloat list \<Rightarrow> pyfloat \<Rightarrow> pyfloat \<Rightarrow> ('f list \<times> nat list \<times> int list) list" where
  "run_plan ops b sigmas i a = (case sigmas of (sv, sa) \<Rightarrow>
     timestep_plan ops b i a (zip (map (fsub (Fin 1)) (butlast sv)) (map (fsub (Fin 1)) (butlast sa))) ([], []))"

definition sampled ::
  "('f::linorder) fp32_ops \<Rightarrow> ('f, 's, 'm) dit \<Rightarrow> 'm \<Rightarrow> 'f branch \<Rightarrow> 'f rows \<Rightarrow> pyfloat list \<times> pyfloat list \<Rightarrow>
   pyfloat \<Rightarrow> pyfloat \<Rightarrow> 'f rows \<Rightarrow> 'f rows \<Rightarrow> ('f rows \<times> 'f rows \<times> 'm) res" where
  "sampled ops model m b cond sigmas i a video audio =
     (let plan = run_plan ops b sigmas i a in
      rbind (dit_prepare model m (map fst plan)) (\<lambda>(slots, m').
      rfold (reference_step ops model (fst sigmas) (snd sigmas) plan slots b cond []) [0..<length (fst sigmas) - 1] (video, audio, m')))"

lemma reference_loop_sampled:
  "reference_loop ops model m b cond [] sv sa (run_plan ops b (sv, sa) i a) (video, audio) =
     rbind (sampled ops model m b cond (sv, sa) i a video audio) (\<lambda>(v, au, m'). Inr (cond @ v, au, m'))"
  by (cases "dit_prepare model m (map fst (run_plan ops b (sv, sa) i a))")
    (simp_all add: reference_loop_def sampled_def Let_def split: prod.split)

lemma rfold_total:
  assumes "\<forall>k \<in> set ks. P k" and "\<And>k st. P k \<Longrightarrow> \<exists>r. f k st = Inr r"
  shows "\<exists>r. rfold f ks st = Inr r"
  using assms(1)
proof (induction ks arbitrary: st)
  case (Cons k ks)
  obtain st' where st': "f k st = Inr st'" using assms(2)[of k st] Cons.prems by auto
  obtain r where "rfold f ks st' = Inr r" using Cons.IH[of st'] Cons.prems by auto
  then show ?case using st' by simp
qed simp

lemma plan_length: "length (timestep_plan ops b i a ts c) = length ts"
proof (induction ts arbitrary: c)
  case (Cons t ts)
  then show ?case by (cases t) (simp add: split_beta)
qed simp

lemma sampled_returns:
  assumes "dit_answers model (length sv - 1)" and "length sv = length sa"
  shows "\<exists>r. sampled ops model m b cond (sv, sa) i a video audio = Inr r"
proof -
  let ?plan = "run_plan ops b (sv, sa) i a"
  have len: "length (map fst ?plan) = length sv - 1" using assms(2) by (simp add: run_plan_def plan_length)
  then obtain slots m' where p: "dit_prepare model m (map fst ?plan) = Inr (slots, m')"
    "case slots of None \<Rightarrow> True | Some s \<Rightarrow> length s = length sv - 1"
    using assms(1) unfolding dit_answers_def by (metis order_refl)
  have step: "\<exists>r. reference_step ops model sv sa ?plan slots b cond [] k st = Inr r" if k: "k < length sv - 1" for k st
  proof -
    obtain slot where slot: "plan_slot slots k = Inr slot" using p(2) k by (auto simp: plan_slot_def split: option.splits)
    obtain v au m0 where st: "st = (v, au, m0)" by (cases st) auto
    let ?args = "\<lparr>fa_branch = full_branch b (cond @ v) ([] @ au), fa_unique_timesteps = fst (?plan ! k),
            fa_inverse_indices = fst (snd (?plan ! k)), fa_block_combined = snd (snd (?plan ! k)), fa_adaln_slot = slot\<rparr>"
    obtain out where "dit_forward model m0 ?args k = Inr out" using assms(1) unfolding dit_answers_def by blast
    then show ?thesis using slot by (auto simp: reference_step_def st split: prod.splits)
  qed
  have "\<exists>r. rfold (reference_step ops model sv sa ?plan slots b cond []) ks st = Inr r" if "\<forall>k \<in> set ks. k < length sv - 1" for ks st
    using that by (rule rfold_total) (rule step)
  then show ?thesis using p(1) by (simp add: sampled_def Let_def)
qed

lemma finish_plain:
  assumes b: "branch_ok C (T * (ph * pw)) (A * 2) b" and st: "state_ok T ph pw A (lc_state (pr_ctx run))"
    and c: "lc_audio_ref_rows (pr_ctx run) = None" "cond_rows_ok C (lc_cond_rows (pr_ctx run))"
      "\<not> lc_include_cond (pr_ctx run) \<Longrightarrow> C = 0"
    and sig: "lc_sigmas (pr_ctx run) = (sv, sa)" "length sv = length sa" "2 \<le> length sv"
    and dit: "dit_shaped (se_dit se) (T * (ph * pw)) (A * 2)"
  obtains cond video au where "optional_rows (lc_cond_rows (pr_ctx run)) = Inr cond"
    "tensor_rows (ds_video (lc_state (pr_ctx run))) = Inr video" "tensor_rows (ds_audio (lc_state (pr_ctx run))) = Inr au"
    "case sampled (tv_ops (se_torch se)) (se_dit se) m b (anchor_rows cond) (sv, sa) (pr_img_aug run) (pr_audio_aug run) video au of
       Inl e \<Rightarrow> finish_run se m run b = Inl e
     | Inr (v, a, m') \<Rightarrow> \<exists>latents audio. finish_run se m run b = Inr ((latents, audio), m') \<and>
         t_shape latents = [1, 24, T, 2 * ph, 2 * pw] \<and> tensor_ok latents \<and> t_shape audio = [2, 32, A] \<and> tensor_ok audio \<and>
         minimax_h3_patchify_video_latent latents [1, 2, 2] = Inr (rows_tensor 96 v) \<and>
         minimax_h3_unpack_audio_tokens (rows_tensor 32 a) (int (2 * A)) 2 = Inr audio"
proof -
  let ?ops = "tv_ops (se_torch se)" and ?c = "pr_ctx run" and ?i = "pr_img_aug run" and ?ia = "pr_audio_aug run"
  note B = b[unfolded branch_ok_def]
  obtain pre video au where x: "expand_initial_rows ?ops ?c b = Inr (pre @ video, au)" "length pre = C"
    "tensor_rows (ds_video (lc_state ?c)) = Inr video" "tensor_rows (ds_audio (lc_state ?c)) = Inr au"
    "length video = T * (ph * pw)" "length au = A * 2" "width_ok 96 video" "width_ok 32 au"
    by (rule expand_plain[OF b st c(1,3)])
  obtain cond where cond: "optional_rows (lc_cond_rows ?c) = Inr cond" "length (anchor_rows cond) = C"
    by (rule optional_rows_returns[OF c(2)])
  let ?plan = "run_plan ?ops b (sv, sa) ?i ?ia"
  let ?loop = "minimax_h3_denoise_loop ?ops (se_dit se) m b (pre @ video) au cond None sv sa ?i ?ia"
  let ?s = "sampled ?ops (se_dit se) m b (anchor_rows cond) (sv, sa) ?i ?ia video au"
  have sh: "shaped_model (se_dit se) 0 video au" by (rule dit_shaped_rows[OF dit x(7,5,8,6)])
  have n: "length (pre @ video) = length (br_img_pos b)" "length au = length (br_audio_pos b)" using B x(2,5,6) by simp_all
  have A: "branch_wf b" "\<not> br_x_buffer_primed b" "length (anchor_rows cond) = br_video_target_start b"
    "length (anchor_rows (None :: 'a rows option)) = br_audio_target_start b"
    "drop (br_video_target_start b) (pre @ video) = video" "drop (br_audio_target_start b) au = au"
    using B cond(2) x(2) by (simp_all add: anchor_rows_def)
  have sh': "shaped_model (se_dit se) (br_audio_target_start b) (drop (br_video_target_start b) (pre @ video)) (drop (br_audio_target_start b) au)"
    using sh B A(5,6) by simp
  note R = denoise_loop_refines[OF A(1,2) sig(2,3) A(3,4) n sh' refl, where ops = ?ops and img_aug = ?i and audio_aug = ?ia and m = m]
  have none: "anchor_rows (None :: 'a rows option) = []" by (simp add: anchor_rows_def)
  have plan: "timestep_plan ?ops b ?i ?ia (zip (map (fsub (Fin 1)) (butlast sv)) (map (fsub (Fin 1)) (butlast sa))) ([], []) = ?plan"
    by (simp add: run_plan_def)
  have eq: "rbind ?loop (\<lambda>st. Inr (loop_result st)) = rbind ?s (\<lambda>(v, au, m'). Inr (anchor_rows cond @ v, au, m'))"
    using R(1) unfolding A(5,6) none plan reference_loop_sampled .
  have run: "finish_run se m run b = rbind ?loop (\<lambda>st.
      rbind (full_loop_outputs ?c b (ls_video st) (ls_audio st)) (\<lambda>out. Inr (out, ls_model st)))"
    using x(1) cond(1) c(1) sig(1) by (simp add: finish_run_def Let_def optional_rows_def)
  have "case ?s of
       Inl e \<Rightarrow> finish_run se m run b = Inl e
     | Inr (v, a, m') \<Rightarrow> \<exists>latents audio. finish_run se m run b = Inr ((latents, audio), m') \<and>
         t_shape latents = [1, 24, T, 2 * ph, 2 * pw] \<and> tensor_ok latents \<and> t_shape audio = [2, 32, A] \<and> tensor_ok audio \<and>
         minimax_h3_patchify_video_latent latents [1, 2, 2] = Inr (rows_tensor 96 v) \<and>
         minimax_h3_unpack_audio_tokens (rows_tensor 32 a) (int (2 * A)) 2 = Inr audio"
  proof (cases ?s)
    case (Inl e)
    then have "?loop = Inl e" using eq by (auto simp: rbind_Inl_iff)
    then show ?thesis using run Inl by simp
  next
    case (Inr r)
    obtain v a m' where r: "r = (v, a, m')" by (cases r) auto
    then have s: "?s = Inr (v, a, m')" using Inr by simp
    obtain fin where fin: "?loop = Inr fin" "ls_video fin = anchor_rows cond @ v" "ls_audio fin = a" "ls_model fin = m'"
      using eq s by (auto simp: rbind_Inr_iff loop_result_def)
    have "reference_loop ?ops (se_dit se) m b (anchor_rows cond) [] sv sa ?plan (video, au) = Inr (anchor_rows cond @ v, a, m')"
      unfolding reference_loop_sampled s by simp
    then have same: "same_shape v video" "same_shape a au"
      using R(2)[of "anchor_rows cond @ v" a m'] unfolding A(5,6) none plan by auto
    have shape: "width_ok 96 v" "width_ok 32 a" "length v = T * (ph * pw)" "length a = A * 2"
      using width_ok_same_shape[OF same(1)] width_ok_same_shape[OF same(2)] same_shape_length[OF same(1)]
        same_shape_length[OF same(2)] x by simp_all
    obtain latents audio where out: "full_loop_outputs ?c b (anchor_rows cond @ v) a = Inr (latents, audio)"
      "t_shape latents = [1, 24, T, 2 * ph, 2 * pw]" "tensor_ok latents"
      "minimax_h3_patchify_video_latent latents [1, 2, 2] = Inr (rows_tensor 96 v)" "t_shape audio = [2, 32, A]" "tensor_ok audio"
      "minimax_h3_unpack_audio_tokens (rows_tensor 32 a) (int (2 * A)) 2 = Inr audio"
      by (rule outputs_plain[OF st _ _ shape(1,3,2,4), of b "anchor_rows cond"]) (use B cond(2) in simp_all)
    then show ?thesis using run fin s by simp
  qed
  then show ?thesis by (rule that[OF cond(1) x(3,4)])
qed

text \<open>A batch with everything the loop reads; the keyframes fit the task of its plan.\<close>

definition task_fits :: "resolved_plan option \<Rightarrow> 'f cond_entry option \<Rightarrow> bool" where
  "task_fits plan kf \<longleftrightarrow> (case kf of
      None \<Rightarrow> map_option rp_task plan \<noteq> Some ''fl2va''
    | Some _ \<Rightarrow> map_option rp_task plan = Some ''fl2va'' \<or> map_option rp_task plan = Some ''ref2va'')"

lemma validate_payload_ok:
  assumes "task_fits plan kf" and "keyframe_run_ok ph pw kf sig fc"
  shows "validate_keyframe_payload plan kf = Inr ()"
proof (cases kf)
  case None
  then show ?thesis using assms(1) by (auto simp: validate_keyframe_payload_def task_fits_def raise_if_def Let_def)
next
  case (Some k)
  then have "\<exists>sig fc h w. keyframe_ok sig fc h w k" using assms(2) by (auto simp: keyframe_run_ok_def)
  then have "validate_keyframe_mapping k = Inr ()" by (simp only: validate_keyframe_iff)
  then show ?thesis using Some assms(1) by (auto simp: validate_keyframe_payload_def task_fits_def Let_def)
qed

definition inputs_ok :: "nat \<Rightarrow> nat \<Rightarrow> nat \<Rightarrow> int list \<Rightarrow> resolved_plan option \<Rightarrow> 'f h3_batch \<Rightarrow> bool" where
  "inputs_ok L ph pw sig plan b \<longleftrightarrow>
     (\<exists>te. hb_text b = Some te \<and> text_ok L te) \<and> (\<exists>fc. keyframe_run_ok ph pw (hb_keyframe b) sig fc) \<and>
     task_fits plan (hb_keyframe b) \<and> hb_ref_image b = None \<and> hb_ref_audio b = None \<and> hb_ref_video b = None \<and>
     (\<exists>i a. minimax_h3_condition_noise_aug b = Inr (i, a) \<and> noise_aug_ok i) \<and>
     (\<exists>sd. noise_seed plan (hb_sampling_seed b) = Inr sd \<and> seed_ok sd)"

definition batch_ok ::
  "nat \<Rightarrow> nat \<Rightarrow> nat \<Rightarrow> nat \<Rightarrow> nat \<Rightarrow> int list \<Rightarrow> pyfloat list \<Rightarrow> pyfloat list \<Rightarrow> resolved_plan option \<Rightarrow> 'f h3_batch \<Rightarrow> bool" where
  "batch_ok L T ph pw A sig sv sa plan b \<longleftrightarrow> inputs_ok L ph pw sig plan b \<and>
     (\<exists>s. hb_state b = Some s \<and> state_ok T ph pw A s) \<and>
     hb_schedules b = Some (sv, sa) \<and> length sv = length sa \<and> 2 \<le> length sv \<and>
     int (ceil_mult 64 (packed_rows L (length sig) T ph pw A)) \<le> 2147483647"

lemma branch_ok_text: "branch_ok C V n (b\<lparr>br_text_rows := r, br_rope_cache := c\<rparr>) = branch_ok C V n b"
  by (simp add: branch_ok_def branch_wf_def)

text \<open>The branch the loop runs on: the refined rows of the prompt, computed or kept from an earlier output that shares
  it, and the rotary tables.\<close>

definition refined_rows :: "('f, 's, 'm) sink_env \<Rightarrow> 'f text_embedding \<Rightarrow> 'f rows" where
  "refined_rows se te = (case se_refine se of
      None \<Rightarrow> te_hidden_states te
    | Some f \<Rightarrow> (case te_refined te of Some r \<Rightarrow> r | None \<Rightarrow> f (te_hidden_states te)))"

definition completed_branch :: "('f, 's, 'm) sink_env \<Rightarrow> 'f text_embedding \<Rightarrow> 'f branch \<Rightarrow> 'f branch \<Rightarrow> bool" where
  "completed_branch se te b b' \<longleftrightarrow> (\<exists>rope. b' = b\<lparr>br_text_rows := refined_rows se te, br_rope_cache := rope\<rparr> \<and>
     (case se_build_rope se of None \<Rightarrow> rope = br_rope_cache b | Some f \<Rightarrow> (\<exists>c. f (br_position_ids b) = Inr c \<and> rope = Some c)))"

lemma refine_returns:
  assumes se: "sink_ok se" and te: "text_ok L te" and b: "br_text_rows b = te_hidden_states te" "branch_ok C V n b"
  obtains b1 b' te' where "precompute_refined_prompt_embeds (se_refine se) b te = Inr (b1, te')"
    "precompute_rope_cache (se_build_rope se) b1 = Inr b'" "branch_ok C V n b'" "completed_branch se te b b'"
proof -
  have len: "length (refined_rows se te) = length (br_text_rows b)" using se te b(1)
    by (auto simp: refined_rows_def sink_ok_def text_ok_def split: option.splits)
  obtain te' where r: "precompute_refined_prompt_embeds (se_refine se) b te = Inr (b\<lparr>br_text_rows := refined_rows se te\<rparr>, te')"
  proof (cases "se_refine se")
    case None
    then show ?thesis using that[of te] b(1)
      by (cases b) (simp add: precompute_refined_prompt_embeds_def refined_rows_def)
  next
    case (Some f)
    then show ?thesis using that len b(1)
      by (simp add: precompute_refined_prompt_embeds_def refined_rows_def Let_def raise_if_def split: option.splits)
  qed
  let ?b1 = "b\<lparr>br_text_rows := refined_rows se te\<rparr>"
  obtain b' where rope: "precompute_rope_cache (se_build_rope se) ?b1 = Inr b'" and c: "completed_branch se te b b'"
  proof (cases "se_build_rope se")
    case None
    then show ?thesis using that[of ?b1] unfolding completed_branch_def
      by (cases b) (simp add: precompute_rope_cache_def)
  next
    case (Some f)
    then obtain c where "f (br_position_ids b) = Inr c" using se by (auto simp: sink_ok_def)
    then show ?thesis using Some
      by (intro that[of "?b1\<lparr>br_rope_cache := Some c\<rparr>"]) (simp_all add: precompute_rope_cache_def completed_branch_def)
  qed
  have "branch_ok C V n b'" using c b(2) unfolding completed_branch_def by (auto simp: branch_ok_text)
  then show ?thesis using that r rope c by blast
qed

text \<open>The stage does what the sampler does, on the branch and the condition rows of the batch.\<close>

lemma run_returns:
  assumes ok: "batch_ok L T ph pw A sig sv sa plan b" and plan: "h3_plan b = (Inr plan, b\<lparr>hb_extra := x\<rparr>)" and se: "sink_ok se"
    and dit: "dit_shaped (se_dit se) (T * (ph * pw)) (A * 2)"
  obtains te fc sd i ia b0 positive t cond video au where
    "hb_text b = Some te" "keyframe_run_ok ph pw (hb_keyframe b) sig fc" "noise_seed plan (hb_sampling_seed b) = Inr sd"
    "minimax_h3_condition_noise_aug b = Inr (i, ia)"
    "run_branch se L T ph pw A sig fc (hb_keyframe b) te b0" "completed_branch se te b0 positive"
    "keyframe_tensor (se_torch se) T ph pw sig sd i (hb_keyframe b) t" "optional_rows t = Inr cond"
    "tensor_rows (ds_video (the (hb_state b))) = Inr video" "tensor_rows (ds_audio (the (hb_state b))) = Inr au"
    "case accelerate se (int (length sv) - 1) (b\<lparr>hb_extra := x\<rparr>) st of
       Inl e \<Rightarrow> fst (denoising_forward se st b) = Inl e
     | Inr (mt, m) \<Rightarrow>
        (case sampled (tv_ops (se_torch se)) (se_dit se) m positive (anchor_rows cond) (sv, sa) i ia video au of
           Inl e \<Rightarrow> fst (denoising_forward se st b) = Inl e
         | Inr (v, a, m') \<Rightarrow> \<exists>b' latents audio. denoising_forward se st b = (Inr (mt, m'), b') \<and>
             hb_latents b' = Some latents \<and> t_shape latents = [1, 24, T, 2 * ph, 2 * pw] \<and> tensor_ok latents \<and>
             minimax_h3_patchify_video_latent latents [1, 2, 2] = Inr (rows_tensor 96 v) \<and>
             hb_audio_latents b' = Some audio \<and> t_shape audio = [2, 32, A] \<and> tensor_ok audio \<and>
             minimax_h3_unpack_audio_tokens (rows_tensor 32 a) (int (2 * A)) 2 = Inr audio)"
proof -
  obtain te s fc i ia sd where b: "hb_text b = Some te" "text_ok L te" "hb_state b = Some s" "state_ok T ph pw A s"
    "keyframe_run_ok ph pw (hb_keyframe b) sig fc" "task_fits plan (hb_keyframe b)" "hb_schedules b = Some (sv, sa)"
    "length sv = length sa" "2 \<le> length sv" "hb_ref_image b = None" "hb_ref_audio b = None" "hb_ref_video b = None"
    "minimax_h3_condition_noise_aug b = Inr (i, ia)" "noise_aug_ok i" "noise_seed plan (hb_sampling_seed b) = Inr sd" "seed_ok sd"
    "int (ceil_mult 64 (packed_rows L (length sig) T ph pw A)) \<le> 2147483647"
    using ok unfolding batch_ok_def inputs_ok_def by blast
  let ?b = "b\<lparr>hb_extra := x\<rparr>"
  define ctx where "ctx = \<lparr>lc_plan = plan, lc_keyframe = hb_keyframe b, lc_ref_image = None, lc_ref_audio = None, lc_ref_video = None,
     lc_is_ref2va = False, lc_embedding = te, lc_state = s, lc_sigmas = (sv, sa), lc_blocks = None, lc_cond_rows = None,
     lc_audio_ref_rows = None, lc_include_cond = False, lc_keyframe_indices = None, lc_frame_count = None\<rparr>"
  have r: "resolve_full_loop_context b = (Inr ctx, ?b)"
    using b plan validate_payload_ok[OF b(6,5)] by (simp add: resolve_full_loop_context_def abind_def ctx_def)
  have "minimax_h3_condition_noise_aug ?b = minimax_h3_condition_noise_aug b" by (simp add: minimax_h3_condition_noise_aug_def)
  then have aug: "minimax_h3_condition_noise_aug ?b = Inr (i, ia)" using b(13) by simp
  obtain run where run: "prepare_run se ?b ctx = Inr run" "lc_state (pr_ctx run) = s" "lc_sigmas (pr_ctx run) = (sv, sa)"
    "lc_audio_ref_rows (pr_ctx run) = None" "lc_include_cond (pr_ctx run) \<longleftrightarrow> hb_keyframe b \<noteq> None"
    "keyframe_tensor (se_torch se) T ph pw sig sd i (hb_keyframe b) (lc_cond_rows (pr_ctx run))"
    "cond_rows_ok (length sig * (ph * pw)) (lc_cond_rows (pr_ctx run))"
    "branch_ok (length sig * (ph * pw)) (T * (ph * pw)) (A * 2) (pr_positive run)" "br_text_rows (pr_positive run) = te_hidden_states te"
    "pr_img_aug run = i" "pr_audio_aug run = ia" "run_branch se L T ph pw A sig fc (hb_keyframe b) te (pr_positive run)"
    using prepare_plain[of ctx ph pw sig fc T A L se ?b i ia sd] b se aug by (auto simp: ctx_def)
  obtain b1 br te' where br: "precompute_refined_prompt_embeds (se_refine se) (pr_positive run) te = Inr (b1, te')"
    "precompute_rope_cache (se_build_rope se) b1 = Inr br" "branch_ok (length sig * (ph * pw)) (T * (ph * pw)) (A * 2) br"
    "completed_branch se te (pr_positive run) br" by (rule refine_returns[OF se b(2) run(9,8)])
  have st: "state_ok T ph pw A (lc_state (pr_ctx run))" using b(4) run(2) by simp
  have z: "\<not> lc_include_cond (pr_ctx run) \<Longrightarrow> length sig * (ph * pw) = 0" using run(5) b(5) by (simp add: keyframe_run_ok_def)
  obtain cond where cond: "optional_rows (lc_cond_rows (pr_ctx run)) = Inr cond" by (rule optional_rows_returns[OF run(7)])
  obtain video au where v: "tensor_rows (ds_video s) = Inr video" "tensor_rows (ds_audio s) = Inr au"
    using b(4) tensor_rows_ok unfolding state_ok_def by metis
  have fin: "case sampled (tv_ops (se_torch se)) (se_dit se) m br (anchor_rows cond) (sv, sa) i ia video au of
       Inl e \<Rightarrow> finish_run se m run br = Inl e
     | Inr (v, a, m') \<Rightarrow> \<exists>latents audio. finish_run se m run br = Inr ((latents, audio), m') \<and>
         t_shape latents = [1, 24, T, 2 * ph, 2 * pw] \<and> tensor_ok latents \<and> t_shape audio = [2, 32, A] \<and> tensor_ok audio \<and>
         minimax_h3_patchify_video_latent latents [1, 2, 2] = Inr (rows_tensor 96 v) \<and>
         minimax_h3_unpack_audio_tokens (rows_tensor 32 a) (int (2 * A)) 2 = Inr audio" for m
    by (rule finish_plain[OF br(3) st run(4,7) z run(3) b(8,9) dit, of m]) (simp_all add: cond v run(2,10,11))
  have fwd: "denoising_forward se st b = (case accelerate se (int (length sv) - 1) ?b st of
       Inl e \<Rightarrow> (Inl e, ?b)
     | Inr (mt, m) \<Rightarrow> (case finish_run se m run br of
         Inl e \<Rightarrow> (Inl e, ?b\<lparr>hb_text := Some te'\<rparr>)
       | Inr ((latents, audio), m') \<Rightarrow>
           (Inr (mt, m'), ?b\<lparr>hb_text := Some te', hb_latents := Some latents, hb_audio_latents := Some audio\<rparr>)))"
    using r run(1) br(1,2) b(1,3,7) se[unfolded sink_ok_def]
    by (simp add: denoising_forward_def run_full_loop_def abind_def Let_def ctx_def split: sum.split prod.split)
  show ?thesis
  proof (rule that[OF b(1,5,15,13) run(12) br(4) run(6) cond])
    show "tensor_rows (ds_video (the (hb_state b))) = Inr video" "tensor_rows (ds_audio (the (hb_state b))) = Inr au"
      using v b(3) by simp_all
    show "case accelerate se (int (length sv) - 1) ?b st of
       Inl e \<Rightarrow> fst (denoising_forward se st b) = Inl e
     | Inr (mt, m) \<Rightarrow>
        (case sampled (tv_ops (se_torch se)) (se_dit se) m br (anchor_rows cond) (sv, sa) i ia video au of
           Inl e \<Rightarrow> fst (denoising_forward se st b) = Inl e
         | Inr (v, a, m') \<Rightarrow> \<exists>b' latents audio. denoising_forward se st b = (Inr (mt, m'), b') \<and>
             hb_latents b' = Some latents \<and> t_shape latents = [1, 24, T, 2 * ph, 2 * pw] \<and> tensor_ok latents \<and>
             minimax_h3_patchify_video_latent latents [1, 2, 2] = Inr (rows_tensor 96 v) \<and>
             hb_audio_latents b' = Some audio \<and> t_shape audio = [2, 32, A] \<and> tensor_ok audio \<and>
             minimax_h3_unpack_audio_tokens (rows_tensor 32 a) (int (2 * A)) 2 = Inr audio)"
    proof (cases "accelerate se (int (length sv) - 1) ?b st")
      case (Inr acc)
      obtain mt m where acc: "acc = (mt, m)" by fastforce
      show ?thesis using fin[of m] unfolding fwd Inr acc sum.case prod.case
        by (cases "sampled (tv_ops (se_torch se)) (se_dit se) m br (anchor_rows cond) (sv, sa) i ia video au") auto
    qed (simp add: fwd)
  qed
qed

end
