(* ===== verification/Cache_Dit_Correct.thy ===== *)
theory Cache_Dit_Correct
  imports Cache_Dit
begin

text \<open>
  The hooks and the blocks agree in every history: while Cache-DiT holds block inputs the blocks do not overwrite
  them, whatever the package does. When the package's calls either succeed or change nothing, the hooks a request runs
  with are those it asked for.
\<close>

section \<open>What the calls into the package leave alone\<close>

lemma keeps_awhen [keeps_intros]: "(c s \<Longrightarrow> keeps_at P m s) \<Longrightarrow> keeps_at P (awhen c m) s"
  by (simp add: keeps_at_def awhen_def)

lemma keeps_alift_bind [keeps_intros]: "(\<And>x. r = Inr x \<Longrightarrow> keeps_at P (f x) s) \<Longrightarrow> keeps_at P (abind (alift r) f) s"
  by (cases r) (simp_all add: keeps_at_def)

text \<open>The fields of the stage and the flag on the blocks; the package calls change the rest only.\<close>

definition stage_view ::
  "mount \<Rightarrow> bool \<times> int option \<times> pydict \<times> pyval option \<times> string option \<times> string \<times> bool" where
  "stage_view s = (mt_enabled s, mt_num_steps s, mt_overrides s, mt_key s, mt_mode s, mt_quality s, mt_preserve s)"

abbreviation view_is :: "bool \<times> int option \<times> pydict \<times> pyval option \<times> string option \<times> string \<times> bool \<Rightarrow> mount \<Rightarrow> bool" where
  "view_is v s \<equiv> stage_view s = v"

lemma stage_view_iff:
  "stage_view s = stage_view t \<longleftrightarrow> mt_enabled s = mt_enabled t \<and> mt_num_steps s = mt_num_steps t \<and>
     mt_overrides s = mt_overrides t \<and> mt_key s = mt_key t \<and> mt_mode s = mt_mode t \<and> mt_quality s = mt_quality t \<and>
     mt_preserve s = mt_preserve t"
  by (simp add: stage_view_def)

lemma stage_view_updates [simp]:
  "stage_view (s\<lparr>mt_hooks := h\<rparr>) = stage_view s" "stage_view (s\<lparr>mt_adapter := a\<rparr>) = stage_view s"
  "stage_view (s\<lparr>mt_parallel := p\<rparr>) = stage_view s" "stage_view (s\<lparr>mt_groups := g\<rparr>) = stage_view s"
  "stage_view (s\<lparr>mt_patched := b\<rparr>) = stage_view s"
  by (simp_all add: stage_view_def)

lemma keeps_view_hooks [keeps_intros]: "keeps_at (view_is v) (on_hooks m) s"
  by (auto simp: keeps_at_def on_hooks_def split: prod.splits)

lemma keeps_view_groups [keeps_intros]: "keeps_at (view_is v) (store_groups sv l sp tp) s"
  by (cases "sv_dit_group sv") (auto simp: keeps_at_def store_groups_def awhen_def)

lemma keeps_view_attach [keeps_intros]: "keeps_at (view_is v) (attach_hooks sv l a c n sp tp) s"
  unfolding attach_hooks_def Let_def by (intro keeps_intros) simp_all

lemma view_disable: "stage_view (snd (disable_cache_on_transformer l s)) = stage_view s"
proof -
  have "keeps_at (view_is (stage_view s)) (abind (on_hooks (lb_disable l (mt_adapter s))) (\<lambda>_.
       aupdate (\<lambda>s. s\<lparr>mt_adapter := False, mt_parallel := None\<rparr>))) s"
    by (intro keeps_intros) simp
  then show ?thesis by (simp add: keeps_at_def disable_cache_on_transformer_def)
qed

lemma view_enable: "stage_view (snd (enable_cache_on_transformer sv l c sp tp g s)) = stage_view s"
proof -
  have "keeps_at (view_is (stage_view s)) (enable_cache_on_transformer sv l c sp tp g) s"
    by (cases "cc_steps c") (auto simp: enable_cache_on_transformer_def intro!: keeps_intros)
  then show ?thesis by (simp add: keeps_at_def)
qed

lemma view_refresh: "stage_view (snd (refresh_mount sv l n s)) = stage_view s"
proof -
  have "keeps_at (view_is (stage_view s)) (abind (alift (cache_dit_scm_masks l (sv_env sv) (mt_quality s) (mt_overrides s) n))
    (\<lambda>(preset, _, _). refresh_context_on_transformer l n (if eq_str preset ''none'' then PNone else preset))) s"
    unfolding refresh_context_on_transformer_def by (intro keeps_intros) (auto intro!: keeps_intros split: prod.splits)
  then show ?thesis by (simp add: keeps_at_def refresh_mount_def)
qed

section \<open>Inputs are preserved under the hooks\<close>

text \<open>Nothing in the parent stage touches the flag on the blocks.\<close>

abbreviation flag_is :: "bool \<Rightarrow> mount \<Rightarrow> bool" where
  "flag_is b s \<equiv> mt_preserve s = b"

lemma keeps_flag_view:
  assumes "stage_view (snd (m s)) = stage_view s"
  shows "keeps_at (flag_is b) m s"
  using assms by (simp add: keeps_at_def stage_view_iff)

lemma keeps_flag_unmount [keeps_intros]: "keeps_at (flag_is b) (unmount_cache_dit l) s"
  unfolding unmount_cache_dit_def by (intro keeps_intros keeps_flag_view view_disable) simp

lemma keeps_flag_enable [keeps_intros]: "keeps_at (flag_is b) (enable_cache_on_transformer sv l c sp tp g) s"
  by (rule keeps_flag_view[OF view_enable])

lemma keeps_flag_mount [keeps_intros]: "keeps_at (flag_is b) (mount_hooks sv l rq n k) s"
proof -
  have "keeps_at (flag_is b) (abind (alift (cache_dit_scm_masks l (sv_env sv) q ov n)) (\<lambda>(_, policy, m).
      abind (enable_cache_on_transformer sv l (build_cache_dit_config (sv_env sv) q ov n m policy False) sp tp (rq_cfg rq)) (\<lambda>_.
      aupdate (\<lambda>s. s\<lparr>mt_enabled := True, mt_num_steps := Some n, mt_key := k\<rparr>)))) s" for q ov sp tp
    by (intro keeps_intros) (auto intro!: keeps_intros split: prod.splits)
  then show ?thesis by (simp add: keeps_at_def mount_hooks_def Let_def)
qed

lemma parent_flag: "mt_preserve (snd (parent_maybe_enable_cache_dit sv l rq n s)) = mt_preserve s"
proof -
  have step: "keeps_at (flag_is b) (\<lambda>s. if mt_enabled s then refresh_mount sv l n s
          else if \<not> q then (Inr (), s) else if w then (Inr (), s) else mount_hooks sv l rq n k s) u" for b q w k u
    using keeps_flag_view[of "refresh_mount sv l n", OF view_refresh] keeps_flag_mount by (auto simp: keeps_at_def)
  have "keeps_at (flag_is b) (abind (alift r) (\<lambda>ov. abind (aupdate (\<lambda>s. s\<lparr>mt_overrides := ov\<rparr>)) (\<lambda>_.
        abind (awhen (\<lambda>s. mt_enabled s \<and> \<not> same_key (K ov) (mt_key s)) (unmount_cache_dit l)) (\<lambda>_ s.
          if mt_enabled s then refresh_mount sv l n s
          else if \<not> q then (Inr (), s) else if w then (Inr (), s) else mount_hooks sv l rq n (K ov) s)))) s"
    for b q w r K by (intro keeps_intros step) simp
  from this[of "mt_preserve s"] show ?thesis by (simp add: keeps_at_def parent_maybe_enable_cache_dit_def Let_def)
qed

text \<open>The invariant: hooks that are attached, or that the stage believes attached, sit on blocks that keep their inputs.\<close>

definition inputs_kept :: "mount \<Rightarrow> bool" where
  "inputs_kept s = ((mt_hooks s \<noteq> None \<or> mt_enabled s) \<longrightarrow> mt_preserve s)"

lemma set_preservation_cases:
  obtains "snd (set_cache_dit_input_preservation sv l b s) = s"
  | "mt_hooks s = None \<or> lb_blocks_reachable l" and "snd (set_cache_dit_input_preservation sv l b s) = s\<lparr>mt_preserve := b\<rparr>"
  by (cases "exposes_setter (unwrap_model 4 (sv_model sv))"; cases "mt_hooks s"; cases "lb_blocks_reachable l")
    (simp_all add: set_cache_dit_input_preservation_def model_set_preservation_def)

lemma set_preservation_view:
  assumes "set_cache_dit_input_preservation sv l b s = (r, t)"
  shows "mt_hooks t = mt_hooks s" "mt_enabled t = mt_enabled s" "mt_mode t = mt_mode s" "mt_key t = mt_key s"
    "mt_quality t = mt_quality s"
  by (rule set_preservation_cases[of sv l b s]; use assms in auto)+

lemma unmount_view:
  assumes "unmount_cache_dit l s = (r, t)"
  shows "mt_overrides t = mt_overrides s" and "mt_quality t = mt_quality s"
proof -
  obtain q u where u: "disable_cache_on_transformer l s = (q, u)" by (cases "disable_cache_on_transformer l s")
  then show "mt_overrides t = mt_overrides s" and "mt_quality t = mt_quality s"
    using view_disable[of l s] assms by (cases q; auto simp: unmount_cache_dit_def stage_view_iff)+
qed

lemma leave_quality:
  assumes "leave_mode sv l s = (Inr (), t)"
  shows "mt_quality t = mt_quality s"
proof -
  obtain u where u: "unmount_cache_dit l s = (Inr (), u)" and "set_cache_dit_input_preservation sv l False (u\<lparr>mt_mode := None\<rparr>) = (Inr (), t)"
    using assms by (auto simp: leave_mode_def abind_Inr_iff)
  then show ?thesis using set_preservation_view(5) unmount_view(2)[OF u] by fastforce
qed

lemma desired_requested:
  "desired_mode env rq = Some m \<Longrightarrow> mt_quality s = rq_quality rq \<Longrightarrow> cache_dit_requested_for_batch env rq s"
  by (auto simp: desired_mode_def cache_dit_requested_for_batch_def cache_dit_requested_def Let_def
      split: if_splits option.splits)

text \<open>An ordinary warm-up, for which the parent declines to mount; a package whose \<^verbatim>\<open>disable_cache\<close> detaches the hooks
  when it returns. Where the blocks stay within reach under the hooks, both matter to the flag.\<close>

definition plain_warmup :: "cache_server \<Rightarrow> cache_request \<Rightarrow> bool" where
  "plain_warmup sv rq = (rq_warmup rq \<and> \<not> sv_torch_compile sv)"

definition detaches :: "cache_lib \<Rightarrow> bool" where
  "detaches l = (\<forall>a h x h'. lb_disable l a h = (Inr x, h') \<longrightarrow> h' = None)"

definition call_safe :: "cache_server \<Rightarrow> cache_lib \<Rightarrow> cache_request \<Rightarrow> bool" where
  "call_safe sv l rq = (lb_blocks_reachable l \<longrightarrow> detaches l \<and> \<not> plain_warmup sv rq)"

lemma disable_detaches:
  assumes "detaches l" and "disable_cache_on_transformer l s = (Inr x, t)"
  shows "mt_hooks t = None"
  using assms by (auto simp: disable_cache_on_transformer_def detaches_def on_hooks_def abind_def split: prod.splits sum.splits)

lemma kept_set_true: "inputs_kept s \<Longrightarrow> inputs_kept (snd (set_cache_dit_input_preservation sv l True s))"
  by (rule set_preservation_cases[of sv l True s]) (auto simp: inputs_kept_def)

lemma kept_set_false:
  "inputs_kept s \<Longrightarrow> \<not> mt_enabled s \<Longrightarrow> mt_hooks s = None \<or> \<not> lb_blocks_reachable l \<Longrightarrow>
     inputs_kept (snd (set_cache_dit_input_preservation sv l False s))"
  by (rule set_preservation_cases[of sv l False s]) (auto simp: inputs_kept_def)

lemma kept_leave:
  assumes "inputs_kept s" and "mt_enabled s" and l: "lb_blocks_reachable l \<Longrightarrow> detaches l"
  shows "inputs_kept (snd (leave_mode sv l s))"
proof -
  obtain r u where u: "unmount_cache_dit l s = (r, u)" by (cases "unmount_cache_dit l s")
  have p: "mt_preserve u"
    using keeps_flag_unmount[of True l s] u assms by (simp add: keeps_at_def inputs_kept_def)
  show ?thesis
  proof (cases r)
    case (Inl e)
    then show ?thesis using u p by (simp add: leave_mode_def inputs_kept_def)
  next
    case (Inr x)
    obtain v where v: "disable_cache_on_transformer l s = (Inr (), v)" "mt_hooks u = mt_hooks v" "\<not> mt_enabled u"
      using u Inr by (auto simp: unmount_cache_dit_def act_simps)
    have "mt_hooks u = None \<or> \<not> lb_blocks_reachable l" using l disable_detaches[OF _ v(1)] v(2) by auto
    then have "inputs_kept (snd (set_cache_dit_input_preservation sv l False (u\<lparr>mt_mode := None\<rparr>)))"
      using p v(3) by (intro kept_set_false) (simp_all add: inputs_kept_def)
    then show ?thesis using u Inr by (simp add: leave_mode_def)
  qed
qed

lemma leave_detaches:
  assumes "detaches l" and "leave_mode sv l s = (Inr (), t)"
  shows "mt_hooks t = None"
proof -
  obtain u where u: "disable_cache_on_transformer l s = (Inr (), u)"
    "set_cache_dit_input_preservation sv l False (u\<lparr>mt_enabled := False, mt_num_steps := None, mt_key := None, mt_mode := None\<rparr>) = (Inr (), t)"
    using assms(2) by (auto simp: leave_mode_def unmount_cache_dit_def act_simps)
  then show ?thesis using disable_detaches[OF assms(1) u(1)] set_preservation_view(1)[OF u(2)] by simp
qed

lemma kept_disarm:
  assumes p: "mt_preserve s" and l: "lb_blocks_reachable l \<Longrightarrow> detaches l"
  shows "inputs_kept (snd (disarm_after_failed_mount sv l s))"
proof -
  obtain r u where u: "disable_cache_on_transformer l s = (r, u)" by (cases "disable_cache_on_transformer l s")
  have pu: "mt_preserve u" using view_disable[of l s] u p by (simp add: stage_view_iff)
  show ?thesis
  proof (cases r)
    case (Inl e)
    then show ?thesis using u pu by (simp add: disarm_after_failed_mount_def inputs_kept_def)
  next
    case (Inr x)
    have "mt_hooks u = None \<or> \<not> lb_blocks_reachable l" using l disable_detaches[of l s x u] u Inr by auto
    then have "inputs_kept (snd (set_cache_dit_input_preservation sv l False
        (u\<lparr>mt_enabled := False, mt_num_steps := None, mt_key := None, mt_mode := None\<rparr>)))"
      using pu by (intro kept_set_false) (simp_all add: inputs_kept_def)
    then show ?thesis using u Inr by (simp add: disarm_after_failed_mount_def)
  qed
qed

text \<open>The parent mounts for a request that wants hooks, except for an ordinary warm-up, which changes nothing.\<close>

lemma parent_declines:
  assumes "parent_maybe_enable_cache_dit sv l rq n s = (Inr x, t)" and "cache_dit_requested_for_batch (sv_env sv) rq s"
    and "\<not> sv_breakable sv" and "\<not> mt_enabled s" and t: "\<not> mt_enabled t"
  shows "plain_warmup sv rq \<and> mt_hooks t = mt_hooks s"
proof (cases "resolve_cache_dit_request_overrides (rq_params rq)")
  case (Inl e)
  then show ?thesis using assms by (simp add: parent_maybe_enable_cache_dit_def Let_def araise_def)
next
  case (Inr d)
  let ?u = "s\<lparr>mt_overrides := d\<rparr>"
  have run: "(if plain_warmup sv rq then (Inr (), ?u) else mount_hooks sv l rq n (Some (cache_dit_overrides_key d)) ?u) = (Inr x, t)"
    using assms(1-4) Inr by (simp add: parent_maybe_enable_cache_dit_def plain_warmup_def Let_def awhen_def cong: if_cong)
  have "mt_enabled t'" if "mount_hooks sv l rq n k v = (Inr y, t')" for k v y t'
    using that by (auto simp: mount_hooks_def Let_def abind_Inr_iff split: prod.splits)
  then show ?thesis using run t by (auto split: if_splits)
qed

lemma kept_enter:
  assumes "inputs_kept s" and l: "lb_blocks_reachable l \<Longrightarrow> detaches l"
    and warm: "lb_blocks_reachable l \<Longrightarrow> plain_warmup sv rq \<Longrightarrow> mt_enabled s \<or> mt_hooks s = None"
    and "\<not> sv_breakable sv" and "desired_mode (sv_env sv) rq = Some m" and q: "mt_quality s = rq_quality rq"
  shows "inputs_kept (snd (enter_mode sv l rq n desired s))"
proof -
  let ?arm = "awhen (\<lambda>_. \<not> mt_enabled s) (set_cache_dit_input_preservation sv l True)"
  obtain r u where u: "?arm s = (r, u)" by (cases "?arm s")
  have ku: "inputs_kept u" using assms(1) kept_set_true[of s sv l] u by (auto simp: awhen_def split: if_splits)
  have fu: "mt_quality u = rq_quality rq" "mt_hooks u = mt_hooks s" "mt_enabled u = mt_enabled s"
    using u q set_preservation_view[of sv l True s r u] by (auto simp: awhen_def split: if_splits)
  show ?thesis
  proof (cases r)
    case (Inl e)
    then show ?thesis using u ku by (simp add: enter_mode_def Let_def)
  next
    case (Inr x)
    have pu: "mt_preserve u"
      using u Inr assms(1)
      by (auto simp: awhen_def inputs_kept_def set_cache_dit_input_preservation_def model_set_preservation_def split: if_splits)
    obtain q v where v: "parent_maybe_enable_cache_dit sv l rq n u = (q, v)"
      by (cases "parent_maybe_enable_cache_dit sv l rq n u")
    have pv: "mt_preserve v" using parent_flag[of sv l rq n u] v pu by simp
    show ?thesis
    proof (cases q)
      case (Inl e)
      have "inputs_kept (snd (awhen (\<lambda>_. \<not> mt_enabled s) (disarm_after_failed_mount sv l) v))"
        using kept_disarm[OF pv l, of sv] pv by (simp add: awhen_def inputs_kept_def)
      then show ?thesis using u Inr v Inl
        by (auto simp: enter_mode_def Let_def on_error_do_def abind_def split: prod.splits sum.splits)
    next
      case q: (Inr y)
      have "inputs_kept (snd (awhen (\<lambda>_. \<not> mt_enabled s) (set_cache_dit_input_preservation sv l False) v))"
        if e: "\<not> mt_enabled v"
      proof (cases "mt_enabled s")
        case True
        then show ?thesis using pv by (simp add: awhen_def inputs_kept_def)
      next
        case False
        have "plain_warmup sv rq \<and> mt_hooks v = mt_hooks u"
          by (rule parent_declines[OF v[unfolded q] desired_requested[OF assms(5) fu(1)] assms(4) _ e]) (simp add: fu False)
        then have "mt_hooks v = None \<or> \<not> lb_blocks_reachable l" using warm fu(2) False by auto
        then show ?thesis using kept_set_false[of v l sv] e pv False by (simp add: awhen_def inputs_kept_def)
      qed
      then show ?thesis using u Inr v q pv
        by (simp add: enter_mode_def Let_def on_error_do_def abind_def inputs_kept_def)
    qed
  qed
qed

lemma kept_step:
  assumes "inputs_kept s" and l: "lb_blocks_reachable l \<Longrightarrow> detaches l"
    and warm: "lb_blocks_reachable l \<Longrightarrow> plain_warmup sv rq \<Longrightarrow> mt_enabled s \<or> mt_hooks s = None"
  shows "inputs_kept (snd (maybe_enable_cache_dit sv l rq n s))"
proof -
  let ?s = "s\<lparr>mt_quality := rq_quality rq\<rparr>" and ?d = "desired_mode (sv_env sv) rq"
  let ?leave = "awhen (\<lambda>t. mt_enabled t \<and> mt_mode s \<noteq> ?d) (leave_mode sv l)"
  have k: "inputs_kept ?s" using assms(1) by (simp add: inputs_kept_def)
  obtain r u where u: "?leave ?s = (r, u)" by (cases "?leave ?s")
  have ku: "inputs_kept u" using k kept_leave[OF k _ l, of sv] u by (auto simp: awhen_def split: if_splits)
  show ?thesis
  proof (cases "sv_breakable sv")
    case True
    then show ?thesis using k by (simp add: maybe_enable_cache_dit_def parent_maybe_enable_cache_dit_def Let_def)
  next
    case False
    show ?thesis
    proof (cases r)
      case (Inl e)
      then show ?thesis using False u ku by (simp add: maybe_enable_cache_dit_def Let_def)
    next
      case (Inr x)
      have q: "mt_quality u = rq_quality rq" using u Inr leave_quality[of sv l ?s u] by (auto simp: awhen_def split: if_splits)
      have w: "mt_enabled u \<or> mt_hooks u = None" if "lb_blocks_reachable l" "plain_warmup sv rq"
        using warm[OF that] u Inr leave_detaches[OF l[OF that(1)], of sv ?s u] by (auto simp: awhen_def split: if_splits)
      show ?thesis using False u ku Inr kept_enter[OF ku l w False _ q] by (cases ?d) (simp_all add: maybe_enable_cache_dit_def Let_def)
    qed
  qed
qed

lemma reach_inputs_kept:
  assumes "mount_reach sv (call_safe sv) s"
  shows "inputs_kept s"
  using assms
proof (induction rule: mount_reach.induct)
  case start
  then show ?case by (simp add: inputs_kept_def mount_init_def)
next
  case (request s l rq n r t)
  then show ?case using kept_step[OF request.IH, of l sv rq n] by (simp add: call_safe_def)
qed


section \<open>Equal keys, equal knobs\<close>

text \<open>Two values the stage's key comparison cannot tell apart.\<close>

definition knob_agree :: "pyval \<Rightarrow> pyval \<Rightarrow> bool" where
  "knob_agree v w = (v = w \<or> py_same (freeze v) (freeze w))"

lemma feq_eq: "feq x y \<Longrightarrow> x = y"
  by (cases x) auto

lemma truthy_pnum: "pnum v = Some x \<Longrightarrow> truthy v \<longleftrightarrow> x \<noteq> Fin 0"
  by (cases v) (auto split: if_splits)

lemma py_same_cases:
  assumes "py_same v w"
  obtains (list) l m where "v = PList l" "w = PList m" "list_all2 py_same l m"
  | (equal) "v = w"
  | (number) x where "pnum v = Some x" "pnum w = Some x"
  using assms by (cases v; cases w) (auto dest!: feq_eq)

lemma py_same_truthy: "py_same v w \<Longrightarrow> truthy v = truthy w"
  by (erule py_same_cases) (auto simp: truthy_pnum)

lemma truthy_freeze [simp]: "truthy (freeze v) = truthy v"
proof (cases v)
  case (PDict d)
  have "length (sort_key fst (map (\<lambda>(k, v). (k, freeze v)) d)) = length d" by simp
  then show ?thesis using PDict by (cases d) (auto simp flip: length_greater_0_conv)
qed simp_all

lemma knob_agree_truthy: "knob_agree v w \<Longrightarrow> truthy v = truthy w"
  using py_same_truthy[of "freeze v" "freeze w"] by (auto simp: knob_agree_def)

lemma map_of_sort_key: "distinct (map fst xs) \<Longrightarrow> map_of (sort_key fst xs) = map_of xs"
proof (rule map_of_inject_set[THEN iffD2])
  assume d: "distinct (map fst xs)"
  have "mset (map fst (sort_key fst xs)) = mset (map fst xs)" by simp
  then show "distinct (map fst (sort_key fst xs))" using d by (metis mset_eq_imp_distinct_iff)
  show "distinct (map fst xs)" by (rule d)
  show "set (sort_key fst xs) = set xs" by simp
qed

lemma map_of_py_same:
  assumes "list_all2 py_same (map (\<lambda>(k, v). PList [PStr k, v]) xs) (map (\<lambda>(k, v). PList [PStr k, v]) ys)"
  shows "rel_option py_same (map_of xs k) (map_of ys k)"
  using assms
proof (induction xs arbitrary: ys)
  case (Cons x xs)
  then show ?case by (cases ys; cases x; cases "hd ys") auto
qed simp

lemma map_of_freeze:
  "map_of (map (\<lambda>(k, v). (k, freeze v)) d) k = map_option freeze (map_of d k)"
  by (induction d) auto

lemma same_key_lookup:
  assumes "py_same (cache_dit_overrides_key d) (cache_dit_overrides_key e)"
    and "distinct (map fst d)" and "distinct (map fst e)"
  shows "rel_option (\<lambda>v w. py_same (freeze v) (freeze w)) (map_of d k) (map_of e k)"
proof -
  have fs: "map fst (map (\<lambda>(k, v). (k, freeze v)) c) = map fst c" for c :: pydict by (induction c) auto
  have "rel_option py_same (map_option freeze (map_of d k)) (map_option freeze (map_of e k))"
    using map_of_py_same assms map_of_sort_key[of "map (\<lambda>(k, v). (k, freeze v)) d"]
      map_of_sort_key[of "map (\<lambda>(k, v). (k, freeze v)) e"]
    by (metis cache_dit_overrides_key_def freeze.simps(1) fs map_of_freeze py_same.simps(1))
  then show ?thesis by (simp add: option.rel_map)
qed

lemma knob_of_same_key:
  assumes "py_same (cache_dit_overrides_key d) (cache_dit_overrides_key e)"
    and "distinct (map fst d)" and "distinct (map fst e)"
  shows "knob_agree (cache_dit_knob d k x y False) (cache_dit_knob e k x y False)"
  using same_key_lookup[OF assms, of k]
  by (cases "map_of d k"; cases "map_of e k") (auto simp: cache_dit_knob_def dget_or_def knob_agree_def)

text \<open>The knobs of a configuration, of mounted hooks, and those a request asks for.\<close>

type_synonym knobs = "pyval list \<times> calibrator option"

definition config_knobs :: "cache_dit_config \<Rightarrow> knobs" where
  "config_knobs c = ([cc_Fn c, cc_Bn c, cc_warmup c, cc_rdt c, cc_mc c], calibrator_of c)"

definition hook_knobs :: "hooks \<Rightarrow> knobs" where
  "hook_knobs h = (let c = hk_config h in ([db_Fn c, db_Bn c, db_warmup c, db_rdt c, db_mc c], hk_calibrator h))"

definition wanted_knobs :: "cache_env \<Rightarrow> string \<Rightarrow> pydict \<Rightarrow> knobs" where
  "wanted_knobs env quality overrides = config_knobs (build_cache_dit_config env quality overrides 0 None PNone False)"

fun calibrator_agree :: "calibrator \<Rightarrow> calibrator \<Rightarrow> bool" where
  "calibrator_agree (DMDCalibrator a b c d) (DMDCalibrator a' b' c' d') =
     (knob_agree a a' \<and> knob_agree b b' \<and> knob_agree c c' \<and> knob_agree d d')"
| "calibrator_agree (TaylorSeer a) (TaylorSeer a') = knob_agree a a'"
| "calibrator_agree _ _ = False"

definition knobs_agree :: "knobs \<Rightarrow> knobs \<Rightarrow> bool" where
  "knobs_agree k k' = (list_all2 knob_agree (fst k) (fst k') \<and> rel_option calibrator_agree (snd k) (snd k'))"

lemma knob_agree_refl [simp]: "knob_agree v v"
  by (simp add: knob_agree_def)

lemma calibrator_agree_refl [simp]: "calibrator_agree c c"
  by (cases c) simp_all

lemma knobs_agree_refl [simp]: "knobs_agree k k"
  by (simp add: knobs_agree_def list.rel_refl option.rel_refl)

lemma config_knobs_build:
  "config_knobs (build_cache_dit_config env q d n m p False) = wanted_knobs env q d"
  by (simp add: wanted_knobs_def config_knobs_def build_cache_dit_config_def base_cache_dit_config_def calibrator_of_def Let_def
      MINIMAX_H3_HIGH_QUALITY_CACHE_DIT_CONFIG_def)

lemma knobs_of_same_key:
  assumes "py_same (cache_dit_overrides_key d) (cache_dit_overrides_key e)"
    and "distinct (map fst d)" and "distinct (map fst e)" and "(q = ''high'') = (q' = ''high'')"
  shows "knobs_agree (wanted_knobs env q d) (wanted_knobs env q' e)"
proof (cases "q = ''high''")
  case True
  then have "wanted_knobs env q d = wanted_knobs env q' e"
    using assms(4) by (simp add: wanted_knobs_def build_cache_dit_config_def)
  then show ?thesis by simp
next
  case False
  note agree = knob_of_same_key[OF assms(1-3)]
  have "rel_option calibrator_agree (calibrator_of (base_cache_dit_config env d 0 None PNone False))
      (calibrator_of (base_cache_dit_config env e 0 None PNone False))"
    using agree knob_agree_truthy[OF agree] by (simp add: calibrator_of_def base_cache_dit_config_def Let_def)
  then show ?thesis using False assms(4) agree
    by (simp add: knobs_agree_def wanted_knobs_def config_knobs_def build_cache_dit_config_def base_cache_dit_config_def Let_def)
qed

section \<open>Requests run with the hooks they ask for\<close>

text \<open>
  A package whose calls either do their work or raise and change nothing: \<^verbatim>\<open>enable_cache\<close> attaches hooks with the given
  configuration, \<^verbatim>\<open>disable_cache\<close> removes them, \<^verbatim>\<open>refresh_context\<close> sets the number of steps and leaves the knobs.
\<close>

definition clean_enable :: "cache_lib \<Rightarrow> bool" where
  "clean_enable l = (\<forall>a c k h. case lb_enable l a c k h of
      (Inr _, h') \<Rightarrow> h' = Some \<lparr>hk_config = c, hk_calibrator = k\<rparr> | (Inl _, h') \<Rightarrow> h' = h)"

definition clean_disable :: "cache_lib \<Rightarrow> bool" where
  "clean_disable l = (\<forall>a h. case lb_disable l a h of (Inr _, h') \<Rightarrow> h' = None | (Inl _, h') \<Rightarrow> h' = h)"

definition clean_refresh :: "cache_lib \<Rightarrow> bool" where
  "clean_refresh l = (\<forall>n m p h. case lb_refresh l n m p (Some h) of
      (Inr _, h') \<Rightarrow> (\<exists>k. h' = Some k \<and> hook_knobs k = hook_knobs h \<and> db_steps (hk_config k) = n)
    | (Inl _, h') \<Rightarrow> h' = Some h)"

definition lib_clean :: "cache_lib \<Rightarrow> bool" where
  "lib_clean l = (clean_enable l \<and> clean_disable l \<and> clean_refresh l)"

text \<open>The keys of a Python dictionary are distinct.\<close>

definition params_ok :: "cache_request \<Rightarrow> bool" where
  "params_ok rq = (case rq_params rq of PDict d \<Rightarrow> distinct (map fst d) | _ \<Rightarrow> True)"

lemma resolve_distinct:
  assumes "params_ok rq" and "resolve_cache_dit_request_overrides (rq_params rq) = Inr d"
  shows "distinct (map fst d)"
  using assms by (auto simp: params_ok_def resolve_cache_dit_request_overrides_def res_simps dset_def distinct_update
      split: pyval.splits)

lemma disable_clean:
  assumes "lib_clean l" and "disable_cache_on_transformer l s = (r, t)"
  shows "mt_hooks t = (case r of Inl _ \<Rightarrow> mt_hooks s | Inr _ \<Rightarrow> None)" and "stage_view t = stage_view s"
proof -
  have "case lb_disable l (mt_adapter s) (mt_hooks s) of (Inr _, h') \<Rightarrow> h' = None | (Inl _, h') \<Rightarrow> h' = mt_hooks s"
    using assms(1) by (simp add: lib_clean_def clean_disable_def)
  then show "mt_hooks t = (case r of Inl _ \<Rightarrow> mt_hooks s | Inr _ \<Rightarrow> None)" using assms(2)
    by (auto simp: disable_cache_on_transformer_def on_hooks_def abind_def split: prod.splits sum.splits)
  show "stage_view t = stage_view s" using view_disable[of l s] assms(2) by simp
qed

lemma unmount_clean:
  assumes "lib_clean l" and "unmount_cache_dit l s = (r, t)"
  shows "(case r of
      Inl _ \<Rightarrow> mt_hooks t = mt_hooks s \<and> stage_view t = stage_view s
    | Inr _ \<Rightarrow> mt_hooks t = None \<and> \<not> mt_enabled t \<and> mt_mode t = mt_mode s \<and> mt_quality t = mt_quality s \<and>
        mt_overrides t = mt_overrides s)"
proof -
  obtain q u where u: "disable_cache_on_transformer l s = (q, u)" by (cases "disable_cache_on_transformer l s")
  then show ?thesis using disable_clean[OF assms(1) u] assms(2)
    by (cases q) (auto simp: unmount_cache_dit_def stage_view_def)
qed

lemma clean_enableD:
  assumes "lib_clean l"
  shows "case lb_enable l a c k h of
    (Inr _, h') \<Rightarrow> h' = Some \<lparr>hk_config = c, hk_calibrator = k\<rparr> | (Inl _, h') \<Rightarrow> h' = h"
  using assms by (simp add: lib_clean_def clean_enable_def)

lemma groups_ok: "sv_dit_group sv = Inr () \<Longrightarrow> \<exists>u. store_groups sv l sp tp s = (Inr (), u) \<and> mt_hooks u = mt_hooks s"
  by (simp add: store_groups_def awhen_def)

lemma attach_clean:
  assumes "lib_clean l" and "sv_dit_group sv = Inr ()" and "attach_hooks sv l a c n sp tp s = (r, t)"
  shows "mt_hooks t = (case r of Inl _ \<Rightarrow> mt_hooks s
    | Inr _ \<Rightarrow> Some \<lparr>hk_config = db_config_of c n, hk_calibrator = calibrator_of c\<rparr>)"
proof -
  define pc where "pc = build_parallelism_config sv sp tp"
  define mark call keep groups :: "unit mount_act" where
    "mark = awhen (\<lambda>_. pc \<noteq> None) (aupdate (\<lambda>s. s\<lparr>mt_patched := True, mt_parallel := pc\<rparr>))"
    and "call = on_hooks (lb_enable l a (db_config_of c n) (calibrator_of c))"
    and "keep = awhen (\<lambda>_. a \<noteq> None) (aupdate (\<lambda>s. s\<lparr>mt_adapter := True\<rparr>))"
    and "groups = awhen (\<lambda>_. pc \<noteq> None) (store_groups sv l sp tp)"
  have run: "attach_hooks sv l a c n sp tp s = abind mark (\<lambda>_. abind call (\<lambda>_. abind keep (\<lambda>_. groups))) s"
    unfolding attach_hooks_def Let_def mark_def call_def keep_def groups_def pc_def by (rule refl)
  obtain s1 where s1: "mark s = (Inr (), s1)" "mt_hooks s1 = mt_hooks s" by (cases pc) (simp_all add: mark_def awhen_def)
  obtain q k where q: "lb_enable l a (db_config_of c n) (calibrator_of c) (mt_hooks s) = (q, k)" by fastforce
  have k: "case q of Inr _ \<Rightarrow> k = Some \<lparr>hk_config = db_config_of c n, hk_calibrator = calibrator_of c\<rparr> | Inl _ \<Rightarrow> k = mt_hooks s"
    using clean_enableD[OF assms(1), where a = a and c = "db_config_of c n" and k = "calibrator_of c" and h = "mt_hooks s"] q
    by (simp split: sum.splits)
  have s2: "call s1 = (q, s1\<lparr>mt_hooks := k\<rparr>)" using q s1(2) by (simp add: call_def on_hooks_def)
  obtain s3 where s3: "keep (s1\<lparr>mt_hooks := k\<rparr>) = (Inr (), s3)" "mt_hooks s3 = k" 
    by (cases a) (simp_all add: keep_def awhen_def)
  obtain s4 where s4: "groups s3 = (Inr (), s4)" "mt_hooks s4 = k"
    using groups_ok[OF assms(2), of l sp tp s3] s3(2) by (cases pc) (auto simp: groups_def awhen_def)
  show ?thesis using assms(3) run s1(1) s2 s3(1) s4 k by (cases q) auto
qed

lemma enable_cases:
  assumes "cc_enabled c" and "cc_steps c = Some n"
  obtains (refused) e where "enable_cache_on_transformer sv l c sp tp g s = (Inl e, s)"
  | (attached) a where "enable_cache_on_transformer sv l c sp tp g s = attach_hooks sv l a c n sp tp s"
proof (cases "assert_calibrator_exclusive c")
  case (Inl e)
  then show ?thesis using assms refused by (simp add: enable_cache_on_transformer_def)
next
  case x: (Inr x)
  show ?thesis
  proof (cases "assert_dmd_supported sv c")
    case (Inl e)
    then show ?thesis using assms x refused by (simp add: enable_cache_on_transformer_def)
  next
    case y: (Inr y)
    show ?thesis
    proof (cases "build_custom_block_adapter sv g")
      case (Inl e)
      then show ?thesis using assms x y refused by (simp add: enable_cache_on_transformer_def)
    next
      case (Inr a)
      then show ?thesis using assms x y refused attached[of a]
        by (cases "a = None \<and> \<not> lb_supported l") (simp_all add: enable_cache_on_transformer_def)
    qed
  qed
qed

lemma enable_clean:
  assumes "lib_clean l" and "sv_dit_group sv = Inr ()" and "cc_enabled c" and "cc_steps c = Some n"
    and "enable_cache_on_transformer sv l c sp tp g s = (r, t)"
  shows "mt_hooks t = (case r of Inl _ \<Rightarrow> mt_hooks s
    | Inr _ \<Rightarrow> Some \<lparr>hk_config = db_config_of c n, hk_calibrator = calibrator_of c\<rparr>)"
proof (rule enable_cases[OF assms(3,4), of sv l sp tp g s])
  fix a assume "enable_cache_on_transformer sv l c sp tp g s = attach_hooks sv l a c n sp tp s"
  then have "attach_hooks sv l a c n sp tp s = (r, t)" using assms(5) by simp
  then show ?thesis by (rule attach_clean[OF assms(1,2)])
qed (use assms(5) in auto)

lemma mount_clean:
  assumes "lib_clean l" and "sv_dit_group sv = Inr ()" and "mount_hooks sv l rq n k s = (r, t)"
    and "mt_hooks s = None" and "\<not> mt_enabled s"
  shows "mt_mode t = mt_mode s"
    and "case r of
      Inl _ \<Rightarrow> mt_hooks t = None \<and> \<not> mt_enabled t
    | Inr _ \<Rightarrow> mt_enabled t \<and> mt_key t = k \<and> (\<exists>h. mt_hooks t = Some h \<and> db_steps (hk_config h) = n \<and>
        hook_knobs h = wanted_knobs (sv_env sv) (mt_quality s) (mt_overrides s))"
proof -
  define sp tp where "sp = (1 < sv_world_size sv \<and> group_larger (sv_sp_group sv))"
    and "tp = (1 < sv_world_size sv \<and> group_larger (sv_tp_group sv))"
  define c where "c m p = build_cache_dit_config (sv_env sv) (mt_quality s) (mt_overrides s) n m p False" for m p
  have c: "cc_enabled (c m p)" "cc_steps (c m p) = Some n" for m p
    by (simp_all add: c_def build_cache_dit_config_def base_cache_dit_config_def MINIMAX_H3_HIGH_QUALITY_CACHE_DIT_CONFIG_def Let_def)
  have kn: "hook_knobs \<lparr>hk_config = db_config_of (c m p) n, hk_calibrator = calibrator_of (c m p)\<rparr> =
      wanted_knobs (sv_env sv) (mt_quality s) (mt_overrides s)" for m p
    unfolding config_knobs_build[symmetric, of _ _ _ n m p]
    by (simp add: hook_knobs_def config_knobs_def db_config_of_def c_def Let_def)
  have run: "mount_hooks sv l rq n k s =
      abind (alift (cache_dit_scm_masks l (sv_env sv) (mt_quality s) (mt_overrides s) n)) (\<lambda>(_, policy, m).
      abind (enable_cache_on_transformer sv l (c m policy) sp tp (rq_cfg rq)) (\<lambda>_.
      aupdate (\<lambda>s. s\<lparr>mt_enabled := True, mt_num_steps := Some n, mt_key := k\<rparr>))) s"
    by (simp add: mount_hooks_def Let_def c_def sp_def tp_def)
  show "mt_mode t = mt_mode s" and "case r of
      Inl _ \<Rightarrow> mt_hooks t = None \<and> \<not> mt_enabled t
    | Inr _ \<Rightarrow> mt_enabled t \<and> mt_key t = k \<and> (\<exists>h. mt_hooks t = Some h \<and> db_steps (hk_config h) = n \<and>
        hook_knobs h = wanted_knobs (sv_env sv) (mt_quality s) (mt_overrides s))"
  proof (atomize(full), cases "cache_dit_scm_masks l (sv_env sv) (mt_quality s) (mt_overrides s) n")
    case (Inl e)
    then show "mt_mode t = mt_mode s \<and> (case r of
      Inl _ \<Rightarrow> mt_hooks t = None \<and> \<not> mt_enabled t
    | Inr _ \<Rightarrow> mt_enabled t \<and> mt_key t = k \<and> (\<exists>h. mt_hooks t = Some h \<and> db_steps (hk_config h) = n \<and>
        hook_knobs h = wanted_knobs (sv_env sv) (mt_quality s) (mt_overrides s)))"
      using assms(3-5) run by auto
  next
    case (Inr x)
    obtain z p m where x: "x = (z, p, m)" by (cases x)
    obtain q u where q: "enable_cache_on_transformer sv l (c m p) sp tp (rq_cfg rq) s = (q, u)"
      by (cases "enable_cache_on_transformer sv l (c m p) sp tp (rq_cfg rq) s")
    have hu: "mt_hooks u = (case q of Inl _ \<Rightarrow> mt_hooks s
        | Inr _ \<Rightarrow> Some \<lparr>hk_config = db_config_of (c m p) n, hk_calibrator = calibrator_of (c m p)\<rparr>)"
      by (rule enable_clean[OF assms(1,2) c q])
    have vu: "stage_view u = stage_view s" using view_enable[of sv l "c m p" sp tp "rq_cfg rq" s] q by simp
    show "mt_mode t = mt_mode s \<and> (case r of
      Inl _ \<Rightarrow> mt_hooks t = None \<and> \<not> mt_enabled t
    | Inr _ \<Rightarrow> mt_enabled t \<and> mt_key t = k \<and> (\<exists>h. mt_hooks t = Some h \<and> db_steps (hk_config h) = n \<and>
        hook_knobs h = wanted_knobs (sv_env sv) (mt_quality s) (mt_overrides s)))"
      using assms(3-5) run Inr x q hu vu kn[of m p] by (cases q) (auto simp: stage_view_iff db_config_of_def)
  qed
qed

lemma refresh_clean:
  assumes "lib_clean l" and "refresh_mount sv l n s = (r, t)" and "mt_hooks s = Some h"
  shows "case r of
      Inl _ \<Rightarrow> mt_hooks t = Some h
    | Inr _ \<Rightarrow> (\<exists>k. mt_hooks t = Some k \<and> hook_knobs k = hook_knobs h \<and> db_steps (hk_config k) = n)"
proof -
  have c: "case lb_refresh l n m p (Some h) of
      (Inr _, h') \<Rightarrow> (\<exists>k. h' = Some k \<and> hook_knobs k = hook_knobs h \<and> db_steps (hk_config k) = n)
    | (Inl _, h') \<Rightarrow> h' = Some h" for m p
    using assms(1) by (simp add: lib_clean_def clean_refresh_def)
  define post where "post q u = (case q :: unit res of
      Inl _ \<Rightarrow> mt_hooks u = Some h
    | Inr _ \<Rightarrow> (\<exists>k. mt_hooks u = Some k \<and> hook_knobs k = hook_knobs h \<and> db_steps (hk_config k) = n))" for q and u :: mount
  have start: "post (Inl e) s" for e by (simp add: post_def assms(3))
  have call: "post q u" if "on_hooks (lb_refresh l n m p) s = (q, u)" for m p q u
    using c[of m p] that assms(3) by (auto simp: post_def on_hooks_def split: prod.splits sum.splits)
  have ctx: "post q u" if "refresh_context_on_transformer l n p s = (q, u)" for p q u
    using that call start by (auto simp: refresh_context_on_transformer_def abind_def split: sum.splits if_splits)
  have "post r t"
    using assms(2) start ctx
    by (cases "cache_dit_scm_masks l (sv_env sv) (mt_quality s) (mt_overrides s) n")
      (auto simp: refresh_mount_def abind_def split: prod.splits)
  then show ?thesis by (simp add: post_def)
qed

text \<open>What the parent leaves behind, from a state where the stage knows whether hooks are attached.\<close>

definition hooks_known :: "mount \<Rightarrow> bool" where
  "hooks_known s = (mt_enabled s = (mt_hooks s \<noteq> None))"

text \<open>The hooks of \<open>t\<close> are those of \<open>s\<close>, up to the number of steps; or they are new.\<close>

definition same_hooks :: "mount \<Rightarrow> mount \<Rightarrow> bool" where
  "same_hooks s t = (\<exists>h k. mt_hooks s = Some h \<and> mt_hooks t = Some k \<and> hook_knobs k = hook_knobs h \<and>
     mt_enabled t \<and> mt_key t = mt_key s)"

definition new_hooks :: "cache_server \<Rightarrow> string \<Rightarrow> pydict \<Rightarrow> mount \<Rightarrow> bool" where
  "new_hooks sv q d t = (\<exists>h. mt_hooks t = Some h \<and> mt_enabled t \<and> mt_key t = Some (cache_dit_overrides_key d) \<and>
     hook_knobs h = wanted_knobs (sv_env sv) q d)"

definition no_hooks :: "mount \<Rightarrow> bool" where
  "no_hooks t = (mt_hooks t = None \<and> \<not> mt_enabled t)"

definition steps_set :: "int \<Rightarrow> mount \<Rightarrow> bool" where
  "steps_set n t = (\<exists>h. mt_hooks t = Some h \<and> db_steps (hk_config h) = n)"

lemma view_same_hooks:
  "hooks_known s \<Longrightarrow> mt_hooks t = mt_hooks s \<Longrightarrow> stage_view t = stage_view s \<Longrightarrow> no_hooks t \<or> same_hooks s t"
  by (auto simp: hooks_known_def no_hooks_def same_hooks_def stage_view_iff)

lemma parent_decision:
  assumes "lib_clean l" and "sv_dit_group sv = Inr ()" and "hooks_known s"
    and "(if mt_enabled s then refresh_mount sv l n s else if w then (Inr (), s)
          else mount_hooks sv l rq n (Some (cache_dit_overrides_key (mt_overrides s))) s) = (r, t)"
  shows "mt_mode t = mt_mode s" and "isl r \<Longrightarrow> no_hooks t \<or> same_hooks s t"
    and "\<not> isl r \<Longrightarrow> mt_enabled s \<Longrightarrow> same_hooks s t \<and> steps_set n t"
    and "\<not> isl r \<Longrightarrow> \<not> mt_enabled s \<Longrightarrow>
      (w \<and> no_hooks t) \<or> (\<not> w \<and> new_hooks sv (mt_quality s) (mt_overrides s) t \<and> steps_set n t)"
proof -
  have "mt_mode t = mt_mode s \<and> (isl r \<longrightarrow> same_hooks s t) \<and> (\<not> isl r \<longrightarrow> same_hooks s t \<and> steps_set n t)"
    if e: "mt_enabled s"
  proof -
    obtain h where h: "mt_hooks s = Some h" using assms(3) e by (auto simp: hooks_known_def)
    have run: "refresh_mount sv l n s = (r, t)" using assms(4) e by simp
    have v: "stage_view t = stage_view s" using view_refresh[of sv l n s] run by simp
    show ?thesis using refresh_clean[OF assms(1) run h] v e h
      by (cases r) (auto simp: same_hooks_def steps_set_def stage_view_iff)
  qed
  moreover have "mt_mode t = mt_mode s \<and> (isl r \<longrightarrow> no_hooks t) \<and>
      (\<not> isl r \<longrightarrow> (w \<and> no_hooks t) \<or> (\<not> w \<and> new_hooks sv (mt_quality s) (mt_overrides s) t \<and> steps_set n t))"
    if e: "\<not> mt_enabled s"
  proof (cases w)
    case True
    then show ?thesis using assms(3,4) e by (auto simp: no_hooks_def hooks_known_def)
  next
    case False
    have h: "mt_hooks s = None" using assms(3) e by (simp add: hooks_known_def)
    have run: "mount_hooks sv l rq n (Some (cache_dit_overrides_key (mt_overrides s))) s = (r, t)"
      using assms(4) e False by simp
    show ?thesis using mount_clean[OF assms(1,2) run h e] False
      by (cases r) (auto simp: no_hooks_def new_hooks_def steps_set_def)
  qed
  ultimately show "mt_mode t = mt_mode s" and "isl r \<Longrightarrow> no_hooks t \<or> same_hooks s t"
    and "\<not> isl r \<Longrightarrow> mt_enabled s \<Longrightarrow> same_hooks s t \<and> steps_set n t"
    and "\<not> isl r \<Longrightarrow> \<not> mt_enabled s \<Longrightarrow>
      (w \<and> no_hooks t) \<or> (\<not> w \<and> new_hooks sv (mt_quality s) (mt_overrides s) t \<and> steps_set n t)"
    by blast+
qed

lemma parent_clean:
  assumes "lib_clean l" and "sv_dit_group sv = Inr ()" and "hooks_known s" and "\<not> sv_breakable sv"
    and "cache_dit_requested_for_batch (sv_env sv) rq s"
    and "parent_maybe_enable_cache_dit sv l rq n s = (r, t)"
  shows "mt_mode t = mt_mode s \<and> (isl r \<longrightarrow> no_hooks t \<or> same_hooks s t) \<and>
    (\<not> isl r \<longrightarrow> (\<exists>d. resolve_cache_dit_request_overrides (rq_params rq) = Inr d \<and>
      ((same_hooks s t \<and> same_key (Some (cache_dit_overrides_key d)) (mt_key s) \<and> steps_set n t) \<or>
       (new_hooks sv (mt_quality s) d t \<and> steps_set n t) \<or> (plain_warmup sv rq \<and> no_hooks t))))"
proof (cases "resolve_cache_dit_request_overrides (rq_params rq)")
  case (Inl e)
  then have "r = Inl e" and "t = s" using assms(4,6) by (simp_all add: parent_maybe_enable_cache_dit_def Let_def)
  then show ?thesis using view_same_hooks[OF assms(3)] by simp
next
  case (Inr d)
  let ?s = "s\<lparr>mt_overrides := d\<rparr>"
  define change where "change = awhen (\<lambda>s. mt_enabled s \<and> \<not> same_key (Some (cache_dit_overrides_key d)) (mt_key s)) (unmount_cache_dit l)"
  define decide where "decide = (\<lambda>s. if mt_enabled s then refresh_mount sv l n s else if plain_warmup sv rq then (Inr (), s)
          else mount_hooks sv l rq n (Some (cache_dit_overrides_key d)) s)"
  have run: "abind change (\<lambda>_. decide) ?s = (r, t)"
    using assms(4-6) Inr by (simp add: parent_maybe_enable_cache_dit_def Let_def change_def decide_def plain_warmup_def
        cong: if_cong)
  have known: "hooks_known ?s" using assms(3) by (simp add: hooks_known_def)
  have same: "same_hooks ?s t = same_hooks s t" by (simp add: same_hooks_def)
  obtain q u where u: "change ?s = (q, u)" by (cases "change ?s")
  have stay: "decide v = (r, t) \<Longrightarrow> hooks_known v \<Longrightarrow> mt_overrides v = d \<Longrightarrow> mt_mode t = mt_mode v \<and>
      (isl r \<longrightarrow> no_hooks t \<or> same_hooks v t) \<and> (\<not> isl r \<longrightarrow> (mt_enabled v \<and> same_hooks v t \<and> steps_set n t) \<or>
      (new_hooks sv (mt_quality v) d t \<and> steps_set n t) \<or> (plain_warmup sv rq \<and> no_hooks t))" for v
    using parent_decision[OF assms(1,2), of v n "plain_warmup sv rq" rq r t] unfolding decide_def by metis
  show ?thesis
  proof (cases "mt_enabled ?s \<and> \<not> same_key (Some (cache_dit_overrides_key d)) (mt_key ?s)")
    case False
    then have "change ?s = (Inr (), ?s)" by (auto simp: change_def awhen_def)
    then have dt: "decide ?s = (r, t)" using run by simp
    show ?thesis using stay[OF dt known] False Inr same by auto
  next
    case True
    then have un: "unmount_cache_dit l ?s = (q, u)" using u by (simp add: change_def awhen_def)
    show ?thesis
    proof (cases q)
      case (Inl e)
      then have "r = Inl e" and "t = u" using run u by simp_all
      then show ?thesis using unmount_clean[OF assms(1) un] Inl view_same_hooks[OF known, of t] same
        by (auto simp: stage_view_iff)
    next
      case q: (Inr x)
      have f: "mt_hooks u = None" "\<not> mt_enabled u" "mt_mode u = mt_mode s" "mt_quality u = mt_quality s" "mt_overrides u = d"
        using unmount_clean[OF assms(1) un] q by simp_all
      have dt: "decide u = (r, t)" using run u q by simp
      have "\<not> same_hooks u t" using f(1) by (simp add: same_hooks_def)
      moreover have "hooks_known u" using f(1,2) by (simp add: hooks_known_def)
      ultimately show ?thesis using stay[OF dt _ f(5)] f Inr by auto
    qed
  qed
qed

section \<open>The invariant of clean histories\<close>

definition mode_of :: "string \<Rightarrow> string" where
  "mode_of q = (if q = ''high'' then ''high'' else ''generic'')"

definition mounted_ok :: "cache_server \<Rightarrow> mount \<Rightarrow> bool" where
  "mounted_ok sv s = (hooks_known s \<and> (sv_breakable sv \<longrightarrow> mt_hooks s = None) \<and>
     (\<forall>h. mt_hooks s = Some h \<longrightarrow> (\<exists>q d. mt_mode s = Some (mode_of q) \<and> mt_key s = Some (cache_dit_overrides_key d) \<and>
        distinct (map fst d) \<and> hook_knobs h = wanted_knobs (sv_env sv) q d)))"

text \<open>Hooks that carry a request's knobs and step count under its mode.\<close>

definition hooks_serve :: "cache_server \<Rightarrow> cache_request \<Rightarrow> int \<Rightarrow> mount \<Rightarrow> bool" where
  "hooks_serve sv rq n t = (\<exists>h d. mt_hooks t = Some h \<and> mt_mode t = desired_mode (sv_env sv) rq \<and>
     resolve_cache_dit_request_overrides (rq_params rq) = Inr d \<and> db_steps (hk_config h) = n \<and>
     knobs_agree (wanted_knobs (sv_env sv) (rq_quality rq) d) (hook_knobs h))"

lemma desired_mode_mode: "desired_mode env rq = Some m \<Longrightarrow> m = mode_of (rq_quality rq)"
  by (auto simp: desired_mode_def mode_of_def Let_def split: if_splits)

lemma no_hooks_ok: "no_hooks t \<Longrightarrow> mounted_ok sv t"
  by (simp add: no_hooks_def mounted_ok_def hooks_known_def)

lemma same_hooks_ok:
  "mounted_ok sv s \<Longrightarrow> same_hooks s t \<Longrightarrow> mt_mode t = mt_mode s \<Longrightarrow> mounted_ok sv t"
  by (auto simp: mounted_ok_def same_hooks_def hooks_known_def)

lemma new_hooks_ok:
  assumes "new_hooks sv q d t" and "distinct (map fst d)" and "\<not> sv_breakable sv"
  shows "mounted_ok sv (t\<lparr>mt_mode := Some (mode_of q)\<rparr>)"
  using assms by (auto simp: mounted_ok_def new_hooks_def hooks_known_def intro!: exI[of _ q] exI[of _ d])

lemma serve_new:
  assumes "new_hooks sv (rq_quality rq) d t" and "resolve_cache_dit_request_overrides (rq_params rq) = Inr d"
    and "steps_set n t"
  shows "hooks_serve sv rq n (t\<lparr>mt_mode := desired_mode (sv_env sv) rq\<rparr>)"
  using assms by (auto simp: hooks_serve_def new_hooks_def steps_set_def)

lemma serve_same:
  assumes "mounted_ok sv s" and "same_hooks s t" and "mt_mode s = desired_mode (sv_env sv) rq"
    and "resolve_cache_dit_request_overrides (rq_params rq) = Inr d" and "distinct (map fst d)"
    and "same_key (Some (cache_dit_overrides_key d)) (mt_key s)" and "steps_set n t"
  shows "hooks_serve sv rq n (t\<lparr>mt_mode := desired_mode (sv_env sv) rq\<rparr>)"
proof -
  obtain h k where h: "mt_hooks s = Some h" "mt_hooks t = Some k" "hook_knobs k = hook_knobs h" "db_steps (hk_config k) = n"
    using assms(2,7) by (auto simp: same_hooks_def steps_set_def)
  obtain q e where e: "mt_mode s = Some (mode_of q)" "mt_key s = Some (cache_dit_overrides_key e)" "distinct (map fst e)"
    "hook_knobs h = wanted_knobs (sv_env sv) q e" using assms(1) h(1) by (auto simp: mounted_ok_def)
  have "(rq_quality rq = ''high'') = (q = ''high'')"
    using desired_mode_mode[of "sv_env sv" rq "mode_of q"] assms(3) e(1) by (auto simp: mode_of_def split: if_splits)
  then have "knobs_agree (wanted_knobs (sv_env sv) (rq_quality rq) d) (wanted_knobs (sv_env sv) q e)"
    using assms(6) e(2) by (intro knobs_of_same_key[OF _ assms(5) e(3)]) simp_all
  then show ?thesis using h e(4) assms(4) by (simp add: hooks_serve_def)
qed

lemma set_preservation_ok:
  "set_cache_dit_input_preservation sv l b s = (r, t) \<Longrightarrow> mounted_ok sv t = mounted_ok sv s"
  by (simp add: mounted_ok_def hooks_known_def set_preservation_view)

lemma disarm_no_hooks:
  assumes "lib_clean l" and "no_hooks s" and "disarm_after_failed_mount sv l s = (r, t)"
  shows "no_hooks t"
proof -
  obtain q u where u: "disable_cache_on_transformer l s = (q, u)" by (cases "disable_cache_on_transformer l s")
  have hu: "mt_hooks u = None" "\<not> mt_enabled u"
    using disable_clean[OF assms(1) u] assms(2) by (cases q; simp add: no_hooks_def stage_view_iff)+
  show ?thesis
  proof (cases q)
    case (Inl e)
    then show ?thesis using assms(3) u hu by (auto simp: disarm_after_failed_mount_def no_hooks_def)
  next
    case (Inr x)
    then have "set_cache_dit_input_preservation sv l False
        (u\<lparr>mt_enabled := False, mt_num_steps := None, mt_key := None, mt_mode := None\<rparr>) = (r, t)"
      using assms(3) u by (simp add: disarm_after_failed_mount_def)
    from set_preservation_view(1,2)[OF this] show ?thesis using hu by (simp add: no_hooks_def)
  qed
qed

lemma same_hooks_enabled: "hooks_known s \<Longrightarrow> same_hooks s t \<Longrightarrow> mt_enabled s"
  by (auto simp: same_hooks_def hooks_known_def)

text \<open>The end of the handler after the parent has returned, and after it has raised.\<close>

lemma enter_returned:
  assumes "mounted_ok sv u" and "params_ok rq" and "\<not> sv_breakable sv" and "desired_mode (sv_env sv) rq = Some m"
    and "mt_enabled u \<Longrightarrow> mt_mode u = Some m" and d: "resolve_cache_dit_request_overrides (rq_params rq) = Inr d"
    and alt: "(same_hooks u v \<and> same_key (Some (cache_dit_overrides_key d)) (mt_key u) \<and> steps_set n v) \<or>
          (new_hooks sv (rq_quality rq) d v \<and> steps_set n v) \<or> (plain_warmup sv rq \<and> no_hooks v)"
    and fin: "(if mt_enabled v then (Inr (), v\<lparr>mt_mode := Some m\<rparr>)
      else awhen (\<lambda>_. b) (set_cache_dit_input_preservation sv l False) v) = (r, t)"
  shows "mounted_ok sv t \<and> ((plain_warmup sv rq \<and> no_hooks t) \<or> hooks_serve sv rq n t)"
proof -
  have known: "hooks_known u" using assms(1) by (simp add: mounted_ok_def)
  have dist: "distinct (map fst d)" by (rule resolve_distinct[OF assms(2) d])
  from alt show ?thesis
  proof (elim disjE conjE)
    assume a: "same_hooks u v" "same_key (Some (cache_dit_overrides_key d)) (mt_key u)" "steps_set n v"
    have mu: "mt_mode u = Some m" using same_hooks_enabled[OF known a(1)] assms(5) by simp
    have t: "t = v\<lparr>mt_mode := Some m\<rparr>" using fin a(1) by (auto simp: same_hooks_def)
    have "same_hooks u t" using a(1) t by (simp add: same_hooks_def)
    then have "mounted_ok sv t" using same_hooks_ok[OF assms(1)] t mu by simp
    moreover have "hooks_serve sv rq n t"
      using serve_same[OF assms(1) a(1) _ d dist a(2,3)] mu assms(4) t by simp
    ultimately show ?thesis by simp
  next
    assume a: "new_hooks sv (rq_quality rq) d v" "steps_set n v"
    have t: "t = v\<lparr>mt_mode := Some m\<rparr>" using fin a(1) by (auto simp: new_hooks_def)
    have "mounted_ok sv t" using new_hooks_ok[OF a(1) dist assms(3)] t desired_mode_mode[OF assms(4)] by simp
    moreover have "hooks_serve sv rq n t" using serve_new[OF a(1) d a(2)] assms(4) t by simp
    ultimately show ?thesis by simp
  next
    assume a: "plain_warmup sv rq" "no_hooks v"
    have "t = v \<or> set_cache_dit_input_preservation sv l False v = (r, t)"
      using fin a(2) by (auto simp: no_hooks_def awhen_def split: if_splits)
    then have "no_hooks t" using a(2) set_preservation_view(1,2)[of sv l False v r t] by (auto simp: no_hooks_def)
    then show ?thesis using a(1) no_hooks_ok by blast
  qed
qed

lemma enter_failed:
  assumes "lib_clean l" and "mounted_ok sv u" and "no_hooks v \<or> same_hooks u v" and "mt_mode v = mt_mode u"
    and "awhen (\<lambda>_. \<not> mt_enabled u) (disarm_after_failed_mount sv l) v = (r, t)"
  shows "mounted_ok sv t"
proof (cases "mt_enabled u")
  case True
  then have "t = v" using assms(5) by (simp add: awhen_def)
  then show ?thesis using assms(3) no_hooks_ok same_hooks_ok[OF assms(2) _ assms(4)] by blast
next
  case False
  have "hooks_known u" using assms(2) by (simp add: mounted_ok_def)
  then have "no_hooks v" using assms(3) same_hooks_enabled False by blast
  then show ?thesis using assms(5) False disarm_no_hooks[OF assms(1)] no_hooks_ok by (simp add: awhen_def)
qed

lemma enter_clean:
  assumes "lib_clean l" and "sv_dit_group sv = Inr ()" and "params_ok rq" and "\<not> sv_breakable sv"
    and "mounted_ok sv s" and "mt_enabled s \<Longrightarrow> mt_mode s = Some m" and "mt_quality s = rq_quality rq"
    and "desired_mode (sv_env sv) rq = Some m" and "enter_mode sv l rq n (Some m) s = (r, t)"
  shows "mounted_ok sv t \<and> (\<not> isl r \<longrightarrow> (plain_warmup sv rq \<and> no_hooks t) \<or> hooks_serve sv rq n t)"
proof -
  define arm where "arm = awhen (\<lambda>_. \<not> mt_enabled s) (set_cache_dit_input_preservation sv l True)"
  define disarm where "disarm = awhen (\<lambda>_. \<not> mt_enabled s) (disarm_after_failed_mount sv l)"
  define finish where "finish v = (if mt_enabled v then (Inr (), v\<lparr>mt_mode := Some m\<rparr>)
    else awhen (\<lambda>_. \<not> mt_enabled s) (set_cache_dit_input_preservation sv l False) v)" for v
  have run: "abind arm (\<lambda>_. abind (on_error_do (parent_maybe_enable_cache_dit sv l rq n) disarm) (\<lambda>_. finish)) s = (r, t)"
    using assms(9) unfolding enter_mode_def Let_def arm_def disarm_def finish_def .
  obtain q u where u: "arm s = (q, u)" by (cases "arm s")
  have cu: "u = s \<or> set_cache_dit_input_preservation sv l True s = (q, u)"
    using u by (auto simp: arm_def awhen_def split: if_splits)
  have ok: "mounted_ok sv u" using cu set_preservation_ok assms(5) by blast
  have fu: "mt_enabled u = mt_enabled s" "mt_mode u = mt_mode s" "mt_quality u = rq_quality rq"
    using cu set_preservation_view(2,3,5)[of sv l True s q u] assms(7) by auto
  have known: "hooks_known u" using ok by (simp add: mounted_ok_def)
  obtain q' v where v: "parent_maybe_enable_cache_dit sv l rq n u = (q', v)"
    by (cases "parent_maybe_enable_cache_dit sv l rq n u")
  note pc = parent_clean[OF assms(1,2) known assms(4) desired_requested[OF assms(8) fu(3)] v]
  consider (arm) e where "q = Inl e" | (raised) x e where "q = Inr x" "q' = Inl e" | (returned) x y where "q = Inr x" "q' = Inr y"
    by (cases q; cases q') auto
  then show ?thesis
  proof cases
    case arm
    then show ?thesis using run u ok by auto
  next
    case raised
    obtain z w where w: "disarm v = (z, w)" by (cases "disarm v")
    obtain e' where "on_error_do (parent_maybe_enable_cache_dit sv l rq n) disarm u = (Inl e', w)"
      using v raised w by (cases z) (auto simp: on_error_do_def)
    then have "isl r" and "t = w" using run u raised by auto
    then show ?thesis using enter_failed[OF assms(1) ok, of v z w] pc raised w fu(1) by (simp add: disarm_def)
  next
    case returned
    then have "on_error_do (parent_maybe_enable_cache_dit sv l rq n) disarm u = (Inr y, v)"
      using v by (simp add: on_error_do_def)
    then have fin: "finish v = (r, t)" using run u returned by simp
    have mode: "mt_mode u = Some m" if "mt_enabled u" using that fu assms(6) by simp
    obtain d where d: "resolve_cache_dit_request_overrides (rq_params rq) = Inr d" and
      alt: "(same_hooks u v \<and> same_key (Some (cache_dit_overrides_key d)) (mt_key u) \<and> steps_set n v) \<or>
        (new_hooks sv (rq_quality rq) d v \<and> steps_set n v) \<or> (plain_warmup sv rq \<and> no_hooks v)"
      using pc returned fu(3) by auto
    show ?thesis using enter_returned[OF ok assms(3,4,8) mode d alt fin[unfolded finish_def]] by simp
  qed
qed

lemma leave_clean:
  assumes "lib_clean l" and "mounted_ok sv s" and "leave_mode sv l s = (r, t)"
  shows "mounted_ok sv t \<and> (\<not> isl r \<longrightarrow> no_hooks t) \<and> mt_quality t = mt_quality s"
proof -
  obtain q u where u: "unmount_cache_dit l s = (q, u)" by (cases "unmount_cache_dit l s")
  note uc = unmount_clean[OF assms(1) u]
  show ?thesis
  proof (cases q)
    case (Inl e)
    then have "t = u" and "r = Inl e" using assms(3) u by (simp_all add: leave_mode_def)
    then show ?thesis using uc Inl assms(2) by (simp add: mounted_ok_def hooks_known_def stage_view_iff)
  next
    case (Inr x)
    then have run: "set_cache_dit_input_preservation sv l False (u\<lparr>mt_mode := None\<rparr>) = (r, t)"
      using assms(3) u by (simp add: leave_mode_def)
    have "no_hooks t" using set_preservation_view(1,2)[OF run] uc Inr by (simp add: no_hooks_def)
    then show ?thesis using no_hooks_ok set_preservation_view(5)[OF run] uc Inr by simp
  qed
qed

text \<open>One request.\<close>

lemma request_clean:
  assumes "lib_clean l" and "sv_dit_group sv = Inr ()" and "params_ok rq" and "mounted_ok sv s"
    and "maybe_enable_cache_dit sv l rq n s = (r, t)"
  shows "mounted_ok sv t \<and>
    (\<not> isl r \<longrightarrow> (if sv_breakable sv \<or> desired_mode (sv_env sv) rq = None then no_hooks t
       else (plain_warmup sv rq \<and> no_hooks t) \<or> hooks_serve sv rq n t))"
proof (cases "sv_breakable sv")
  case True
  then have "t = s\<lparr>mt_quality := rq_quality rq\<rparr>"
    using assms(5) by (auto simp: maybe_enable_cache_dit_def parent_maybe_enable_cache_dit_def Let_def split: if_splits)
  then show ?thesis using True assms(4) by (auto simp: mounted_ok_def hooks_known_def no_hooks_def)
next
  case nb: False
  define s' where "s' = s\<lparr>mt_quality := rq_quality rq\<rparr>"
  define leave where "leave = awhen (\<lambda>t. mt_enabled t \<and> mt_mode s \<noteq> desired_mode (sv_env sv) rq) (leave_mode sv l)"
  have run: "abind leave (\<lambda>_. if desired_mode (sv_env sv) rq = None then areturn ()
      else enter_mode sv l rq n (desired_mode (sv_env sv) rq)) s' = (r, t)"
    using assms(5) nb by (simp add: maybe_enable_cache_dit_def Let_def leave_def s'_def)
  have s': "mounted_ok sv s'" "mt_quality s' = rq_quality rq" "mt_mode s' = mt_mode s"
    using assms(4) by (simp_all add: s'_def mounted_ok_def hooks_known_def)
  obtain q u where u: "leave s' = (q, u)" by (cases "leave s'")
  have U: "mounted_ok sv u \<and> mt_quality u = rq_quality rq \<and>
      (\<not> isl q \<longrightarrow> (mt_enabled u \<longrightarrow> mt_mode u = desired_mode (sv_env sv) rq))"
    using u leave_clean[OF assms(1) s'(1)] s' by (auto simp: leave_def awhen_def no_hooks_def split: if_splits)
  show ?thesis
  proof (cases q)
    case (Inl e)
    then show ?thesis using run u U by auto
  next
    case q: (Inr x)
    show ?thesis
    proof (cases "desired_mode (sv_env sv) rq")
      case None
      have "t = u" using run u q None by simp
      moreover have "no_hooks u"
        using U q None by (auto simp: mounted_ok_def hooks_known_def no_hooks_def)
      ultimately show ?thesis using U None by simp
    next
      case (Some m)
      have "enter_mode sv l rq n (Some m) u = (r, t)" using run u q Some by simp
      then show ?thesis using enter_clean[OF assms(1-3) nb _ _ _ Some, of u n r t] U q Some nb by simp
    qed
  qed
qed

lemma reach_mounted_ok:
  assumes "sv_dit_group sv = Inr ()"
  shows "mount_reach sv (\<lambda>l rq. lib_clean l \<and> params_ok rq) s \<Longrightarrow> mounted_ok sv s"
proof (induction rule: mount_reach.induct)
  case start
  then show ?case by (simp add: mounted_ok_def hooks_known_def mount_init_def)
next
  case (request s l rq n r t)
  then show ?case using request_clean[OF _ assms] by blast
qed

lemma clean_detaches: "lib_clean l \<Longrightarrow> detaches l"
  by (fastforce simp: lib_clean_def clean_disable_def detaches_def split: prod.splits sum.splits)

text \<open>A clean history leaves no hooks behind that the stage does not know of, so even an ordinary warm-up disarms free
  blocks only.\<close>

lemma clean_inputs_kept:
  assumes "sv_dit_group sv = Inr ()" and "mount_reach sv (\<lambda>l rq. lib_clean l \<and> params_ok rq) s"
  shows "inputs_kept s"
  using assms(2)
proof (induction rule: mount_reach.induct)
  case start
  then show ?case by (simp add: inputs_kept_def mount_init_def)
next
  case (request s l rq n r t)
  have "mounted_ok sv s" by (rule reach_mounted_ok[OF assms(1) request.hyps(1)])
  then have "mt_enabled s \<or> mt_hooks s = None" by (auto simp: mounted_ok_def hooks_known_def)
  then show ?case using kept_step[OF request.IH, of l sv rq n] clean_detaches request.hyps by simp
qed


section \<open>Requests that return\<close>

text \<open>A package whose calls all return, a server whose transformer is the model's, and a request whose overrides the
  stage accepts.\<close>

definition lib_works :: "cache_lib \<Rightarrow> bool" where
  "lib_works l = ((\<forall>b c n p. \<not> isl (lb_steps_mask l b c n p)) \<and> (\<forall>a c k h. \<not> isl (fst (lb_enable l a c k h))) \<and>
     (\<forall>a h. \<not> isl (fst (lb_disable l a h))) \<and> (\<forall>n m p h. \<not> isl (fst (lb_refresh l n m p h))))"

definition model_fits :: "cache_server \<Rightarrow> bool" where
  "model_fits sv = (exposes_setter (unwrap_model 4 (sv_model sv)) \<and> sv_class sv = ''MiniMaxH3DiTModel'' \<and>
     sv_has_blocks sv \<and> sv_dit_group sv = Inr ())"

definition request_valid :: "cache_server \<Rightarrow> cache_request \<Rightarrow> bool" where
  "request_valid sv rq = (case resolve_cache_dit_request_overrides (rq_params rq) of
      Inl _ \<Rightarrow> False
    | Inr d \<Rightarrow> rq_quality rq = ''high'' \<or>
        (\<not> isl (parse_cache_dit_scm_bins (sv_env sv) d) \<and>
         (let c = base_cache_dit_config (sv_env sv) d 0 None PNone False in
          \<not> isl (assert_calibrator_exclusive c) \<and> \<not> isl (assert_dmd_supported sv c))))"

definition returns_at :: "'s \<Rightarrow> ('s, unit) act \<Rightarrow> bool" where
  "returns_at s m = (\<exists>t. m s = (Inr (), t))"

lemma returns_abind: "m s = (Inr x, t) \<Longrightarrow> returns_at t (f x) \<Longrightarrow> returns_at s (abind m f)"
  by (simp add: returns_at_def)

lemma returns_awhen: "(c s \<Longrightarrow> returns_at s m) \<Longrightarrow> returns_at s (awhen c m)"
  by (simp add: returns_at_def awhen_def)

lemma returns_bind: "returns_at s m \<Longrightarrow> (\<And>t. m s = (Inr (), t) \<Longrightarrow> returns_at t (f ())) \<Longrightarrow> returns_at s (abind m f)"
  by (auto simp: returns_at_def)

lemma returns_aupdate: "returns_at s (aupdate f)"
  by (simp add: returns_at_def)

lemma returns_hooks: "\<not> isl (fst (m (mt_hooks s))) \<Longrightarrow> returns_at s (on_hooks m)"
  by (cases "m (mt_hooks s)"; cases "fst (m (mt_hooks s))") (auto simp: returns_at_def on_hooks_def)

lemma returns_set: "model_fits sv \<Longrightarrow> returns_at s (set_cache_dit_input_preservation sv l b)"
  by (simp add: returns_at_def model_fits_def set_cache_dit_input_preservation_def model_set_preservation_def)

lemma returns_disable: "lib_works l \<Longrightarrow> returns_at s (disable_cache_on_transformer l)"
proof -
  assume "lib_works l"
  then have "returns_at s (abind (on_hooks (lb_disable l (mt_adapter s))) (\<lambda>_.
       aupdate (\<lambda>s. s\<lparr>mt_adapter := False, mt_parallel := None\<rparr>)))"
    by (intro returns_bind returns_hooks returns_aupdate) (simp add: lib_works_def)
  then show ?thesis by (simp add: returns_at_def disable_cache_on_transformer_def)
qed

lemma returns_unmount: "lib_works l \<Longrightarrow> returns_at s (unmount_cache_dit l)"
  unfolding unmount_cache_dit_def by (intro returns_bind returns_disable returns_aupdate)

lemma returns_leave: "lib_works l \<Longrightarrow> model_fits sv \<Longrightarrow> returns_at s (leave_mode sv l)"
  unfolding leave_mode_def by (intro returns_bind returns_unmount returns_aupdate returns_set)

lemma steps_mask_returns:
  assumes "lib_works l"
  shows "\<exists>m. lb_steps_mask l b c n p = Inr m"
proof -
  have "\<not> isl (lb_steps_mask l b c n p)" using assms by (simp add: lib_works_def)
  then show ?thesis by (cases "lb_steps_mask l b c n p") simp_all
qed

lemma masks_return:
  assumes "lib_works l" and "request_valid sv rq" and "resolve_cache_dit_request_overrides (rq_params rq) = Inr d"
  obtains preset policy m where "cache_dit_scm_masks l (sv_env sv) (rq_quality rq) d n = Inr (preset, policy, m)"
proof (cases "rq_quality rq = ''high''")
  case True
  then show ?thesis using that by (simp add: cache_dit_scm_masks_def)
next
  case False
  obtain b c p where bins: "parse_cache_dit_scm_bins (sv_env sv) d = Inr (b, c, p)"
    using assms(2,3) False by (cases "parse_cache_dit_scm_bins (sv_env sv) d") (auto simp: request_valid_def)
  have "\<not> isl (get_scm_mask l p n b c)"
    using steps_mask_returns[OF assms(1), of b c n "if \<not> eq_str p ''none'' then p else PStr ''medium''"]
    by (auto simp: get_scm_mask_def)
  then show ?thesis using that False bins
    by (cases "get_scm_mask l p n b c") (auto simp: cache_dit_scm_masks_def base_scm_masks_def)
qed


lemma returns_refresh:
  assumes "lib_works l" and "request_valid sv rq" and "resolve_cache_dit_request_overrides (rq_params rq) = Inr (mt_overrides s)"
    and "mt_quality s = rq_quality rq"
  shows "returns_at s (refresh_mount sv l n)"
proof -
  obtain preset policy m where m: "cache_dit_scm_masks l (sv_env sv) (mt_quality s) (mt_overrides s) n = Inr (preset, policy, m)"
    using masks_return[OF assms(1-3)] assms(4) by metis
  have call: "returns_at s (on_hooks (lb_refresh l n k p))" for k p
    using assms(1) by (intro returns_hooks) (simp add: lib_works_def)
  have "returns_at s (refresh_context_on_transformer l n p)" for p
    using steps_mask_returns[OF assms(1), of None None n p] call
    by (auto simp: refresh_context_on_transformer_def returns_at_def)
  then show ?thesis using m by (simp add: returns_at_def refresh_mount_def)
qed

lemma returns_attach:
  assumes "lib_works l" and "sv_dit_group sv = Inr ()"
  shows "returns_at s (attach_hooks sv l a c n sp tp)"
proof -
  have "returns_at t (store_groups sv l sp tp)" for t
    using groups_ok[OF assms(2), of l sp tp t] by (auto simp: returns_at_def)
  moreover have "returns_at t (on_hooks (lb_enable l a (db_config_of c n) (calibrator_of c)))" for t
    using assms(1) by (intro returns_hooks) (simp add: lib_works_def)
  ultimately show ?thesis unfolding attach_hooks_def Let_def by (intro returns_bind returns_awhen returns_aupdate)
qed

lemma calibrators_accepted:
  assumes "request_valid sv rq" and "resolve_cache_dit_request_overrides (rq_params rq) = Inr d"
    and "c = build_cache_dit_config (sv_env sv) (rq_quality rq) d n m p False"
  shows "assert_calibrator_exclusive c = Inr ()" and "assert_dmd_supported sv c = Inr ()"
  using assms by (auto simp: request_valid_def build_cache_dit_config_def base_cache_dit_config_def assert_calibrator_exclusive_def
      assert_dmd_supported_def raise_if_def MINIMAX_H3_HIGH_QUALITY_CACHE_DIT_CONFIG_def Let_def split: if_splits)

lemma returns_mount:
  assumes "lib_works l" and "model_fits sv" and "request_valid sv rq"
    and "resolve_cache_dit_request_overrides (rq_params rq) = Inr (mt_overrides s)" and "mt_quality s = rq_quality rq"
  shows "returns_at s (mount_hooks sv l rq n k)"
proof -
  obtain preset policy m where m: "cache_dit_scm_masks l (sv_env sv) (mt_quality s) (mt_overrides s) n = Inr (preset, policy, m)"
    using masks_return[OF assms(1,3,4)] assms(5) by metis
  define c where "c = build_cache_dit_config (sv_env sv) (rq_quality rq) (mt_overrides s) n m policy False"
  have "cc_steps c = Some n"
    by (simp add: c_def build_cache_dit_config_def base_cache_dit_config_def MINIMAX_H3_HIGH_QUALITY_CACHE_DIT_CONFIG_def Let_def)
  moreover have "build_custom_block_adapter sv g = Inr (Some g)" for g
    using assms(2) by (simp add: build_custom_block_adapter_def custom_adapter_classes_def model_fits_def)
  moreover have "returns_at s (attach_hooks sv l a c n sp tp)" for a sp tp
    using assms(2) by (intro returns_attach[OF assms(1)]) (simp add: model_fits_def)
  ultimately have en: "returns_at s (enable_cache_on_transformer sv l c sp tp g)" for sp tp g
    using calibrators_accepted[OF assms(3,4) c_def]
    by (cases "cc_enabled c") (simp_all add: enable_cache_on_transformer_def returns_at_def)
  have "returns_at s (abind (enable_cache_on_transformer sv l c sp tp g) (\<lambda>_.
      aupdate (\<lambda>s. s\<lparr>mt_enabled := True, mt_num_steps := Some n, mt_key := k\<rparr>)))" for sp tp g
    by (intro returns_bind en returns_aupdate)
  then show ?thesis using m assms(5) by (simp add: c_def returns_at_def mount_hooks_def Let_def)
qed


lemma returns_parent:
  assumes "lib_works l" and "model_fits sv" and "request_valid sv rq" and "mt_quality s = rq_quality rq"
  shows "returns_at s (parent_maybe_enable_cache_dit sv l rq n)"
proof (cases "sv_breakable sv")
  case True
  then show ?thesis by (simp add: returns_at_def parent_maybe_enable_cache_dit_def Let_def)
next
  case False
  obtain d where d: "resolve_cache_dit_request_overrides (rq_params rq) = Inr d"
    using assms(3) by (auto simp: request_valid_def split: sum.splits)
  have last: "returns_at u (\<lambda>s. if mt_enabled s then refresh_mount sv l n s else if \<not> q then (Inr (), s)
      else if w then (Inr (), s) else mount_hooks sv l rq n k s)"
    if "mt_overrides u = d" "mt_quality u = rq_quality rq" for u q w k
    using returns_refresh[OF assms(1,3), of u n] returns_mount[OF assms(1-3), of u n k] that d
    by (simp add: returns_at_def)
  have "returns_at (s\<lparr>mt_overrides := d\<rparr>) (abind (awhen c (unmount_cache_dit l)) (\<lambda>_ s.
      if mt_enabled s then refresh_mount sv l n s else if \<not> q then (Inr (), s)
      else if w then (Inr (), s) else mount_hooks sv l rq n k s))" for c q w k
  proof (intro returns_bind returns_awhen returns_unmount[OF assms(1)] last)
    fix t assume t: "awhen c (unmount_cache_dit l) (s\<lparr>mt_overrides := d\<rparr>) = (Inr (), t)"
    show "mt_overrides t = d" "mt_quality t = rq_quality rq"
      using t unmount_view[of l "s\<lparr>mt_overrides := d\<rparr>" "Inr ()" t] assms(4) by (auto simp: awhen_def split: if_splits)
  qed
  then show ?thesis using d False by (simp add: returns_at_def parent_maybe_enable_cache_dit_def Let_def)
qed

lemma returns_enter:
  assumes "lib_works l" and "model_fits sv" and "request_valid sv rq" and "mt_quality s = rq_quality rq"
  shows "returns_at s (enter_mode sv l rq n m)"
proof -
  have parent: "returns_at u (on_error_do (parent_maybe_enable_cache_dit sv l rq n) h)" if "mt_quality u = rq_quality rq" for u h
    using returns_parent[OF assms(1-3) that, of n] by (auto simp: returns_at_def on_error_do_def)
  have last: "returns_at u (\<lambda>s. if mt_enabled s then (Inr (), s\<lparr>mt_mode := m\<rparr>)
      else awhen (\<lambda>_. b) (set_cache_dit_input_preservation sv l False) s)" for u b
    using returns_set[OF assms(2), of u l False] by (simp add: returns_at_def awhen_def)
  have "returns_at s (abind (awhen (\<lambda>_. b) (set_cache_dit_input_preservation sv l True)) (\<lambda>_.
      abind (on_error_do (parent_maybe_enable_cache_dit sv l rq n) h) (\<lambda>_ s.
        if mt_enabled s then (Inr (), s\<lparr>mt_mode := m\<rparr>)
        else awhen (\<lambda>_. b) (set_cache_dit_input_preservation sv l False) s)))" for b h
  proof (intro returns_bind returns_awhen returns_set[OF assms(2)] parent last)
    fix t assume "awhen (\<lambda>_. b) (set_cache_dit_input_preservation sv l True) s = (Inr (), t)"
    then show "mt_quality t = rq_quality rq"
      using set_preservation_view(5)[of sv l True s "Inr ()" t] assms(4) by (auto simp: awhen_def split: if_splits)
  qed
  then show ?thesis by (simp add: returns_at_def enter_mode_def Let_def)
qed

lemma request_returns:
  assumes "lib_works l" and "model_fits sv" and "request_valid sv rq"
  shows "\<exists>t. maybe_enable_cache_dit sv l rq n s = (Inr (), t)"
proof -
  let ?s = "s\<lparr>mt_quality := rq_quality rq\<rparr>" and ?d = "desired_mode (sv_env sv) rq"
  have "returns_at ?s (abind (awhen c (leave_mode sv l)) (\<lambda>_. if ?d = None then areturn () else enter_mode sv l rq n ?d))" for c
  proof (rule returns_bind)
    show "returns_at ?s (awhen c (leave_mode sv l))" by (intro returns_awhen returns_leave assms)
    fix t assume "awhen c (leave_mode sv l) ?s = (Inr (), t)"
    then have "mt_quality t = rq_quality rq"
      using leave_quality[of sv l ?s t] by (auto simp: awhen_def split: if_splits)
    then have "returns_at t (enter_mode sv l rq n ?d)" by (rule returns_enter[OF assms])
    then show "returns_at t (if ?d = None then areturn () else enter_mode sv l rq n ?d)" by (simp add: returns_at_def)
  qed
  moreover have "returns_at ?s (parent_maybe_enable_cache_dit sv l rq n)" by (rule returns_parent[OF assms]) simp
  ultimately show ?thesis by (simp add: returns_at_def maybe_enable_cache_dit_def Let_def)
qed


section \<open>A remount that fails half way\<close>

text \<open>Two packages: one that always works, and one whose \<^verbatim>\<open>enable_cache\<close> raises after it has swapped the blocks.\<close>

definition working_package :: cache_lib where
  "working_package = \<lparr>lb_steps_mask = (\<lambda>_ _ n _. Inr (replicate (nat n) 1)), lb_supported = False,
     lb_enable = (\<lambda>_ c k _. (Inr (), Some \<lparr>hk_config = c, hk_calibrator = k\<rparr>)),
     lb_disable = (\<lambda>_ _. (Inr (), None)),
     lb_refresh = (\<lambda>n m p h. (Inr (), map_option (\<lambda>k. k\<lparr>hk_config := (hk_config k)\<lparr>db_steps := n, db_mask := m, db_policy := p\<rparr>\<rparr>) h)),
     lb_context = True, lb_blocks_reachable = False\<rparr>"

definition half_mounting_package :: cache_lib where
  "half_mounting_package = working_package\<lparr>lb_enable := (\<lambda>_ c k _. (Inl (RuntimeError ''out of memory''), Some \<lparr>hk_config = c, hk_calibrator = k\<rparr>))\<rparr>"

definition default_knobs :: knob_env where
  "default_knobs = \<lparr>kn_Fn = PInt 1, kn_Bn = PInt 0, kn_warmup = PInt 4, kn_rdt = PFloat (fl (24 / 100)), kn_mc = PInt 3,
     kn_taylorseer = PBool False, kn_ts_order = PInt 1, kn_dmd = PBool False, kn_dmd_history = PInt 6, kn_dmd_rank = PInt 0,
     kn_dmd_ridge = PFloat (fl (1 / 10 ^ 8)), kn_dmd_svd_precision = PStr ''medium''\<rparr>"

definition single_server :: cache_server where
  "single_server = \<lparr>sv_breakable = False, sv_torch_compile = False,
     sv_env = \<lparr>en_enabled = False, en_primary = default_knobs, en_secondary = default_knobs, en_scm_preset = PStr ''none'',
       en_scm_compute_bins = None, en_scm_cache_bins = None, en_scm_policy = PStr ''dynamic''\<rparr>,
     sv_model = NnModule False (Some (NnModule True None None)) None, sv_class = ''MiniMaxH3DiTModel'', sv_has_blocks = True,
     sv_dmd_available = True, sv_world_size = 1, sv_sp_group = None, sv_tp_group = None, sv_ulysses = 1, sv_ring = 1,
     sv_dit_group = Inr ()\<rparr>"

definition request_with :: "bool option \<Rightarrow> pydict \<Rightarrow> cache_request" where
  "request_with enable d = \<lparr>rq_quality = ''lossless'', rq_explicit = [], rq_enable = enable, rq_params = PDict d, rq_warmup = False,
     rq_cfg = False\<rparr>"

lemma working_package_ok: "lib_clean working_package" "lib_works working_package"
  by (simp_all add: lib_clean_def clean_enable_def clean_disable_def clean_refresh_def lib_works_def working_package_def hook_knobs_def
      Let_def)

lemma single_server_fits: "model_fits single_server"
  by (simp add: model_fits_def single_server_def numeral_eq_Suc)

text \<open>
  The first request mounts; the second asks for other knobs and its remount raises with the hooks of the new
  configuration attached; the third asks for no caching, returns, and runs with those hooks.
\<close>

lemma stale_hooks:
  "let s1 = snd (maybe_enable_cache_dit single_server working_package (request_with (Some True) []) 8 mount_init);
       (r2, s2) = maybe_enable_cache_dit single_server half_mounting_package
         (request_with (Some True) [(''Fn_compute_blocks'', PInt 2)]) 8 s1;
       (r3, s3) = maybe_enable_cache_dit single_server working_package (request_with (Some False) []) 8 s2
   in isl r2 \<and> r3 = Inr () \<and> desired_mode (sv_env single_server) (request_with (Some False) []) = None \<and> mt_hooks s3 \<noteq> None"
  by code_simp

text \<open>The package of the comment on \<^verbatim>\<open>_disarm_after_failed_mount\<close>, whose hooks leave the blocks within reach, with a
  \<^verbatim>\<open>disable_cache\<close> that raises: the failed first mount stays armed. If an ordinary warm-up follows, for which the parent
  declines to mount, the stage turns preservation off under the hooks that are still attached.\<close>

definition stuck_package :: cache_lib where
  "stuck_package = half_mounting_package\<lparr>lb_disable := (\<lambda>_ h. (Inl (RuntimeError ''still in use''), h)), lb_blocks_reachable := True\<rparr>"

lemma stuck_package_safe: "call_safe single_server stuck_package (request_with e d)"
  by (simp add: call_safe_def detaches_def stuck_package_def plain_warmup_def request_with_def)

lemma warmup_disarms:
  "let s1 = snd (maybe_enable_cache_dit single_server stuck_package (request_with (Some True) []) 8 mount_init);
       (r2, s2) = maybe_enable_cache_dit single_server stuck_package ((request_with (Some True) [])\<lparr>rq_warmup := True\<rparr>) 8 s1
   in mt_hooks s1 \<noteq> None \<and> mt_preserve s1 \<and> r2 = Inr () \<and> mt_hooks s2 \<noteq> None \<and> \<not> mt_preserve s2"
  by code_simp

end
