(* ===== verification/Stage_Correct.thy ===== *)
theory Stage_Correct
  imports Full_Loop_Correct Cache_Dit_Correct
begin

text \<open>
  The contracts of the preparation stages and of the pipeline tail: the initial noise of an admitted plan has the
  shapes of its canvas, the schedules are published in step, batches with one fingerprint get one outcome, and the
  three stages together turn an admitted request into latents of its canvas.
\<close>

section \<open>Initial noise\<close>

text \<open>The plan fixes the latent grid: \<open>ph\<close> by \<open>pw\<close> patches of 32 pixels, \<open>T\<close> latent frames, \<open>A\<close> audio latents.\<close>

definition grid_fixed :: "nat \<Rightarrow> nat \<Rightarrow> nat \<Rightarrow> nat \<Rightarrow> pydict \<Rightarrow> bool" where
  "grid_fixed T ph pw A shape \<longleftrightarrow> py_str (dget shape ''geometry'') = ''resolved_v2'' \<and>
     dget shape ''height'' = PInt (32 * int ph) \<and> dget shape ''width'' = PInt (32 * int pw) \<and>
     dget shape ''video_latent_t'' = PInt (int T) \<and> dget shape ''audio_latent_t'' = PInt (int A)"

lemma dindex_dget: "dget d k \<noteq> PNone \<Longrightarrow> dindex d k = Inr (dget d k)"
  by (auto simp: dget_def dindex_def split: option.splits)

lemma initial_state_returns:
  assumes g: "grid_fixed T ph pw A (rp_shape plan)" and pos: "0 < T" "0 < ph" "0 < pw" "0 < A"
    and seed: "plan_seed (rp_seed plan) = Inr sd" "seed_ok sd" and r: "randn_ok (tv_randn env)"
  obtains s where "initial_state env plan = Inr s" "state_ok T ph pw A s"
proof -
  let ?d = "[1, 24, T, 2 * ph, 2 * pw]"
  let ?x = "\<lparr>t_shape = ?d, t_data = tv_randn env sd ?d\<rparr>"
  have x: "tensor_ok ?x" "t_shape ?x = [1, 24, T * 1, ph * 2, pw * 2]" using r by (simp_all add: tensor_ok_def randn_ok_def mult.commute)
  have one: "(0::nat) < 1" "(0::nat) < 2" "(0::nat) < 2" by simp_all
  obtain v where v: "minimax_h3_patchify_video_latent ?x [1, 2, 2] = Inr v" "t_shape v = [T * (ph * pw), 96]"
    "length (t_data v) = length (t_data ?x)"
    using patchify_eq[OF x one] by (simp add: permute_def Let_def mult_ac)
  have "length (t_data ?x) = T * (ph * pw) * 96" using x by (simp add: tensor_ok_def mult_ac)
  then have ok: "tensor_ok v" using v by (simp add: tensor_ok_def)
  have au: "tensor_ok \<lparr>t_shape = [A * 2, 32], t_data = tv_randn env sd [A * 2, 32]\<rparr>" using r by (simp add: tensor_ok_def randn_ok_def)
  have G: "dindex (rp_shape plan) ''geometry'' = Inr (dget (rp_shape plan) ''geometry'')"
    by (rule dindex_dget) (use g in \<open>auto simp: grid_fixed_def\<close>)
  have hw: "dindex (rp_shape plan) ''height'' = Inr (PInt (32 * int ph))" "dindex (rp_shape plan) ''width'' = Inr (PInt (32 * int pw))"
    using dindex_dget[of "rp_shape plan"] g by (simp_all add: grid_fixed_def)
  have arith: "32 * int n div 16 = 2 * int n" for n by simp
  have nats: "nat (2 * int n) = 2 * n" "nat (int n * 2) = n * 2" for n by simp_all
  have "initial_state env plan = Inr \<lparr>ds_video = v, ds_audio = \<lparr>t_shape = [A * 2, 32], t_data = tv_randn env sd [A * 2, 32]\<rparr>,
      ds_latent_t = int T, ds_latent_h = 2 * int ph, ds_latent_w = 2 * int pw, ds_audio_t = int A\<rparr>"
    using g G hw v(1,2) seed unfolding initial_state_def Let_def
    by (simp add: grid_fixed_def raise_if_def manual_seed_def arith nats)
  then show ?thesis by (rule that) (use pos v ok au in \<open>simp add: state_ok_def\<close>)
qed

section \<open>The stages on a batch\<close>

lemma h3_plan_cached: "minimax_h3_plan_from_batch (hb_extra b) = Inr (p, hb_extra b) \<Longrightarrow> h3_plan b = (Inr p, b)"
  by (simp add: h3_plan_def)

lemma latent_forward_fresh:
  assumes "minimax_h3_plan_from_batch (hb_extra b) = Inr (Some plan, hb_extra b)" and "hb_state b = None"
    and "initial_state env plan = Inr s" "state_ok T ph pw A s"
  shows "latent_forward env b = (Inr (), b\<lparr>hb_state := Some s, hb_latents := Some (ds_video s), hb_audio_latents := Some (ds_audio s),
     hb_raw_latent_shape := [1, 24, int T, 2 * int ph, 2 * int pw], hb_raw_audio_latent_shape := [2, 32, int A]\<rparr>)"
  using assms h3_plan_cached[OF assms(1)]
  by (simp add: latent_forward_def required_plan_def abind_def areturn_def prepare_denoise_state_from_plan_def
      publish_native_latent_state_def state_ok_def)

lemma timestep_forward_fresh:
  assumes "minimax_h3_plan_from_batch (hb_extra b) = Inr (Some plan, hb_extra b)" and "hb_schedules b = None"
    and "plan_schedules env scales b plan = Inr (sv, sa)" "length sv = length sa" "2 \<le> length sv"
  shows "timestep_forward env scales None b = (Inr (), b\<lparr>hb_schedules := Some (sv, sa), hb_sigmas := sv,
     hb_timesteps := Some (map (\<lambda>s. f_of (tv_ops env) (fsub (Fin 1) s)) (butlast sv))\<rparr>)"
  using assms h3_plan_cached[OF assms(1)]
  by (simp add: timestep_forward_def required_plan_def abind_def areturn_def generate_sigmas_from_plan_def apply_pdd_schedule_def
      publish_native_timestep_state_def)

text \<open>Whatever path the timestep stage takes, it publishes two schedules in step.\<close>

lemma timestep_forward_publishes:
  assumes "timestep_forward env scales config b = (Inr u, b')"
  obtains sv sa where "hb_schedules b' = Some (sv, sa)" "length sv = length sa" "2 \<le> length sv" "hb_sigmas b' = sv"
    "hb_timesteps b' = Some (map (\<lambda>s. f_of (tv_ops env) (fsub (Fin 1) s)) (butlast sv))"
proof -
  obtain b0 where p: "publish_native_timestep_state env b0 = (Inr u, b')"
    using assms unfolding timestep_forward_def by (auto simp: act_simps)
  then obtain sv sa where s: "hb_schedules b0 = Some (sv, sa)"
    by (cases "hb_schedules b0") (auto simp: publish_native_timestep_state_def)
  then have "b' = b0\<lparr>hb_sigmas := sv, hb_timesteps := Some (map (\<lambda>s. f_of (tv_ops env) (fsub (Fin 1) s)) (butlast sv))\<rparr>"
    "length sv = length sa" "2 \<le> length sv"
    using p by (auto simp: publish_native_timestep_state_def split: if_splits)
  then show ?thesis using s by (intro that[of sv sa]) simp_all
qed

section \<open>Deduplication\<close>

text \<open>The framework runs the timestep stage once for batches with equal fingerprints and copies what it published.
  What the stage reads of a batch, once the plan has fixed the schedules:\<close>

definition timestep_view :: "'f h3_batch \<Rightarrow> (pyfloat list \<times> pyfloat list) option \<times> bool \<times> pyval" where
  "timestep_view b = (hb_schedules b, hb_is_warmup b, hb_num_inference_steps b)"

definition published :: "'f h3_batch \<Rightarrow> (pyfloat list \<times> pyfloat list) option \<times> pyfloat list \<times> 'f list option" where
  "published b = (hb_schedules b, hb_sigmas b, hb_timesteps b)"

lemma plan_schedules_cong:
  assumes "hb_num_inference_steps b1 = hb_num_inference_steps b2" and "hb_num_inference_steps b1 \<noteq> PNone"
    and "rp_flow_shift plan1 = rp_flow_shift plan2" "rp_audio_flow_shift plan1 = rp_audio_flow_shift plan2"
      "rp_default_flow_shift plan1 = rp_default_flow_shift plan2" "rp_default_audio_flow_shift plan1 = rp_default_audio_flow_shift plan2"
  shows "plan_schedules env scales b1 plan1 = plan_schedules env scales b2 plan2"
proof -
  have "requested_num_steps b1 = requested_num_steps b2" using assms(1,2) by (simp add: requested_num_steps_def Let_def)
  then show ?thesis by (simp only: plan_schedules_def assms)
qed

lemma pdd_modality_cong:
  "timestep_view b1 = timestep_view b2 \<Longrightarrow> pdd_modality env cfg sh b1 vs = pdd_modality env cfg sh b2 vs"
proof -
  assume "timestep_view b1 = timestep_view b2"
  then have "hb_is_warmup b1 = hb_is_warmup b2" "hb_num_inference_steps b1 = hb_num_inference_steps b2"
    by (simp_all add: timestep_view_def)
  then show ?thesis by (simp only: pdd_modality_def)
qed

lemma apply_pdd_cong:
  assumes "timestep_view b1 = timestep_view b2"
  shows "fst (apply_pdd_schedule env cfg b1) = fst (apply_pdd_schedule env cfg b2)"
    and "timestep_view (snd (apply_pdd_schedule env cfg b1)) = timestep_view (snd (apply_pdd_schedule env cfg b2))"
proof -
  have "fst (apply_pdd_schedule env cfg b1) = fst (apply_pdd_schedule env cfg b2) \<and>
    timestep_view (snd (apply_pdd_schedule env cfg b1)) = timestep_view (snd (apply_pdd_schedule env cfg b2))"
  proof (cases cfg)
    case None
    then show ?thesis using assms by (simp add: apply_pdd_schedule_def)
  next
    case (Some c)
    have h: "hb_schedules b1 = hb_schedules b2" using assms by (simp add: timestep_view_def)
    show ?thesis using Some assms pdd_modality_cong[OF assms] h
      by (cases "hb_schedules b2") (auto simp: apply_pdd_schedule_def timestep_view_def split: sum.split)
  qed
  then show "fst (apply_pdd_schedule env cfg b1) = fst (apply_pdd_schedule env cfg b2)"
    "timestep_view (snd (apply_pdd_schedule env cfg b1)) = timestep_view (snd (apply_pdd_schedule env cfg b2))" by auto
qed

lemma publish_cong:
  assumes "hb_schedules b1 = hb_schedules b2"
  shows "fst (publish_native_timestep_state env b1) = fst (publish_native_timestep_state env b2)"
    and "fst (publish_native_timestep_state env b1) = Inr () \<Longrightarrow>
      published (snd (publish_native_timestep_state env b1)) = published (snd (publish_native_timestep_state env b2))"
  using assms by (auto simp: publish_native_timestep_state_def published_def split: option.splits prod.splits if_splits)

lemma fst_abind: "fst (abind f g s) = (case f s of (Inl e, t) \<Rightarrow> Inl e | (Inr x, t) \<Rightarrow> fst (g x t))"
  "snd (abind f g s) = (case f s of (Inl e, t) \<Rightarrow> t | (Inr x, t) \<Rightarrow> snd (g x t))"
  by (auto simp: abind_def split: prod.splits sum.splits)

definition finish_timesteps :: "'f torch_env \<Rightarrow> pdd_config option \<Rightarrow> ('f h3_batch, unit) act" where
  "finish_timesteps env cfg = abind (apply_pdd_schedule env cfg) (\<lambda>_. publish_native_timestep_state env)"

lemma finish_timesteps_cong:
  assumes "timestep_view b1 = timestep_view b2"
  shows "fst (finish_timesteps env cfg b1) = fst (finish_timesteps env cfg b2)"
    and "fst (finish_timesteps env cfg b1) = Inr () \<Longrightarrow>
      published (snd (finish_timesteps env cfg b1)) = published (snd (finish_timesteps env cfg b2))"
proof -
  obtain r c1 where 1: "apply_pdd_schedule env cfg b1 = (r, c1)" by (cases "apply_pdd_schedule env cfg b1")
  obtain r' c2 where 2: "apply_pdd_schedule env cfg b2 = (r', c2)" by (cases "apply_pdd_schedule env cfg b2")
  have "r' = r" and c: "hb_schedules c1 = hb_schedules c2"
    using apply_pdd_cong[OF assms(1), of env cfg] by (simp_all add: 1 2 timestep_view_def)
  then show "fst (finish_timesteps env cfg b1) = fst (finish_timesteps env cfg b2)"
    "fst (finish_timesteps env cfg b1) = Inr () \<Longrightarrow>
      published (snd (finish_timesteps env cfg b1)) = published (snd (finish_timesteps env cfg b2))"
    using publish_cong[OF c, of env] by (cases r; simp add: finish_timesteps_def fst_abind 1 2)+
qed

lemma required_plan_run:
  assumes "required_plan b = (Inr plan, b')"
  obtains x where "b' = b\<lparr>hb_extra := x\<rparr>"
  using assms by (auto simp: required_plan_def abind_def h3_plan_def areturn_def araise_def split: sum.splits option.splits prod.splits)

lemma timestep_forward_dedup:
  assumes f: "timestep_fingerprint scales b1 = (Inr fp, b1')" "timestep_fingerprint scales b2 = (Inr fp, b2')"
    and pre: "hb_schedules b1 = None" "hb_schedules b2 = None" and n: "hb_num_inference_steps b1 \<noteq> PNone"
  shows "fst (timestep_forward env scales cfg b1) = fst (timestep_forward env scales cfg b2)"
    and "fst (timestep_forward env scales cfg b1) = Inr () \<Longrightarrow>
      published (snd (timestep_forward env scales cfg b1)) = published (snd (timestep_forward env scales cfg b2))"
proof -
  obtain plan1 where plan1: "required_plan b1 = (Inr plan1, b1')" and fp: "fp = (hb_num_inference_steps b1', hb_is_warmup b1',
      (rp_flow_shift plan1, rp_audio_flow_shift plan1, rp_default_flow_shift plan1, rp_default_audio_flow_shift plan1), scales)"
    using f(1) by (auto simp: timestep_fingerprint_def act_simps)
  obtain plan2 where plan2: "required_plan b2 = (Inr plan2, b2')" and fp': "fp = (hb_num_inference_steps b2', hb_is_warmup b2',
      (rp_flow_shift plan2, rp_audio_flow_shift plan2, rp_default_flow_shift plan2, rp_default_audio_flow_shift plan2), scales)"
    using f(2) by (auto simp: timestep_fingerprint_def act_simps)
  obtain x1 x2 where b: "b1' = b1\<lparr>hb_extra := x1\<rparr>" "b2' = b2\<lparr>hb_extra := x2\<rparr>"
    using required_plan_run[OF plan1] required_plan_run[OF plan2] by metis
  have s: "plan_schedules env scales b1' plan1 = plan_schedules env scales b2' plan2"
    by (rule plan_schedules_cong) (use fp fp' b n in auto)
  have T: "timestep_forward env scales cfg bi = (case plan_schedules env scales bi' p of Inl e \<Rightarrow> (Inl e, bi')
      | Inr s \<Rightarrow> finish_timesteps env cfg (bi'\<lparr>hb_schedules := Some s\<rparr>))"
    if "required_plan bi = (Inr p, bi')" "hb_schedules bi' = None" for bi bi' :: "'a h3_batch" and p
    using that by (simp add: timestep_forward_def finish_timesteps_def abind_def generate_sigmas_from_plan_def split: sum.split)
  note T1 = T[OF plan1] and T2 = T[OF plan2]
  have v: "timestep_view (b1'\<lparr>hb_schedules := Some x\<rparr>) = timestep_view (b2'\<lparr>hb_schedules := Some x\<rparr>)" for x
    using fp fp' by (simp add: timestep_view_def)
  show "fst (timestep_forward env scales cfg b1) = fst (timestep_forward env scales cfg b2)"
    "fst (timestep_forward env scales cfg b1) = Inr () \<Longrightarrow>
      published (snd (timestep_forward env scales cfg b1)) = published (snd (timestep_forward env scales cfg b2))"
    using T1 T2 b pre s finish_timesteps_cong[OF v, of env cfg] by (cases "plan_schedules env scales b2' plan2"; simp)+
qed

section \<open>The tail of the pipeline\<close>

lemma inputs_ok_update:
  "inputs_ok L ph pw sig plan (b\<lparr>hb_state := st, hb_latents := l, hb_audio_latents := al, hb_raw_latent_shape := rs,
     hb_raw_audio_latent_shape := ras, hb_schedules := sc, hb_sigmas := sg, hb_timesteps := ts\<rparr>) = inputs_ok L ph pw sig plan b"
  by (simp add: inputs_ok_def minimax_h3_condition_noise_aug_def)

text \<open>Acceleration returns when its parts do: the settings before the caching step and the compilation after it, a caching
  package that works, and a request whose caching fields are acceptable.\<close>

definition accelerates :: "('f, 's, 'm) sink_env \<Rightarrow> bool" where
  "accelerates se \<longleftrightarrow> lib_works (se_cache_lib se) \<and> model_fits (se_cache_server se) \<and>
     (\<forall>b. request_valid (se_cache_server se) (se_cache_request se b)) \<and>
     (\<forall>b m. \<exists>m'. se_tune se b m = Inr m') \<and> (\<forall>m. \<exists>m'. se_compile se m = Inr m')"

lemma accelerate_returns:
  assumes "accelerates se"
  shows "\<exists>mt' m'. accelerate se n b (mt, m) = Inr (mt', m')"
proof -
  note A = assms[unfolded accelerates_def]
  obtain m1 m2 where m: "se_tune se b m = Inr m1" "se_compile se m1 = Inr m2" using A by metis
  obtain mt' where "maybe_enable_cache_dit (se_cache_server se) (se_cache_lib se) (se_cache_request se b) n mt = (Inr (), mt')"
    using request_returns[of "se_cache_lib se" "se_cache_server se" "se_cache_request se b" n mt] A by blast
  then show ?thesis using m by (simp add: accelerate_def)
qed

lemma sample_stages_return:
  assumes plan: "minimax_h3_plan_from_batch (hb_extra b) = Inr (Some plan, hb_extra b)" and fresh: "hb_state b = None" "hb_schedules b = None"
    and g: "grid_fixed T ph pw A (rp_shape plan)" and pos: "0 < T" "0 < ph" "0 < pw" "0 < A"
    and seed: "plan_seed (rp_seed plan) = Inr sd" "seed_ok sd"
    and inp: "inputs_ok L ph pw sig (Some plan) b" and fits: "int (ceil_mult 64 (packed_rows L (length sig) T ph pw A)) \<le> 2147483647"
    and sch: "plan_schedules (se_torch se) scales b plan = Inr (sv, sa)" "length sv = length sa" "2 \<le> length sv"
    and se: "sink_ok se" "accelerates se" and dit: "dit_shaped (se_dit se) (T * (ph * pw)) (A * 2)" "dit_answers (se_dit se) (length sv - 1)"
  obtains latents audio st' b' where "sample_stages se scales None st b = (Inr st', b')"
    "hb_latents b' = Some latents" "t_shape latents = [1, 24, T, 2 * ph, 2 * pw]" "tensor_ok latents"
    "hb_audio_latents b' = Some audio" "t_shape audio = [2, 32, A]" "tensor_ok audio"
proof -
  have r: "randn_ok (tv_randn (se_torch se))" using se(1) by (simp add: sink_ok_def)
  obtain s where s: "initial_state (se_torch se) plan = Inr s" "state_ok T ph pw A s"
    by (rule initial_state_returns[OF g pos seed r])
  define b1 where "b1 = b\<lparr>hb_state := Some s, hb_latents := Some (ds_video s), hb_audio_latents := Some (ds_audio s),
     hb_raw_latent_shape := [1, 24, int T, 2 * int ph, 2 * int pw], hb_raw_audio_latent_shape := [2, 32, int A]\<rparr>"
  define b2 where "b2 = b1\<lparr>hb_schedules := Some (sv, sa), hb_sigmas := sv,
     hb_timesteps := Some (map (\<lambda>s. f_of (tv_ops (se_torch se)) (fsub (Fin 1) s)) (butlast sv))\<rparr>"
  have 1: "latent_forward (se_torch se) b = (Inr (), b1)" unfolding b1_def by (rule latent_forward_fresh[OF plan fresh(1) s])
  have "hb_num_inference_steps b1 = hb_num_inference_steps b" "hb_sampling_steps b1 = hb_sampling_steps b" by (simp_all add: b1_def)
  then have "plan_schedules (se_torch se) scales b1 plan = plan_schedules (se_torch se) scales b plan"
    by (simp only: plan_schedules_def requested_num_steps_def)
  then have 2: "timestep_forward (se_torch se) scales None b1 = (Inr (), b2)" unfolding b2_def
    by (intro timestep_forward_fresh[of _ plan]) (use plan fresh sch in \<open>simp_all add: b1_def\<close>)
  have "inputs_ok L ph pw sig (Some plan) b2" using inp by (simp add: b2_def b1_def inputs_ok_update)
  then have ok: "batch_ok L T ph pw A sig sv sa (Some plan) b2"
    using s(2) sch(2,3) fits by (simp add: batch_ok_def b2_def b1_def)
  have p: "h3_plan b2 = (Inr (Some plan), b2\<lparr>hb_extra := hb_extra b2\<rparr>)" using plan by (simp add: h3_plan_def b2_def b1_def)
  obtain mt' m' where acc: "accelerate se (int (length sv) - 1) (b2\<lparr>hb_extra := hb_extra b2\<rparr>) st = Inr (mt', m')"
    using accelerate_returns[OF se(2), of _ _ "fst st" "snd st"] by fastforce
  obtain latents audio st' b' where "denoising_forward se st b2 = (Inr st', b')"
    "hb_latents b' = Some latents" "hb_audio_latents b' = Some audio"
    "t_shape latents = [1, 24, T, 2 * ph, 2 * pw]" "tensor_ok latents" "t_shape audio = [2, 32, A]" "tensor_ok audio"
  proof (rule run_returns[OF ok p se(1) dit(1), of st])
    fix i ia positive cond video au
    obtain v a m2 where sa: "sampled (tv_ops (se_torch se)) (se_dit se) m' positive (anchor_rows cond) (sv, sa) i ia video au = Inr (v, a, m2)"
      using sampled_returns[OF dit(2) sch(2)] by (metis prod_cases3)
    assume "case accelerate se (int (length sv) - 1) (b2\<lparr>hb_extra := hb_extra b2\<rparr>) st of
       Inl e \<Rightarrow> fst (denoising_forward se st b2) = Inl e
     | Inr (mt, m) \<Rightarrow>
        (case sampled (tv_ops (se_torch se)) (se_dit se) m positive (anchor_rows cond) (sv, sa) i ia video au of
           Inl e \<Rightarrow> fst (denoising_forward se st b2) = Inl e
         | Inr (v, a, m') \<Rightarrow> \<exists>b' latents audio. denoising_forward se st b2 = (Inr (mt, m'), b') \<and>
             hb_latents b' = Some latents \<and> t_shape latents = [1, 24, T, 2 * ph, 2 * pw] \<and> tensor_ok latents \<and>
             minimax_h3_patchify_video_latent latents [1, 2, 2] = Inr (rows_tensor 96 v) \<and>
             hb_audio_latents b' = Some audio \<and> t_shape audio = [2, 32, A] \<and> tensor_ok audio \<and>
             minimax_h3_unpack_audio_tokens (rows_tensor 32 a) (int (2 * A)) 2 = Inr audio)"
    then show thesis using that unfolding acc sum.case prod.case sa by blast
  qed
  then show ?thesis using 1 2 by (intro that[of st' b' latents audio]) (simp_all add: sample_stages_def abind_def)
qed

section \<open>The schedules of a validated request\<close>

definition positive_finite :: "pyfloat \<Rightarrow> bool" where
  "positive_finite x \<longleftrightarrow> is_finite x \<and> \<not> fle x (Fin 0)"

text \<open>The shifts a plan carries, and those a model may configure.\<close>

definition shifts_ok :: "resolved_plan \<Rightarrow> bool" where
  "shifts_ok plan \<longleftrightarrow> (\<forall>x. rp_flow_shift plan = Some x \<longrightarrow> positive_finite x) \<and>
     (\<forall>x. rp_audio_flow_shift plan = Some x \<longrightarrow> positive_finite x) \<and>
     positive_finite (rp_default_flow_shift plan) \<and> positive_finite (rp_default_audio_flow_shift plan)"

definition scale_entry_ok :: "pyval \<Rightarrow> bool" where
  "scale_entry_ok v \<longleftrightarrow> v = PNone \<or> is_number v \<and> (\<exists>x. py_float v = Inr x \<and> positive_finite x)"

definition scales_ok :: "pyval \<Rightarrow> bool" where
  "scales_ok scales \<longleftrightarrow> (case scales of
      PNone \<Rightarrow> True
    | PDict d \<Rightarrow> scale_entry_ok (dget d ''video'') \<and> scale_entry_ok (dget d ''audio'')
    | _ \<Rightarrow> False)"

text \<open>The points of the schedule before repetitions are removed. PyTorch draws one point per step; they are apart, unless
  the shift squeezes them into one fp32 number, and the last is zero.\<close>

definition shifted_points :: "'f torch_env \<Rightarrow> int \<Rightarrow> pyfloat \<Rightarrow> 'f list" where
  "shifted_points env n scale = (let ops = tv_ops env in
     map (\<lambda>b. f_div ops (f_mul ops (f_of ops scale) b)
       (f_add ops (f_of ops (Fin 1)) (f_mul ops (f_of ops (fsub scale (Fin 1))) b))) (tv_linspace env n))"

definition points_apart :: "'f torch_env \<Rightarrow> int \<Rightarrow> pyfloat \<Rightarrow> bool" where
  "points_apart env n scale \<longleftrightarrow> length (tv_linspace env n) = nat n \<and> distinct_adj (shifted_points env n scale) \<and>
     \<not> f_less (tv_ops env) (f_of (tv_ops env) (Fin 0)) (last (shifted_points env n scale))"

lemma schedule_returns:
  assumes "points_apart env n scale" and "positive_finite scale" and "2 \<le> n"
  obtains s where "schedule env n scale = Inr s" "length s = nat n"
proof -
  have l: "length (shifted_points env n scale) = nat n" using assms(1) by (simp add: points_apart_def shifted_points_def Let_def)
  then have "shifted_points env n scale \<noteq> []" using assms(3) by auto
  moreover have "remdups_adj (shifted_points env n scale) = shifted_points env n scale"
    using assms(1) by (simp add: points_apart_def distinct_adj_altdef)
  ultimately have "minimax_h3_time_shift_sigmas (tv_ops env) (tv_linspace env) n scale = Inr (shifted_points env n scale)"
    using assms by (simp add: minimax_h3_time_shift_sigmas_def raise_if_def points_apart_def positive_finite_def
        shifted_points_def Let_def)
  then show ?thesis using l by (intro that[of "map (tv_item env) (shifted_points env n scale)"]) (simp_all add: schedule_def)
qed

lemma resolved_scale_returns:
  assumes "scales_ok scales" and "modality = ''video'' \<or> modality = ''audio''"
    and "\<And>x. rq = Some x \<Longrightarrow> positive_finite x" and "positive_finite def"
  obtains c where "resolved_scale scales modality rq def = Inr c" "positive_finite c"
proof -
  have f: "py_float (PFloat x) = Inr x" "is_number (PFloat x)" for x by simp_all
  define entry where "entry = (case scales of PDict d \<Rightarrow> dget d modality | _ \<Rightarrow> PNone)"
  have e: "scale_entry_ok entry" using assms(1,2)
    by (auto simp: entry_def scales_ok_def scale_entry_ok_def split: pyval.splits)
  have "\<exists>c. resolved_scale scales modality rq def = Inr c \<and> positive_finite c"
  proof (cases rq)
    case (Some x)
    then show ?thesis using assms(3) f by (simp add: resolved_scale_def raise_if_def positive_finite_def)
  next
    case None
    then have r: "resolved_scale scales modality rq def = (let value = (if entry = PNone then PFloat def else entry) in
        raise_if (\<not> is_number value) (ValueError ''shift must be a positive finite number'')
         (rbind (py_float value) (\<lambda>scale.
          raise_if (\<not> is_finite scale \<or> fle scale (Fin 0)) (ValueError ''shift must be a positive finite number'')
            (Inr scale))))" by (simp add: resolved_scale_def entry_def Let_def)
    show ?thesis unfolding r using e assms(4) f
      by (auto simp: scale_entry_ok_def positive_finite_def raise_if_def Let_def)
  qed
  then show ?thesis using that by blast
qed

text \<open>A request of at least two steps gets two schedules of one point per step.\<close>

lemma plan_schedules_return:
  assumes steps: "hb_num_inference_steps b = PInt n" "2 \<le> n" and sh: "shifts_ok plan" "scales_ok scales"
    and apart: "\<And>c. resolved_scale scales ''video'' (rp_flow_shift plan) (rp_default_flow_shift plan) = Inr c \<Longrightarrow> points_apart env n c"
      "\<And>c. resolved_scale scales ''audio'' (rp_audio_flow_shift plan) (rp_default_audio_flow_shift plan) = Inr c \<Longrightarrow> points_apart env n c"
  obtains sv sa where "plan_schedules env scales b plan = Inr (sv, sa)" "length sv = nat n" "length sa = nat n"
proof -
  obtain v where v: "resolved_scale scales ''video'' (rp_flow_shift plan) (rp_default_flow_shift plan) = Inr v" "positive_finite v"
    by (rule resolved_scale_returns[OF sh(2), of "''video''" "rp_flow_shift plan" "rp_default_flow_shift plan"]) (use sh(1) in \<open>auto simp: shifts_ok_def\<close>)
  obtain a where a: "resolved_scale scales ''audio'' (rp_audio_flow_shift plan) (rp_default_audio_flow_shift plan) = Inr a" "positive_finite a"
    by (rule resolved_scale_returns[OF sh(2), of "''audio''" "rp_audio_flow_shift plan" "rp_default_audio_flow_shift plan"]) (use sh(1) in \<open>auto simp: shifts_ok_def\<close>)
  obtain sv where sv: "schedule env n v = Inr sv" "length sv = nat n" by (rule schedule_returns[OF apart(1)[OF v(1)] v(2) steps(2)])
  obtain sa where sa: "schedule env n a = Inr sa" "length sa = nat n" by (rule schedule_returns[OF apart(2)[OF a(1)] a(2) steps(2)])
  have "\<not> (scales \<noteq> PNone \<and> \<not> is_mapping scales)" using sh(2) by (auto simp: scales_ok_def split: pyval.splits)
  then have "plan_schedules env scales b plan = Inr (sv, sa)"
    using v(1) a(1) sv(1) sa(1) steps by (simp add: plan_schedules_def requested_num_steps_def raise_if_def)
  then show ?thesis using sv(2) sa(2) by (rule that)
qed

lemma resolve_plan_numbers:
  assumes "request_ok tk p pr cs tg fc fs afs sd" and "minimax_h3_resolve_plan (PDict (canonical_dict tk pr cs tg fs afs sd)) = Inr plan"
  shows "shifts_ok plan" and "\<exists>sd. plan_seed (rp_seed plan) = Inr sd \<and> seed_ok sd"
proof -
  have opt: "positive_finite x" if "\<forall>path. optional_positive_finite_float (PFloat x) path = Inr (Some x)" for x
    using that by (auto simp: optional_positive_finite_float_def positive_finite_def res_simps)
  have p: "minimax_h3_task_profile tk = Inr p" using assms(1) by (simp add: request_ok_def)
  then have d: "positive_finite (tp_default_flow_shift p)" "positive_finite (tp_default_audio_flow_shift p)"
    by (auto elim!: task_profile_cases simp: profile_defs positive_finite_def is_finite_def fle_def)
  have f: "rp_flow_shift plan = fs \<and> rp_audio_flow_shift plan = afs \<and> rp_default_flow_shift plan = tp_default_flow_shift p \<and>
      rp_default_audio_flow_shift plan = tp_default_audio_flow_shift p \<and> rp_seed plan = (case sd of None \<Rightarrow> PNone | Some n \<Rightarrow> PInt n)"
    using assms(2) p unfolding minimax_h3_resolve_plan_def pyval.case canonical_dict_fields py_str.simps
    by (auto simp: res_simps Let_def opt_float_case)
  show "shifts_ok plan" using f d assms(1) opt by (simp add: shifts_ok_def request_ok_def)
  show "\<exists>sd. plan_seed (rp_seed plan) = Inr sd \<and> seed_ok sd"
    using f assms(1) by (cases sd) (auto simp: plan_seed_def seed_ok_def request_ok_def)
qed

section \<open>Admitted requests\<close>

text \<open>The grid of an admitted plan is fixed and bounded.\<close>

definition grid_bounded :: "nat \<Rightarrow> nat \<Rightarrow> nat \<Rightarrow> nat \<Rightarrow> bool" where
  "grid_bounded T ph pw A \<longleftrightarrow> 32 \<le> T \<and> T \<le> 107 \<and> T mod 5 = 2 \<and> 1 \<le> ph \<and> 1 \<le> pw \<and> ph * pw \<le> 2016 \<and> 160 \<le> A \<and> A \<le> 640"

lemma fixed_grid:
  assumes "geometry_fixed shape" and "frames_fixed shape" and "py_str (dget shape ''geometry'') = ''resolved_v2''"
  obtains T ph pw A where "grid_fixed T ph pw A shape" "grid_bounded T ph pw A"
proof -
  obtain W H where c: "canvas_ok W H" "map_of shape ''width'' = Some (PInt W)" "map_of shape ''height'' = Some (PInt H)"
    using assms(1) by (auto simp: geometry_fixed_def)
  obtain n alt where f: "96 \<le> n" "n \<le> 360" "map_of shape ''audio_latent_t'' = Some (PInt alt)" "160 \<le> alt" "alt \<le> 640"
    "map_of shape ''video_latent_t'' = Some (PInt (minimax_h3_video_latent_t (minimax_h3_align_frame_count n)))"
    using assms(2) by (auto simp: frames_fixed_def)
  let ?n = "minimax_h3_align_frame_count n"
  define k where "k = (?n - 5) div 17"
  have r: "?n mod 17 = 5" "107 \<le> ?n" "?n \<le> 362" using aligned_range[OF f(1,2)] by auto
  have lt: "minimax_h3_video_latent_t ?n = k * 5 + 2" using r(2) by (simp add: minimax_h3_video_latent_t_def k_def)
  have k: "6 \<le> k" "k \<le> 21" using r(2,3) by (simp_all add: k_def)
  obtain w h where wh: "W = 32 * w" "H = 32 * h" using c(1) by (auto simp: canvas_ok_def canvas_side_ok_def dvd_def)
  have b: "1 \<le> w" "1 \<le> h" "w \<le> 63" "h \<le> 63" "min w h \<le> 32"
    using c(1) by (auto simp: canvas_ok_def canvas_side_ok_def wh)
  have area: "h * w \<le> 2016"
  proof (cases "w \<le> h")
    case True
    then show ?thesis using b mult_mono[of h 63 w 32] by simp
  next
    case False
    then show ?thesis using b mult_mono[of h 32 w 63] by simp
  qed
  let ?T = "nat (k * 5 + 2)"
  have "grid_fixed ?T (nat h) (nat w) (nat alt) shape"
    using assms(3) c(2,3) f k b by (simp add: grid_fixed_def dget_def lt wh)
  moreover have "grid_bounded ?T (nat h) (nat w) (nat alt)"
  proof -
    have T: "?T = nat k * 5 + 2" using k by (simp add: nat_add_distrib nat_mult_distrib)
    have "?T mod 5 = 2" unfolding T by presburger
    moreover have "int (nat h * nat w) \<le> 2016" using area b by simp
    then have "nat h * nat w \<le> 2016" by linarith
    ultimately show ?thesis using k b f unfolding grid_bounded_def by auto
  qed
  ultimately show ?thesis by (rule that)
qed

lemma grid_fixed_unique: "grid_fixed T ph pw A s \<Longrightarrow> grid_fixed T' ph' pw' A' s \<Longrightarrow> T' = T \<and> ph' = ph \<and> pw' = pw \<and> A' = A"
  by (simp add: grid_fixed_def)

lemma bounded_fits:
  assumes "grid_bounded T ph pw A" and "L \<le> 2 ^ 30" and "k \<le> 2"
  shows "int (ceil_mult 64 (packed_rows L k T ph pw A)) \<le> 2147483647"
proof -
  have "k * (ph * pw) \<le> 2 * 2016" "T * (ph * pw) \<le> 107 * 2016" using assms by (intro mult_mono; simp add: grid_bounded_def)+
  then have "packed_rows L k T ph pw A \<le> 2 ^ 30 + 221024" using assms unfolding packed_rows_def grid_bounded_def by linarith
  moreover have "ceil_mult 64 (packed_rows L k T ph pw A) < packed_rows L k T ph pw A + 64" by (rule ceil_mult_less) simp
  ultimately show ?thesis by simp
qed

lemma inputs_signature: "inputs_ok L ph pw sig plan b \<Longrightarrow> length sig \<le> 2"
  by (auto simp: inputs_ok_def keyframe_run_ok_def keyframe_ok_def MINIMAX_H3_FL2VA_KEYFRAME_SIGNATURES_def Let_def split: option.splits)

text \<open>A validated request resolves to a plan with sound geometry, so an admitted one has a fixed shape, and the batch
  keeps the frozen plan.\<close>

lemma validated_plan_sound:
  assumes "minimax_h3_validate_canonical_request task prompt conditions target flow audio seed = Inr canonical"
    and "dget canonical ''target'' = PDict tg" and "dget tg ''aspect_ratio'' = PStr ar" and "ratio_known ar"
    and "dget tg ''short_edge'' = PInt se" and "se \<le> 2 ^ 50"
    and "map_of (qb_extra b) MINIMAX_H3_RESOLVED_PLAN_EXTRA_KEY = None"
    and "map_of (qb_extra b) MINIMAX_H3_CANONICAL_REQUEST_EXTRA_KEY = Some (EVal (PDict canonical))"
    and "batch_plan b = (Inr p0, b1)"
  shows "geometry_sound (rp_shape p0)" and "frames_sound (rp_shape p0)"
    and "shifts_ok p0" and "\<exists>sd. plan_seed (rp_seed p0) = Inr sd \<and> seed_ok sd"
proof -
  obtain tk p pr cs tg' fc fs afs sd where c: "canonical = canonical_dict tk pr cs tg' fs afs sd"
    and ok: "request_ok tk p pr cs tg' fc fs afs sd" and tg': "validate_target target p = Inr tg'"
    by (rule validate_request_Inr[OF assms(1)])
  obtain se' ar' du where e: "tg' = target_entry se' ar' du" "target_ok p se' ar' du"
    by (rule validate_target_Inr[OF tg'])
  have eq: "ar' = ar" "se' = se" using assms(2,3,5) e(1) by (auto simp: c)
  have p: "minimax_h3_task_profile tk = Inr p" using ok by (simp add: request_ok_def)
  obtain plan0 where r: "minimax_h3_resolve_plan (PDict canonical) = Inr plan0" "resolve_shape (PDict tg') p = Inr (rp_shape plan0)"
    using request_plan[OF ok e] assms(4,6) eq c by metis
  have "geometry_sound (rp_shape plan0) \<and> frames_sound (rp_shape plan0)"
    by (rule resolve_shape_sound[OF p e(2) _ _ r(2)[unfolded e(1)]]) (use assms(4,6) eq in auto)
  moreover have "plan0 = p0" using batch_plan_from_canonical[OF assms(7,8,9)] r(1) by simp
  ultimately show "geometry_sound (rp_shape p0)" "frames_sound (rp_shape p0)" "shifts_ok p0"
    "\<exists>sd. plan_seed (rp_seed p0) = Inr sd \<and> seed_ok sd"
    using resolve_plan_numbers[OF ok, of p0] r(1) c by auto
qed

lemma admitted_fixed:
  assumes adm: "minimax_h3_prepare_for_queue env b = (Inr plan, t)"
    and sound: "\<And>p0 b1. batch_plan b = (Inr p0, b1) \<Longrightarrow> geometry_sound (rp_shape p0) \<and> frames_sound (rp_shape p0) \<and>
      shifts_ok p0 \<and> (\<exists>sd. plan_seed (rp_seed p0) = Inr sd \<and> seed_ok sd)"
  shows "shifts_ok plan" and "\<exists>sd. plan_seed (rp_seed plan) = Inr sd \<and> seed_ok sd" and "\<exists>T ph pw A. grid_fixed T ph pw A (rp_shape plan) \<and> grid_bounded T ph pw A"
    and "minimax_h3_plan_from_batch (DictExtra (qb_extra t)) = Inr (Some plan, DictExtra (qb_extra t))"
proof -
  obtain p0 facts shape b1 b3 where A: "batch_plan b = (Inr p0, b1)" "resolved_target_shape p0 facts = Inr shape"
    "plan = replace_plan_shape p0 shape" "qb_extra t = dset MINIMAX_H3_RESOLVED_PLAN_EXTRA_KEY (EPlan plan) b3"
    by (rule admission_returns[OF adm])
  note S = target_shape_sound[OF A(2)]
  show "shifts_ok plan" "\<exists>sd. plan_seed (rp_seed plan) = Inr sd \<and> seed_ok sd"
    using sound[OF A(1)] unfolding A(3) by (simp_all add: shifts_ok_def)
  show "\<exists>T ph pw A. grid_fixed T ph pw A (rp_shape plan) \<and> grid_bounded T ph pw A"
    using fixed_grid[of shape] S sound[OF A(1)] A(3) by (metis replace_plan_fields(1))
  show "minimax_h3_plan_from_batch (DictExtra (qb_extra t)) = Inr (Some plan, DictExtra (qb_extra t))"
    by (simp add: A(4) minimax_h3_plan_from_batch_def plan_from_mapping_cached extra_get_def dget_or_def dict_simps)
qed

end
