(* ===== verification/Spec2Isabelle.thy ===== *)
theory Spec2Isabelle
  imports Resolved_Plan Packed_Layout Packed_Tokens Presentation Denoise_Correct Condition_Noise
    Release_Metadata Adaln_Correct Stage_Correct Cache_Dit_Correct
begin

text \<open>
  This development models the MiniMax H3 video generation pipeline of the repository: the path from a client's
  request to the rows the denoiser works on, and the check of the files it delivers. All paths below are relative to
  \<^verbatim>\<open>src/sglang/python/sglang/multimodal_gen/runtime/pipelines_core/stages/model_specific_stages/minimax_h3/\<close>
  unless they say otherwise.

  \<^bold>\<open>The program.\<close> A request names a task (\<^verbatim>\<open>t2va\<close>, \<^verbatim>\<open>fl2va\<close>, \<^verbatim>\<open>ref2va\<close>), a prompt, a target and conditions (keyframe
  images, reference images, videos and sounds). It is validated and normalised, resolved to a plan, and admitted to
  the queue: admission localises and probes every condition, fixes the canvas and the frame count, and freezes them
  in the batch. The stages then pack text, condition, audio and video rows into one token sequence, add noise to the
  condition rows, and run the denoising loop, which calls the transformer once per step and updates the target rows
  in place. At the end the video rows are unpatchified to a latent, decoded, and the written files are checked
  against the admitted request before they are delivered.

  \<^bold>\<open>Theories.\<close>
  \<^item> \<open>H3_Prelude\<close>: Python errors as values, the result type \<open>'a res\<close> (a sum), loops over lists that may raise, and
    rounding up to a multiple. \<open>State_Result\<close>: computations with a state that may raise (the state is returned in
    both cases), the rules by which they keep an invariant, and the locale \<open>memoised\<close>, the contract of a cache.
  \<^item> \<open>Py_Float\<close>: binary64 on rational numbers with rounding to nearest even, square root and \<^verbatim>\<open>round\<close>, with error
    bounds. \<open>Py_Value\<close>: dynamically typed values, dictionaries, \<^verbatim>\<open>int\<close>, \<^verbatim>\<open>float\<close> and \<^verbatim>\<open>str\<close>. \<open>Tensor\<close>: row-major tensors.
  \<^item> \<open>Task_Profiles\<close>, \<open>Time_Request\<close>, \<open>Request_Validation\<close>, \<open>Resolved_Plan\<close>: \<^verbatim>\<open>task_profiles.py\<close>, \<^verbatim>\<open>time_request.py\<close>,
    \<^verbatim>\<open>request_validation.py\<close>, \<^verbatim>\<open>resolved_plan.py\<close>. Lemmas: every accepted request resolves; validation is idempotent;
    the canvas bounds in spite of binary64 rounding; the frame grid \<open>17 n + 5\<close>; the plan is cached.
  \<^item> \<open>Material_Decode\<close>, \<open>Material_Probe\<close>, \<open>Material_Store\<close>: \<^verbatim>\<open>material_io.py\<close>, that is the streaming base64 decoder, the
    probing of media, and the stateful part: the registry of directories, the caches and the readers, over an
    explicit file system. \<open>Material_Store_Correct\<close> states the contract of a reader as the locale \<open>material_reader\<close>,
    interpreted on the base64, HTTP and tar readers, and interprets \<open>memoised\<close> on the probe table and on the cache
    of localised sources.
  \<^item> \<open>Reference_Shape\<close>: from \<^verbatim>\<open>reference_encoding.py\<close>, the shape of a reference image and the determinism context,
    whose uses are a step relation.
  \<^item> \<open>Prequeue\<close>, \<open>Prequeue_Correct\<close>: \<^verbatim>\<open>prequeue.py\<close>, the admission. Its invariant \<open>contained\<close> says that files appear
    only below registered directories; it gives the clean-up of a failed admission, and the frozen workload of a
    successful one follows from the shape the validated request resolved to.
  \<^item> \<open>Canvas\<close>, \<open>Canvas_Correct\<close>: \<^verbatim>\<open>canvas.py\<close>, the preparation of keyframes on the admitted canvas: the binary64 cover-crop
    plan covers the canvas, and after admission no check of the preparation can fail.
  \<^item> \<open>Json\<close>: \<^verbatim>\<open>json.loads\<close>. \<open>Video_Adapter\<close>, \<open>Video_Delivery\<close>: \<^verbatim>\<open>video_adapter.py\<close>, the lowering of a video request,
    the fields of a queued job and the check of delivered files; which requests are lowered, and that a delivered file
    is the admitted one. \<open>Release_Metadata\<close>: \<^verbatim>\<open>release_metadata.py\<close> and the deployment check of
    \<^verbatim>\<open>configs/pipeline_configs/minimax_h3.py\<close>: the tasks a release serves and the admission stage.
  \<^item> \<open>Packed_Sequence\<close>, \<open>Packed_Layout\<close>: \<^verbatim>\<open>packed_sequence.py\<close>, both layout builders, when they return, and that the
    position lists partition the used rows. \<open>Packed_Tokens\<close>: \<^verbatim>\<open>packed_tokens.py\<close>, with the round trips.
    \<open>Presentation\<close>: \<^verbatim>\<open>presentation.py\<close>, the token stream of the text encoder.
  \<^item> \<open>Condition_Noise\<close>: \<^verbatim>\<open>condition_noise.py\<close> and the sigma schedule. \<open>Euler_Scheduler\<close>:
    \<^verbatim>\<open>runtime/models/schedulers/scheduling_minimax_h3_euler_ancestral.py\<close>. \<open>Denoise_Branch\<close>, \<open>Denoise_Loop\<close>:
    \<^verbatim>\<open>denoise_loop.py\<close>, with its persistent buffers, timestep caches and in-place updates. \<open>Denoise_Correct\<close> refines
    the loop to a reference without buffers; the locale \<open>packed_layout\<close> is the contract of a layout it relies on,
    interpreted on both builders.
  \<^item> \<open>Adaln_Cache\<close>: \<^verbatim>\<open>runtime/models/dits/minimax_h3_adaln_cache.py\<close> and its use in \<^verbatim>\<open>runtime/models/dits/minimax_h3.py\<close>:
    the slab of precomputed AdaLN outputs, its host tier, the sidecar and weight updates. \<open>Adaln_Host\<close> has the invariant
    of pages and reference counts, \<open>Adaln_Correct\<close> that of slots; over every history (\<open>adaln_reach\<close>) of a rebuilt cache with
    requests, failed projections, failed copies from the host tier and weight swaps, a cached value is the value computed
    directly, and a request that fits is served. Histories with a failed embedding, which leaks slots
    (\<open>embed_failure_leaks\<close>), are excluded; the sidecar has lemmas of its own.

  \<^item> \<open>Stage_Preparation\<close>: \<^verbatim>\<open>stages/timestep_preparation.py\<close> and \<^verbatim>\<open>stages/latent_preparation.py\<close>: the schedules and the
    initial noise. \<open>Full_Loop\<close>: \<^verbatim>\<open>stages/denoising.py\<close>, the run that ties the parts together, with its acceleration step
    (\<open>accelerate\<close>, which calls the step caching), and the order of the sampling stages. \<open>Full_Loop_Correct\<close>, \<open>Stage_Correct\<close>: which keyframe payloads pass, that the run refines the
    abstract sampler, that one fingerprint means one schedule, and that an admitted request is sampled.
  \<^item> \<open>Cache_Dit\<close>: step caching, from \<^verbatim>\<open>stages/denoising.py\<close>, its parent \<^verbatim>\<open>pipelines_core/stages/denoising.py\<close> and
    \<^verbatim>\<open>runtime/cache/cache_dit_integration.py\<close>: which hooks a request mounts, refreshes or removes. \<open>Cache_Dit_Correct\<close>: over
    every history (\<open>mount_reach\<close>) attached hooks sit on blocks that keep their inputs, however calls fail, with two provisos
    (\<open>call_safe\<close>) where the blocks stay within reach under the hooks; if calls fail cleanly, a request runs with the hooks it
    asks for.

  \<^bold>\<open>State and errors.\<close> Python objects are records with the attributes the code reads; \<^verbatim>\<open>batch.extra\<close> is split into its
  entries. Every exception is an \<open>Inl\<close> value; error texts drop the formatted values. Integers are unbounded, as in
  Python, and the one 32 bit tensor of the layouts has its range check. Loops are structural recursions or have
  a termination proof. The JSON scanner alone uses fuel, one more than twice the length of the text; \<open>json_loads_fuel\<close>
  shows that more fuel never changes its answer.

  \<^bold>\<open>Parameters.\<close> What is not in the repository is an argument: the transformer, the timestep embedding and
  the AdaLN projections (\<open>adaln_env\<close>), fp32 arithmetic (\<open>fp32_ops\<close>), the
  summation kernels of NumPy and PyTorch (\<open>num_kernels\<close>), the random generator (\<open>torch_env\<close>), the text refiner, rotary
  tables, attention builders, tuning and compilation (\<open>sink_env\<close>), the \<^verbatim>\<open>cache_dit\<close> package (\<open>cache_lib\<close>), the tokenizer, Pillow and ffprobe
  (\<open>probe_env\<close>, \<open>pil\<close>, \<open>delivery_run\<close>), the network, \<^verbatim>\<open>tempfile.mkdtemp\<close> and home directories (\<open>io_env\<close>). Hypotheses on
  them are named (\<open>nk_ok\<close>: the kernels return as many values as asked for; \<open>mkdtemp_ok\<close>: a normalised path;
  \<open>pil_laws\<close>: resizing and cropping give the requested size; \<open>randn_ok\<close>: a draw has the size of its shape; \<open>dit_shaped\<close>, \<open>dit_answers\<close>:
  one velocity per target row, and an answer to every call; \<open>points_apart\<close>: the shifted points of a schedule stay apart in
  fp32; \<open>lib_clean\<close>, \<open>lib_works\<close>: calls into \<^verbatim>\<open>cache_dit\<close> work or change nothing, and return).

  \<^bold>\<open>Properties.\<close> This theory holds the properties, in sections: requests and plans, packed layouts, denoising,
  tokens, schedules and condition noise, prompts, materials, tables and seeds, admission, reference encoding, keyframes on the canvas, requests and deliveries, the AdaLN cache, the sampling stages, step caching. Each is followed by a witness when it has hypotheses.

  \<^bold>\<open>Not modelled.\<close> The neural networks and their kernels (the cache of their AdaLN outputs is); the encoders on pixels and waveforms
  (\<^verbatim>\<open>keyframe_encoding.py\<close>, the rest of \<^verbatim>\<open>reference_encoding.py\<close>); the rest of the pipeline configuration and its
  registration; the encoding and decoding stages, which move tensors between these parts and the networks; the metadata of the
  sparse attention backends; the web interface; and the SGLang language-model server the repository is built on.
  Of the file system, symbolic links, permissions and a full disk are left out; strings are bytes.
\<close>

section \<open>Requests and plans\<close>

text \<open>C16: every request the validator accepts, with aspect ratio \<^verbatim>\<open>auto\<close> or an integer ratio within 1:4 to
  4:1 and a short edge of at most \<open>2 ^ 50\<close>, resolves to a plan. The plan has one material per condition, in
  request order and with the condition's role, type, URI and frame index; its keyframe pixel indices are
  distinct and lie within the aligned clip.\<close>

theorem validated_request_resolves:
  assumes "minimax_h3_validate_canonical_request task prompt conditions target flow audio seed = Inr canonical"
    and "dget canonical ''conditions'' = PList (map PDict conds)" and "dget canonical ''target'' = PDict tg"
    and "dget tg ''aspect_ratio'' = PStr ar" and "ratio_known ar"
    and "dget tg ''short_edge'' = PInt se" and "se \<le> 2 ^ 50"
  shows "\<exists>plan. minimax_h3_resolve_plan (PDict canonical) = Inr plan \<and>
     list_all2 material_matches (rp_materials plan) conds \<and>
     map mi_condition_index (rp_materials plan) = [0..<length conds] \<and>
     (\<forall>sem pix. rp_condition_mask plan = Some (sem, pix) \<longrightarrow> distinct pix \<and> length sem = length pix \<and>
        (\<forall>x \<in> set pix. \<exists>n. requested_frame_count tg = Inr (Some n) \<and> 0 \<le> x \<and> x < minimax_h3_align_frame_count n))"
proof -
  obtain t p pr cs tg' fc fs afs sd where c: "canonical = canonical_dict t pr cs tg' fs afs sd"
    and ok: "request_ok t p pr cs tg' fc fs afs sd" and tg': "validate_target target p = Inr tg'"
    by (rule validate_request_Inr[OF assms(1)])
  obtain se' ar' du where e: "tg' = target_entry se' ar' du" "target_ok p se' ar' du"
    by (rule validate_target_Inr[OF tg'])
  have eq: "tg = tg'" "conds = cs" "ar' = ar" "se' = se"
    using assms(2-4,6) e(1) by (auto simp: c inj_map_eq_map inj_def)
  have fc: "requested_frame_count tg = Inr fc" using ok eq by (simp add: request_ok_def)
  obtain plan where "minimax_h3_resolve_plan (PDict (canonical_dict t pr cs tg' fs afs sd)) = Inr plan"
    "list_all2 material_matches (rp_materials plan) cs" "map mi_condition_index (rp_materials plan) = [0..<length cs]"
    "\<And>sem pix. rp_condition_mask plan = Some (sem, pix) \<Longrightarrow> distinct pix \<and> length sem = length pix \<and>
       (\<forall>x \<in> set pix. \<exists>n. fc = Some n \<and> 0 \<le> x \<and> x < minimax_h3_align_frame_count n)"
    using request_plan[OF ok e] assms(5,7) eq by metis
  then show ?thesis using c eq fc by auto
qed

theorem validated_request_resolves_witness:
  "\<exists>canonical conds tg plan. minimax_h3_validate_canonical_request (PStr ''fl2va'') (PStr ''a cat'')
     (PList [PDict [(''role'', PStr ''keyframe''), (''type'', PStr ''image''), (''uri'', PStr ''a.png''),
        (''frame_index'', PInt (- 1))]])
     (PDict [(''short_edge'', PInt 768), (''aspect_ratio'', PStr ''auto''), (''duration_seconds'', PInt 5)])
     PNone PNone (PInt 7) = Inr canonical \<and> dget canonical ''conditions'' = PList (map PDict conds) \<and>
     dget canonical ''target'' = PDict tg \<and> minimax_h3_resolve_plan (PDict canonical) = Inr plan \<and>
     list_all2 material_matches (rp_materials plan) conds"
proof -
  let ?tg = "[(''short_edge'', PInt 768), (''aspect_ratio'', PStr ''auto''), (''duration_seconds'', PFloat (Fin 5))]"
  let ?cond = "[(''type'', PStr ''image''), (''uri'', PStr ''a.png''), (''role'', PStr ''keyframe''), (''frame_index'', PInt (- 1))]"
  let ?c = "[(''schema'', PStr ''minimax_h3.request/v1''), (''task'', PStr ''fl2va''), (''prompt'', PStr ''a cat''),
     (''conditions'', PList (map PDict [?cond])), (''target'', PDict ?tg), (''seed'', PInt 7)]"
  have v: "minimax_h3_validate_canonical_request (PStr ''fl2va'') (PStr ''a cat'')
     (PList [PDict [(''role'', PStr ''keyframe''), (''type'', PStr ''image''), (''uri'', PStr ''a.png''),
        (''frame_index'', PInt (- 1))]])
     (PDict [(''short_edge'', PInt 768), (''aspect_ratio'', PStr ''auto''), (''duration_seconds'', PInt 5)])
     PNone PNone (PInt 7) = Inr ?c" by code_simp
  have h: "dget ?c ''conditions'' = PList (map PDict [?cond])" "dget ?c ''target'' = PDict ?tg"
    "dget ?tg ''aspect_ratio'' = PStr ''auto''" "ratio_known ''auto''" "dget ?tg ''short_edge'' = PInt 768"
    "(768::int) \<le> 2 ^ 50" by (simp_all add: dget_def ratio_known_def)
  show ?thesis using validated_request_resolves[OF v h] v h(1,2) by blast
qed

text \<open>C20: the validator normalises. Feeding the fields of the canonical request it returned back to it
  is accepted and returns the same canonical request.\<close>

theorem validation_idempotent:
  assumes "minimax_h3_validate_canonical_request task prompt conditions target flow audio seed = Inr canonical"
  shows "minimax_h3_validate_canonical_request (dget canonical ''task'') (dget canonical ''prompt'')
     (dget canonical ''conditions'') (dget canonical ''target'') (dget canonical ''flow_shift'')
     (dget canonical ''audio_flow_shift'') (dget canonical ''seed'') = Inr canonical"
proof -
  obtain t p pr cs tg fc fs afs sd where c: "canonical = canonical_dict t pr cs tg fs afs sd"
    and ok: "request_ok t p pr cs tg fc fs afs sd"
    by (rule validate_request_Inr[OF assms])
  show ?thesis unfolding c canonical_dict_fields by (rule validate_request_ok[OF ok])
qed

theorem validation_idempotent_witness:
  "\<exists>canonical. minimax_h3_validate_canonical_request (PStr ''ref2va'') (PStr ''a cat'')
     (PList [PDict [(''role'', PStr ''reference''), (''type'', PStr ''audio''), (''uri'', PStr ''a.wav'')]])
     (PDict [(''short_edge'', PInt 768), (''aspect_ratio'', PStr ''4:3''), (''fps'', PInt 24)])
     (PInt 12) PNone PNone = Inr canonical \<and>
   minimax_h3_validate_canonical_request (dget canonical ''task'') (dget canonical ''prompt'')
     (dget canonical ''conditions'') (dget canonical ''target'') (dget canonical ''flow_shift'')
     (dget canonical ''audio_flow_shift'') (dget canonical ''seed'') = Inr canonical"
proof -
  have "\<not> isl (minimax_h3_validate_canonical_request (PStr ''ref2va'') (PStr ''a cat'')
     (PList [PDict [(''role'', PStr ''reference''), (''type'', PStr ''audio''), (''uri'', PStr ''a.wav'')]])
     (PDict [(''short_edge'', PInt 768), (''aspect_ratio'', PStr ''4:3''), (''fps'', PInt 24)])
     (PInt 12) PNone PNone)" by code_simp
  then obtain c where c: "minimax_h3_validate_canonical_request (PStr ''ref2va'') (PStr ''a cat'')
     (PList [PDict [(''role'', PStr ''reference''), (''type'', PStr ''audio''), (''uri'', PStr ''a.wav'')]])
     (PDict [(''short_edge'', PInt 768), (''aspect_ratio'', PStr ''4:3''), (''fps'', PInt 24)])
     (PInt 12) PNone PNone = Inr c" by (rule not_isl_Inr)
  then show ?thesis using validation_idempotent[OF c] by blast
qed

text \<open>C32: an accepted \<^verbatim>\<open>fl2va\<close> request carries one or two conditions, and their frame indices are, in order,
  \<open>[0]\<close>, \<open>[-1]\<close> or \<open>[0, -1]\<close>.\<close>

theorem fl2va_signature:
  assumes "minimax_h3_validate_canonical_request (PStr ''fl2va'') prompt conditions target flow audio seed = Inr canonical"
  shows "\<exists>conds. dget canonical ''conditions'' = PList (map PDict conds) \<and>
     (\<forall>c \<in> set conds. dget c ''role'' = PStr ''keyframe'' \<and> dget c ''type'' = PStr ''image'') \<and>
     map (\<lambda>c. dget c ''frame_index'') conds \<in> {[PInt 0], [PInt (- 1)], [PInt 0, PInt (- 1)]}"
proof -
  obtain t p pr cs tg fc fs afs sd where c: "canonical = canonical_dict t pr cs tg fs afs sd"
    and ok: "request_ok t p pr cs tg fc fs afs sd" and t: "PStr ''fl2va'' = PStr t"
    and v: "validate_conditions conditions p fc = Inr cs"
    by (rule validate_request_Inr[OF assms])
  have p: "p = profile_fl2va" using ok t by (auto simp: request_ok_def)
  have kf: "validate_keyframe_conditions cs ''fl2va'' = Inr ()" using ok p by (simp add: request_ok_def profile_defs)
  have each: "dget c ''role'' = PStr ''keyframe'' \<and> dget c ''type'' = PStr ''image'' \<and> (\<exists>n. dget c ''frame_index'' = PInt n)"
    if cin: "c \<in> set cs" for c
  proof -
    have "tp_conditions_required profile_fl2va" by (simp add: profile_defs)
    note E = validate_conditions_entries[OF v[unfolded p] this]
    obtain xs where xs: "conditions = PList xs" "length cs = length xs" "xs \<noteq> []" "\<And>j. j < length xs \<Longrightarrow>
        \<exists>s s'. validate_condition profile_fl2va (map_option minimax_h3_align_frame_count fc) j (xs ! j) s = Inr (cs ! j, s')"
      by (rule E) (rule that)
    obtain i where i: "i < length cs" "c = cs ! i" using cin by (auto simp: in_set_conv_nth)
    have "i < length xs" using i(1) xs(2) by simp
    from xs(4)[OF this, folded i(2)] obtain s s' where
      "validate_condition profile_fl2va (map_option minimax_h3_align_frame_count fc) i (xs ! i) s = Inr (c, s')"
      by (elim exE)
    then obtain d role ct uri rule frame start where d: "rule_for profile_fl2va role ct = Inr rule"
      "condition_frame_index rule (map_option minimax_h3_align_frame_count fc) i d s = Inr (frame, s')" "c = condition_entry ct uri role frame start"
      unfolding validate_condition_Inr by blast
    have "rule \<in> set (tp_condition_rules profile_fl2va) \<and> cr_role rule = role \<and> cr_condition_type rule = ct"
      using d(1) rule_for_in_sound unfolding rule_for_def by blast
    then show ?thesis using d(2,3) by (auto simp: profile_defs condition_frame_index_cases)
  qed
  then have "filter (\<lambda>c. eq_str (dget c ''role'') ''keyframe'') cs = cs" by (auto simp: eq_str_def)
  then have m: "matches_signature (map (\<lambda>c. dget c ''frame_index'') cs)"
    using kf by (simp add: validate_keyframe_conditions_def res_simps)
  have fi: "dget c ''frame_index'' = PInt k" if "c \<in> set cs" "eq_int (dget c ''frame_index'') k" for c k
    using each[OF that(1)] that(2) by (auto simp: eq_int_def)
  have "map (\<lambda>c. dget c ''frame_index'') cs \<in> {[PInt 0], [PInt (- 1)], [PInt 0, PInt (- 1)]}"
    using m fi by (auto simp: matches_signature_def MINIMAX_H3_FL2VA_KEYFRAME_SIGNATURES_def list_all2_Cons2 Cons_eq_map_conv
        map_eq_Cons_conv)
  then show ?thesis using c each by auto
qed

theorem fl2va_signature_witness:
  "\<exists>canonical conds. minimax_h3_validate_canonical_request (PStr ''fl2va'') (PStr ''a cat'')
     (PList [PDict [(''role'', PStr ''keyframe''), (''type'', PStr ''image''), (''uri'', PStr ''a.png''),
        (''frame_index'', PInt 0)]])
     (PDict [(''short_edge'', PInt 768), (''aspect_ratio'', PStr ''auto''), (''duration_seconds'', PInt 5)])
     PNone PNone PNone = Inr canonical \<and> dget canonical ''conditions'' = PList (map PDict conds) \<and>
     map (\<lambda>c. dget c ''frame_index'') conds \<in> {[PInt 0], [PInt (- 1)], [PInt 0, PInt (- 1)]}"
proof -
  have "\<not> isl (minimax_h3_validate_canonical_request (PStr ''fl2va'') (PStr ''a cat'')
     (PList [PDict [(''role'', PStr ''keyframe''), (''type'', PStr ''image''), (''uri'', PStr ''a.png''),
        (''frame_index'', PInt 0)]])
     (PDict [(''short_edge'', PInt 768), (''aspect_ratio'', PStr ''auto''), (''duration_seconds'', PInt 5)])
     PNone PNone PNone)" by code_simp
  then obtain c where c: "minimax_h3_validate_canonical_request (PStr ''fl2va'') (PStr ''a cat'')
     (PList [PDict [(''role'', PStr ''keyframe''), (''type'', PStr ''image''), (''uri'', PStr ''a.png''),
        (''frame_index'', PInt 0)]])
     (PDict [(''short_edge'', PInt 768), (''aspect_ratio'', PStr ''auto''), (''duration_seconds'', PInt 5)])
     PNone PNone PNone = Inr c" by (rule not_isl_Inr)
  obtain conds where "dget c ''conditions'' = PList (map PDict conds)"
    "map (\<lambda>c. dget c ''frame_index'') conds \<in> {[PInt 0], [PInt (- 1)], [PInt 0, PInt (- 1)]}"
    using fl2va_signature[OF c] by (elim exE conjE) (rule that)
  then show ?thesis using c by (intro exI[of _ c] exI[of _ conds]) simp
qed

text \<open>C18: the adaptive shape resolver is total on its documented domain and its canvas is bounded. For a short
  edge of at most \<open>2 ^ 50\<close> and exactly representable sides within the ratio range it returns, in binary64
  arithmetic, a width and height that are multiples of 32 between 32 and 2016, the smaller at most 1024.\<close>

theorem canvas_bounds:
  assumes "1 \<le> b" "b \<le> 2 ^ 50" and "1 \<le> w" "w < 2 ^ 53" and "1 \<le> h" "h < 2 ^ 53"
    and "h \<le> 4 * w" "w \<le> 4 * h"
  shows "\<exists>mode W H. minimax_h3_resolve_spatial_shape (PInt w) (PInt h) (PInt b) = Inr (spatial_shape_dict b mode W H) \<and>
     32 dvd W \<and> 32 dvd H \<and> 32 \<le> W \<and> W \<le> 2016 \<and> 32 \<le> H \<and> H \<le> 2016 \<and> min W H \<le> 1024"
proof -
  obtain mode W H where "canvas_ok W H"
    "minimax_h3_resolve_spatial_shape (PInt w) (PInt h) (PInt b) = Inr (spatial_shape_dict b mode W H)"
    by (rule resolve_spatial_shape_total[OF assms])
  then show ?thesis unfolding canvas_ok_def canvas_side_ok_def by blast
qed

theorem canvas_bounds_witness:
  "\<exists>mode W H. minimax_h3_resolve_spatial_shape (PInt 16) (PInt 9) (PInt 768) = Inr (spatial_shape_dict 768 mode W H) \<and>
     32 dvd W \<and> 32 dvd H \<and> W \<le> 2016 \<and> min W H \<le> 1024"
  using canvas_bounds[of 768 16 9] by fastforce

text \<open>For a positive request the aligned frame count is the least number of the form \<open>17 n + 5\<close> that is not
  below it.\<close>

theorem align_least:
  assumes "0 < n"
  shows "minimax_h3_align_frame_count n mod 17 = 5 \<and> n \<le> minimax_h3_align_frame_count n \<and>
     (\<forall>m \<ge> n. m mod 17 = 5 \<longrightarrow> minimax_h3_align_frame_count n \<le> m)"
  using align_frame_count_mod[OF assms] align_frame_count_ge[of n] align_frame_count_least[OF assms] by blast

theorem align_least_witness:
  "minimax_h3_align_frame_count 100 mod 17 = 5 \<and> 100 \<le> minimax_h3_align_frame_count 100"
  using align_least[of 100] by simp

text \<open>For a positive request the aligned frame count is recovered from its video latent length.\<close>

theorem frame_latent_roundtrip:
  assumes "0 < n"
  shows "minimax_h3_frame_count_from_video_latent_t (minimax_h3_video_latent_t (minimax_h3_align_frame_count n))
     = Inr (minimax_h3_align_frame_count n)"
proof -
  obtain k where "0 \<le> k" "minimax_h3_align_frame_count n = 17 * k + 5"
    by (rule align_frame_count_grid[OF assms])
  then show ?thesis by (simp add: video_latent_t_grid frame_count_from_grid)
qed

theorem frame_latent_roundtrip_witness:
  "minimax_h3_frame_count_from_video_latent_t (minimax_h3_video_latent_t (minimax_h3_align_frame_count 100)) = Inr 107"
  using frame_latent_roundtrip[of 100] by (simp add: minimax_h3_align_frame_count_def)

text \<open>Once \<^verbatim>\<open>minimax_h3_plan_from_batch\<close> has returned, calling it again returns the same plan and leaves
  the request's extras as they are.\<close>

theorem plan_cached:
  assumes "minimax_h3_plan_from_batch e = Inr (r, e')"
  shows "minimax_h3_plan_from_batch e' = Inr (r, e')"
  by (rule plan_from_batch_idem[OF assms])

theorem plan_cached_witness:
  "\<exists>r e'. minimax_h3_plan_from_batch (DictExtra [(''minimax_h3_canonical_request'', EVal (PDict
     [(''schema'', PStr ''minimax_h3.request/v1''), (''task'', PStr ''t2va''), (''prompt'', PStr ''a cat''), (''conditions'', PList []),
      (''target'', PDict [(''short_edge'', PInt 768), (''aspect_ratio'', PStr ''16:9''), (''duration_seconds'', PFloat (Fin 5))])]))]) = Inr (r, e') \<and>
     r \<noteq> None \<and> minimax_h3_plan_from_batch e' = Inr (r, e')"
proof -
  let ?e = "DictExtra [(''minimax_h3_canonical_request'', EVal (PDict
     [(''schema'', PStr ''minimax_h3.request/v1''), (''task'', PStr ''t2va''), (''prompt'', PStr ''a cat''), (''conditions'', PList []),
      (''target'', PDict [(''short_edge'', PInt 768), (''aspect_ratio'', PStr ''16:9''), (''duration_seconds'', PFloat (Fin 5))])]))]"
  have n: "case minimax_h3_plan_from_batch ?e of Inr (r, e') \<Rightarrow> r \<noteq> None | Inl _ \<Rightarrow> False" by code_simp
  then obtain r e' where c: "minimax_h3_plan_from_batch ?e = Inr (r, e')" "r \<noteq> None" by (auto split: sum.splits)
  show ?thesis using c plan_cached[OF c(1)] by blast
qed

section \<open>Packed layouts\<close>

text \<open>Concrete parameters for the examples below: constant grids, integer arithmetic and a transformer that
  answers with zero velocities.\<close>

definition seq_kernels :: num_kernels where
  "seq_kernels = \<lparr>nk_linspace = (\<lambda>l r n. replicate n l), nk_sum = (\<lambda>xs. Fin 0), nk_cumsum = (\<lambda>xs. xs)\<rparr>"

definition int_ops :: "int fp32_ops" where
  "int_ops = \<lparr>f_of = (\<lambda>x. case x of Fin r \<Rightarrow> \<lfloor>r\<rfloor> | _ \<Rightarrow> 0), f_add = (+), f_sub = (-), f_mul = (*), f_div = (div),
     f_isfinite = (\<lambda>_. True), f_less = (<), f_allclose = (=)\<rparr>"

definition zero_dit :: "(int, unit, nat) dit" where
  "zero_dit = \<lparr>dit_prepare = (\<lambda>m ts. Inr (None, m)), dit_forward = (\<lambda>m args k. Inr (([[0]], [[0]]), Suc m))\<rparr>"

lemma seq_kernels_ok: "nk_ok seq_kernels"
  by (simp add: nk_ok_def seq_kernels_def)

text \<open>A one-token prompt, one keyframe, one latent frame of one token and one audio row.\<close>

lemma demo_packed:
  obtains p where "minimax_h3_packed_sequence seq_kernels 1 1 2 2 1 1 True (Some [PInt 0]) (Some 5) False = Inr p"
    "p = plain_layout 1 1 2 2 1 1 False 1 [0] (pk_position_ids p)"
proof -
  have k: "keyframe_cond_frame_indices True (Some [PInt 0]) = Inr [0]" and r: "resolve_keyframe_frame_indices [0] (Some 5) = Inr [0]"
    by code_simp+
  have "\<exists>p. minimax_h3_packed_sequence seq_kernels 1 1 2 2 1 1 True (Some [PInt 0]) (Some 5) False = Inr p"
    unfolding packed_sequence_returns_iff[OF seq_kernels_ok]
    by (intro exI[of _ "[0]"] conjI k r) (simp_all add: ceil_mult_def)
  then obtain p where p: "minimax_h3_packed_sequence seq_kernels 1 1 2 2 1 1 True (Some [PInt 0]) (Some 5) False = Inr p" ..
  obtain ks rs where "keyframe_cond_frame_indices True (Some [PInt 0]) = Inr ks" "resolve_keyframe_frame_indices ks (Some 5) = Inr rs"
    "p = plain_layout 1 1 2 2 1 1 False (length ks) rs (pk_position_ids p)"
    by (rule packed_sequence_layout[OF p])
  moreover from this have "ks = [0]" "rs = [0]" using k r by auto
  ultimately show ?thesis using that[OF p] by simp
qed

lemma demo_branch:
  obtains p b where "minimax_h3_packed_sequence seq_kernels 1 1 2 2 1 1 True (Some [PInt 0]) (Some 5) False = Inr p"
    "denoise_branch_init int_ops p [[1]] (pk_token_tags p) None \<lparr>sp_ulysses_world = 1, sp_ulysses_rank = 0, sp_ring_world = 1, sp_ring_rank = 0\<rparr> = Inr b"
    "br_video_target_start b = 1" "br_audio_target_start b = 0" "length (br_img_pos b) = 2" "length (br_audio_pos b) = 1"
proof -
  obtain p where p: "minimax_h3_packed_sequence seq_kernels 1 1 2 2 1 1 True (Some [PInt 0]) (Some 5) False = Inr p"
    "p = plain_layout 1 1 2 2 1 1 False 1 [0] (pk_position_ids p)" by (rule demo_packed)
  have n: "ceil_mult 64 4 = 64" and u: "[0..<1] = [0]" "[1..<2] = [1]" "[2..<3] = [2]" "[3..<4] = [3 :: nat]"
    and m: "replicate 1 False @ replicate 1 True = [False, True]" by code_simp+
  have f: "pk_text_pos p = [0]" "pk_seq_len p = 64" "pk_img_pos p = [1, 3]" "pk_audio_pos p = [2]" "pk_update_mask p = [False, True]"
    "pk_audio_update_mask p = None" "length (pk_token_tags p) = 64"
    by (subst p(2), simp add: plain_layout_def Let_def n u m token_tags_length del: upt_Suc One_nat_def)+
  have "\<exists>b. denoise_branch_init int_ops p [[1]] (pk_token_tags p) None
      \<lparr>sp_ulysses_world = 1, sp_ulysses_rank = 0, sp_ring_world = 1, sp_ring_rank = 0\<rparr> = Inr b"
    by (simp add: denoise_branch_init_def Let_def f build_local_embedding_layout_def raise_if_def)
  then obtain b where b: "denoise_branch_init int_ops p [[1]] (pk_token_tags p) None
      \<lparr>sp_ulysses_world = 1, sp_ulysses_rank = 0, sp_ring_world = 1, sp_ring_rank = 0\<rparr> = Inr b" ..
  show ?thesis by (rule that[OF p(1) b])
    (simp_all add: branch_init_fields[OF b] f effective_audio_mask_def)
qed

text \<open>C38: the layout builder for text and keyframe requests returns exactly when the keyframe indices resolve, the
  latent is at least one patch wide and the padded sequence length fits a 32-bit integer; otherwise it raises.
  The numeric kernels only have to return arrays of the documented lengths.\<close>

theorem plain_layout_returns:
  assumes "nk_ok nk"
  shows "(\<exists>p. minimax_h3_packed_sequence nk text_len latent_t latent_h latent_w audio_t audio_channel
      include kfi frame_count vp = Inr p) \<longleftrightarrow>
    (\<exists>ks rs. keyframe_cond_frame_indices include kfi = Inr ks \<and> resolve_keyframe_frame_indices ks frame_count = Inr rs \<and>
       2 \<le> latent_w \<and> int (ceil_mult 64 (text_len + length ks * ((latent_h div 2) * (latent_w div 2)) +
         audio_t * audio_channel + latent_t * ((latent_h div 2) * (latent_w div 2)))) \<le> 2147483647)"
  by (rule packed_sequence_returns_iff[OF assms])

theorem plain_layout_returns_witness:
  "\<not> (\<exists>p. minimax_h3_packed_sequence seq_kernels 3 2 4 1 5 2 False None None False = Inr p)"
  using plain_layout_returns[OF seq_kernels_ok, of 3 2 4 1 5 2 False None None False] by simp

text \<open>C39: the layout builder for reference requests returns exactly when every block parses, the keyframe indices
  resolve, the rows fit the sequence length and 32 bits, and every width axis it reads is non-empty.\<close>

theorem ref2va_layout_returns:
  assumes "nk_ok nk"
  shows "(\<exists>p. minimax_h3_packed_sequence_ref2va_blocks nk text_len latent_t latent_h latent_w audio_t ref_blocks
      kfi frame_count audio_channel seq_len0 vp = Inr p) \<longleftrightarrow>
    (\<exists>items ks rs used n. parse_ref_blocks audio_channel ref_blocks = Inr items \<and>
       keyframe_cond_frame_indices (kfi \<noteq> None) kfi = Inr ks \<and> resolve_keyframe_frame_indices ks frame_count = Inr rs \<and>
       used = text_len + length ks * ((latent_h div 2) * (latent_w div 2)) +
         (sum_list (map item_visual_rows items) + sum_list (map item_audio_rows items)) +
         audio_t * audio_channel + latent_t * ((latent_h div 2) * (latent_w div 2)) \<and>
       n = (case seq_len0 of None \<Rightarrow> ceil_mult 64 used | Some n \<Rightarrow> n) \<and>
       used \<le> n \<and> int n \<le> 2147483647 \<and> 2 \<le> latent_w \<and> list_all block_axis_ok items)"
  by (rule ref2va_returns_iff[OF assms])

text \<open>The same with one reference image of two by two latents.\<close>

lemma demo_ref2va:
  obtains p where "minimax_h3_packed_sequence_ref2va_blocks seq_kernels 1 1 2 2 1
      (PList [PDict [(''kind'', PStr ''image''), (''latent_h'', PInt 2), (''latent_w'', PInt 2)]]) (Some [PInt 0]) (Some 5) 1 None False = Inr p"
proof -
  have i: "parse_ref_blocks 1 (PList [PDict [(''kind'', PStr ''image''), (''latent_h'', PInt 2), (''latent_w'', PInt 2)]]) = Inr [RefImage 2 2 1]"
    by code_simp
  have k: "keyframe_cond_frame_indices (Some [PInt 0] \<noteq> None) (Some [PInt 0]) = Inr [0]"
    and r: "resolve_keyframe_frame_indices [0] (Some 5) = Inr [0]" by code_simp+
  have "\<exists>p. minimax_h3_packed_sequence_ref2va_blocks seq_kernels 1 1 2 2 1
      (PList [PDict [(''kind'', PStr ''image''), (''latent_h'', PInt 2), (''latent_w'', PInt 2)]]) (Some [PInt 0]) (Some 5) 1 None False = Inr p"
    unfolding ref2va_returns_iff[OF seq_kernels_ok]
    by (intro exI[of _ "[RefImage 2 2 1]"] exI[of _ "[0]"] exI[of _ 5] exI[of _ 64] conjI i k r) (simp_all add: ceil_mult_def)
  then show ?thesis using that by blast
qed

theorem ref2va_layout_returns_witness:
  "\<exists>p. minimax_h3_packed_sequence_ref2va_blocks seq_kernels 1 1 2 2 1
      (PList [PDict [(''kind'', PStr ''audio''), (''ref_audio_t'', PInt 2)]]) None None 1 None False = Inr p"
proof -
  have i: "parse_ref_blocks 1 (PList [PDict [(''kind'', PStr ''audio''), (''ref_audio_t'', PInt 2)]]) = Inr [RefAudio 2 2]"
    by code_simp
  have k: "keyframe_cond_frame_indices (None \<noteq> (None :: pyval list option)) None = Inr []"
    and r: "resolve_keyframe_frame_indices [] None = Inr []" by code_simp+
  show ?thesis unfolding ref2va_layout_returns[OF seq_kernels_ok]
    by (intro exI[of _ "[RefAudio 2 2]"] exI[of _ "[]"] exI[of _ 5] exI[of _ 64] conjI i k r) (simp_all add: ceil_mult_def)
qed

text \<open>C14: the plain layout places text, keyframe rows, audio and video one after the other, with one latent frame of
  rows for each keyframe index. Every used row belongs to exactly one of them and carries its tag, padding rows carry -1,
  the update mask selects exactly the video rows, and the length is the next multiple of 64.\<close>

theorem plain_layout_spec:
  assumes "minimax_h3_packed_sequence nk text_len latent_t latent_h latent_w audio_t audio_channel
      include kfi frame_count vp = Inr p"
  shows "\<exists>ks. keyframe_cond_frame_indices include kfi = Inr ks \<and>
    (let frame = (latent_h div 2) * (latent_w div 2); audio = text_len + length ks * frame;
         video = audio + audio_t * audio_channel; used = video + latent_t * frame
     in layout_ok p used [text_len..<audio] [video..<used] [] [audio..<video] \<and>
        64 dvd pk_seq_len p \<and> pk_seq_len p < used + 64)"
proof -
  define frame where "frame = (latent_h div 2) * (latent_w div 2)"
  obtain used C ks where *: "layout_ok p used [text_len..<text_len + C] [used - latent_t * frame..<used] []
      [text_len + C..<text_len + C + audio_t * audio_channel]"
    "used = text_len + C + audio_t * audio_channel + latent_t * frame"
    "pk_seq_len p = ceil_mult 64 used" "keyframe_cond_frame_indices include kfi = Inr ks" "C = length ks * frame"
    unfolding frame_def by (rule packed_sequence_ok[OF assms])
  have "64 dvd ceil_mult 64 used" "ceil_mult 64 used < used + 64"
    by (simp_all add: ceil_mult_less)
  then show ?thesis unfolding Let_def frame_def[symmetric] using *(1,3)
    by (intro exI[of _ ks] conjI *(4)) (simp_all add: *(2,5))
qed

theorem plain_layout_spec_witness:
  "\<exists>p. minimax_h3_packed_sequence seq_kernels 1 1 2 2 1 1 True (Some [PInt 0]) (Some 5) False = Inr p \<and>
     layout_ok p 4 [1] [3] [] [2] \<and> 64 dvd pk_seq_len p"
proof -
  obtain p where p: "minimax_h3_packed_sequence seq_kernels 1 1 2 2 1 1 True (Some [PInt 0]) (Some 5) False = Inr p"
    by (rule demo_packed)
  have k: "keyframe_cond_frame_indices True (Some [PInt 0]) = Inr [0]" by code_simp
  have u: "[1..<2] = [1]" "[2..<3] = [2]" "[3..<4] = [3 :: nat]" by code_simp+
  show ?thesis using plain_layout_spec[OF p] p by (auto simp: k u Let_def simp del: upt_Suc One_nat_def)
qed

text \<open>C15: the reference layout is a partition too, with every position determined. The keyframe rows follow the text,
  one latent frame for each index; the blocks follow in order, the audio rows of a block before its visual rows; the
  target audio follows the last block and the target video comes last. The condition rows are the keyframe rows and then
  the visual rows of the blocks, the reference audio rows precede the target audio rows, and tags and update masks
  agree with that placement.\<close>

theorem ref2va_layout_spec:
  assumes "minimax_h3_packed_sequence_ref2va_blocks nk text_len latent_t latent_h latent_w audio_t ref_blocks
      kfi frame_count audio_channel seq_len0 vp = Inr p"
  shows "\<exists>items ks. parse_ref_blocks audio_channel ref_blocks = Inr items \<and>
    keyframe_cond_frame_indices (kfi \<noteq> None) kfi = Inr ks \<and>
    (let frame = (latent_h div 2) * (latent_w div 2); base = text_len + length ks * frame;
         audio = block_start base items (length items); video = audio + audio_t * audio_channel;
         used = video + latent_t * frame
     in layout_ok p used ([text_len..<base] @ concat (map (block_visual base items) [0..<length items])) [video..<used]
          (concat (map (block_audio base items) [0..<length items])) [audio..<video])"
proof -
  define frame where "frame = (latent_h div 2) * (latent_w div 2)"
  obtain used items ks base stop where *:
    "parse_ref_blocks audio_channel ref_blocks = Inr items" "keyframe_cond_frame_indices (kfi \<noteq> None) kfi = Inr ks"
    "base = text_len + length ks * frame"
    "stop = base + sum_list (map item_visual_rows items) + sum_list (map item_audio_rows items)"
    "used = stop + audio_t * audio_channel + latent_t * frame"
    "layout_ok p used ([text_len..<base] @ concat (map (block_visual base items) [0..<length items]))
       [stop + audio_t * audio_channel..<used]
       (concat (map (block_audio base items) [0..<length items])) [stop..<stop + audio_t * audio_channel]"
    unfolding frame_def by (rule ref2va_placed[OF assms])
  have "block_start base items (length items) = stop"
    unfolding block_start_def *(4) by (simp add: sum_list_addf)
  then show ?thesis unfolding Let_def frame_def[symmetric] using *(6)
    by (intro exI[of _ items] exI[of _ ks] conjI *(1,2)) (simp add: *(3,5))
qed

theorem ref2va_layout_spec_witness:
  "\<exists>p. minimax_h3_packed_sequence_ref2va_blocks seq_kernels 1 1 2 2 1
      (PList [PDict [(''kind'', PStr ''image''), (''latent_h'', PInt 2), (''latent_w'', PInt 2)]]) (Some [PInt 0]) (Some 5) 1 None False = Inr p \<and>
     layout_ok p 5 [1, 2] [4] [] [3]"
proof -
  obtain p where p: "minimax_h3_packed_sequence_ref2va_blocks seq_kernels 1 1 2 2 1
      (PList [PDict [(''kind'', PStr ''image''), (''latent_h'', PInt 2), (''latent_w'', PInt 2)]]) (Some [PInt 0]) (Some 5) 1 None False = Inr p"
    by (rule demo_ref2va)
  have i: "parse_ref_blocks 1 (PList [PDict [(''kind'', PStr ''image''), (''latent_h'', PInt 2), (''latent_w'', PInt 2)]]) = Inr [RefImage 2 2 1]"
    and k: "keyframe_cond_frame_indices (Some [PInt 0] \<noteq> None) (Some [PInt 0]) = Inr [0]" by code_simp+
  have e: "block_start 2 [RefImage 2 2 1] (length [RefImage 2 2 1]) = 3"
    "[1..<2] @ concat (map (block_visual 2 [RefImage 2 2 1]) [0..<length [RefImage 2 2 1]]) = [1, 2]"
    "concat (map (block_audio 2 [RefImage 2 2 1]) [0..<length [RefImage 2 2 1]]) = []" "[4..<5] = [4 :: nat]" "[3..<4] = [3 :: nat]"
    "1 + length [0 :: int] * ((2 div 2) * (2 div 2)) = 2" "3 + 1 * 1 = (4 :: nat)" "4 + 1 * ((2 div 2) * (2 div 2)) = (5 :: nat)"
    by code_simp+
  show ?thesis using ref2va_layout_spec[OF p] p unfolding i k Let_def by (metis e sum.inject(2))
qed

text \<open>C23: with an empty block list the reference builder computes the plain layout, with the same position grid and
  the same errors; only the audio mask is explicit and the stream layout lists no condition.\<close>

theorem ref2va_without_refs:
  assumes "nk_ok nk"
  shows "minimax_h3_packed_sequence_ref2va_blocks nk text_len latent_t latent_h latent_w audio_t (PList [])
      kfi frame_count audio_channel None vp =
    rbind (minimax_h3_packed_sequence nk text_len latent_t latent_h latent_w audio_t audio_channel
      (kfi \<noteq> None) kfi frame_count vp) (\<lambda>p.
     Inr (p\<lparr>pk_audio_update_mask := Some (replicate (audio_t * audio_channel) True),
            pk_stream_layout := stream_layout_of (latent_t, latent_h div 2, latent_w div 2) []\<rparr>))"
  by (rule ref2va_no_refs[OF assms])

theorem ref2va_without_refs_witness:
  "\<exists>p. minimax_h3_packed_sequence_ref2va_blocks seq_kernels 1 1 2 2 1 (PList []) (Some [PInt 0]) (Some 5) 1 None False = Inr p"
proof -
  obtain p where p: "minimax_h3_packed_sequence seq_kernels 1 1 2 2 1 1 True (Some [PInt 0]) (Some 5) False = Inr p"
    by (rule demo_packed)
  then show ?thesis using ref2va_without_refs[OF seq_kernels_ok, of 1 1 2 2 1 "Some [PInt 0]" "Some 5" 1 False] by simp
qed

text \<open>C40: the condition streams of a reference layout account for the reference rows: the audio lengths sum to the
  reference audio rows, and the shape volumes sum to the visual condition rows without the keyframe rows. With
  keyframes present the listed streams are therefore shorter than the condition part of the position list.\<close>

theorem ref2va_stream_volumes:
  assumes "minimax_h3_packed_sequence_ref2va_blocks nk text_len latent_t latent_h latent_w audio_t ref_blocks
      kfi frame_count audio_channel seq_len0 vp = Inr p"
  shows "\<exists>used cond target refs audio ks. layout_ok p used cond target refs audio \<and>
     keyframe_cond_frame_indices (kfi \<noteq> None) kfi = Inr ks \<and>
     sum_list (map shape_volume (sl_cond_image_shapes (pk_stream_layout p))) +
       length ks * ((latent_h div 2) * (latent_w div 2)) = length cond \<and>
     sum_list (sl_cond_audio_stream_lens (pk_stream_layout p)) = length refs"
proof -
  obtain used cond items k refs audio where *:
    "layout_ok p used cond [used - latent_t * ((latent_h div 2) * (latent_w div 2))..<used] refs audio"
    "length refs = sum_list (map item_audio_rows items)"
    "parse_ref_blocks audio_channel ref_blocks = Inr items"
    "length cond = k * ((latent_h div 2) * (latent_w div 2)) + sum_list (map item_visual_rows items)"
    "pk_stream_layout p = stream_layout_of (latent_t, latent_h div 2, latent_w div 2) items"
    "\<exists>ks. keyframe_cond_frame_indices (kfi \<noteq> None) kfi = Inr ks \<and> k = length ks"
    by (rule ref2va_ok[OF assms])
  obtain ks where ks: "keyframe_cond_frame_indices (kfi \<noteq> None) kfi = Inr ks" "k = length ks" using *(6) by blast
  note v = layout_fold_volumes[OF parse_ref_blocks_ok[OF *(3)]]
  show ?thesis
    by (intro exI[of _ used] exI[of _ cond] exI[of _ "[used - latent_t * ((latent_h div 2) * (latent_w div 2))..<used]"] exI[of _ refs] exI[of _ audio] exI[of _ ks] conjI *(1) ks(1))
      (simp_all add: *(2,4,5) v stream_layout_of_def ks(2))
qed

theorem ref2va_stream_volumes_witness:
  "\<exists>p used cond target refs audio. minimax_h3_packed_sequence_ref2va_blocks seq_kernels 1 1 2 2 1
      (PList [PDict [(''kind'', PStr ''image''), (''latent_h'', PInt 2), (''latent_w'', PInt 2)]]) (Some [PInt 0]) (Some 5) 1 None False = Inr p \<and>
     layout_ok p used cond target refs audio \<and>
     sum_list (map shape_volume (sl_cond_image_shapes (pk_stream_layout p))) + 1 = length cond"
proof -
  obtain p where p: "minimax_h3_packed_sequence_ref2va_blocks seq_kernels 1 1 2 2 1
      (PList [PDict [(''kind'', PStr ''image''), (''latent_h'', PInt 2), (''latent_w'', PInt 2)]]) (Some [PInt 0]) (Some 5) 1 None False = Inr p"
    by (rule demo_ref2va)
  have k: "keyframe_cond_frame_indices (Some [PInt 0] \<noteq> None) (Some [PInt 0]) = Inr [0]" by code_simp
  show ?thesis using ref2va_stream_volumes[OF p] p k by fastforce
qed

section \<open>Denoising\<close>

text \<open>C7: for every plain layout, the denoise loop with its persistent buffers, incremental row copies and in-place
  scratch arithmetic has the outcome of the reference iteration, in which the full packed rows are handed to the
  transformer and the target rows advance by the Euler scheduler, while the anchor rows keep their values. It raises
  exactly what the preparation of the transformer, the lookup of a slot or a forward call raises; when they return, it
  returns.\<close>

theorem denoise_loop_plain:
  assumes "minimax_h3_packed_sequence nk text_len latent_t latent_h latent_w audio_t audio_channel include kfi frame_count vp = Inr p"
    and "denoise_branch_init ops p te tags vq sp = Inr b"
    and "length sv = length sa" "2 \<le> length sv"
    and "length (anchor_rows kf) = br_video_target_start b" "length (anchor_rows ar) = br_audio_target_start b"
    and "length iv = length (br_img_pos b)" "length ia = length (br_audio_pos b)"
    and "shaped_model model (br_audio_target_start b) (drop (br_video_target_start b) iv) (drop (br_audio_target_start b) ia)"
  shows "\<exists>plan. prepare_timestep_plan ops b (map (fsub (Fin 1)) (butlast sv)) (map (fsub (Fin 1)) (butlast sa)) img_aug audio_aug =
       Inr plan \<and>
     rbind (minimax_h3_denoise_loop ops model m b iv ia kf ar sv sa img_aug audio_aug) (\<lambda>st. Inr (ls_video st, ls_audio st, ls_model st)) =
     rbind (dit_prepare model m (map fst plan)) (\<lambda>(slots, m').
     rbind (rfold (reference_step ops model sv sa plan slots b (anchor_rows kf) (anchor_rows ar)) [0..<length sv - 1]
         (drop (br_video_target_start b) iv, drop (br_audio_target_start b) ia, m')) (\<lambda>(v, au, m'').
     Inr (anchor_rows kf @ v, anchor_rows ar @ au, m'')))"
  using h3_plain.loop_of_layout[of "(nk, text_len, latent_t, latent_h, latent_w, audio_t, audio_channel, include, kfi, frame_count, vp)",
        unfolded prod.case, OF assms, of img_aug audio_aug m]
  by (simp add: loop_result_def reference_loop_def)

theorem denoise_loop_plain_witness:
  "\<exists>b st v. minimax_h3_denoise_loop int_ops zero_dit 0 b [[1], [2]] [[3]] (Some [[5]]) None [Fin 1, Fin 0] [Fin 1, Fin 0] (Fin 1) (Fin 1) = Inr st \<and>
     ls_video st = [5] # v"
proof -
  obtain p b where p: "minimax_h3_packed_sequence seq_kernels 1 1 2 2 1 1 True (Some [PInt 0]) (Some 5) False = Inr p"
    and b: "denoise_branch_init int_ops p [[1]] (pk_token_tags p) None \<lparr>sp_ulysses_world = 1, sp_ulysses_rank = 0, sp_ring_world = 1, sp_ring_rank = 0\<rparr> = Inr b"
    and f: "br_video_target_start b = 1" "br_audio_target_start b = 0" "length (br_img_pos b) = 2" "length (br_audio_pos b) = 1"
    by (rule demo_branch)
  have "shaped_model zero_dit (br_audio_target_start b) (drop (br_video_target_start b) [[1], [2]]) (drop (br_audio_target_start b) [[3]])"
    by (simp add: f shaped_model_def zero_dit_def same_shape_def)
  note R = denoise_loop_plain[OF p b _ _ _ _ _ _ this, of "[Fin 1, Fin 0]" "[Fin 1, Fin 0]" "Some [[5]]" None "Fin 1" "Fin 1" 0]
  let ?loop = "minimax_h3_denoise_loop int_ops zero_dit 0 b [[1], [2]] [[3]] (Some [[5]]) None [Fin 1, Fin 0] [Fin 1, Fin 0] (Fin 1) (Fin 1)"
  obtain v au m where "rbind ?loop (\<lambda>st. Inr (ls_video st, ls_audio st, ls_model st)) = Inr ([5] # v, au, m)"
    using R by (auto simp: f anchor_rows_def zero_dit_def reference_step_def plan_slot_def)
  then show ?thesis by (auto simp: rbind_Inr_iff)
qed

text \<open>C8: the same refinement holds on every reference layout, with reference audio rows pinned
  besides the visual condition rows.\<close>

theorem denoise_loop_ref2va:
  assumes "minimax_h3_packed_sequence_ref2va_blocks nk text_len latent_t latent_h latent_w audio_t ref_blocks kfi frame_count
      audio_channel seq_len vp = Inr p"
    and "denoise_branch_init ops p te tags vq sp = Inr b"
    and "length sv = length sa" "2 \<le> length sv"
    and "length (anchor_rows kf) = br_video_target_start b" "length (anchor_rows ar) = br_audio_target_start b"
    and "length iv = length (br_img_pos b)" "length ia = length (br_audio_pos b)"
    and "shaped_model model (br_audio_target_start b) (drop (br_video_target_start b) iv) (drop (br_audio_target_start b) ia)"
  shows "\<exists>plan. prepare_timestep_plan ops b (map (fsub (Fin 1)) (butlast sv)) (map (fsub (Fin 1)) (butlast sa)) img_aug audio_aug =
       Inr plan \<and>
     rbind (minimax_h3_denoise_loop ops model m b iv ia kf ar sv sa img_aug audio_aug) (\<lambda>st. Inr (ls_video st, ls_audio st, ls_model st)) =
     rbind (dit_prepare model m (map fst plan)) (\<lambda>(slots, m').
     rbind (rfold (reference_step ops model sv sa plan slots b (anchor_rows kf) (anchor_rows ar)) [0..<length sv - 1]
         (drop (br_video_target_start b) iv, drop (br_audio_target_start b) ia, m')) (\<lambda>(v, au, m'').
     Inr (anchor_rows kf @ v, anchor_rows ar @ au, m'')))"
  using h3_ref2va.loop_of_layout[of "(nk, text_len, latent_t, latent_h, latent_w, audio_t, ref_blocks, kfi, frame_count,
        audio_channel, seq_len, vp)", unfolded prod.case, OF assms, of img_aug audio_aug m]
  by (simp add: loop_result_def reference_loop_def)

text \<open>A branch over a reference layout, with rows of the sizes it asks for.\<close>

lemma demo_ref_branch:
  obtains p b where "minimax_h3_packed_sequence_ref2va_blocks seq_kernels 1 1 2 2 1
      (PList [PDict [(''kind'', PStr ''image''), (''latent_h'', PInt 2), (''latent_w'', PInt 2)]]) (Some [PInt 0]) (Some 5) 1 None False = Inr p"
    "denoise_branch_init int_ops p (map (\<lambda>_. [1]) (pk_text_pos p)) (pk_token_tags p) None
       \<lparr>sp_ulysses_world = 1, sp_ulysses_rank = 0, sp_ring_world = 1, sp_ring_rank = 0\<rparr> = Inr b"
    "br_video_target_start b \<le> length (br_img_pos b)" "br_audio_target_start b \<le> length (br_audio_pos b)"
proof -
  obtain p where p: "minimax_h3_packed_sequence_ref2va_blocks seq_kernels 1 1 2 2 1
      (PList [PDict [(''kind'', PStr ''image''), (''latent_h'', PInt 2), (''latent_w'', PInt 2)]]) (Some [PInt 0]) (Some 5) 1 None False = Inr p"
    by (rule demo_ref2va)
  obtain used cond target refs audio where l: "layout_ok p used cond target refs audio"
    using ref2va_ok[OF p] by metis
  let ?sp = "\<lparr>sp_ulysses_world = 1, sp_ulysses_rank = 0, sp_ring_world = 1, sp_ring_rank = 0\<rparr>"
  have "length (pk_token_tags p) = pk_seq_len p" using l by (simp add: layout_ok_def)
  then have "\<exists>b. denoise_branch_init int_ops p (map (\<lambda>_. [1]) (pk_text_pos p)) (pk_token_tags p) None ?sp = Inr b"
    by (simp add: denoise_branch_init_def Let_def build_local_embedding_layout_def raise_if_def)
  then obtain b where b: "denoise_branch_init int_ops p (map (\<lambda>_. [1]) (pk_text_pos p)) (pk_token_tags p) None ?sp = Inr b" ..
  have "br_video_target_start b \<le> length (br_img_pos b)" "br_audio_target_start b \<le> length (br_audio_pos b)"
    using l by (simp_all add: branch_init_fields[OF b] effective_audio_mask_eq[OF l] filter_Not_prefix layout_ok_def)
  then show ?thesis using that p b by blast
qed

theorem denoise_loop_ref2va_witness:
  "\<exists>(b :: int branch) model kf ar iv ia st v au. minimax_h3_denoise_loop int_ops (model :: (int, unit, nat) dit) 0 b iv ia (Some kf) (Some ar)
     [Fin 1, Fin 0] [Fin 1, Fin 0] (Fin 1) (Fin 1) = Inr st \<and> ls_video st = kf @ v \<and> ls_audio st = ar @ au"
proof -
  obtain p b where p: "minimax_h3_packed_sequence_ref2va_blocks seq_kernels 1 1 2 2 1
      (PList [PDict [(''kind'', PStr ''image''), (''latent_h'', PInt 2), (''latent_w'', PInt 2)]]) (Some [PInt 0]) (Some 5) 1 None False = Inr p"
    and b: "denoise_branch_init int_ops p (map (\<lambda>_. [1]) (pk_text_pos p)) (pk_token_tags p) None
       \<lparr>sp_ulysses_world = 1, sp_ulysses_rank = 0, sp_ring_world = 1, sp_ring_rank = 0\<rparr> = Inr b"
    by (rule demo_ref_branch)
  let ?iv = "replicate (length (br_img_pos b)) [0]" and ?ia = "replicate (length (br_audio_pos b)) [0 :: int]"
  let ?model = "\<lparr>dit_prepare = (\<lambda>m ts. Inr (None, m)),
     dit_forward = (\<lambda>m args k. Inr ((drop (br_video_target_start b) ?iv, ?ia), Suc m))\<rparr> :: (int, unit, nat) dit"
  have "shaped_model ?model (br_audio_target_start b) (drop (br_video_target_start b) ?iv) (drop (br_audio_target_start b) ?ia)"
    by (simp add: shaped_model_def)
  note R = denoise_loop_ref2va[OF p b _ _ _ _ _ _ this, of "[Fin 1, Fin 0]" "[Fin 1, Fin 0]"
      "Some (replicate (br_video_target_start b) [7])" "Some (replicate (br_audio_target_start b) [7])" "Fin 1" "Fin 1" 0]
  let ?kf = "replicate (br_video_target_start b) [7 :: int]" and ?ar = "replicate (br_audio_target_start b) [7 :: int]"
  let ?loop = "minimax_h3_denoise_loop int_ops ?model 0 b ?iv ?ia (Some ?kf) (Some ?ar) [Fin 1, Fin 0] [Fin 1, Fin 0] (Fin 1) (Fin 1)"
  obtain v au m where "rbind ?loop (\<lambda>st. Inr (ls_video st, ls_audio st, ls_model st)) = Inr (?kf @ v, ?ar @ au, m)"
    using R by (auto simp: anchor_rows_def reference_step_def plan_slot_def)
  then obtain st where "?loop = Inr st" "ls_video st = ?kf @ v" "ls_audio st = ?ar @ au" by (auto simp: rbind_Inr_iff)
  then show ?thesis by blast
qed

text \<open>C21: in the timestep plan of a plain or a reference layout every packed row of every step reads, through the
  deduplicated table and the inverse index, the timestep of its own kind: \<open>max\<close> of the video timestep and the visual
  augmentation for a condition row, \<open>max\<close> of the audio timestep and the audio augmentation for a reference audio row,
  the audio timestep for a target audio row and the video timestep for every other row. The combined modality indices
  are built from the same rows. The caches shared between the steps never change that.\<close>

theorem timestep_plan_rows:
  assumes "minimax_h3_packed_sequence nk text_len latent_t latent_h latent_w audio_t audio_channel include kfi frame_count vp = Inr p \<or>
      minimax_h3_packed_sequence_ref2va_blocks nk text_len latent_t latent_h latent_w audio_t ref_blocks kfi frame_count
        audio_channel seq_len vp = Inr p"
    and "denoise_branch_init ops p te tags vq sp = Inr b"
    and "prepare_timestep_plan ops b vt ta img_aug audio_aug = Inr plan"
  shows "list_all2 (plan_entry_ok ops p b img_aug audio_aug) (zip vt ta) plan"
  using assms(1)
proof
  assume "minimax_h3_packed_sequence nk text_len latent_t latent_h latent_w audio_t audio_channel include kfi frame_count vp = Inr p"
  then show ?thesis
    by (rule h3_plain.plan_of_layout[of "(nk, text_len, latent_t, latent_h, latent_w, audio_t, audio_channel, include, kfi, frame_count, vp)",
        unfolded prod.case, OF _ assms(2,3)])
next
  assume "minimax_h3_packed_sequence_ref2va_blocks nk text_len latent_t latent_h latent_w audio_t ref_blocks kfi frame_count
        audio_channel seq_len vp = Inr p"
  then show ?thesis
    by (rule h3_ref2va.plan_of_layout[of "(nk, text_len, latent_t, latent_h, latent_w, audio_t, ref_blocks, kfi, frame_count,
        audio_channel, seq_len, vp)", unfolded prod.case, OF _ assms(2,3)])
qed

theorem timestep_plan_rows_witness:
  "\<exists>p b plan. minimax_h3_packed_sequence_ref2va_blocks seq_kernels 1 1 2 2 1
      (PList [PDict [(''kind'', PStr ''image''), (''latent_h'', PInt 2), (''latent_w'', PInt 2)]]) (Some [PInt 0]) (Some 5) 1 None False = Inr p \<and>
     prepare_timestep_plan int_ops b [Fin 0, Fin 1] [Fin 0, Fin 1] (Fin 1) (Fin 1) = Inr plan \<and>
     list_all2 (plan_entry_ok int_ops p b (Fin 1) (Fin 1)) [(Fin 0, Fin 0), (Fin 1, Fin 1)] plan"
proof -
  obtain p b where p: "minimax_h3_packed_sequence_ref2va_blocks seq_kernels 1 1 2 2 1
      (PList [PDict [(''kind'', PStr ''image''), (''latent_h'', PInt 2), (''latent_w'', PInt 2)]]) (Some [PInt 0]) (Some 5) 1 None False = Inr p"
    and b: "denoise_branch_init int_ops p (map (\<lambda>_. [1]) (pk_text_pos p)) (pk_token_tags p) None
       \<lparr>sp_ulysses_world = 1, sp_ulysses_rank = 0, sp_ring_world = 1, sp_ring_rank = 0\<rparr> = Inr b"
    by (rule demo_ref_branch)
  obtain plan where plan: "prepare_timestep_plan int_ops b [Fin 0, Fin 1] [Fin 0, Fin 1] (Fin 1) (Fin 1) = Inr plan"
    by (simp add: prepare_timestep_plan_def raise_if_def)
  have z: "zip [Fin 0, Fin 1] [Fin 0, Fin 1] = [(Fin 0, Fin 0), (Fin 1, Fin 1)]" by simp
  show ?thesis using timestep_plan_rows[OF disjI2[OF p] b plan] p plan unfolding z by blast
qed

text \<open>C22: the in-place update of the loop, which reuses the velocity and a scratch tensor, leaves in the state
  exactly the rows of the scheduler's Euler step, whatever the scratch held before.\<close>

theorem inplace_update:
  "fst (update_target_rows ops (step_sigma_t ops sigmas k) (sigmas ! k) (step_ratio ops sigmas k)
     (f_sub ops (f_of ops (Fin 1)) (step_ratio ops sigmas k)) (state, velocity, scratch)) =
   euler_eta0_step ops state (rf_v_to_x0 ops state velocity (f_of ops (fsub (Fin 1) (sigmas ! k))))
     (sigmas ! k) (sigmas ! (k + 1)) None"
  using update_target_rows_scheduler[of ops sigmas k state velocity scratch] by (simp add: scheduler_rows_def)

text \<open>C27: the rank-local embedding layouts of all ranks together hold every visual and audio position
  exactly once, and their text ranges follow each other and cover the text rows.\<close>

theorem local_layouts_partition:
  assumes "0 < n" "seq_len mod n = 0"
    and "\<And>p. p \<in> set img_pos \<Longrightarrow> p < seq_len" "\<And>p. p \<in> set audio_pos \<Longrightarrow> p < seq_len" "length text_pos \<le> seq_len"
  shows "\<exists>l. (\<forall>r < n. build_local_embedding_layout seq_len text_pos img_pos audio_pos n r = Inr (l r)) \<and>
     mset (concat (map (\<lambda>r. ll_img_global_ids (l r)) [0..<n])) = mset img_pos \<and>
     mset (concat (map (\<lambda>r. ll_audio_global_ids (l r)) [0..<n])) = mset audio_pos \<and>
     concat (map (\<lambda>r. [ll_text_source_start (l r)..<ll_text_source_stop (l r)]) [0..<n]) = [0..<length text_pos]"
proof -
  let ?s = "seq_len div n"
  let ?l = "\<lambda>r. \<lparr>ll_text_source_start = min (r * ?s) (length text_pos), ll_text_source_stop = min (r * ?s + ?s) (length text_pos),
     ll_img_global_ids = local_ids (r * ?s) (r * ?s + ?s) img_pos,
     ll_img_row_ids = map (\<lambda>p. p - r * ?s) (local_ids (r * ?s) (r * ?s + ?s) img_pos),
     ll_audio_global_ids = local_ids (r * ?s) (r * ?s + ?s) audio_pos,
     ll_audio_row_ids = map (\<lambda>p. p - r * ?s) (local_ids (r * ?s) (r * ?s + ?s) audio_pos)\<rparr>"
  have s: "n * ?s = seq_len" using assms(2) by auto
  have "\<forall>r < n. build_local_embedding_layout seq_len text_pos img_pos audio_pos n r = Inr (?l r)"
    using assms(1,2) by (simp add: build_local_embedding_layout_def Let_def raise_if_def)
  moreover have "mset (concat (map (\<lambda>r. ll_img_global_ids (?l r)) [0..<n])) = mset img_pos"
    using local_ids_partition[of img_pos n ?s] assms(3) s by simp
  moreover have "mset (concat (map (\<lambda>r. ll_audio_global_ids (?l r)) [0..<n])) = mset audio_pos"
    using local_ids_partition[of audio_pos n ?s] assms(4) s by simp
  moreover have "concat (map (\<lambda>r. [ll_text_source_start (?l r)..<ll_text_source_stop (?l r)]) [0..<n]) = [0..<length text_pos]"
    using text_ranges_partition[of ?s "length text_pos" n] assms(5) s by (simp add: min_absorb2)
  ultimately show ?thesis by (intro exI[of _ ?l]) blast
qed

theorem local_layouts_partition_witness:
  "\<exists>l. (\<forall>r < 2. build_local_embedding_layout 64 [0, 1, 2] [3, 40] [5, 41] 2 r = Inr (l r)) \<and>
     mset (concat (map (\<lambda>r. ll_img_global_ids (l r)) [0..<2])) = mset [3, 40]"
proof -
  have h: "0 < (2::nat)" "(64::nat) mod 2 = 0" "\<And>p. p \<in> set [3, 40] \<Longrightarrow> p < (64::nat)"
    "\<And>p. p \<in> set [5, 41] \<Longrightarrow> p < (64::nat)" "length [0::nat, 1, 2] \<le> 64" by auto
  show ?thesis using local_layouts_partition[OF h] by blast
qed

text \<open>The sparse-query mask has one entry per started block of 64 rows, and a block is marked exactly when
  every real row in it is a video query row.\<close>

theorem subblock_mask:
  assumes "subblock_sparse_query_block_mask vs used = Inr m"
  shows "int (length m) = (used + 63) div 64 \<and>
     (\<forall>b < length m. m ! b \<longleftrightarrow> (\<forall>i. 64 * int b \<le> i \<and> i < 64 * int b + 64 \<and> i < used \<longrightarrow> i \<in> set vs))"
  using subblock_mask_correct[OF assms] by blast

theorem subblock_mask_witness:
  "\<exists>m. subblock_sparse_query_block_mask [64, 65] 66 = Inr m \<and> length m = 2 \<and> \<not> m ! 0"
proof -
  have c: "subblock_sparse_query_block_mask [64, 65] 66 = Inr [False, True]" by code_simp
  show ?thesis using subblock_mask[OF c] c by simp
qed

section \<open>Tokens, schedules and condition noise\<close>

text \<open>C31: patchifying a well-formed latent whose axes are multiples of the patch size gives rows of the
  expected shape, and unpatchifying them gives the latent back.\<close>

theorem unpatchify_inverts:
  assumes "tensor_ok latent" and "t_shape latent = [b, c, t * pt, h * ph, w * pw]"
    and "0 < t" "0 < h" "0 < w" "0 < c" "0 < pt" "0 < ph" "0 < pw"
  shows "\<exists>rows. minimax_h3_patchify_video_latent latent [int pt, int ph, int pw] = Inr rows \<and>
     t_shape rows = [b * t * h * w, c * pt * ph * pw] \<and>
     minimax_h3_unpatchify_video_tokens rows [int t, int h, int w, int c] [int pt, int ph, int pw] = Inr latent"
  using unpatchify_patchify[OF assms] by metis

theorem unpatchify_inverts_witness:
  "\<exists>rows. minimax_h3_patchify_video_latent \<lparr>t_shape = [1, 1, 1 * 1, 1 * 2, 1 * 2], t_data = [10, 11, 12, 13 :: int]\<rparr>
      [int 1, int 2, int 2] = Inr rows \<and>
     minimax_h3_unpatchify_video_tokens rows [int 1, int 1, int 1, int 1] [int 1, int 2, int 2] =
       Inr \<lparr>t_shape = [1, 1, 1 * 1, 1 * 2, 1 * 2], t_data = [10, 11, 12, 13]\<rparr>"
  using unpatchify_inverts[of "\<lparr>t_shape = [1, 1, 1 * 1, 1 * 2, 1 * 2], t_data = [10, 11, 12, 13 :: int]\<rparr>" 1 1 1 1 1 2 1 2]
  by (auto simp: tensor_ok_def numel_def)

text \<open>Conversely, unpatchifying rows of the packed shape gives a latent from which patchifying recovers
  the rows.\<close>

theorem patchify_inverts:
  assumes "tensor_ok rows" and "t_shape rows = [b * t * h * w, c * pt * ph * pw]"
    and "0 < t" "0 < h" "0 < w" "0 < c" "0 < pt" "0 < ph" "0 < pw"
  shows "\<exists>latent. minimax_h3_unpatchify_video_tokens rows [int t, int h, int w, int c] [int pt, int ph, int pw] = Inr latent \<and>
     t_shape latent = [b, c, t * pt, h * ph, w * pw] \<and>
     minimax_h3_patchify_video_latent latent [int pt, int ph, int pw] = Inr rows"
  using patchify_unpatchify[OF assms] by metis

theorem patchify_inverts_witness:
  "\<exists>latent. minimax_h3_unpatchify_video_tokens \<lparr>t_shape = [1 * 1 * 1 * 1, 1 * 1 * 2 * 2], t_data = [10, 11, 12, 13 :: int]\<rparr>
     [int 1, int 1, int 1, int 1] [int 1, int 2, int 2] = Inr latent \<and> t_shape latent = [1, 1, 1 * 1, 1 * 2, 1 * 2]"
  using patchify_inverts[of "\<lparr>t_shape = [1 * 1 * 1 * 1, 1 * 1 * 2 * 2], t_data = [10, 11, 12, 13 :: int]\<rparr>" 1 1 1 1 1 1 2 2]
  by (auto simp: tensor_ok_def numel_def)

text \<open>Unpacking channel-major audio rows gives a tensor of shape channel, dimension, time whose element at
  channel, dimension and time is the row of that channel and time at that dimension.\<close>

theorem unpack_audio:
  assumes "tensor_ok rows" and "t_shape rows = [nch * T, ncols]" and "0 < nch" "0 < T"
    and "ch < nch" "d < ncols" "i < T"
  shows "\<exists>out. minimax_h3_unpack_audio_tokens rows (int (nch * T)) (int nch) = Inr out \<and> t_shape out = [nch, ncols, T] \<and>
    t_data out ! ravel [nch, ncols, T] [ch, d, i] = t_data rows ! ((ch * T + i) * ncols + d)"
  using unpack_audio_element[OF assms] by metis

theorem unpack_audio_witness:
  "\<exists>out. minimax_h3_unpack_audio_tokens \<lparr>t_shape = [2 * 2, 1], t_data = [10, 11, 12, 13 :: int]\<rparr> (int (2 * 2)) (int 2) = Inr out \<and>
    t_data out ! ravel [2, 1, 2] [1, 0, 1] = 13"
  using unpack_audio[of "\<lparr>t_shape = [2 * 2, 1], t_data = [10, 11, 12, 13 :: int]\<rparr>" 2 2 1 1 0 1]
  by (auto simp: tensor_ok_def numel_def)

text \<open>A schedule for more than one step is not empty, has no two equal neighbours, and ends at a sigma that is
  not positive, so the last denoise step reaches the clean sample.\<close>

theorem sigma_schedule:
  assumes "minimax_h3_time_shift_sigmas ops linspace n shift = Inr s" and "1 < n" and "\<And>x. \<not> f_less ops x x"
  shows "s \<noteq> [] \<and> \<not> f_less ops (f_of ops (Fin 0)) (last s) \<and> distinct_adj s"
  using time_shift_sigmas_schedule[OF assms] by blast

theorem sigma_schedule_witness:
  "\<exists>s. minimax_h3_time_shift_sigmas int_ops (\<lambda>n. [4, 2, 1]) 3 (Fin 1) = Inr s \<and> \<not> 0 < last s"
proof -
  have c: "minimax_h3_time_shift_sigmas int_ops (\<lambda>n. [4, 2, 1]) 3 (Fin 1) = Inr [4, 2, 1, 0]" by code_simp
  have "\<And>x. \<not> f_less int_ops x x" by (simp add: int_ops_def)
  from sigma_schedule[OF c _ this] show ?thesis using c by (simp add: int_ops_def)
qed

text \<open>C30: on valid shapes the visual augmentation returns, row for row, the clean rows mixed with the
  concatenation of the conditions' own noises. Each condition restarts the generator at the request seed, draws for the
  target length plus the condition frames, and keeps its own prefix.\<close>

theorem imgvid_noise_rows:
  assumes "noise_aug_ok aug" "\<not> feq aug (Fin 1)" and "t_shape clean = [n, 96]" "tensor_ok clean"
    and "0 < target_t" "0 < frames" and "rmap parse_condition_shape shapes = Inr ss" "ss \<noteq> []"
    and "n = sum_list (map condition_rows ss)"
    and "\<forall>s \<in> set ss. imgvid_segment_ok randn (nat (target_t + frames)) seed s"
  shows "minimax_h3_imgvid_cond_noise_aug_rows ops randn clean shapes target_t frames seed aug =
     Inr \<lparr>t_shape = [n, 96], t_data = map2 (noise_mix ops aug) (t_data clean)
        (concat (map (imgvid_noise randn (nat (target_t + frames)) seed) ss))\<rparr>"
proof -
  have "length (t_data clean) = (0 + sum_list (map condition_rows ss)) * 96"
    using assms(3,4,9) by (simp add: tensor_ok_def numel_def)
  from imgvid.segments_mix[OF assms(10) this, of ops aug "[]"] show ?thesis
    using assms(1-9) by (simp add: minimax_h3_imgvid_cond_noise_aug_rows_def raise_if_def)
qed

theorem imgvid_noise_rows_witness:
  "minimax_h3_imgvid_cond_noise_aug_rows int_ops (\<lambda>s sh. replicate (numel sh) s) \<lparr>t_shape = [1, 96], t_data = replicate 96 7\<rparr> [[1, 2, 2]] 1 1 5 (Fin 0)
   = Inr \<lparr>t_shape = [1, 96], t_data = map2 (noise_mix int_ops (Fin 0)) (replicate 96 7)
        (concat (map (imgvid_noise (\<lambda>s sh. replicate (numel sh) s) (nat (1 + 1)) 5) [(1, 2, 2)]))\<rparr>"
proof -
  have h: "noise_aug_ok (Fin 0)" "\<not> feq (Fin 0) (Fin 1)" "rmap parse_condition_shape [[1, 2, 2]] = Inr [(1, 2, 2)]"
    "1 = sum_list (map condition_rows [(1, 2, 2)])" by code_simp+
  have ok: "\<forall>s \<in> set [(1, 2, 2)]. imgvid_segment_ok (\<lambda>s sh. replicate (numel sh) s) (nat (1 + 1)) 5 s"
    by (simp add: imgvid_segment_ok_def seed_ok_def)
  show ?thesis
    using imgvid_noise_rows[OF h(1,2) _ _ _ _ h(3) _ h(4) ok, of "\<lparr>t_shape = [1, 96], t_data = replicate 96 7\<rparr>" int_ops]
    by (simp add: tensor_ok_def numel_def)
qed

text \<open>The audio augmentation does the same with two channels per latent frame and a generator restarted at
  \<open>seed + 1\<close> for every condition.\<close>

theorem audio_noise_rows:
  assumes "noise_aug_ok aug" "\<not> feq aug (Fin 1)" and "t_shape clean = [n, 32]" "tensor_ok clean"
    and "ts \<noteq> []" "\<forall>t \<in> set ts. 0 < t" and "int n = 2 * sum_list ts" and "seed_ok (seed + 1)"
    and "\<forall>t \<in> set ts. length (randn (seed + 1) [2 * nat t, 32]) = 2 * nat t * 32"
  shows "minimax_h3_audio_cond_noise_aug_rows ops randn clean ts seed aug =
     Inr \<lparr>t_shape = [n, 32], t_data = map2 (noise_mix ops aug) (t_data clean)
        (concat (map (\<lambda>t. randn (seed + 1) [2 * nat t, 32]) ts))\<rparr>"
proof -
  have "int (sum_list (map (\<lambda>t. 2 * nat t) xs)) = 2 * sum_list xs" if "\<forall>t \<in> set xs. 0 < t" for xs
    using that by (induction xs) auto
  from this[OF assms(6)] have n: "n = sum_list (map (\<lambda>t. 2 * nat t) ts)" using assms(7) by simp
  have ok: "\<forall>t \<in> set ts. seed_ok (seed + 1) \<and> length (randn (seed + 1) [2 * nat t, 32]) = 2 * nat t * 32"
    using assms(8,9) by blast
  have "length (t_data clean) = (0 + sum_list (map (\<lambda>t. 2 * nat t) ts)) * 32"
    using assms(3,4) n by (simp add: tensor_ok_def numel_def)
  from audio.segments_mix[where randn = randn and seed = seed and ss = ts and ops = ops and noise_aug = aug and out = "[]", OF ok this] show ?thesis
    using assms(1-7) n by (auto simp: minimax_h3_audio_cond_noise_aug_rows_def raise_if_def MINIMAX_H3_AUDIO_COND_CHANNELS_def)
qed

theorem audio_noise_rows_witness:
  "\<exists>out. minimax_h3_audio_cond_noise_aug_rows int_ops (\<lambda>s sh. replicate (numel sh) s) \<lparr>t_shape = [2, 32], t_data = replicate 64 7\<rparr> [1] 5 (Fin 0) = Inr out"
proof -
  have h: "noise_aug_ok (Fin 0)" "\<not> feq (Fin 0) (Fin 1)" by code_simp+
  have "minimax_h3_audio_cond_noise_aug_rows int_ops (\<lambda>s sh. replicate (numel sh) s) \<lparr>t_shape = [2, 32], t_data = replicate 64 7\<rparr> [1] 5 (Fin 0) =
    Inr \<lparr>t_shape = [2, 32], t_data = map2 (noise_mix int_ops (Fin 0)) (t_data \<lparr>t_shape = [2, 32], t_data = replicate 64 7\<rparr>)
        (concat (map (\<lambda>t. (\<lambda>s sh. replicate (numel sh) s) (5 + 1) [2 * nat t, 32]) [1]))\<rparr>"
    by (rule audio_noise_rows[OF h]) (simp_all add: tensor_ok_def numel_def seed_ok_def)
  then show ?thesis by blast
qed

section \<open>Prompts\<close>

text \<open>C29: a reference presentation is the list of its segments in request order, a label and a vision block
  per condition and the prompt last. Its ids, its tags and its video mask are the concatenations of those of the segments,
  so the three lists stay aligned and the mask marks exactly the video pad tokens of video blocks.\<close>

theorem presentation_segments:
  assumes "minimax_h3_ref2va_video_presentation tk prompt labels ic vc vt True = Inr (ids, tags, m)"
    and "video_ids_distinct tk"
  shows "\<exists>ics vcs vts segs. as_int_list ic = Inr ics \<and> as_nested_int_list vc = Inr vcs \<and> as_nested_float_list vt = Inr vts \<and>
     segs = ref_segments tk labels ics vcs vts @ [TextSeg (tok_text tk prompt)] \<and>
     ids = concat (map (seg_ids tk) segs) \<and> tags = concat (map seg_tags segs) \<and> m = Some (concat (map seg_mask segs)) \<and>
     length tags = length ids \<and> length (concat (map seg_mask segs)) = length ids"
proof -
  have l: "length (seg_tags s) = length (seg_ids tk s)" "length (seg_mask s) = length (seg_ids tk s)" for s
    by (cases s; simp add: vision_block_length)+
  obtain ics vcs vts where "as_int_list ic = Inr ics" "as_nested_int_list vc = Inr vcs" "as_nested_float_list vt = Inr vts"
    "ids = concat (map (seg_ids tk) (ref_segments tk labels ics vcs vts @ [TextSeg (tok_text tk prompt)]))"
    "tags = concat (map seg_tags (ref_segments tk labels ics vcs vts @ [TextSeg (tok_text tk prompt)]))"
    "m = Some (concat (map seg_mask (ref_segments tk labels ics vcs vts @ [TextSeg (tok_text tk prompt)])))"
    by (rule ref2va_presentation_segments[OF assms])
  then show ?thesis by (simp add: length_concat comp_def l)
qed

text \<open>A tokenizer with one id per character.\<close>

definition char_tokenizer :: tokenizer where
  "char_tokenizer = \<lparr>tok_text = map (\<lambda>c. int (of_char c)),
     tok_id = (\<lambda>s. if s = VIDEO_PAD then 1001 else if s = VISION_START then 1002 else 1003)\<rparr>"

theorem presentation_segments_witness:
  "\<exists>ids tags m. minimax_h3_ref2va_video_presentation char_tokenizer ''hi'' [(''video'', 1)] PNone
      (PList [PInt 2]) (PList [PInt 1]) True = Inr (ids, tags, m) \<and> length tags = length ids"
proof -
  have "\<not> isl (minimax_h3_ref2va_video_presentation char_tokenizer ''hi'' [(''video'', 1)] PNone (PList [PInt 2]) (PList [PInt 1]) True)"
    by code_simp
  then obtain x where x: "minimax_h3_ref2va_video_presentation char_tokenizer ''hi'' [(''video'', 1)] PNone (PList [PInt 2]) (PList [PInt 1]) True = Inr x"
    by (rule not_isl_Inr)
  obtain ids tags m where e: "x = (ids, tags, m)" by (cases x)
  have "video_ids_distinct char_tokenizer" by code_simp
  then show ?thesis using presentation_segments[OF x[unfolded e]] x e by auto
qed

section \<open>Materials\<close>

text \<open>C28: the streaming decoder, which decodes in chunks of a megabyte and checks padding and sizes on the way,
  accepts a payload exactly when its unescaped characters are a base64 body followed by correct padding, and then it
  writes the bytes of the body.\<close>

theorem base64_stream:
  "stream_base64 payload = Inr out \<longleftrightarrow> (\<exists>body pad. iter_base64_payload_bytes payload = (body @ replicate pad 61, None) \<and>
     b64_wellformed body pad \<and> out = sextets_to_bytes (map b64_sextet body))"
  by (rule stream_base64_iff)

text \<open>Decoding the base64 encoding of a non-empty byte string gives the byte string back.\<close>

theorem base64_roundtrip:
  assumes "\<forall>b \<in> set bs. b < 256" and "bs \<noteq> []"
  shows "stream_base64 (map char_of (b64encode bs)) = Inr bs"
  by (rule stream_base64_roundtrip[OF assms])

theorem base64_roundtrip_witness:
  "stream_base64 (map char_of (b64encode [1, 255])) = Inr [1, 255]"
  using base64_roundtrip[of "[1, 255]"] by simp

text \<open>Whatever ffprobe reported, the facts of an accepted container are usable: its duration is finite and
  positive; for a video condition the coded size is positive, the frame rate finite and positive and there is at least one
  frame; for a condition with audio the sample rate and the channel count are positive.\<close>

theorem probe_facts:
  assumes "media_facts env ct payload = Inr facts"
  shows "(\<exists>d. dget facts ''duration_seconds'' = PFloat d \<and> is_finite d \<and> flt (Fin 0) d) \<and>
     (ct \<in> {''video'', ''video_audio''} \<longrightarrow> (\<exists>w h fps n. dget facts ''coded_width'' = PInt w \<and> dget facts ''coded_height'' = PInt h \<and>
       0 < w \<and> 0 < h \<and> dget facts ''fps'' = PFloat fps \<and> is_finite fps \<and> flt (Fin 0) fps \<and>
       dget facts ''frame_count'' = PInt n \<and> 1 \<le> n)) \<and>
     (ct \<in> {''audio'', ''video_audio''} \<longrightarrow>
       (\<exists>r c. dget facts ''audio_sample_rate'' = PInt r \<and> dget facts ''audio_channels'' = PInt c \<and> 0 < r \<and> 0 < c))"
  using media_facts_positive[OF assms] by blast

definition demo_env :: probe_env where
  "demo_env = \<lparr>pv_image = (\<lambda>_. None), pv_ffprobe = (\<lambda>_ _. ProbeExit []), pv_trig = (\<lambda>_. (Fin 1, Fin 0))\<rparr>"

theorem probe_facts_witness:
  "\<exists>facts r c. media_facts demo_env ''audio'' [(''streams'', PList [PDict [(''codec_type'', PStr ''audio''),
      (''sample_rate'', PStr ''48000''), (''channels'', PInt 2)]]),
      (''format'', PDict [(''format_name'', PStr ''wav''), (''duration'', PStr ''3'')])] = Inr facts \<and>
     dget facts ''audio_sample_rate'' = PInt r \<and> dget facts ''audio_channels'' = PInt c \<and> 0 < r \<and> 0 < c"
proof -
  let ?p = "[(''streams'', PList [PDict [(''codec_type'', PStr ''audio''), (''sample_rate'', PStr ''48000''), (''channels'', PInt 2)]]),
      (''format'', PDict [(''format_name'', PStr ''wav''), (''duration'', PStr ''3'')])]"
  have "\<not> isl (media_facts demo_env ''audio'' ?p)" by code_simp
  then obtain f where f: "media_facts demo_env ''audio'' ?p = Inr f" by (rule not_isl_Inr)
  show ?thesis using probe_facts[OF f] f by auto
qed

text \<open>Every frame-rate text parses to a finite number; malformed text, a zero denominator or an overflow
  give zero instead of an exception.\<close>

theorem frame_rate_total:
  "\<exists>r. parse_frame_rate (PStr s) = Inr r \<and> is_finite r"
  using parse_frame_rate_total[of s] parse_frame_rate_finite by blast

text \<open>A stream rotated by a multiple of a quarter turn keeps its physical size, with width and height
  swapped exactly for odd multiples, and its rotation is reported modulo 360 degrees.\<close>

theorem quarter_turns:
  assumes "k \<in> {-4, -3, -2, -1, 0, 1, 2, 3, 4}"
    and "rotation_values s = [PInt (90 * k)]" and "physical_size s = Inr (w, h, sar)"
  shows "display_geometry trig s = Inr (if even k then (w, h, sar, Fin (of_int (90 * (k mod 4))))
     else (h, w, sar, Fin (of_int (90 * (k mod 4)))))"
  by (rule display_geometry_quarter[OF assms])

theorem quarter_turns_witness:
  "\<exists>w h sar. display_geometry (\<lambda>_. (Fin 1, Fin 0)) [(''width'', PInt 4), (''height'', PInt 2),
      (''side_data_list'', PList [PDict [(''rotation'', PInt (- 90))]])] = Inr (h, w, sar, Fin 270) \<and> w = Fin 4 \<and> h = Fin 2"
proof -
  let ?s = "[(''width'', PInt 4), (''height'', PInt 2), (''side_data_list'', PList [PDict [(''rotation'', PInt (- 90))]])]"
  have r: "rotation_values ?s = [PInt (90 * - 1)]" by code_simp
  have p: "physical_size ?s = Inr (Fin 4, Fin 2, Fin 1)" by code_simp
  show ?thesis using quarter_turns[OF _ r p, of "\<lambda>_. (Fin 1, Fin 0)"] by simp
qed

text \<open>A probe remembers the entry list with which the process ended normally, and only a listed or already
  remembered one; from then on every probe runs that list alone. This holds also when the printed text does not parse.
  Every other failed probe leaves the memo as it was.\<close>

theorem ffprobe_memo:
  "case ffprobe_media run path memo of (r, m) \<Rightarrow>
     (\<exists>e. m = Some e \<and> run e path = ProbeOutput r \<and> (memo = Some e \<or> memo = None \<and> e \<in> set FFPROBE_ENTRY_VARIANTS) \<and>
        (\<forall>path'. ffprobe_media run path' m = ffprobe_loop run path' [e] m)) \<or> isl r \<and> m = memo"
proof (cases "ffprobe_media run path memo")
  case (Pair r m)
  show ?thesis
  proof (cases r)
    case (Inl e)
    then have "m = memo \<or> (\<exists>x \<in> set (case memo of Some e \<Rightarrow> [e] | None \<Rightarrow> FFPROBE_ENTRY_VARIANTS).
        m = Some x \<and> run x path = ProbeOutput (Inl e))"
      using Pair ffprobe_loop_memo[of run path "case memo of Some e \<Rightarrow> [e] | None \<Rightarrow> FFPROBE_ENTRY_VARIANTS" memo e]
      by (simp add: ffprobe_media_def)
    then show ?thesis using Pair Inl by (auto simp: ffprobe_media_def split: option.splits)
  next
    case (Inr d)
    obtain e where "run e path = ProbeOutput (Inr d)" "m = Some e" "memo = None \<or> memo = Some e" "memo = None \<longrightarrow> e \<in> set FFPROBE_ENTRY_VARIANTS"
      using ffprobe_media_Inr[OF Pair[unfolded Inr]] by metis
    then show ?thesis using Pair Inr by (auto simp: ffprobe_media_def)
  qed
qed

section \<open>Tables and seeds\<close>

text \<open>The validator accepts a seed exactly when it is an integer between 0 and \<open>2 ^ 63 - 1\<close>; a Boolean is not an
  integer here.\<close>

theorem seed_range:
  "validate_seed v = Inr (Some n) \<longleftrightarrow> v = PInt n \<and> 0 \<le> n \<and> n < 2 ^ 63"
  by (rule validate_seed_Some)

text \<open>The shipped profile table passes its own check, and looking up a rule in any of its profiles returns a
  rule exactly when the profile has one with that role and type, and then that rule.\<close>

theorem profile_rules:
  "validate_profiles MINIMAX_H3_TASK_PROFILES = Inr () \<and>
   (\<forall>p \<in> set (map snd MINIMAX_H3_TASK_PROFILES). \<forall>role ct rule.
      rule_for p role ct = Inr rule \<longleftrightarrow> rule \<in> set (tp_condition_rules p) \<and> cr_role rule = role \<and> cr_condition_type rule = ct)"
proof -
  have "rule_for p role ct = Inr rule \<longleftrightarrow> rule \<in> set (tp_condition_rules p) \<and> cr_role rule = role \<and> cr_condition_type rule = ct"
    if "p \<in> set (map snd MINIMAX_H3_TASK_PROFILES)" for p role ct rule
  proof -
    have "distinct (map (\<lambda>r. (cr_role r, cr_condition_type r)) (tp_condition_rules p))"
      using that by (auto simp: MINIMAX_H3_TASK_PROFILES_def profile_defs)
    then show ?thesis unfolding rule_for_def using rule_for_in_sound rule_for_in_complete by blast
  qed
  then show ?thesis using validate_profiles_table by blast
qed

theorem profile_rules_witness:
  "\<exists>rule. rule_for profile_fl2va ''keyframe'' ''image'' = Inr rule \<and> cr_role rule = ''keyframe''"
proof -
  have m: "profile_fl2va \<in> set (map snd MINIMAX_H3_TASK_PROFILES)" by (simp add: MINIMAX_H3_TASK_PROFILES_def)
  obtain rule where "rule_for profile_fl2va ''keyframe'' ''image'' = Inr rule" by (simp add: rule_for_def profile_defs)
  then show ?thesis using profile_rules m by blast
qed

section \<open>Admission\<close>

text \<open>A concrete environment for the witnesses: an image library that reads every file as a 640 by 480 PNG.\<close>

definition demo_io :: io_env where
  "demo_io = \<lparr>io_mkdtemp = (\<lambda>_. Inr ''/tmp/h3''), io_expanduser = Inr, io_urlopen = (\<lambda>_. Inl (OSError ''offline'')),
     io_probe = (\<lambda>fs. \<lparr>pv_image = (\<lambda>p. if is_file fs p then Some \<lparr>ii_width = 640, ii_height = 480, ii_format = ''PNG'',
         ii_display_width = 640, ii_display_height = 480\<rparr> else None),
       pv_ffprobe = (\<lambda>_ _. ProbeExit []), pv_trig = (\<lambda>_. (Fin 1, Fin 0))\<rparr>)\<rparr>"

definition demo_material :: material_state where
  "demo_material = \<lparr>ms_fs = [''cat.png'' \<mapsto> File [1]], ms_registry = None, ms_cache = None, ms_probe = None, ms_memo = None\<rparr>"

definition demo_canonical :: "string \<Rightarrow> pydict" where
  "demo_canonical uri = [(''schema'', PStr ''minimax_h3.request/v1''), (''task'', PStr ''fl2va''), (''prompt'', PStr ''a cat''),
     (''conditions'', PList (map PDict [[(''type'', PStr ''image''), (''uri'', PStr uri),
        (''role'', PStr ''keyframe''), (''frame_index'', PInt (- 1))]])),
     (''target'', PDict [(''short_edge'', PInt 768), (''aspect_ratio'', PStr ''auto''), (''duration_seconds'', PFloat (Fin 5))]),
     (''seed'', PInt 7)]"

definition demo_batch :: "string \<Rightarrow> queue_batch" where
  "demo_batch uri = \<lparr>qb_material = demo_material, qb_extra = [(MINIMAX_H3_CANONICAL_REQUEST_EXTRA_KEY, EVal (PDict (demo_canonical uri)))],
     qb_probe_facts = None, qb_material_shapes = None, qb_width = None, qb_height = None, qb_fps = None, qb_num_frames = None\<rparr>"

lemma fst_Inr_E: "\<not> isl (fst p) \<Longrightarrow> (\<And>x t. p = (Inr x, t) \<Longrightarrow> thesis) \<Longrightarrow> thesis"
  by (cases p; cases "fst p") auto

lemma fst_Inl_E: "isl (fst p) \<Longrightarrow> (\<And>x t. p = (Inl x, t) \<Longrightarrow> thesis) \<Longrightarrow> thesis"
  by (cases p; cases "fst p") auto

lemma demo_ok: "registry_ok demo_material" "mkdtemp_ok demo_io"
  by (simp_all add: registry_ok_def owned_def demo_material_def set_default_def dget_or_def mkdtemp_ok_def demo_io_def normal_dir_def
      path_str_def path_parts_def starts_with_def Let_def)

text \<open>The validated request of the demonstration.\<close>

definition demo_target :: pydict where
  "demo_target = [(''short_edge'', PInt 768), (''aspect_ratio'', PStr ''auto''), (''duration_seconds'', PFloat (Fin 5))]"

lemma demo_request:
  "minimax_h3_validate_canonical_request (PStr ''fl2va'') (PStr ''a cat'')
     (PList [PDict [(''role'', PStr ''keyframe''), (''type'', PStr ''image''), (''uri'', PStr ''cat.png''),
        (''frame_index'', PInt (- 1))]])
     (PDict [(''short_edge'', PInt 768), (''aspect_ratio'', PStr ''auto''), (''duration_seconds'', PInt 5)])
     PNone PNone (PInt 7) = Inr (demo_canonical ''cat.png'')"
  "dget (demo_canonical ''cat.png'') ''target'' = PDict demo_target"
  "dget demo_target ''aspect_ratio'' = PStr ''auto''" "ratio_known ''auto''" "dget demo_target ''short_edge'' = PInt 768"
  "(768::int) \<le> 2 ^ 50"
proof -
  show "minimax_h3_validate_canonical_request (PStr ''fl2va'') (PStr ''a cat'')
     (PList [PDict [(''role'', PStr ''keyframe''), (''type'', PStr ''image''), (''uri'', PStr ''cat.png''),
        (''frame_index'', PInt (- 1))]])
     (PDict [(''short_edge'', PInt 768), (''aspect_ratio'', PStr ''auto''), (''duration_seconds'', PInt 5)])
     PNone PNone (PInt 7) = Inr (demo_canonical ''cat.png'')" unfolding demo_canonical_def by code_simp
qed (simp_all add: dget_def ratio_known_def demo_canonical_def demo_target_def)

lemma demo_extra:
  "map_of (qb_extra (demo_batch ''cat.png'')) MINIMAX_H3_RESOLVED_PLAN_EXTRA_KEY = None"
  "map_of (qb_extra (demo_batch ''cat.png'')) MINIMAX_H3_CANONICAL_REQUEST_EXTRA_KEY = Some (EVal (PDict (demo_canonical ''cat.png'')))"
  by (simp_all add: demo_batch_def MINIMAX_H3_RESOLVED_PLAN_EXTRA_KEY_def MINIMAX_H3_CANONICAL_REQUEST_EXTRA_KEY_def)

text \<open>C1: when a validated request is admitted, the batch holds its final workload: width and height are those of
  the frozen plan, lie on the 32 pixel grid and within the canvas bounds; the frame count is on the \<open>17 n + 5\<close> grid
  between 107 and 362 at 24 frames per second. Every later look-up of the plan returns the frozen one, every material
  has its probed facts, and no directory is left to the encoder stage's owner.\<close>

theorem admitted_workload:
  assumes "minimax_h3_validate_canonical_request task prompt conditions target flow audio seed = Inr canonical"
    and "dget canonical ''target'' = PDict tg" and "dget tg ''aspect_ratio'' = PStr ar" and "ratio_known ar"
    and "dget tg ''short_edge'' = PInt se" and "se \<le> 2 ^ 50"
    and "map_of (qb_extra b) MINIMAX_H3_RESOLVED_PLAN_EXTRA_KEY = None"
    and "map_of (qb_extra b) MINIMAX_H3_CANONICAL_REQUEST_EXTRA_KEY = Some (EVal (PDict canonical))"
    and "minimax_h3_prepare_for_queue env b = (Inr plan, t)"
  shows "workload_ok t (rp_shape plan) \<and>
     minimax_h3_plan_from_batch (DictExtra (qb_extra t)) = Inr (Some plan, DictExtra (qb_extra t)) \<and>
     (\<forall>m \<in> set (rp_materials plan). map_of (set_default (qb_probe_facts t) []) (mi_condition_index m) \<noteq> None) \<and>
     owned (qb_material t) ''material'' = []"
proof (intro conjI)
  show "workload_ok t (rp_shape plan)"
    by (rule admission_workload[OF assms(9)]) (use validated_plan_sound[OF assms(1-8)] in blast)
  obtain p0 facts shape b1 b2 where A: "probe_all env p0 b1 = (Inr facts, b2)" "plan = replace_plan_shape p0 shape"
    "qb_probe_facts t = Some facts"
    "qb_material t = preserve_prequeue_material_dirs (qb_material b2)"
    by (rule admission_returns[OF assms(9)])
  show "minimax_h3_plan_from_batch (DictExtra (qb_extra t)) = Inr (Some plan, DictExtra (qb_extra t))"
    by (rule admitted_fixed(4)[OF assms(9)]) (use validated_plan_sound[OF assms(1-8)] in blast)
  show "\<forall>m \<in> set (rp_materials plan). map_of (set_default (qb_probe_facts t) []) (mi_condition_index m) \<noteq> None"
    using probe_all_complete[OF A(1)] by (simp add: A(2,3) set_default_def)
  show "owned (qb_material t) ''material'' = []" by (simp add: A(4) preserve_no_material)
qed

theorem admitted_workload_witness:
  "\<exists>plan t. minimax_h3_prepare_for_queue demo_io (demo_batch ''cat.png'') = (Inr plan, t) \<and>
     workload_ok t (rp_shape plan) \<and> owned (qb_material t) ''material'' = []"
proof -
  let ?u = "''cat.png''"
  have "\<not> isl (fst (minimax_h3_prepare_for_queue demo_io (demo_batch ?u)))" by code_simp
  then obtain plan t where r: "minimax_h3_prepare_for_queue demo_io (demo_batch ?u) = (Inr plan, t)" by (rule fst_Inr_E)
  show ?thesis using admitted_workload[OF demo_request demo_extra r] r by blast
qed

text \<open>C9: when admission raises, at whatever step, every file that exists afterwards existed before with the
  same content, and the request keeps no temporary directory, no material or probe cache, no probed facts and no
  material shapes. It is assumed that \<^verbatim>\<open>tempfile.mkdtemp\<close> returns a normalised absolute path.\<close>

theorem admission_failure_clean:
  assumes "minimax_h3_prepare_for_queue env b = (Inl e, t)" and "registry_ok (qb_material b)" and "mkdtemp_ok env"
  shows "no_new_files (qb_material b) (qb_material t) \<and> ms_registry (qb_material t) = None \<and>
     ms_cache (qb_material t) = None \<and> ms_probe (qb_material t) = None \<and> qb_probe_facts t = None \<and> qb_material_shapes t = None"
  using admission_fails[OF assms] by simp

theorem admission_failure_clean_witness:
  "\<exists>e t. minimax_h3_prepare_for_queue demo_io (demo_batch ''s3://bucket/cat.png'') = (Inl e, t) \<and>
     no_new_files demo_material (qb_material t) \<and> qb_probe_facts t = None"
proof -
  have "isl (fst (minimax_h3_prepare_for_queue demo_io (demo_batch ''s3://bucket/cat.png'')))" by code_simp
  then obtain e t where r: "minimax_h3_prepare_for_queue demo_io (demo_batch ''s3://bucket/cat.png'') = (Inl e, t)"
    by (rule fst_Inl_E)
  have "registry_ok (qb_material (demo_batch ''s3://bucket/cat.png''))" using demo_ok by (simp add: demo_batch_def)
  from admission_failure_clean[OF r this demo_ok(2)] show ?thesis using r by (auto simp: demo_batch_def)
qed

text \<open>C17: localising a condition either returns the path of a file that exists, is not empty and has probed facts,
  and then a second call returns the same path and changes nothing; or it raises and leaves no new file, no new
  entry in the cache of localised paths, and the table of probed facts as it was.\<close>

theorem localize_spec:
  assumes "minimax_h3_localize_material_uri env uri ct i s = (r, t)"
  shows "case r of
      Inr p \<Rightarrow> localised t uri ct p \<and> minimax_h3_localize_material_uri env uri ct i t = (Inr p, t)
    | Inl e \<Rightarrow> no_new_files s t \<and> no_new_entries s t"
  using assms localize_returns localize_raises by (cases r) auto

theorem localize_spec_witness:
  "\<exists>p t. minimax_h3_localize_material_uri demo_io ''cat.png'' ''image'' 3 demo_material = (Inr p, t) \<and>
     localised t ''cat.png'' ''image'' p \<and> minimax_h3_localize_material_uri demo_io ''cat.png'' ''image'' 3 t = (Inr p, t)"
proof -
  have "\<not> isl (fst (minimax_h3_localize_material_uri demo_io ''cat.png'' ''image'' 3 demo_material))" by code_simp
  then obtain p t where r: "minimax_h3_localize_material_uri demo_io ''cat.png'' ''image'' 3 demo_material = (Inr p, t)"
    by (rule fst_Inr_E)
  show ?thesis using localize_spec[OF r] r by auto
qed

text \<open>Cleaning up all owners removes everything below a registered directory, leaves every other path as it
  was, forgets the registry and both caches, and does nothing more the second time.\<close>

theorem cleanup_spec:
  assumes "distinct (map fst (set_default (ms_registry s) []))"
  shows "(\<forall>d q. d \<in> registered s \<and> ms_fs s d = Some Dir \<and> path_under d q \<longrightarrow> ms_fs (minimax_h3_cleanup_temp_dirs None s) q = None) \<and>
     (\<forall>q. (\<forall>d \<in> registered s. \<not> path_under d q) \<longrightarrow> ms_fs (minimax_h3_cleanup_temp_dirs None s) q = ms_fs s q) \<and>
     ms_registry (minimax_h3_cleanup_temp_dirs None s) = None \<and>
     minimax_h3_cleanup_temp_dirs None (minimax_h3_cleanup_temp_dirs None s) = minimax_h3_cleanup_temp_dirs None s"
proof -
  have "ms_registry (minimax_h3_cleanup_temp_dirs None s) = None" by (simp add: cleanup_all[OF assms])
  then show ?thesis using cleanup_files[OF assms] cleanup_twice[OF assms] by blast
qed

theorem cleanup_spec_witness:
  "ms_fs (minimax_h3_cleanup_temp_dirs None (demo_material\<lparr>ms_fs := (\<lambda>p. if p = ''/tmp/h3'' then Some Dir else Some (File [1])),
      ms_registry := Some [(''material'', [''/tmp/h3''])]\<rparr>)) ''/tmp/h3/a.png'' = None"
proof -
  let ?s = "demo_material\<lparr>ms_fs := (\<lambda>p. if p = ''/tmp/h3'' then Some Dir else Some (File [1])),
      ms_registry := Some [(''material'', [''/tmp/h3''])]\<rparr>"
  have d: "distinct (map fst (set_default (ms_registry ?s) []))" by (simp add: set_default_def)
  have "''/tmp/h3'' \<in> registered ?s \<and> ms_fs ?s ''/tmp/h3'' = Some Dir \<and> path_under ''/tmp/h3'' ''/tmp/h3/a.png''"
    by (simp add: registered_def set_default_def path_under_def starts_with_def)
  then show ?thesis using cleanup_spec[OF d] by blast
qed

section \<open>Reference encoding\<close>

text \<open>C35: a reference image with integer sides up to \<open>2 ^ 40\<close> gets a target whose short edge is exactly 2048 and
  whose sides are multiples of 32, at most 8192, and within 17 pixels of the exactly scaled side, in spite of three
  roundings to binary64; when one side is more than four times the other, the ratio error is raised.\<close>

theorem reference_image_shape:
  assumes "1 \<le> w" "w \<le> 2 ^ 40" "1 \<le> h" "h \<le> 2 ^ 40"
  shows "if w \<le> 4 * h \<and> h \<le> 4 * w
     then \<exists>tw th. minimax_h3_resolve_reference_image_shape (PInt w) (PInt h) = Inr (reference_shape_dict tw th) \<and> min tw th = 2048 \<and>
       (\<forall>(x, t) \<in> {(w, tw), (h, th)}. 32 dvd t \<and> 2048 \<le> t \<and> t \<le> 8192 \<and>
          \<bar>of_int t - 2048 * (of_int x / of_int (min w h))\<bar> \<le> (17 :: rat))
     else minimax_h3_resolve_reference_image_shape (PInt w) (PInt h) =
       Inl (ValueError ''reference image ratio must be within the inclusive range 1:4 to 4:1'')"
  using reference_image_shape_int[OF assms] reference_image_ratio_error[OF assms]
  by (auto simp: on_grid_def not_le simp del: of_int_min)

theorem reference_image_shape_witness:
  "\<exists>tw th. minimax_h3_resolve_reference_image_shape (PInt 1920) (PInt 1080) = Inr (reference_shape_dict tw th) \<and> min tw th = 2048"
  using reference_image_shape[of 1920 1080] by auto

text \<open>C36: however uses of the context are nested and sequenced, and whether the encodes raise or not, every
  encode inside a block runs under the deterministic flags, and afterwards the flags, the depth and the saved tuple
  are what they were.\<close>

theorem determinism_restored:
  assumes "context_ok s" and "uses_context True (determinism_enter True s) xs r t" and "determinism_exit True t = (x, u)"
  shows "x = Inr () \<and> u = s \<and> set xs \<subseteq> {deterministic_flags}"
  using uses_context_restores[OF assms(2) enter_ok[OF assms(1)]] exit_enter[OF assms(1), of True] enter_inside[OF assms(1)] assms(3)
  by auto

theorem determinism_restored_witness:
  "\<exists>x u. determinism_exit True (determinism_enter True
       \<lparr>flags = deterministic_flags\<lparr>cudnn_enabled := True\<rparr>, depth = 0, saved = None\<rparr>) = (x, u) \<and>
     u = \<lparr>flags = deterministic_flags\<lparr>cudnn_enabled := True\<rparr>, depth = 0, saved = None\<rparr>"
proof -
  let ?s = "\<lparr>flags = deterministic_flags\<lparr>cudnn_enabled := True\<rparr>, depth = 0, saved = None\<rparr> :: determinism_state"
  let ?e = "determinism_enter True ?s"
  have "uses_context True ?e [flags ?e] (Inr ()) ?e" by (rule uses_encode)
  moreover obtain x u where "determinism_exit True ?e = (x, u)" by (cases "determinism_exit True ?e")
  moreover have "context_ok ?s" by (simp add: context_ok_def)
  ultimately show ?thesis using determinism_restored by blast
qed


section \<open>Keyframes on the canvas\<close>

text \<open>C26: with all four sides between 1 and \<open>2 ^ 20\<close>, the cover-crop plan either raises, exactly when the canvas is
  larger than the source along one side and upscaling is not allowed, or is a plan whose resized image covers the
  canvas, equals it along one side, differs from the exact scaling by at most one pixel along both, and whose crop box
  has the size of the canvas and lies in the middle of the resized image, the margins on opposite sides equal or the
  second one pixel wider. The scale is a rounded binary64 quotient.\<close>

theorem cover_crop:
  assumes "sides_ok sw sh tw th"
  shows "if allow_upscale \<or> tw \<le> sw \<and> th \<le> sh
     then \<exists>plan. minimax_h3_cover_crop_plan sw sh tw th allow_upscale = Inr plan \<and> covers sw sh tw th plan
     else minimax_h3_cover_crop_plan sw sh tw th allow_upscale =
       Inl (ValueError ''target_canvas cover_crop would upscale the source; set allow_upscale=true'')"
  by (rule cover_crop_plan_covers[OF assms])

theorem cover_crop_witness:
  "(\<exists>plan. minimax_h3_cover_crop_plan 640 480 1344 768 True = Inr plan \<and> covers 640 480 1344 768 plan) \<and>
   minimax_h3_cover_crop_plan 640 480 1344 768 False =
       Inl (ValueError ''target_canvas cover_crop would upscale the source; set allow_upscale=true'')"
  using cover_crop[of 640 480 1344 768 True] cover_crop[of 640 480 1344 768 False] by (simp add: sides_ok_def)

text \<open>A concrete image library: an image is its size, every file is 640 by 480.\<close>

definition demo_pil :: "(int \<times> int) pil" where
  "demo_pil = \<lparr>pil_open = (\<lambda>_ _. Inr (640, 480)), pil_exif_transpose = Inr,
     pil_rgb = (\<lambda>(w, h). if 0 < w \<and> w \<le> 2 ^ 20 \<and> 0 < h \<and> h \<le> 2 ^ 20 then Inr (w, h) else Inl (OSError ''image'')),
     pil_size = id, pil_resize = (\<lambda>_ s. s), pil_crop = (\<lambda>_ (l, t, r, b). (r - l, b - t))\<rparr>"

lemma demo_pil_laws: "pil_laws demo_pil"
  by (auto simp: pil_laws_def demo_pil_def split: if_splits)

lemma demo_admissible: "admissible (demo_canonical ''cat.png'') (demo_batch ''cat.png'')"
proof -
  let ?u = "''cat.png''"
  have v: "minimax_h3_validate_canonical_request (PStr ''fl2va'') (PStr ''a cat'')
     (PList [PDict [(''role'', PStr ''keyframe''), (''type'', PStr ''image''), (''uri'', PStr ?u),
        (''frame_index'', PInt (- 1))]])
     (PDict [(''short_edge'', PInt 768), (''aspect_ratio'', PStr ''auto''), (''duration_seconds'', PInt 5)])
     PNone PNone (PInt 7) = Inr (demo_canonical ?u)" unfolding demo_canonical_def by code_simp
  have "dget (demo_canonical ?u) ''target'' = PDict [(''short_edge'', PInt 768), (''aspect_ratio'', PStr ''auto''), (''duration_seconds'', PFloat (Fin 5))]"
    by (simp add: dget_def demo_canonical_def)
  moreover have "ratio_known ''auto''" by (simp add: ratio_known_def)
  moreover have "map_of (qb_extra (demo_batch ?u)) MINIMAX_H3_RESOLVED_PLAN_EXTRA_KEY = None"
    "map_of (qb_extra (demo_batch ?u)) MINIMAX_H3_CANONICAL_REQUEST_EXTRA_KEY = Some (EVal (PDict (demo_canonical ?u)))"
    by (simp_all add: demo_batch_def MINIMAX_H3_RESOLVED_PLAN_EXTRA_KEY_def MINIMAX_H3_CANONICAL_REQUEST_EXTRA_KEY_def)
  ultimately show ?thesis using v unfolding admissible_def
    by (intro conjI exI[of _ "PStr ''fl2va''"] exI) (assumption | simp add: dget_def)+
qed

text \<open>C3: let a validated request with keyframes be admitted. Preparing its keyframes then fails only
  with an error of localising, opening, transposing or converting one of the images, and leaves no cached result; no
  check of the plan, the shapes or the probed facts rejects it. When it returns, every prepared image has exactly the
  width and height admission froze, the entries follow the plan's keyframes, the pixel index of an anchor is the index
  itself or the last frame for \<open>-1\<close>, and preparing again returns the same result from the cache. The image library is
  assumed to decode to sides up to \<open>2 ^ 20\<close> and to resize and crop to the requested size.\<close>

theorem keyframes_on_canvas:
  assumes "admissible canonical b" and "minimax_h3_prepare_for_queue env b = (Inr plan, t)"
    and "keyframe_materials plan \<noteq> []" and "cb_batch cb = t" and "cb_prepared cb = None" and "pil_laws pil"
  shows "\<exists>W H. qb_width t = Some W \<and> qb_height t = Some H \<and>
    (case minimax_h3_prepared_keyframes env pil plan cb of
       (Inl e, cb') \<Rightarrow> cb_prepared cb' = None \<and>
         (\<exists>m \<in> set (keyframe_materials plan). \<exists>s. decoding_fails env pil m e s cb')
     | (Inr payload, cb') \<Rightarrow> keyframes_prepared pil plan (W, H) payload \<and>
         minimax_h3_prepared_keyframes env pil plan cb' = (Inr payload, cb'))"
proof -
  obtain W H where K: "qb_width t = Some W" "qb_height t = Some H"
    "\<forall>e cb'. minimax_h3_prepared_keyframes env pil plan cb = (Inl e, cb') \<longrightarrow> cb_prepared cb' = None \<and>
       (\<exists>m \<in> set (keyframe_materials plan). \<exists>s. decoding_fails env pil m e s cb')"
    "\<forall>payload cb'. minimax_h3_prepared_keyframes env pil plan cb = (Inr payload, cb') \<longrightarrow>
       keyframes_prepared pil plan (W, H) payload \<and> minimax_h3_prepared_keyframes env pil plan cb' = (Inr payload, cb')"
    by (rule prepared_keyframes_admitted[OF assms])
  obtain q cb' where q: "minimax_h3_prepared_keyframes env pil plan cb = (q, cb')" by fastforce
  show ?thesis
  proof (cases q)
    case (Inl e)
    have "cb_prepared cb' = None \<and> (\<exists>m \<in> set (keyframe_materials plan). \<exists>s. decoding_fails env pil m e s cb')"
      using K(3) q unfolding Inl by blast
    then show ?thesis using K(1,2) unfolding q Inl prod.case sum.case by blast
  next
    case (Inr payload)
    have "keyframes_prepared pil plan (W, H) payload \<and> minimax_h3_prepared_keyframes env pil plan cb' = (Inr payload, cb')"
      using K(4) q unfolding Inr by blast
    then show ?thesis using K(1,2) unfolding q Inr prod.case sum.case by blast
  qed
qed

theorem keyframes_on_canvas_witness:
  "\<exists>plan t W H payload cb'. minimax_h3_prepare_for_queue demo_io (demo_batch ''cat.png'') = (Inr plan, t) \<and>
     qb_width t = Some W \<and> qb_height t = Some H \<and>
     minimax_h3_prepared_keyframes demo_io demo_pil plan \<lparr>cb_batch = t, cb_prepared = None\<rparr> = (Inr payload, cb') \<and>
     keyframes_prepared demo_pil plan (W, H) payload"
proof -
  have "case minimax_h3_prepare_for_queue demo_io (demo_batch ''cat.png'') of
      (Inr plan, t) \<Rightarrow> keyframe_materials plan \<noteq> [] \<and>
        \<not> isl (fst (minimax_h3_prepared_keyframes demo_io demo_pil plan \<lparr>cb_batch = t, cb_prepared = None\<rparr>))
    | _ \<Rightarrow> False" by code_simp
  then obtain plan t where r: "minimax_h3_prepare_for_queue demo_io (demo_batch ''cat.png'') = (Inr plan, t)"
    and k: "keyframe_materials plan \<noteq> []"
    and n: "\<not> isl (fst (minimax_h3_prepared_keyframes demo_io demo_pil plan \<lparr>cb_batch = t, cb_prepared = None\<rparr>))"
    by (auto split: prod.splits sum.splits)
  obtain payload cb' where p: "minimax_h3_prepared_keyframes demo_io demo_pil plan \<lparr>cb_batch = t, cb_prepared = None\<rparr> = (Inr payload, cb')"
    using n by (rule fst_Inr_E)
  show ?thesis
    using keyframes_on_canvas[OF demo_admissible r k _ _ demo_pil_laws, of "\<lparr>cb_batch = t, cb_prepared = None\<rparr>"] r p by auto
qed

section \<open>Requests and deliveries\<close>

text \<open>C19: a request is lowered if and only if it is accepted: the task is exactly one of the three supported names, an
  audio shift is a number or numeral whose float is positive and finite, a quality is one of the levels, and no
  guidance, timing, interpolation, upscaling or other output field is set. Field by field, the lowered arguments are
  the requested task, the checked shift and quality, the JSON-decoded model fields, nothing for the timing and guidance
  fields, and the given keyword argument for every other name.\<close>

theorem lowered_request:
  "case lower_video_request_kwargs r kw of
     Inr out \<Rightarrow> \<exists>shift quality. request_accepted r kw shift quality \<and> map_of out = lowered_field r kw shift quality
   | Inl e \<Rightarrow> \<forall>shift quality. \<not> request_accepted r kw shift quality"
proof (cases "lower_video_request_kwargs r kw")
  case (Inl e)
  then show ?thesis using lower_request_accepted by fastforce
next
  case (Inr out)
  then show ?thesis using lower_request_Inr[OF Inr] by simp
qed






text \<open>Metadata accepted from a model index declares a non-empty list of distinct tasks of its own partition and only
  aliases that name themselves. It therefore serves a task exactly when its stripped lower-case form is declared,
  resolves it to that form, and refuses every other task with the same error; the check that a resolved task lies in
  the partition never fails.\<close>

theorem served_tasks:
  assumes "from_model_index index = Inr m"
  shows "metadata_ok m \<and> canonical_task m task = (if lower (strip task) \<in> set (rm_tasks m) then Inr (lower (strip task))
     else Inl (ValueError ''task is not served by MiniMax H3 partition''))"
  using from_model_index_ok[OF assms] canonical_task_iff by blast

definition demo_index :: pydict where
  "demo_index = [(''_minimax_h3'', PDict [(''schema_version'', PInt 1), (''partition'', PStr ''fl2va''),
     (''tasks'', PList [PStr ''t2va'', PStr ''fl2va'']),
     (''sigma_shift_scales'', PDict [(''video'', PInt 12), (''audio'', PFloat (Fin 3))])])]"

definition demo_metadata :: release_metadata where
  "demo_metadata = \<lparr>rm_schema_version = 1, rm_partition = ''fl2va'', rm_tasks = [''t2va'', ''fl2va''], rm_task_aliases = [],
     rm_video_sigma_shift = Fin 12, rm_audio_sigma_shift = Fin 3\<rparr>"

lemma demo_index_metadata: "from_model_index demo_index = Inr demo_metadata"
  unfolding demo_metadata_def by code_simp

theorem served_tasks_witness:
  "metadata_ok demo_metadata \<and> canonical_task demo_metadata '' T2VA '' = Inr ''t2va'' \<and>
   canonical_task demo_metadata ''ref2va'' = Inl (ValueError ''task is not served by MiniMax H3 partition'')"
proof -
  have n: "lower (strip '' T2VA '') = ''t2va''" "lower (strip ''ref2va'') = ''ref2va''" by code_simp+
  show ?thesis
    using served_tasks[OF demo_index_metadata, of "'' T2VA ''"] served_tasks[OF demo_index_metadata, of "''ref2va''"]
    unfolding n by (simp add: demo_metadata_def)
qed

text \<open>C24: an admitted request passes the admission stage only if the metadata serves its task, it asks for at least
  two steps and, with online AdaLN, for no more plans than the slab holds, and its quality is a level. If the quality is
  high and it is no warm-up, the deployment passes the deployment check, and the workload admission froze is exactly
  the audited one: task \<open>t2va\<close>, 1344 by 768 pixels, 124 frames, 50 steps. The stage leaves the batch as it was.\<close>

theorem quality_high_exact:
  assumes "admissible canonical b" and "minimax_h3_prepare_for_queue env b = (Inr plan, t)"
    and "from_model_index index = Inr m" and "sb_batch s = t"
    and "stage_forward m online gpu_plans dep s = (Inr (), s')"
  shows "s' = s \<and> 2 \<le> sb_num_inference_steps s \<and> (online \<longrightarrow> sb_num_inference_steps s - 1 \<le> gpu_plans) \<and>
     (\<exists>task q. sb_task s = PStr task \<and> lower (strip task) \<in> set (rm_tasks m) \<and> sb_quality s = PStr q \<and> q \<in> set QUALITY_LEVELS \<and>
       (q = ''high'' \<and> \<not> sb_is_warmup s \<longrightarrow> validate_quality_deployment dep = Inr () \<and> rp_task plan = ''t2va'' \<and>
          qb_width t = Some 1344 \<and> qb_height t = Some 768 \<and> qb_num_frames t = Some 124 \<and> sb_num_inference_steps s = 50))"
proof -
  obtain task q where F: "sb_task s = PStr task" "lower (strip task) \<in> set (rm_tasks m)" "2 \<le> sb_num_inference_steps s"
    "online \<longrightarrow> sb_num_inference_steps s - 1 \<le> gpu_plans" "sb_quality s = PStr q" "q \<in> set QUALITY_LEVELS"
    "if q = ''high'' \<and> \<not> sb_is_warmup s then check_quality dep s = (Inr (), s') else s' = s"
    by (rule stage_forward_Inr[OF from_model_index_ok[OF assms(3)] assms(5)])
  show ?thesis
  proof (cases "q = ''high'' \<and> \<not> sb_is_warmup s")
    case True
    then have "check_quality dep s = (Inr (), s')" using F(7) by simp
    from quality_high_workload[OF assms(1,2,4) this] show ?thesis using F(1-6) by blast
  qed (use F in auto)
qed

text \<open>The audited workload is reachable: a five-second 16:9 request on four H200 devices.\<close>

definition audit_canonical :: pydict where
  "audit_canonical = [(''schema'', PStr ''minimax_h3.request/v1''), (''task'', PStr ''t2va''), (''prompt'', PStr ''a cat''),
     (''conditions'', PList []),
     (''target'', PDict [(''short_edge'', PInt 768), (''aspect_ratio'', PStr ''16:9''), (''duration_seconds'', PFloat (Fin 5))])]"

definition audit_batch :: queue_batch where
  "audit_batch = (demo_batch [])\<lparr>qb_extra := [(MINIMAX_H3_CANONICAL_REQUEST_EXTRA_KEY, EVal (PDict audit_canonical))]\<rparr>"

definition audit_deployment :: deployment where
  "audit_deployment = \<lparr>dl_attention_backend = PStr ''FA'', dl_model_variant = PNone, dl_component_attention_backends = PNone,
     dl_args = [(''backend'', PStr ''auto''), (''enable_breakable_cuda_graph'', PBool False), (''enable_torch_compile'', PBool False),
       (''is_dit_layerwise_offload_selected'', PBool False), (''num_gpus'', PInt 4), (''performance_mode'', PStr ''speed''),
       (''quantization'', PNone), (''transformer_weights_path'', PNone), (''text_encoder_quantization'', PNone),
       (''regional_compile'', PBool False), (''ring_degree'', PInt 1), (''sp_degree'', PInt 4), (''tp_size'', PInt 1),
       (''ulysses_degree'', PInt 4), (''use_fsdp_inference'', PBool False)],
     dl_is_cuda = True, dl_device_name = ''NVIDIA H200'', dl_capability = Some 90\<rparr>"

definition audit_stage :: "queue_batch \<Rightarrow> stage_batch" where
  "audit_stage t = \<lparr>sb_batch = t, sb_task = PStr ''t2va'', sb_quality = PStr ''high'', sb_num_inference_steps = 50, sb_is_warmup = False\<rparr>"

lemma audit_admissible: "admissible audit_canonical audit_batch"
proof -
  have v: "minimax_h3_validate_canonical_request (PStr ''t2va'') (PStr ''a cat'') (PList [])
     (PDict [(''short_edge'', PInt 768), (''aspect_ratio'', PStr ''16:9''), (''duration_seconds'', PInt 5)])
     PNone PNone PNone = Inr audit_canonical" unfolding audit_canonical_def by code_simp
  have "dget audit_canonical ''target'' = PDict [(''short_edge'', PInt 768), (''aspect_ratio'', PStr ''16:9''), (''duration_seconds'', PFloat (Fin 5))]"
    by (simp add: dget_def audit_canonical_def)
  moreover have "ratio_known ''16:9''" by code_simp
  moreover have "map_of (qb_extra audit_batch) MINIMAX_H3_RESOLVED_PLAN_EXTRA_KEY = None"
    "map_of (qb_extra audit_batch) MINIMAX_H3_CANONICAL_REQUEST_EXTRA_KEY = Some (EVal (PDict audit_canonical))"
    by (simp_all add: audit_batch_def MINIMAX_H3_RESOLVED_PLAN_EXTRA_KEY_def MINIMAX_H3_CANONICAL_REQUEST_EXTRA_KEY_def)
  ultimately show ?thesis using v unfolding admissible_def
    by (intro conjI exI[of _ "PStr ''t2va''"] exI) (assumption | simp add: dget_def)+
qed

theorem quality_high_exact_witness:
  "\<exists>plan t. minimax_h3_prepare_for_queue demo_io audit_batch = (Inr plan, t) \<and>
     stage_forward demo_metadata True 64 audit_deployment (audit_stage t) = (Inr (), audit_stage t) \<and>
     qb_width t = Some 1344 \<and> qb_height t = Some 768 \<and> qb_num_frames t = Some 124"
proof -
  have "case minimax_h3_prepare_for_queue demo_io audit_batch of
      (Inr plan, t) \<Rightarrow> \<not> isl (fst (stage_forward demo_metadata True 64 audit_deployment (audit_stage t))) | _ \<Rightarrow> False" by code_simp
  then obtain plan t where r: "minimax_h3_prepare_for_queue demo_io audit_batch = (Inr plan, t)"
    and n: "\<not> isl (fst (stage_forward demo_metadata True 64 audit_deployment (audit_stage t)))"
    by (auto split: prod.splits sum.splits)
  obtain u s' where m: "stage_forward demo_metadata True 64 audit_deployment (audit_stage t) = (Inr u, s')" using n by (rule fst_Inr_E)
  have "sb_batch (audit_stage t) = t" by (simp add: audit_stage_def)
  from quality_high_exact[OF audit_admissible r demo_index_metadata this, of True 64 audit_deployment s'] m r
  show ?thesis by (auto simp: audit_stage_def)
qed


section \<open>The AdaLN cache\<close>

text \<open>A small model: the embedding of a plan is the plan, and a layer adds its number to every timestep.\<close>

definition demo_adaln :: "(plan_key, int) adaln_env" where
  "demo_adaln = \<lparr>ae_embed = Inr, ae_project = (\<lambda>l x. Inr (\<lambda>i. uint (x ! i) + int l)),
     ae_copy = (\<lambda>_ _. Inr ())\<rparr>"

definition demo_slab :: "int adaln_cache" where
  "demo_slab = load_rebuild 1 2 0 0 1 (host_init 0 2 (\<lambda>_ _. 0))"

lemma demo_slab_reach: "adaln_reach 1 2 0 demo_adaln demo_slab"
  unfolding demo_slab_def by (rule adaln_reach.start)

text \<open>A history that evicts a plan from the slab; it stays in the host tier.\<close>

definition demo_served :: "int adaln_cache" where
  "demo_served = snd (prepare_adaln_plans demo_adaln True [[3]] (snd (prepare_adaln_plans demo_adaln True [[4]] demo_slab)))"

lemma demo_served_reach: "adaln_reach 1 2 0 demo_adaln demo_served"
proof -
  have e: "\<forall>k \<in> set keys. \<exists>x. ae_embed demo_adaln k = Inr x" for keys by (simp add: demo_adaln_def)
  have cp: "demo_adaln\<lparr>ae_copy := ae_copy demo_adaln\<rparr> = demo_adaln" by simp
  note step = adaln_reach.request[where cp = "ae_copy demo_adaln" and env = demo_adaln, unfolded cp]
  show ?thesis unfolding demo_served_def by (rule step[OF step[OF demo_slab_reach e surjective_pairing] e surjective_pairing])
qed

text \<open>C4: after any history of a rebuilt cache (requests that were served, requests that failed in a projection
  or in a copy from the host tier, and weight swaps that invalidate it; in none did an embedding fail), let preparing a request whose timesteps can be embedded return slots. Then there
  is one slot for each step, it lies in the slab and carries the step's timesteps, and its row of every timestep and
  layer, the final layer included, is the value the embedding and the projection compute directly with the current
  weights, whether the plan was resident, came from the host tier or was projected anew. Two steps have the same
  slot exactly when they have the same timesteps.\<close>

theorem adaln_prepared:
  assumes reach: "adaln_reach p w L env c" and emb: "\<forall>k \<in> set keys. \<exists>x. ae_embed env k = Inr x"
    and run: "fst (prepare_adaln_plans env True keys c) = Inr slots" and c': "c' = snd (prepare_adaln_plans env True keys c)"
  shows "length slots = length keys \<and>
    (\<forall>j < length keys. slots ! j < p \<and> ac_lengths c' (slots ! j) = length (keys ! j) \<and>
       (\<forall>i < length (keys ! j). ac_timesteps c' (slots ! j) i = keys ! j ! i \<and>
          (\<forall>l \<le> L. plan_value env (keys ! j) i l = Some (ac_params c' (slots ! j) i l)))) \<and>
    (\<forall>j < length keys. \<forall>j' < length keys. slots ! j = slots ! j' \<longleftrightarrow> keys ! j = keys ! j')"
proof -
  have r: "prepare_adaln_plans env True keys c = (Inr slots, c')" using run c' by (metis prod.collapse)
  have R: "cache_inv env c \<and> ac_max_plans c = p \<and> ac_max_plan_width c = w \<and> ac_num_layers c = L" by (rule reach_inv[OF reach])
  note P = prepare_ok[OF conjunct1[OF R] emb r]
  have S: "slots ! j < p \<and> ac_lengths c' (slots ! j) = length (keys ! j) \<and> plan_ok env c' (keys ! j) (slots ! j)" if "j < length keys" for j
    using resolved_plan[of env c' keys "keys ! j"] P R that by simp
  have "slots ! j = slots ! j' \<longleftrightarrow> keys ! j = keys ! j'" if "j < length keys" "j' < length keys" for j j'
  proof
    assume eq: "slots ! j = slots ! j'"
    show "keys ! j = keys ! j'" by (rule nth_equalityI) (use S[OF that(1)] S[OF that(2)] eq in \<open>auto simp: plan_ok_def\<close>)
  qed (use P that in simp)
  moreover have "length slots = length keys" using P by auto
  ultimately show ?thesis using S P R by (simp add: plan_ok_def row_ok_def)
qed

theorem adaln_prepared_witness:
  "fst (prepare_adaln_plans demo_adaln True [[4], [4]] demo_served) = Inr [0, 0] \<and>
   (let c' = snd (prepare_adaln_plans demo_adaln True [[4], [4]] demo_served) in
    ac_timesteps c' 0 0 = 4 \<and> plan_value demo_adaln [4] 0 0 = Some (ac_params c' 0 0 0))"
proof -
  have run: "fst (prepare_adaln_plans demo_adaln True [[4], [4]] demo_served) = Inr [0, 0]" by code_simp
  have "\<forall>k \<in> set [[4], [4]]. \<exists>x. ae_embed demo_adaln k = Inr x" by (simp add: demo_adaln_def)
  note A = adaln_prepared[OF demo_served_reach this run refl]
  then show ?thesis using run A[THEN conjunct2, THEN conjunct1, rule_format, of 0] by (simp add: Let_def)
qed

text \<open>C10: after any such history (a rebuilt cache, no failed embedding), a request with at most as many distinct
  plans as the slab has slots, no plan wider than the slab, and embeddings, projections and host copies that succeed is
  prepared. In particular the slots reserved by earlier requests whose projection or copy raised are available again, and
  the reservation never pops an empty free list. A failed embedding would leak its slots (\<open>embed_failure_leaks\<close>).\<close>

theorem adaln_live:
  assumes reach: "adaln_reach p w L env c" and fit: "card (set keys) \<le> p" "\<forall>k \<in> set keys. length k \<le> w"
    and ok: "\<forall>k \<in> set keys. \<exists>x. ae_embed env k = Inr x \<and> (\<forall>l \<le> L. \<exists>rows. ae_project env l x = Inr rows)"
    and copies: "\<forall>s i. ae_copy env s i = Inr ()"
  shows "\<exists>slots. fst (prepare_adaln_plans env True keys c) = Inr slots"
proof -
  obtain r c' where r: "prepare_adaln_plans env True keys c = (r, c')" by fastforce
  have R: "cache_inv env c \<and> ac_max_plans c = p \<and> ac_max_plan_width c = w \<and> ac_num_layers c = L" by (rule reach_inv[OF reach])
  have "length (first_keys keys) = card (set keys)" by (metis distinct_card first_keys_simps)
  then have "fits c (first_keys keys)" using fit R by (simp add: fits_def)
  moreover have "\<not> projection_fails env L keys e" for e using ok by (fastforce simp: projection_fails_def)
  moreover have "\<not> copy_fails env e" for e using copies by (simp add: copy_fails_def)
  moreover have "\<forall>k \<in> set keys. \<exists>x. ae_embed env k = Inr x" using ok by blast
  ultimately show ?thesis using prepare_ok[OF conjunct1[OF R] _ r] R r by (cases r) auto
qed

theorem adaln_live_witness: "\<exists>slots. fst (prepare_adaln_plans demo_adaln True [[1, 2], [1, 2]] demo_served) = Inr slots"
  by (rule adaln_live[OF demo_served_reach]) (simp_all add: demo_adaln_def)

text \<open>C13: after any such history (a rebuilt cache, no failed embedding), the slots of the resident plans and the free slots together are each slot
  of the slab exactly once, and a free slot has length zero. In the host tier the pages of the plans and the free pages
  are each page exactly once; every stored plan has as many pages as timesteps, its reference count is positive and is
  the number of groups that contain it, and every plan of a group is stored.\<close>

theorem adaln_pages:
  assumes "adaln_reach p w L env c"
  shows "distinct (map fst (ac_slots c)) \<and> mset (map snd (ac_slots c) @ ac_free c) = mset [0..<p] \<and>
    (\<forall>s \<in> set (ac_free c). ac_lengths c s = 0) \<and>
    (\<forall>h. ac_host c = Some h \<longrightarrow>
       mset (concat (map (\<lambda>e. hp_pages (snd e)) (ht_plans h)) @ ht_free h) = mset [0..<ht_num_pages h] \<and>
       (\<forall>(k, plan) \<in> set (ht_plans h). length (hp_pages plan) = length k \<and> 0 < hp_refcount plan \<and>
          hp_refcount plan = int (length (filter (\<lambda>g. k \<in> set (snd g)) (ht_groups h)))) \<and>
       (\<forall>g \<in> set (ht_groups h). set (snd g) \<subseteq> fst ` set (ht_plans h)))"
proof -
  have R: "cache_inv env c \<and> ac_max_plans c = p \<and> ac_max_plan_width c = w \<and> ac_num_layers c = L" by (rule reach_inv[OF assms])
  then have s: "slots_inv env [] c" by (simp add: cache_inv_def)
  have "mset (concat (map (\<lambda>e. hp_pages (snd e)) (ht_plans h)) @ ht_free h) = mset [0..<ht_num_pages h] \<and>
       (\<forall>(k, plan) \<in> set (ht_plans h). length (hp_pages plan) = length k \<and> 0 < hp_refcount plan \<and>
          hp_refcount plan = int (length (filter (\<lambda>g. k \<in> set (snd g)) (ht_groups h)))) \<and>
       (\<forall>g \<in> set (ht_groups h). set (snd g) \<subseteq> fst ` set (ht_plans h))" if "ac_host c = Some h" for h
  proof -
    have "host_inv env (\<lambda>_. 0) h" using R that by (simp add: cache_inv_def)
    then show ?thesis using host_invD(2,3,5)[of env "\<lambda>_. 0" h] unfolding plan_pages_def group_count_def by fastforce
  qed
  then show ?thesis using slots_invD(1-3)[OF s] R by simp
qed

theorem adaln_pages_witness:
  "mset (map snd (ac_slots demo_served) @ ac_free demo_served) = mset [0..<1] \<and>
   (case ac_host demo_served of None \<Rightarrow> False | Some h \<Rightarrow> map fst (ht_plans h) = [[4], [3]] \<and>
      mset (concat (map (\<lambda>e. hp_pages (snd e)) (ht_plans h)) @ ht_free h) = mset [0..<2])"
proof -
  have h: "case ac_host demo_served of None \<Rightarrow> False | Some h \<Rightarrow> map fst (ht_plans h) = [[4], [3]] \<and> ht_num_pages h = 2"
    by code_simp
  note A = adaln_pages[OF demo_served_reach]
  show ?thesis
  proof (cases "ac_host demo_served")
    case (Some t)
    then show ?thesis using h A by simp
  qed (use h in simp)
qed

text \<open>C25: after any such history (a rebuilt cache, no failed embedding), let the host resolve a plan with at least one timestep and no NaN to a
  slot. Then the lookup on the device, which compares lengths and fp32 values over the whole slab, succeeds with the slot
  of a plan whose timesteps are equal as fp32 values; if no timestep is a zero, of which there are two, it is the same slot.\<close>

theorem adaln_lookup:
  assumes reach: "adaln_reach p w L env c" and "resolve_slots c [k] = Inr [s]" and "k \<noteq> []" and "\<forall>t \<in> set k. \<not> fp32_nan t"
  shows "(\<exists>s' k'. lookup_plan c k = Inr s' \<and> resolve_slots c [k'] = Inr [s'] \<and> list_all2 fp32_eq k' k) \<and>
    ((\<forall>t \<in> set k. fp32_magnitude t \<noteq> 0) \<longrightarrow> lookup_plan c k = Inr s)"
proof -
  have inv: "cache_inv env c" using reach_inv[OF reach] by blast
  have r: "resolve_slots c [k] = Inr [s] \<longleftrightarrow> map_of (ac_slots c) k = Some s" for k s
    by (auto simp: resolve_slots_def split: option.splits)
  show ?thesis using lookup_resident[OF inv _ assms(3,4)] lookup_resolves[OF inv _ assms(3)] assms(2,4) unfolding r by blast
qed

theorem adaln_lookup_witness: "resolve_slots demo_served [[3]] = Inr [0] \<and> lookup_plan demo_served [3] = Inr 0"
proof -
  have r: "resolve_slots demo_served [[3]] = Inr [0]" by code_simp
  have n: "\<not> fp32_nan 3" "fp32_magnitude 3 \<noteq> 0" by (simp_all add: fp32_nan_def fp32_magnitude_def)
  then show ?thesis using adaln_lookup[OF demo_served_reach r] r by simp
qed

text \<open>C37: the loop that makes room for a new group in the host tier ends after some number of rounds that is at
  most the number of groups; before every round pages were short and a group was there, and at the end the pages
  suffice or no group is left.\<close>

theorem evict_loop:
  "\<exists>m \<le> length (ht_groups h). evict_until needed h = (evict_oldest_group ^^ m) h \<and>
     (\<forall>j < m. length (ht_free ((evict_oldest_group ^^ j) h)) < needed \<and> ht_groups ((evict_oldest_group ^^ j) h) \<noteq> []) \<and>
     (needed \<le> length (ht_free (evict_until needed h)) \<or> ht_groups (evict_until needed h) = [])"
  by (rule evict_until_rounds)

theorem evict_loop_witness:
  "\<exists>h m. ht_groups h \<noteq> ([] :: (plan_key list \<times> plan_key list) list) \<and> m \<le> length (ht_groups h) \<and> evict_until 3 h = (evict_oldest_group ^^ m) h \<and>
     ht_groups (evict_until 3 (h :: int host_tier)) = []"
proof -
  let ?h = "the (ac_host demo_served)"
  have "ht_groups ?h \<noteq> []" and e: "ht_groups (evict_until 3 ?h) = []" by code_simp+
  then show ?thesis using evict_loop[of ?h 3] by blast
qed

section \<open>The sampling stages\<close>

text \<open>Concrete parameters: integer tensors, a generator and a transformer that answer with zeros, and step caching on
  request.\<close>

definition demo_torch :: "int torch_env" where
  "demo_torch = \<lparr>tv_ops = int_ops, tv_linspace = (\<lambda>n. rev (map int [0..<nat n])), tv_item = (\<lambda>x. Fin (of_int x)),
     tv_randn = (\<lambda>s shape. replicate (numel shape) 0)\<rparr>"

definition rows_dit :: "nat \<Rightarrow> nat \<Rightarrow> (int, unit, nat) dit" where
  "rows_dit nv na = \<lparr>dit_prepare = (\<lambda>m ts. Inr (None, m)),
     dit_forward = (\<lambda>m args k. Inr ((replicate nv (replicate 96 0), replicate na (replicate 32 0)), Suc m))\<rparr>"

definition demo_sink :: "nat \<Rightarrow> nat \<Rightarrow> (int, unit, nat) sink_env" where
  "demo_sink nv na = \<lparr>se_torch = demo_torch, se_platform_supported = True, se_subblock = True, se_kernels = seq_kernels,
     se_sp = \<lparr>sp_ulysses_world = 4, sp_ulysses_rank = 1, sp_ring_world = 2, sp_ring_rank = 0\<rparr>,
     se_attention = \<lparr>ae_component_backends = [], ae_attention_backend = PStr ''fa'', ae_resolved_vsa = False, ae_config = [],
       ae_cube_build = (\<lambda>_ _ _ _. Inr ()), ae_hybrid_build = (\<lambda>_ _. Inr ())\<rparr>,
     se_cache_server = single_server, se_cache_lib = working_package, se_cache_request = (\<lambda>b. request_with (Some True) []),
     se_tune = (\<lambda>b. Inr), se_compile = Inr, se_refine = Some (map (map uminus)), se_build_rope = Some (\<lambda>ps. Inr []),
     se_dit = rows_dit nv na\<rparr>"

definition demo_keyframe :: "int \<Rightarrow> nat \<Rightarrow> nat \<Rightarrow> int cond_entry" where
  "demo_keyframe fc ph pw = \<lparr>ce_meta = [(''semantic_frame_indices'', PList [PInt (- 1)]), (''frame_count'', PInt fc),
       (''pixel_frame_indices'', PList [PInt (fc - 1)]),
       (''keyframes'', PList [PDict [(''frame_index'', PInt (- 1)), (''resolved_frame_index'', PInt (fc - 1)),
          (''latent_h'', PInt (2 * int ph)), (''latent_w'', PInt (2 * int pw))]]),
       (''latent_h'', PInt (2 * int ph)), (''latent_w'', PInt (2 * int pw))],
     ce_rows = Some \<lparr>t_shape = [ph * pw, 96], t_data = replicate (ph * pw * 96) 7\<rparr>\<rparr>"

definition demo_inputs :: "batch_extra \<Rightarrow> int cond_entry option \<Rightarrow> int h3_batch" where
  "demo_inputs extra kf = \<lparr>hb_extra = extra, hb_num_inference_steps = PInt 2, hb_sampling_steps = PNone, hb_is_warmup = False,
     hb_sampling_seed = PNone, hb_imgvid_noise_aug = PFloat (Fin (1 / 2)), hb_audio_noise_aug = PNone, hb_schedules = None,
     hb_state = None, hb_text = Some \<lparr>te_hidden_states = [[4]], te_text_len = PInt 1, te_token_tags = [1],
       te_video_token_mask = Some [True], te_refined = None\<rparr>, hb_keyframe = kf, hb_ref_image = None, hb_ref_audio = None, hb_ref_video = None,
     hb_sigmas = [], hb_timestep = None, hb_timesteps = None, hb_latents = None, hb_audio_latents = None,
     hb_raw_latent_shape = [], hb_raw_audio_latent_shape = []\<rparr>"

lemma demo_sink_ok: "sink_ok (demo_sink nv na)" "accelerates (demo_sink nv na)" "dit_shaped (se_dit (demo_sink nv na)) nv na"
  "dit_answers (se_dit (demo_sink nv na)) n"
proof -
  have "lower ''fa'' \<noteq> ''cube_sparse_attn''" by code_simp
  then show "sink_ok (demo_sink nv na)"
    by (simp add: sink_ok_def demo_sink_def seq_kernels_ok randn_ok_def demo_torch_def attention_ok_def dget_or_def)
  have "request_valid single_server (request_with (Some True) [])" by code_simp
  then show "accelerates (demo_sink nv na)"
    by (simp add: accelerates_def demo_sink_def working_package_ok(2) single_server_fits)
  show "dit_shaped (se_dit (demo_sink nv na)) nv na" "dit_answers (se_dit (demo_sink nv na)) n"
    by (simp_all add: dit_shaped_def dit_answers_def demo_sink_def rows_dit_def)
qed

lemma demo_keyframe_ok:
  assumes "1 < fc" "0 < ph" "0 < pw"
  shows "keyframe_run_ok ph pw (Some (demo_keyframe fc ph pw)) [- 1] (Some fc)"
  using assms by (simp add: keyframe_run_ok_def keyframe_ok_def demo_keyframe_def MINIMAX_H3_FL2VA_KEYFRAME_SIGNATURES_def
      py_tuple_def eq_ints_def dget_def keyframe_pixels_def entry_get_def int_else_zero_def keyframe_shapes_def meta_int_def
      dindex_def tensor_ok_def)

lemma demo_inputs_ok:
  assumes "keyframe_run_ok ph pw (Some k) [- 1] (Some fc)" and "rp_task plan = ''fl2va''" and "rp_seed plan = PInt 7"
  shows "inputs_ok 1 ph pw [- 1] (Some plan) (demo_inputs extra (Some k))"
proof -
  have "noise_aug_ok (Fin (1 / 2))" by code_simp
  then show ?thesis using assms
    by (auto simp: inputs_ok_def demo_inputs_def text_ok_def task_fits_def minimax_h3_condition_noise_aug_def noise_seed_def seed_ok_def
        MINIMAX_H3_AUDIO_REF_COND_TIMESTEP_def)
qed

text \<open>C5: let a request without reference material be validated and admitted, ask for at least two inference
  steps, and have its text encoded and its keyframes (if any) encoded for its canvas. Then the three sampling stages
  return: no check of the shifts, the schedules, the initial noise, the payloads, the caching step, the layout, the branch,
  the loop or the unpacking fails. The latents published have the shape of the admitted canvas, one sixteenth of its height
  and width, and its latent length; the audio latents have its audio length. The grid is bounded, so no text of up to
  \<open>2 ^ 30\<close> rows overflows the 32-bit sequence lengths. Required of the server: no fused-head schedule, a dense attention
  backend, a sequence-parallel world that divides 64 and positive shifts where the model configures any. Assumed of
  PyTorch: draws of the requested size, and shifted points that stay apart in fp32 and end at zero for the two shifts the
  request resolves to; of the caching package, tuning, compilation and the transformer: that they return, with one velocity
  for each target row.\<close>

theorem admitted_sampling:
  assumes "minimax_h3_validate_canonical_request task prompt conditions target flow audio_flow seed = Inr canonical"
    and "dget canonical ''target'' = PDict tg" and "dget tg ''aspect_ratio'' = PStr ar" and "ratio_known ar"
    and "dget tg ''short_edge'' = PInt edge" and "edge \<le> 2 ^ 50"
    and "map_of (qb_extra q) MINIMAX_H3_RESOLVED_PLAN_EXTRA_KEY = None"
    and "map_of (qb_extra q) MINIMAX_H3_CANONICAL_REQUEST_EXTRA_KEY = Some (EVal (PDict canonical))"
    and adm: "minimax_h3_prepare_for_queue io q = (Inr plan, t)"
    and b: "hb_extra b = DictExtra (qb_extra t)" "hb_state b = None" "hb_schedules b = None"
    and grid: "grid_fixed T ph pw A (rp_shape plan)"
    and inp: "inputs_ok L ph pw sig (Some plan) b" "L \<le> 2 ^ 30"
    and steps: "hb_num_inference_steps b = PInt n" "2 \<le> n" "scales_ok scales"
    and apart: "\<And>c. resolved_scale scales ''video'' (rp_flow_shift plan) (rp_default_flow_shift plan) = Inr c \<Longrightarrow> points_apart (se_torch env) n c"
      "\<And>c. resolved_scale scales ''audio'' (rp_audio_flow_shift plan) (rp_default_audio_flow_shift plan) = Inr c \<Longrightarrow> points_apart (se_torch env) n c"
    and env: "sink_ok env" "accelerates env"
    and dit: "dit_shaped (se_dit env) (T * (ph * pw)) (A * 2)" "dit_answers (se_dit env) (nat n - 1)"
  shows "grid_bounded T ph pw A \<and> (\<exists>latents audio st' b'. sample_stages env scales None st b = (Inr st', b') \<and>
     hb_latents b' = Some latents \<and> t_shape latents = [1, 24, T, 2 * ph, 2 * pw] \<and> tensor_ok latents \<and>
     hb_audio_latents b' = Some audio \<and> t_shape audio = [2, 32, A] \<and> tensor_ok audio)"
proof -
  note S = validated_plan_sound[OF assms(1-8)]
  have sound: "geometry_sound (rp_shape p0) \<and> frames_sound (rp_shape p0) \<and> shifts_ok p0 \<and> (\<exists>sd. plan_seed (rp_seed p0) = Inr sd \<and> seed_ok sd)"
    if "batch_plan q = (Inr p0, b1)" for p0 b1 using S[OF that] by blast
  have F: "shifts_ok plan" "\<exists>sd. plan_seed (rp_seed plan) = Inr sd \<and> seed_ok sd"
    "\<exists>T ph pw A. grid_fixed T ph pw A (rp_shape plan) \<and> grid_bounded T ph pw A"
    "minimax_h3_plan_from_batch (DictExtra (qb_extra t)) = Inr (Some plan, DictExtra (qb_extra t))"
    by (rule admitted_fixed[OF adm], erule sound)+
  have bd: "grid_bounded T ph pw A" using F(3) grid_fixed_unique[OF grid] by blast
  then have pos: "0 < T" "0 < ph" "0 < pw" "0 < A" by (simp_all add: grid_bounded_def)
  have plan: "minimax_h3_plan_from_batch (hb_extra b) = Inr (Some plan, hb_extra b)" using F(4) b(1) by simp
  have fits: "int (ceil_mult 64 (packed_rows L (length sig) T ph pw A)) \<le> 2147483647"
    by (rule bounded_fits[OF bd inp(2) inputs_signature[OF inp(1)]])
  obtain sd where sd: "plan_seed (rp_seed plan) = Inr sd" "seed_ok sd" using F(2) by blast
  obtain sv sa where sch: "plan_schedules (se_torch env) scales b plan = Inr (sv, sa)" "length sv = nat n" "length sa = nat n"
    by (rule plan_schedules_return[OF steps(1,2) F(1) steps(3) apart])
  have len: "length sv = length sa" "2 \<le> length sv" "dit_answers (se_dit env) (length sv - 1)" using sch steps(2) dit(2) by simp_all
  obtain latents audio st' b' where "sample_stages env scales None st b = (Inr st', b')"
    "hb_latents b' = Some latents" "t_shape latents = [1, 24, T, 2 * ph, 2 * pw]" "tensor_ok latents"
    "hb_audio_latents b' = Some audio" "t_shape audio = [2, 32, A]" "tensor_ok audio"
    by (rule sample_stages_return[OF plan b(2,3) grid pos sd inp(1) fits sch(1) len(1,2) env dit(1) len(3)])
  then show ?thesis using bd by blast
qed

text \<open>The demonstration request: 768 by 1024 pixels, 124 frames, a last keyframe.\<close>

lemma demo_plan:
  obtains plan t where "minimax_h3_prepare_for_queue demo_io (demo_batch ''cat.png'') = (Inr plan, t)"
    "rp_task plan = ''fl2va''" "rp_seed plan = PInt 7" "grid_fixed 37 24 32 207 (rp_shape plan)" "rp_flow_shift plan = None"
    "rp_audio_flow_shift plan = None" "rp_default_flow_shift plan = Fin 12" "rp_default_audio_flow_shift plan = Fin 3"
proof -
  have "case fst (minimax_h3_prepare_for_queue demo_io (demo_batch ''cat.png'')) of Inl _ \<Rightarrow> False | Inr plan \<Rightarrow>
      rp_task plan = ''fl2va'' \<and> rp_seed plan = PInt 7 \<and> grid_fixed 37 24 32 207 (rp_shape plan) \<and> rp_flow_shift plan = None \<and>
      rp_audio_flow_shift plan = None \<and> rp_default_flow_shift plan = Fin 12 \<and> rp_default_audio_flow_shift plan = Fin 3"
    by code_simp
  then show ?thesis using that by (cases "minimax_h3_prepare_for_queue demo_io (demo_batch ''cat.png'')") (auto split: sum.splits)
qed

lemma demo_scales:
  assumes "rp_flow_shift plan = None" "rp_audio_flow_shift plan = None" "rp_default_flow_shift plan = Fin 12" "rp_default_audio_flow_shift plan = Fin 3"
  shows "resolved_scale PNone ''video'' (rp_flow_shift plan) (rp_default_flow_shift plan) = Inr (Fin 12)"
    "resolved_scale PNone ''audio'' (rp_audio_flow_shift plan) (rp_default_audio_flow_shift plan) = Inr (Fin 3)"
  by (simp_all add: resolved_scale_def assms raise_if_def is_finite_def fle_def)

lemma demo_apart: "points_apart demo_torch 2 (Fin 12)" "points_apart demo_torch 2 (Fin 3)"
  by code_simp+

lemma demo_schedules:
  assumes "rp_flow_shift plan = None" "rp_audio_flow_shift plan = None" "rp_default_flow_shift plan = Fin 12" "rp_default_audio_flow_shift plan = Fin 3"
  shows "plan_schedules demo_torch PNone (demo_inputs extra kf) plan = Inr ([Fin 1, Fin 0], [Fin 1, Fin 0])"
proof -
  have "schedule demo_torch 2 (Fin 12) = Inr [Fin 1, Fin 0]" "schedule demo_torch 2 (Fin 3) = Inr [Fin 1, Fin 0]" by code_simp+
  then show ?thesis
    by (simp add: plan_schedules_def requested_num_steps_def demo_inputs_def demo_scales[OF assms] raise_if_def)
qed

theorem admitted_sampling_witness:
  "\<exists>plan t latents audio st' b'. minimax_h3_prepare_for_queue demo_io (demo_batch ''cat.png'') = (Inr plan, t) \<and>
     sample_stages (demo_sink (37 * (24 * 32)) (207 * 2)) PNone None (mount_init, 0)
       (demo_inputs (DictExtra (qb_extra t)) (Some (demo_keyframe 124 24 32))) = (Inr st', b') \<and>
     hb_latents b' = Some latents \<and> t_shape latents = [1, 24, 37, 2 * 24, 2 * 32] \<and> hb_audio_latents b' = Some audio \<and> t_shape audio = [2, 32, 207]"
proof -
  obtain plan t where P: "minimax_h3_prepare_for_queue demo_io (demo_batch ''cat.png'') = (Inr plan, t)"
    "rp_task plan = ''fl2va''" "rp_seed plan = PInt 7" "grid_fixed 37 24 32 207 (rp_shape plan)" "rp_flow_shift plan = None"
    "rp_audio_flow_shift plan = None" "rp_default_flow_shift plan = Fin 12" "rp_default_audio_flow_shift plan = Fin 3" by (rule demo_plan)
  let ?b = "demo_inputs (DictExtra (qb_extra t)) (Some (demo_keyframe 124 24 32))" and ?env = "demo_sink (37 * (24 * 32)) (207 * 2)"
  have b: "hb_extra ?b = DictExtra (qb_extra t)" "hb_state ?b = None" "hb_schedules ?b = None" "hb_num_inference_steps ?b = PInt 2"
    by (simp_all add: demo_inputs_def)
  have k: "keyframe_run_ok 24 32 (Some (demo_keyframe 124 24 32)) [- 1] (Some 124)" by (rule demo_keyframe_ok) simp_all
  have L: "(1::nat) \<le> 2 ^ 30" and two: "(2::int) \<le> 2" and sc: "scales_ok PNone" by (simp_all add: scales_ok_def)
  have ap: "resolved_scale PNone ''video'' (rp_flow_shift plan) (rp_default_flow_shift plan) = Inr c \<Longrightarrow> points_apart (se_torch ?env) 2 c"
    "resolved_scale PNone ''audio'' (rp_audio_flow_shift plan) (rp_default_audio_flow_shift plan) = Inr c \<Longrightarrow> points_apart (se_torch ?env) 2 c" for c
    using demo_apart demo_scales[OF P(5-8)] by (auto simp: demo_sink_def)
  from admitted_sampling[OF demo_request demo_extra P(1) b(1-3) P(4) demo_inputs_ok[OF k P(2,3)] L b(4) two sc ap demo_sink_ok, of "(mount_init, 0)"]
  show ?thesis using P(1) by blast
qed

text \<open>C6: on a prepared batch, with or without keyframes, dense or with sub-block sparsity, the denoising stage
  refines the abstract sampler. What it runs on is fixed by the batch: the branch is built from the plain layout of the
  batch with the rows, tags and sparsity queries of its prompt, its text is replaced by the refined rows (computed, or kept
  from an earlier output) and its rotary tables are built from its positions; the condition rows are the encoded
  keyframes, mixed with the noise of the seed when the augmentation is below one. The stage first accelerates (caching
  step included), raising what that raises; then it does what the sampler does from the rows of the initial noise: it
  raises the same error, or publishes latents that patchify to the sampler's video rows and audio latents unpacked from
  its audio rows, in the shapes of the state.\<close>

theorem sampling_refined:
  assumes "batch_ok L T ph pw A sig sv sa plan b" and "h3_plan b = (Inr plan, b\<lparr>hb_extra := x\<rparr>)" and "sink_ok env"
    and "dit_shaped (se_dit env) (T * (ph * pw)) (A * 2)"
  shows "\<exists>te fc sd i ia b0 positive t cond video au.
     hb_text b = Some te \<and> keyframe_run_ok ph pw (hb_keyframe b) sig fc \<and> noise_seed plan (hb_sampling_seed b) = Inr sd \<and>
     minimax_h3_condition_noise_aug b = Inr (i, ia) \<and>
     run_branch env L T ph pw A sig fc (hb_keyframe b) te b0 \<and> completed_branch env te b0 positive \<and>
     keyframe_tensor (se_torch env) T ph pw sig sd i (hb_keyframe b) t \<and> optional_rows t = Inr cond \<and>
     tensor_rows (ds_video (the (hb_state b))) = Inr video \<and> tensor_rows (ds_audio (the (hb_state b))) = Inr au \<and>
     (case accelerate env (int (length sv) - 1) (b\<lparr>hb_extra := x\<rparr>) st of
        Inl e \<Rightarrow> fst (denoising_forward env st b) = Inl e
      | Inr (mt, m) \<Rightarrow>
         (case sampled (tv_ops (se_torch env)) (se_dit env) m positive (anchor_rows cond) (sv, sa) i ia video au of
            Inl e \<Rightarrow> fst (denoising_forward env st b) = Inl e
          | Inr (v, a, m') \<Rightarrow> \<exists>b' latents audio. denoising_forward env st b = (Inr (mt, m'), b') \<and>
              hb_latents b' = Some latents \<and> t_shape latents = [1, 24, T, 2 * ph, 2 * pw] \<and> tensor_ok latents \<and>
              minimax_h3_patchify_video_latent latents [1, 2, 2] = Inr (rows_tensor 96 v) \<and>
              hb_audio_latents b' = Some audio \<and> t_shape audio = [2, 32, A] \<and> tensor_ok audio \<and>
              minimax_h3_unpack_audio_tokens (rows_tensor 32 a) (int (2 * A)) 2 = Inr audio))"
  by (rule run_returns[OF assms, of st]) (intro exI conjI; assumption)

theorem sampling_refined_witness:
  "\<exists>b st' b' latents v. denoising_forward (demo_sink 1 2) (mount_init, 0) b = (Inr st', b') \<and>
     hb_latents b' = Some latents \<and> minimax_h3_patchify_video_latent latents [1, 2, 2] = Inr (rows_tensor 96 v)"
proof -
  let ?s = "\<lparr>ds_video = \<lparr>t_shape = [1, 96], t_data = replicate 96 5\<rparr>, ds_audio = \<lparr>t_shape = [2, 32], t_data = replicate 64 6\<rparr>,
     ds_latent_t = 1, ds_latent_h = 2, ds_latent_w = 2, ds_audio_t = 1\<rparr>"
  let ?b = "(demo_inputs NoExtra None)\<lparr>hb_state := Some ?s, hb_schedules := Some ([Fin 1, Fin 0], [Fin 1, Fin 0])\<rparr>"
  let ?env = "demo_sink 1 2" and ?st = "(mount_init, 0) :: mount \<times> nat"
  have "inputs_ok 1 1 1 [] None ?b"
  proof -
    have "noise_aug_ok (Fin (1 / 2))" by code_simp
    then show ?thesis by (simp add: inputs_ok_def demo_inputs_def text_ok_def task_fits_def keyframe_run_ok_def
        minimax_h3_condition_noise_aug_def noise_seed_def seed_ok_def MINIMAX_H3_AUDIO_REF_COND_TIMESTEP_def)
  qed
  then have ok: "batch_ok 1 1 1 1 1 [] [Fin 1, Fin 0] [Fin 1, Fin 0] None ?b"
    by (simp add: batch_ok_def state_ok_def tensor_ok_def packed_rows_def ceil_mult_def)
  have p: "h3_plan ?b = (Inr None, ?b\<lparr>hb_extra := NoExtra\<rparr>)"
    by (simp add: h3_plan_def demo_inputs_def minimax_h3_plan_from_batch_def)
  have d: "dit_shaped (se_dit ?env) (1 * (1 * 1)) (1 * 2)" using demo_sink_ok(3)[of 1 2] by simp
  obtain mt m where acc: "accelerate ?env (int (length [Fin 1, Fin 0]) - 1) (?b\<lparr>hb_extra := NoExtra\<rparr>) ?st = Inr (mt, m)"
    using accelerate_returns[OF demo_sink_ok(2)] by blast
  have two: "dit_answers (se_dit ?env) (length [Fin 1, Fin 0] - 1)" "length [Fin 1, Fin 0] = length [Fin 1, Fin 0]"
    by (rule demo_sink_ok(4)) simp
  have s: "\<exists>v a m'. sampled ops (se_dit ?env) m br c ([Fin 1, Fin 0], [Fin 1, Fin 0]) i ia w u = Inr (v, a, m')" for ops br c i ia w u
    using sampled_returns[OF two, of ops m br c i ia w u] by (metis prod_cases3)
  obtain i ia br c w u where run: "case sampled (tv_ops (se_torch ?env)) (se_dit ?env) m br c ([Fin 1, Fin 0], [Fin 1, Fin 0]) i ia w u of
      Inl e \<Rightarrow> fst (denoising_forward ?env ?st ?b) = Inl e
    | Inr (v, a, m') \<Rightarrow> \<exists>b' latents audio. denoising_forward ?env ?st ?b = (Inr (mt, m'), b') \<and>
        hb_latents b' = Some latents \<and> t_shape latents = [1, 24, 1, 2 * 1, 2 * 1] \<and> tensor_ok latents \<and>
        minimax_h3_patchify_video_latent latents [1, 2, 2] = Inr (rows_tensor 96 v) \<and>
        hb_audio_latents b' = Some audio \<and> t_shape audio = [2, 32, 1] \<and> tensor_ok audio \<and>
        minimax_h3_unpack_audio_tokens (rows_tensor 32 a) (int (2 * 1)) 2 = Inr audio"
    using sampling_refined[OF ok p demo_sink_ok(1) d, of ?st] unfolding acc sum.case prod.case by (elim exE conjE) (rule that)
  obtain v a m' where sm: "sampled (tv_ops (se_torch ?env)) (se_dit ?env) m br c ([Fin 1, Fin 0], [Fin 1, Fin 0]) i ia w u = Inr (v, a, m')"
    using s by blast
  show ?thesis using run unfolding sm sum.case prod.case by blast
qed

text \<open>C33: the sink rejects stale, middle or reordered keyframes. A run passes the check exactly if it has no payload and
  its task does not require one, or its task takes keyframes and the payload has a supported signature, a frame count
  above one, the pixel indices that resolve it, one entry per anchor in the order of the signature carrying the same
  indices, and as many rows as the anchors fill on its canvas.\<close>

theorem keyframe_accepted:
  "validate_keyframe_payload plan kf = Inr () \<longleftrightarrow>
     (kf = None \<and> map_option rp_task plan \<noteq> Some ''fl2va'') \<or>
     (map_option rp_task plan \<in> {Some ''fl2va'', Some ''ref2va''} \<and> (\<exists>k sig fc h w. kf = Some k \<and> keyframe_ok sig fc h w k))"
  by (cases kf) (auto simp: validate_keyframe_payload_def Let_def raise_if_def validate_keyframe_iff)

text \<open>C34: running the timestep stage once for all batches with one fingerprint is sound. Two batches that name their
  number of steps, carry no schedules yet and have equal fingerprints get the same outcome from the stage: the same
  error, or equal schedules, sigmas and timesteps, whatever fused-head schedule is configured.\<close>

theorem timestep_dedup:
  assumes "timestep_fingerprint scales b1 = (Inr fp, b1')" and "timestep_fingerprint scales b2 = (Inr fp, b2')"
    and "hb_schedules b1 = None" and "hb_schedules b2 = None" and "hb_num_inference_steps b1 \<noteq> PNone"
  shows "fst (timestep_forward env scales cfg b1) = fst (timestep_forward env scales cfg b2) \<and>
     (fst (timestep_forward env scales cfg b1) = Inr () \<longrightarrow>
      published (snd (timestep_forward env scales cfg b1)) = published (snd (timestep_forward env scales cfg b2)))"
  using timestep_forward_dedup[OF assms] by blast

theorem timestep_dedup_witness:
  "\<exists>plan. published (snd (timestep_forward demo_torch PNone None (demo_inputs (DictExtra [(MINIMAX_H3_RESOLVED_PLAN_EXTRA_KEY, EPlan plan)]) None))) =
     published (snd (timestep_forward demo_torch PNone None
       ((demo_inputs (DictExtra [(MINIMAX_H3_RESOLVED_PLAN_EXTRA_KEY, EPlan (plan\<lparr>rp_seed := PInt 1\<rparr>))]) None)\<lparr>hb_sampling_steps := PInt 3\<rparr>)))"
proof -
  obtain plan t where P: "minimax_h3_prepare_for_queue demo_io (demo_batch ''cat.png'') = (Inr plan, t)" "rp_task plan = ''fl2va''"
    "rp_flow_shift plan = None" "rp_audio_flow_shift plan = None" "rp_default_flow_shift plan = Fin 12" "rp_default_audio_flow_shift plan = Fin 3"
    by (rule demo_plan)
  let ?x = "\<lambda>p. DictExtra [(MINIMAX_H3_RESOLVED_PLAN_EXTRA_KEY, EPlan p)]"
  let ?b = "demo_inputs (?x plan) None" and ?c = "(demo_inputs (?x (plan\<lparr>rp_seed := PInt 1\<rparr>)) None)\<lparr>hb_sampling_steps := PInt 3\<rparr>"
  have pl: "h3_plan b = (Inr (Some p), b)" if "hb_extra b = ?x p" for b :: "int h3_batch" and p
    by (rule h3_plan_cached) (simp add: that minimax_h3_plan_from_batch_def plan_from_mapping_def extra_get_def dget_or_def)
  let ?fp = "(PInt 2, False, (None, None, Fin 12, Fin 3), PNone)"
  have fp: "timestep_fingerprint PNone b = (Inr (hb_num_inference_steps b, hb_is_warmup b,
      (rp_flow_shift p, rp_audio_flow_shift p, rp_default_flow_shift p, rp_default_audio_flow_shift p), PNone), b)"
    if "hb_extra b = ?x p" for b :: "int h3_batch" and p
    by (simp add: timestep_fingerprint_def required_plan_def abind_def areturn_def pl[OF that])
  have e: "hb_extra ?b = ?x plan" "hb_extra ?c = ?x (plan\<lparr>rp_seed := PInt 1\<rparr>)" by (simp_all add: demo_inputs_def)
  have f: "timestep_fingerprint PNone ?b = (Inr ?fp, ?b)" "timestep_fingerprint PNone ?c = (Inr ?fp, ?c)"
    unfolding fp[OF e(1)] fp[OF e(2)] by (simp_all add: demo_inputs_def P)
  have pre: "hb_schedules ?b = None" "hb_schedules ?c = None" "hb_num_inference_steps ?b \<noteq> PNone" by (simp_all add: demo_inputs_def)
  have "fst (timestep_forward demo_torch PNone None ?b) = Inr ()"
  proof -
    have c: "minimax_h3_plan_from_batch (hb_extra ?b) = Inr (Some plan, hb_extra ?b)"
      unfolding e by (simp add: minimax_h3_plan_from_batch_def plan_from_mapping_def extra_get_def dget_or_def)
    show ?thesis using timestep_forward_fresh[OF c pre(1) demo_schedules[OF P(3-6)]] by simp
  qed
  with timestep_dedup[OF f pre, of demo_torch None] show ?thesis by blast
qed

section \<open>Step caching\<close>

text \<open>C11: attached hooks sit on blocks that keep their inputs, through any sequence of requests, whether they
  succeed or fail, and whatever the calls into the \<^verbatim>\<open>cache_dit\<close> package did to the hooks. (Hooks on blocks that overwrite their
  inputs would read every residual as zero.) A package whose hooks put the blocks out of reach of the setter, as its
  comment says, may behave in any way. Where the blocks stay within reach, as the comment of the disarming path fears, two
  things are required: a \<^verbatim>\<open>disable_cache\<close> that returns has detached the hooks (it may raise and leave them), and the request is
  no ordinary warm-up (the one path that turns preservation off without looking for hooks).\<close>
theorem cached_inputs_preserved:
  assumes "mount_reach sv (call_safe sv) s" and "mt_hooks s \<noteq> None"
  shows "mt_preserve s"
  using reach_inputs_kept[OF assms(1)] assms(2) by (simp add: inputs_kept_def)

text \<open>A first mount that fails after the hooks were attached, on a package that cannot remove them and leaves the blocks
  within reach.\<close>

theorem cached_inputs_preserved_witness:
  "let s = snd (maybe_enable_cache_dit single_server stuck_package (request_with (Some True) []) 8 mount_init)
   in mt_hooks s \<noteq> None \<and> \<not> mt_enabled s \<and> mt_preserve s"
proof -
  define s where "s = snd (maybe_enable_cache_dit single_server stuck_package (request_with (Some True) []) 8 mount_init)"
  have "mount_reach single_server (call_safe single_server) s"
    unfolding s_def by (rule mount_reach.request[where ok = "call_safe single_server" and l = stuck_package and rq = "request_with (Some True) []",
        OF mount_reach.start stuck_package_safe prod.collapse[symmetric]])
  moreover have "mt_hooks s \<noteq> None" "\<not> mt_enabled s" unfolding s_def by code_simp+
  ultimately show ?thesis using cached_inputs_preserved[of single_server s] by (simp add: s_def Let_def)
qed

text \<open>C12: when every call into the package so far either did its work or raised and changed nothing, a
  request with acceptable overrides on a working package returns from the caching step, and then: with breakable CUDA
  graphs, or when the request wants no caching, no hooks are attached; otherwise the attached hooks have the request's
  number of steps and knobs the stage's key comparison cannot tell from the request's, under the request's mode, and the
  blocks keep their inputs; an ordinary warm-up may instead run without hooks. Nothing is said of the step mask and its
  policy: a refresh replaces them by the preset's.\<close>
theorem cached_request_served:
  assumes "mount_reach sv (\<lambda>l rq. lib_clean l \<and> params_ok rq) s" and "lib_clean l" and "lib_works l"
    and "model_fits sv" and "params_ok rq" and "request_valid sv rq"
  shows "\<exists>t. maybe_enable_cache_dit sv l rq n s = (Inr (), t) \<and>
    (if sv_breakable sv \<or> desired_mode (sv_env sv) rq = None then mt_hooks t = None \<and> \<not> mt_enabled t
     else (plain_warmup sv rq \<and> mt_hooks t = None \<and> \<not> mt_enabled t) \<or> (hooks_serve sv rq n t \<and> mt_preserve t))"
proof -
  obtain t where t: "maybe_enable_cache_dit sv l rq n s = (Inr (), t)" using request_returns[OF assms(3,4,6)] by blast
  have dit: "sv_dit_group sv = Inr ()" using assms(4) by (simp add: model_fits_def)
  have "mount_reach sv (\<lambda>l rq. lib_clean l \<and> params_ok rq) t"
    by (rule mount_reach.request[OF assms(1) _ t]) (simp add: assms(2,5))
  then have "mt_hooks t \<noteq> None \<Longrightarrow> mt_preserve t" using clean_inputs_kept[OF dit] by (auto simp: inputs_kept_def)
  moreover note request_clean[OF assms(2) dit assms(5) reach_mounted_ok[OF dit assms(1)] t]
  ultimately show ?thesis using t by (auto simp: no_hooks_def hooks_serve_def)
qed

text \<open>A request mounted with one block count, then the same knobs for more steps, then a request without caching.\<close>

theorem cached_request_served_witness:
  "let rq = request_with (Some True) [(''Fn_compute_blocks'', PInt 2)];
       s1 = snd (maybe_enable_cache_dit single_server working_package rq 8 mount_init);
       s2 = snd (maybe_enable_cache_dit single_server working_package rq 30 s1);
       s3 = snd (maybe_enable_cache_dit single_server working_package (request_with None []) 30 s2)
   in hooks_serve single_server rq 30 s2 \<and> mt_hooks s3 = None"
proof -
  let ?ok = "\<lambda>l rq. lib_clean l \<and> params_ok rq"
  let ?rq = "request_with (Some True) [(''Fn_compute_blocks'', PInt 2)]" and ?run = "maybe_enable_cache_dit single_server working_package"
  define s1 s2 where "s1 = snd (?run ?rq 8 mount_init)" and "s2 = snd (?run ?rq 30 s1)"
  have p: "params_ok ?rq" "params_ok (request_with None [])" by (simp_all add: params_ok_def request_with_def)
  have v: "request_valid single_server ?rq" "request_valid single_server (request_with None [])" by code_simp+
  have step: "mount_reach single_server ?ok (snd (?run rq n s))" if "mount_reach single_server ?ok s" "params_ok rq" for rq n s
    using mount_reach.request[OF that(1), where l = working_package and rq = rq and n = n] working_package_ok(1) that(2)
    by (cases "?run rq n s") simp
  have r1: "mount_reach single_server ?ok s1" unfolding s1_def by (rule step[OF mount_reach.start p(1)])
  have r2: "mount_reach single_server ?ok s2" unfolding s2_def by (rule step[OF r1 p(1)])
  note served = cached_request_served[OF _ working_package_ok single_server_fits]
  have w: "desired_mode (sv_env single_server) ?rq = Some ''generic''" "desired_mode (sv_env single_server) (request_with None []) = None"
    "\<not> sv_breakable single_server" "\<not> plain_warmup single_server ?rq" by code_simp+
  obtain t where t: "?run ?rq 30 s1 = (Inr (), t)" "hooks_serve single_server ?rq 30 t"
    using served[OF r1 p(1) v(1), of 30] w by auto
  obtain u where u: "?run (request_with None []) 30 s2 = (Inr (), u)" "mt_hooks u = None"
    using served[OF r2 p(2) v(2), of 30] w by auto
  show ?thesis using t u by (simp add: s1_def s2_def Let_def)
qed

end
